(* ===== verification/Go_Prelude.thy ===== *)
theory Go_Prelude
  imports Main "HOL-Library.AList" "HOL-Library.Multiset"
begin

text \<open>
  Shared vocabulary of the development: results of Go functions that may fail, 64-bit
  signed arithmetic, Go maps as association lists, and the interfaces that several jobs
  rely on (splitting a slice into batches, grouping values under a key).

  A Go map is an association list with distinct keys; lookup is \<^const>\<open>map_of\<close> and
  assignment is \<^const>\<open>AList.update\<close>.  The order in which Go ranges over a map is not
  specified: definitions that range over a map and whose result depends on the order take
  the order as an argument.
\<close>

section \<open>Results\<close>

text \<open>An error value is its message.\<close>

type_synonym go_error = string

text \<open>
  The outcome of a computation that calls an outside service: a value, an error, a Go panic,
  or no answer within the fuel given to a loop whose end is decided by the service.
\<close>

datatype 'a outcome = Ok 'a | Err go_error | Panicked | OutOfFuel

fun bind_outcome :: "'a outcome \<Rightarrow> ('a \<Rightarrow> 'b outcome) \<Rightarrow> 'b outcome" where
  "bind_outcome (Ok x) f = f x"
| "bind_outcome (Err e) f = Err e"
| "bind_outcome Panicked f = Panicked"
| "bind_outcome OutOfFuel f = OutOfFuel"

named_theorems outcome_simps \<open>rewrite rules for outcomes and call sequences\<close>
named_theorems go_defs \<open>definitions that are unfolded to evaluate a concrete run\<close>

lemma bind_outcome_Ok_iff [outcome_simps]:
  "bind_outcome m f = Ok y \<longleftrightarrow> (\<exists>x. m = Ok x \<and> f x = Ok y)"
  by (cases m) auto

lemma sum_case_InrE:
  assumes "(case r of Inl e \<Rightarrow> Inl e | Inr x \<Rightarrow> f x) = Inr y"
  obtains x where "r = Inr x" and "f x = Inr y"
  using assms by (cases r) auto

section \<open>Computations with effects\<close>

text \<open>
  A computation on a state \<open>'s\<close>: the calls made to outside services, or the tables of a database.
  An error, a panic and running out of fuel end it and keep the state reached so far.
\<close>

type_synonym ('s, 'a) eff = "'s \<Rightarrow> 'a outcome \<times> 's"

definition eff_return :: "'a \<Rightarrow> ('s, 'a) eff" where
  "eff_return x h = (Ok x, h)"

definition eff_fail :: "go_error \<Rightarrow> ('s, 'a) eff" where
  "eff_fail e h = (Err e, h)"

definition eff_panic :: "('s, 'a) eff" where
  "eff_panic h = (Panicked, h)"

definition eff_out_of_fuel :: "('s, 'a) eff" where
  "eff_out_of_fuel h = (OutOfFuel, h)"

definition bind_eff :: "('s, 'a) eff \<Rightarrow> ('a \<Rightarrow> ('s, 'b) eff) \<Rightarrow> ('s, 'b) eff" where
  "bind_eff m f h =
     (case m h of
        (Ok x, h') \<Rightarrow> f x h'
      | (Err e, h') \<Rightarrow> (Err e, h')
      | (Panicked, h') \<Rightarrow> (Panicked, h')
      | (OutOfFuel, h') \<Rightarrow> (OutOfFuel, h'))"

text \<open>The error of a computation as a value, for callers that handle it.\<close>

definition try_eff :: "('s, 'a) eff \<Rightarrow> ('s, go_error + 'a) eff" where
  "try_eff m h =
     (case m h of
        (Ok x, h') \<Rightarrow> (Ok (Inr x), h')
      | (Err e, h') \<Rightarrow> (Ok (Inl e), h')
      | (Panicked, h') \<Rightarrow> (Panicked, h')
      | (OutOfFuel, h') \<Rightarrow> (OutOfFuel, h'))"

definition eff_result :: "go_error + 'a \<Rightarrow> ('s, 'a) eff" where
  "eff_result r = (case r of Inl e \<Rightarrow> eff_fail e | Inr x \<Rightarrow> eff_return x)"

lemma eff_simps [simp]:
  "eff_return x h = (Ok x, h)" "eff_fail e h = (Err e, h)" "eff_panic h = (Panicked, h)"
  "eff_out_of_fuel h = (OutOfFuel, h)"
  by (simp_all add: eff_return_def eff_fail_def eff_panic_def eff_out_of_fuel_def)

lemma bind_eff_Ok:
  "bind_eff m f h = (Ok y, h') \<longleftrightarrow> (\<exists>x h1. m h = (Ok x, h1) \<and> f x h1 = (Ok y, h'))"
  by (auto simp: bind_eff_def split: prod.splits outcome.splits)

lemma bind_eff_outcome:
  "bind_eff m f h = (r, h') \<longleftrightarrow>
     (\<exists>x h1. m h = (Ok x, h1) \<and> f x h1 = (r, h')) \<or>
     (\<exists>r1. m h = (r1, h') \<and> ((\<exists>e. r1 = Err e \<and> r = Err e) \<or> r1 = Panicked \<and> r = Panicked
        \<or> r1 = OutOfFuel \<and> r = OutOfFuel))"
  by (auto simp: bind_eff_def split: prod.splits outcome.splits)

lemma try_eff_Ok:
  "try_eff m h = (Ok r, h') \<longleftrightarrow>
     (\<exists>x. m h = (Ok x, h') \<and> r = Inr x) \<or> (\<exists>e. m h = (Err e, h') \<and> r = Inl e)"
  by (auto simp: try_eff_def split: prod.splits outcome.splits)

subsection \<open>Computations that return\<close>

definition returns :: "('s, 'a) eff \<Rightarrow> bool" where
  "returns m \<longleftrightarrow> (\<forall>h. fst (m h) \<noteq> OutOfFuel)"

named_theorems returning \<open>rules for computations that return\<close>

lemma returns_simple [returning]:
  "returns (eff_return x)" "returns (eff_fail e)" "returns eff_panic" "returns (Pair (Ok x))"
  by (simp_all add: returns_def)

lemma returns_bindI:
  assumes "returns m" and "\<And>h x h'. m h = (Ok x, h') \<Longrightarrow> returns (f x)"
  shows "returns (bind_eff m f)"
  unfolding returns_def
proof
  fix h
  show "fst (bind_eff m f h) \<noteq> OutOfFuel"
    using assms(1) assms(2) [of h] unfolding returns_def bind_eff_def
    by (auto split: prod.splits outcome.splits) (metis fst_conv)+
qed

lemma returns_bind [returning]: "returns m \<Longrightarrow> (\<And>x. returns (f x)) \<Longrightarrow> returns (bind_eff m f)"
  by (rule returns_bindI)

lemma returns_try [returning]: "returns m \<Longrightarrow> returns (try_eff m)"
  unfolding returns_def try_eff_def by (auto split: prod.splits outcome.splits) (metis fst_conv)

lemma returns_result [returning]: "returns (eff_result r)"
  unfolding eff_result_def by (auto split: sum.split intro: returning)

subsection \<open>Invariants of computations\<close>

text \<open>\<open>keeps R m\<close>: \<open>m\<close> relates the state before to the state after by \<open>R\<close>, whatever the outcome.\<close>

definition keeps :: "('s \<Rightarrow> 's \<Rightarrow> bool) \<Rightarrow> ('s, 'a) eff \<Rightarrow> bool" where
  "keeps R m \<longleftrightarrow> (\<forall>h. R h (snd (m h)))"

definition preorder_rel :: "('s \<Rightarrow> 's \<Rightarrow> bool) \<Rightarrow> bool" where
  "preorder_rel R \<longleftrightarrow> (\<forall>x. R x x) \<and> (\<forall>x y z. R x y \<longrightarrow> R y z \<longrightarrow> R x z)"

lemma keeps_simple:
  assumes "preorder_rel R"
  shows "keeps R (eff_return x)" "keeps R (eff_fail e)" "keeps R eff_panic" "keeps R eff_out_of_fuel"
    "keeps R (Pair r)"
  using assms by (simp_all add: keeps_def preorder_rel_def)

lemma keeps_bind:
  assumes "preorder_rel R" and "keeps R m" and "\<And>x. keeps R (f x)"
  shows "keeps R (bind_eff m f)"
  unfolding keeps_def
proof
  fix h
  obtain r h1 where m: "m h = (r, h1)" by fastforce
  have "R h h1" using assms(2) m by (metis keeps_def snd_conv)
  moreover have "R h1 (snd (f x h1))" for x using assms(3) by (simp add: keeps_def)
  moreover have trans: "R x y \<Longrightarrow> R y z \<Longrightarrow> R x z" for x y z
    using assms(1) unfolding preorder_rel_def by blast
  ultimately show "R h (snd (bind_eff m f h))"
    using m by (cases r) (auto simp: bind_eff_def intro: trans)
qed

lemma keeps_try: "keeps R m \<Longrightarrow> keeps R (try_eff m)"
  unfolding keeps_def try_eff_def by (auto split: prod.splits outcome.splits) (metis snd_conv)+

section \<open>64-bit signed integers\<close>

text \<open>Go's \<open>int\<close>, \<open>int64\<close> and \<open>time.Duration\<close> wrap around at 64 bits.\<close>

definition wrap64 :: "int \<Rightarrow> int" where
  "wrap64 i = (i + 2 ^ 63) mod 2 ^ 64 - 2 ^ 63"

definition int64 :: "int \<Rightarrow> bool" where
  "int64 i \<longleftrightarrow> - (2 ^ 63) \<le> i \<and> i < 2 ^ 63"

lemma wrap64_id [simp]: "int64 i \<Longrightarrow> wrap64 i = i"
  by (simp add: wrap64_def int64_def)

lemma int64_wrap64 [simp]: "int64 (wrap64 i)"
proof -
  have "0 \<le> (i + 2 ^ 63) mod 2 ^ 64" and "(i + 2 ^ 63) mod 2 ^ 64 < (2 ^ 64 :: int)"
    by simp_all
  then show ?thesis by (simp add: wrap64_def int64_def)
qed

text \<open>Go divides towards zero; the remainder has the sign of the dividend.\<close>

definition go_div :: "int \<Rightarrow> int \<Rightarrow> int" where
  "go_div a b = sgn a * sgn b * (\<bar>a\<bar> div \<bar>b\<bar>)"

definition go_mod :: "int \<Rightarrow> int \<Rightarrow> int" where
  "go_mod a b = a - b * go_div a b"

lemma go_div_nonneg [simp]: "0 \<le> a \<Longrightarrow> 0 < b \<Longrightarrow> go_div a b = a div b"
  by (cases "a = 0") (simp_all add: go_div_def)

lemma go_mod_nonneg [simp]: "0 \<le> a \<Longrightarrow> 0 < b \<Longrightarrow> go_mod a b = a mod b"
  by (simp add: go_mod_def minus_mult_div_eq_mod)

section \<open>Sorting\<close>

text \<open>
  \<open>sort.Slice\<close> is not stable: its contract is a permutation that is sorted by the key.
  Definitions that call it take the sorting function as an argument; this predicate is the
  documented contract.  \<open>sort.SliceStable\<close> is \<^const>\<open>sort_key\<close>.
\<close>

definition slice_sorter :: "(('a \<Rightarrow> int) \<Rightarrow> 'a list \<Rightarrow> 'a list) \<Rightarrow> bool" where
  "slice_sorter srt \<longleftrightarrow>
     (\<forall>k xs. mset (srt k xs) = mset xs \<and> sorted (map k (srt k xs)))"

lemma slice_sorter_sort_key [simp]: "slice_sorter sort_key"
  by (simp add: slice_sorter_def)

lemma slice_sorter_mset: "slice_sorter srt \<Longrightarrow> mset (srt k xs) = mset xs"
  by (simp add: slice_sorter_def)

lemma slice_sorter_sorted: "slice_sorter srt \<Longrightarrow> sorted (map k (srt k xs))"
  by (simp add: slice_sorter_def)

lemma slice_sorter_set: "slice_sorter srt \<Longrightarrow> set (srt k xs) = set xs"
  by (metis slice_sorter_mset set_mset_mset)

lemma slice_sorter_length: "slice_sorter srt \<Longrightarrow> length (srt k xs) = length xs"
  by (metis slice_sorter_mset size_mset)

text \<open>The order in which a map is ranged over: any permutation of its entries.\<close>

definition range_order :: "('a list \<Rightarrow> 'a list) \<Rightarrow> bool" where
  "range_order rng \<longleftrightarrow> (\<forall>xs. mset (rng xs) = mset xs)"

lemma range_order_set: "range_order rng \<Longrightarrow> set (rng xs) = set xs"
  by (metis range_order_def set_mset_mset)

lemma range_order_id [simp]: "range_order (\<lambda>xs. xs)"
  by (simp add: range_order_def)

section \<open>Splitting a slice into batches\<close>

text \<open>
  The contract of every batching loop of the jobs: for a positive batch size the batches,
  in order, are the slice, none is empty and none is longer than the batch size.
\<close>

locale batching =
  fixes batches :: "nat \<Rightarrow> 'a list \<Rightarrow> 'a list list"
  assumes batches_concat: "0 < n \<Longrightarrow> concat (batches n xs) = xs"
    and batches_nonempty: "0 < n \<Longrightarrow> b \<in> set (batches n xs) \<Longrightarrow> b \<noteq> []"
    and batches_bound: "0 < n \<Longrightarrow> b \<in> set (batches n xs) \<Longrightarrow> length b \<le> n"
begin

lemma batches_set: "0 < n \<Longrightarrow> (\<Union>b \<in> set (batches n xs). set b) = set xs"
  using batches_concat [of n xs] by (metis set_concat)

lemma batches_sum: "0 < n \<Longrightarrow> sum_list (map length (batches n xs)) = length xs"
  using batches_concat [of n xs] by (metis length_concat)

lemma batches_count_le: "0 < n \<Longrightarrow> length (batches n xs) \<le> length xs"
proof -
  assume n: "0 < n"
  have "b \<in> set (batches n xs) \<Longrightarrow> 1 \<le> length b" for b
    using batches_nonempty [OF n, of b xs] by (cases b) auto
  then have "sum_list (map (\<lambda>_. 1) (batches n xs)) \<le> sum_list (map length (batches n xs))"
    by (intro sum_list_mono) blast
  then show ?thesis using batches_sum [OF n] by (simp add: sum_list_triv)
qed

lemma batches_count_ge: "0 < n \<Longrightarrow> length xs \<le> n * length (batches n xs)"
proof -
  assume n: "0 < n"
  have "sum_list (map length (batches n xs)) \<le> sum_list (map (\<lambda>_. n) (batches n xs))"
    by (intro sum_list_mono) (rule batches_bound [OF n])
  then show ?thesis
    using batches_sum [OF n] by (simp add: sum_list_triv mult.commute)
qed

lemma batches_fold: "0 < n \<Longrightarrow> fold (\<lambda>b s. fold f b s) (batches n xs) s = fold f xs s"
proof -
  assume n: "0 < n"
  have "fold (\<lambda>b s. fold f b s) bs s = fold f (concat bs) s" for bs
    by (induction bs arbitrary: s) simp_all
  then show ?thesis by (simp add: batches_concat [OF n])
qed

end

section \<open>Grouping values under a key\<close>

text \<open>
  The contract of the maps the jobs build with
  \<^verbatim>\<open>m[key] = append(m[key], v)\<close>: \<open>put\<close> appends one value to the group of its key and
  leaves every other group alone.
\<close>

locale grouping =
  fixes empty_groups :: "'m"
    and put :: "'v \<Rightarrow> 'm \<Rightarrow> 'm"
    and members :: "'m \<Rightarrow> 'k \<Rightarrow> 'v list"
    and key_of :: "'v \<Rightarrow> 'k"
  assumes members_empty: "members empty_groups k = []"
    and members_put: "members (put v m) k = (if key_of v = k then members m k @ [v] else members m k)"
begin

lemma members_fold_put: "members (fold put vs m) k = members m k @ filter (\<lambda>v. key_of v = k) vs"
  by (induction vs arbitrary: m) (simp_all add: members_put)

lemma members_grouped: "members (fold put vs empty_groups) k = filter (\<lambda>v. key_of v = k) vs"
  by (simp add: members_fold_put members_empty)

lemma members_partition:
  "v \<in> set (members (fold put vs empty_groups) k) \<longleftrightarrow> v \<in> set vs \<and> key_of v = k"
  by (auto simp: members_grouped)

end

section \<open>Association lists\<close>

lemma map_of_eq_None_keys: "map_of m k = None \<longleftrightarrow> k \<notin> fst ` set m"
  by (simp add: map_of_eq_None_iff)

lemma keys_update [simp]: "fst ` set (AList.update k v m) = insert k (fst ` set m)"
proof -
  have "dom (map_of (AList.update k v m)) = insert k (dom (map_of m))"
    by (simp add: update_conv')
  then show ?thesis by (simp add: dom_map_of_conv_image_fst)
qed

lemma map_of_update [simp]: "map_of (AList.update k v m) = (map_of m)(k \<mapsto> v)"
  by (simp add: update_conv')

lemma set_update_subset: "p \<in> set (AList.update k v m) \<Longrightarrow> p \<in> set m \<or> p = (k, v)"
  by (induction m) (auto split: if_splits)

definition group_append :: "'k \<Rightarrow> 'v \<Rightarrow> ('k \<times> 'v list) list \<Rightarrow> ('k \<times> 'v list) list" where
  "group_append k v m = AList.update k (case map_of m k of None \<Rightarrow> [v] | Some vs \<Rightarrow> vs @ [v]) m"

definition group_members :: "('k \<times> 'v list) list \<Rightarrow> 'k \<Rightarrow> 'v list" where
  "group_members m k = (case map_of m k of None \<Rightarrow> [] | Some vs \<Rightarrow> vs)"

lemma group_members_append [simp]:
  "group_members (group_append k v m) k' =
     (if k = k' then group_members m k' @ [v] else group_members m k')"
  by (simp add: group_append_def group_members_def split: option.splits)

lemma group_members_Nil [simp]: "group_members [] k = []"
  by (simp add: group_members_def)

lemma distinct_group_append [simp]:
  "distinct (map fst m) \<Longrightarrow> distinct (map fst (group_append k v m))"
  by (simp add: group_append_def distinct_update)

lemma keys_group_append [simp]: "fst ` set (group_append k v m) = insert k (fst ` set m)"
  by (simp add: group_append_def)

section \<open>Covering a span of time by windows\<close>

text \<open>Half-open windows of which each starts where the one before it ends.\<close>

fun chained :: "(int \<times> int) list \<Rightarrow> bool" where
  "chained [] = True"
| "chained [w] = (fst w < snd w)"
| "chained (w # v # ws) = (fst w < snd w \<and> snd w = fst v \<and> chained (v # ws))"

definition in_window :: "int \<Rightarrow> int \<times> int \<Rightarrow> bool" where
  "in_window t w \<longleftrightarrow> fst w \<le> t \<and> t < snd w"

lemma chained_first_le: "chained (w # ws) \<Longrightarrow> v \<in> set (w # ws) \<Longrightarrow> fst w \<le> fst v"
  by (induction ws arbitrary: w) fastforce+

lemma chained_append_last:
  "chained (ws @ [(a, b)]) \<Longrightarrow> b \<le> c \<Longrightarrow> chained (ws @ [(a, c)])"
proof (induction ws rule: chained.induct)
  case (2 w)
  then show ?case by auto
qed auto

lemma chained_unique:
  "chained ws \<Longrightarrow> ws \<noteq> [] \<Longrightarrow> fst (hd ws) \<le> t \<Longrightarrow> t < snd (last ws) \<Longrightarrow>
   length (filter (in_window t) ws) = 1"
proof (induction ws rule: chained.induct)
  case (3 w v ws)
  show ?case
  proof (cases "t < snd w")
    case True
    then have "\<not> in_window t u" if "u \<in> set (v # ws)" for u
      using that chained_first_le [of v ws u] "3.prems"(1) by (auto simp: in_window_def)
    then have "filter (in_window t) (v # ws) = []" unfolding filter_empty_conv by blast
    moreover have "in_window t w" using True "3.prems" by (simp add: in_window_def)
    ultimately show ?thesis by simp
  next
    case False
    with 3 show ?thesis by (simp add: in_window_def)
  qed
qed (simp_all add: in_window_def)

text \<open>
  The contract of the planners that cut a span \<open>[lo, hi]\<close>, both ends included, into windows to
  be queried one after the other: the windows are chained, start no later than \<open>lo\<close> and end
  after \<open>hi\<close>.
\<close>

locale time_cover =
  fixes windows :: "'p \<Rightarrow> int \<Rightarrow> int \<Rightarrow> (int \<times> int) list"
    and plannable :: "'p \<Rightarrow> int \<Rightarrow> int \<Rightarrow> bool"
  assumes windows_nonempty: "plannable p lo hi \<Longrightarrow> windows p lo hi \<noteq> []"
    and windows_chained: "plannable p lo hi \<Longrightarrow> chained (windows p lo hi)"
    and windows_start: "plannable p lo hi \<Longrightarrow> fst (hd (windows p lo hi)) \<le> lo"
    and windows_end: "plannable p lo hi \<Longrightarrow> hi < snd (last (windows p lo hi))"
begin

text \<open>Every instant of the span is in exactly one window.\<close>

lemma exactly_one_window:
  "plannable p lo hi \<Longrightarrow> lo \<le> t \<Longrightarrow> t \<le> hi \<Longrightarrow>
   length (filter (in_window t) (windows p lo hi)) = 1"
  using chained_unique [of "windows p lo hi" t] windows_nonempty [of p lo hi]
    windows_chained [of p lo hi] windows_start [of p lo hi] windows_end [of p lo hi] by auto

end

end
