(* ===== verification/Go_Strings.thy ===== *)
theory Go_Strings
  imports Go_Prelude
begin

text \<open>
  The part of Go's \<open>strings\<close> and \<open>strconv\<close> packages that the modelled code calls.
  A Go string is a byte sequence, modelled as a char list.  Case mapping and white space
  are those of ASCII: index names, identifiers, statuses and durations are ASCII.
\<close>

section \<open>Definitions\<close>

definition go_has_prefix :: "string \<Rightarrow> string \<Rightarrow> bool" where
  "go_has_prefix s p \<longleftrightarrow> take (length p) s = p"

definition go_has_suffix :: "string \<Rightarrow> string \<Rightarrow> bool" where
  "go_has_suffix s p \<longleftrightarrow> length p \<le> length s \<and> drop (length s - length p) s = p"

definition go_trim_prefix :: "string \<Rightarrow> string \<Rightarrow> string" where
  "go_trim_prefix s p = (if go_has_prefix s p then drop (length p) s else s)"

definition go_trim_suffix :: "string \<Rightarrow> string \<Rightarrow> string" where
  "go_trim_suffix s p = (if go_has_suffix s p then take (length s - length p) s else s)"

fun go_split :: "char \<Rightarrow> string \<Rightarrow> string list" where
  "go_split c [] = [[]]"
| "go_split c (x # xs) =
     (if x = c then [] # go_split c xs
      else (case go_split c xs of [] \<Rightarrow> [[x]] | w # ws \<Rightarrow> (x # w) # ws))"

fun go_join :: "string \<Rightarrow> string list \<Rightarrow> string" where
  "go_join sep [] = []"
| "go_join sep [w] = w"
| "go_join sep (w # v # ws) = w @ sep @ go_join sep (v # ws)"

fun go_contains :: "string \<Rightarrow> string \<Rightarrow> bool" where
  "go_contains [] p = (p = [])"
| "go_contains (x # xs) p = (go_has_prefix (x # xs) p \<or> go_contains xs p)"

text \<open>\<open>strings.ReplaceAll\<close>; an empty \<open>old\<close> matches before every character and at the end.\<close>

function go_replace_all :: "string \<Rightarrow> string \<Rightarrow> string \<Rightarrow> string" where
  "go_replace_all s old new =
     (if old = [] then new @ concat (map (\<lambda>c. c # new) s)
      else if s = [] then []
      else if go_has_prefix s old then new @ go_replace_all (drop (length old) s) old new
      else hd s # go_replace_all (tl s) old new)"
  by pat_completeness auto
termination
  by (relation "measure (\<lambda>(s, old, new). length s)") (auto simp: neq_Nil_conv)

declare go_replace_all.simps [simp del]

definition ascii_lower :: "char \<Rightarrow> char" where
  "ascii_lower c =
     (let n = of_char c :: nat in if 65 \<le> n \<and> n \<le> 90 then char_of (n + 32) else c)"

definition ascii_upper :: "char \<Rightarrow> char" where
  "ascii_upper c =
     (let n = of_char c :: nat in if 97 \<le> n \<and> n \<le> 122 then char_of (n - 32) else c)"

definition go_to_lower :: "string \<Rightarrow> string" where
  "go_to_lower s = map ascii_lower s"

definition go_to_upper :: "string \<Rightarrow> string" where
  "go_to_upper s = map ascii_upper s"

definition go_equal_fold :: "string \<Rightarrow> string \<Rightarrow> bool" where
  "go_equal_fold s t \<longleftrightarrow> go_to_lower s = go_to_lower t"

definition ascii_space :: "char \<Rightarrow> bool" where
  "ascii_space c \<longleftrightarrow> (let n = of_char c :: nat in n = 32 \<or> (9 \<le> n \<and> n \<le> 13))"

definition go_trim_space :: "string \<Rightarrow> string" where
  "go_trim_space s = rev (dropWhile ascii_space (rev (dropWhile ascii_space s)))"

definition is_digit :: "char \<Rightarrow> bool" where
  "is_digit c \<longleftrightarrow> (let n = of_char c :: nat in 48 \<le> n \<and> n \<le> 57)"

definition digit_value :: "char \<Rightarrow> int" where
  "digit_value c = int (of_char c) - 48"

definition digit_char :: "nat \<Rightarrow> char" where
  "digit_char d = char_of (48 + d)"

fun digits_value :: "int \<Rightarrow> string \<Rightarrow> int" where
  "digits_value a [] = a"
| "digits_value a (c # cs) = digits_value (10 * a + digit_value c) cs"

definition parse_digits :: "string \<Rightarrow> int option" where
  "parse_digits s = (if s \<noteq> [] \<and> list_all is_digit s then Some (digits_value 0 s) else None)"

text \<open>\<open>strconv.Atoi\<close>: an optional sign, at least one decimal digit, and a 64-bit range.\<close>

definition go_atoi :: "string \<Rightarrow> int option" where
  "go_atoi s =
     (let v = (case s of
                 [] \<Rightarrow> None
               | c # cs \<Rightarrow>
                   if c = CHR ''-'' then map_option uminus (parse_digits cs)
                   else if c = CHR ''+'' then parse_digits cs
                   else parse_digits s)
      in case v of None \<Rightarrow> None | Some i \<Rightarrow> if int64 i then Some i else None)"

text \<open>The \<^verbatim>\<open>%d\<close> verb.\<close>

fun nat_digits :: "nat \<Rightarrow> string" where
  "nat_digits n = (if n < 10 then [digit_char n] else nat_digits (n div 10) @ [digit_char (n mod 10)])"

declare nat_digits.simps [simp del]

definition go_itoa :: "int \<Rightarrow> string" where
  "go_itoa i = (if i < 0 then CHR ''-'' # nat_digits (nat (- i)) else nat_digits (nat i))"

text \<open>The \<^verbatim>\<open>%02d\<close> and \<^verbatim>\<open>%04d\<close> verbs for numbers that are not negative.\<close>

definition pad_zeros :: "nat \<Rightarrow> int \<Rightarrow> string" where
  "pad_zeros w n = replicate (w - length (go_itoa n)) CHR ''0'' @ go_itoa n"

text \<open>\<open>%0wd\<close> of any integer: the sign counts for the width.\<close>

definition pad_int :: "nat \<Rightarrow> int \<Rightarrow> string" where
  "pad_int w n = (if n < 0 then CHR ''-'' # pad_zeros (w - 1) (- n) else pad_zeros w n)"

text \<open>\<open>url.QueryEscape\<close>: bytes outside the unreserved set are percent-encoded, a space is a plus sign.\<close>

definition hex_char :: "nat \<Rightarrow> char" where
  "hex_char d = (if d < 10 then digit_char d else char_of (55 + d))"

definition query_escape :: "string \<Rightarrow> string" where
  "query_escape s = concat (map (\<lambda>c.
     let n = (of_char c :: nat) in
     if is_digit c \<or> (65 \<le> n \<and> n \<le> 90) \<or> (97 \<le> n \<and> n \<le> 122) \<or> c \<in> set ''-_.~'' then [c]
     else if c = CHR '' '' then ''+''
     else CHR ''%'' # [hex_char (n div 16), hex_char (n mod 16)]) s)"

section \<open>Prefixes, splitting and joining\<close>

lemma go_has_prefix_append [simp]: "go_has_prefix (p @ s) p"
  by (simp add: go_has_prefix_def)

lemma go_has_prefix_iff: "go_has_prefix s p \<longleftrightarrow> (\<exists>t. s = p @ t)"
  by (metis append_eq_conv_conj append_take_drop_id go_has_prefix_def)

lemma go_has_prefix_Cons [simp]:
  "go_has_prefix (x # xs) (y # ys) \<longleftrightarrow> x = y \<and> go_has_prefix xs ys"
  by (auto simp: go_has_prefix_def)

lemma go_has_prefix_Nil [simp]: "go_has_prefix s []" "go_has_prefix [] (y # ys) = False"
  by (simp_all add: go_has_prefix_def)

lemma go_has_suffix_iff: "go_has_suffix s p \<longleftrightarrow> (\<exists>t. s = t @ p)"
proof
  assume "go_has_suffix s p"
  then show "\<exists>t. s = t @ p"
    by (metis append_take_drop_id go_has_suffix_def)
qed (auto simp: go_has_suffix_def)

lemma go_split_not_Nil [simp]: "go_split c s \<noteq> []"
  by (cases s) (auto split: list.splits)

lemma go_split_no_sep: "c \<notin> set s \<Longrightarrow> go_split c s = [s]"
  by (induction s) auto

lemma go_split_append: "c \<notin> set a \<Longrightarrow> go_split c (a @ c # b) = a # go_split c b"
  by (induction a) auto

lemma go_split_parts: "w \<in> set (go_split c s) \<Longrightarrow> c \<notin> set w"
  by (induction s arbitrary: w) (fastforce split: if_splits list.splits)+

lemma go_join_split: "go_join [c] (go_split c s) = s"
proof (induction s)
  case Nil
  show ?case by simp
next
  case (Cons x s)
  obtain w ws where sp: "go_split c s = w # ws"
    by (meson go_split_not_Nil neq_Nil_conv)
  then show ?case using Cons.IH by (cases ws) auto
qed

lemma go_split_join:
  "ws \<noteq> [] \<Longrightarrow> (\<forall>w\<in>set ws. c \<notin> set w) \<Longrightarrow> go_split c (go_join [c] ws) = ws"
  by (induction "[c]" ws rule: go_join.induct) (simp_all add: go_split_no_sep go_split_append)

section \<open>Searching and replacing\<close>

lemma go_contains_Nil [simp]: "go_contains s []"
  by (cases s) simp_all

lemma go_contains_iff: "go_contains s p \<longleftrightarrow> (\<exists>a b. s = a @ p @ b)"
proof (induction s)
  case Nil
  show ?case by auto
next
  case (Cons x xs)
  show ?case
    unfolding go_contains.simps Cons.IH go_has_prefix_iff
    by (metis append_Cons append_Nil neq_Nil_conv list.inject)
qed

lemma go_replace_all_Nil [simp]: "old \<noteq> [] \<Longrightarrow> go_replace_all [] old new = []"
  by (simp add: go_replace_all.simps [of "[]"])

lemma go_replace_all_skip:
  "\<not> go_has_prefix (x # s) (c # old) \<Longrightarrow>
   go_replace_all (x # s) (c # old) new = x # go_replace_all s (c # old) new"
  by (auto simp: go_replace_all.simps [of "x # s"])

lemma go_replace_all_hit:
  "old \<noteq> [] \<Longrightarrow> go_replace_all (old @ s) old new = new @ go_replace_all s old new"
  by (simp add: go_replace_all.simps [of "old @ s"])

lemma go_replace_all_no_occurrence:
  "old \<noteq> [] \<Longrightarrow> \<not> go_contains s old \<Longrightarrow> go_replace_all s old new = s"
  by (induction s) (auto simp: go_replace_all.simps [of "_ # _"])

lemma go_replace_all_skip_segment:
  "c \<notin> set a \<Longrightarrow> go_replace_all (a @ s) (c # old) new = a @ go_replace_all s (c # old) new"
  by (induction a) (auto simp: go_replace_all_skip)

text \<open>Where the separator sits decides whether a pattern with a separator can match.\<close>

lemma go_has_prefix_at_sep:
  assumes "c \<notin> set p" and "c \<notin> set a"
  shows "go_has_prefix (a @ c # b) (p @ c # q) \<longleftrightarrow> a = p \<and> go_has_prefix b q"
  using assms
proof (induction p arbitrary: a)
  case Nil
  then show ?case by (cases a) auto
next
  case (Cons x p)
  then show ?case by (cases a) auto
qed

lemma go_has_prefix_sep_none:
  "c \<notin> set a \<Longrightarrow> c \<in> set p \<Longrightarrow> \<not> go_has_prefix a p"
  by (auto simp: go_has_prefix_iff)

lemma go_contains_sep_none: "c \<notin> set a \<Longrightarrow> c \<in> set p \<Longrightarrow> \<not> go_contains a p"
  by (auto simp: go_contains_iff)

lemma go_contains_at_sep:
  assumes "c \<notin> set p" and "c \<notin> set a"
  shows "go_contains (a @ c # b) (p @ c # q) \<longleftrightarrow>
           (go_has_suffix a p \<and> go_has_prefix b q) \<or> go_contains b (p @ c # q)"
  using assms(2)
proof (induction a)
  case Nil
  have "go_has_prefix (c # b) (p @ c # q) \<longleftrightarrow> p = [] \<and> go_has_prefix b q"
    using assms(1) by (cases p) auto
  then show ?case by (auto simp: go_has_suffix_iff)
next
  case (Cons x a)
  have "go_has_prefix (x # a @ c # b) (p @ c # q) \<longleftrightarrow> x # a = p \<and> go_has_prefix b q"
    using go_has_prefix_at_sep [OF assms(1), of "x # a" b q] Cons.prems by simp
  moreover have "go_has_suffix (x # a) p \<longleftrightarrow> x # a = p \<or> go_has_suffix a p"
    by (auto simp: go_has_suffix_iff Cons_eq_append_conv)
  ultimately show ?case using Cons by auto
qed

section \<open>Numbers\<close>

lemma of_char_digit_char [simp]: "d < 10 \<Longrightarrow> of_char (digit_char d) = 48 + d"
  by (simp add: digit_char_def)

lemma is_digit_digit_char [simp]: "d < 10 \<Longrightarrow> is_digit (digit_char d)"
  by (simp add: is_digit_def)

lemma digit_value_digit_char [simp]: "d < 10 \<Longrightarrow> digit_value (digit_char d) = int d"
  by (simp add: digit_value_def)

lemma digits_value_append: "digits_value a (s @ t) = digits_value (digits_value a s) t"
  by (induction s arbitrary: a) simp_all

lemma nat_digits_not_Nil [simp]: "nat_digits n \<noteq> []"
  by (subst nat_digits.simps) simp

lemma nat_digits_all_digits: "list_all is_digit (nat_digits n)"
proof (induction n rule: nat_digits.induct)
  case (1 n)
  then show ?case by (cases "n < 10") (simp_all add: nat_digits.simps [of n])
qed

lemma digits_value_nat_digits: "digits_value 0 (nat_digits n) = int n"
proof (induction n rule: nat_digits.induct)
  case (1 n)
  show ?case
  proof (cases "n < 10")
    case True
    then show ?thesis by (simp add: nat_digits.simps [of n])
  next
    case False
    with 1 have "digits_value 0 (nat_digits n) = 10 * int (n div 10) + int (n mod 10)"
      by (simp add: nat_digits.simps [of n] digits_value_append)
    also have "\<dots> = int n" by presburger
    finally show ?thesis .
  qed
qed

lemma parse_digits_nat_digits: "parse_digits (nat_digits n) = Some (int n)"
  by (simp add: parse_digits_def nat_digits_all_digits digits_value_nat_digits)

lemma nat_digits_no_char: "\<not> is_digit c \<Longrightarrow> c \<notin> set (nat_digits n)"
  using nat_digits_all_digits [of n] by (auto simp: list_all_iff)

lemma go_itoa_no_char: "\<not> is_digit c \<Longrightarrow> c \<noteq> CHR ''-'' \<Longrightarrow> c \<notin> set (go_itoa i)"
  by (simp add: go_itoa_def nat_digits_no_char)

lemma not_digit_sign [simp]:
  "\<not> is_digit (CHR ''-'')" "\<not> is_digit (CHR ''+'')" "\<not> is_digit (CHR ''_'')"
  by (simp_all add: is_digit_def)

text \<open>Printing a 64-bit integer and reading it back gives the integer.\<close>

lemma go_atoi_itoa: "int64 i \<Longrightarrow> go_atoi (go_itoa i) = Some i"
proof (cases "i < 0")
  case True
  assume "int64 i"
  with True show ?thesis by (simp add: go_itoa_def go_atoi_def parse_digits_nat_digits)
next
  case False
  assume r: "int64 i"
  obtain c cs where cs: "nat_digits (nat i) = c # cs" by (meson nat_digits_not_Nil neq_Nil_conv)
  have "c \<noteq> CHR ''-''" and "c \<noteq> CHR ''+''"
    using nat_digits_no_char [OF not_digit_sign(1), of "nat i"]
      nat_digits_no_char [OF not_digit_sign(2), of "nat i"] cs by auto
  with False r cs show ?thesis
    using parse_digits_nat_digits [of "nat i"] by (simp add: go_itoa_def go_atoi_def)
qed

lemma go_itoa_nonneg_head: "0 \<le> i \<Longrightarrow> \<exists>c cs. go_itoa i = c # cs \<and> is_digit c"
proof -
  assume i: "0 \<le> i"
  obtain c cs where cs: "nat_digits (nat i) = c # cs" by (meson nat_digits_not_Nil neq_Nil_conv)
  then show ?thesis
    using i nat_digits_all_digits [of "nat i"] by (auto simp: go_itoa_def)
qed

lemma go_atoi_int64: "go_atoi s = Some i \<Longrightarrow> int64 i"
  by (auto simp: go_atoi_def Let_def split: option.splits if_splits list.splits)

text \<open>Equations by cases, for evaluation.\<close>

lemma go_replace_all_code [code]:
  "go_replace_all s [] new = new @ concat (map (\<lambda>c. c # new) s)"
  "go_replace_all [] (o1 # old) new = []"
  "go_replace_all (x # s) (o1 # old) new =
     (if go_has_prefix (x # s) (o1 # old) then new @ go_replace_all (drop (length old) s) (o1 # old) new
      else x # go_replace_all s (o1 # old) new)"
  by (simp_all add: go_replace_all.simps [of s] go_replace_all.simps [of "[]"] go_replace_all.simps [of "x # s"])

section \<open>Environment variables\<close>

text \<open>
  \<open>utils.GetEnvOrDefault\<close> and \<open>utils.GetEnvInt\<close> of the vendored \<open>common-utils\<close>; \<open>env\<close> gives the
  value of a variable, the empty string when it is not set.
\<close>

definition GetEnvOrDefault :: "(string \<Rightarrow> string) \<Rightarrow> string \<Rightarrow> string \<Rightarrow> string" where
  "GetEnvOrDefault env key def = (if env key = '''' then def else env key)"

definition GetEnvInt :: "(string \<Rightarrow> string) \<Rightarrow> string \<Rightarrow> int \<Rightarrow> int" where
  "GetEnvInt env key def =
     (if env key \<noteq> '''' then (case go_atoi (env key) of None \<Rightarrow> def | Some val \<Rightarrow> val) else def)"

end
