(* ===== verification/Go_Time.thy ===== *)
theory Go_Time
  imports Go_Prelude
begin

text \<open>
  The part of Go's \<open>time\<close> package that the modelled code calls.  A \<open>time.Time\<close> in UTC is
  the number of nanoseconds since the Unix epoch, a \<open>time.Duration\<close> is a number of
  nanoseconds.  The proleptic Gregorian calendar and the ISO 8601 week are defined on day
  numbers counted from 1 January of year 1 (a Monday).
\<close>

type_synonym go_time = int
type_synonym duration = int

abbreviation (input) Millisecond :: duration where "Millisecond \<equiv> 1000000"
abbreviation (input) Second :: duration where "Second \<equiv> 1000000000"
abbreviation (input) Minute :: duration where "Minute \<equiv> 60000000000"
abbreviation (input) Hour :: duration where "Hour \<equiv> 3600000000000"
abbreviation (input) Day :: duration where "Day \<equiv> 86400000000000"

section \<open>Instants and durations\<close>

definition unix_milli :: "go_time \<Rightarrow> int" where
  "unix_milli t = t div Millisecond"

definition from_unix_milli :: "int \<Rightarrow> go_time" where
  "from_unix_milli ms = ms * Millisecond"

definition duration_millis :: "duration \<Rightarrow> int" where
  "duration_millis d = go_div d Millisecond"

lemma unix_milli_from [simp]: "unix_milli (from_unix_milli ms) = ms"
  by (simp add: unix_milli_def from_unix_milli_def)

lemma unix_milli_mono: "s \<le> t \<Longrightarrow> unix_milli s \<le> unix_milli t"
  by (simp add: unix_milli_def zdiv_mono1)

section \<open>The calendar\<close>

definition leap_year :: "int \<Rightarrow> bool" where
  "leap_year y \<longleftrightarrow> y mod 4 = 0 \<and> (y mod 100 \<noteq> 0 \<or> y mod 400 = 0)"

text \<open>Days before 1 January of year \<open>y\<close>.\<close>

definition days_before_year :: "int \<Rightarrow> int" where
  "days_before_year y = 365 * (y - 1) + (y - 1) div 4 - (y - 1) div 100 + (y - 1) div 400"

text \<open>The year of a day: the 400-, 100-, 4- and 1-year cycles, as Go cuts them.\<close>

definition year_of_day :: "int \<Rightarrow> int" where
  "year_of_day d =
     (let q = d div 146097; r = d mod 146097;
          a = min 3 (r div 36524); r1 = r - 36524 * a;
          b = r1 div 1461; r2 = r1 mod 1461;
          c = min 3 (r2 div 365)
      in 400 * q + 100 * a + 4 * b + c + 1)"

definition yday_of_day :: "int \<Rightarrow> int" where
  "yday_of_day d = d - days_before_year (year_of_day d)"

definition month_lengths :: "bool \<Rightarrow> int list" where
  "month_lengths leap = [31, if leap then 29 else 28, 31, 30, 31, 30, 31, 31, 30, 31, 30, 31]"

fun find_month :: "int list \<Rightarrow> int \<Rightarrow> int \<Rightarrow> int \<times> int" where
  "find_month [] m d = (m, d)"
| "find_month (l # ls) m d = (if d < l \<or> ls = [] then (m, d) else find_month ls (m + 1) (d - l))"

definition month_day :: "int \<Rightarrow> int \<times> int" where
  "month_day d =
     (let (m, k) = find_month (month_lengths (leap_year (year_of_day d))) 1 (yday_of_day d)
      in (m, k + 1))"

definition days_before_month :: "int \<Rightarrow> int \<Rightarrow> int" where
  "days_before_month y m = sum_list (take (nat (m - 1)) (month_lengths (leap_year y)))"

text \<open>Monday is 0.\<close>

definition weekday_of_day :: "int \<Rightarrow> int" where
  "weekday_of_day d = d mod 7"

text \<open>The ISO week is the week of the Thursday of the day's week.\<close>

definition iso_week_of_day :: "int \<Rightarrow> int \<times> int" where
  "iso_week_of_day d =
     (let th = d - weekday_of_day d + 3 in (year_of_day th, yday_of_day th div 7 + 1))"

text \<open>Day number of the Unix epoch, 1 January 1970.\<close>

definition unix_epoch_day :: int where
  "unix_epoch_day = 719162"

definition day_of_time :: "go_time \<Rightarrow> int" where
  "day_of_time t = t div Day + unix_epoch_day"

definition time_year :: "go_time \<Rightarrow> int" where
  "time_year t = year_of_day (day_of_time t)"

definition time_month :: "go_time \<Rightarrow> int" where
  "time_month t = fst (month_day (day_of_time t))"

definition time_day :: "go_time \<Rightarrow> int" where
  "time_day t = snd (month_day (day_of_time t))"

definition time_hour :: "go_time \<Rightarrow> int" where
  "time_hour t = (t mod Day) div Hour"

definition time_yearday :: "go_time \<Rightarrow> int" where
  "time_yearday t = yday_of_day (day_of_time t) + 1"

definition time_isoweek :: "go_time \<Rightarrow> int \<times> int" where
  "time_isoweek t = iso_week_of_day (day_of_time t)"

text \<open>\<open>time.Date(year, month, day, hour, min, sec, nsec, time.UTC)\<close> for a month from 1 to 12.\<close>

definition go_date :: "int \<Rightarrow> int \<Rightarrow> int \<Rightarrow> int \<Rightarrow> int \<Rightarrow> int \<Rightarrow> int \<Rightarrow> go_time" where
  "go_date y m d h mi s ns =
     (days_before_year y + days_before_month y m + (d - 1) - unix_epoch_day) * Day
     + h * Hour + mi * Minute + s * Second + ns"

definition add_days :: "go_time \<Rightarrow> int \<Rightarrow> go_time" where
  "add_days t n = t + n * Day"

section \<open>Years\<close>

lemma days_before_year_cycles:
  assumes "0 \<le> a" "a \<le> 3" "0 \<le> b" "b \<le> 24" "0 \<le> c" "c \<le> 3"
  shows "days_before_year (400 * q + 100 * a + 4 * b + c + 1)
           = 146097 * q + 36524 * a + 1461 * b + 365 * c"
proof -
  let ?n = "400 * q + 100 * a + 4 * b + c"
  have "?n div 4 = 100 * q + 25 * a + b"
    by (rule int_div_pos_eq [where r = c]) (use assms in auto)
  moreover have "?n div 100 = 4 * q + a"
    by (rule int_div_pos_eq [where r = "4 * b + c"]) (use assms in auto)
  moreover have "?n div 400 = q"
    by (rule int_div_pos_eq [where r = "100 * a + 4 * b + c"]) (use assms in auto)
  ultimately show ?thesis by (simp add: days_before_year_def algebra_simps)
qed

text \<open>The cycle counts of a day and the bounds between them.\<close>

lemma year_of_day_cycles:
  obtains q a b c r where
    "d = 146097 * q + 36524 * a + 1461 * b + 365 * c + r"
    "year_of_day d = 400 * q + 100 * a + 4 * b + c + 1"
    "0 \<le> a" "a \<le> 3" "0 \<le> b" "b \<le> 24" "0 \<le> c" "c \<le> 3" "0 \<le> r"
    "c < 3 \<longrightarrow> r < 365" "r < 366" "b = 24 \<and> a < 3 \<longrightarrow> r < 365"
proof -
  define q where "q = d div 146097"
  define r0 where "r0 = d mod 146097"
  define a where "a = min 3 (r0 div 36524)"
  define r1 where "r1 = r0 - 36524 * a"
  define b where "b = r1 div 1461"
  define r2 where "r2 = r1 mod 1461"
  define c where "c = min 3 (r2 div 365)"
  have d: "d = 146097 * q + r0" by (simp add: q_def r0_def)
  have r0: "0 \<le> r0" "r0 < 146097" by (simp_all add: r0_def)
  have a: "0 \<le> a" "a \<le> 3" using r0 by (auto simp: a_def)
  have r1: "0 \<le> r1" "r1 < 36525" "a < 3 \<Longrightarrow> r1 < 36524"
    using r0 unfolding r1_def a_def by linarith+
  have b: "0 \<le> b" "b \<le> 24" using r1 unfolding b_def by linarith+
  have r12: "r1 = 1461 * b + r2" by (simp add: b_def r2_def)
  have r2: "0 \<le> r2" "r2 < 1461" by (simp_all add: r2_def)
  have c: "0 \<le> c" "c \<le> 3" using r2 by (auto simp: c_def)
  have y: "year_of_day d = 400 * q + 100 * a + 4 * b + c + 1"
    by (simp add: year_of_day_def Let_def q_def r0_def a_def r1_def b_def r2_def c_def)
  show thesis
  proof (rule that [of q a b c "r2 - 365 * c"])
    show "d = 146097 * q + 36524 * a + 1461 * b + 365 * c + (r2 - 365 * c)"
      using d r1_def r12 by linarith
    show "0 \<le> r2 - 365 * c" using r2 unfolding c_def by linarith
    show "c < 3 \<longrightarrow> r2 - 365 * c < 365" using r2 unfolding c_def by linarith
    show "r2 - 365 * c < 366" using r2 unfolding c_def by linarith
    have "r2 < 1460" if "b = 24" "a < 3" using r1(3) r12 that by linarith
    then show "b = 24 \<and> a < 3 \<longrightarrow> r2 - 365 * c < 365"
      unfolding c_def by linarith
  qed (use a b c y in auto)
qed

lemma year_of_day_bounds:
  "days_before_year (year_of_day d) \<le> d" (is ?lower)
  "d < days_before_year (year_of_day d + 1)" (is ?upper)
proof -
  obtain q a b c r where
    d: "d = 146097 * q + 36524 * a + 1461 * b + 365 * c + r"
    and y: "year_of_day d = 400 * q + 100 * a + 4 * b + c + 1"
    and a: "0 \<le> a" "a \<le> 3" and b: "0 \<le> b" "b \<le> 24" and c: "0 \<le> c" "c \<le> 3"
    and r: "0 \<le> r" "c < 3 \<longrightarrow> r < 365" "r < 366" "b = 24 \<and> a < 3 \<longrightarrow> r < 365"
    by (rule year_of_day_cycles [of d])
  show ?lower using days_before_year_cycles [OF a b c, of q] y d r by simp
  show ?upper
  proof (cases "c < 3")
    case True
    then show ?thesis
      using days_before_year_cycles [of a b "c + 1" q] a b c y d r by (simp add: algebra_simps)
  next
    case c3: False
    show ?thesis
    proof (cases "b < 24")
      case True
      then show ?thesis
        using days_before_year_cycles [of a "b + 1" 0 q] a b c c3 y d r by (simp add: algebra_simps)
    next
      case b24: False
      show ?thesis
      proof (cases "a < 3")
        case True
        then show ?thesis
          using days_before_year_cycles [of "a + 1" 0 0 q] a b c c3 b24 y d r
          by (simp add: algebra_simps)
      next
        case False
        then show ?thesis
          using days_before_year_cycles [of 0 0 0 "q + 1"] a b c c3 b24 y d r
          by (simp add: algebra_simps)
      qed
    qed
  qed
qed

lemma div_pred:
  fixes k y :: int
  assumes "0 < k"
  shows "(y - 1) div k = (if y mod k = 0 then y div k - 1 else y div k)"
proof (cases "y mod k = 0")
  case True
  then have "y = k * (y div k)" by (metis add.right_neutral mult_div_mod_eq)
  then have "(y - 1) div k = y div k - 1"
    using assms by (intro int_div_pos_eq [where r = "k - 1"]) (simp_all add: algebra_simps)
  with True show ?thesis by simp
next
  case False
  have "y = k * (y div k) + y mod k" by simp
  moreover have "0 \<le> y mod k - 1" "y mod k - 1 < k"
    using False assms pos_mod_bound [OF assms, of y] pos_mod_sign [OF assms, of y] by linarith+
  ultimately have "(y - 1) div k = y div k"
    by (intro int_div_pos_eq [where r = "y mod k - 1"]) linarith+
  with False show ?thesis by simp
qed

text \<open>A year has 365 days, a leap year one more.\<close>

lemma days_before_year_Suc:
  "days_before_year (y + 1) = days_before_year y + (if leap_year y then 366 else 365)"
proof -
  have "y mod 400 = 0 \<Longrightarrow> y mod 100 = 0" and "y mod 100 = 0 \<Longrightarrow> y mod 4 = 0"
    using mod_mod_cancel [of 100 400 y] mod_mod_cancel [of 4 100 y] by auto
  then show ?thesis
    by (auto simp: days_before_year_def leap_year_def div_pred)
qed

lemma days_before_year_step: "days_before_year y + 365 \<le> days_before_year (y + 1)"
  by (simp add: days_before_year_Suc)

lemma days_before_year_less: "x < y \<Longrightarrow> days_before_year x + 365 \<le> days_before_year y"
proof (induction "nat (y - x)" arbitrary: y)
  case 0
  then show ?case by simp
next
  case (Suc n)
  show ?case
  proof (cases "x < y - 1")
    case True
    with Suc have "days_before_year x + 365 \<le> days_before_year (y - 1)" by simp
    with days_before_year_step [of "y - 1"] show ?thesis by simp
  next
    case False
    with Suc.prems have "y = x + 1" by simp
    with days_before_year_step [of x] show ?thesis by simp
  qed
qed

lemma year_of_day_unique:
  "days_before_year y \<le> d \<Longrightarrow> d < days_before_year (y + 1) \<Longrightarrow> year_of_day d = y"
  using year_of_day_bounds [of d] days_before_year_less [of "year_of_day d + 1" y]
    days_before_year_less [of "y + 1" "year_of_day d"]
  by (cases "year_of_day d" y rule: linorder_cases) (auto, (smt (verit))+)

lemma yday_nonneg: "0 \<le> yday_of_day d"
  using year_of_day_bounds(1) [of d] by (simp add: yday_of_day_def)

lemma days_in_year_le: "days_before_year (y + 1) \<le> days_before_year y + 366"
  by (simp add: days_before_year_Suc)

lemma yday_less: "yday_of_day d < 366"
  using year_of_day_bounds(2) [of d] days_in_year_le [of "year_of_day d"]
  by (simp add: yday_of_day_def)

section \<open>Start of the day and of the hour\<close>

lemma find_month_sum:
  "find_month ls m d = (m', d') \<Longrightarrow> m \<le> m' \<and> sum_list (take (nat (m' - m)) ls) + d' = d"
proof (induction ls m d rule: find_month.induct)
  case (1 m d)
  then show ?case by simp
next
  case (2 l ls m d)
  show ?case
  proof (cases "d < l \<or> ls = []")
    case True
    with 2 show ?thesis by auto
  next
    case False
    with 2 have "m + 1 \<le> m'" and "sum_list (take (nat (m' - (m + 1))) ls) + d' = d - l" by auto
    moreover from \<open>m + 1 \<le> m'\<close> have "nat (m' - m) = Suc (nat (m' - (m + 1)))" by linarith
    ultimately show ?thesis by simp
  qed
qed

lemma days_before_month_of_day:
  "days_before_month (year_of_day d) (fst (month_day d)) + snd (month_day d) - 1 = yday_of_day d"
proof -
  obtain m k where mk: "find_month (month_lengths (leap_year (year_of_day d))) 1 (yday_of_day d) = (m, k)"
    by fastforce
  with find_month_sum [OF this] show ?thesis
    by (simp add: month_day_def days_before_month_def)
qed

lemma go_date_start_of_day:
  "go_date (time_year t) (time_month t) (time_day t) 0 0 0 0 = t - t mod Day"
proof -
  have "days_before_year (time_year t) + days_before_month (time_year t) (time_month t)
          + (time_day t - 1) = day_of_time t"
    using days_before_month_of_day [of "day_of_time t"]
    by (simp add: time_year_def time_month_def time_day_def yday_of_day_def)
  then have "go_date (time_year t) (time_month t) (time_day t) 0 0 0 0 = t div Day * Day"
    unfolding go_date_def by (simp add: day_of_time_def)
  then show ?thesis by (simp add: minus_mod_eq_div_mult)
qed

lemma go_date_start_of_hour:
  "go_date (time_year t) (time_month t) (time_day t) (time_hour t) 0 0 0 = t - t mod Hour"
proof -
  have "go_date (time_year t) (time_month t) (time_day t) (time_hour t) 0 0 0
          = t - t mod Day + (t mod Day) div Hour * Hour"
    using go_date_start_of_day [of t] by (simp add: go_date_def time_hour_def)
  also have "\<dots> = t - (t mod Day) mod Hour" by (simp add: minus_mod_eq_div_mult [symmetric])
  also have "(t mod Day) mod Hour = t mod Hour" by (rule mod_mod_cancel) simp
  finally show ?thesis .
qed

section \<open>ISO weeks\<close>

lemma iso_week_thursday:
  "iso_week_of_day d = (year_of_day (7 * (d div 7) + 3), yday_of_day (7 * (d div 7) + 3) div 7 + 1)"
proof -
  have "d - d mod 7 + 3 = 7 * (d div 7) + 3" by (simp add: minus_mod_eq_mult_div)
  then show ?thesis by (simp add: iso_week_of_day_def weekday_of_day_def Let_def)
qed

lemma iso_week_range: "1 \<le> snd (iso_week_of_day d)" "snd (iso_week_of_day d) \<le> 53"
proof -
  have "0 \<le> yday_of_day (7 * (d div 7) + 3) div 7"
    using yday_nonneg [of "7 * (d div 7) + 3"] by simp
  then show "1 \<le> snd (iso_week_of_day d)" by (simp add: iso_week_thursday)
  have "yday_of_day (7 * (d div 7) + 3) div 7 \<le> 365 div 7"
    using yday_less [of "7 * (d div 7) + 3"] by (intro zdiv_mono1) auto
  then show "snd (iso_week_of_day d) \<le> 53" by (simp add: iso_week_thursday)
qed

lemma year_of_day_mono: "d \<le> e \<Longrightarrow> year_of_day d \<le> year_of_day e"
proof (rule ccontr)
  assume "d \<le> e" and "\<not> year_of_day d \<le> year_of_day e"
  then have "days_before_year (year_of_day e + 1) \<le> days_before_year (year_of_day d)"
    using days_before_year_less [of "year_of_day e + 1" "year_of_day d"]
    by (cases "year_of_day e + 1 = year_of_day d") auto
  with year_of_day_bounds [of d] year_of_day_bounds [of e] \<open>d \<le> e\<close> show False by linarith
qed

text \<open>A later week has a later (year, week) pair.\<close>

lemma iso_week_less:
  assumes "d div 7 < e div 7"
  shows "fst (iso_week_of_day d) < fst (iso_week_of_day e) \<or>
         fst (iso_week_of_day d) = fst (iso_week_of_day e) \<and>
         snd (iso_week_of_day d) < snd (iso_week_of_day e)"
proof -
  let ?t = "7 * (d div 7) + 3" and ?u = "7 * (e div 7) + 3"
  have le: "?t + 7 \<le> ?u" using assms by simp
  have y: "year_of_day ?t \<le> year_of_day ?u" by (rule year_of_day_mono) (use le in simp)
  have "yday_of_day ?t div 7 < yday_of_day ?u div 7" if "year_of_day ?t = year_of_day ?u"
  proof -
    have "yday_of_day ?t + 7 \<le> yday_of_day ?u" using le that by (simp add: yday_of_day_def)
    then have "(yday_of_day ?t + 7) div 7 \<le> yday_of_day ?u div 7" by (intro zdiv_mono1) auto
    then show ?thesis by simp
  qed
  with y show ?thesis unfolding iso_week_thursday by auto
qed

text \<open>Two days have the same ISO week exactly when they lie in the same Monday-to-Sunday week.\<close>

lemma iso_week_eq_iff: "iso_week_of_day d = iso_week_of_day e \<longleftrightarrow> d div 7 = e div 7"
proof
  assume "iso_week_of_day d = iso_week_of_day e"
  with iso_week_less [of d e] iso_week_less [of e d] show "d div 7 = e div 7"
    by (cases "d div 7" "e div 7" rule: linorder_cases) auto
qed (simp add: iso_week_thursday)

section \<open>Distances between days and weeks\<close>

lemma days_before_year_diff: "x \<le> y \<Longrightarrow> days_before_year x + 365 * (y - x) \<le> days_before_year y"
proof (induction "nat (y - x)" arbitrary: y)
  case (Suc n)
  then have "n = nat (y - 1 - x)" "x \<le> y - 1" by arith+
  then have "days_before_year x + 365 * (y - 1 - x) \<le> days_before_year (y - 1)" by (rule Suc.hyps)
  with days_before_year_step [of "y - 1"] show ?case by simp
qed simp

lemma week_arith:
  "365 * y + u - t \<le> 7 * a + 3 - (7 * b + 3) \<Longrightarrow> 7 * p \<le> u \<Longrightarrow> t \<le> 7 * q + 6 \<Longrightarrow> 0 \<le> y \<Longrightarrow>
   52 * y + (p + 1 - (q + 1)) \<le> a - (b :: int)"
  by linarith

lemma iso_week_distance:
  assumes "fst (iso_week_of_day d) \<le> fst (iso_week_of_day e)"
  shows "52 * (fst (iso_week_of_day e) - fst (iso_week_of_day d))
           + (snd (iso_week_of_day e) - snd (iso_week_of_day d)) \<le> e div 7 - d div 7"
proof -
  let ?t = "7 * (d div 7) + 3" and ?u = "7 * (e div 7) + 3"
  let ?x = "year_of_day ?t" and ?y = "year_of_day ?u"
  have "?x \<le> ?y" using assms by (simp add: iso_week_thursday)
  from days_before_year_diff [OF this]
  have "365 * (?y - ?x) + yday_of_day ?u - yday_of_day ?t \<le> ?u - ?t"
    by (simp add: yday_of_day_def)
  moreover have "7 * (yday_of_day ?u div 7) \<le> yday_of_day ?u"
    and "yday_of_day ?t \<le> 7 * (yday_of_day ?t div 7) + 6" by linarith+
  moreover have "0 \<le> ?y - ?x" using \<open>?x \<le> ?y\<close> by simp
  ultimately show ?thesis unfolding iso_week_thursday fst_conv snd_conv by (rule week_arith)
qed

end
