(* ===== verification/Util_Time.thy ===== *)
theory Util_Time
  imports Go_Strings Go_Time
begin

text \<open>
  \<open>internal/util/timeutil.go\<close>: time windows, the textual form of durations and its parser.
  \<open>go_parse_duration\<close> is \<open>time.ParseDuration\<close>; the fractional part of a term is computed
  exactly where Go multiplies in float64.
\<close>

section \<open>Windows\<close>

text \<open>\<open>None\<close> is the run-time panic of a division by zero (a duration below one millisecond).\<close>

definition FindWindowForMillis :: "int \<Rightarrow> duration \<Rightarrow> (int \<times> int) option" where
  "FindWindowForMillis timeMillis dur =
     (let durationMillis = duration_millis dur in
      if durationMillis = 0 then None
      else let d = go_div timeMillis durationMillis;
               start = d * durationMillis
           in Some (start, start + durationMillis))"

definition FindWindow :: "go_time \<Rightarrow> duration \<Rightarrow> (int \<times> int) option" where
  "FindWindow t dur = FindWindowForMillis (unix_milli t) dur"

definition GetDayEndTimestamp :: "int \<Rightarrow> int" where
  "GetDayEndTimestamp millis =
     (let t = from_unix_milli millis
      in unix_milli (go_date (time_year t) (time_month t) (time_day t) 23 59 59 999999999))"

section \<open>Durations as text\<close>

text \<open>\<open>Duration.Round(time.Minute)\<close>: half a minute rounds away from zero.\<close>

definition round_minute :: "duration \<Rightarrow> duration" where
  "round_minute d =
     (let r = \<bar>go_mod d Minute\<bar> in
      if d < 0
      then (if 2 * r < Minute then d + r
            else let d1 = wrap64 (d - Minute + r) in if d1 < d then d1 else - (2 ^ 63))
      else (if 2 * r < Minute then d - r
            else let d1 = wrap64 (d + Minute - r) in if d1 > d then d1 else 2 ^ 63 - 1))"

definition plural :: "int \<Rightarrow> string" where
  "plural v = (if v = 1 then '''' else ''s'')"

definition HumanReadableDuration :: "duration \<Rightarrow> string" where
  "HumanReadableDuration dur =
     (let d0 = round_minute dur;
          weeks = go_div d0 (7 * Day); d1 = d0 - weeks * 7 * Day;
          days = go_div d1 Day; d2 = d1 - days * Day;
          hours = go_div d2 Hour; d3 = d2 - hours * Hour;
          minutes = go_div d3 Minute;
          parts = (if 0 < weeks then [go_itoa weeks @ '' week'' @ plural weeks] else []) @
                  (if 0 < days then [go_itoa days @ '' day'' @ plural days] else []) @
                  (if 0 < hours then [go_itoa hours @ '' hour'' @ plural hours] else []) @
                  (if 0 < minutes then [go_itoa minutes @ '' minute'' @ plural minutes] else [])
      in if parts = [] then ''0 minutes'' else go_join '' '' parts)"

definition format_part :: "int \<Rightarrow> char \<Rightarrow> string" where
  "format_part n u = (if 0 < n then go_itoa n @ [u] else [])"

definition FormatDuration :: "duration \<Rightarrow> string" where
  "FormatDuration dur =
     (let days = go_div dur Day; d1 = dur - days * Day;
          hours = go_div d1 Hour; d2 = d1 - hours * Hour;
          minutes = go_div d2 Minute; d3 = d2 - minutes * Minute;
          seconds = go_div d3 Second;
          result = format_part days (CHR ''d'') @ format_part hours (CHR ''h'') @
                   format_part minutes (CHR ''m'') @ format_part seconds (CHR ''s'')
      in if result = [] then ''0s'' else result)"

section \<open>Parsing durations\<close>

definition duration_units :: "(string \<times> int) list" where
  "duration_units =
     [(''ns'', 1), (''us'', 1000), ([CHR 0xC2, CHR 0xB5, CHR ''s''], 1000),
      ([CHR 0xCE, CHR 0xBC, CHR ''s''], 1000), (''ms'', 1000000), (''s'', 1000000000),
      (''m'', 60000000000), (''h'', 3600000000000)]"

definition unit_char :: "char \<Rightarrow> bool" where
  "unit_char c \<longleftrightarrow> c \<noteq> CHR ''.'' \<and> \<not> is_digit c"

text \<open>The digits after a decimal point, and what follows them.\<close>

definition fraction_part :: "string \<Rightarrow> string \<times> string" where
  "fraction_part s =
     (case s of
        [] \<Rightarrow> ([], [])
      | c # r \<Rightarrow> if c = CHR ''.'' then (takeWhile is_digit r, dropWhile is_digit r) else ([], s))"

lemma length_fraction_part: "length (snd (fraction_part s)) \<le> length s"
  by (cases s) (auto simp: fraction_part_def intro: le_SucI length_dropWhile_le)

text \<open>The terms of a duration, each a number and a unit, added to \<open>d\<close>.\<close>

function duration_terms :: "string \<Rightarrow> int \<Rightarrow> int option" where
  "duration_terms s d =
     (if s = [] then Some d
      else let ds = takeWhile is_digit s;
               fr = fraction_part (dropWhile is_digit s);
               u = takeWhile unit_char (snd fr);
               rest = dropWhile unit_char (snd fr)
           in if (ds = [] \<and> fst fr = []) \<or> u = [] then None
              else (case map_of duration_units u of
                      None \<Rightarrow> None
                    | Some unit \<Rightarrow>
                        let v = digits_value 0 ds;
                            w = v * unit + digits_value 0 (fst fr) * unit div 10 ^ length (fst fr)
                        in if v > 2 ^ 63 div unit \<or> w > 2 ^ 63 \<or> d + w > 2 ^ 63 then None
                           else duration_terms rest (d + w)))"
  by pat_completeness auto
termination
proof (relation "measure (\<lambda>(s, d). length s)", goal_cases)
  case (2 s d ds fr u rest unit v w)
  let ?t = "snd (fraction_part (dropWhile is_digit s))"
  have "length ?t \<le> length s"
    using length_fraction_part [of "dropWhile is_digit s"] length_dropWhile_le [of is_digit s]
    by (rule order_trans)
  moreover have "takeWhile unit_char ?t \<noteq> []" using 2 by auto
  then have "length (dropWhile unit_char ?t) < length ?t" by (cases ?t) (auto simp: length_dropWhile_le less_Suc_eq_le split: if_splits)
  ultimately show ?case using 2 by simp
qed simp

declare duration_terms.simps [simp del]

definition go_parse_duration :: "string \<Rightarrow> duration option" where
  "go_parse_duration s0 =
     (let (neg, s) = (case s0 of
                        [] \<Rightarrow> (False, [])
                      | c # r \<Rightarrow> if c = CHR ''-'' then (True, r)
                                else if c = CHR ''+'' then (False, r) else (False, s0))
      in if s = ''0'' then Some 0
         else if s = [] then None
         else (case duration_terms s 0 of
                 None \<Rightarrow> None
               | Some d \<Rightarrow> if neg then Some (- d)
                          else if d > 2 ^ 63 - 1 then None else Some d))"

text \<open>
  The replacement of every match of the pattern \<^verbatim>\<open>(\d+)d\<close> by the same number of hours; a
  number that does not fit an \<open>int\<close> is left as it is.
\<close>

function replace_days :: "string \<Rightarrow> string" where
  "replace_days s =
     (if s = [] then []
      else let ds = takeWhile is_digit s; r = dropWhile is_digit s in
        if ds = [] then hd s # replace_days (tl s)
        else (case r of
                [] \<Rightarrow> ds
              | c # r' \<Rightarrow>
                  if c = CHR ''d''
                  then (case go_atoi ds of
                          None \<Rightarrow> ds @ [c]
                        | Some n \<Rightarrow> go_itoa (wrap64 (n * 24)) @ ''h'') @ replace_days r'
                  else ds @ c # replace_days r'))"
  by pat_completeness auto
termination
proof (relation "measure length", goal_cases)
  case (2 s ds r)
  then show ?case by (cases s) auto
next
  case (3 s ds r c r')
  then have "length (c # r') \<le> length s" by (metis length_dropWhile_le)
  then show ?case by simp
next
  case (4 s ds r c r')
  then have "length (c # r') \<le> length s" by (metis length_dropWhile_le)
  then show ?case by simp
qed simp

declare replace_days.simps [simp del]

definition ParseDurationWithDays :: "string \<Rightarrow> go_error + duration" where
  "ParseDurationWithDays value0 =
     (let value = go_trim_space value0 in
      if value = [] then Inl ''empty duration''
      else (case go_parse_duration (replace_days value) of
              None \<Rightarrow> Inl ''time: invalid duration''
            | Some d \<Rightarrow> if d \<le> 0 then Inl ''non-positive duration'' else Inr d))"

section \<open>Windows contain their instant\<close>

lemma FindWindowForMillis_bounds:
  assumes "Millisecond \<le> dur" and "0 \<le> ms"
  shows "\<exists>s e. FindWindowForMillis ms dur = Some (s, e) \<and> s \<le> ms \<and> ms < e \<and>
           e - s = duration_millis dur \<and> s mod duration_millis dur = 0"
proof -
  have m: "0 < duration_millis dur"
    using assms(1) by (simp add: duration_millis_def pos_imp_zdiv_pos_iff)
  have "ms div duration_millis dur * duration_millis dur \<le> ms"
    using m by (metis minus_mod_eq_div_mult diff_le_eq le_add_same_cancel1 pos_mod_sign)
  moreover have "ms < ms div duration_millis dur * duration_millis dur + duration_millis dur"
    using m by (metis add.commute add_strict_left_mono mod_div_mult_eq pos_mod_bound)
  ultimately show ?thesis
    using m assms(2) by (simp add: FindWindowForMillis_def Let_def)
qed

text \<open>The end of the day is the last millisecond before the next day.\<close>

lemma GetDayEndTimestamp_eq: "GetDayEndTimestamp ms = ms - ms mod 86400000 + 86399999"
proof -
  let ?t = "from_unix_milli ms"
  have "go_date (time_year ?t) (time_month ?t) (time_day ?t) 23 59 59 999999999
          = ?t - ?t mod Day + (Day - 1)"
    using go_date_start_of_day [of ?t] by (simp add: go_date_def)
  also have "?t mod Day = ms mod 86400000 * Millisecond"
    using mult_mod_left [of ms "86400000" Millisecond] by (simp add: from_unix_milli_def)
  also have "?t - ms mod 86400000 * Millisecond + (Day - 1)
               = 999999 + (ms - ms mod 86400000 + 86399999) * Millisecond"
    by (simp add: from_unix_milli_def algebra_simps)
  finally show ?thesis
    unfolding GetDayEndTimestamp_def Let_def unix_milli_def by simp
qed

section \<open>Reading back a formatted duration\<close>

text \<open>A duration text as a list of numbers with their unit letters.\<close>

definition render_terms :: "(int \<times> char) list \<Rightarrow> string" where
  "render_terms ps = concat (map (\<lambda>(n, c). go_itoa n @ [c]) ps)"

definition terms_total :: "(int \<times> char) list \<Rightarrow> int" where
  "terms_total ps = sum_list (map (\<lambda>(n, c). n * the (map_of duration_units [c])) ps)"

definition unit_term :: "int \<times> char \<Rightarrow> bool" where
  "unit_term p \<longleftrightarrow> 0 < fst p \<and> snd p \<in> {CHR ''h'', CHR ''m'', CHR ''s''}"

lemma render_terms_simps [simp]:
  "render_terms [] = []"
  "render_terms ((n, c) # ps) = go_itoa n @ c # render_terms ps"
  "render_terms (ps @ qs) = render_terms ps @ render_terms qs"
  by (simp_all add: render_terms_def)

lemma format_part_render: "format_part n c = render_terms (filter (\<lambda>p. 0 < fst p) [(n, c)])"
  by (simp add: format_part_def)

lemma unit_letters:
  "\<not> is_digit (CHR ''d'')" "\<not> is_digit (CHR ''h'')" "\<not> is_digit (CHR ''m'')" "\<not> is_digit (CHR ''s'')"
  "map_of duration_units ''h'' = Some Hour" "map_of duration_units ''m'' = Some Minute"
  "map_of duration_units ''s'' = Some Second"
  by (simp_all add: is_digit_def duration_units_def)

lemma go_itoa_digits: "0 \<le> n \<Longrightarrow> list_all is_digit (go_itoa n)"
  by (simp add: go_itoa_def nat_digits_all_digits)

lemma digits_value_go_itoa: "0 \<le> n \<Longrightarrow> digits_value 0 (go_itoa n) = n"
  by (simp add: go_itoa_def digits_value_nat_digits)

lemma go_itoa_not_Nil [simp]: "go_itoa n \<noteq> []"
  by (simp add: go_itoa_def)

lemma while_digits:
  assumes "list_all is_digit ds" and "\<not> is_digit c"
  shows "takeWhile is_digit (ds @ c # r) = ds" "dropWhile is_digit (ds @ c # r) = c # r"
  using assms by (simp_all add: takeWhile_append2 dropWhile_append2 list_all_iff)

lemma replace_days_term:
  assumes "0 < n" and "int64 n" and "\<not> is_digit c"
  shows "replace_days (go_itoa n @ c # r) =
           (if c = CHR ''d'' then go_itoa (wrap64 (n * 24)) @ ''h'' else go_itoa n @ [c]) @ replace_days r"
  using while_digits [OF go_itoa_digits assms(3), of n r] assms
  by (subst replace_days.simps) (simp add: go_atoi_itoa Let_def)

definition days_as_hours :: "int \<times> char \<Rightarrow> int \<times> char" where
  "days_as_hours p = (if snd p = CHR ''d'' then (wrap64 (fst p * 24), CHR ''h'') else p)"

lemma replace_days_render:
  "\<forall>p\<in>set ps. 0 < fst p \<and> int64 (fst p) \<and> \<not> is_digit (snd p) \<Longrightarrow>
   replace_days (render_terms ps) = render_terms (map days_as_hours ps)"
proof (induction ps)
  case Nil
  show ?case by (subst replace_days.simps) simp
next
  case (Cons p ps)
  then show ?case by (cases p) (simp add: replace_days_term days_as_hours_def)
qed

lemma unit_term_value: "unit_term (n, c) \<Longrightarrow> \<exists>u. map_of duration_units [c] = Some u \<and> 0 < u"
  by (auto simp: unit_term_def unit_letters)

lemma duration_terms_term:
  assumes ut: "unit_term (n, c)" and u: "map_of duration_units [c] = Some u" "0 < u"
    and r: "r = [] \<or> is_digit (hd r)" and tot: "0 \<le> d" "d + n * u \<le> 2 ^ 63"
  shows "duration_terms (go_itoa n @ c # r) d = duration_terms r (d + n * u)"
proof -
  have n: "0 < n" and c: "\<not> is_digit c" "c \<noteq> CHR ''.''"
    using ut by (auto simp: unit_term_def unit_letters)
  have uc: "unit_char c" using c by (simp add: unit_char_def)
  have tw: "takeWhile unit_char r = []" "dropWhile unit_char r = r"
    using r by (cases r; simp add: unit_char_def)+
  have "n * u \<le> 2 ^ 63" using tot by simp
  then have "n \<le> 2 ^ 63 div u" 
    using zdiv_mono1 [of "n * u" "2 ^ 63" u] u(2) by simp
  then show ?thesis
    using n tot u by (subst duration_terms.simps)
      (simp add: while_digits [OF go_itoa_digits c(1)] fraction_part_def c uc tw Let_def
         digits_value_go_itoa)
qed

lemma render_head:
  "\<forall>p\<in>set ps. 0 < fst p \<Longrightarrow> render_terms ps = [] \<or> is_digit (hd (render_terms ps))"
proof (cases ps)
  case (Cons p qs)
  assume "\<forall>p\<in>set ps. 0 < fst p"
  with Cons show ?thesis
    using go_itoa_nonneg_head [of "fst p"] by (cases p) auto
qed simp

lemma terms_total_Cons: "terms_total ((n, c) # ps) = n * the (map_of duration_units [c]) + terms_total ps"
  by (simp add: terms_total_def)

lemma terms_total_nonneg: "\<forall>p\<in>set ps. unit_term p \<Longrightarrow> 0 \<le> terms_total ps"
proof (induction ps)
  case (Cons p ps)
  obtain n c where p: "p = (n, c)" by fastforce
  with Cons.prems have "unit_term (n, c)" by simp
  from unit_term_value [OF this] obtain u where u: "map_of duration_units [c] = Some u" "0 < u"
    by blast
  with Cons p show ?case by (simp add: terms_total_Cons unit_term_def)
qed (simp add: terms_total_def)

lemma duration_terms_render:
  "\<forall>p\<in>set ps. unit_term p \<Longrightarrow> 0 \<le> d \<Longrightarrow> d + terms_total ps \<le> 2 ^ 63 \<Longrightarrow>
   duration_terms (render_terms ps) d = Some (d + terms_total ps)"
proof (induction ps arbitrary: d)
  case Nil
  then show ?case by (subst duration_terms.simps) (simp add: terms_total_def)
next
  case (Cons p ps)
  obtain n c where p: "p = (n, c)" by fastforce
  with Cons.prems have ut: "unit_term (n, c)" by simp
  from unit_term_value [OF this] obtain u where u: "map_of duration_units [c] = Some u" "0 < u"
    by blast
  have n: "0 < n" using ut by (simp add: unit_term_def)
  have hd: "render_terms ps = [] \<or> is_digit (hd (render_terms ps))"
    using Cons.prems(1) by (intro render_head) (auto simp: unit_term_def)
  have nn: "0 \<le> n * u" using n u(2) by simp
  have tot: "d + n * u \<le> 2 ^ 63" and rest: "d + n * u + terms_total ps \<le> 2 ^ 63"
    using Cons.prems p u terms_total_nonneg [of ps] by (simp_all add: terms_total_Cons)
  have "duration_terms (render_terms (p # ps)) d = duration_terms (render_terms ps) (d + n * u)"
    using duration_terms_term [OF ut u hd Cons.prems(2) tot] p by simp
  also have "\<dots> = Some (d + n * u + terms_total ps)"
    by (rule Cons.IH) (use Cons.prems nn rest in auto)
  finally show ?case using p u by (simp add: terms_total_Cons)
qed

lemma go_trim_space_id:
  "s \<noteq> [] \<Longrightarrow> \<not> ascii_space (hd s) \<Longrightarrow> \<not> ascii_space (last s) \<Longrightarrow> go_trim_space s = s"
proof -
  assume s: "s \<noteq> []" "\<not> ascii_space (hd s)" "\<not> ascii_space (last s)"
  have "dropWhile ascii_space s = s" using s by (cases s) auto
  moreover have "dropWhile ascii_space (rev s) = rev s"
    using s by (cases s rule: rev_cases) auto
  ultimately show ?thesis by (simp add: go_trim_space_def)
qed

lemma digit_not_space: "is_digit c \<Longrightarrow> \<not> ascii_space c"
  by (auto simp: is_digit_def ascii_space_def Let_def)

text \<open>Parsing a list of terms gives the sum of the terms.\<close>

lemma go_parse_duration_render:
  assumes ps: "ps \<noteq> []" "\<forall>p\<in>set ps. unit_term p" and tot: "terms_total ps < 2 ^ 63"
  shows "go_parse_duration (render_terms ps) = Some (terms_total ps)"
proof -
  obtain n c qs where q: "ps = (n, c) # qs" using ps(1) by (cases ps) auto
  with ps have n: "0 < n" by (auto simp: unit_term_def)
  obtain x xs where x: "go_itoa n = x # xs" "is_digit x"
    using go_itoa_nonneg_head [of n] n by auto
  then have "x \<noteq> CHR ''-''" "x \<noteq> CHR ''+''" by (auto simp: is_digit_def)
  then show ?thesis
    using duration_terms_render [OF ps(2), of 0] tot q x
    by (simp add: go_parse_duration_def)
qed

lemma ParseDurationWithDays_render:
  assumes ps: "ps \<noteq> []" "\<forall>p\<in>set ps. 0 < fst p \<and> int64 (fst p)"
      "\<forall>p\<in>set ps. snd p \<in> {CHR ''d'', CHR ''h'', CHR ''m'', CHR ''s''}"
    and qs: "\<forall>p\<in>set (map days_as_hours ps). unit_term p"
    and tot: "terms_total (map days_as_hours ps) < 2 ^ 63" "0 < terms_total (map days_as_hours ps)"
  shows "ParseDurationWithDays (render_terms ps) = Inr (terms_total (map days_as_hours ps))"
proof -
  obtain n c rest where q: "ps = (n, c) # rest" using ps(1) by (cases ps) auto
  obtain m u front where l: "ps = front @ [(m, u)]" using ps(1) by (cases ps rule: rev_cases) auto
  have "\<not> ascii_space (hd (render_terms ps))"
    using render_head [of ps] ps(2) q digit_not_space [of "hd (render_terms ps)"] by simp
  moreover have "\<not> ascii_space (last (render_terms ps))"
    using l ps(3) by (auto simp: ascii_space_def)
  moreover have "render_terms ps \<noteq> []" using q by simp
  ultimately have "go_trim_space (render_terms ps) = render_terms ps" by (intro go_trim_space_id)
  moreover have "replace_days (render_terms ps) = render_terms (map days_as_hours ps)"
    by (rule replace_days_render) (use ps unit_letters in auto)
  ultimately show ?thesis
    using go_parse_duration_render [of "map days_as_hours ps"] ps(1) qs tot \<open>render_terms ps \<noteq> []\<close>
    by (simp add: ParseDurationWithDays_def)
qed

definition duration_fields :: "duration \<Rightarrow> (int \<times> char) list" where
  "duration_fields d =
     filter (\<lambda>p. 0 < fst p)
       [(d div Day, CHR ''d''), (d mod Day div Hour, CHR ''h''),
        (d mod Hour div Minute, CHR ''m''), (d mod Minute div Second, CHR ''s'')]"

lemma FormatDuration_fields:
  assumes "Second \<le> d"
  shows "FormatDuration d = render_terms (duration_fields d)" and "duration_fields d \<noteq> []"
proof -
  have m: "d - d div Day * Day = d mod Day" "d mod Day - d mod Day div Hour * Hour = d mod Hour"
      "d mod Hour - d mod Hour div Minute * Minute = d mod Minute"
    by (simp_all add: minus_div_mult_eq_mod mod_mod_cancel)
  show ne: "duration_fields d \<noteq> []"
  proof
    assume "duration_fields d = []"
    then have z: "d div Day \<le> 0" "d mod Day div Hour \<le> 0" "d mod Hour div Minute \<le> 0"
        "d mod Minute div Second \<le> 0"
      unfolding duration_fields_def filter_empty_conv by simp_all
    have small: "d < k \<and> d mod k = d" if "d div k \<le> 0" "0 < k" for k
    proof -
      have "d < k"
      proof (rule ccontr)
        assume "\<not> d < k"
        then have "k div k \<le> d div k" using that(2) by (intro zdiv_mono1) auto
        with that show False by simp
      qed
      with assms show ?thesis by (simp add: mod_pos_pos_trivial)
    qed
    from z(1) have "d mod Day = d" using small [of Day] by simp
    with z(2) have "d mod Hour = d" using small [of Hour] by simp
    with z(3) have "d mod Minute = d" using small [of Minute] by simp
    with z(4) have "d < Second" using small [of Second] by simp
    with assms show False by simp
  qed
  have r: "render_terms (duration_fields d) =
      format_part (d div Day) (CHR ''d'') @ format_part (d mod Day div Hour) (CHR ''h'') @
      format_part (d mod Hour div Minute) (CHR ''m'') @
      format_part (d mod Minute div Second) (CHR ''s'')"
    by (simp add: duration_fields_def format_part_def)
  have ne': "render_terms (duration_fields d) \<noteq> []"
    using ne by (cases "duration_fields d") auto
  have g: "go_div d Day = d div Day" "go_div (d mod Day) Hour = d mod Day div Hour"
      "go_div (d mod Hour) Minute = d mod Hour div Minute"
      "go_div (d mod Minute) Second = d mod Minute div Second"
    using assms by (auto intro: go_div_nonneg)
  show "FormatDuration d = render_terms (duration_fields d)"
    unfolding FormatDuration_def Let_def g m r [symmetric] using ne' by (simp only: if_False)
qed

lemma int_div_le_self: "0 \<le> x \<Longrightarrow> 0 < k \<Longrightarrow> x div k \<le> (x :: int)"
  using zdiv_mono2 [of x 1 k] by simp

lemma duration_fields_terms:
  assumes "Second \<le> d" and "d < 2 ^ 63"
  shows "\<forall>p\<in>set (duration_fields d). 0 < fst p \<and> int64 (fst p)"
    and "\<forall>p\<in>set (duration_fields d). snd p \<in> {CHR ''d'', CHR ''h'', CHR ''m'', CHR ''s''}"
proof -
  have d: "0 \<le> d" using assms by simp
  have le: "d mod j div k \<le> d" if "0 < j" "0 < k" for j k
    using int_div_le_self [of "d mod j" k] zmod_le_nonneg_dividend [OF d, of j] that by force
  have "p \<in> set (duration_fields d) \<Longrightarrow> 0 < fst p \<and> fst p \<le> d" for p
    unfolding duration_fields_def set_filter using le int_div_le_self [OF d, of Day] by auto
  with assms(2) show "\<forall>p\<in>set (duration_fields d). 0 < fst p \<and> int64 (fst p)"
    by (fastforce simp: int64_def)
  show "\<forall>p\<in>set (duration_fields d). snd p \<in> {CHR ''d'', CHR ''h'', CHR ''m'', CHR ''s''}"
    unfolding duration_fields_def set_filter by auto
qed

lemma terms_total_drop_zero:
  "\<forall>p\<in>set ps. 0 \<le> fst p \<Longrightarrow>
   terms_total (map days_as_hours (filter (\<lambda>p. 0 < fst p) ps)) = terms_total (map days_as_hours ps)"
proof (induction ps)
  case (Cons p ps)
  have "snd (days_as_hours p) = snd (days_as_hours p) \<and> (fst p = 0 \<longrightarrow> fst (days_as_hours p) = 0)"
    by (simp add: days_as_hours_def wrap64_def)
  then show ?case
    using Cons by (cases "0 < fst p"; cases "days_as_hours p") (auto simp: terms_total_def)
qed simp

text \<open>The terms of a whole number of seconds add up to it.\<close>

lemma duration_fields_total:
  assumes "Second \<le> d" and "d < 2 ^ 63" and "d mod Second = 0"
  shows "terms_total (map days_as_hours (duration_fields d)) = d"
proof -
  let ?D = "d div Day" and ?H = "d mod Day div Hour" and ?M = "d mod Hour div Minute"
    and ?S = "d mod Minute div Second"
  have "?D \<le> 2 ^ 63 div Day" using assms(2) by (intro zdiv_mono1) auto
  moreover have "0 \<le> ?D" using assms(1) by (simp add: pos_imp_zdiv_nonneg_iff)
  ultimately have w: "wrap64 (?D * 24) = ?D * 24" by (intro wrap64_id) (simp add: int64_def)
  have "terms_total (map days_as_hours (duration_fields d)) = ?D * 24 * Hour + ?H * Hour + ?M * Minute + ?S * Second"
    unfolding duration_fields_def
    by (subst terms_total_drop_zero)
      (use \<open>0 \<le> ?D\<close> in \<open>auto simp: terms_total_def days_as_hours_def w unit_letters pos_imp_zdiv_nonneg_iff\<close>)
  moreover have "d = ?D * Day + d mod Day" "d mod Day = ?H * Hour + d mod Day mod Hour"
      "d mod Hour = ?M * Minute + d mod Hour mod Minute"
      "d mod Minute = ?S * Second + d mod Minute mod Second"
    by (simp_all only: div_mult_mod_eq)
  moreover have "d mod Day mod Hour = d mod Hour" "d mod Hour mod Minute = d mod Minute"
      "d mod Minute mod Second = d mod Second"
    by (rule mod_mod_cancel; simp)+
  ultimately show ?thesis using assms(3) by (simp only:)
qed

section \<open>Properties\<close>

text \<open>a window computed for a non-negative instant and a duration of at least one
  millisecond contains the instant, is as long as the duration and starts at a multiple of it.\<close>

theorem FindWindow_contains:
  assumes "Millisecond \<le> dur" and "0 \<le> t"
  shows "\<exists>s e. FindWindow t dur = Some (s, e) \<and> s \<le> unix_milli t \<and> unix_milli t < e \<and>
           e - s = duration_millis dur \<and> s mod duration_millis dur = 0"
proof -
  have "0 \<le> unix_milli t" using assms(2) by (simp add: unix_milli_def pos_imp_zdiv_nonneg_iff)
  with assms(1) show ?thesis unfolding FindWindow_def by (rule FindWindowForMillis_bounds)
qed

theorem FindWindow_contains_witness:
  "\<exists>s e. FindWindow 7500000000 (2 * Second) = Some (s, e) \<and> s \<le> unix_milli 7500000000 \<and>
     unix_milli 7500000000 < e \<and> e - s = duration_millis (2 * Second) \<and>
     s mod duration_millis (2 * Second) = 0"
  using FindWindow_contains [of "2 * Second" "7500000000"] by simp

text \<open>C9: formatting a positive whole number of seconds and parsing the text with day
  suffixes gives the duration back.\<close>

theorem ParseDurationWithDays_FormatDuration:
  assumes "Second \<le> d" and "d < 2 ^ 63" and "d mod Second = 0"
  shows "ParseDurationWithDays (FormatDuration d) = Inr d"
proof -
  note fs = FormatDuration_fields [OF assms(1)]
  note ts = duration_fields_terms [OF assms(1,2)]
  have tot: "terms_total (map days_as_hours (duration_fields d)) = d"
    using assms by (rule duration_fields_total)
  have "wrap64 (fst p * 24) = fst p * 24" if "p \<in> set (duration_fields d)" "snd p = CHR ''d''" for p
  proof -
    have "fst p = d div Day" using that unfolding duration_fields_def set_filter by auto
    also have "\<dots> \<le> 2 ^ 63 div Day" using assms(2) by (intro zdiv_mono1) auto
    finally show ?thesis using ts(1) that(1) by (intro wrap64_id) (auto simp: int64_def)
  qed
  then have "\<forall>p\<in>set (map days_as_hours (duration_fields d)). unit_term p"
    using ts by (auto simp: unit_term_def days_as_hours_def)
  then have "ParseDurationWithDays (render_terms (duration_fields d)) = Inr d"
    using ParseDurationWithDays_render [OF fs(2) ts] tot assms by simp
  then show ?thesis by (simp add: fs(1))
qed

theorem ParseDurationWithDays_FormatDuration_witness:
  "ParseDurationWithDays (FormatDuration 90061000000000) = Inr 90061000000000"
  by (rule ParseDurationWithDays_FormatDuration) simp_all

end
