(* ===== verification/Stats_Index.thy ===== *)
theory Stats_Index
  imports Util_Time "HOL-Library.Monad_Syntax"
begin

text \<open>
  \<open>internal/stats/common.go\<close>: the names of statistics indices.  The name of an index carries
  its tenant, schema, lifecycle phase and period; the rollover jobs select indices by parsing
  names and build the name of the index they write to.
\<close>

section \<open>Schemas, phases and indices\<close>

type_synonym IndexSchema = string
type_synonym IndexLifeCyclePhase = string
type_synonym IndexLifeCycleMigration = string

definition Schema_V1 :: IndexSchema where "Schema_V1 = ''v1''"
definition Schema_V2 :: IndexSchema where "Schema_V2 = ''v2''"
definition Schema_V3_temp :: IndexSchema where "Schema_V3_temp = ''v3''"

definition Phase_P0 :: IndexLifeCyclePhase where "Phase_P0 = ''p0''"
definition Phase_P1 :: IndexLifeCyclePhase where "Phase_P1 = ''p1''"
definition Phase_P2 :: IndexLifeCyclePhase where "Phase_P2 = ''p2''"
definition Phase_P3 :: IndexLifeCyclePhase where "Phase_P3 = ''p3''"

lemmas schema_phase_defs =
  Schema_V1_def Schema_V2_def Schema_V3_temp_def Phase_P0_def Phase_P1_def Phase_P2_def Phase_P3_def

definition phase_next :: "IndexLifeCyclePhase \<Rightarrow> go_error + IndexLifeCyclePhase" where
  "phase_next p =
     (if p = Phase_P1 then Inr Phase_P2
      else if p = Phase_P2 then Inr Phase_P3
      else Inl ''invalid phase'')"

definition Migrate_P1_P2 :: IndexLifeCycleMigration where "Migrate_P1_P2 = ''p1_p2''"
definition Migrate_P2_P3 :: IndexLifeCycleMigration where "Migrate_P2_P3 = ''p2_p3''"
definition Migrate_P3_P4 :: IndexLifeCycleMigration where "Migrate_P3_P4 = ''p3_p4''"

record Index =
  IndexName :: string
  Tenant :: string
  Year :: int
  Week :: int
  IxDay :: int
  Schema :: IndexSchema
  Phase :: IndexLifeCyclePhase

definition aliasName :: "Index \<Rightarrow> string" where
  "aliasName ix = ''db_statistics_alias_'' @ Tenant ix"

definition newIndexNameForRollover :: "Index \<Rightarrow> duration \<Rightarrow> go_error + string" where
  "newIndexNameForRollover ix dur =
     (let strDur = FormatDuration dur;
          name = ''rolled_over_'' @ strDur @ ''_db_statistics''
      in if Schema ix = Schema_V1
         then Inr (go_replace_all (IndexName ix) ''db_statistics'' name)
         else if Schema ix = Schema_V2 \<or> Schema ix = Schema_V3_temp
         then (case phase_next (Phase ix) of
                 Inl e \<Rightarrow> Inl e
               | Inr nextPhase \<Rightarrow>
                   let oldPhaseStr = ''_'' @ Schema ix @ ''_'' @ Phase ix @ ''_'';
                       newPhaseStr = ''_'' @ Schema_V2 @ ''_'' @ nextPhase @ ''_'';
                       newIndexName = go_replace_all (IndexName ix) oldPhaseStr newPhaseStr
                   in Inr (go_replace_all newIndexName ''db_statistics'' name))
         else Inl ''invalid schema while building new index name'')"

definition s3FileName :: "string \<Rightarrow> Index \<Rightarrow> string \<Rightarrow> string" where
  "s3FileName tempDir ix suffix = tempDir @ ''/'' @ IndexName ix @ ''_'' @ suffix @ ''.txt.gz''"

definition contains :: "string list \<Rightarrow> string \<Rightarrow> bool" where
  "contains arr str = list_ex (\<lambda>a. a = str) arr"

section \<open>Parsing index names\<close>

text \<open>A component with a one-letter prefix and a number, such as \<^verbatim>\<open>y2025\<close>.\<close>

definition prefixed_int :: "string \<Rightarrow> string \<Rightarrow> int option" where
  "prefixed_int p s = (if \<not> go_has_prefix s p then None else go_atoi (drop 1 s))"

text \<open>Indices of the year 1970 come from events without a timestamp and are skipped.\<close>

definition not_1970 :: "Index \<Rightarrow> Index option" where
  "not_1970 ix = (if Year ix \<noteq> 1970 then Some ix else None)"

definition parseIndexName :: "string \<Rightarrow> Index option" where
  "parseIndexName index =
     (let split = go_split (CHR ''_'') index in
      if length split = 5 then
        do { year \<leftarrow> go_atoi (split ! 3);
             week \<leftarrow> go_atoi (split ! 4);
             not_1970 \<lparr>IndexName = index, Tenant = split ! 2, Year = year, Week = week, IxDay = 0,
                       Schema = Schema_V1, Phase = Phase_P1\<rparr> }
      else if length split = 6 then
        do { year \<leftarrow> go_atoi (split ! 4);
             week \<leftarrow> go_atoi (split ! 5);
             not_1970 \<lparr>IndexName = index, Tenant = split ! 2, Year = year, Week = week, IxDay = 0,
                       Schema = Schema_V1, Phase = Phase_P1\<rparr> }
      else if length split = 7 then
        (let indexSchema = split ! 3 in
         if Schema_V2 = indexSchema \<or> Schema_V3_temp = indexSchema then
           do { year \<leftarrow> prefixed_int ''y'' (split ! 5);
                day \<leftarrow> prefixed_int ''d'' (split ! 6);
                not_1970 \<lparr>IndexName = index, Tenant = split ! 2, Year = year, Week = 0, IxDay = day,
                          Schema = indexSchema, Phase = split ! 4\<rparr> }
         else None)
      else if length split = 8 then
        (let indexSchema = split ! 3 in
         if Schema_V2 = indexSchema then
           do { year \<leftarrow> prefixed_int ''y'' (split ! 6);
                day \<leftarrow> prefixed_int ''d'' (split ! 7);
                not_1970 \<lparr>IndexName = index, Tenant = split ! 2, Year = year, Week = 0, IxDay = day,
                          Schema = indexSchema, Phase = split ! 4\<rparr> }
         else None)
      else None)"

definition parseRolledOverP3OrOlderIndexName :: "string \<Rightarrow> Index option" where
  "parseRolledOverP3OrOlderIndexName index =
     (let split = go_split (CHR ''_'') index in
      if \<not> go_has_prefix index ''rolled_over'' then None
      else if go_contains index ''_p4_'' then None
      else if length split = 8 then
        do { year \<leftarrow> go_atoi (split ! 6);
             week \<leftarrow> go_atoi (split ! 7);
             not_1970 \<lparr>IndexName = index, Tenant = split ! 5, Year = year, Week = week, IxDay = 0,
                       Schema = Schema_V1, Phase = Phase_P0\<rparr> }
      else if length split = 9 then
        do { year \<leftarrow> go_atoi (split ! 7);
             week \<leftarrow> go_atoi (split ! 8);
             not_1970 \<lparr>IndexName = index, Tenant = split ! 5, Year = year, Week = week, IxDay = 0,
                       Schema = Schema_V1, Phase = Phase_P0\<rparr> }
      else if length split = 10 then
        (let indexSchema = split ! 5; indexPhase = split ! 6 in
         if indexSchema = Schema_V2 \<and> indexPhase = Phase_P3 then
           do { year \<leftarrow> prefixed_int ''y'' (split ! 8);
                week \<leftarrow> prefixed_int ''w'' (split ! 9);
                not_1970 \<lparr>IndexName = index, Tenant = split ! 7, Year = year, Week = week, IxDay = 0,
                          Schema = indexSchema, Phase = indexPhase\<rparr> }
         else None)
      else None)"

definition parseRolledOverV2P2IndexName :: "string \<Rightarrow> Index option" where
  "parseRolledOverV2P2IndexName index =
     (let split = go_split (CHR ''_'') index in
      if \<not> go_has_prefix index ''rolled_over'' then None
      else if length split = 10 then
        (if Schema_V2 = split ! 6 \<and> Phase_P2 = split ! 7 then
           do { year \<leftarrow> prefixed_int ''y'' (split ! 8);
                day \<leftarrow> prefixed_int ''d'' (split ! 9);
                not_1970 \<lparr>IndexName = index, Tenant = split ! 5, Year = year, Week = 0, IxDay = day,
                          Schema = split ! 6, Phase = split ! 7\<rparr> }
         else None)
      else if length split = 11 then
        (if Schema_V2 = split ! 6 \<and> Phase_P2 = split ! 7 then
           do { year \<leftarrow> prefixed_int ''y'' (split ! 9);
                day \<leftarrow> prefixed_int ''d'' (split ! 10);
                not_1970 \<lparr>IndexName = index, Tenant = split ! 5, Year = year, Week = 0, IxDay = day,
                          Schema = split ! 6, Phase = split ! 7\<rparr> }
         else None)
      else None)"

section \<open>Week and day numbers\<close>

definition getWeekOfYear :: "go_time \<Rightarrow> int \<times> int" where
  "getWeekOfYear now = time_isoweek now"

definition getYearAndDay :: "go_time \<Rightarrow> int \<times> int" where
  "getYearAndDay now = (time_year now, time_yearday now)"

definition yearWeekNumber :: "int \<Rightarrow> int \<Rightarrow> int" where
  "yearWeekNumber year week = year * 100 + week"

definition yearDayNumber :: "int \<Rightarrow> int \<Rightarrow> int" where
  "yearDayNumber year day = year * 1000 + day"

definition splitYearWeekNumber :: "int \<Rightarrow> int \<times> int" where
  "splitYearWeekNumber yearWeek = (go_div yearWeek 100, go_mod yearWeek 100)"

definition yearWeekFromYearDay :: "int \<Rightarrow> int \<Rightarrow> int \<times> int" where
  "yearWeekFromYearDay year dayOfYear =
     (let startOfYear = go_date year 1 1 0 0 0 0;
          date = add_days startOfYear (dayOfYear - 1)
      in time_isoweek date)"

section \<open>What the parsers accept\<close>

lemmas parse_splits = if_splits Option.bind_splits

lemma not_1970_Some: "not_1970 ix = Some ix' \<longleftrightarrow> ix' = ix \<and> Year ix \<noteq> 1970"
  by (auto simp: not_1970_def)

lemma parseIndexName_sound:
  "parseIndexName s = Some ix \<Longrightarrow>
     IndexName ix = s \<and> Year ix \<noteq> 1970 \<and> Schema ix \<in> {Schema_V1, Schema_V2, Schema_V3_temp} \<and>
     (Schema ix = Schema_V1 \<longrightarrow> Phase ix = Phase_P1) \<and> CHR ''_'' \<notin> set (Tenant ix)"
  by (auto simp: parseIndexName_def not_1970_Some Let_def schema_phase_defs
      split: parse_splits intro!: go_split_parts [OF nth_mem] dest: go_split_parts [OF nth_mem, rotated])

lemma parseRolledOverV2P2_sound:
  "parseRolledOverV2P2IndexName s = Some ix \<Longrightarrow>
     IndexName ix = s \<and> Year ix \<noteq> 1970 \<and> Schema ix = Schema_V2 \<and> Phase ix = Phase_P2 \<and>
     go_has_prefix s ''rolled_over''"
  by (auto simp: parseRolledOverV2P2IndexName_def not_1970_Some Let_def split: parse_splits)

lemma parseRolledOverP3_sound:
  "parseRolledOverP3OrOlderIndexName s = Some ix \<Longrightarrow>
     IndexName ix = s \<and> Year ix \<noteq> 1970 \<and> go_has_prefix s ''rolled_over'' \<and> \<not> go_contains s ''_p4_'' \<and>
     (Schema ix = Schema_V1 \<and> Phase ix = Phase_P0 \<or> Schema ix = Schema_V2 \<and> Phase ix = Phase_P3)"
  by (auto simp: parseRolledOverP3OrOlderIndexName_def not_1970_Some Let_def split: parse_splits)

section \<open>Canonical names\<close>

text \<open>The name of a daily index in a phase, and of its hourly rollover.\<close>

definition daily_name :: "string \<Rightarrow> IndexSchema \<Rightarrow> IndexLifeCyclePhase \<Rightarrow> int \<Rightarrow> int \<Rightarrow> string" where
  "daily_name t sch ph y d =
     go_join ''_'' [''db'', ''statistics'', t, sch, ph, ''y'' @ go_itoa y, ''d'' @ go_itoa d]"

lemma no_sep_itoa [simp]: "CHR ''_'' \<notin> set (go_itoa i)"
  by (rule go_itoa_no_char) simp_all

lemma no_sep_FormatDuration [simp]: "CHR ''_'' \<notin> set (FormatDuration d)"
  by (auto simp: FormatDuration_def format_part_def Let_def)

lemma prefixed_int_itoa [simp]: "int64 i \<Longrightarrow> prefixed_int [c] (c # go_itoa i) = Some i"
  by (simp add: prefixed_int_def go_atoi_itoa)

lemma parse_daily_name:
  assumes "CHR ''_'' \<notin> set t" and "sch = Schema_V2 \<or> sch = Schema_V3_temp" and "CHR ''_'' \<notin> set ph"
    and "int64 y" and "int64 d" and "y \<noteq> 1970"
  shows "parseIndexName (daily_name t sch ph y d) =
           Some \<lparr>IndexName = daily_name t sch ph y d, Tenant = t, Year = y, Week = 0, IxDay = d,
                 Schema = sch, Phase = ph\<rparr>"
proof -
  have "go_split (CHR ''_'') (daily_name t sch ph y d) =
          [''db'', ''statistics'', t, sch, ph, ''y'' @ go_itoa y, ''d'' @ go_itoa d]"
    unfolding daily_name_def by (rule go_split_join) (use assms in \<open>auto simp: schema_phase_defs\<close>)
  then show ?thesis using assms by (auto simp: parseIndexName_def not_1970_def)
qed

text \<open>The phase component is the only match of the old phase string.\<close>

lemma replace_phase:
  assumes t: "CHR ''_'' \<notin> set t" and sch: "sch = ''v2'' \<or> sch = ''v3''"
  shows "go_replace_all (daily_name t sch ''p1'' y d) (''_'' @ sch @ ''_p1_'') ''_v2_p2_'' =
           daily_name t ''v2'' ''p2'' y d"
proof -
  let ?old = "CHR ''_'' # sch @ ''_p1_''"
  let ?tl = "''y'' @ go_itoa y @ CHR ''_'' # ''d'' @ go_itoa d"
  let ?R = "\<lambda>s. go_replace_all s ?old ''_v2_p2_''"
  have seg: "?R (a @ s) = a @ ?R s" if "CHR ''_'' \<notin> set a" for a s
    using go_replace_all_skip_segment [OF that, of s "sch @ ''_p1_''"] by simp
  have skip: "?R (CHR ''_'' # s) = CHR ''_'' # ?R s" if "\<not> go_has_prefix s (sch @ ''_p1_'')" for s
    using that by (simp add: go_replace_all_skip)
  have r0: "?R (go_itoa d) = go_itoa d" using seg [of "go_itoa d" "[]"] by simp
  have r1: "?R ?tl = ?tl"
    using seg [of "''y'' @ go_itoa y" "CHR ''_'' # ''d'' @ go_itoa d"] sch seg [of "''d''" "go_itoa d"]
      skip [of "''d'' @ go_itoa d"] r0 by auto
  have r2: "?R (?old @ ?tl) = ''_v2_p2_'' @ ?tl"
    using go_replace_all_hit [of ?old ?tl] r1 by simp
  have nt: "\<not> go_has_prefix (t @ ?old @ ?tl) (sch @ ''_p1_'')"
    using go_has_prefix_at_sep [of "CHR ''_''" sch t "sch @ ''_p1_'' @ ?tl" "''p1_''"] t sch by auto
  have "?R (''db'' @ CHR ''_'' # ''statistics'' @ CHR ''_'' # t @ ?old @ ?tl) =
      ''db'' @ CHR ''_'' # ''statistics'' @ CHR ''_'' # t @ ''_v2_p2_'' @ ?tl"
    unfolding seg [of "''db''", simplified] 
    using seg [of "''db''"] skip [of "''statistics'' @ CHR ''_'' # t @ ?old @ ?tl"] seg [of "''statistics''"]
      skip [OF nt] seg [OF t, of "?old @ ?tl"] r2 sch by auto
  then show ?thesis by (simp add: daily_name_def)
qed

text \<open>The name of the hourly or daily rollover of a daily index.\<close>

definition rolled_daily_name :: "string \<Rightarrow> duration \<Rightarrow> int \<Rightarrow> int \<Rightarrow> string" where
  "rolled_daily_name t dur y d =
     go_join ''_'' [''rolled'', ''over'', FormatDuration dur, ''db'', ''statistics'', t, ''v2'', ''p2'',
                    ''y'' @ go_itoa y, ''d'' @ go_itoa d]"

lemma replace_statistics:
  assumes t: "CHR ''_'' \<notin> set t"
  shows "go_replace_all (daily_name t ''v2'' ''p2'' y d) ''db_statistics''
           (''rolled_over_'' @ FormatDuration dur @ ''_db_statistics'') = rolled_daily_name t dur y d"
proof -
  let ?rest = "CHR ''_'' # t @ CHR ''_'' # ''v2'' @ CHR ''_'' # ''p2'' @ CHR ''_'' # (''y'' @ go_itoa y) @
    CHR ''_'' # ''d'' @ go_itoa d"
  note at = go_contains_at_sep [of "CHR ''_''" "''db''" _ _ "''statistics''"]
  have "\<not> go_contains ?rest ''db_statistics''"
    using at [of "[]" "t @ CHR ''_'' # ''v2'' @ CHR ''_'' # ''p2'' @ CHR ''_'' # (''y'' @ go_itoa y) @
      CHR ''_'' # ''d'' @ go_itoa d"]
      at [of t "''v2'' @ CHR ''_'' # ''p2'' @ CHR ''_'' # (''y'' @ go_itoa y) @ CHR ''_'' # ''d'' @ go_itoa d"]
      at [of "''v2''" "''p2'' @ CHR ''_'' # (''y'' @ go_itoa y) @ CHR ''_'' # ''d'' @ go_itoa d"]
      at [of "''p2''" "(''y'' @ go_itoa y) @ CHR ''_'' # ''d'' @ go_itoa d"]
      at [of "''y'' @ go_itoa y" "''d'' @ go_itoa d"] t
      go_contains_sep_none [of "CHR ''_''" "''d'' @ go_itoa d" "''db_statistics''"]
    by (simp add: go_has_suffix_iff)
  then have "go_replace_all ?rest ''db_statistics'' (''rolled_over_'' @ FormatDuration dur @ ''_db_statistics'') = ?rest"
    by (intro go_replace_all_no_occurrence) simp_all
  then show ?thesis
    using go_replace_all_hit [of "''db_statistics''" ?rest]
    by (simp add: daily_name_def rolled_daily_name_def)
qed

lemma parse_rolled_daily_name:
  assumes "CHR ''_'' \<notin> set t" and "int64 y" and "int64 d" and "y \<noteq> 1970"
  shows "parseRolledOverV2P2IndexName (rolled_daily_name t dur y d) =
           Some \<lparr>IndexName = rolled_daily_name t dur y d, Tenant = t, Year = y, Week = 0, IxDay = d,
                 Schema = Schema_V2, Phase = Phase_P2\<rparr>"
proof -
  have "go_split (CHR ''_'') (rolled_daily_name t dur y d) =
          [''rolled'', ''over'', FormatDuration dur, ''db'', ''statistics'', t, ''v2'', ''p2'',
           ''y'' @ go_itoa y, ''d'' @ go_itoa d]"
    unfolding rolled_daily_name_def by (rule go_split_join) (use assms in auto)
  moreover have "go_has_prefix (rolled_daily_name t dur y d) ''rolled_over''"
    by (simp add: rolled_daily_name_def)
  ultimately show ?thesis
    using assms by (auto simp: parseRolledOverV2P2IndexName_def not_1970_def schema_phase_defs)
qed

text \<open>The name of a rollover is never the name of the index rolled over.\<close>

lemma replace_keeps_statistics:
  assumes "sch = ''v2'' \<or> sch = ''v3''"
  shows "go_replace_all (''db_statistics'' @ s) (CHR ''_'' # sch @ rest) new
           = ''db_statistics'' @ go_replace_all s (CHR ''_'' # sch @ rest) new"
proof -
  let ?R = "\<lambda>s. go_replace_all s (CHR ''_'' # sch @ rest) new"
  have "?R (''db'' @ CHR ''_'' # ''statistics'' @ s) = ''db'' @ ?R (CHR ''_'' # ''statistics'' @ s)"
    by (rule go_replace_all_skip_segment) simp
  also have "?R (CHR ''_'' # ''statistics'' @ s) = CHR ''_'' # ?R (''statistics'' @ s)"
    using assms by (intro go_replace_all_skip) auto
  also have "?R (''statistics'' @ s) = ''statistics'' @ ?R s"
    by (rule go_replace_all_skip_segment) simp
  finally show ?thesis by simp
qed

lemma newIndexNameForRollover_prefix:
  assumes "newIndexNameForRollover ix dur = Inr new" and "go_has_prefix (IndexName ix) ''db_statistics''"
  shows "go_has_prefix new ''rolled_over_''"
proof -
  obtain s where s: "IndexName ix = ''db_statistics'' @ s" using assms(2) by (auto simp: go_has_prefix_iff)
  have hit: "go_has_prefix (go_replace_all (''db_statistics'' @ t) ''db_statistics''
      (''rolled_over_'' @ FormatDuration dur @ ''_db_statistics'')) ''rolled_over_''" for t
    using go_replace_all_hit [of "''db_statistics''" t] by simp
  show ?thesis
  proof (cases "Schema ix = Schema_V1")
    case True
    with assms(1) hit [of s] show ?thesis by (auto simp: newIndexNameForRollover_def Let_def s)
  next
    case False
    with assms(1) obtain p where sch: "Schema ix = ''v2'' \<or> Schema ix = ''v3''"
      and new: "new = go_replace_all (go_replace_all (''db_statistics'' @ s) (CHR ''_'' # Schema ix @ CHR ''_'' # Phase ix @ ''_'')
        (''_'' @ Schema_V2 @ ''_'' @ p @ ''_'')) ''db_statistics'' (''rolled_over_'' @ FormatDuration dur @ ''_db_statistics'')"
      by (auto simp: newIndexNameForRollover_def Let_def s schema_phase_defs split: if_splits sum.splits)
    show ?thesis unfolding new replace_keeps_statistics [OF sch] by (rule hit)
  qed
qed

section \<open>Properties\<close>

text \<open>C8: The name that the first migration gives to a daily index is recognised by the second one.
  For every tenant, year and day, a daily index of phase p1, of schema v2 or v3, gets from
  \<open>newIndexNameForRollover\<close> a name that \<open>parseRolledOverV2P2IndexName\<close> reads back as the
  same tenant, year and day, in schema v2 and the next phase, and the name the index itself is
  parsed from is not mistaken for a rolled over one.\<close>

theorem newIndexNameForRollover_parses_back:
  assumes "CHR ''_'' \<notin> set t" and "sch = Schema_V2 \<or> sch = Schema_V3_temp"
    and "int64 y" and "int64 d" and "y \<noteq> 1970"
  shows "\<exists>ix name ix'. parseIndexName (daily_name t sch Phase_P1 y d) = Some ix
           \<and> newIndexNameForRollover ix dur = Inr name
           \<and> parseRolledOverV2P2IndexName name = Some ix'
           \<and> ix' = \<lparr>IndexName = name, Tenant = t, Year = y, Week = 0, IxDay = d,
                   Schema = Schema_V2, Phase = Phase_P2\<rparr>
           \<and> aliasName ix' = aliasName ix
           \<and> parseRolledOverV2P2IndexName (IndexName ix) = None"
proof -
  let ?ix = "\<lparr>IndexName = daily_name t sch Phase_P1 y d, Tenant = t, Year = y, Week = 0, IxDay = d,
              Schema = sch, Phase = Phase_P1\<rparr>"
  let ?name = "rolled_daily_name t dur y d"
  have p: "parseIndexName (daily_name t sch Phase_P1 y d) = Some ?ix"
    by (rule parse_daily_name) (use assms in \<open>auto simp: Phase_P1_def\<close>)
  have n: "newIndexNameForRollover ?ix dur = Inr ?name"
    using assms replace_phase [of t sch y d] replace_statistics [of t y d dur]
    by (auto simp: newIndexNameForRollover_def phase_next_def Let_def schema_phase_defs)
  have "parseRolledOverV2P2IndexName (IndexName ?ix) = None"
    by (simp add: parseRolledOverV2P2IndexName_def daily_name_def)
  then show ?thesis
    using p n parse_rolled_daily_name [of t y d dur] assms by (auto simp: aliasName_def)
qed

theorem newIndexNameForRollover_parses_back_witness:
  "\<exists>ix name ix'. parseIndexName (daily_name ''acme'' Schema_V2 Phase_P1 2025 42) = Some ix
     \<and> newIndexNameForRollover ix (3600 * Second) = Inr name
     \<and> parseRolledOverV2P2IndexName name = Some ix'
     \<and> ix' = \<lparr>IndexName = name, Tenant = ''acme'', Year = 2025, Week = 0, IxDay = 42,
             Schema = Schema_V2, Phase = Phase_P2\<rparr>
     \<and> aliasName ix' = aliasName ix
     \<and> parseRolledOverV2P2IndexName (IndexName ix) = None"
  by (rule newIndexNameForRollover_parses_back) (simp_all add: int64_def)

text \<open>The two migrations of rolled over indices never compete for an index: no name is read
  both as a p2 index (to be merged into p3) and as a p3 or older index (to be merged into p4), and
  an index that was merged into p4 is read by neither of the parsers of rolled over p3 indices.\<close>

theorem rolled_over_parsers_disjoint:
  "(parseRolledOverV2P2IndexName s = None \<or> parseRolledOverP3OrOlderIndexName s = None)
   \<and> parseRolledOverP3OrOlderIndexName (a @ ''_p4_'' @ b) = None"
proof -
  have "Phase_P3 \<noteq> Schema_V2" by (simp add: schema_phase_defs)
  then have "parseRolledOverV2P2IndexName s = None \<or> parseRolledOverP3OrOlderIndexName s = None"
    by (auto simp: parseRolledOverV2P2IndexName_def parseRolledOverP3OrOlderIndexName_def Let_def)
  moreover have "go_contains (a @ ''_p4_'' @ b) ''_p4_''" by (metis go_contains_iff)
  ultimately show ?thesis by (simp add: parseRolledOverP3OrOlderIndexName_def Let_def)
qed

section \<open>Week numbers\<close>

lemma splitYearWeekNumber_inverse:
  "0 \<le> y \<Longrightarrow> 0 \<le> w \<Longrightarrow> w < 100 \<Longrightarrow> splitYearWeekNumber (yearWeekNumber y w) = (y, w)"
  by (simp add: splitYearWeekNumber_def yearWeekNumber_def)

end
