(* ===== verification/Open_Search.thy ===== *)
theory Open_Search
  imports Complex_Main Stats_Index
begin

text \<open>
  \<open>internal/store/os/utils.go\<close> and the request and response types of
  \<open>internal/stats/common.go\<close>.

  OpenSearch, the object store and the local file system are outside the repository.  A
  computation that uses them is a function of the calls made so far that returns an outcome
  and the calls made in the end; \<open>ext_client\<close>, an argument of every definition, says what
  the outside answers to a call after the calls before it, so it may answer the same call
  differently every time.  A reply carries its status, its text, and its body as read and decoded.
\<close>

section \<open>Requests\<close>

text \<open>Values decoded from JSON; a finite 64-bit float is a rational number.\<close>

datatype json =
    JNull
  | JBool bool
  | JNum rat
  | JStr string
  | JArr "json list"
  | JObj "(string \<times> json) list"

type_synonym json_map = "(string \<times> json) list"

text \<open>The conversion \<open>int64(x)\<close> cuts the fraction off; beyond 64 bits its value depends on the machine.\<close>

definition float_to_int64 :: "(rat \<Rightarrow> int) \<Rightarrow> rat \<Rightarrow> int" where
  "float_to_int64 overflow x =
     (let i = (if x < 0 then \<lceil>x\<rceil> else \<lfloor>x\<rfloor>) in if int64 i then i else overflow x)"

datatype alias_action =
    RemoveAlias string string
  | AddAlias string string

record Sort =
  SortField :: string
  Order :: string

record AggregationFunction =
  Function :: string
  AggField :: string
  AggName :: string

datatype SourceTerms =
    TermsField string
  | TermsScript string string

record CompositeAggRequest =
  CompQuery :: string
  CompSources :: "(string \<times> SourceTerms) list"
  CompAfter :: "json_map option"
  CompSize :: int
  CompAggs :: "(string \<times> (string \<times> string)) list"

record SearchRequestPaginated =
  PagSize :: int
  PagQuery :: string
  PagAfter :: "json list option"
  PagSort :: "(string \<times> string) list"

record MinMaxRequest =
  MinField :: string
  MaxField :: string

record Key =
  KName :: string
  KNamespace :: string
  SourceId :: string
  DestinationId :: string
  RuleId :: string
  FleetNodeId :: string
  OperatorId :: string
  TargetNodeId :: string
  RouteKey :: string
  TimeHistogramBuckets :: int

type_synonym After = Key

datatype RequestSource =
    TermsSource string string
  | TimeHistogramSource string string

record RolloverAggRequest =
  Gte :: int
  Lt :: int
  RollAfter :: "After option"
  RollSize :: int
  RollSources :: "RequestSource list"
  TopHitsSize :: int
  SumField :: string

text \<open>The composite key of \<open>internal/insights/process.go\<close>; its request has no query.\<close>

record InsightKey =
  IkKey1 :: string
  IkKey2 :: string
  IkKey3 :: string
  IkKey4 :: string
  IkKey5 :: string
  IkSourceId :: string
  IkDataPlaneId :: string

record InsightRequest =
  InsSize :: int
  InsAfter :: "InsightKey option"
  InsSources :: "string list"

datatype search_body =
    MinMax MinMaxRequest
  | RolloverAgg RolloverAggRequest
  | Paginated SearchRequestPaginated
  | CompositeAgg CompositeAggRequest
  | QueryString string
  | InsightsAgg InsightRequest

record EsSource =
  AggKey :: string
  EsName :: string
  EsNamespace :: string
  WindowKey :: string
  CounterValue :: json
  EsId :: string
  Tags :: "json_map option"
  Timestamp :: json

text \<open>
  Every call to the outside.  A file that is uploaded is identified with the documents written to it
  since it was opened.  A bulk request of documents, or of updates by a script, is its index and the
  fields of each document or update with its id.
\<close>

datatype ext_call =
    CatIndicesCall
  | AliasCall "alias_action list"
  | RefreshCall string
  | DeleteCall string
  | SearchCall string search_body
  | BulkCall string "EsSource list"
  | OpenFileCall string
  | WriteCall string json_map
  | CloseCall string
  | UploadCall string string "json_map list"
  | CatSizeCall
  | IndexBulkCall string "(string \<times> json_map) list"
  | ScriptBulkCall string string "(string \<times> json_map) list"
  | RemoveFileCall string

section \<open>Replies\<close>

record AggBucket =
  BKey :: Key
  AllFields :: "EsSource list"
  TotalCount :: json

record RolloverAggResponse =
  AfterKey :: "After option"
  Buckets :: "AggBucket list"

record MinMaxResponse =
  MinVal :: rat
  MaxVal :: rat

record SearchHit =
  HitSource :: json_map
  HitSort :: "json list"

record CompositeAggregationResponse =
  CompAfterKey :: "json_map option"
  CompBuckets :: "json_map list"

record InsightBucket =
  IbKey :: InsightKey
  IbCount :: rat
  IbMinTime :: rat
  IbMaxTime :: rat

record BulkResponseItem =
  ItemId :: string
  ItemStatus :: int
  ItemErrorType :: string
  ItemErrorReason :: string

text \<open>An item of a bulk reply is a map with one key, the kind of its operation.\<close>

datatype ext_body =
    NoBody
  | CatBody string
  | MinMaxBody MinMaxResponse
  | RolloverAggBody RolloverAggResponse
  | SearchBody "SearchHit list"
  | CompositeBody CompositeAggregationResponse
  | BulkBody bool
  | InsightsBody "InsightKey option" "InsightBucket list"
  | BulkItemsBody bool "BulkResponseItem list"

text \<open>
  \<open>NoReply\<close>: the call failed on the way.  \<open>Reply status text reason body\<close>: \<open>reason\<close> is the
  reason of the error object of the decoded body, empty when it has none; \<open>body\<close> is \<open>Inl\<close> when
  reading or decoding the body failed.
\<close>

datatype ext_reply =
    NoReply go_error
  | Reply int string string "go_error + ext_body"

type_synonym ext_client = "ext_call list \<Rightarrow> ext_call \<Rightarrow> ext_reply"

section \<open>Computations that call the outside\<close>

type_synonym 'a ext = "(ext_call list, 'a) eff"

definition ext_call :: "ext_client \<Rightarrow> ext_call \<Rightarrow> ext_reply ext" where
  "ext_call client c h = (Ok (client h c), h @ [c])"

lemma ext_call_simp [simp]: "ext_call client c h = (Ok (client h c), h @ [c])"
  by (simp add: ext_call_def)

subsection \<open>The calls a computation makes\<close>

text \<open>
  \<open>calls_in P m\<close>: \<open>m\<close> only adds calls to the history, and all it adds satisfy \<open>P\<close>, whatever the
  outcome.
\<close>

definition calls_in :: "(ext_call \<Rightarrow> bool) \<Rightarrow> 'a ext \<Rightarrow> bool" where
  "calls_in P m \<longleftrightarrow> (\<forall>h r h'. m h = (r, h') \<longrightarrow> (\<exists>cs. h' = h @ cs \<and> list_all P cs))"

named_theorems calls \<open>rules for the calls a computation makes\<close>

lemma calls_in_simple [calls]:
  "calls_in P (eff_return x)" "calls_in P (eff_fail e)" "calls_in P eff_panic" "calls_in P eff_out_of_fuel"
  "calls_in P (Pair r)"
  by (simp_all add: calls_in_def)

lemma calls_in_call [calls]: "P c \<Longrightarrow> calls_in P (ext_call client c)"
  by (simp add: calls_in_def)

lemma calls_in_bind [calls]:
  assumes "calls_in P m" and "\<And>x. calls_in P (f x)"
  shows "calls_in P (bind_eff m f)"
  unfolding calls_in_def
proof (intro allI impI)
  fix h r h' assume "bind_eff m f h = (r, h')"
  then consider x h1 where "m h = (Ok x, h1)" "f x h1 = (r, h')" | r1 where "m h = (r1, h')"
    unfolding bind_eff_outcome by blast
  then show "\<exists>cs. h' = h @ cs \<and> list_all P cs"
  proof cases
    case 1
    with assms obtain as bs where "h1 = h @ as" "list_all P as" "h' = h1 @ bs" "list_all P bs"
      unfolding calls_in_def by metis
    then show ?thesis by auto
  qed (use assms in \<open>auto simp: calls_in_def\<close>)
qed

lemma calls_in_try [calls]: "calls_in P m \<Longrightarrow> calls_in P (try_eff m)"
  unfolding calls_in_def try_eff_def by (auto split: prod.splits outcome.splits)

lemma calls_in_if [calls]: "calls_in P m \<Longrightarrow> calls_in P m' \<Longrightarrow> calls_in P (if b then m else m')"
  by simp

lemma calls_in_mono: "calls_in P m \<Longrightarrow> (\<And>c. P c \<Longrightarrow> Q c) \<Longrightarrow> calls_in Q m"
  unfolding calls_in_def list_all_iff by metis

lemma calls_inD:
  assumes "calls_in P m" and "m h = (r, h')"
  obtains cs where "h' = h @ cs" and "list_all P cs"
  using assms unfolding calls_in_def by blast

subsection \<open>Calls with their replies\<close>

text \<open>The calls with the replies they got.\<close>

fun replied :: "ext_client \<Rightarrow> ext_call list \<Rightarrow> ext_call list \<Rightarrow> (ext_call \<times> ext_reply) list" where
  "replied client h [] = []"
| "replied client h (c # cs) = (c, client h c) # replied client (h @ [c]) cs"

lemma replied_append: "replied client h (as @ bs) = replied client h as @ replied client (h @ as) bs"
  by (induction as arbitrary: h) simp_all

section \<open>The wrappers of \<open>store/os/utils.go\<close>\<close>

definition IsError :: "int \<Rightarrow> bool" where
  "IsError status \<longleftrightarrow> status > 299"

definition status_message :: "int \<Rightarrow> string \<Rightarrow> go_error" where
  "status_message status txt = ''['' @ go_itoa status @ ''] Status from OpenSearch body: '' @ txt"

text \<open>A call whose reply matters only by its status.\<close>

definition status_call :: "ext_client \<Rightarrow> ext_call \<Rightarrow> unit ext" where
  "status_call client c =
     bind_eff (ext_call client c) (\<lambda>reply.
       case reply of
         NoReply e \<Rightarrow> eff_fail e
       | Reply status txt _ _ \<Rightarrow>
           if IsError status then eff_fail (status_message status txt) else eff_return ())"

definition index_names :: "string \<Rightarrow> string list" where
  "index_names output =
     concat (map (\<lambda>row. let indexDetails = go_split (CHR '' '') row in
                         if length indexDetails > 2 then [indexDetails ! 2] else [])
                 (go_split (CHR 0x0A) output))"

definition CatIndices :: "ext_client \<Rightarrow> string list ext" where
  "CatIndices client =
     bind_eff (ext_call client CatIndicesCall) (\<lambda>reply.
       case reply of
         NoReply e \<Rightarrow> eff_fail e
       | Reply status txt _ body \<Rightarrow>
           if IsError status then eff_fail (status_message status txt)
           else (case body of
                   Inr (CatBody output) \<Rightarrow> eff_return (index_names output)
                 | Inl e \<Rightarrow> eff_fail (''['' @ go_itoa status @ ''] Error reading response body: '' @ e)
                 | _ \<Rightarrow> eff_fail (''['' @ go_itoa status @ ''] Error reading response body: '')))"

definition UpdateAliases :: "ext_client \<Rightarrow> string \<Rightarrow> string \<Rightarrow> string \<Rightarrow> unit ext" where
  "UpdateAliases client alias from to =
     status_call client (AliasCall [RemoveAlias from alias, AddAlias to alias])"

definition UpdateMultipleAliases ::
  "ext_client \<Rightarrow> string \<Rightarrow> string list \<Rightarrow> string \<Rightarrow> unit ext" where
  "UpdateMultipleAliases client alias from to =
     status_call client (AliasCall (map (\<lambda>f. RemoveAlias f alias) from @ [AddAlias to alias]))"

definition RefreshIndex :: "ext_client \<Rightarrow> string \<Rightarrow> unit ext" where
  "RefreshIndex client indexName = status_call client (RefreshCall indexName)"

definition DeleteIndex :: "ext_client \<Rightarrow> string \<Rightarrow> unit ext" where
  "DeleteIndex client indexName = status_call client (DeleteCall indexName)"

definition MakeSearchCall :: "ext_client \<Rightarrow> string \<Rightarrow> search_body \<Rightarrow> ext_reply ext" where
  "MakeSearchCall client index searchBody = ext_call client (SearchCall index searchBody)"

text \<open>The body of a search reply, with the status and the reason checked first.\<close>

definition search_reply_body :: "ext_reply \<Rightarrow> ext_body ext" where
  "search_reply_body reply =
     (case reply of
        NoReply e \<Rightarrow> eff_fail e
      | Reply status txt reason body \<Rightarrow>
          if IsError status then eff_fail (status_message status txt)
          else (case body of
                  Inl e \<Rightarrow> eff_fail e
                | Inr b \<Rightarrow> if reason \<noteq> '''' then eff_fail reason else eff_return b))"

definition SearchPaginated ::
  "ext_client \<Rightarrow> string \<Rightarrow> string \<Rightarrow> int \<Rightarrow> json list option \<Rightarrow> Sort list \<Rightarrow> (json_map list \<times> json list) ext" where
  "SearchPaginated client index query sz after srt =
     (let request = \<lparr>PagSize = sz, PagQuery = query, PagAfter = after,
                     PagSort = map (\<lambda>s. (SortField s, Order s)) srt\<rparr> in
      bind_eff (MakeSearchCall client index (Paginated request)) (\<lambda>reply.
      bind_eff (search_reply_body reply) (\<lambda>body.
        case body of
          SearchBody hits \<Rightarrow>
            eff_return (map HitSource hits, if hits = [] then [] else HitSort (last hits))
        | _ \<Rightarrow> eff_return ([], []))))"

text \<open>
  \<open>Search\<close> sends no size, so the service returns its first ten hits.  The total it also returns is not
  used by the modelled callers.
\<close>

definition Search :: "ext_client \<Rightarrow> string \<Rightarrow> string \<Rightarrow> json_map list ext" where
  "Search client index query =
     bind_eff (MakeSearchCall client (index @ ''*'') (QueryString query)) (\<lambda>reply.
     bind_eff (search_reply_body reply) (\<lambda>body.
       case body of SearchBody hits \<Rightarrow> eff_return (map HitSource hits) | _ \<Rightarrow> eff_return []))"

definition sourceTermsMissingAsNA :: "string \<Rightarrow> SourceTerms" where
  "sourceTermsMissingAsNA field =
     (let q = [CHR 0x27] in
      TermsScript
        (''if ((!doc.containsKey('' @ q @ field @ q @ '')) || doc['' @ q @ field @ q @
         ''].size() == 0) { return '' @ q @ ''N/A'' @ q @ ''; } else { return doc['' @ q @ field @ q @ ''].value; }'')
        ''painless'')"

record AggResponse =
  RespKey :: json_map
  RespValues :: json_map

definition json_get :: "json_map \<Rightarrow> string \<Rightarrow> json" where
  "json_get m k = (case map_of m k of None \<Rightarrow> JNull | Some v \<Rightarrow> v)"

text \<open>One bucket: \<open>None\<close> when a type assertion on one of its entries panics.\<close>

fun agg_response :: "string list \<Rightarrow> json_map \<Rightarrow> AggResponse \<Rightarrow> AggResponse option" where
  "agg_response aggFunNames [] resp = Some resp"
| "agg_response aggFunNames ((name, val) # entries) resp =
     (if name = ''key'' then
        (case val of
           JObj valueObj \<Rightarrow> agg_response aggFunNames entries (resp\<lparr>RespKey := valueObj\<rparr>)
         | _ \<Rightarrow> None)
      else if name \<in> set aggFunNames then
        (case val of
           JObj valObj \<Rightarrow>
             agg_response aggFunNames entries
               (resp\<lparr>RespValues := AList.update name (json_get valObj ''value'') (RespValues resp)\<rparr>)
         | _ \<Rightarrow> None)
      else agg_response aggFunNames entries resp)"

fun agg_responses :: "string list \<Rightarrow> json_map list \<Rightarrow> AggResponse list option" where
  "agg_responses aggFunNames [] = Some []"
| "agg_responses aggFunNames (bucket # bs) =
     (case agg_response aggFunNames bucket \<lparr>RespKey = [], RespValues = []\<rparr> of
        None \<Rightarrow> None
      | Some resp \<Rightarrow> map_option (\<lambda>rs. resp # rs) (agg_responses aggFunNames bs))"

definition compositePaginatedAggregate ::
  "ext_client \<Rightarrow> int \<Rightarrow> string \<Rightarrow> string \<Rightarrow> string list \<Rightarrow> string list \<Rightarrow> AggregationFunction list
     \<Rightarrow> json_map option \<Rightarrow> (AggResponse list \<times> json_map option) ext" where
  "compositePaginatedAggregate client sz indexName query groupBy missingAsNA aggregations after =
     (let req = \<lparr>CompQuery = query,
                 CompSources = map (\<lambda>group. (group, if group \<in> set missingAsNA
                                                    then sourceTermsMissingAsNA group
                                                    else TermsField group)) groupBy,
                 CompAfter = after, CompSize = sz,
                 CompAggs = map (\<lambda>agg. (AggName agg, (Function agg, AggField agg))) aggregations\<rparr> in
      bind_eff (MakeSearchCall client (indexName @ ''*'') (CompositeAgg req)) (\<lambda>reply.
      bind_eff (search_reply_body reply) (\<lambda>body.
        case body of
          CompositeBody resp \<Rightarrow>
            (case agg_responses (map AggName aggregations) (CompBuckets resp) of
               None \<Rightarrow> eff_panic
             | Some responses \<Rightarrow> eff_return (responses, CompAfterKey resp))
        | _ \<Rightarrow> eff_return ([], None))))"

definition CompositePaginatedAggregate ::
  "ext_client \<Rightarrow> int \<Rightarrow> string \<Rightarrow> string \<Rightarrow> string list \<Rightarrow> AggregationFunction list
     \<Rightarrow> json_map option \<Rightarrow> (AggResponse list \<times> json_map option) ext" where
  "CompositePaginatedAggregate client sz indexName query groupBy aggregations after =
     compositePaginatedAggregate client sz indexName query groupBy [] aggregations after"

definition CompositePaginatedAggregateWithNAMissing ::
  "ext_client \<Rightarrow> int \<Rightarrow> string \<Rightarrow> string \<Rightarrow> string list \<Rightarrow> string list \<Rightarrow> AggregationFunction list
     \<Rightarrow> json_map option \<Rightarrow> (AggResponse list \<times> json_map option) ext" where
  "CompositePaginatedAggregateWithNAMissing = compositePaginatedAggregate"

definition bulk_request :: "ext_client \<Rightarrow> ext_call \<Rightarrow> unit ext" where
  "bulk_request client c =
     bind_eff (ext_call client c) (\<lambda>reply.
       case reply of
         NoReply e \<Rightarrow> eff_fail e
       | Reply status txt _ body \<Rightarrow>
           if IsError status then eff_fail txt
           else (case body of
                   Inl e \<Rightarrow> eff_fail e
                 | Inr (BulkBody hasErrors) \<Rightarrow> if hasErrors then eff_fail txt else eff_return ()
                 | Inr _ \<Rightarrow> eff_return ()))"

definition PerformBulkRequest :: "ext_client \<Rightarrow> string \<Rightarrow> EsSource list \<Rightarrow> unit ext" where
  "PerformBulkRequest client index documents = bulk_request client (BulkCall index documents)"

text \<open>The fields of a document or the error of encoding it.\<close>

fun encode_all :: "('a \<Rightarrow> go_error + json_map) \<Rightarrow> ('a \<Rightarrow> string) \<Rightarrow> 'a list \<Rightarrow> go_error + (string \<times> json_map) list" where
  "encode_all encode idExtractor [] = Inr []"
| "encode_all encode idExtractor (d # ds) =
     (case encode d of
        Inl e \<Rightarrow> Inl e
      | Inr j \<Rightarrow> (case encode_all encode idExtractor ds of Inl e \<Rightarrow> Inl e | Inr js \<Rightarrow> Inr ((idExtractor d, j) # js)))"

definition BulkUpsert ::
  "ext_client \<Rightarrow> string \<Rightarrow> 'a list \<Rightarrow> ('a \<Rightarrow> go_error + json_map) \<Rightarrow> ('a \<Rightarrow> string) \<Rightarrow> unit ext" where
  "BulkUpsert client indexName documents encode idExtractor =
     (if documents = [] then eff_return ()
      else (case encode_all encode idExtractor documents of
              Inl e \<Rightarrow> eff_fail e
            | Inr items \<Rightarrow> bulk_request client (IndexBulkCall indexName items)))"

definition item_ok :: "BulkResponseItem \<Rightarrow> bool" where
  "item_ok r \<longleftrightarrow> 200 \<le> ItemStatus r \<and> ItemStatus r < 300"

definition item_missing :: "BulkResponseItem \<Rightarrow> bool" where
  "item_missing r \<longleftrightarrow> \<not> item_ok r \<and> ItemErrorType r = ''document_missing_exception''"

definition item_error :: "BulkResponseItem \<Rightarrow> string" where
  "item_error r = ''ID: '' @ ItemId r @ '', Status: '' @ go_itoa (ItemStatus r) @ '', Error: '' @ ItemErrorType r
     @ '' - '' @ ItemErrorReason r"

text \<open>The number of operations that succeeded and the ids of the missing documents.\<close>

definition PerformBulkRequestWithRetry :: "ext_client \<Rightarrow> ext_call \<Rightarrow> (nat \<times> string list) ext" where
  "PerformBulkRequestWithRetry client c =
     bind_eff (ext_call client c) (\<lambda>reply.
       case reply of
         NoReply e \<Rightarrow> eff_fail e
       | Reply status txt _ body \<Rightarrow>
           if IsError status then eff_fail txt
           else (case body of
                   Inl e \<Rightarrow> eff_fail e
                 | Inr (BulkItemsBody hasErrors items) \<Rightarrow>
                     if \<not> hasErrors then eff_return (length items, [])
                     else
                       let otherErrors = map item_error (filter (\<lambda>r. \<not> item_ok r \<and> \<not> item_missing r) items)
                       in if otherErrors \<noteq> [] then
                            eff_fail (''bulk operation had '' @ go_itoa (int (length otherErrors)) @ '' errors (non-missing): ''
                              @ go_join ''; '' otherErrors)
                          else eff_return (length (filter item_ok items), map ItemId (filter item_missing items))
                 | Inr _ \<Rightarrow> eff_return (0, [])))"

definition BulkUpsertWithScript ::
  "ext_client \<Rightarrow> string \<Rightarrow> string \<Rightarrow> 'a list \<Rightarrow> ('a \<Rightarrow> json_map) \<Rightarrow> ('a \<Rightarrow> string) \<Rightarrow> unit ext" where
  "BulkUpsertWithScript client indexName script documents params idExtractor =
     (if documents = [] then eff_return ()
      else bind_eff (PerformBulkRequestWithRetry client
               (ScriptBulkCall indexName script (map (\<lambda>d. (idExtractor d, params d)) documents)))
             (\<lambda>_. eff_return ()))"

subsection \<open>Indices with their sizes\<close>

fun go_fields :: "string \<Rightarrow> string \<Rightarrow> string list" where
  "go_fields w [] = (if w = [] then [] else [rev w])"
| "go_fields w (c # cs) =
     (if ascii_space c then (if w = [] then go_fields [] cs else rev w # go_fields [] cs)
      else go_fields (c # w) cs)"

text \<open>The value \<open>strconv.ParseInt\<close> returns beside its error: 0, or the nearest limit of 64 bits.\<close>

definition parse_int_value :: "string \<Rightarrow> int" where
  "parse_int_value s =
     (let v = (case s of
                 [] \<Rightarrow> None
               | c # cs \<Rightarrow>
                   if c = CHR ''-'' then map_option uminus (parse_digits cs)
                   else if c = CHR ''+'' then parse_digits cs
                   else parse_digits s)
      in case v of None \<Rightarrow> 0 | Some i \<Rightarrow> max (- (2 ^ 63)) (min (2 ^ 63 - 1) i))"

definition index_sizes :: "string \<Rightarrow> (string \<times> int) list" where
  "index_sizes output =
     fold (\<lambda>row m. case go_fields [] row of
        nm # sz # _ \<Rightarrow> AList.update nm (parse_int_value sz) m | _ \<Rightarrow> m) (go_split (CHR 0x0A) output) []"

definition CatIndicesWithSize :: "ext_client \<Rightarrow> (string \<times> int) list ext" where
  "CatIndicesWithSize client =
     bind_eff (ext_call client CatSizeCall) (\<lambda>reply.
       case reply of
         NoReply e \<Rightarrow> eff_fail e
       | Reply status txt _ body \<Rightarrow>
           if IsError status then eff_fail (status_message status txt)
           else (case body of
                   Inr (CatBody output) \<Rightarrow> eff_return (index_sizes output)
                 | Inl e \<Rightarrow> eff_fail (''['' @ go_itoa status @ ''] Error reading response body: '' @ e)
                 | _ \<Rightarrow> eff_fail (''['' @ go_itoa status @ ''] Error reading response body: '')))"

section \<open>What the wrappers call\<close>

lemma status_call_calls [calls]: "P c \<Longrightarrow> calls_in P (status_call client c)"
  unfolding status_call_def by (intro calls) (auto split: ext_reply.split intro!: calls)

lemma search_reply_body_calls [calls]: "calls_in P (search_reply_body reply)"
  unfolding search_reply_body_def by (auto split: ext_reply.split sum.split intro!: calls)

lemma SearchPaginated_calls [calls]:
  "(\<And>b. P (SearchCall index b)) \<Longrightarrow> calls_in P (SearchPaginated client index query sz after srt)"
  unfolding SearchPaginated_def MakeSearchCall_def Let_def
  by (intro calls) (auto split: ext_body.split intro!: calls)

lemma compositePaginatedAggregate_calls [calls]:
  "(\<And>b. P (SearchCall (indexName @ ''*'') b)) \<Longrightarrow>
   calls_in P (compositePaginatedAggregate client sz indexName query groupBy missing aggs after)"
  unfolding compositePaginatedAggregate_def MakeSearchCall_def Let_def
  by (intro calls) (auto split: ext_body.split option.split intro!: calls)

lemma bulk_request_calls [calls]: "P c \<Longrightarrow> calls_in P (bulk_request client c)"
  unfolding bulk_request_def
  by (intro calls) (auto split: ext_reply.split sum.split ext_body.split bool.split intro!: calls)

lemma PerformBulkRequest_calls [calls]:
  "P (BulkCall index documents) \<Longrightarrow> calls_in P (PerformBulkRequest client index documents)"
  unfolding PerformBulkRequest_def by (rule calls)

lemma BulkUpsert_calls [calls]:
  "(\<And>items. P (IndexBulkCall index items)) \<Longrightarrow> calls_in P (BulkUpsert client index documents encode ident)"
  unfolding BulkUpsert_def by (auto split: sum.split intro!: calls)

lemma PerformBulkRequestWithRetry_calls [calls]: "P c \<Longrightarrow> calls_in P (PerformBulkRequestWithRetry client c)"
  unfolding PerformBulkRequestWithRetry_def Let_def
  by (intro calls) (auto split: ext_reply.split sum.split ext_body.split bool.split intro!: calls)

lemma BulkUpsertWithScript_calls [calls]:
  "(\<And>items. P (ScriptBulkCall index script items)) \<Longrightarrow> calls_in P (BulkUpsertWithScript client index script documents params ident)"
  unfolding BulkUpsertWithScript_def by (auto intro!: calls)

lemma CatIndicesWithSize_calls [calls]: "P CatSizeCall \<Longrightarrow> calls_in P (CatIndicesWithSize client)"
  unfolding CatIndicesWithSize_def
  by (intro calls) (auto split: ext_reply.split sum.split ext_body.split intro!: calls)

text \<open>A call that only needs its status succeeds exactly on a reply with a status below 300.\<close>

lemma status_call_Ok:
  "status_call client c h = (Ok u, h') \<longleftrightarrow>
     h' = h @ [c] \<and> (\<exists>status txt reason body. client h c = Reply status txt reason body \<and> status \<le> 299)"
  by (auto simp: status_call_def bind_eff_def IsError_def split: ext_reply.splits)

lemma status_call_history: "snd (status_call client c h) = h @ [c]"
  by (auto simp: status_call_def bind_eff_def split: ext_reply.splits)

end
