(* ===== verification/Job_Result.thy ===== *)
theory Job_Result
  imports Util_Time
begin

text \<open>
  \<open>internal/common/job_result.go\<close>, \<open>internal/common/error_collector.go\<close> and the dispatcher of
  \<open>cmd/jobs.go\<close>: a job returns the list of errors it collected, and the process sends an alert
  and exits with status 1 exactly when that list is not empty.  The jobs themselves are an
  argument of \<open>RunJob\<close>, as are the alerts the outside alert service accepts.
\<close>

section \<open>Results and the error collector\<close>

record JobError =
  Message :: string

record JobResult =
  Errors :: "JobError list"

definition NewJobResultSuccess :: JobResult where
  "NewJobResultSuccess = \<lparr>Errors = []\<rparr>"

definition NewJobResultFromErrors :: "JobError list \<Rightarrow> JobResult" where
  "NewJobResultFromErrors errs = \<lparr>Errors = errs\<rparr>"

definition NewJobResultFromError :: "go_error option \<Rightarrow> JobResult" where
  "NewJobResultFromError err =
     (case err of None \<Rightarrow> NewJobResultSuccess | Some e \<Rightarrow> \<lparr>Errors = [\<lparr>Message = e\<rparr>]\<rparr>)"

type_synonym errorCollector = "JobError list"

definition NewErrorCollector :: errorCollector where
  "NewErrorCollector = []"

definition AddError :: "string \<Rightarrow> errorCollector \<Rightarrow> errorCollector" where
  "AddError message ec = ec @ [\<lparr>Message = message\<rparr>]"

definition GetErrors :: "errorCollector \<Rightarrow> JobError list" where
  "GetErrors ec = ec"

definition HasErrors :: "errorCollector \<Rightarrow> bool" where
  "HasErrors ec \<longleftrightarrow> 0 < length ec"

lemmas job_result_defs =
  NewJobResultSuccess_def NewJobResultFromErrors_def NewJobResultFromError_def

lemma GetErrors_fold_AddError:
  "GetErrors (fold AddError ms NewErrorCollector) = map (\<lambda>m. \<lparr>Message = m\<rparr>) ms"
proof -
  have "fold AddError ms ec = ec @ map (\<lambda>m. \<lparr>Message = m\<rparr>) ms" for ec
    by (induction ms arbitrary: ec) (simp_all add: AddError_def)
  then show ?thesis by (simp add: GetErrors_def NewErrorCollector_def)
qed

section \<open>The failure alert\<close>

record job_input =
  RequestId :: string
  Source :: string

text \<open>
  The loop of \<open>sendJobFailureAlert\<close> over the messages: \<open>n\<close> is the number of all messages, \<open>i\<close>
  the index of the next one, \<open>acc\<close> the text so far.
\<close>

fun combine_messages :: "nat \<Rightarrow> nat \<Rightarrow> string list \<Rightarrow> string \<Rightarrow> string" where
  "combine_messages n i [] acc = acc"
| "combine_messages n i (msg # ms) acc =
     (if length acc + length msg > 500
      then acc @ ''... and '' @ go_itoa (int n - int i + 1) @ '' more errors''
      else combine_messages n (Suc i) ms (acc @ (if i > 0 then ''; '' else '''') @ msg))"

definition combinedMessage :: "JobResult \<Rightarrow> string" where
  "combinedMessage result =
     (let errorMessages = map Message (Errors result)
      in combine_messages (length errorMessages) 0 errorMessages '''')"

definition formatJobFailureMessage :: "string \<Rightarrow> string \<Rightarrow> job_input \<Rightarrow> string" where
  "formatJobFailureMessage jobName errorMessage input =
     ''Job '' @ [CHR 0x27] @ jobName @ [CHR 0x27] @ '' failed with error: '' @ errorMessage
     @ (if RequestId input \<noteq> '''' then ''. Request ID: '' @ RequestId input else '''')
     @ (if Source input \<noteq> '''' then ''. Source: '' @ Source input else '''')"

section \<open>Running a job\<close>

datatype job_effect =
    JobFailureAlert string string
  | JobCompletionTimeAlert string duration duration

datatype job_exit = Panic | Exit int

definition getAckProcessorCompletionAlertThreshold :: "string \<Rightarrow> duration" where
  "getAckProcessorCompletionAlertThreshold env =
     (let thresholdValue = (if env = '''' then ''5m'' else env) in
      case go_parse_duration thresholdValue of
        None \<Rightarrow> 5 * Minute
      | Some threshold \<Rightarrow> if threshold \<le> 0 then 5 * Minute else threshold)"

definition ACK_PROCESSOR :: string where
  "ACK_PROCESSOR = ''ack_processor''"

text \<open>
  \<open>jobs\<close> gives the result of the job of a name and \<open>None\<close> for a name the switch does not
  list, \<open>elapsed\<close> the running time of the acknowledgement processor, \<open>env\<close> its configured
  threshold, \<open>mgr\<close> whether the alert service could be reached.
\<close>

definition RunJob ::
  "(string \<Rightarrow> JobResult option) \<Rightarrow> duration \<Rightarrow> string \<Rightarrow> bool \<Rightarrow> string \<Rightarrow> job_input
     \<Rightarrow> job_effect list \<times> job_exit" where
  "RunJob jobs elapsed env mgr jobName input =
     (case jobs jobName of
        None \<Rightarrow> ([], Panic)
      | Some result \<Rightarrow>
          let ackEffects =
                (if jobName = ACK_PROCESSOR then
                   (let threshold = getAckProcessorCompletionAlertThreshold env in
                    if elapsed > threshold \<and> mgr
                    then [JobCompletionTimeAlert jobName elapsed threshold] else [])
                 else [])
          in if length (Errors result) > 0
             then (ackEffects @
                   (if mgr then
                      [JobFailureAlert (formatJobFailureMessage jobName (combinedMessage result) input)
                         (combinedMessage result)]
                    else []), Exit 1)
             else (ackEffects, Exit 0))"

section \<open>Properties\<close>

lemma threshold_positive: "0 < getAckProcessorCompletionAlertThreshold env"
  by (simp add: getAckProcessorCompletionAlertThreshold_def Let_def split: option.splits)


text \<open>The loop either joins all messages or stops at one and says how many are left out.\<close>

lemma go_join_Cons: "go_join sep (w # ws) = w @ concat (map (\<lambda>v. sep @ v) ws)"
  by (induction sep ws arbitrary: w rule: go_join.induct) simp_all

lemma combine_messages_tail:
  "0 < i \<Longrightarrow>
   combine_messages n i ms acc = acc @ concat (map (\<lambda>m. ''; '' @ m) ms) \<or>
   (\<exists>k < length ms. combine_messages n i ms acc =
      acc @ concat (map (\<lambda>m. ''; '' @ m) (take k ms)) @
      ''... and '' @ go_itoa (int n - int (i + k) + 1) @ '' more errors'')"
proof (induction ms arbitrary: i acc)
  case Nil
  then show ?case by simp
next
  case (Cons msg ms)
  show ?case
  proof (cases "length acc + length msg > 500")
    case True
    then show ?thesis by (intro disjI2 exI [of _ 0]) simp
  next
    case False
    let ?acc = "acc @ ''; '' @ msg"
    from Cons.IH [of "Suc i" ?acc, OF zero_less_Suc] show ?thesis
    proof (elim disjE exE conjE)
      fix k assume k: "k < length ms" "combine_messages n (Suc i) ms ?acc = ?acc @
        concat (map (\<lambda>m. ''; '' @ m) (take k ms)) @
        ''... and '' @ go_itoa (int n - int (Suc i + k) + 1) @ '' more errors''"
      with False Cons.prems show ?thesis by (intro disjI2 exI [of _ "Suc k"]) simp
    qed (use False Cons.prems in simp_all)
  qed
qed

text \<open>the text of a failure alert is all messages joined, or the first \<open>k\<close> messages and a
  count of the rest; the count printed is one more than the number of messages left out.\<close>

theorem combinedMessage_count:
  "let ms = map Message (Errors result) in
   combinedMessage result = go_join ''; '' ms \<or>
   (\<exists>k < length ms. combinedMessage result = go_join ''; '' (take k ms) @
      ''... and '' @ go_itoa (int (length (drop k ms)) + 1) @ '' more errors'')"
proof (cases "map Message (Errors result)")
  case Nil
  then show ?thesis by (simp add: combinedMessage_def)
next
  case (Cons m ms)
  let ?n = "Suc (length ms)"
  have eq: "combinedMessage result =
      (if length m > 500 then ''... and '' @ go_itoa (int ?n + 1) @ '' more errors''
       else combine_messages ?n 1 ms m)"
    using Cons by (simp add: combinedMessage_def Let_def)
  show ?thesis
  proof (cases "length m > 500")
    case True
    with eq Cons show ?thesis unfolding Let_def by (intro disjI2 exI [of _ 0]) simp
  next
    case False
    have num: "int ?n - int (1 + k) + 1 = int (length (drop (Suc k) (m # ms))) + 1"
      if "k < length ms" for k using that by simp
    from combine_messages_tail [of 1 ?n ms m, OF zero_less_one]
    have "combine_messages ?n 1 ms m = go_join ''; '' (m # ms) \<or>
      (\<exists>k < length (m # ms). combine_messages ?n 1 ms m = go_join ''; '' (take k (m # ms)) @
        ''... and '' @ go_itoa (int (length (drop k (m # ms))) + 1) @ '' more errors'')"
    proof (elim disjE exE conjE)
      fix k assume "k < length ms" "combine_messages ?n 1 ms m = m @
        concat (map (\<lambda>m. ''; '' @ m) (take k ms)) @
        ''... and '' @ go_itoa (int ?n - int (1 + k) + 1) @ '' more errors''"
      then show ?thesis
        unfolding num [OF \<open>k < length ms\<close>] by (intro disjI2 exI [of _ "Suc k"]) (simp add: go_join_Cons)
    qed (simp add: go_join_Cons)
    with False eq Cons show ?thesis by (simp only: Let_def if_False)
  qed
qed

end
