(* ===== verification/Stats_Rollover.thy ===== *)
theory Stats_Rollover
  imports Open_Search Job_Result
begin

text \<open>
  \<open>internal/stats/rollover.go\<close>: rolling a statistics index over into an aggregated one.  The
  first part plans the time ranges and selects the indices, the second part is the rollover
  itself: aggregate the source range by range into the new index, validate the sums, back the
  source up, move the alias and delete the source.
\<close>

section \<open>Time ranges\<close>

record timeRange =
  tr_start :: int
  tr_end :: int

definition alignToGranularBoundary :: "go_time \<Rightarrow> duration \<Rightarrow> go_time" where
  "alignToGranularBoundary t dur =
     (if dur \<ge> Day then go_date (time_year t) (time_month t) (time_day t) 0 0 0 0
      else go_date (time_year t) (time_month t) (time_day t) (time_hour t) 0 0 0)"

text \<open>The loop of \<open>splitByTimeRanges\<close>; it is only entered with a positive duration.\<close>

function range_loop :: "go_time \<Rightarrow> go_time \<Rightarrow> duration \<Rightarrow> timeRange list" where
  "range_loop startOfRange endTime dur =
     (if startOfRange < endTime \<and> 0 < dur
      then \<lparr>tr_start = unix_milli startOfRange, tr_end = unix_milli (startOfRange + dur)\<rparr>
             # range_loop (startOfRange + dur) endTime dur
      else [])"
  by pat_completeness auto
termination
  by (relation "measure (\<lambda>(s, e, d). nat (e - s))") auto

declare range_loop.simps [simp del]

definition extend_last :: "timeRange list \<Rightarrow> timeRange list" where
  "extend_last ranges = butlast ranges @ [(last ranges)\<lparr>tr_end := tr_end (last ranges) + 1\<rparr>]"

text \<open>
  \<open>None\<close> stands for no result: with a duration that is not positive the loop does not end
  (or, when it is not entered, the last element of no ranges is asked for).
\<close>

definition splitByTimeRanges :: "int \<Rightarrow> int \<Rightarrow> duration \<Rightarrow> timeRange list option" where
  "splitByTimeRanges minEpoch maxEpoch dur =
     (let startTime = from_unix_milli minEpoch;
          endTime = from_unix_milli maxEpoch;
          startOfRange = alignToGranularBoundary startTime dur
      in if endTime - startOfRange \<le> dur
         then Some (extend_last [\<lparr>tr_start = unix_milli startOfRange,
                                  tr_end = unix_milli (startOfRange + dur)\<rparr>])
         else if dur \<le> 0 then None
         else Some (extend_last (range_loop startOfRange endTime dur)))"

section \<open>The ranges cover the data\<close>

lemma alignToGranularBoundary_le: "alignToGranularBoundary t dur \<le> t"
proof -
  have "0 \<le> t mod Day" and "0 \<le> t mod Hour" by simp_all
  then show ?thesis
    unfolding alignToGranularBoundary_def go_date_start_of_day go_date_start_of_hour by simp
qed

definition tr_window :: "timeRange \<Rightarrow> int \<times> int" where
  "tr_window r = (tr_start r, tr_end r)"

definition range_windows :: "duration \<Rightarrow> int \<Rightarrow> int \<Rightarrow> (int \<times> int) list" where
  "range_windows dur lo hi =
     (case splitByTimeRanges lo hi dur of None \<Rightarrow> [] | Some rs \<Rightarrow> map tr_window rs)"

lemma unix_milli_step: "Millisecond \<le> dur \<Longrightarrow> unix_milli t < unix_milli (t + dur)"
proof -
  assume "Millisecond \<le> dur"
  then have "unix_milli (t + Millisecond) \<le> unix_milli (t + dur)" by (intro unix_milli_mono) simp
  then show ?thesis by (simp add: unix_milli_def)
qed

lemma range_loop_chained:
  "Millisecond \<le> dur \<Longrightarrow> chained (map tr_window (range_loop s e dur))"
proof (induction s e dur rule: range_loop.induct)
  case (1 s e dur)
  show ?case
  proof (cases "s < e \<and> s + dur < e")
    case True
    with 1 have "chained (map tr_window (range_loop (s + dur) e dur))" by simp
    with True 1(2) unix_milli_step [of dur s] show ?thesis
      by (subst range_loop.simps, subst (asm) range_loop.simps, subst (1) range_loop.simps)
        (simp add: tr_window_def)
  next
    case False
    with 1(2) unix_milli_step [of dur s] show ?thesis
      by (subst range_loop.simps, subst range_loop.simps) (auto simp: tr_window_def)
  qed
qed

lemma range_loop_ends:
  assumes "s < e" and "0 < dur"
  shows "range_loop s e dur \<noteq> [] \<and> tr_start (hd (range_loop s e dur)) = unix_milli s \<and>
         unix_milli e \<le> tr_end (last (range_loop s e dur))"
  using assms
proof (induction s e dur rule: range_loop.induct)
  case (1 s e dur)
  show ?case
  proof (cases "s + dur < e")
    case True
    with 1 show ?thesis by (simp add: range_loop.simps [of s])
  next
    case False
    then have "range_loop (s + dur) e dur = []" by (subst range_loop.simps) simp
    moreover have "unix_milli e \<le> unix_milli (s + dur)" using False by (intro unix_milli_mono) simp
    ultimately show ?thesis using 1(2,3) by (simp add: range_loop.simps [of s])
  qed
qed

lemma extend_last_windows:
  assumes "rs \<noteq> []" and "chained (map tr_window rs)"
  shows "chained (map tr_window (extend_last rs))"
    and "fst (hd (map tr_window (extend_last rs))) = tr_start (hd rs)"
    and "snd (last (map tr_window (extend_last rs))) = tr_end (last rs) + 1"
proof -
  obtain ys r where rs: "rs = ys @ [r]" using assms(1) by (metis rev_exhaust)
  show "chained (map tr_window (extend_last rs))"
    using assms(2) chained_append_last [of "map tr_window ys" "tr_start r" "tr_end r" "tr_end r + 1"]
    by (simp add: rs extend_last_def tr_window_def)
  show "fst (hd (map tr_window (extend_last rs))) = tr_start (hd rs)"
    by (cases ys) (simp_all add: rs extend_last_def tr_window_def)
  show "snd (last (map tr_window (extend_last rs))) = tr_end (last rs) + 1"
    by (simp add: rs extend_last_def tr_window_def)
qed

lemma splitByTimeRanges_extends:
  assumes "Millisecond \<le> dur"
  obtains rs where "splitByTimeRanges lo hi dur = Some (extend_last rs)" and "rs \<noteq> []"
    and "chained (map tr_window rs)" and "tr_start (hd rs) \<le> lo" and "hi \<le> tr_end (last rs)"
proof -
  let ?s = "alignToGranularBoundary (from_unix_milli lo) dur" and ?e = "from_unix_milli hi"
  have lo: "unix_milli ?s \<le> lo"
    using unix_milli_mono [OF alignToGranularBoundary_le [of "from_unix_milli lo" dur]] by simp
  show thesis
  proof (cases "?e - ?s \<le> dur")
    case True
    then have "?e \<le> ?s + dur" by linarith
    from unix_milli_mono [OF this] have "hi \<le> unix_milli (?s + dur)" by simp
    with True lo unix_milli_step [OF assms] show thesis
      by (intro that [of "[\<lparr>tr_start = unix_milli ?s, tr_end = unix_milli (?s + dur)\<rparr>]"])
        (simp_all add: splitByTimeRanges_def tr_window_def Let_def)
  next
    case False
    with assms have "?s < ?e" "0 < dur" by linarith+
    with range_loop_ends [of ?s ?e dur] lo range_loop_chained [OF assms, of ?s ?e] False show thesis
      by (intro that [of "range_loop ?s ?e dur"]) (simp_all add: splitByTimeRanges_def Let_def)
  qed
qed

interpretation ranges: time_cover range_windows "\<lambda>dur lo hi. Millisecond \<le> dur"
proof
  fix dur lo hi :: int
  assume "Millisecond \<le> dur"
  then obtain rs where rs: "splitByTimeRanges lo hi dur = Some (extend_last rs)" "rs \<noteq> []"
    "chained (map tr_window rs)" "tr_start (hd rs) \<le> lo" "hi \<le> tr_end (last rs)"
    by (rule splitByTimeRanges_extends)
  have w: "range_windows dur lo hi = map tr_window (extend_last rs)"
    by (simp add: range_windows_def rs(1))
  show "range_windows dur lo hi \<noteq> []" by (simp add: w extend_last_def)
  show "chained (range_windows dur lo hi)" unfolding w by (rule extend_last_windows) (use rs in simp_all)
  show "fst (hd (range_windows dur lo hi)) \<le> lo" unfolding w extend_last_windows(2) [OF rs(2,3)] by (rule rs)
  show "hi < snd (last (range_windows dur lo hi))"
    unfolding w extend_last_windows(3) [OF rs(2,3)] using rs(5) by simp
qed

text \<open>C4: \<open>splitByTimeRanges\<close> returns, for every duration of at least a millisecond, ranges
  such that every timestamp from the smallest to the largest one in the index, both included, is
  selected by exactly one of the half-open range queries: no document is skipped and none is
  counted twice.\<close>

theorem splitByTimeRanges_exactly_once:
  assumes "Millisecond \<le> dur"
  shows "\<exists>rs. splitByTimeRanges minEpoch maxEpoch dur = Some rs \<and>
           (\<forall>t. minEpoch \<le> t \<and> t \<le> maxEpoch \<longrightarrow>
                length (filter (\<lambda>r. tr_start r \<le> t \<and> t < tr_end r) rs) = 1)"
proof -
  obtain rs where rs: "splitByTimeRanges minEpoch maxEpoch dur = Some rs"
    using splitByTimeRanges_extends [OF assms] by metis
  have "length (filter (\<lambda>r. tr_start r \<le> t \<and> t < tr_end r) rs) = 1"
    if "minEpoch \<le> t" "t \<le> maxEpoch" for t
    using ranges.exactly_one_window [OF assms that]
    by (simp add: range_windows_def rs filter_map o_def in_window_def tr_window_def)
  with rs show ?thesis by blast
qed

theorem splitByTimeRanges_exactly_once_witness:
  "\<exists>rs. splitByTimeRanges 1700000000000 1700100000000 (24 * Hour) = Some rs \<and>
     length (filter (\<lambda>r. tr_start r \<le> 1700050000000 \<and> 1700050000000 < tr_end r) rs) = 1"
proof -
  obtain rs where "splitByTimeRanges 1700000000000 1700100000000 (24 * Hour) = Some rs"
    "\<forall>t. 1700000000000 \<le> t \<and> t \<le> 1700100000000 \<longrightarrow>
       length (filter (\<lambda>r. tr_start r \<le> t \<and> t < tr_end r) rs) = 1"
    using splitByTimeRanges_exactly_once [of "24 * Hour"] by fastforce
  then show ?thesis by (intro exI [of _ rs]) simp
qed

section \<open>Configuration\<close>

record RolloverConfig =
  weeksOlderThan :: int
  specificIndex :: string
  skipIndices :: "string list"
  parallelism :: int
  limit :: int
  aggBatchSize :: int
  aggQueryRange :: duration
  validationRange :: duration
  aggWindow :: duration
  s3BackupEnabled :: bool
  deleteExistingRolledOverIndex :: bool
  skipValidation :: bool
  skipTenantIdValidation :: bool
  specificTenants :: string

definition parse_duration_error :: "string \<Rightarrow> go_error" where
  "parse_duration_error s = ''time: invalid duration '' @ s"

definition env_flag :: "(string \<Rightarrow> string) \<Rightarrow> string \<Rightarrow> string \<Rightarrow> bool" where
  "env_flag env key def = go_equal_fold (GetEnvOrDefault env key def) ''true''"

definition parseConfig :: "(string \<Rightarrow> string) \<Rightarrow> go_error + RolloverConfig" where
  "parseConfig env =
     (let queryRange = GetEnvOrDefault env ''STATS_ROLLOVER_AGG_QUERY_RANGE'' ''3h'';
          validation = GetEnvOrDefault env ''STATS_ROLLOVER_VALIDATION_RANGE'' ''24h'';
          window = GetEnvOrDefault env ''STATS_ROLLOVER_AGG_WINDOW'' ''1m'' in
      case go_parse_duration queryRange of None \<Rightarrow> Inl (parse_duration_error queryRange)
      | Some aggQueryDuration \<Rightarrow>
      (case go_parse_duration window of None \<Rightarrow> Inl (parse_duration_error window)
      | Some aggWindowDuration \<Rightarrow>
      (case go_parse_duration validation of None \<Rightarrow> Inl (parse_duration_error validation)
      | Some validationRangeDuration \<Rightarrow>
        if aggQueryDuration \<le> aggWindowDuration
        then Inl ''agg query range should be greater than agg window''
        else if validationRangeDuration < aggWindowDuration
        then Inl ''validation range should be greater than agg window''
        else Inr
          \<lparr>weeksOlderThan = GetEnvInt env ''STATS_ROLLOVER_OLDER_THAN_WEEKS'' 2,
           specificIndex = GetEnvOrDefault env ''STATS_ROLLOVER_SPECIFIC_INDEX'' '''',
           skipIndices = go_split (CHR '','') (GetEnvOrDefault env ''STATS_ROLLOVER_SKIP_INDICES'' ''''),
           parallelism = GetEnvInt env ''STATS_ROLLOVER_PARALLELISM'' 4,
           limit = GetEnvInt env ''STATS_ROLLOVER_INDEX_LIMIT'' 10,
           aggBatchSize = GetEnvInt env ''STATS_ROLLOVER_AGG_BATCH_SIZE'' 500,
           aggQueryRange = aggQueryDuration,
           validationRange = validationRangeDuration,
           aggWindow = aggWindowDuration,
           s3BackupEnabled = env_flag env ''STATS_ROLLOVER_S3_BACKUP_ENABLED'' ''true'',
           deleteExistingRolledOverIndex =
             env_flag env ''STATS_ROLLOVER_DELETE_EXISTING_ROLLED_OVER_INDEX'' ''false'',
           skipValidation = env_flag env ''STATS_ROLLOVER_SKIP_VALIDATION'' ''false'',
           skipTenantIdValidation = env_flag env ''STATS_ROLLOVER_SKIP_TENANT_ID_VALIDATION'' ''false'',
           specificTenants = GetEnvOrDefault env ''STATS_ROLLOVER_SPECIFIC_TENANTS'' ''''\<rparr>)))"

definition validateRolloverDurations :: "RolloverConfig \<Rightarrow> go_error option" where
  "validateRolloverDurations config =
     (if aggQueryRange config \<le> 0 \<or> validationRange config \<le> 0 \<or> aggWindow config \<le> 0
      then Some ''rollover durations must be positive'' else None)"

section \<open>Selecting indices\<close>

text \<open>Cutting a slice at a limit; a negative limit is out of range and panics (\<open>None\<close>).\<close>

definition cut_at :: "int \<Rightarrow> 'a list \<Rightarrow> 'a list option" where
  "cut_at n xs =
     (if int (length xs) > n then (if n < 0 then None else Some (take (nat n) xs)) else Some xs)"

text \<open>\<open>now\<close> is the current time; \<open>srt\<close> is \<open>sort.Slice\<close>.\<close>

definition statsRolloverCandidates :: "go_time \<Rightarrow> string list \<Rightarrow> int \<Rightarrow> string list \<Rightarrow> Index list" where
  "statsRolloverCandidates now indexNames weeks skip =
     (let thisYearWeekNumber = yearWeekNumber (fst (getWeekOfYear now)) (snd (getWeekOfYear now)) in
      concat (map (\<lambda>index.
        if go_has_prefix index ''db_statistics_'' then
          (case parseIndexName index of
             None \<Rightarrow> []
           | Some indexObj \<Rightarrow>
               if Schema indexObj = Schema_V1
                  \<and> yearWeekNumber (Year indexObj) (Week indexObj) < thisYearWeekNumber - weeks
                  \<and> \<not> contains skip index
               then [indexObj] else [])
        else []) indexNames))"

definition filterStatsValidIndices ::
  "((Index \<Rightarrow> int) \<Rightarrow> Index list \<Rightarrow> Index list) \<Rightarrow> go_time \<Rightarrow> string list \<Rightarrow> int \<Rightarrow> int \<Rightarrow> string list
     \<Rightarrow> Index list option" where
  "filterStatsValidIndices srt now indexNames weeks bound skip =
     cut_at bound (srt (\<lambda>ix. yearWeekNumber (Year ix) (Week ix))
                     (statsRolloverCandidates now indexNames weeks skip))"

definition yearWeekNumber52 :: "int \<Rightarrow> int \<Rightarrow> int" where
  "yearWeekNumber52 year week = year * 52 + week"

definition isWeekDifferenceMoreThan :: "int \<Rightarrow> int \<Rightarrow> int \<Rightarrow> int \<Rightarrow> int \<Rightarrow> bool" where
  "isWeekDifferenceMoreThan x yearThis weekThis yearThat weekThat \<longleftrightarrow>
     yearWeekNumber52 yearThis weekThis - yearWeekNumber52 yearThat weekThat > x"

definition isDayDifferenceMoreThan :: "int \<Rightarrow> int \<Rightarrow> int \<Rightarrow> int \<Rightarrow> int \<Rightarrow> bool" where
  "isDayDifferenceMoreThan x yearThis dayThis yearThat dayThat \<longleftrightarrow>
     yearThis * 365 + dayThis - (yearThat * 365 + dayThat) > x"

lemma cut_at_Some:
  "cut_at n xs = Some ys \<longleftrightarrow> ys = take (nat n) xs \<and> 0 \<le> n \<or> ys = xs \<and> int (length xs) \<le> n"
  by (auto simp: cut_at_def)

lemma set_if_case:
  "x \<in> set (if A then (case p of None \<Rightarrow> [] | Some y \<Rightarrow> if B y then [y] else []) else [])
     \<longleftrightarrow> A \<and> p = Some x \<and> B x"
proof (cases p)
  case (Some y)
  then show ?thesis by (cases A; cases "B y") auto
qed (cases A; simp)

lemma statsRolloverCandidates_iff:
  "ix \<in> set (statsRolloverCandidates now names weeks skip) \<longleftrightarrow>
     IndexName ix \<in> set names \<and> go_has_prefix (IndexName ix) ''db_statistics_'' \<and>
     parseIndexName (IndexName ix) = Some ix \<and> Schema ix = Schema_V1 \<and> IndexName ix \<notin> set skip \<and>
     yearWeekNumber (Year ix) (Week ix)
       < yearWeekNumber (fst (getWeekOfYear now)) (snd (getWeekOfYear now)) - weeks"
proof -
  let ?ok = "\<lambda>s. go_has_prefix s ''db_statistics_'' \<and> parseIndexName s = Some ix \<and> Schema ix = Schema_V1 \<and>
    yearWeekNumber (Year ix) (Week ix)
      < yearWeekNumber (fst (getWeekOfYear now)) (snd (getWeekOfYear now)) - weeks \<and> s \<notin> set skip"
  have "ix \<in> set (statsRolloverCandidates now names weeks skip) \<longleftrightarrow> (\<exists>s \<in> set names. ?ok s)"
    unfolding statsRolloverCandidates_def Let_def set_concat set_map image_image UN_iff set_if_case
    by (simp add: contains_def list_ex_iff)
  also have "\<dots> \<longleftrightarrow> IndexName ix \<in> set names \<and> ?ok (IndexName ix)"
    using parseIndexName_sound [of _ ix] by blast
  finally show ?thesis by blast
qed

lemma sorted_take_le:
  assumes "sorted (map k xs)" and "x \<in> set (take n xs)" and "y \<in> set (drop n xs)"
  shows "k x \<le> (k y :: int)"
  using assms(1) sorted_append [of "map k (take n xs)" "map k (drop n xs)"] assms(2,3)
  by (metis append_take_drop_id map_append imageI list.set_map)

text \<open>The weekly rollover takes a subset of the candidates, in order of their week, no more
  than the limit, and it takes the oldest ones: whenever a candidate is left out, no selected
  index is of a later week.\<close>

theorem filterStatsValidIndices_oldest_first:
  assumes "slice_sorter srt" and "filterStatsValidIndices srt now names weeks bound skip = Some sel"
  shows "sorted (map (\<lambda>ix. yearWeekNumber (Year ix) (Week ix)) sel)
    \<and> mset sel \<subseteq># mset (statsRolloverCandidates now names weeks skip)
    \<and> int (length sel) \<le> max bound 0
    \<and> (\<forall>rest ix old. mset (statsRolloverCandidates now names weeks skip) = mset sel + mset rest \<and>
          old \<in> set rest \<and> ix \<in> set sel
          \<longrightarrow> yearWeekNumber (Year ix) (Week ix) \<le> yearWeekNumber (Year old) (Week old))"
proof -
  let ?k = "\<lambda>ix. yearWeekNumber (Year ix) (Week ix)"
  let ?c = "statsRolloverCandidates now names weeks skip"
  let ?s = "srt ?k ?c"
  have srt: "sorted (map ?k ?s)" "mset ?s = mset ?c"
    using slice_sorter_sorted [OF assms(1)] slice_sorter_mset [OF assms(1)] by auto
  obtain n where sel: "sel = take n ?s" and n: "int (length sel) \<le> max bound 0"
  proof (cases "sel = ?s \<and> int (length ?s) \<le> bound")
    case True
    then show thesis using that [of "length ?s"] by auto
  next
    case False
    then have "sel = take (nat bound) ?s" using assms(2) unfolding filterStatsValidIndices_def cut_at_Some by blast
    then show thesis using that [of "nat bound"] by auto
  qed
  have split: "mset ?c = mset sel + mset (drop n ?s)"
    unfolding sel by (metis append_take_drop_id mset_append srt(2))
  have "?k ix \<le> ?k old" if "mset ?c = mset sel + mset rest" "old \<in> set rest" "ix \<in> set sel" for rest ix old
  proof -
    from split that(1) have "mset rest = mset (drop n ?s)" by simp
    then have "old \<in> set (drop n ?s)" using that(2) by (metis set_mset_mset)
    with that(3) sorted_take_le [OF srt(1), of ix n old] show ?thesis by (simp add: sel)
  qed
  moreover have "sorted (map ?k sel)" using srt(1) unfolding sel by (metis sorted_wrt_take take_map)
  ultimately show ?thesis using n split by (auto simp: mset_subset_eq_add_left)
qed

lemma filter_example:
  "filterStatsValidIndices sort_key (1748736000 * Second)
     [''db_statistics_acme_2025_10'', ''other'', ''db_statistics_beta_2024_51'', ''db_statistics_acme_2025_9''] 2 2 [] =
   Some [\<lparr>IndexName = ''db_statistics_beta_2024_51'', Tenant = ''beta'', Year = 2024, Week = 51, IxDay = 0,
          Schema = ''v1'', Phase = ''p1''\<rparr>,
         \<lparr>IndexName = ''db_statistics_acme_2025_9'', Tenant = ''acme'', Year = 2025, Week = 9, IxDay = 0,
          Schema = ''v1'', Phase = ''p1''\<rparr>]"
  by code_simp

theorem filterStatsValidIndices_oldest_first_witness:
  "\<exists>sel. filterStatsValidIndices sort_key (1748736000 * Second)
       [''db_statistics_acme_2025_10'', ''other'', ''db_statistics_beta_2024_51'', ''db_statistics_acme_2025_9''] 2 2 [] = Some sel
     \<and> sorted (map (\<lambda>ix. yearWeekNumber (Year ix) (Week ix)) sel) \<and> int (length sel) \<le> max 2 0"
  using filterStatsValidIndices_oldest_first [OF slice_sorter_sort_key filter_example]
  unfolding filter_example by blast

text \<open>
  Subtracting weeks from \<open>year * 100 + week\<close> ignores that the numbers jump between two years: in
  the first week of 2026 the index of the week before is older than \<open>two weeks\<close> for the code.
\<close>

theorem filterStatsValidIndices_new_year:
  "map_option (map IndexName) (filterStatsValidIndices sort_key (1767225600 * Second)
     [''db_statistics_acme_2025_52''] 2 10 []) = Some [''db_statistics_acme_2025_52'']
   \<and> getWeekOfYear (1767225600 * Second) = (2026, 1) \<and> getWeekOfYear ((1767225600 - 7 * 86400) * Second) = (2025, 52)"
  by code_simp

section \<open>Age of an index\<close>

text \<open>Both tests treat a year as 365 days or 52 weeks, so they never call an index older than it is.\<close>

lemma isDayDifferenceMoreThan_sound:
  assumes "isDayDifferenceMoreThan x y d y' d'" and "0 \<le> x" and "d \<le> 366" and "1 \<le> d'"
  shows "days_before_year y + d - (days_before_year y' + d') > x"
proof -
  have diff: "365 * (y - y') + d - d' > x"
    using assms(1) by (simp add: isDayDifferenceMoreThan_def algebra_simps)
  have "y' \<le> y"
  proof (rule ccontr)
    assume "\<not> y' \<le> y"
    then have "365 * (y - y') \<le> 365 * (- 1)" by (intro mult_left_mono) simp_all
    with diff assms show False by linarith
  qed
  from days_before_year_diff [OF this] diff show ?thesis by linarith
qed

text \<open>An index is never taken for older than it is: when \<open>isWeekDifferenceMoreThan\<close> holds of
  the ISO weeks of two days then the second lies more than \<open>x\<close> weeks before the first, and when
  \<open>isDayDifferenceMoreThan\<close> holds of the year and year day of the two days then the second lies more
  than \<open>x\<close> days before the first.\<close>

theorem age_tests_never_early:
  assumes "0 \<le> x"
  shows "(isWeekDifferenceMoreThan x (fst (time_isoweek t)) (snd (time_isoweek t))
            (fst (time_isoweek u)) (snd (time_isoweek u)) \<longrightarrow> x < day_of_time t div 7 - day_of_time u div 7)
       \<and> (isDayDifferenceMoreThan x (time_year t) (time_yearday t) (time_year u) (time_yearday u) \<longrightarrow>
            x < day_of_time t - day_of_time u)"
proof (intro conjI impI)
  let ?t = "iso_week_of_day (day_of_time t)" and ?u = "iso_week_of_day (day_of_time u)"
  assume "isWeekDifferenceMoreThan x (fst (time_isoweek t)) (snd (time_isoweek t))
            (fst (time_isoweek u)) (snd (time_isoweek u))"
  then have diff: "x < 52 * (fst ?t - fst ?u) + (snd ?t - snd ?u)"
    by (simp add: isWeekDifferenceMoreThan_def yearWeekNumber52_def time_isoweek_def algebra_simps)
  have "fst ?u \<le> fst ?t"
  proof (rule ccontr)
    assume "\<not> fst ?u \<le> fst ?t"
    then have "52 * (fst ?t - fst ?u) \<le> 52 * (- 1)" by (intro mult_left_mono) simp_all
    with diff assms iso_week_range [of "day_of_time t"] iso_week_range [of "day_of_time u"] show False by linarith
  qed
  from iso_week_distance [OF this] diff show "x < day_of_time t div 7 - day_of_time u div 7" by linarith
next
  assume "isDayDifferenceMoreThan x (time_year t) (time_yearday t) (time_year u) (time_yearday u)"
  from isDayDifferenceMoreThan_sound [OF this assms] yday_less [of "day_of_time t"] yday_nonneg [of "day_of_time u"]
  show "x < day_of_time t - day_of_time u"
    by (simp add: time_year_def time_yearday_def yday_of_day_def)
qed

theorem age_tests_never_early_witness:
  "3 < day_of_time (1748736000 * Second) - day_of_time (1748000000 * Second)"
proof -
  have "isDayDifferenceMoreThan 3 (time_year (1748736000 * Second)) (time_yearday (1748736000 * Second))
          (time_year (1748000000 * Second)) (time_yearday (1748000000 * Second))"
    by code_simp
  with age_tests_never_early [of 3 "1748736000 * Second" "1748000000 * Second"] show ?thesis by simp
qed

end
