(* ===== verification/Stats_Run.thy ===== *)
theory Stats_Run
  imports Stats_Rollover
begin

text \<open>
  The effects of \<open>internal/stats/rollover.go\<close>: one rollover of an index into another, its
  validation and backup, and the job that rolls over all older indices.

  \<open>ext_env\<close> collects what is outside: the client, \<open>util.Hash\<close> (a third-party hash), the decimal
  parser, the directory for temporary files, and the fuel of the loops that page through
  results until the service has no more.
\<close>

section \<open>Requests and documents\<close>

record ext_env =
  e_client :: ext_client
  e_hash :: "string \<Rightarrow> string"
  e_parse_float :: "string \<Rightarrow> go_error + rat"
  e_temp_dir :: string
  e_fuel :: nat

definition fieldEventSourceId :: string where "fieldEventSourceId = ''tags.db_event_source_id.keyword''"
definition fieldOperatorId :: string where "fieldOperatorId = ''tags.operator_id.keyword''"
definition fieldRuleId :: string where "fieldRuleId = ''tags.rule_id.keyword''"
definition fieldTargetNodeId :: string where "fieldTargetNodeId = ''tags.target_node_id.keyword''"
definition fieldRouteKey :: string where "fieldRouteKey = ''tags.route_key.keyword''"
definition fieldNameRaw :: string where "fieldNameRaw = ''name.raw''"
definition missingOperatorTagValue :: string where "missingOperatorTagValue = ''N/A''"
definition errValidationFailed :: string where "errValidationFailed = ''new index data validation failed''"

definition newDocKey :: "ext_env \<Rightarrow> Key \<Rightarrow> string \<Rightarrow> string" where
  "newDocKey env k srcIndexName =
     e_hash env (go_join '':'' [KName k, KNamespace k, SourceId k, DestinationId k, RuleId k, FleetNodeId k,
       OperatorId k, TargetNodeId k, RouteKey k, srcIndexName, go_itoa (TimeHistogramBuckets k)])"

definition newRequestSourceTermsAgg :: "string \<Rightarrow> string" where
  "newRequestSourceTermsAgg field =
     (let q = [CHR 0x27] in
      ''if ((!doc.containsKey('' @ q @ field @ q @ '')) || doc['' @ q @ field @ q @
      ''].size() == 0) { return '' @ q @ ''N/A'' @ q @ ''; } else { return doc['' @ q @ field @ q @ ''].value; }'')"

definition buildRolloverAggRequest ::
  "int \<Rightarrow> int \<Rightarrow> After option \<Rightarrow> int \<Rightarrow> duration \<Rightarrow> RolloverAggRequest" where
  "buildRolloverAggRequest start end after batchSize aggWindowDuration =
     \<lparr>Gte = start, Lt = end, RollAfter = after, RollSize = batchSize,
      RollSources =
        [TermsSource ''name'' (newRequestSourceTermsAgg fieldNameRaw),
         TermsSource ''namespace'' (newRequestSourceTermsAgg ''namespace''),
         TermsSource ''source_id'' (newRequestSourceTermsAgg fieldEventSourceId),
         TermsSource ''destination_id'' (newRequestSourceTermsAgg ''tags.destination_id.keyword''),
         TermsSource ''rule_id'' (newRequestSourceTermsAgg fieldRuleId),
         TermsSource ''fleet_node_id'' (newRequestSourceTermsAgg ''tags.db_node_id.keyword''),
         TermsSource ''operator_id'' (newRequestSourceTermsAgg fieldOperatorId),
         TermsSource ''target_node_id'' (newRequestSourceTermsAgg fieldTargetNodeId),
         TermsSource ''route_key'' (newRequestSourceTermsAgg fieldRouteKey),
         TimeHistogramSource ''tags.db_ts_win'' (FormatDuration aggWindowDuration)],
      TopHitsSize = 1, SumField = ''counter.value''\<rparr>"

definition normalizeRolloverTagValue :: "string \<Rightarrow> string" where
  "normalizeRolloverTagValue value = (if value = '''' then missingOperatorTagValue else value)"

definition applyRolloverCompositeTags :: "json_map \<Rightarrow> Key \<Rightarrow> int \<Rightarrow> json_map" where
  "applyRolloverCompositeTags tags key timeHistogramBucket =
     AList.update ''rule_id'' (JStr (normalizeRolloverTagValue (RuleId key)))
     (AList.update ''route_key'' (JStr (normalizeRolloverTagValue (RouteKey key)))
     (AList.update ''target_node_id'' (JStr (normalizeRolloverTagValue (TargetNodeId key)))
     (AList.update ''operator_id'' (JStr (normalizeRolloverTagValue (OperatorId key)))
     (AList.update ''db_ts_win'' (JNum (of_int timeHistogramBucket)) tags))))"

definition parseCounter :: "ext_env \<Rightarrow> json \<Rightarrow> go_error + rat" where
  "parseCounter env counterSum =
     (case counterSum of
        JStr s \<Rightarrow> e_parse_float env s
      | JNum f \<Rightarrow> Inr f
      | _ \<Rightarrow> Inl ''counter value not a float or string'')"

text \<open>The document written for one bucket.\<close>

definition rollover_source :: "ext_env \<Rightarrow> Index \<Rightarrow> AggBucket \<Rightarrow> go_error + EsSource" where
  "rollover_source env index bucket =
     (case AllFields bucket of
        [] \<Rightarrow> Inl ''no AllFields found for agg key''
      | sampleValue # _ \<Rightarrow>
          (case parseCounter env (TotalCount bucket) of
             Inl e \<Rightarrow> Inl e
           | Inr counterValue \<Rightarrow>
               let ts = TimeHistogramBuckets (BKey bucket);
                   tags = (case Tags sampleValue of None \<Rightarrow> [] | Some tags \<Rightarrow> tags) in
               Inr (sampleValue
                 \<lparr>EsId := newDocKey env (BKey bucket) (IndexName index),
                  CounterValue := JNum counterValue,
                  Timestamp := JNum (of_int ts),
                  Tags := Some (applyRolloverCompositeTags tags (BKey bucket) ts)\<rparr>)))"

fun rollover_sources :: "ext_env \<Rightarrow> Index \<Rightarrow> AggBucket list \<Rightarrow> go_error + EsSource list" where
  "rollover_sources env index [] = Inr []"
| "rollover_sources env index (b # bs) =
     (case rollover_source env index b of
        Inl e \<Rightarrow> Inl e
      | Inr src \<Rightarrow>
          (case rollover_sources env index bs of Inl e \<Rightarrow> Inl e | Inr srcs \<Rightarrow> Inr (src # srcs)))"

section \<open>Aggregating into the new index\<close>

text \<open>The body of a reply whose status must be 200.\<close>

definition ok_body :: "string \<Rightarrow> ext_reply \<Rightarrow> ext_body ext" where
  "ok_body what reply =
     (case reply of
        NoReply e \<Rightarrow> eff_fail e
      | Reply status txt reason body \<Rightarrow>
          if status \<noteq> 200
          then eff_fail (''failed to get successful response from opensearch'' @ what @ '', body:'' @ txt)
          else (case body of
                  Inl e \<Rightarrow> eff_fail e
                | Inr b \<Rightarrow> if reason \<noteq> '''' then eff_fail reason else eff_return b))"

definition go_trunc :: "rat \<Rightarrow> int" where
  "go_trunc r = (if r < 0 then - \<lfloor>- r\<rfloor> else \<lfloor>r\<rfloor>)"

definition findMinMaxTimestamp :: "ext_env \<Rightarrow> Index \<Rightarrow> (int \<times> int) ext" where
  "findMinMaxTimestamp env index =
     bind_eff (MakeSearchCall (e_client env) (IndexName index)
                (MinMax \<lparr>MinField = ''tags.db_ts_win'', MaxField = ''tags.db_ts_win''\<rparr>)) (\<lambda>reply.
     bind_eff (ok_body '' for min max'' reply) (\<lambda>body.
       case body of
         MinMaxBody resp \<Rightarrow> eff_return (go_trunc (MinVal resp), go_trunc (MaxVal resp))
       | _ \<Rightarrow> eff_return (0, 0)))"

definition makeSearchCallAndParseResponse ::
  "ext_env \<Rightarrow> Index \<Rightarrow> RolloverAggRequest \<Rightarrow> RolloverAggResponse ext" where
  "makeSearchCallAndParseResponse env index rolloverRequest =
     bind_eff (MakeSearchCall (e_client env) (IndexName index) (RolloverAgg rolloverRequest)) (\<lambda>reply.
     bind_eff (ok_body '''' reply) (\<lambda>body.
       case body of
         RolloverAggBody resp \<Rightarrow> eff_return resp
       | _ \<Rightarrow> eff_return \<lparr>AfterKey = None, Buckets = []\<rparr>))"

definition insertIntoNewIndex :: "ext_env \<Rightarrow> EsSource list \<Rightarrow> string \<Rightarrow> unit ext" where
  "insertIntoNewIndex env documents newIndexName =
     (if documents = [] then eff_return ()
      else PerformBulkRequest (e_client env) newIndexName documents)"

text \<open>The inner loop of \<open>doRolloverAndValidate\<close>: the pages of one time range.\<close>

fun rollover_pages ::
  "ext_env \<Rightarrow> Index \<Rightarrow> RolloverConfig \<Rightarrow> string \<Rightarrow> timeRange \<Rightarrow> nat \<Rightarrow> After option \<Rightarrow> unit ext" where
  "rollover_pages env index config newIndexName tr 0 after = eff_out_of_fuel"
| "rollover_pages env index config newIndexName tr (Suc n) after =
     bind_eff (makeSearchCallAndParseResponse env index
       (buildRolloverAggRequest (tr_start tr) (tr_end tr) after (aggBatchSize config) (aggWindow config)))
     (\<lambda>response.
       if Buckets response = [] then eff_return ()
       else
         bind_eff (eff_result (rollover_sources env index (Buckets response))) (\<lambda>sources.
         bind_eff (insertIntoNewIndex env sources newIndexName) (\<lambda>_.
           rollover_pages env index config newIndexName tr n (AfterKey response))))"

fun rollover_ranges ::
  "ext_env \<Rightarrow> Index \<Rightarrow> RolloverConfig \<Rightarrow> string \<Rightarrow> timeRange list \<Rightarrow> unit ext" where
  "rollover_ranges env index config newIndexName [] = eff_return ()"
| "rollover_ranges env index config newIndexName (tr # trs) =
     bind_eff (rollover_pages env index config newIndexName tr (e_fuel env) None) (\<lambda>_.
       rollover_ranges env index config newIndexName trs)"

section \<open>Validating the new index\<close>

text \<open>
  The nested maps of counts, as one map from the tuple of keys; an inner map is made only to
  hold an entry, so nested maps are equal exactly when these are.
\<close>

type_synonym counts = "(string list \<times> rat) list"

definition counts_equal :: "counts \<Rightarrow> counts \<Rightarrow> bool" where
  "counts_equal a b \<longleftrightarrow>
     list_all (\<lambda>(k, v). map_of b k = Some v) a \<and> list_all (\<lambda>(k, v). map_of a k = Some v) b"

definition aggKeyString :: "json_map \<Rightarrow> string \<Rightarrow> string" where
  "aggKeyString key groupField =
     (case json_get key groupField of
        JStr s \<Rightarrow> if s \<noteq> '''' then s else missingOperatorTagValue
      | _ \<Rightarrow> missingOperatorTagValue)"

text \<open>The strings of a key; \<open>None\<close> when the type assertion on one of them panics.\<close>

fun key_strings :: "json_map \<Rightarrow> string list \<Rightarrow> string list option" where
  "key_strings key [] = Some []"
| "key_strings key (g # gs) =
     (case json_get key g of
        JStr s \<Rightarrow> map_option (\<lambda>ss. s # ss) (key_strings key gs)
      | _ \<Rightarrow> None)"

fun add_counts :: "string list \<Rightarrow> AggResponse list \<Rightarrow> counts \<Rightarrow> counts option" where
  "add_counts groupBy [] counts = Some counts"
| "add_counts groupBy (agg # aggs) counts =
     (case key_strings (RespKey agg) (butlast groupBy) of
        None \<Rightarrow> None
      | Some ks \<Rightarrow>
          (case json_get (RespValues agg) ''total_count'' of
             JNum v \<Rightarrow>
               add_counts groupBy aggs
                 (AList.update (ks @ [aggKeyString (RespKey agg) (last groupBy)]) v counts)
           | _ \<Rightarrow> None))"

definition total_count_agg :: "AggregationFunction list" where
  "total_count_agg = [\<lparr>Function = ''sum'', AggField = ''counter.value'', AggName = ''total_count''\<rparr>]"

fun paginate_agg ::
  "ext_env \<Rightarrow> string \<Rightarrow> string \<Rightarrow> string list \<Rightarrow> nat \<Rightarrow> json_map option \<Rightarrow> counts \<Rightarrow> counts ext" where
  "paginate_agg env indexName query groupBy 0 searchAfter counts = eff_out_of_fuel"
| "paginate_agg env indexName query groupBy (Suc n) searchAfter counts =
     bind_eff (CompositePaginatedAggregateWithNAMissing (e_client env) 100 indexName query groupBy
                 [fieldOperatorId] total_count_agg searchAfter)
     (\<lambda>(aggs, newSearchAfter).
       if aggs = [] then eff_return counts
       else (case add_counts groupBy aggs counts of
               None \<Rightarrow> eff_panic
             | Some counts' \<Rightarrow>
                 if newSearchAfter = None then eff_return counts'
                 else paginate_agg env indexName query groupBy n newSearchAfter counts'))"

definition groupBy4 :: "string list" where
  "groupBy4 = [fieldEventSourceId, fieldNameRaw, ''namespace'', fieldOperatorId]"

definition groupBy5 :: "string list" where
  "groupBy5 = [''tags.db_tenant_id.keyword'', fieldEventSourceId, fieldNameRaw, ''namespace'', fieldOperatorId]"

definition paginateAgg4 :: "ext_env \<Rightarrow> string \<Rightarrow> string \<Rightarrow> counts ext" where
  "paginateAgg4 env indexName query = paginate_agg env indexName query groupBy4 (e_fuel env) None []"

definition paginateAgg5 :: "ext_env \<Rightarrow> string \<Rightarrow> string \<Rightarrow> counts ext" where
  "paginateAgg5 env indexName query = paginate_agg env indexName query groupBy5 (e_fuel env) None []"

definition range_query :: "timeRange \<Rightarrow> string" where
  "range_query vr = ''tags.db_ts_win:['' @ go_itoa (tr_start vr) @ '' TO '' @ go_itoa (tr_end vr) @ ''}''"

fun validate_ranges ::
  "(string \<Rightarrow> string \<Rightarrow> counts ext) \<Rightarrow> string \<Rightarrow> string \<Rightarrow> timeRange list \<Rightarrow> bool \<Rightarrow> bool ext" where
  "validate_ranges paginateAgg index newIndexName [] sawAnySourceBuckets = eff_return sawAnySourceBuckets"
| "validate_ranges paginateAgg index newIndexName (vr # vrs) sawAnySourceBuckets =
     bind_eff (paginateAgg index (range_query vr)) (\<lambda>olderCounts.
     bind_eff (paginateAgg newIndexName (range_query vr)) (\<lambda>newCounts.
       let saw = (sawAnySourceBuckets \<or> olderCounts \<noteq> []) in
       if olderCounts = [] \<and> newCounts = []
       then validate_ranges paginateAgg index newIndexName vrs saw
       else if \<not> counts_equal olderCounts newCounts then eff_fail errValidationFailed
       else validate_ranges paginateAgg index newIndexName vrs saw))"

definition validateNewData ::
  "ext_env \<Rightarrow> Index \<Rightarrow> string \<Rightarrow> int \<Rightarrow> int \<Rightarrow> duration \<Rightarrow> bool \<Rightarrow> unit ext" where
  "validateNewData env index newIndexName minVal maxVal validationDuration skipTenantId =
     bind_eff (RefreshIndex (e_client env) newIndexName) (\<lambda>_.
       case splitByTimeRanges minVal maxVal validationDuration of
         None \<Rightarrow> eff_out_of_fuel
       | Some validationRanges \<Rightarrow>
           bind_eff (validate_ranges (if skipTenantId then paginateAgg4 env else paginateAgg5 env)
                       (IndexName index) newIndexName validationRanges False)
           (\<lambda>sawAnySourceBuckets.
             if minVal > 0 \<and> \<not> sawAnySourceBuckets
             then eff_fail (errValidationFailed @ '': source index returned no aggregation buckets'')
             else eff_return ()))"

definition doRolloverAndValidate :: "ext_env \<Rightarrow> Index \<Rightarrow> RolloverConfig \<Rightarrow> string \<Rightarrow> unit ext" where
  "doRolloverAndValidate env index config newIndexName =
     (case validateRolloverDurations config of
        Some e \<Rightarrow> eff_fail e
      | None \<Rightarrow>
          bind_eff (findMinMaxTimestamp env index) (\<lambda>(minVal, maxVal).
          case splitByTimeRanges minVal maxVal (aggQueryRange config) of
            None \<Rightarrow> eff_out_of_fuel
          | Some timeRanges \<Rightarrow>
              bind_eff (if deleteExistingRolledOverIndex config
                        then DeleteIndex (e_client env) newIndexName else eff_return ()) (\<lambda>_.
              bind_eff (rollover_ranges env index config newIndexName timeRanges) (\<lambda>_.
                if \<not> skipValidation config
                then validateNewData env index newIndexName minVal maxVal (validationRange config)
                       (skipTenantIdValidation config)
                else eff_return ()))))"

section \<open>Backing an index up\<close>

definition io_call :: "ext_env \<Rightarrow> ext_call \<Rightarrow> unit ext" where
  "io_call env c =
     bind_eff (ext_call (e_client env) c) (\<lambda>reply.
       case reply of NoReply e \<Rightarrow> eff_fail e | Reply _ _ _ _ \<Rightarrow> eff_return ())"

definition go_base :: "string \<Rightarrow> string" where
  "go_base path = last (go_split (CHR ''/'') path)"

text \<open>A backup file that is open: its name and the documents written to it.\<close>

type_synonym zip_file = "string \<times> json_map list"

fun writeToBackupFile :: "ext_env \<Rightarrow> zip_file \<Rightarrow> json_map list \<Rightarrow> zip_file ext" where
  "writeToBackupFile env zf [] = eff_return zf"
| "writeToBackupFile env zf (doc # docs) =
     bind_eff (io_call env (WriteCall (fst zf) doc)) (\<lambda>_.
       writeToBackupFile env (fst zf, snd zf @ [doc]) docs)"

definition upload :: "ext_env \<Rightarrow> Index \<Rightarrow> zip_file \<Rightarrow> unit ext" where
  "upload env index zf =
     (let objectKey = ''stats_backup/tenant_id='' @ Tenant index @ ''/year='' @ go_itoa (Year index)
            @ ''/week='' @ go_itoa (Week index) @ ''/'' @ go_base (fst zf) in
      bind_eff (io_call env (CloseCall (fst zf))) (\<lambda>_.
      bind_eff (io_call env (CloseCall (fst zf))) (\<lambda>_.
        io_call env (UploadCall objectKey (fst zf) (snd zf)))))"

definition backup_sort :: "Sort list" where
  "backup_sort = [\<lparr>SortField = ''document_id.keyword'', Order = ''asc''\<rparr>]"

text \<open>
  The loop of \<open>uploadOlderStatsToS3\<close>: \<open>i\<close> counts the pages, \<open>zf\<close> is the open file; the file
  has pending data exactly when \<open>fileHadPendingData\<close>.
\<close>

fun backup_loop ::
  "ext_env \<Rightarrow> Index \<Rightarrow> nat \<Rightarrow> nat \<Rightarrow> json list option \<Rightarrow> zip_file option \<Rightarrow> bool \<Rightarrow> unit ext" where
  "backup_loop env index 0 i after zf fileHadPendingData = eff_out_of_fuel"
| "backup_loop env index (Suc n) i after zf fileHadPendingData =
     (let fileName = s3FileName (e_temp_dir env) index (go_itoa (int (i div 20))) in
      bind_eff (case zf of
                  None \<Rightarrow> bind_eff (io_call env (OpenFileCall fileName)) (\<lambda>_. eff_return (fileName, []))
                | Some z \<Rightarrow> eff_return z) (\<lambda>file.
      bind_eff (SearchPaginated (e_client env) (IndexName index) ''*'' 5000 after backup_sort)
      (\<lambda>(data, newAfter).
        if data \<noteq> [] then
          bind_eff (writeToBackupFile env file data) (\<lambda>file'.
            if (i + 1) mod 20 = 0 then
              bind_eff (upload env index file') (\<lambda>_.
                backup_loop env index n (i + 1) (Some newAfter) None False)
            else backup_loop env index n (i + 1) (Some newAfter) (Some file') True)
        else if fileHadPendingData then upload env index file
        else eff_return ())))"

definition uploadOlderStatsToS3 :: "ext_env \<Rightarrow> Index \<Rightarrow> unit ext" where
  "uploadOlderStatsToS3 env index = backup_loop env index (e_fuel env) 0 None None False"

section \<open>The rollover of one index\<close>

definition updateAlias :: "ext_env \<Rightarrow> Index \<Rightarrow> string \<Rightarrow> unit ext" where
  "updateAlias env index newIndexName =
     UpdateAliases (e_client env) (aliasName index) (IndexName index) newIndexName"

definition rollover :: "ext_env \<Rightarrow> Index \<Rightarrow> RolloverConfig \<Rightarrow> unit ext" where
  "rollover env index config =
     bind_eff (eff_result (newIndexNameForRollover index (aggWindow config))) (\<lambda>newIndexName.
     bind_eff (doRolloverAndValidate env index config newIndexName) (\<lambda>_.
     bind_eff (if s3BackupEnabled config then uploadOlderStatsToS3 env index else eff_return ()) (\<lambda>_.
     bind_eff (updateAlias env index newIndexName) (\<lambda>_.
       DeleteIndex (e_client env) (IndexName index)))))"

section \<open>What a rollover calls\<close>

lemma eff_result_calls [calls]: "calls_in P (eff_result r)"
  unfolding eff_result_def by (cases r) (auto intro: calls)

lemma ok_body_calls [calls]: "calls_in P (ok_body what reply)"
  unfolding ok_body_def by (auto split: ext_reply.split sum.split intro!: calls)

lemma io_call_calls [calls]: "P c \<Longrightarrow> calls_in P (io_call env c)"
  unfolding io_call_def by (intro calls) (auto split: ext_reply.split intro!: calls)

lemma findMinMaxTimestamp_calls [calls]:
  "(\<And>b. P (SearchCall (IndexName index) b)) \<Longrightarrow> calls_in P (findMinMaxTimestamp env index)"
  unfolding findMinMaxTimestamp_def MakeSearchCall_def
  by (intro calls) (auto split: ext_body.split intro!: calls)

lemma makeSearchCall_calls [calls]:
  "(\<And>b. P (SearchCall (IndexName index) b)) \<Longrightarrow> calls_in P (makeSearchCallAndParseResponse env index req)"
  unfolding makeSearchCallAndParseResponse_def MakeSearchCall_def
  by (intro calls) (auto split: ext_body.split intro!: calls)

lemma insertIntoNewIndex_calls [calls]:
  "(\<And>docs. P (BulkCall new docs)) \<Longrightarrow> calls_in P (insertIntoNewIndex env docs new)"
  unfolding insertIntoNewIndex_def by (auto intro!: calls)

text \<open>The calls that aggregate \<open>index\<close> into \<open>new\<close>: searches, and writes to \<open>new\<close> alone.\<close>

definition aggregation_call :: "bool \<Rightarrow> string \<Rightarrow> ext_call \<Rightarrow> bool" where
  "aggregation_call del new c \<longleftrightarrow>
     (case c of
        SearchCall _ _ \<Rightarrow> True
      | BulkCall x _ \<Rightarrow> x = new
      | RefreshCall x \<Rightarrow> x = new
      | DeleteCall x \<Rightarrow> x = new \<and> del
      | _ \<Rightarrow> False)"

lemma aggregation_call_simps [simp]:
  "aggregation_call del new (SearchCall i b)" "aggregation_call del new (BulkCall new docs)"
  "aggregation_call del new (RefreshCall new)" "aggregation_call del new (DeleteCall x) \<longleftrightarrow> x = new \<and> del"
  by (simp_all add: aggregation_call_def)

lemma rollover_pages_calls [calls]:
  "calls_in (aggregation_call del new) (rollover_pages env index config new tr n after)"
  by (induction n arbitrary: after) (auto intro!: calls)

lemma rollover_ranges_calls [calls]:
  "calls_in (aggregation_call del new) (rollover_ranges env index config new trs)"
  by (induction trs) (auto intro!: calls)

lemma paginate_agg_calls [calls]:
  "calls_in (aggregation_call del new) (paginate_agg env i query gb n after counts)"
proof (induction n arbitrary: after counts)
  case (Suc n)
  then show ?case
    by (auto simp: CompositePaginatedAggregateWithNAMissing_def split: option.split intro!: calls)
qed (simp add: calls)

lemma validate_ranges_calls [calls]:
  assumes "\<And>i q. calls_in (aggregation_call del new) (pg i q)"
  shows "calls_in (aggregation_call del new) (validate_ranges pg i new trs saw)"
  by (induction trs arbitrary: saw) (auto simp: Let_def intro!: calls assms)

lemma validateNewData_calls [calls]:
  "calls_in (aggregation_call del new) (validateNewData env index new lo hi dur skip)"
  unfolding validateNewData_def RefreshIndex_def paginateAgg4_def paginateAgg5_def
  by (auto split: option.split intro!: calls)

lemma doRolloverAndValidate_calls [calls]:
  "calls_in (aggregation_call (deleteExistingRolledOverIndex config) new) (doRolloverAndValidate env index config new)"
  unfolding doRolloverAndValidate_def DeleteIndex_def
  by (auto split: option.split intro!: calls)

definition backup_call :: "string \<Rightarrow> ext_call \<Rightarrow> bool" where
  "backup_call index c \<longleftrightarrow>
     (case c of
        SearchCall i _ \<Rightarrow> i = index
      | OpenFileCall _ \<Rightarrow> True
      | WriteCall _ _ \<Rightarrow> True
      | CloseCall _ \<Rightarrow> True
      | UploadCall _ _ _ \<Rightarrow> True
      | _ \<Rightarrow> False)"

lemma backup_call_simps [simp]:
  "backup_call index (SearchCall i b) \<longleftrightarrow> i = index" "backup_call index (OpenFileCall f)"
  "backup_call index (WriteCall f d)" "backup_call index (CloseCall f)" "backup_call index (UploadCall k f ds)"
  "\<not> backup_call index (DeleteCall x)"
  by (simp_all add: backup_call_def)

lemma writeToBackupFile_calls [calls]: "calls_in (backup_call i) (writeToBackupFile env zf docs)"
  by (induction docs arbitrary: zf) (auto intro!: calls)

lemma upload_calls [calls]: "calls_in (backup_call i) (upload env index zf)"
  unfolding upload_def Let_def by (auto intro!: calls)

lemma backup_loop_calls [calls]:
  "calls_in (backup_call (IndexName index)) (backup_loop env index n i after zf pending)"
proof (induction n arbitrary: i after zf pending)
  case (Suc n)
  then show ?case by (auto simp: Let_def split: option.split intro!: calls)
qed (simp add: calls)

lemma uploadOlderStatsToS3_calls [calls]:
  "calls_in (backup_call (IndexName index)) (uploadOlderStatsToS3 env index)"
  unfolding uploadOlderStatsToS3_def by (rule calls)

section \<open>A validated rollover\<close>

lemma distinct_add_counts:
  "add_counts gb aggs c = Some c' \<Longrightarrow> distinct (map fst c) \<Longrightarrow> distinct (map fst c')"
  by (induction gb aggs c arbitrary: c' rule: add_counts.induct)
    (auto simp: distinct_update split: option.splits json.splits)

lemma distinct_paginate_agg:
  "paginate_agg env i q gb n after c h = (Ok c', h') \<Longrightarrow> distinct (map fst c) \<Longrightarrow> distinct (map fst c')"
proof (induction n arbitrary: after c h)
  case (Suc n)
  then show ?case
    by (auto simp: bind_eff_Ok split: if_splits option.splits dest: distinct_add_counts)
qed simp

lemma counts_equal_map_of:
  assumes "distinct (map fst a)" and "distinct (map fst b)"
  shows "counts_equal a b \<longleftrightarrow> map_of a = map_of b"
proof
  assume "counts_equal a b"
  then have "set a \<subseteq> set b" "set b \<subseteq> set a"
    by (auto simp: counts_equal_def list_all_iff assms dest: map_of_SomeD)
  then have "set a = set b" by blast
  then show "map_of a = map_of b" using assms by (metis map_of_inject_set)
next
  assume "map_of a = map_of b"
  then have "map_of b k = Some v" if "(k, v) \<in> set a" for k v
    using map_of_is_SomeI [OF assms(1) that] by simp
  moreover have "map_of a k = Some v" if "(k, v) \<in> set b" for k v
    using map_of_is_SomeI [OF assms(2) that] \<open>map_of a = map_of b\<close> by simp
  ultimately show "counts_equal a b" unfolding counts_equal_def list_all_iff by blast
qed

text \<open>
  The comparison of one range: from some point on, the sums of the source and then those of the
  new index were read completely, and they are the same.
\<close>

definition sums_agree :: "ext_env \<Rightarrow> bool \<Rightarrow> string \<Rightarrow> string \<Rightarrow> timeRange \<Rightarrow> bool \<Rightarrow> bool" where
  "sums_agree env skipTenantId index new vr someSums \<longleftrightarrow>
     (\<exists>h1 h2 h3 older newer.
        (if skipTenantId then paginateAgg4 env else paginateAgg5 env) index (range_query vr) h1 = (Ok older, h2) \<and>
        (if skipTenantId then paginateAgg4 env else paginateAgg5 env) new (range_query vr) h2 = (Ok newer, h3) \<and>
        map_of older = map_of newer \<and> (someSums \<longleftrightarrow> older \<noteq> []))"

lemma paginate_distinct:
  "(if skip then paginateAgg4 env else paginateAgg5 env) i q h = (Ok c, h') \<Longrightarrow> distinct (map fst c)"
  by (auto simp: paginateAgg4_def paginateAgg5_def split: if_splits dest: distinct_paginate_agg)

lemma validate_ranges_agree:
  assumes "validate_ranges (if skip then paginateAgg4 env else paginateAgg5 env) index new rs saw h = (Ok saw', h')"
  shows "(\<forall>vr \<in> set rs. \<exists>b. sums_agree env skip index new vr b) \<and>
         (saw' \<longrightarrow> saw \<or> (\<exists>vr \<in> set rs. sums_agree env skip index new vr True))"
  using assms
proof (induction rs arbitrary: saw h)
  case (Cons vr rs)
  let ?pg = "if skip then paginateAgg4 env else paginateAgg5 env"
  obtain older h1 newer h2 where
    pg: "?pg index (range_query vr) h = (Ok older, h1)" "?pg new (range_query vr) h1 = (Ok newer, h2)"
    and ok: "older = [] \<and> newer = [] \<or> counts_equal older newer"
    and rest: "validate_ranges ?pg index new rs (saw \<or> older \<noteq> []) h2 = (Ok saw', h')"
    using Cons.prems by (auto simp: bind_eff_Ok Let_def split: if_splits)
  have "map_of older = map_of newer"
    using ok counts_equal_map_of [of older newer] paginate_distinct [OF pg(1)] paginate_distinct [OF pg(2)] by auto
  with pg have "sums_agree env skip index new vr (older \<noteq> [])"
    unfolding sums_agree_def by blast
  with Cons.IH [OF rest] show ?case by (cases "older = []") auto
qed simp

lemma validateNewData_agree:
  assumes "validateNewData env index new lo hi dur skip h = (Ok u, h')"
  obtains rs where "splitByTimeRanges lo hi dur = Some rs"
    and "\<forall>vr \<in> set rs. \<exists>b. sums_agree env skip (IndexName index) new vr b"
    and "lo > 0 \<longrightarrow> (\<exists>vr \<in> set rs. sums_agree env skip (IndexName index) new vr True)"
proof -
  from assms obtain rs saw h1 where rs: "splitByTimeRanges lo hi dur = Some rs"
    and v: "validate_ranges (if skip then paginateAgg4 env else paginateAgg5 env) (IndexName index) new rs False h1
              = (Ok saw, h')"
    and "lo > 0 \<longrightarrow> saw"
    unfolding validateNewData_def by (auto simp: bind_eff_Ok split: option.splits if_splits)
  with validate_ranges_agree [OF v] show thesis by (intro that [OF rs]) auto
qed

lemma doRolloverAndValidate_agree:
  assumes "doRolloverAndValidate env index config new h = (Ok u, h')"
  obtains lo hi hm where "findMinMaxTimestamp env index h = (Ok (lo, hi), hm)"
    and "\<not> skipValidation config \<longrightarrow>
      (\<exists>rs. splitByTimeRanges lo hi (validationRange config) = Some rs \<and>
            (\<forall>vr \<in> set rs. \<exists>b. sums_agree env (skipTenantIdValidation config) (IndexName index) new vr b) \<and>
            (lo > 0 \<longrightarrow> (\<exists>vr \<in> set rs. sums_agree env (skipTenantIdValidation config) (IndexName index) new vr True)))"
proof -
  from assms obtain p hm where "findMinMaxTimestamp env index h = (Ok p, hm)"
    and rest: "(case p of (minVal, maxVal) \<Rightarrow>
          case splitByTimeRanges minVal maxVal (aggQueryRange config) of
            None \<Rightarrow> eff_out_of_fuel
          | Some timeRanges \<Rightarrow>
              bind_eff (if deleteExistingRolledOverIndex config
                        then DeleteIndex (e_client env) new else eff_return ()) (\<lambda>_.
              bind_eff (rollover_ranges env index config new timeRanges) (\<lambda>_.
                if \<not> skipValidation config
                then validateNewData env index new minVal maxVal (validationRange config)
                       (skipTenantIdValidation config)
                else eff_return ()))) hm = (Ok u, h')"
    unfolding doRolloverAndValidate_def bind_eff_Ok
    by (cases "validateRolloverDurations config") (auto simp: bind_eff_Ok)
  obtain lo hi where p: "p = (lo, hi)" by fastforce
  have m: "findMinMaxTimestamp env index h = (Ok (lo, hi), hm)" using \<open>_ = (Ok p, hm)\<close> p by simp
  have v: "\<not> skipValidation config \<longrightarrow> (\<exists>hv. validateNewData env index new lo hi (validationRange config)
              (skipTenantIdValidation config) hv = (Ok u, h'))"
    using rest unfolding p by (auto simp: bind_eff_Ok split: option.splits)
  show thesis
  proof (rule that [OF m], rule impI)
    assume "\<not> skipValidation config"
    with v obtain hv where "validateNewData env index new lo hi (validationRange config)
      (skipTenantIdValidation config) hv = (Ok u, h')" by blast
    then show "\<exists>rs. splitByTimeRanges lo hi (validationRange config) = Some rs \<and>
            (\<forall>vr \<in> set rs. \<exists>b. sums_agree env (skipTenantIdValidation config) (IndexName index) new vr b) \<and>
            (lo > 0 \<longrightarrow> (\<exists>vr \<in> set rs. sums_agree env (skipTenantIdValidation config) (IndexName index) new vr True))"
      by (rule validateNewData_agree) blast
  qed
qed

text \<open>The alias move and the deletion come last, after everything before them succeeded.\<close>

lemma rollover_phases:
  assumes "rollover env index config h = (r, h')"
  obtains (deleted) new h1 h2 where
      "newIndexNameForRollover index (aggWindow config) = Inr new"
      "doRolloverAndValidate env index config new h = (Ok (), h1)"
      "if s3BackupEnabled config then uploadOlderStatsToS3 env index h1 = (Ok (), h2) else h2 = h1"
      "updateAlias env index new h2 = (Ok (), h2 @ [AliasCall [RemoveAlias (IndexName index) (aliasName index),
                                                               AddAlias new (aliasName index)]])"
      "h' = h2 @ [AliasCall [RemoveAlias (IndexName index) (aliasName index), AddAlias new (aliasName index)],
                  DeleteCall (IndexName index)]"
    | (kept) cs where "h' = h @ cs" and
      "list_all (\<lambda>c. \<forall>i. c = DeleteCall i \<longrightarrow> deleteExistingRolledOverIndex config \<and>
                   newIndexNameForRollover index (aggWindow config) = Inr i) cs"
proof (cases "newIndexNameForRollover index (aggWindow config)")
  case (Inl e)
  with assms show thesis by (intro kept [of "[]"]) (simp_all add: rollover_def bind_eff_def eff_result_def)
next
  case (Inr new)
  let ?del = "\<lambda>c. \<forall>i. c = DeleteCall i \<longrightarrow> deleteExistingRolledOverIndex config \<and>
                   newIndexNameForRollover index (aggWindow config) = Inr i"
  let ?move = "AliasCall [RemoveAlias (IndexName index) (aliasName index), AddAlias new (aliasName index)]"
  let ?backup = "if s3BackupEnabled config then uploadOlderStatsToS3 env index else eff_return ()"
  have c1: "calls_in ?del (doRolloverAndValidate env index config new)"
    by (rule calls_in_mono [OF doRolloverAndValidate_calls]) (auto simp: Inr)
  have c2: "calls_in ?del ?backup"
    by (auto intro!: calls intro: calls_in_mono [OF uploadOlderStatsToS3_calls])
  have up: "updateAlias env index new h2 = (r2, h3) \<Longrightarrow> h3 = h2 @ [?move]" for h2 r2 h3
    using status_call_history [of "e_client env" ?move h2] by (simp add: updateAlias_def UpdateAliases_def)
  have c3: "calls_in ?del (updateAlias env index new)"
    unfolding updateAlias_def UpdateAliases_def by (intro calls) simp
  obtain r1 h1 where d: "doRolloverAndValidate env index config new h = (r1, h1)" by fastforce
  obtain r2 h2 where b: "?backup h1 = (r2, h2)" by fastforce
  obtain r3 h3 where a: "updateAlias env index new h2 = (r3, h3)" by fastforce
  have run: "bind_eff (doRolloverAndValidate env index config new) (\<lambda>_. bind_eff ?backup (\<lambda>_.
      bind_eff (updateAlias env index new) (\<lambda>_. DeleteIndex (e_client env) (IndexName index)))) h = (r, h')"
    using assms Inr by (simp add: rollover_def bind_eff_def eff_result_def)
  show thesis
  proof (cases "r1 = Ok () \<and> r2 = Ok () \<and> r3 = Ok ()")
    case True
    with run d b a have "h' = snd (DeleteIndex (e_client env) (IndexName index) h3)"
      by (simp add: bind_eff_def)
    with status_call_history [of "e_client env" "DeleteCall (IndexName index)" h3] up [OF a]
    have "h' = h2 @ [?move, DeleteCall (IndexName index)]" by (simp add: DeleteIndex_def)
    then show thesis
      using deleted [OF Inr, of h1 h2] d b a up [OF a] True by (cases "s3BackupEnabled config") auto
  next
    case False
    let ?m = "bind_eff (doRolloverAndValidate env index config new) (\<lambda>_. bind_eff ?backup (\<lambda>_.
      updateAlias env index new))"
    have "calls_in ?del ?m" by (intro calls c1 c2 c3)
    moreover have "?m h = (fst (?m h), h')"
      using run d b a False by (auto simp: bind_eff_def split: outcome.splits if_splits)
    ultimately obtain cs where "h' = h @ cs" "list_all ?del cs" by (rule calls_inD)
    then show thesis by (rule kept)
  qed
qed

text \<open>C1: A rollover deletes its source index only as its last step.  When the calls of
  \<open>rollover\<close> on an index of the live statistics contain the deletion of that index, then every step
  before succeeded: the aggregation into the new index and its validation, the backup where it is
  enabled, and the move of the alias to the new index, which is the call just before the deletion.
  Unless validation is configured away, the sums of the source and of the new index had been read
  completely and were equal in every range of a partition of the source's time span, and for a
  source with data some range had sums.\<close>

theorem rollover_deletes_only_validated:
  assumes "go_has_prefix (IndexName index) ''db_statistics''"
    and "rollover env index config h = (r, h @ cs)" and "DeleteCall (IndexName index) \<in> set cs"
  shows "\<exists>new h1 h2 lo hi hm.
      newIndexNameForRollover index (aggWindow config) = Inr new
    \<and> doRolloverAndValidate env index config new h = (Ok (), h1)
    \<and> (if s3BackupEnabled config then uploadOlderStatsToS3 env index h1 = (Ok (), h2) else h2 = h1)
    \<and> updateAlias env index new h2 = (Ok (), h2 @ [AliasCall [RemoveAlias (IndexName index) (aliasName index),
                                                              AddAlias new (aliasName index)]])
    \<and> h @ cs = h2 @ [AliasCall [RemoveAlias (IndexName index) (aliasName index), AddAlias new (aliasName index)],
                     DeleteCall (IndexName index)]
    \<and> findMinMaxTimestamp env index h = (Ok (lo, hi), hm)
    \<and> (\<not> skipValidation config \<longrightarrow>
        (\<exists>rs. splitByTimeRanges lo hi (validationRange config) = Some rs \<and>
           (\<forall>vr \<in> set rs. \<exists>b. sums_agree env (skipTenantIdValidation config) (IndexName index) new vr b) \<and>
           (lo > 0 \<longrightarrow>
              (\<exists>vr \<in> set rs. sums_agree env (skipTenantIdValidation config) (IndexName index) new vr True))))"
  using assms(2)
proof (cases rule: rollover_phases)
  case (deleted new h1 h2)
  then obtain lo hi hm where "findMinMaxTimestamp env index h = (Ok (lo, hi), hm)"
    and "\<not> skipValidation config \<longrightarrow>
        (\<exists>rs. splitByTimeRanges lo hi (validationRange config) = Some rs \<and>
           (\<forall>vr \<in> set rs. \<exists>b. sums_agree env (skipTenantIdValidation config) (IndexName index) new vr b) \<and>
           (lo > 0 \<longrightarrow>
              (\<exists>vr \<in> set rs. sums_agree env (skipTenantIdValidation config) (IndexName index) new vr True)))"
    by (elim doRolloverAndValidate_agree)
  with deleted show ?thesis by (intro exI conjI) assumption+
next
  case (kept cs')
  then have "newIndexNameForRollover index (aggWindow config) = Inr (IndexName index)"
    using assms(3) by (auto simp: list_all_iff)
  from newIndexNameForRollover_prefix [OF this assms(1)] assms(1) show ?thesis
    by (auto simp: go_has_prefix_iff)
qed

section \<open>An example run\<close>

definition example_key :: Key where
  "example_key = \<lparr>KName = ''events'', KNamespace = ''ns'', SourceId = ''s1'', DestinationId = ''N/A'', RuleId = '''',
     FleetNodeId = ''f1'', OperatorId = ''op'', TargetNodeId = '''', RouteKey = ''onSuccess'',
     TimeHistogramBuckets = 1700000000000\<rparr>"

definition example_source :: EsSource where
  "example_source = \<lparr>AggKey = ''k'', EsName = ''events'', EsNamespace = ''ns'', WindowKey = ''w'',
     CounterValue = JNum 2, EsId = ''d1'', Tags = None, Timestamp = JNum 1700000000000\<rparr>"

definition example_client :: ext_client where
  "example_client h c =
     (case c of
        SearchCall i (MinMax _) \<Rightarrow>
          Reply 200 '''' '''' (Inr (MinMaxBody \<lparr>MinVal = 1700000000000, MaxVal = 1700000100000\<rparr>))
      | SearchCall i (RolloverAgg r) \<Rightarrow>
          Reply 200 '''' '''' (Inr (RolloverAggBody
            (if RollAfter r = None
             then \<lparr>AfterKey = Some example_key,
                   Buckets = [\<lparr>BKey = example_key, AllFields = [example_source], TotalCount = JNum 5\<rparr>]\<rparr>
             else \<lparr>AfterKey = None, Buckets = []\<rparr>)))
      | SearchCall i (CompositeAgg r) \<Rightarrow>
          Reply 200 '''' '''' (Inr (CompositeBody
            \<lparr>CompAfterKey = None,
             CompBuckets = [[(''key'', JObj (map (\<lambda>g. (fst g, JStr ''x'')) (CompSources r))),
                             (''total_count'', JObj [(''value'', JNum 5)])]]\<rparr>))
      | SearchCall i (Paginated r) \<Rightarrow>
          Reply 200 '''' '''' (Inr (SearchBody
            (if PagAfter r = None then [\<lparr>HitSource = [(''id'', JStr ''d1'')], HitSort = [JStr ''d1'']\<rparr>] else [])))
      | _ \<Rightarrow> Reply 200 '''' '''' (Inr NoBody))"

definition example_env :: ext_env where
  "example_env = \<lparr>e_client = example_client, e_hash = id, e_parse_float = (\<lambda>s. Inl s), e_temp_dir = ''/tmp'', e_fuel = 5\<rparr>"

definition example_config :: RolloverConfig where
  "example_config =
     \<lparr>weeksOlderThan = 2, specificIndex = '''', skipIndices = [], parallelism = 4, limit = 10, aggBatchSize = 500,
      aggQueryRange = 3 * Hour, validationRange = 24 * Hour, aggWindow = Minute, s3BackupEnabled = True,
      deleteExistingRolledOverIndex = False, skipValidation = False, skipTenantIdValidation = False,
      specificTenants = ''''\<rparr>"

definition example_index :: Index where
  "example_index = \<lparr>IndexName = ''db_statistics_acme_2023_46'', Tenant = ''acme'', Year = 2023, Week = 46, IxDay = 0,
     Schema = Schema_V1, Phase = Phase_P1\<rparr>"

lemma example_minmax: "findMinMaxTimestamp example_env ix h =
   (Ok (1700000000000, 1700000100000), h @ [SearchCall (IndexName ix) (MinMax \<lparr>MinField = ''tags.db_ts_win'', MaxField = ''tags.db_ts_win''\<rparr>)])"
  by (simp add: findMinMaxTimestamp_def MakeSearchCall_def bind_eff_def ok_body_def go_trunc_def example_env_def example_client_def)

lemma example_search: "makeSearchCallAndParseResponse example_env ix r h =
   (Ok (if RollAfter r = None
             then \<lparr>AfterKey = Some example_key,
                   Buckets = [\<lparr>BKey = example_key, AllFields = [example_source], TotalCount = JNum 5\<rparr>]\<rparr>
             else \<lparr>AfterKey = None, Buckets = []\<rparr>), h @ [SearchCall (IndexName ix) (RolloverAgg r)])"
  by (simp add: makeSearchCallAndParseResponse_def MakeSearchCall_def bind_eff_def ok_body_def example_env_def example_client_def)

lemma example_insert: "\<exists>h'. insertIntoNewIndex example_env docs new h = (Ok (), h')"
  by (simp add: insertIntoNewIndex_def PerformBulkRequest_def bulk_request_def IsError_def bind_eff_def example_env_def example_client_def)

lemma example_pages: "\<exists>h'. rollover_pages example_env ix config new tr (Suc (Suc n)) None h = (Ok (), h')"
proof -
  obtain docs where d: "rollover_sources example_env ix [\<lparr>BKey = example_key, AllFields = [example_source], TotalCount = JNum 5\<rparr>] = Inr docs"
    by (simp add: rollover_source_def parseCounter_def Let_def)
  obtain h1 where "insertIntoNewIndex example_env docs new (h @ [SearchCall (IndexName ix) (RolloverAgg 
     (buildRolloverAggRequest (tr_start tr) (tr_end tr) None (aggBatchSize config) (aggWindow config)))]) = (Ok (), h1)"
    using example_insert by blast
  then show ?thesis using d by (simp add: bind_eff_def example_search buildRolloverAggRequest_def eff_result_def del: rollover_sources.simps)
qed

lemma example_ranges: "\<exists>h'. rollover_ranges example_env ix example_config new trs h = (Ok (), h')"
proof (induction trs arbitrary: h)
  case (Cons tr trs)
  obtain h1 where "rollover_pages example_env ix example_config new tr (Suc (Suc 3)) None h = (Ok (), h1)" using example_pages by blast
  moreover have "e_fuel example_env = Suc (Suc 3)" by (simp add: example_env_def)
  ultimately show ?case using Cons [of h1] by (simp add: bind_eff_def)
qed simp

lemma example_agg: "paginateAgg5 example_env i q h = (Ok [([''x'',''x'',''x'',''x'',''x''], 5)], h @ [SearchCall (i @ ''*'') (CompositeAgg 
  \<lparr>CompQuery = q, CompSources = map (\<lambda>g. (g, if g = fieldOperatorId then sourceTermsMissingAsNA g else TermsField g)) groupBy5, CompAfter = None, CompSize = 100, CompAggs = [(''total_count'', ''sum'', ''counter.value'')]\<rparr>)])"
proof -
  obtain n where f: "e_fuel example_env = Suc n" by (simp add: example_env_def numeral_eq_Suc)
  show ?thesis unfolding paginateAgg5_def f
  by (simp add: CompositePaginatedAggregateWithNAMissing_def compositePaginatedAggregate_def MakeSearchCall_def bind_eff_def
    search_reply_body_def IsError_def total_count_agg_def groupBy5_def fieldEventSourceId_def fieldNameRaw_def fieldOperatorId_def aggKeyString_def json_get_def Let_def
    example_env_def example_client_def)
qed

lemma validate_ranges_const:
  assumes "\<And>i q h. \<exists>h'. pg i q h = (Ok c, h')" and "c \<noteq> []" and "counts_equal c c"
  shows "\<exists>h'. validate_ranges pg i new rs saw h = (Ok (saw \<or> rs \<noteq> []), h')"
proof (induction rs arbitrary: saw h)
  case (Cons vr rs)
  obtain h1 h2 where "pg i (range_query vr) h = (Ok c, h1)" "pg new (range_query vr) h1 = (Ok c, h2)"
    using assms(1) by meson
  moreover obtain h3 where "validate_ranges pg i new rs True h2 = (Ok True, h3)" using Cons [of True h2] by auto
  ultimately show ?case using assms(2,3) by (simp add: bind_eff_def Let_def)
qed simp

lemma example_backup: "\<exists>h'. uploadOlderStatsToS3 example_env example_index h = (Ok (), h')"
proof -
  obtain n where f: "e_fuel example_env = Suc (Suc n)" by (simp add: example_env_def numeral_eq_Suc)
  show ?thesis unfolding uploadOlderStatsToS3_def f
  by (simp add: SearchPaginated_def MakeSearchCall_def bind_eff_def search_reply_body_def IsError_def io_call_def upload_def Let_def backup_sort_def
    example_env_def example_client_def)
qed

lemma example_ts: "Millisecond \<le> dur \<Longrightarrow> \<exists>trs. splitByTimeRanges lo hi dur = Some trs \<and> trs \<noteq> []"
  by (metis append_is_Nil_conv extend_last_def not_Cons_self2 splitByTimeRanges_extends)

lemma example_status:
  assumes "\<And>i b. c \<noteq> SearchCall i b"
  shows "status_call (e_client example_env) c h = (Ok (), h @ [c])"
proof (cases c)
  case (SearchCall i b)
  with assms show ?thesis by blast
qed (simp_all add: status_call_Ok example_env_def example_client_def)

lemma example_do: "\<exists>h'. doRolloverAndValidate example_env ix example_config new h = (Ok (), h')"
proof -
  let ?lo = "1700000000000" and ?hi = "1700000100000"
  obtain trs where trs: "splitByTimeRanges ?lo ?hi (aggQueryRange example_config) = Some trs"
    using example_ts [of "aggQueryRange example_config"] by (auto simp: example_config_def)
  obtain vrs where vrs: "splitByTimeRanges ?lo ?hi (validationRange example_config) = Some vrs" "vrs \<noteq> []"
    using example_ts [of "validationRange example_config"] by (auto simp: example_config_def)
  obtain h1 where h1: "findMinMaxTimestamp example_env ix h = (Ok (?lo, ?hi), h1)" using example_minmax by blast
  obtain h2 where h2: "rollover_ranges example_env ix example_config new trs h1 = (Ok (), h2)" using example_ranges by blast
  obtain h4 where "validate_ranges (paginateAgg5 example_env) (IndexName ix) new vrs False (h2 @ [RefreshCall new]) = (Ok True, h4)"
    using validate_ranges_const [of "paginateAgg5 example_env" "[([''x'',''x'',''x'',''x'',''x''], 5)]" "IndexName ix" new vrs False]
      example_agg vrs(2) by (fastforce simp: counts_equal_def)
  then have "validateNewData example_env ix new ?lo ?hi (validationRange example_config) False h2 = (Ok (), h4)"
    using vrs by (simp add: validateNewData_def bind_eff_def RefreshIndex_def example_status)
  then show ?thesis
    using h1 h2 trs by (simp add: doRolloverAndValidate_def bind_eff_def validateRolloverDurations_def example_config_def)
qed

lemma example_run: "\<exists>h'. rollover example_env example_index example_config h = (Ok (), h')"
proof -
  obtain new where new: "newIndexNameForRollover example_index (aggWindow example_config) = Inr new"
    by (simp add: newIndexNameForRollover_def example_index_def)
  obtain h4 where d: "doRolloverAndValidate example_env example_index example_config new h = (Ok (), h4)"
    using example_do by blast
  obtain h5 where "uploadOlderStatsToS3 example_env example_index h4 = (Ok (), h5)" using example_backup by blast
  moreover have "s3BackupEnabled example_config" by (simp add: example_config_def)
  ultimately show ?thesis
    using new d
    by (simp add: rollover_def bind_eff_def eff_result_def updateAlias_def UpdateAliases_def DeleteIndex_def example_status)
qed

theorem rollover_deletes_only_validated_witness:
  "\<exists>new h2 cs. newIndexNameForRollover example_index (aggWindow example_config) = Inr new
     \<and> snd (rollover example_env example_index example_config []) = cs
     \<and> cs = h2 @ [AliasCall [RemoveAlias (IndexName example_index) (aliasName example_index),
                              AddAlias new (aliasName example_index)],
                  DeleteCall (IndexName example_index)]"
proof -
  obtain cs where run: "rollover example_env example_index example_config [] = (Ok (), [] @ cs)"
    using example_run [of "[]"] by auto
  have "DeleteCall (IndexName example_index) \<in> set cs"
    using run by (auto simp: rollover_def bind_eff_Ok DeleteIndex_def status_call_Ok)
  moreover have "go_has_prefix (IndexName example_index) ''db_statistics''" by (simp add: example_index_def)
  ultimately show ?thesis using rollover_deletes_only_validated [OF _ run] run by fastforce
qed

section \<open>The backup is complete\<close>

text \<open>The documents the pages of a search held, and those of the files whose upload succeeded.\<close>

definition served_docs :: "(ext_call \<times> ext_reply) list \<Rightarrow> json_map list" where
  "served_docs rs = concat (map (\<lambda>r. case r of
     (SearchCall _ (Paginated _), Reply _ _ _ (Inr (SearchBody hits))) \<Rightarrow> map HitSource hits | _ \<Rightarrow> []) rs)"

definition uploaded_docs :: "(ext_call \<times> ext_reply) list \<Rightarrow> json_map list" where
  "uploaded_docs rs = concat (map (\<lambda>r. case r of
     (UploadCall _ _ docs, Reply _ _ _ _) \<Rightarrow> docs | _ \<Rightarrow> []) rs)"

lemma docs_append [simp]:
  "served_docs (as @ bs) = served_docs as @ served_docs bs"
  "uploaded_docs (as @ bs) = uploaded_docs as @ uploaded_docs bs"
  by (simp_all add: served_docs_def uploaded_docs_def)

lemma io_call_Ok:
  "io_call env c h = (Ok u, h') \<longleftrightarrow> h' = h @ [c] \<and> (\<exists>a b d e. e_client env h c = Reply a b d e)"
  by (auto simp: io_call_def bind_eff_def split: ext_reply.splits)

lemma writeToBackupFile_Ok:
  "writeToBackupFile env zf docs h = (Ok z', h') \<Longrightarrow>
     h' = h @ map (WriteCall (fst zf)) docs \<and> z' = (fst zf, snd zf @ docs)"
proof (induction docs arbitrary: zf h)
  case (Cons doc docs)
  then have "writeToBackupFile env (fst zf, snd zf @ [doc]) docs (h @ [WriteCall (fst zf) doc]) = (Ok z', h')"
    by (auto simp: bind_eff_Ok io_call_Ok)
  from Cons.IH [OF this] show ?case by simp
qed simp

lemma writes_docs [simp]:
  "served_docs (replied client h (map (WriteCall f) docs)) = []"
  "uploaded_docs (replied client h (map (WriteCall f) docs)) = []"
  by (induction docs arbitrary: h) (simp_all add: served_docs_def uploaded_docs_def)

lemma upload_Ok:
  assumes "upload env index zf h = (Ok u, h')"
  obtains cs where "h' = h @ cs" and "served_docs (replied (e_client env) h cs) = []"
    and "uploaded_docs (replied (e_client env) h cs) = snd zf"
proof -
  from assms obtain key where "h' = h @ [CloseCall (fst zf), CloseCall (fst zf), UploadCall key (fst zf) (snd zf)]"
    and "\<exists>a b d e. e_client env (h @ [CloseCall (fst zf), CloseCall (fst zf)]) (UploadCall key (fst zf) (snd zf))
           = Reply a b d e"
    by (auto simp: upload_def Let_def bind_eff_Ok io_call_Ok)
  then show thesis by (intro that) (auto simp: served_docs_def uploaded_docs_def)
qed

lemma SearchPaginated_Ok:
  assumes "SearchPaginated client index q sz after srt h = (Ok (data, newAfter), h')"
  obtains c where "h' = h @ [c]" and "served_docs [(c, client h c)] = data" and "uploaded_docs [(c, client h c)] = []"
  using assms
  by (auto simp: SearchPaginated_def MakeSearchCall_def Let_def bind_eff_Ok search_reply_body_def
      served_docs_def uploaded_docs_def split: ext_reply.splits if_splits sum.splits ext_body.splits)

lemma backup_loop_complete:
  assumes "backup_loop env index n i after zf pending h = (Ok u, h')"
    and "zf = None \<longrightarrow> \<not> pending" and "\<forall>z. zf = Some z \<and> \<not> pending \<longrightarrow> snd z = []"
  shows "\<exists>cs. h' = h @ cs \<and> uploaded_docs (replied (e_client env) h cs)
           = (case zf of None \<Rightarrow> [] | Some z \<Rightarrow> snd z) @ served_docs (replied (e_client env) h cs)"
  using assms
proof (induction n arbitrary: i after zf pending h)
  case (Suc n)
  let ?fl = "s3FileName (e_temp_dir env) index (go_itoa (int (i div 20)))"
  let ?docs = "case zf of None \<Rightarrow> [] | Some z \<Rightarrow> snd z"
  let ?open = "case zf of None \<Rightarrow> bind_eff (io_call env (OpenFileCall ?fl)) (\<lambda>_. eff_return (?fl, []))
                | Some z \<Rightarrow> eff_return z"
  let ?next = "\<lambda>fl data newAfter. if data \<noteq> [] then
          bind_eff (writeToBackupFile env fl data) (\<lambda>file'.
            if (i + 1) mod 20 = 0 then
              bind_eff (upload env index file') (\<lambda>_. backup_loop env index n (i + 1) (Some newAfter) None False)
            else backup_loop env index n (i + 1) (Some newAfter) (Some file') True)
        else if pending then upload env index fl
        else eff_return ()"
  from Suc.prems(1) obtain fl h1 p h2 where open_file: "?open h = (Ok fl, h1)"
    and pg: "SearchPaginated (e_client env) (IndexName index) ''*'' 5000 after backup_sort h1 = (Ok p, h2)"
    and nxt: "(case p of (data, newAfter) \<Rightarrow> ?next fl data newAfter) h2 = (Ok u, h')"
    unfolding backup_loop.simps Let_def bind_eff_Ok by blast
  obtain data newAfter where p: "p = (data, newAfter)" by fastforce
  have page: "SearchPaginated (e_client env) (IndexName index) ''*'' 5000 after backup_sort h1 = (Ok (data, newAfter), h2)"
    and rest: "?next fl data newAfter h2 = (Ok u, h')" using pg nxt p by simp_all
  obtain os where h1: "h1 = h @ os" and os: "served_docs (replied (e_client env) h os) = []"
      "uploaded_docs (replied (e_client env) h os) = []" and fl: "snd fl = ?docs"
    using open_file
    by (cases zf) (auto simp: bind_eff_Ok io_call_Ok served_docs_def uploaded_docs_def)
  obtain c where h2: "h2 = h1 @ [c]" and c: "served_docs [(c, e_client env h1 c)] = data"
      "uploaded_docs [(c, e_client env h1 c)] = []"
    using page by (rule SearchPaginated_Ok)
  have fin: ?case if "h' = h2 @ cs" and "uploaded_docs (replied (e_client env) h2 cs)
      = ?docs @ data @ served_docs (replied (e_client env) h2 cs)" for cs
    using that h1 h2 os c docs_append [of "[(c, e_client env h1 c)]" "replied (e_client env) h2 cs"]
    by (intro exI [of _ "os @ [c] @ cs"]) (simp add: replied_append)
  show ?case
  proof (cases "data = []")
    case True
    show ?thesis
    proof (cases pending)
      case True
      with rest \<open>data = []\<close> have "upload env index fl h2 = (Ok u, h')" by simp
      then show ?thesis by (rule upload_Ok) (use fin \<open>data = []\<close> fl in auto)
    next
      case False
      with Suc.prems(2,3) have "?docs = []" by (auto split: option.splits)
      with rest True False fin [of "[]"] show ?thesis by (simp add: served_docs_def uploaded_docs_def)
    qed
  next
    case False
    with rest obtain fl' h3 where w: "writeToBackupFile env fl data h2 = (Ok fl', h3)"
      and rest': "(if (i + 1) mod 20 = 0 then
              bind_eff (upload env index fl') (\<lambda>_. backup_loop env index n (i + 1) (Some newAfter) None False)
            else backup_loop env index n (i + 1) (Some newAfter) (Some fl') True) h3 = (Ok u, h')"
      by (auto simp: bind_eff_Ok)
    note w' = writeToBackupFile_Ok [OF w]
    show ?thesis
    proof (cases "(i + 1) mod 20 = 0")
      case True
      with rest' obtain v h4 where up: "upload env index fl' h3 = (Ok v, h4)"
        and loop: "backup_loop env index n (i + 1) (Some newAfter) None False h4 = (Ok u, h')"
        by (auto simp: bind_eff_Ok)
      from up obtain us where us: "h4 = h3 @ us" "served_docs (replied (e_client env) h3 us) = []"
        "uploaded_docs (replied (e_client env) h3 us) = snd fl'" by (rule upload_Ok)
      from Suc.IH [OF loop] obtain cs where "h' = h4 @ cs" "uploaded_docs (replied (e_client env) h4 cs)
        = served_docs (replied (e_client env) h4 cs)" by auto
      then show ?thesis
        using fin [of "map (WriteCall (fst fl)) data @ us @ cs"] us w' fl by (simp add: replied_append)
    next
      case False
      with rest' have loop: "backup_loop env index n (i + 1) (Some newAfter) (Some fl') True h3 = (Ok u, h')" by simp
      from Suc.IH [OF loop] obtain cs where "h' = h3 @ cs" "uploaded_docs (replied (e_client env) h3 cs)
        = snd fl' @ served_docs (replied (e_client env) h3 cs)" by auto
      then show ?thesis
        using fin [of "map (WriteCall (fst fl)) data @ cs"] w' fl by (simp add: replied_append)
    qed
  qed
qed simp



section \<open>A rollover returns\<close>

lemma returns_call [returning]: "returns (ext_call client c)"
  by (simp add: returns_def)

lemma returns_wrappers [returning]:
  "returns (ok_body what reply)" "returns (search_reply_body reply)"
  "returns (status_call client c)" "returns (io_call env c)"
  unfolding ok_body_def search_reply_body_def status_call_def io_call_def
  by (auto split: sum.split ext_reply.split intro!: returning)

lemma returns_searches [returning]:
  "returns (findMinMaxTimestamp env index)" "returns (makeSearchCallAndParseResponse env index req)"
  "returns (SearchPaginated client i q sz after srt)"
  "returns (compositePaginatedAggregate client sz i q gb na aggs cafter)"
  unfolding findMinMaxTimestamp_def makeSearchCallAndParseResponse_def SearchPaginated_def
    compositePaginatedAggregate_def MakeSearchCall_def Let_def
  by (auto split: ext_body.split option.split intro!: returning)

lemma returns_writes [returning]:
  "returns (insertIntoNewIndex env docs new)" "returns (upload env index zf)"
  unfolding insertIntoNewIndex_def PerformBulkRequest_def bulk_request_def upload_def Let_def
  by (auto split: ext_reply.split sum.split ext_body.split intro!: returning)

lemma returns_writeToBackupFile [returning]: "returns (writeToBackupFile env zf docs)"
  by (induction docs arbitrary: zf) (auto intro!: returning)

text \<open>
  The service runs out of pages: every page that is not empty leaves fewer pages after it, and
  there are never as many left as the fuel.
\<close>

definition buckets_end :: "ext_env \<Rightarrow> Index \<Rightarrow> (RolloverAggRequest \<Rightarrow> nat) \<Rightarrow> bool" where
  "buckets_end env index left \<longleftrightarrow>
     (\<forall>req. left req < e_fuel env) \<and>
     (\<forall>req h resp h'. makeSearchCallAndParseResponse env index req h = (Ok resp, h') \<and> Buckets resp \<noteq> []
        \<longrightarrow> left (req\<lparr>RollAfter := AfterKey resp\<rparr>) < left req)"

definition sums_end :: "ext_env \<Rightarrow> (string \<Rightarrow> string \<Rightarrow> json_map option \<Rightarrow> nat) \<Rightarrow> bool" where
  "sums_end env left \<longleftrightarrow>
     (\<forall>i q after. left i q after < e_fuel env) \<and>
     (\<forall>i q gb after h aggs newAfter h'.
        CompositePaginatedAggregateWithNAMissing (e_client env) 100 i q gb [fieldOperatorId] total_count_agg after h
          = (Ok (aggs, Some newAfter), h') \<and> aggs \<noteq> []
        \<longrightarrow> left i q (Some newAfter) < left i q after)"

definition documents_end :: "ext_env \<Rightarrow> Index \<Rightarrow> (json list option \<Rightarrow> nat) \<Rightarrow> bool" where
  "documents_end env index left \<longleftrightarrow>
     (\<forall>after. left after < e_fuel env) \<and>
     (\<forall>after h data newAfter h'.
        SearchPaginated (e_client env) (IndexName index) ''*'' 5000 after backup_sort h = (Ok (data, newAfter), h')
          \<and> data \<noteq> [] \<longrightarrow> left (Some newAfter) < left after)"

lemma rollover_pages_return:
  assumes "buckets_end env index left"
    and "left (buildRolloverAggRequest (tr_start tr) (tr_end tr) after (aggBatchSize config) (aggWindow config)) < n"
  shows "returns (rollover_pages env index config new tr n after)"
  using assms(2)
proof (induction n arbitrary: after)
  case (Suc n)
  let ?req = "\<lambda>after. buildRolloverAggRequest (tr_start tr) (tr_end tr) after (aggBatchSize config) (aggWindow config)"
  show ?case
    unfolding rollover_pages.simps
  proof (rule returns_bindI)
    fix h resp h1 assume r: "makeSearchCallAndParseResponse env index (?req after) h = (Ok resp, h1)"
    have "returns (rollover_pages env index config new tr n (AfterKey resp))" if "Buckets resp \<noteq> []"
    proof (rule Suc.IH)
      from r that assms(1) have "left ((?req after)\<lparr>RollAfter := AfterKey resp\<rparr>) < left (?req after)"
        unfolding buckets_end_def by blast
      then show "left (?req (AfterKey resp)) < n" using Suc.prems by (simp add: buildRolloverAggRequest_def)
    qed
    then show "returns (if Buckets resp = [] then eff_return ()
      else bind_eff (eff_result (rollover_sources env index (Buckets resp))) (\<lambda>sources.
        bind_eff (insertIntoNewIndex env sources new) (\<lambda>_.
          rollover_pages env index config new tr n (AfterKey resp))))" by (auto intro!: returning)
  qed (rule returning)
qed simp

lemma paginate_agg_return:
  assumes "sums_end env left" and "left i q after < n"
  shows "returns (paginate_agg env i q gb n after counts)"
  using assms(2)
proof (induction n arbitrary: after counts)
  case (Suc n)
  let ?get = "CompositePaginatedAggregateWithNAMissing (e_client env) 100 i q gb [fieldOperatorId] total_count_agg after"
  show ?case
    unfolding paginate_agg.simps
  proof (rule returns_bindI, goal_cases)
    case 1
    show ?case unfolding CompositePaginatedAggregateWithNAMissing_def by (rule returning)
  next
    case (2 h p h1)
    have "returns (paginate_agg env i q gb n (snd p) c)" if "fst p \<noteq> []" "snd p \<noteq> None" for c
    proof (rule Suc.IH)
      obtain a where "snd p = Some a" using \<open>snd p \<noteq> None\<close> by blast
      with assms(1) 2 that(1) have "left i q (snd p) < left i q after"
        unfolding sums_end_def by (metis prod.collapse)
      with Suc.prems show "left i q (snd p) < n" by simp
    qed
    then show ?case by (auto split: prod.splits option.splits intro!: returning)
  qed
qed simp

lemma backup_loop_return:
  assumes "documents_end env index left" and "left after < n"
  shows "returns (backup_loop env index n i after zf pending)"
  using assms(2)
proof (induction n arbitrary: i after zf pending)
  case (Suc n)
  show ?case
    unfolding backup_loop.simps Let_def
  proof (intro returns_bindI, goal_cases)
    case 1
    show ?case by (auto split: option.split intro!: returning)
  next
    case (3 h fl h1 h' p h2)
    have "returns (backup_loop env index n j (Some (snd p)) z b)" if "fst p \<noteq> []" for j z b
    proof (rule Suc.IH)
      from assms(1) 3(2) that have "left (Some (snd p)) < left after" unfolding documents_end_def by (metis prod.collapse)
      with Suc.prems show "left (Some (snd p)) < n" by simp
    qed
    then show ?case by (auto split: prod.splits intro!: returning)
  qed (rule returning)
qed simp

lemma rollover_ranges_return:
  "buckets_end env index left \<Longrightarrow> returns (rollover_ranges env index config new trs)"
  by (induction trs) (auto simp: buckets_end_def intro!: returning rollover_pages_return [of env index left])

lemma validate_ranges_return:
  "(\<And>i q. returns (pg i q)) \<Longrightarrow> returns (validate_ranges pg index new trs saw)"
  by (induction trs arbitrary: saw) (auto simp: Let_def intro!: returning)

lemma paginateAgg_return:
  assumes "sums_end env left"
  shows "returns (paginateAgg4 env i q)" and "returns (paginateAgg5 env i q)"
  using assms by (auto simp: paginateAgg4_def paginateAgg5_def sums_end_def intro!: paginate_agg_return [of env left])

lemma splitByTimeRanges_positive: "0 < dur \<Longrightarrow> \<exists>rs. splitByTimeRanges lo hi dur = Some rs"
  by (simp add: splitByTimeRanges_def Let_def)

lemma doRolloverAndValidate_return:
  assumes "buckets_end env index b" and "sums_end env s"
  shows "returns (doRolloverAndValidate env index config new)"
proof (cases "validateRolloverDurations config")
  case None
  then have pos: "0 < aggQueryRange config" "0 < validationRange config"
    by (auto simp: validateRolloverDurations_def split: if_splits)
  have "returns (validateNewData env index new lo hi (validationRange config) skip)" for lo hi skip
    using splitByTimeRanges_positive [OF pos(2), of lo hi] assms(2)
    unfolding validateNewData_def RefreshIndex_def
    by (auto intro!: returning validate_ranges_return paginateAgg_return)
  moreover have "returns (rollover_ranges env index config new trs)" for trs
    using assms(1) by (rule rollover_ranges_return)
  moreover have "splitByTimeRanges lo hi (aggQueryRange config) \<noteq> None" for lo hi
    using splitByTimeRanges_positive [OF pos(1), of lo hi] by auto
  ultimately show ?thesis
    using None unfolding doRolloverAndValidate_def DeleteIndex_def
    by (auto split: option.splits intro!: returning) (metis option.distinct(1))+
qed (simp add: doRolloverAndValidate_def returning)

text \<open>A rollover returns, with a result or an error: when the service runs out of pages before
  the fuel does, every paging loop of aggregation, validation and backup ends, whatever else the
  service answers.\<close>

theorem rollover_returns:
  assumes "buckets_end env index b" and "sums_end env s" and "documents_end env index d"
  shows "fst (rollover env index config h) \<noteq> OutOfFuel"
proof -
  have "returns (uploadOlderStatsToS3 env index)"
    unfolding uploadOlderStatsToS3_def
    using backup_loop_return [OF assms(3)] assms(3) by (simp add: documents_end_def)
  then have "returns (rollover env index config)"
    unfolding rollover_def updateAlias_def UpdateAliases_def DeleteIndex_def
    by (auto intro!: returning doRolloverAndValidate_return [OF assms(1,2)])
  then show ?thesis by (simp add: returns_def)
qed

lemma example_pages_end:
  "buckets_end example_env index (\<lambda>req. if RollAfter req = None then 1 else 0)"
  "sums_end example_env (\<lambda>_ _ _. 0)"
  "documents_end example_env index (\<lambda>after. if after = None then 1 else 0)"
proof -
  show "buckets_end example_env index (\<lambda>req. if RollAfter req = None then 1 else 0)"
    unfolding buckets_end_def example_search by (auto simp: example_env_def)
  show "sums_end example_env (\<lambda>_ _ _. 0)"
    unfolding sums_end_def CompositePaginatedAggregateWithNAMissing_def compositePaginatedAggregate_def
      MakeSearchCall_def Let_def bind_eff_def
    by (auto simp: example_env_def example_client_def search_reply_body_def IsError_def split: option.splits)
  show "documents_end example_env index (\<lambda>after. if after = None then 1 else 0)"
    unfolding documents_end_def SearchPaginated_def MakeSearchCall_def Let_def bind_eff_def
    by (auto simp: example_env_def example_client_def search_reply_body_def IsError_def)
qed

theorem rollover_returns_witness:
  "fst (rollover example_env example_index example_config []) \<noteq> OutOfFuel"
  by (rule rollover_returns [OF example_pages_end])

end
