(* ===== verification/Stats_Lifecycle.thy ===== *)
theory Stats_Lifecycle
  imports Stats_Run
begin

text \<open>
  The jobs over statistics indices: the parallel rollover and the weekly job of
  \<open>internal/stats/rollover.go\<close>, and the migrations of \<open>internal/stats/lifecycle.go\<close> through the
  phases p1, p2, p3 and p4.
\<close>

section \<open>Rolling over several indices in parallel\<close>

text \<open>
  Every index has its own goroutine.  What the outside answers to one goroutine depends on what
  the others do; \<open>envs j\<close> is the outside as goroutine \<open>j\<close> sees it, and no relation between the
  \<open>envs\<close> is assumed, so every interleaving is covered.  \<open>order\<close> is the order in which the goroutines
  append their errors.
\<close>

definition rollover_outcomes ::
  "(nat \<Rightarrow> ext_env) \<Rightarrow> RolloverConfig \<Rightarrow> Index list \<Rightarrow> (Index \<times> unit outcome) list" where
  "rollover_outcomes envs config indices =
     map (\<lambda>(j, ix). (ix, fst (rollover (envs j) ix config []))) (enumerate 0 indices)"

definition rollover_errors :: "(Index \<times> unit outcome) list \<Rightarrow> JobError list" where
  "rollover_errors outs =
     concat (map (\<lambda>(ix, r). case r of
        Err e \<Rightarrow> [\<lparr>Message = ''error while rolling over index '' @ IndexName ix @ '': '' @ e\<rparr>]
      | _ \<Rightarrow> []) outs)"

definition runRolloverIndexToIndex ::
  "(nat \<Rightarrow> ext_env) \<Rightarrow> (JobError list \<Rightarrow> JobError list) \<Rightarrow> RolloverConfig \<Rightarrow> Index list \<Rightarrow> JobError list outcome" where
  "runRolloverIndexToIndex envs order config indicesToRollover =
     (let outs = rollover_outcomes envs config indicesToRollover in
      if parallelism config < 0 then Panicked
      else if parallelism config = 0 \<and> indicesToRollover \<noteq> [] then OutOfFuel
      else if Panicked \<in> snd ` set outs then Panicked
      else if OutOfFuel \<in> snd ` set outs then OutOfFuel
      else Ok (order (rollover_errors outs)))"

definition RolloverOlderStats ::
  "(string \<Rightarrow> string) \<Rightarrow> ext_client \<Rightarrow> (nat \<Rightarrow> ext_env) \<Rightarrow> ((Index \<Rightarrow> int) \<Rightarrow> Index list \<Rightarrow> Index list)
     \<Rightarrow> (JobError list \<Rightarrow> JobError list) \<Rightarrow> go_time \<Rightarrow> JobResult outcome" where
  "RolloverOlderStats osenv client envs srt order now =
     (case parseConfig osenv of
        Inl e \<Rightarrow> Ok (NewJobResultFromErrors [\<lparr>Message = ''error while parsing config: '' @ e\<rparr>])
      | Inr config \<Rightarrow>
          (case (if specificIndex config = '''' then fst (CatIndices client [])
                 else Ok (go_split (CHR '','') (specificIndex config))) of
             Err e \<Rightarrow> Ok (NewJobResultFromErrors [\<lparr>Message = ''error while fetching indices: '' @ e\<rparr>])
           | Panicked \<Rightarrow> Panicked
           | OutOfFuel \<Rightarrow> OutOfFuel
           | Ok indexNames \<Rightarrow>
               (case filterStatsValidIndices srt now indexNames (weeksOlderThan config) (limit config)
                       (skipIndices config) of
                  None \<Rightarrow> Panicked
                | Some indicesToRollover \<Rightarrow>
                    bind_outcome (runRolloverIndexToIndex envs order config indicesToRollover)
                      (\<lambda>errors. Ok (if errors = [] then NewJobResultSuccess
                                     else NewJobResultFromErrors errors)))))"

section \<open>Selecting indices of phase p1\<close>

definition shouldMigrateP1ToP2 :: "go_time \<Rightarrow> Index \<Rightarrow> int \<Rightarrow> bool" where
  "shouldMigrateP1ToP2 now index dayDiff \<longleftrightarrow>
     (let (thisYear, thisDay) = getYearAndDay now in
      if Phase index \<noteq> Phase_P1 then False
      else if Schema index \<noteq> Schema_V2 \<and> Schema index \<noteq> Schema_V3_temp then False
      else isDayDifferenceMoreThan dayDiff thisYear thisDay (Year index) (IxDay index))"

definition filterStatsIndicesForP1Migration ::
  "(string \<Rightarrow> string) \<Rightarrow> ((Index \<Rightarrow> int) \<Rightarrow> Index list \<Rightarrow> Index list) \<Rightarrow> go_time \<Rightarrow> string list \<Rightarrow> Index list" where
  "filterStatsIndicesForP1Migration osenv srt now indexNames =
     (let dayDiffConfig = GetEnvInt osenv ''ROLLOVER_P1_P2_DAY_DIFFERENCE'' 3 in
      srt (\<lambda>ix. yearDayNumber (Year ix) (IxDay ix))
        (concat (map (\<lambda>index.
          if go_has_prefix index ''db_statistics_'' then
            (case parseIndexName index of
               None \<Rightarrow> []
             | Some indexObj \<Rightarrow> if shouldMigrateP1ToP2 now indexObj dayDiffConfig then [indexObj] else [])
          else []) indexNames)))"

section \<open>Merging several indices into one\<close>

text \<open>The indices are rolled over one by one until the first error.\<close>

fun merge_indices ::
  "ext_env \<Rightarrow> RolloverConfig \<Rightarrow> string \<Rightarrow> Index list \<Rightarrow> (Index list \<times> go_error option) ext" where
  "merge_indices env config target [] = eff_return ([], None)"
| "merge_indices env config target (ix # ixs) =
     bind_eff (try_eff (doRolloverAndValidate env ix config target)) (\<lambda>r.
       case r of
         Inl e \<Rightarrow> eff_return ([], Some e)
       | Inr _ \<Rightarrow> bind_eff (merge_indices env config target ixs) (\<lambda>(success, err).
                    eff_return (ix # success, err)))"

fun delete_indices :: "ext_env \<Rightarrow> Index list \<Rightarrow> (Index \<times> go_error) option ext" where
  "delete_indices env [] = eff_return None"
| "delete_indices env (ix # ixs) =
     bind_eff (try_eff (DeleteIndex (e_client env) (IndexName ix))) (\<lambda>r.
       case r of
         Inl e \<Rightarrow> eff_return (Some (ix, e))
       | Inr _ \<Rightarrow> delete_indices env ixs)"

record merge_messages =
  alias_message :: "go_error \<Rightarrow> string"
  delete_message :: "Index \<Rightarrow> go_error \<Rightarrow> string"
  rollover_message :: "go_error \<Rightarrow> string"

text \<open>
  The body shared by the merges into p3 and p4: the flag says that the alias update or a deletion
  failed, after which the caller does nothing more with this group.
\<close>

definition merge_group ::
  "ext_env \<Rightarrow> RolloverConfig \<Rightarrow> merge_messages \<Rightarrow> string \<Rightarrow> Index list \<Rightarrow> (bool \<times> JobError list) ext" where
  "merge_group env config msgs target indices =
     bind_eff (merge_indices env config target indices) (\<lambda>(successIndices, rolloverError).
       let rolloverErrors = (case rolloverError of None \<Rightarrow> [] | Some e \<Rightarrow> [\<lparr>Message = rollover_message msgs e\<rparr>]) in
       if successIndices \<noteq> [] then
         bind_eff (try_eff (UpdateMultipleAliases (e_client env) (aliasName (hd successIndices))
                              (map IndexName successIndices) target)) (\<lambda>r.
           case r of
             Inl e \<Rightarrow> eff_return (True, [\<lparr>Message = alias_message msgs e\<rparr>])
           | Inr _ \<Rightarrow>
               bind_eff (delete_indices env successIndices) (\<lambda>failed.
                 case failed of
                   Some (ix, e) \<Rightarrow> eff_return (True, [\<lparr>Message = delete_message msgs ix e\<rparr>])
                 | None \<Rightarrow> eff_return (False, rolloverErrors)))
       else eff_return (False, rolloverErrors))"

definition p3_index_name :: "string \<Rightarrow> int \<Rightarrow> int \<Rightarrow> string" where
  "p3_index_name tenantId year week =
     ''rolled_over_1d_db_statistics_v2_p3_'' @ tenantId @ ''_y'' @ go_itoa year @ ''_w'' @ go_itoa week"

definition mergeP2IndicesIntoP3 ::
  "ext_env \<Rightarrow> RolloverConfig \<Rightarrow> string \<Rightarrow> Index list \<Rightarrow> int \<Rightarrow> int \<Rightarrow> JobResult ext" where
  "mergeP2IndicesIntoP3 env config tenantId indicesToRollOver year week =
     (let msgs = \<lparr>alias_message = (\<lambda>e. ''error updating aliases: '' @ e),
                  delete_message = (\<lambda>ix e. ''error deleting index '' @ IndexName ix @ '': '' @ e),
                  rollover_message = (\<lambda>e. ''rollover error: '' @ e)\<rparr> in
      bind_eff (merge_group env config msgs (p3_index_name tenantId year week) indicesToRollOver)
        (\<lambda>(_, jobErrors). eff_return (NewJobResultFromErrors jobErrors)))"

section \<open>Merging p2 indices of a week\<close>

definition week_id :: "Index \<Rightarrow> int" where
  "week_id index = (let (year, week) = yearWeekFromYearDay (Year index) (IxDay index) in yearWeekNumber year week)"

text \<open>The map from tenant and week to indices.\<close>

type_synonym week_groups = "(string \<times> (int \<times> Index list) list) list"

definition put_week :: "Index \<Rightarrow> week_groups \<Rightarrow> week_groups" where
  "put_week index m =
     (let byWeek = (case map_of m (Tenant index) of None \<Rightarrow> [] | Some byWeek \<Rightarrow> byWeek) in
      AList.update (Tenant index) (group_append (week_id index) index byWeek) m)"

definition p2_rolled_over :: "string list \<Rightarrow> Index list" where
  "p2_rolled_over allIndices =
     concat (map (\<lambda>indexName.
       if go_has_prefix indexName ''rolled_over'' then
         (case parseRolledOverV2P2IndexName indexName of None \<Rightarrow> [] | Some index \<Rightarrow> [index])
       else []) allIndices)"

definition p2_non_rolled_over :: "string list \<Rightarrow> Index list" where
  "p2_non_rolled_over allIndices =
     concat (map (\<lambda>indexName.
       if \<not> go_has_prefix indexName ''rolled_over'' \<and> go_has_prefix indexName ''db_statistics'' then
         (case parseIndexName indexName of
            None \<Rightarrow> []
          | Some index \<Rightarrow> if Schema index = Schema_V2 \<and> Phase index = Phase_P1 then [index] else [])
       else []) allIndices)"

definition week_members :: "week_groups \<Rightarrow> string \<times> int \<Rightarrow> Index list" where
  "week_members m k = (case map_of m (fst k) of None \<Rightarrow> [] | Some byWeek \<Rightarrow> group_members byWeek (snd k))"

text \<open>
  The groups that are merged, in the order in which the two maps are ranged over
  (\<open>orderT\<close> for the tenants, \<open>orderW\<close> for the weeks of a tenant).
\<close>

definition p2_merge_groups ::
  "(week_groups \<Rightarrow> week_groups) \<Rightarrow> ((int \<times> Index list) list \<Rightarrow> (int \<times> Index list) list)
     \<Rightarrow> go_time \<Rightarrow> int \<Rightarrow> string list \<Rightarrow> (string \<times> int \<times> Index list) list" where
  "p2_merge_groups orderT orderW now weekDiff allIndices =
     (let rolled = fold put_week (p2_rolled_over allIndices) [];
          nonRolled = fold put_week (p2_non_rolled_over allIndices) [];
          (currentYear, currentDay) = getYearAndDay now;
          (thisYear, thisWeek) = yearWeekFromYearDay currentYear currentDay in
      concat (map (\<lambda>(tenant, byWeek).
        concat (map (\<lambda>(weekId, indices).
          let (indexYear, indexWeek) = splitYearWeekNumber weekId in
          if isWeekDifferenceMoreThan weekDiff thisYear thisWeek indexYear indexWeek
             \<and> week_members nonRolled (tenant, weekId) = [] \<and> indices \<noteq> []
          then [(tenant, weekId, indices)] else []) (orderW byWeek))) (orderT rolled)))"

fun merge_p2_groups :: "ext_env \<Rightarrow> RolloverConfig \<Rightarrow> (string \<times> int \<times> Index list) list \<Rightarrow> JobError list ext" where
  "merge_p2_groups env config [] = eff_return []"
| "merge_p2_groups env config ((tenant, weekId, indices) # groups) =
     (let (newIndexYear, newIndexWeek) = splitYearWeekNumber weekId in
      bind_eff (mergeP2IndicesIntoP3 env config tenant indices newIndexYear newIndexWeek) (\<lambda>result.
      bind_eff (merge_p2_groups env config groups) (\<lambda>errors.
        eff_return (Errors result @ errors))))"

definition mergeP2Indices ::
  "(string \<Rightarrow> string) \<Rightarrow> (week_groups \<Rightarrow> week_groups) \<Rightarrow> ((int \<times> Index list) list \<Rightarrow> (int \<times> Index list) list)
     \<Rightarrow> go_time \<Rightarrow> ext_env \<Rightarrow> RolloverConfig \<Rightarrow> string list \<Rightarrow> JobResult ext" where
  "mergeP2Indices osenv orderT orderW now env config allIndices =
     (let weekDiff = GetEnvInt osenv ''ROLLOVER_P2_P3_WEEK_DIFFERENCE'' 0 in
      bind_eff (merge_p2_groups env config (p2_merge_groups orderT orderW now weekDiff allIndices))
        (\<lambda>jobErrors. eff_return (NewJobResultFromErrors jobErrors)))"

section \<open>Merging p3 and older indices of a year\<close>

definition p4_candidates :: "go_time \<Rightarrow> int \<Rightarrow> string list \<Rightarrow> Index list" where
  "p4_candidates now weekDiff allIndices =
     (let (year, week) = getWeekOfYear now in
      concat (map (\<lambda>indexName.
        if go_has_prefix indexName ''rolled_over'' then
          (case parseRolledOverP3OrOlderIndexName indexName of
             None \<Rightarrow> []
           | Some index \<Rightarrow>
               if isWeekDifferenceMoreThan weekDiff year week (Year index) (Week index) then [index] else [])
        else []) allIndices))"

definition of_specific_tenants :: "string \<Rightarrow> Index list \<Rightarrow> Index list" where
  "of_specific_tenants tenants indices =
     (if tenants \<noteq> '''' then filter (\<lambda>ix. Tenant ix \<in> set (go_split (CHR '','') tenants)) indices
      else indices)"

definition p4_index_name :: "string \<Rightarrow> int \<Rightarrow> string" where
  "p4_index_name tenant indexYear = ''rolled_over_1d_db_statistics_v2_p4_'' @ tenant @ ''_y'' @ go_itoa indexYear"

text \<open>The indices of a tenant by year, and all indices by tenant.\<close>

definition put_tenant :: "Index \<Rightarrow> (string \<times> Index list) list \<Rightarrow> (string \<times> Index list) list" where
  "put_tenant index = group_append (Tenant index) index"

definition put_year :: "Index \<Rightarrow> (int \<times> Index list) list \<Rightarrow> (int \<times> Index list) list" where
  "put_year index = group_append (Year index) index"

definition p4_groups ::
  "((string \<times> Index list) list \<Rightarrow> (string \<times> Index list) list) \<Rightarrow> ((int \<times> Index list) list \<Rightarrow> (int \<times> Index list) list)
     \<Rightarrow> Index list \<Rightarrow> (string \<times> int \<times> Index list) list" where
  "p4_groups orderT orderY indices =
     concat (map (\<lambda>(tenant, ofTenant).
       map (\<lambda>(year, ofYear). (tenant, year, ofYear)) (orderY (fold put_year ofTenant [])))
       (orderT (fold put_tenant indices [])))"

text \<open>A failure to move the alias or to delete an index ends the whole job.\<close>

fun merge_p4_groups ::
  "ext_env \<Rightarrow> RolloverConfig \<Rightarrow> int \<Rightarrow> (string \<times> int \<times> Index list) list \<Rightarrow> JobError list ext" where
  "merge_p4_groups env config year [] = eff_return []"
| "merge_p4_groups env config year ((tenant, indexYear, indices) # groups) =
     (let loc = tenant @ '', year '' @ go_itoa year @ '': '';
          msgs = \<lparr>alias_message = (\<lambda>e. ''error updating aliases for tenant '' @ loc @ e),
                  delete_message = (\<lambda>ix e. ''error deleting index '' @ IndexName ix @ '' for tenant '' @ loc @ e),
                  rollover_message = (\<lambda>e. ''rollover error for tenant '' @ loc @ e)\<rparr> in
      bind_eff (merge_group env config msgs (p4_index_name tenant indexYear) indices) (\<lambda>(abort, errors).
        if abort then eff_return errors
        else bind_eff (merge_p4_groups env config year groups) (\<lambda>errors'. eff_return (errors @ errors'))))"

definition mergeP3AndOlderRolledOverIndices ::
  "(string \<Rightarrow> string) \<Rightarrow> ((Index \<Rightarrow> int) \<Rightarrow> Index list \<Rightarrow> Index list)
     \<Rightarrow> ((string \<times> Index list) list \<Rightarrow> (string \<times> Index list) list)
     \<Rightarrow> ((int \<times> Index list) list \<Rightarrow> (int \<times> Index list) list)
     \<Rightarrow> go_time \<Rightarrow> ext_env \<Rightarrow> RolloverConfig \<Rightarrow> string list \<Rightarrow> JobResult ext" where
  "mergeP3AndOlderRolledOverIndices osenv srt orderT orderY now env config allIndices =
     (let weekDiff = GetEnvInt osenv ''ROLLOVER_P3_P4_WEEK_DIFFERENCE'' 15;
          valid = p4_candidates now weekDiff allIndices in
      if valid = [] then eff_return NewJobResultSuccess
      else
        (let ofTenants = of_specific_tenants (specificTenants config) valid in
         if ofTenants = [] then eff_return NewJobResultSuccess
         else
           (case cut_at (limit config) (srt (\<lambda>ix. yearWeekNumber (Year ix) (Week ix)) ofTenants) of
              None \<Rightarrow> eff_panic
            | Some indices \<Rightarrow>
                bind_eff (merge_p4_groups env config (fst (getWeekOfYear now)) (p4_groups orderT orderY indices))
                  (\<lambda>jobErrors. eff_return (NewJobResultFromErrors jobErrors)))))"

section \<open>The lifecycle job\<close>

definition with_windows :: "duration \<Rightarrow> RolloverConfig \<Rightarrow> RolloverConfig" where
  "with_windows d config = config\<lparr>aggWindow := d, aggQueryRange := d, validationRange := d\<rparr>"

definition job_result :: "JobResult \<Rightarrow> JobResult" where
  "job_result result = (if Errors result \<noteq> [] then result else NewJobResultSuccess)"

definition RolloverLifecycle ::
  "(string \<Rightarrow> string) \<Rightarrow> ((Index \<Rightarrow> int) \<Rightarrow> Index list \<Rightarrow> Index list)
     \<Rightarrow> (week_groups \<Rightarrow> week_groups) \<Rightarrow> ((int \<times> Index list) list \<Rightarrow> (int \<times> Index list) list)
     \<Rightarrow> ((string \<times> Index list) list \<Rightarrow> (string \<times> Index list) list)
     \<Rightarrow> (JobError list \<Rightarrow> JobError list) \<Rightarrow> go_time \<Rightarrow> ext_env \<Rightarrow> (nat \<Rightarrow> ext_env) \<Rightarrow> JobResult ext" where
  "RolloverLifecycle osenv srt orderWT orderI orderT orderE now env envs =
     (let migration = GetEnvOrDefault osenv ''ROLLOVER_LIFECYCLE_MIGRATION'' '''' in
      if migration \<notin> {Migrate_P1_P2, Migrate_P2_P3, Migrate_P3_P4}
      then eff_return (NewJobResultFromErrors [\<lparr>Message = ''invalid lifecycle migration: '' @ migration\<rparr>])
      else
        (case parseConfig osenv of
           Inl e \<Rightarrow> eff_return (NewJobResultFromErrors [\<lparr>Message = ''error while parsing config: '' @ e\<rparr>])
         | Inr config \<Rightarrow>
             bind_eff (try_eff (CatIndices (e_client env))) (\<lambda>names.
               case names of
                 Inl e \<Rightarrow>
                   eff_return (NewJobResultFromErrors [\<lparr>Message = ''error while fetching indices: '' @ e\<rparr>])
               | Inr indexNames \<Rightarrow>
                   if migration = Migrate_P1_P2 then
                     (let indices = filterStatsIndicesForP1Migration osenv srt now indexNames in
                      if indices = [] then eff_return NewJobResultSuccess
                      else (\<lambda>h. (bind_outcome (runRolloverIndexToIndex envs orderE (with_windows Hour config) indices)
                                   (\<lambda>errors. Ok (job_result (NewJobResultFromErrors errors))), h)))
                   else if migration = Migrate_P2_P3 then
                     bind_eff (mergeP2Indices osenv orderWT orderI now env (with_windows (24 * Hour) config) indexNames)
                       (\<lambda>result. eff_return (job_result result))
                   else
                     bind_eff (mergeP3AndOlderRolledOverIndices osenv srt orderT orderI now env
                                 (with_windows (24 * Hour) config) indexNames)
                       (\<lambda>result. eff_return (job_result result)))))"

section \<open>The groups are the tenants' weeks and years\<close>

interpretation wk: grouping "[]" put_week week_members "\<lambda>ix. (Tenant ix, week_id ix)"
  by unfold_locales
    (auto simp: put_week_def week_members_def Let_def split: option.splits)

interpretation tn: grouping "[]" put_tenant group_members Tenant
  by unfold_locales (auto simp: put_tenant_def)

interpretation yr: grouping "[]" put_year group_members Year
  by unfold_locales (auto simp: put_year_def)

definition week_groups_inv :: "week_groups \<Rightarrow> bool" where
  "week_groups_inv m \<longleftrightarrow> distinct (map fst m) \<and> list_all (\<lambda>(t, byWeek). distinct (map fst byWeek)) m"

lemma put_week_inv:
  assumes "week_groups_inv m"
  shows "week_groups_inv (put_week ix m)"
proof -
  let ?old = "case map_of m (Tenant ix) of None \<Rightarrow> [] | Some byWeek \<Rightarrow> byWeek"
  have "distinct (map fst ?old)"
    using assms by (auto simp: week_groups_inv_def list_all_iff split: option.splits dest: map_of_SomeD)
  then have new: "distinct (map fst (group_append (week_id ix) ix ?old))" by simp
  have "distinct (map fst byWeek)" if "(t, byWeek) \<in> set (put_week ix m)" for t byWeek
    using set_update_subset [OF that [unfolded put_week_def Let_def]] new assms
    by (auto simp: week_groups_inv_def list_all_iff)
  moreover have "distinct (map fst (put_week ix m))"
    using assms by (simp add: week_groups_inv_def put_week_def Let_def distinct_update)
  ultimately show ?thesis unfolding week_groups_inv_def list_all_iff by blast
qed

lemma fold_put_week_inv: "week_groups_inv m \<Longrightarrow> week_groups_inv (fold put_week ixs m)"
  by (induction ixs arbitrary: m) (simp_all add: put_week_inv)

lemma week_groups_entry:
  assumes "week_groups_inv m"
  shows "(\<exists>byWeek. (t, byWeek) \<in> set m \<and> (w, ixs) \<in> set byWeek) \<and> ixs \<noteq> []
           \<longleftrightarrow> week_members m (t, w) = ixs \<and> ixs \<noteq> []"
proof -
  have "(t, byWeek) \<in> set m \<longleftrightarrow> map_of m t = Some byWeek" for byWeek
    using assms by (simp add: week_groups_inv_def)
  moreover have "(w, ixs) \<in> set byWeek \<longleftrightarrow> map_of byWeek w = Some ixs" if "map_of m t = Some byWeek" for byWeek
    using assms map_of_SomeD [OF that] by (auto simp: week_groups_inv_def list_all_iff)
  ultimately show ?thesis
    by (auto simp: week_members_def group_members_def split: option.splits)
qed

lemma set_concat_guard:
  "x \<in> set (concat (map (\<lambda>(t, m). concat (map (\<lambda>(w, ixs). if P t w ixs then [(t, w, ixs)] else []) (f m))) xs))
     \<longleftrightarrow> (\<exists>t m w ixs. (t, m) \<in> set xs \<and> (w, ixs) \<in> set (f m) \<and> P t w ixs \<and> x = (t, w, ixs))"
  by (auto split: if_splits) (force split: if_splits)+


lemma p2_example:
  "p2_rolled_over [''rolled_over_1h_db_statistics_acme_v2_p2_y2025_d42'', ''db_statistics_acme_v2_p1_y2025_d150''] =
     [\<lparr>IndexName = ''rolled_over_1h_db_statistics_acme_v2_p2_y2025_d42'', Tenant = ''acme'', Year = 2025, Week = 0, IxDay = 42,
       Schema = ''v2'', Phase = ''p2''\<rparr>] \<and>
   filter (\<lambda>ix. (Tenant ix, week_id ix) = (''acme'', 202507))
     (p2_non_rolled_over [''rolled_over_1h_db_statistics_acme_v2_p2_y2025_d42'', ''db_statistics_acme_v2_p1_y2025_d150'']) = [] \<and>
   week_id \<lparr>IndexName = ''rolled_over_1h_db_statistics_acme_v2_p2_y2025_d42'', Tenant = ''acme'', Year = 2025, Week = 0,
       IxDay = 42, Schema = ''v2'', Phase = ''p2''\<rparr> = 202507 \<and>
   isWeekDifferenceMoreThan 0
        (fst (yearWeekFromYearDay (time_year (1748736000 * Second)) (time_yearday (1748736000 * Second))))
        (snd (yearWeekFromYearDay (time_year (1748736000 * Second)) (time_yearday (1748736000 * Second))))
        (fst (splitYearWeekNumber 202507)) (snd (splitYearWeekNumber 202507))"
  by code_simp


section \<open>A merge deletes only what it merged\<close>

lemma merge_indices_calls [calls]:
  "calls_in (aggregation_call (deleteExistingRolledOverIndex config) target) (merge_indices env config target ixs)"
  by (induction ixs) (auto split: sum.split intro!: calls)

lemma merge_indices_Ok:
  assumes "merge_indices env config target ixs h = (Ok (succ, err), h')"
  shows "set succ \<subseteq> set ixs \<and>
         (\<forall>ix \<in> set succ. \<exists>h1 h2. doRolloverAndValidate env ix config target h1 = (Ok (), h2))"
  using assms
proof (induction ixs arbitrary: h succ)
  case (Cons ix ixs)
  from Cons.prems obtain r h1 where r: "try_eff (doRolloverAndValidate env ix config target) h = (Ok r, h1)"
    and rest: "(case r of Inl e \<Rightarrow> eff_return ([], Some e)
       | Inr _ \<Rightarrow> bind_eff (merge_indices env config target ixs) (\<lambda>(success, err).
                    eff_return (ix # success, err))) h1 = (Ok (succ, err), h')"
    by (auto simp: bind_eff_Ok)
  show ?case
  proof (cases r)
    case (Inr u)
    with rest obtain s where "merge_indices env config target ixs h1 = (Ok (s, err), h')" "succ = ix # s"
      by (auto simp: bind_eff_Ok)
    with Cons.IH r Inr show ?thesis by (auto simp: try_eff_Ok)
  qed (use rest in auto)
qed simp

lemma try_status_call: "try_eff (status_call client c) h = (r, h') \<Longrightarrow> h' = h @ [c]"
  using status_call_history [of client c h]
  by (auto simp: try_eff_def split: prod.splits outcome.splits)

lemma delete_indices_calls:
  "calls_in (\<lambda>c. \<exists>ix \<in> set ixs. c = DeleteCall (IndexName ix)) (delete_indices env ixs)"
proof (induction ixs)
  case (Cons ix ixs)
  have "calls_in (\<lambda>c. \<exists>i \<in> set (ix # ixs). c = DeleteCall (IndexName i)) (delete_indices env ixs)"
    using Cons by (rule calls_in_mono) auto
  then show ?case by (auto simp: DeleteIndex_def split: sum.split intro!: calls)
qed (simp add: calls)

text \<open>
  \<open>merge_calls\<close>: the calls of a merge that went on to the alias: the aggregations, the alias, the
  deletions of indices that were merged.
\<close>

definition merge_calls :: "ext_env \<Rightarrow> RolloverConfig \<Rightarrow> string \<Rightarrow> Index list \<Rightarrow> ext_call list \<Rightarrow> ext_call list \<Rightarrow> bool" where
  "merge_calls env config target ixs h cs \<longleftrightarrow>
     (\<exists>succ pre dels.
        cs = pre @ AliasCall (map (\<lambda>i. RemoveAlias i (aliasName (hd succ))) (map IndexName succ)
                              @ [AddAlias target (aliasName (hd succ))]) # dels
      \<and> list_all (aggregation_call (deleteExistingRolledOverIndex config) target) pre
      \<and> list_all (\<lambda>c. \<exists>ix \<in> set succ. c = DeleteCall (IndexName ix)) dels
      \<and> (dels \<noteq> [] \<longrightarrow> (\<exists>status txt reason body.
            e_client env (h @ pre) (AliasCall (map (\<lambda>i. RemoveAlias i (aliasName (hd succ))) (map IndexName succ)
                              @ [AddAlias target (aliasName (hd succ))])) = Reply status txt reason body \<and> status \<le> 299))
      \<and> set succ \<subseteq> set ixs
      \<and> (\<forall>ix \<in> set succ. \<exists>h1 h2. doRolloverAndValidate env ix config target h1 = (Ok (), h2)))"

lemma merge_group_calls:
  assumes "merge_group env config msgs target ixs h = (r, h @ cs)"
  shows "list_all (aggregation_call (deleteExistingRolledOverIndex config) target) cs
         \<or> merge_calls env config target ixs h cs"
proof -
  let ?agg = "aggregation_call (deleteExistingRolledOverIndex config) target"
  obtain r1 h1 where m: "merge_indices env config target ixs h = (r1, h1)" by fastforce
  then obtain pre where pre: "h1 = h @ pre" "list_all ?agg pre" by (rule calls_inD [OF merge_indices_calls])
  show ?thesis
  proof (cases "\<exists>succ err. r1 = Ok (succ, err) \<and> succ \<noteq> []")
    case False
    with assms m pre show ?thesis
      by (auto simp: merge_group_def bind_eff_def split: outcome.splits)
  next
    case True
    then obtain succ err where r1: "r1 = Ok (succ, err)" "succ \<noteq> []" by blast
    let ?move = "AliasCall (map (\<lambda>i. RemoveAlias i (aliasName (hd succ))) (map IndexName succ)
                              @ [AddAlias target (aliasName (hd succ))])"
    obtain r2 h2 where a: "try_eff (status_call (e_client env) ?move) h1 = (r2, h2)" by fastforce
    note h2 = try_status_call [OF a]
    obtain r3 h3 where d: "delete_indices env succ h2 = (r3, h3)" by fastforce
    then obtain dels where dels: "h3 = h2 @ dels" "list_all (\<lambda>c. \<exists>ix \<in> set succ. c = DeleteCall (IndexName ix)) dels"
      by (rule calls_inD [OF delete_indices_calls])
    have ok: "set succ \<subseteq> set ixs \<and> (\<forall>ix \<in> set succ. \<exists>h1 h2. doRolloverAndValidate env ix config target h1 = (Ok (), h2))"
      using m r1 by (intro merge_indices_Ok) simp
    have end_state: "h @ cs = (case r2 of Ok (Inr u) \<Rightarrow> h3 | _ \<Rightarrow> h2)"
      using assms m r1 a d
      by (auto simp: merge_group_def bind_eff_def UpdateMultipleAliases_def Let_def
          split: outcome.splits sum.splits option.splits prod.splits)
    show ?thesis
    proof (cases "\<exists>u. r2 = Ok (Inr u)")
      case True
      then have "\<exists>status txt reason body. e_client env (h @ pre) ?move = Reply status txt reason body \<and> status \<le> 299"
        using a pre(1) by (auto simp: try_eff_Ok status_call_Ok)
      with True end_state dels h2 pre ok show ?thesis unfolding merge_calls_def
        by (intro disjI2 exI [of _ succ] exI [of _ pre] exI [of _ dels]) auto
    next
      case False
      then have "h @ cs = h2" using end_state by (auto split: outcome.splits sum.splits)
      with h2 pre ok show ?thesis unfolding merge_calls_def
        by (intro disjI2 exI [of _ succ] exI [of _ pre] exI [of _ "[]"]) auto
    qed
  qed
qed

lemma mergeP2IndicesIntoP3_group:
  assumes "mergeP2IndicesIntoP3 env config t ixs y w h = (r, h')"
  obtains msgs r' where "merge_group env config msgs (p3_index_name t y w) ixs h = (r', h')"
  using assms unfolding mergeP2IndicesIntoP3_def Let_def bind_eff_outcome
  by (auto split: prod.splits)

text \<open>C2: Merging the p2 indices of a week deletes an index other than the target only if it is one
  of the indices to merge, its data was rolled over into the target and validated, and the request
  that moves the alias of all merged indices to the target was accepted before; nothing but merged
  indices is deleted after it.\<close>

theorem mergeP2IndicesIntoP3_deletes_merged:
  assumes "mergeP2IndicesIntoP3 env config t ixs y w h = (r, h @ cs)"
    and "DeleteCall n \<in> set cs" and "n \<noteq> p3_index_name t y w"
  shows "\<exists>ix succ pre dels status txt reason body.
      cs = pre @ AliasCall (map (\<lambda>i. RemoveAlias i (aliasName (hd succ))) (map IndexName succ)
                            @ [AddAlias (p3_index_name t y w) (aliasName (hd succ))]) # dels
    \<and> e_client env (h @ pre) (AliasCall (map (\<lambda>i. RemoveAlias i (aliasName (hd succ))) (map IndexName succ)
                            @ [AddAlias (p3_index_name t y w) (aliasName (hd succ))]))
        = Reply status txt reason body \<and> status \<le> 299
    \<and> DeleteCall n \<notin> set pre \<and> list_all (\<lambda>c. \<exists>i \<in> set succ. c = DeleteCall (IndexName i)) dels
    \<and> ix \<in> set succ \<and> IndexName ix = n \<and> set succ \<subseteq> set ixs
    \<and> (\<forall>i \<in> set succ. \<exists>h1 h2. doRolloverAndValidate env i config (p3_index_name t y w) h1 = (Ok (), h2))"
proof -
  let ?agg = "aggregation_call (deleteExistingRolledOverIndex config) (p3_index_name t y w)"
  obtain msgs r' where "merge_group env config msgs (p3_index_name t y w) ixs h = (r', h @ cs)"
    using assms(1) by (rule mergeP2IndicesIntoP3_group)
  from merge_group_calls [OF this] have "merge_calls env config (p3_index_name t y w) ixs h cs"
    using assms(2,3) by (fastforce simp: list_all_iff)
  then obtain succ pre dels where *: "cs = pre @ AliasCall (map (\<lambda>i. RemoveAlias i (aliasName (hd succ)))
        (map IndexName succ) @ [AddAlias (p3_index_name t y w) (aliasName (hd succ))]) # dels"
      "list_all ?agg pre" "list_all (\<lambda>c. \<exists>ix \<in> set succ. c = DeleteCall (IndexName ix)) dels"
      "dels \<noteq> [] \<longrightarrow> (\<exists>status txt reason body.
            e_client env (h @ pre) (AliasCall (map (\<lambda>i. RemoveAlias i (aliasName (hd succ))) (map IndexName succ)
                              @ [AddAlias (p3_index_name t y w) (aliasName (hd succ))])) = Reply status txt reason body \<and> status \<le> 299)"
      "set succ \<subseteq> set ixs"
      "\<forall>ix \<in> set succ. \<exists>h1 h2. doRolloverAndValidate env ix config (p3_index_name t y w) h1 = (Ok (), h2)"
    unfolding merge_calls_def by blast
  have pre: "DeleteCall n \<notin> set pre" using *(2) assms(3) by (auto simp: list_all_iff)
  then have "DeleteCall n \<in> set dels" using assms(2) *(1) by auto
  moreover from this obtain ix where "ix \<in> set succ" "IndexName ix = n" using *(3) by (auto simp: list_all_iff)
  moreover have "dels \<noteq> []" using \<open>DeleteCall n \<in> set dels\<close> by auto
  ultimately show ?thesis using * pre by blast
qed

definition p2_example_index :: Index where
  "p2_example_index = \<lparr>IndexName = ''rolled_over_1h_db_statistics_acme_v2_p2_y2023_d318'', Tenant = ''acme'', Year = 2023,
     Week = 0, IxDay = 318, Schema = Schema_V2, Phase = Phase_P2\<rparr>"

theorem mergeP2IndicesIntoP3_deletes_merged_witness:
  "\<exists>r cs ix succ pre dels.
       mergeP2IndicesIntoP3 example_env example_config ''acme'' [p2_example_index] 2023 46 [] = (r, [] @ cs)
     \<and> cs = pre @ AliasCall (map (\<lambda>i. RemoveAlias i (aliasName (hd succ))) (map IndexName succ)
              @ [AddAlias (p3_index_name ''acme'' 2023 46) (aliasName (hd succ))]) # dels
     \<and> DeleteCall (IndexName p2_example_index) \<notin> set pre
     \<and> ix \<in> set succ \<and> IndexName ix = IndexName p2_example_index"
proof -
  let ?new = "p3_index_name ''acme'' 2023 46" and ?ix = p2_example_index
  obtain h1 where d: "doRolloverAndValidate example_env ?ix example_config ?new [] = (Ok (), h1)" using example_do by blast
  let ?cs = "h1 @ [AliasCall [RemoveAlias (IndexName ?ix) (aliasName ?ix), AddAlias ?new (aliasName ?ix)],
                   DeleteCall (IndexName ?ix)]"
  have run: "\<exists>r. mergeP2IndicesIntoP3 example_env example_config ''acme'' [?ix] 2023 46 [] = (r, [] @ ?cs)"
    using d by (simp add: mergeP2IndicesIntoP3_def merge_group_def bind_eff_def try_eff_def DeleteIndex_def
        UpdateMultipleAliases_def example_status Let_def)
  then obtain r where r: "mergeP2IndicesIntoP3 example_env example_config ''acme'' [?ix] 2023 46 [] = (r, [] @ ?cs)" by blast
  have ne: "IndexName ?ix \<noteq> ?new" by (simp add: p2_example_index_def p3_index_name_def)
  have "DeleteCall (IndexName ?ix) \<in> set ?cs" by simp
  from mergeP2IndicesIntoP3_deletes_merged [OF r this ne] show ?thesis using r by blast
qed

text \<open>
  The range of a day ends one millisecond after its end, so it holds the first instant of the
  next day: in the daily merges it holds the bucket that the next day has in the target.
\<close>

theorem day_range_reaches_next_day:
  assumes "lo mod 86400000 = 0" and "lo \<le> hi" and "hi < lo + 86400000"
  shows "splitByTimeRanges lo hi (24 * Hour) = Some [\<lparr>tr_start = lo, tr_end = lo + 86400001\<rparr>]"
proof -
  have "(lo * Millisecond) mod Day = 0" using assms(1) mult_mod_left [of lo 86400000 Millisecond] by simp
  then have "alignToGranularBoundary (from_unix_milli lo) (24 * Hour) = from_unix_milli lo"
    by (simp add: alignToGranularBoundary_def go_date_start_of_day from_unix_milli_def)
  moreover have "from_unix_milli hi - from_unix_milli lo \<le> 24 * Hour"
    using assms(3) by (simp add: from_unix_milli_def)
  moreover have "unix_milli (from_unix_milli lo + 24 * Hour) = lo + 86400000"
    by (simp add: unix_milli_def from_unix_milli_def)
  ultimately show ?thesis by (simp add: splitByTimeRanges_def Let_def extend_last_def)
qed

section \<open>Selection for the first migration\<close>

lemma filterP1_iff:
  assumes "slice_sorter srt"
  shows "ix \<in> set (filterStatsIndicesForP1Migration osenv srt now names) \<longleftrightarrow>
    (\<exists>s \<in> set names. go_has_prefix s ''db_statistics_'' \<and> parseIndexName s = Some ix \<and>
       shouldMigrateP1ToP2 now ix (GetEnvInt osenv ''ROLLOVER_P1_P2_DAY_DIFFERENCE'' 3))"
  unfolding filterStatsIndicesForP1Migration_def Let_def slice_sorter_set [OF assms]
    set_concat set_map image_image UN_iff set_if_case by simp

text \<open>The daily migration takes only indices of phase p1, of schema v2 or v3, that exist, in the
  order of their days, and each lies more days before today than configured (today's year and day
  being those of the calendar).\<close>

theorem filterStatsIndicesForP1Migration_sound:
  assumes "slice_sorter srt" and "ix \<in> set (filterStatsIndicesForP1Migration osenv srt now names)"
    and "0 \<le> GetEnvInt osenv ''ROLLOVER_P1_P2_DAY_DIFFERENCE'' 3" and "1 \<le> IxDay ix"
  shows "IndexName ix \<in> set names \<and> Phase ix = Phase_P1 \<and> Schema ix \<in> {Schema_V2, Schema_V3_temp}
    \<and> sorted (map (\<lambda>ix. yearDayNumber (Year ix) (IxDay ix)) (filterStatsIndicesForP1Migration osenv srt now names))
    \<and> GetEnvInt osenv ''ROLLOVER_P1_P2_DAY_DIFFERENCE'' 3
        < day_of_time now - (days_before_year (Year ix) + IxDay ix - 1)"
proof -
  let ?d = "GetEnvInt osenv ''ROLLOVER_P1_P2_DAY_DIFFERENCE'' 3"
  obtain s where s: "s \<in> set names" "parseIndexName s = Some ix" "shouldMigrateP1ToP2 now ix ?d"
    using assms(2) unfolding filterP1_iff [OF assms(1)] by blast
  then have ph: "Phase ix = Phase_P1" "Schema ix \<in> {Schema_V2, Schema_V3_temp}"
    and d: "isDayDifferenceMoreThan ?d (time_year now) (time_yearday now) (Year ix) (IxDay ix)"
    by (auto simp: shouldMigrateP1ToP2_def getYearAndDay_def split: if_splits)
  have "time_yearday now \<le> 366" using yday_less [of "day_of_time now"] by (simp add: time_yearday_def)
  from isDayDifferenceMoreThan_sound [OF d assms(3) this assms(4)]
  have "?d < day_of_time now - (days_before_year (Year ix) + IxDay ix - 1)"
    by (simp add: time_year_def time_yearday_def yday_of_day_def)
  moreover have "sorted (map (\<lambda>ix. yearDayNumber (Year ix) (IxDay ix)) (filterStatsIndicesForP1Migration osenv srt now names))"
    unfolding filterStatsIndicesForP1Migration_def Let_def by (rule slice_sorter_sorted [OF assms(1)])
  ultimately show ?thesis using s ph parseIndexName_sound [OF s(2)] by simp
qed

definition p1_example_index :: Index where
  "p1_example_index = \<lparr>IndexName = ''db_statistics_acme_v2_p1_y2025_d142'', Tenant = ''acme'', Year = 2025, Week = 0, IxDay = 142,
     Schema = ''v2'', Phase = ''p1''\<rparr>"

lemma p1_example:
  "p1_example_index \<in> set (filterStatsIndicesForP1Migration (\<lambda>_. '''') sort_key (1748736000 * Second)
     [''db_statistics_acme_v2_p1_y2025_d151'', ''db_statistics_acme_v2_p1_y2025_d142''])"
  by code_simp

theorem filterStatsIndicesForP1Migration_sound_witness:
  "3 < day_of_time (1748736000 * Second) - (days_before_year 2025 + 142 - 1)"
proof -
  have env: "GetEnvInt (\<lambda>_. '''') ''ROLLOVER_P1_P2_DAY_DIFFERENCE'' 3 = 3" by (simp add: GetEnvInt_def)
  have "1 \<le> IxDay p1_example_index" by (simp add: p1_example_index_def)
  from filterStatsIndicesForP1Migration_sound [OF slice_sorter_sort_key p1_example _ this]
  show ?thesis unfolding env by (simp add: p1_example_index_def)
qed

section \<open>The parallel job reports every failure\<close>

lemma rollover_errors_length:
  "length (rollover_errors outs) = length (filter (\<lambda>o'. \<exists>e. snd o' = Err e) outs)"
  by (induction outs) (auto simp: rollover_errors_def split: outcome.splits)

lemma rollover_outcomes_map:
  "length (rollover_outcomes envs config ixs) = length ixs"
  "j < length ixs \<Longrightarrow> rollover_outcomes envs config ixs ! j = (ixs ! j, fst (rollover (envs j) (ixs ! j) config []))"
  by (simp_all add: rollover_outcomes_def nth_enumerate_eq)



end
