(* ===== verification/Util_Slice.thy ===== *)
theory Util_Slice
  imports Go_Prelude
begin

text \<open>
  \<open>internal/util/slice.go\<close> (batches of a slice, membership),
  \<open>internal/util/throughputcontroller.go\<close> (a rate limiter driven by a ticker) and the byte
  units of \<open>internal/util/number_util.go\<close>.
\<close>

section \<open>Slices\<close>

definition Contains :: "string list \<Rightarrow> string \<Rightarrow> bool" where
  "Contains l key = list_ex (\<lambda>item. item = key) l"

text \<open>The loop cuts a batch off the front while more than a batch is left.\<close>

function partition_loop :: "nat \<Rightarrow> 'a list \<Rightarrow> 'a list list \<Rightarrow> 'a list list" where
  "partition_loop batchSize slice acc =
     (if 0 < batchSize \<and> batchSize < length slice
      then partition_loop batchSize (drop batchSize slice) (acc @ [take batchSize slice])
      else acc @ [slice])"
  by pat_completeness auto
termination
  by (relation "measure (\<lambda>(b, s, acc). length s)") auto

declare partition_loop.simps [simp del]

definition PartitionSlice :: "'a list \<Rightarrow> int \<Rightarrow> 'a list list" where
  "PartitionSlice slice batchSize =
     (if slice = [] \<or> batchSize \<le> 0 then [] else partition_loop (nat batchSize) slice [])"

lemma Contains_iff [simp]: "Contains l key \<longleftrightarrow> key \<in> set l"
  by (auto simp: Contains_def list_ex_iff)

lemma partition_loop_concat:
  "concat (partition_loop n xs acc) = concat acc @ xs"
proof (induction n xs acc rule: partition_loop.induct)
  case (1 n xs acc)
  then show ?case by (subst partition_loop.simps) auto
qed

lemma partition_loop_parts:
  "0 < n \<Longrightarrow> xs \<noteq> [] \<Longrightarrow> \<forall>b\<in>set acc. b \<noteq> [] \<and> length b \<le> n \<Longrightarrow>
   \<forall>b\<in>set (partition_loop n xs acc). b \<noteq> [] \<and> length b \<le> n"
proof (induction n xs acc rule: partition_loop.induct)
  case (1 n xs acc)
  show ?case
  proof (cases "n < length xs")
    case True
    have "\<forall>b\<in>set (partition_loop n (drop n xs) (acc @ [take n xs])). b \<noteq> [] \<and> length b \<le> n"
    proof (rule "1.IH")
      show "drop n xs \<noteq> []" using True by simp
      show "\<forall>b\<in>set (acc @ [take n xs]). b \<noteq> [] \<and> length b \<le> n"
        using "1.prems" by (simp add: ball_Un)
    qed (use True "1.prems"(1) in simp_all)
    moreover have "partition_loop n xs acc = partition_loop n (drop n xs) (acc @ [take n xs])"
      using True "1.prems"(1) by (subst partition_loop.simps) simp
    ultimately show ?thesis by (simp only:)
  next
    case False
    then have "partition_loop n xs acc = acc @ [xs]" by (subst partition_loop.simps) simp
    with False "1.prems" show ?thesis by (simp add: ball_Un)
  qed
qed

interpretation ps: batching "\<lambda>n xs. PartitionSlice xs (int n)"
proof (unfold_locales, goal_cases)
  case (1 n xs)
  then show ?case by (simp add: PartitionSlice_def partition_loop_concat)
next
  case (2 n b xs)
  then show ?case
    using partition_loop_parts [of n xs "[]"] by (auto simp: PartitionSlice_def split: if_splits)
next
  case (3 n b xs)
  then show ?case
    using partition_loop_parts [of n xs "[]"] by (auto simp: PartitionSlice_def split: if_splits)
qed

text \<open>partitioning a slice with a positive batch size loses, repeats and reorders nothing,
  makes no empty batch and no batch longer than the batch size, and needs no more batches than
  elements.\<close>

theorem PartitionSlice_batches:
  assumes "0 < n"
  shows "concat (PartitionSlice xs (int n)) = xs \<and>
         list_all (\<lambda>b. b \<noteq> [] \<and> length b \<le> n) (PartitionSlice xs (int n)) \<and>
         length (PartitionSlice xs (int n)) \<le> length xs \<and>
         length xs \<le> n * length (PartitionSlice xs (int n))"
  using ps.batches_concat [OF assms] ps.batches_nonempty [OF assms] ps.batches_bound [OF assms]
    ps.batches_count_le [OF assms] ps.batches_count_ge [OF assms]
  unfolding list_all_iff by blast

theorem PartitionSlice_batches_witness:
  "concat (PartitionSlice [1, 2, 3, 4, 5 :: nat] (int 2)) = [1, 2, 3, 4, 5] \<and>
   list_all (\<lambda>b. b \<noteq> [] \<and> length b \<le> 2) (PartitionSlice [1, 2, 3, 4, 5 :: nat] (int 2)) \<and>
   length (PartitionSlice [1, 2, 3, 4, 5 :: nat] (int 2)) \<le> length [1, 2, 3, 4, 5 :: nat] \<and>
   length [1, 2, 3, 4, 5 :: nat] \<le> 2 * length (PartitionSlice [1, 2, 3, 4, 5 :: nat] (int 2))"
  using PartitionSlice_batches [of 2 "[1, 2, 3, 4, 5 :: nat]"] by simp

section \<open>Byte units\<close>

definition DataVolumeToBytes :: "int \<Rightarrow> string \<Rightarrow> int" where
  "DataVolumeToBytes vol unit =
     (if unit = ''B'' then vol
      else if unit = ''KB'' then wrap64 (vol * 1024)
      else if unit = ''MB'' then wrap64 (wrap64 (vol * 1024) * 1024)
      else if unit = ''GB'' then wrap64 (wrap64 (wrap64 (vol * 1024) * 1024) * 1024)
      else if unit = ''TB'' then wrap64 (wrap64 (wrap64 (wrap64 (vol * 1024) * 1024) * 1024) * 1024)
      else vol)"

section \<open>The throughput controller\<close>

text \<open>
  The controller's goroutine selects between the ticker and the increment channel.  While it
  waits for the tick after the rate is reached it receives no increment, so the senders block;
  closing the channel ends it.
\<close>

record throughput_controller =
  tc_rate :: int
  tc_count :: int
  tc_waiting :: bool
  tc_stopped :: bool

datatype tc_event = Tick | Increment | Close

definition NewThroughputController :: "int \<Rightarrow> throughput_controller" where
  "NewThroughputController r = \<lparr>tc_rate = r, tc_count = 0, tc_waiting = False, tc_stopped = False\<rparr>"

inductive tc_step :: "throughput_controller \<Rightarrow> tc_event \<Rightarrow> throughput_controller \<Rightarrow> bool" where
  tick: "\<not> tc_stopped s \<Longrightarrow> tc_step s Tick (s\<lparr>tc_count := 0, tc_waiting := False\<rparr>)"
| increment: "\<not> tc_stopped s \<Longrightarrow> \<not> tc_waiting s \<Longrightarrow>
    tc_step s Increment (s\<lparr>tc_count := tc_count s + 1, tc_waiting := (tc_count s + 1 = tc_rate s)\<rparr>)"
| close: "\<not> tc_stopped s \<Longrightarrow> \<not> tc_waiting s \<Longrightarrow> tc_step s Close (s\<lparr>tc_stopped := True\<rparr>)"

inductive_cases tc_tickE: "tc_step s Tick t"
inductive_cases tc_incrementE: "tc_step s Increment t"
inductive_cases tc_closeE: "tc_step s Close t"

inductive tc_run :: "throughput_controller \<Rightarrow> tc_event list \<Rightarrow> throughput_controller \<Rightarrow> bool" where
  finished: "tc_run s [] s"
| more: "tc_step s e t \<Longrightarrow> tc_run t es u \<Longrightarrow> tc_run s (e # es) u"

inductive_cases tc_run_ConsE: "tc_run s (e # es) u"
inductive_cases tc_run_NilE: "tc_run s [] u"

definition tc_inv :: "throughput_controller \<Rightarrow> bool" where
  "tc_inv s \<longleftrightarrow> 0 \<le> tc_count s \<and> tc_count s \<le> tc_rate s \<and> (tc_waiting s \<longleftrightarrow> tc_count s = tc_rate s)"

lemma tc_step_inv:
  "tc_step s e t \<Longrightarrow> 0 < tc_rate s \<Longrightarrow> tc_inv s \<Longrightarrow> tc_inv t \<and> tc_rate t = tc_rate s"
  by (induction rule: tc_step.induct) (auto simp: tc_inv_def)

lemma tc_step_count:
  "tc_step s e t \<Longrightarrow> e \<noteq> Tick \<Longrightarrow> tc_count t = tc_count s + (if e = Increment then 1 else 0)"
  by (induction rule: tc_step.induct) auto

lemma tc_run_inv:
  "tc_run s es u \<Longrightarrow> 0 < tc_rate s \<Longrightarrow> tc_inv s \<Longrightarrow> tc_inv u \<and> tc_rate u = tc_rate s"
proof (induction rule: tc_run.induct)
  case (more s e t es u)
  with tc_step_inv [OF more.hyps(1)] show ?case by auto
qed simp

lemma tc_run_count:
  "tc_run s es u \<Longrightarrow> Tick \<notin> set es \<Longrightarrow> tc_count u = tc_count s + int (count_list es Increment)"
proof (induction rule: tc_run.induct)
  case (more s e t es u)
  then show ?case using tc_step_count [OF more.hyps(1)] by auto
qed simp

lemma tc_run_append: "tc_run s (as @ bs) u \<Longrightarrow> \<exists>t. tc_run s as t \<and> tc_run t bs u"
proof (induction as arbitrary: s)
  case (Cons e as)
  then obtain t where "tc_step s e t" "tc_run t (as @ bs) u" by (auto elim: tc_run_ConsE)
  with Cons.IH show ?case by (meson tc_run.more)
qed (auto intro: tc_run.finished)

text \<open>C10: in every run of a controller with a positive rate, a stretch of events without a tick
  holds at most the rate's number of increments.\<close>

theorem throughput_bound:
  assumes "0 < r" and "tc_run (NewThroughputController r) (before @ stretch) u" and "Tick \<notin> set stretch"
  shows "int (count_list stretch Increment) \<le> r"
proof -
  obtain s where s: "tc_run (NewThroughputController r) before s" "tc_run s stretch u"
    using tc_run_append [OF assms(2)] by blast
  have "tc_inv s \<and> tc_rate s = r"
    using tc_run_inv [OF s(1)] assms(1) by (simp add: tc_inv_def NewThroughputController_def)
  moreover from this have "tc_inv u \<and> tc_rate u = r"
    using tc_run_inv [OF s(2)] assms(1) by simp
  ultimately show ?thesis
    using tc_run_count [OF s(2) assms(3)] by (simp add: tc_inv_def)
qed

theorem throughput_bound_witness:
  "int (count_list [Increment, Increment] Increment) \<le> 2"
proof (rule throughput_bound [of 2 "[Increment, Tick]" "[Increment, Increment]"])
  show "tc_run (NewThroughputController 2) ([Increment, Tick] @ [Increment, Increment])
          \<lparr>tc_rate = 2, tc_count = 2, tc_waiting = True, tc_stopped = False\<rparr>"
    by (auto intro!: tc_run.intros simp: NewThroughputController_def tc_step.simps)
qed simp_all

end
