(* ===== verification/Ack_Db.thy ===== *)
theory Ack_Db
  imports Job_Result Util_Slice "HOL-Library.List_Lexorder" "HOL-Library.Char_ord"
begin

text \<open>
  The tables of the acknowledgement processor and the queries of
  \<open>internal/acknowledgement/db\<close>, \<open>constants\<close> and \<open>config_env.go\<close>.

  The database is the state: the rows of the two change flag tables and the status of the
  entities by table and id, in the order in which a query without an order returns them.  Each
  query is one operation; \<open>fault\<close> says which operations of a run fail, and a failing operation
  changes no row.  \<open>time_of\<close> is the database's reading of a timestamp column.
\<close>

section \<open>Rows and tables\<close>

record ChangeFlagAck =
  Id :: string
  AckRequestId :: string
  EntityId :: string
  Status :: string
  EntityType :: string
  EntityVersion :: string
  ServiceName :: string
  TenantId :: string
  Action :: string
  Timestamp :: string
  AckError :: string
  ProcessStatus :: string

text \<open>A change flag request with the three columns that the query selects.\<close>

record ChangeFlagRequest =
  RequestId :: string
  CfEntityId :: string
  CfTimestamp :: string

record ack_db =
  ack_rows :: "ChangeFlagAck list"
  request_rows :: "ChangeFlagRequest list"
  entity_rows :: "((string \<times> string) \<times> string) list"
  operations :: nat
  fault :: "nat \<Rightarrow> go_error option"
  time_of :: "string \<Rightarrow> go_time"

definition StatusPending :: string where "StatusPending = ''PENDING''"
definition StatusProcessed :: string where "StatusProcessed = ''PROCESSED''"
definition StatusSuppressed :: string where "StatusSuppressed = ''SUPPRESSED''"
definition StatusErrored :: string where "StatusErrored = ''ERRORED''"
definition StatusDeleted :: string where "StatusDeleted = ''DELETED''"
definition QueryBatchSize :: int where "QueryBatchSize = 50"

lemmas ack_status_defs =
  StatusPending_def StatusProcessed_def StatusSuppressed_def StatusErrored_def StatusDeleted_def

text \<open>One query: counted, and either failing or answered from the tables.\<close>

definition db_query :: "(ack_db \<Rightarrow> 'a) \<Rightarrow> (ack_db, 'a) eff" where
  "db_query f db =
     (let db' = db\<lparr>operations := Suc (operations db)\<rparr> in
      case fault db (operations db) of Some e \<Rightarrow> (Err e, db') | None \<Rightarrow> (Ok (f db), db'))"

definition db_update :: "(ack_db \<Rightarrow> ack_db) \<Rightarrow> (ack_db, unit) eff" where
  "db_update f db =
     (let db' = db\<lparr>operations := Suc (operations db)\<rparr> in
      case fault db (operations db) of Some e \<Rightarrow> (Err e, db') | None \<Rightarrow> (Ok (), f db'))"

section \<open>Queries\<close>

definition defaultEntityPageLimit :: int where "defaultEntityPageLimit = 100"
definition maxEntityPageLimit :: int where "maxEntityPageLimit = 10000"

definition normalizeEntityPageLimit :: "int \<Rightarrow> int" where
  "normalizeEntityPageLimit limit =
     (if limit \<le> 0 then defaultEntityPageLimit
      else if limit > maxEntityPageLimit then maxEntityPageLimit else limit)"

definition ackProcessBaseQuery :: "go_time \<Rightarrow> go_time option \<Rightarrow> ack_db \<Rightarrow> ChangeFlagAck list" where
  "ackProcessBaseQuery olderThan newerThan db =
     filter (\<lambda>a. (ProcessStatus a = StatusPending \<or> ProcessStatus a = StatusErrored)
                  \<and> time_of db (Timestamp a) < olderThan
                  \<and> (case newerThan of None \<Rightarrow> True | Some t \<Rightarrow> t \<le> time_of db (Timestamp a))) (ack_rows db)"

text \<open>The distinct entity ids of the acknowledgements to process, in order.\<close>

definition entity_ids :: "go_time \<Rightarrow> go_time option \<Rightarrow> ack_db \<Rightarrow> string list" where
  "entity_ids olderThan newerThan db =
     remdups (sort (map EntityId (ackProcessBaseQuery olderThan newerThan db)))"

definition GetDistinctEntityIdsToProcess ::
  "go_time \<Rightarrow> go_time option \<Rightarrow> string \<Rightarrow> int \<Rightarrow> (ack_db, string list) eff" where
  "GetDistinctEntityIdsToProcess olderThan newerThan afterEntityID limit =
     db_query (\<lambda>db. take (nat (normalizeEntityPageLimit limit))
       (filter (\<lambda>e. afterEntityID \<noteq> '''' \<longrightarrow> afterEntityID < e) (entity_ids olderThan newerThan db)))"

definition GetChangeFlagsByEntityIds ::
  "string list \<Rightarrow> go_time \<Rightarrow> go_time option \<Rightarrow> (ack_db, ChangeFlagAck list) eff" where
  "GetChangeFlagsByEntityIds entityIds olderThan newerThan =
     (if entityIds = [] then eff_return []
      else db_query (\<lambda>db. filter (\<lambda>a. EntityId a \<in> set entityIds) (ackProcessBaseQuery olderThan newerThan db)))"

definition set_process_status :: "string \<Rightarrow> string list \<Rightarrow> (ack_db, unit) eff" where
  "set_process_status status ids =
     db_update (\<lambda>db. db\<lparr>ack_rows :=
       map (\<lambda>a. if Id a \<in> set ids then a\<lparr>ProcessStatus := status\<rparr> else a) (ack_rows db)\<rparr>)"

definition MarkAcksProcessed :: "string list \<Rightarrow> (ack_db, unit) eff" where
  "MarkAcksProcessed ids = set_process_status StatusProcessed ids"

definition MarkAcksError :: "string list \<Rightarrow> (ack_db, unit) eff" where
  "MarkAcksError ids = set_process_status StatusErrored ids"

definition MarkAcksSuppressed :: "string list \<Rightarrow> (ack_db, unit) eff" where
  "MarkAcksSuppressed ids = set_process_status StatusSuppressed ids"

definition DeleteRecords :: "go_time \<Rightarrow> (ack_db, unit) eff" where
  "DeleteRecords olderThan =
     db_update (\<lambda>db. db\<lparr>ack_rows :=
       filter (\<lambda>a. \<not> (time_of db (Timestamp a) < olderThan \<and> ProcessStatus a = ''PROCESSED'')) (ack_rows db)\<rparr>)"

definition GetChangeFlagRequest :: "string list \<Rightarrow> (ack_db, ChangeFlagRequest list) eff" where
  "GetChangeFlagRequest entityIds = db_query (\<lambda>db. filter (\<lambda>r. CfEntityId r \<in> set entityIds) (request_rows db))"

section \<open>Batch sizes\<close>

definition getQueryBatchSize :: "(string \<Rightarrow> string) \<Rightarrow> int" where
  "getQueryBatchSize env =
     (let size' = GetEnvInt env ''ACK_PROCESSOR_QUERY_BATCH_SIZE'' QueryBatchSize in
      if size' \<le> 0 then QueryBatchSize else size')"

definition defaultEntityPageSize :: int where "defaultEntityPageSize = 100"
definition defaultEntityUpdateBatchSize :: int where "defaultEntityUpdateBatchSize = 100"

definition getEntityPageSize :: "(string \<Rightarrow> string) \<Rightarrow> int" where
  "getEntityPageSize env =
     (let size' = GetEnvInt env ''ACK_PROCESSOR_ENTITY_PAGE_SIZE'' defaultEntityPageSize in
      if size' \<le> 0 then defaultEntityPageSize else size')"

definition getEntityUpdateBatchSize :: "(string \<Rightarrow> string) \<Rightarrow> int" where
  "getEntityUpdateBatchSize env =
     (let size' = GetEnvInt env ''ACK_PROCESSOR_ENTITY_UPDATE_BATCH_SIZE'' defaultEntityUpdateBatchSize in
      if size' \<le> 0 then defaultEntityUpdateBatchSize else size')"

lemma batch_sizes_positive:
  "0 < getQueryBatchSize env" "0 < getEntityPageSize env" "0 < getEntityUpdateBatchSize env"
  by (simp_all add: getQueryBatchSize_def getEntityPageSize_def getEntityUpdateBatchSize_def Let_def
      QueryBatchSize_def defaultEntityPageSize_def defaultEntityUpdateBatchSize_def)

text \<open>
  The loop \<^verbatim>\<open>for start := 0; start < len(xs); start += batchSize\<close> over slices of \<open>xs\<close>; with a
  batch size that is not positive it does not advance, and the callers replace such a size first.
\<close>

function step_batches :: "nat \<Rightarrow> 'a list \<Rightarrow> 'a list list" where
  "step_batches n xs = (if xs = [] \<or> n = 0 then [] else take n xs # step_batches n (drop n xs))"
  by pat_completeness auto
termination
  by (relation "measure (\<lambda>(n, xs). length xs)") auto

declare step_batches.simps [simp del]

interpretation sb: batching step_batches
proof
  fix n :: nat and xs b :: "'a list"
  assume n: "0 < n"
  show "concat (step_batches n xs) = xs"
    using n by (induction n xs rule: step_batches.induct) (subst step_batches.simps, auto)
  assume "b \<in> set (step_batches n xs)"
  with n have "b \<noteq> [] \<and> length b \<le> n"
  proof (induction n xs rule: step_batches.induct)
    case (1 n xs)
    from "1.prems" have "xs \<noteq> []" "b = take n xs \<or> b \<in> set (step_batches n (drop n xs))"
      by (subst (asm) step_batches.simps, auto split: if_splits)+
    with 1 show ?case by auto
  qed
  then show "b \<noteq> []" and "length b \<le> n" by simp_all
qed
end
