(* ===== verification/Ack_Process.thy ===== *)
theory Ack_Process
  imports Ack_Db
begin

text \<open>
  \<open>internal/acknowledgement\<close>: the acknowledgement processor.  It pages through the entities with
  pending acknowledgements, finds for each entity the latest request that was acknowledged, sets the
  status of the entity from the acknowledgement that matters, and marks every acknowledgement.

  The Go maps of a page are association lists; \<open>ack_orders\<close> gives the order in which each of them is
  ranged over.
\<close>

section \<open>Statuses\<close>

definition AckSuccess :: string where "AckSuccess = ''SUCCESS''"
definition AckFailure :: string where "AckFailure = ''FAILURE''"
definition ActionDelete :: string where "ActionDelete = ''delete''"

definition getStatusString :: "ChangeFlagAck \<Rightarrow> string" where
  "getStatusString ack =
     (if Status ack = AckSuccess then (if Action ack = ActionDelete then ''DISABLED'' else ''ACTIVE'')
      else if Status ack = AckFailure then (if Action ack = ActionDelete then ''DISABLE_ERROR'' else ''ERRORED'')
      else '''')"

definition getStatusInt :: "ChangeFlagAck \<Rightarrow> int" where
  "getStatusInt ack =
     (if Status ack = AckSuccess then (if Action ack = ActionDelete then 4 else 3)
      else if Status ack = AckFailure then (if Action ack = ActionDelete then 6 else 7)
      else 0)"

definition getStatusStringFromInt :: "int \<Rightarrow> string" where
  "getStatusStringFromInt status =
     (if status = 3 then ''ACTIVE'' else if status = 4 then ''DISABLED'' else if status = 7 then ''ERRORED''
      else if status = 6 then ''DISABLE_ERROR'' else '''')"

section \<open>Entity updates\<close>

datatype entityUpdateGuard = guardExcludeDeleted | guardExcludeStatusOnly

record entityUpdateSpec =
  table :: string
  status :: string
  guardKind :: entityUpdateGuard

record pendingEntityUpdate =
  entityID :: string
  requestID :: string

type_synonym entityUpdateCollector = "(entityUpdateSpec \<times> pendingEntityUpdate list) list"

datatype spec_error = SuppressUnsupported | UnsupportedEntityType string

definition spec_of :: "string \<Rightarrow> ChangeFlagAck \<Rightarrow> entityUpdateGuard \<Rightarrow> spec_error + entityUpdateSpec" where
  "spec_of t ack guard = Inr \<lparr>table = t, status = getStatusString ack, guardKind = guard\<rparr>"

definition entityUpdateSpecForAck :: "ChangeFlagAck \<Rightarrow> spec_error + entityUpdateSpec" where
  "entityUpdateSpecForAck ack =
     (let et = EntityType ack in
      if go_has_prefix et ''destination_'' then spec_of ''destination'' ack guardExcludeDeleted
      else if et = ''lookup'' then spec_of ''lookup'' ack guardExcludeStatusOnly
      else if et = ''insights_rule'' then spec_of ''insights_rule'' ack guardExcludeStatusOnly
      else if et = ''rule'' then spec_of ''vc_rule'' ack guardExcludeDeleted
      else if et = ''source'' then spec_of ''log_source'' ack guardExcludeDeleted
      else if et = ''enrichment'' then spec_of ''enrichment'' ack guardExcludeDeleted
      else if et = ''transformer'' then spec_of ''data_transformation'' ack guardExcludeDeleted
      else if et = ''route_processor'' then spec_of ''route_processor'' ack guardExcludeDeleted
      else if et = ''sensitive_data'' then spec_of ''sensitive_data_config'' ack guardExcludeDeleted
      else if et = ''global_destination'' then spec_of ''global_destination_config'' ack guardExcludeDeleted
      else if et = ''custom_normalization'' then spec_of ''custom_normalization'' ack guardExcludeDeleted
      else if et \<in> {''pipeline'', ''data_replay'', ''data-replay'', ''aif_workflow'', ''alert_config''}
      then Inl SuppressUnsupported
      else Inl (UnsupportedEntityType et))"

definition newEntityUpdateCollector :: entityUpdateCollector where
  "newEntityUpdateCollector = []"

definition collector_add :: "entityUpdateSpec \<Rightarrow> string \<Rightarrow> string \<Rightarrow> entityUpdateCollector \<Rightarrow> entityUpdateCollector" where
  "collector_add spec entity request c = group_append spec \<lparr>entityID = entity, requestID = request\<rparr> c"

text \<open>The rows that the guarded update changes.\<close>

definition update_entities :: "entityUpdateSpec \<Rightarrow> string list \<Rightarrow> ack_db \<Rightarrow> ack_db" where
  "update_entities spec ids db =
     db\<lparr>entity_rows := map (\<lambda>(k, st).
       if fst k = table spec \<and> snd k \<in> set ids \<and> st \<noteq> status spec
          \<and> (guardKind spec = guardExcludeDeleted \<longrightarrow> st \<noteq> StatusDeleted)
       then (k, status spec) else (k, st)) (entity_rows db)\<rparr>"

definition executeEntityStatusBatchUpdate :: "entityUpdateSpec \<Rightarrow> string list \<Rightarrow> (ack_db, unit) eff" where
  "executeEntityStatusBatchUpdate spec entityIDs =
     (if entityIDs = [] then eff_return () else db_update (update_entities spec entityIDs))"

definition executeEntityStatusSingleUpdate :: "entityUpdateSpec \<Rightarrow> string \<Rightarrow> (ack_db, unit) eff" where
  "executeEntityStatusSingleUpdate spec entity = db_update (update_entities spec [entity])"

text \<open>The request ids whose update succeeded and those whose update failed.\<close>

type_synonym req_ids = "string set \<times> string set"

fun flush_singles :: "entityUpdateSpec \<Rightarrow> pendingEntityUpdate list \<Rightarrow> req_ids \<Rightarrow> (ack_db, req_ids) eff" where
  "flush_singles spec [] ids = eff_return ids"
| "flush_singles spec (item # items) (succ, fail) =
     bind_eff (try_eff (executeEntityStatusSingleUpdate spec (entityID item))) (\<lambda>r.
       case r of
         Inl _ \<Rightarrow> flush_singles spec items (succ, insert (requestID item) fail)
       | Inr _ \<Rightarrow> flush_singles spec items (insert (requestID item) succ, fail))"

definition flush_batch :: "entityUpdateSpec \<Rightarrow> pendingEntityUpdate list \<Rightarrow> req_ids \<Rightarrow> (ack_db, req_ids) eff" where
  "flush_batch spec batch ids =
     (let entityIDs = map entityID batch;
          succeeded = eff_return (fst ids \<union> set (map requestID batch), snd ids) in
      bind_eff (try_eff (executeEntityStatusBatchUpdate spec entityIDs)) (\<lambda>r.
        case r of
          Inr _ \<Rightarrow> succeeded
        | Inl _ \<Rightarrow>
            bind_eff (try_eff (executeEntityStatusBatchUpdate spec entityIDs)) (\<lambda>retry.
              case retry of
                Inr _ \<Rightarrow> succeeded
              | Inl _ \<Rightarrow> flush_singles spec batch ids)))"

fun flush_batches ::
  "(entityUpdateSpec \<times> pendingEntityUpdate list) list \<Rightarrow> req_ids \<Rightarrow> (ack_db, req_ids) eff" where
  "flush_batches [] ids = eff_return ids"
| "flush_batches ((spec, batch) # bs) ids = bind_eff (flush_batch spec batch ids) (flush_batches bs)"

record ack_orders =
  order_entities :: "(string \<times> (string \<times> ChangeFlagAck list) list) list \<Rightarrow> (string \<times> (string \<times> ChangeFlagAck list) list) list"
  order_requests :: "(string \<times> ChangeFlagAck list) list \<Rightarrow> (string \<times> ChangeFlagAck list) list"
  order_updates :: "entityUpdateCollector \<Rightarrow> entityUpdateCollector"

definition flush :: "(string \<Rightarrow> string) \<Rightarrow> ack_orders \<Rightarrow> entityUpdateCollector \<Rightarrow> int \<Rightarrow> (ack_db, req_ids) eff" where
  "flush env orders updates batchSize =
     (let n = nat (if batchSize \<le> 0 then getEntityUpdateBatchSize env else batchSize) in
      flush_batches (concat (map (\<lambda>(key, items). map (\<lambda>b. (key, b)) (step_batches n items)) (order_updates orders updates)))
        ({}, {}))"

section \<open>The requests of a page\<close>

type_synonym ack_map = "(string \<times> (string \<times> ChangeFlagAck list) list) list"

definition put_ack :: "ChangeFlagAck \<Rightarrow> ack_map \<Rightarrow> ack_map" where
  "put_ack ack m =
     (let byRequest = (case map_of m (EntityId ack) of None \<Rightarrow> [] | Some byRequest \<Rightarrow> byRequest) in
      AList.update (EntityId ack) (group_append (AckRequestId ack) ack byRequest) m)"

definition prepareMapOfEntityIdToRequestIdToAck :: "ChangeFlagAck list \<Rightarrow> ack_map" where
  "prepareMapOfEntityIdToRequestIdToAck acks = fold put_ack acks []"

definition put_request ::
  "ChangeFlagRequest \<Rightarrow> (string \<times> ChangeFlagRequest list) list \<Rightarrow> (string \<times> ChangeFlagRequest list) list" where
  "put_request cf = group_append (CfEntityId cf) cf"

fun get_requests :: "string list list \<Rightarrow> (ack_db, ChangeFlagRequest list) eff" where
  "get_requests [] = eff_return []"
| "get_requests (b # bs) =
     bind_eff (GetChangeFlagRequest b) (\<lambda>cf. bind_eff (get_requests bs) (\<lambda>rest. eff_return (cf @ rest)))"

definition getChangeFlagsForEntities ::
  "(string \<Rightarrow> string) \<Rightarrow> ack_orders \<Rightarrow> ack_map \<Rightarrow> int \<Rightarrow> (ack_db, (string \<times> ChangeFlagRequest list) list) eff" where
  "getChangeFlagsForEntities env orders m queryBatchSize =
     (if m = [] then eff_return []
      else
        (let entities = map fst (order_entities orders m);
             n = nat (if queryBatchSize \<le> 0 then getQueryBatchSize env else queryBatchSize) in
         bind_eff (get_requests (step_batches n entities)) (\<lambda>changeFlags.
           eff_return (fold put_request changeFlags []))))"

text \<open>The latest acknowledged request: the first of the largest timestamp.\<close>

fun latest_request ::
  "(string \<times> ChangeFlagAck list) list \<Rightarrow> ChangeFlagRequest list \<Rightarrow> ChangeFlagRequest option \<Rightarrow> ChangeFlagRequest option" where
  "latest_request byRequest [] latest = latest"
| "latest_request byRequest (cf # cfs) latest =
     (if map_of byRequest (RequestId cf) = None then latest_request byRequest cfs latest
      else (case latest of
              None \<Rightarrow> latest_request byRequest cfs (Some cf)
            | Some l \<Rightarrow> latest_request byRequest cfs (if CfTimestamp l < CfTimestamp cf then Some cf else latest)))"

definition latest_requests :: "(string \<times> ChangeFlagRequest list) list \<Rightarrow> ack_map \<Rightarrow> (string \<times> string) list" where
  "latest_requests flags m =
     concat (map (\<lambda>(entityId, cfs).
       case map_of m entityId of
         None \<Rightarrow> []
       | Some byRequest \<Rightarrow>
           (case latest_request byRequest cfs None of
              None \<Rightarrow> []
            | Some cf \<Rightarrow> [(entityId, RequestId cf)])) flags)"

text \<open>The acknowledged requests of an entity that are not the latest one.\<close>

definition superseded :: "(string \<times> string) list \<Rightarrow> ack_map \<Rightarrow> string \<times> ChangeFlagRequest list \<Rightarrow> string set" where
  "superseded latest m = (\<lambda>(entityId, cfs).
     case map_of m entityId of
       None \<Rightarrow> {}
     | Some byRequest \<Rightarrow>
         (let latestRequestID = (case map_of latest entityId of None \<Rightarrow> '''' | Some r \<Rightarrow> r) in
          set (map RequestId (filter (\<lambda>cf. map_of byRequest (RequestId cf) \<noteq> None
                                            \<and> latestRequestID \<noteq> RequestId cf) cfs))))"

definition getLatestEntityToRequestId ::
  "(string \<times> ChangeFlagRequest list) list \<Rightarrow> ack_map \<Rightarrow> (string \<times> string) list \<times> string set" where
  "getLatestEntityToRequestId flags m =
     (let latest = latest_requests flags m in (latest, \<Union> (superseded latest m ` set flags)))"

text \<open>The acknowledgement that decides: the last failure, else the first of the largest timestamp.\<close>

fun relevant_loop :: "ChangeFlagAck list \<Rightarrow> nat \<Rightarrow> ChangeFlagAck \<Rightarrow> ChangeFlagAck" where
  "relevant_loop [] errorAckCount acknowledgement = acknowledgement"
| "relevant_loop (aa # acks) errorAckCount acknowledgement =
     (if Status aa = AckFailure then relevant_loop acks (Suc errorAckCount) aa
      else if errorAckCount = 0 \<and> Timestamp acknowledgement < Timestamp aa
      then relevant_loop acks errorAckCount aa
      else relevant_loop acks errorAckCount acknowledgement)"

definition zero_ack :: ChangeFlagAck where
  "zero_ack = \<lparr>Id = '''', AckRequestId = '''', EntityId = '''', Status = '''', EntityType = '''', EntityVersion = '''',
     ServiceName = '''', TenantId = '''', Action = '''', Timestamp = '''', AckError = '''', ProcessStatus = ''''\<rparr>"

definition getRelevantAcknowledgement :: "ChangeFlagAck list \<Rightarrow> ChangeFlagAck" where
  "getRelevantAcknowledgement acks =
     (case acks of [] \<Rightarrow> zero_ack | a # _ \<Rightarrow> relevant_loop acks 0 a)"

section \<open>Processing a page\<close>

text \<open>The first loop of \<open>startProcessing\<close>: the updates, the failed and the suppressed request ids.\<close>

fun collect_updates ::
  "(string \<times> string) list \<Rightarrow> ack_map \<Rightarrow> entityUpdateCollector \<times> string set \<times> string set
     \<Rightarrow> entityUpdateCollector \<times> string set \<times> string set" where
  "collect_updates latest [] acc = acc"
| "collect_updates latest ((entityId, byRequest) # m) (collector, failed, suppressed) =
     (case map_of latest entityId of
        None \<Rightarrow> collect_updates latest m (collector, failed, suppressed)
      | Some latestReqId \<Rightarrow>
          if latestReqId = '''' then collect_updates latest m (collector, failed, suppressed)
          else
            (let ack = getRelevantAcknowledgement (group_members byRequest latestReqId) in
             case entityUpdateSpecForAck ack of
               Inl SuppressUnsupported \<Rightarrow>
                 collect_updates latest m (collector, failed, insert (AckRequestId ack) suppressed)
             | Inl (UnsupportedEntityType _) \<Rightarrow>
                 collect_updates latest m (collector, insert (AckRequestId ack) failed, suppressed)
             | Inr spec \<Rightarrow>
                 collect_updates latest m
                   (collector_add spec (EntityId ack) (AckRequestId ack) collector, failed, suppressed)))"

definition startProcessing ::
  "(string \<Rightarrow> string) \<Rightarrow> ack_orders \<Rightarrow> ack_map \<Rightarrow> (string \<times> string) list \<Rightarrow> int
     \<Rightarrow> (ack_db, string set \<times> string set \<times> string set) eff" where
  "startProcessing env orders m latest entityUpdateBatchSize =
     (let (collector, failed, suppressed) =
            collect_updates latest (order_entities orders m) (newEntityUpdateCollector, {}, {}) in
      bind_eff (flush env orders collector entityUpdateBatchSize) (\<lambda>(batchSuccessful, batchFailed).
        eff_return (batchSuccessful, failed \<union> batchFailed, suppressed)))"

text \<open>Every batch is tried; the last error is returned.\<close>

fun mark_batches :: "(string list \<Rightarrow> (ack_db, unit) eff) \<Rightarrow> string list list \<Rightarrow> go_error option \<Rightarrow> (ack_db, unit) eff" where
  "mark_batches markFn [] markErr = (case markErr of None \<Rightarrow> eff_return () | Some e \<Rightarrow> eff_fail e)"
| "mark_batches markFn (b # bs) markErr =
     bind_eff (try_eff (markFn b)) (\<lambda>r.
       mark_batches markFn bs (case r of Inl e \<Rightarrow> Some e | Inr _ \<Rightarrow> markErr))"

definition markAcksByIDs ::
  "(string \<Rightarrow> string) \<Rightarrow> ChangeFlagAck list \<Rightarrow> int \<Rightarrow> (string list \<Rightarrow> (ack_db, unit) eff) \<Rightarrow> (ack_db, unit) eff" where
  "markAcksByIDs env acks batchSize markFn =
     (if acks = [] then eff_return ()
      else mark_batches markFn
             (step_batches (nat (if batchSize \<le> 0 then getQueryBatchSize env else batchSize)) (map Id acks)) None)"

text \<open>The acknowledgements of the page whose request id is in a set.\<close>

definition acks_of :: "ack_orders \<Rightarrow> ack_map \<Rightarrow> string set \<Rightarrow> ChangeFlagAck list" where
  "acks_of orders m ids =
     concat (map (\<lambda>(_, byRequest).
       concat (map (\<lambda>(reqId, acks). if reqId \<in> ids then acks else []) (order_requests orders byRequest)))
       (order_entities orders m))"

definition markAllAcks ::
  "(string \<Rightarrow> string) \<Rightarrow> ack_orders \<Rightarrow> ack_map \<Rightarrow> string set \<Rightarrow> string set \<Rightarrow> string set \<Rightarrow> int \<Rightarrow> (ack_db, unit) eff" where
  "markAllAcks env orders m successful failed suppressed queryBatchSize =
     bind_eff (markAcksByIDs env (acks_of orders m successful) queryBatchSize MarkAcksProcessed) (\<lambda>_.
     bind_eff (markAcksByIDs env (acks_of orders m failed) queryBatchSize MarkAcksError) (\<lambda>_.
       markAcksByIDs env (acks_of orders m suppressed) queryBatchSize MarkAcksSuppressed))"

definition processAckPage ::
  "(string \<Rightarrow> string) \<Rightarrow> ack_orders \<Rightarrow> ChangeFlagAck list \<Rightarrow> int \<Rightarrow> int \<Rightarrow> (ack_db, unit) eff" where
  "processAckPage env orders acks queryBatchSize entityUpdateBatchSize =
     (let m = prepareMapOfEntityIdToRequestIdToAck acks in
      bind_eff (getChangeFlagsForEntities env orders m queryBatchSize) (\<lambda>flags.
        let (latest, suppressed) = getLatestEntityToRequestId flags m in
        bind_eff (startProcessing env orders m latest entityUpdateBatchSize)
          (\<lambda>(successful, failed, unsupported).
            markAllAcks env orders m successful failed (suppressed \<union> unsupported) queryBatchSize)))"

section \<open>Paging\<close>

text \<open>
  The loop of \<open>forEachEntityPage\<close>: \<open>fuel\<close> bounds the number of pages; the handler gets the ids of
  the page and its number.
\<close>

fun entity_page_loop ::
  "nat \<Rightarrow> int \<Rightarrow> (string \<Rightarrow> int \<Rightarrow> ('s, string list) eff) \<Rightarrow> (string list \<Rightarrow> nat \<Rightarrow> ('s, unit) eff)
     \<Rightarrow> string \<Rightarrow> nat \<Rightarrow> ('s, nat) eff" where
  "entity_page_loop 0 pageSize fetchEntityIds onPage lastEntityID pagesProcessed = eff_out_of_fuel"
| "entity_page_loop (Suc fuel) pageSize fetchEntityIds onPage lastEntityID pagesProcessed =
     bind_eff (fetchEntityIds lastEntityID pageSize) (\<lambda>entityIds.
       if entityIds = [] then eff_return pagesProcessed
       else bind_eff (onPage entityIds (Suc pagesProcessed)) (\<lambda>_.
              entity_page_loop fuel pageSize fetchEntityIds onPage (last entityIds) (Suc pagesProcessed)))"

definition forEachEntityPage ::
  "nat \<Rightarrow> (string \<Rightarrow> string) \<Rightarrow> int \<Rightarrow> (string \<Rightarrow> int \<Rightarrow> ('s, string list) eff)
     \<Rightarrow> (string list \<Rightarrow> nat \<Rightarrow> ('s, unit) eff) \<Rightarrow> ('s, nat) eff" where
  "forEachEntityPage fuel env pageSize fetchEntityIds onPage =
     entity_page_loop fuel (if pageSize \<le> 0 then getEntityPageSize env else pageSize) fetchEntityIds onPage '''' 0"

section \<open>The job\<close>

definition ackLookbackDurationEnv :: string where
  "ackLookbackDurationEnv = ''ACK_PROCESSOR_ACK_LOOKBACK_DURATION''"

definition parseAckLookbackDuration :: "string \<Rightarrow> go_error + duration" where
  "parseAckLookbackDuration rawDuration =
     (let durationValue = go_trim_space rawDuration in
      if durationValue = '''' then Inl (ackLookbackDurationEnv @ '' cannot be empty'')
      else if go_has_suffix durationValue ''d'' then
        (case go_atoi (go_trim_suffix durationValue ''d'') of
           None \<Rightarrow> Inl (''invalid day duration '' @ rawDuration)
         | Some days \<Rightarrow> Inr (wrap64 (wrap64 (days * 24) * Hour)))
      else
        (case go_parse_duration durationValue of
           None \<Rightarrow> Inl (''invalid duration '' @ rawDuration)
         | Some dur \<Rightarrow> Inr dur))"

definition getAckLookbackStart :: "(string \<Rightarrow> string) \<Rightarrow> go_time \<Rightarrow> go_error + go_time option" where
  "getAckLookbackStart env now =
     (let rawDuration = go_trim_space (env ackLookbackDurationEnv) in
      if rawDuration = '''' then Inr None
      else
        (case parseAckLookbackDuration rawDuration of
           Inl e \<Rightarrow> Inl e
         | Inr dur \<Rightarrow> if dur \<le> 0 then Inl (ackLookbackDurationEnv @ '' must be greater than zero'')
                      else Inr (Some (now - dur))))"

text \<open>The handler of a page.\<close>

definition ack_page ::
  "(string \<Rightarrow> string) \<Rightarrow> ack_orders \<Rightarrow> go_time \<Rightarrow> go_time option \<Rightarrow> string list \<Rightarrow> nat \<Rightarrow> (ack_db, unit) eff" where
  "ack_page env orders t lookbackStart entityIds pageNum =
     bind_eff (GetChangeFlagsByEntityIds entityIds t lookbackStart) (\<lambda>acks.
       processAckPage env orders acks (getQueryBatchSize env) (getEntityUpdateBatchSize env))"

definition ProcessAck ::
  "nat \<Rightarrow> (string \<Rightarrow> string) \<Rightarrow> ack_orders \<Rightarrow> go_time \<Rightarrow> (ack_db, JobResult) eff" where
  "ProcessAck fuel env orders now =
     (let olderThan = GetEnvInt env ''ACK_PROCESSOR_ACK_READ_OLDER_THAN_SECONDS'' 60;
          t = now + wrap64 (wrap64 (- olderThan) * Second) in
      case getAckLookbackStart env now of
        Inl e \<Rightarrow> eff_return (NewJobResultFromErrors [\<lparr>Message = ''error while parsing ack lookback duration: '' @ e\<rparr>])
      | Inr lookbackStart \<Rightarrow>
          bind_eff (try_eff (forEachEntityPage fuel env (getEntityPageSize env)
             (GetDistinctEntityIdsToProcess t lookbackStart) (ack_page env orders t lookbackStart))) (\<lambda>paged.
            case paged of
              Inl e \<Rightarrow>
                eff_return (NewJobResultFromErrors [\<lparr>Message = ''error while processing acknowledgement pages: '' @ e\<rparr>])
            | Inr totalPages \<Rightarrow>
                bind_eff (try_eff (DeleteRecords (t - Hour))) (\<lambda>deleted.
                  case deleted of
                    Inl e \<Rightarrow>
                      eff_return (NewJobResultFromErrors [\<lparr>Message = ''error while deleting old records: '' @ e\<rparr>])
                  | Inr _ \<Rightarrow> eff_return NewJobResultSuccess)))"

section \<open>The acknowledgement that decides\<close>

lemma relevant_loop_mem: "relevant_loop acks n a \<in> insert a (set acks)"
  by (induction acks n a rule: relevant_loop.induct) auto

lemma relevant_loop_failed: "n \<noteq> 0 \<Longrightarrow> Status a = AckFailure \<Longrightarrow> Status (relevant_loop acks n a) = AckFailure"
  by (induction acks n a rule: relevant_loop.induct) auto

lemma relevant_loop_failure:
  "\<exists>aa \<in> set acks. Status aa = AckFailure \<Longrightarrow> Status (relevant_loop acks n a) = AckFailure"
  by (induction acks n a rule: relevant_loop.induct) (auto simp: relevant_loop_failed)

lemma relevant_loop_latest:
  assumes "\<forall>aa \<in> set acks. Status aa \<noteq> AckFailure"
  shows "\<forall>aa \<in> insert a (set acks). Timestamp aa \<le> Timestamp (relevant_loop acks 0 a)"
  using assms
proof (induction acks arbitrary: a)
  case (Cons aa acks)
  show ?case
  proof (cases "Timestamp a < Timestamp aa")
    case True
    with Cons.IH [of aa] Cons.prems show ?thesis by fastforce
  next
    case False
    with Cons.IH [of a] Cons.prems show ?thesis by fastforce
  qed
qed simp

text \<open>Among the acknowledgements of a request a failure decides: the acknowledgement chosen is one
  of them, it is a failure exactly when some service reported a failure, and otherwise no other one has
  a later timestamp.\<close>

theorem getRelevantAcknowledgement_decides:
  assumes "acks \<noteq> []"
  shows "getRelevantAcknowledgement acks \<in> set acks
    \<and> ((Status (getRelevantAcknowledgement acks) = AckFailure) = (\<exists>a \<in> set acks. Status a = AckFailure))
    \<and> ((\<exists>a \<in> set acks. Status a = AckFailure)
       \<or> (\<forall>a \<in> set acks. Timestamp a \<le> Timestamp (getRelevantAcknowledgement acks)))"
proof -
  obtain a as where acks: "acks = a # as" using assms by (cases acks) auto
  have r: "getRelevantAcknowledgement acks = relevant_loop acks 0 a"
    by (simp only: getRelevantAcknowledgement_def acks list.case)
  have "getRelevantAcknowledgement acks \<in> set acks"
    using relevant_loop_mem [of acks 0 a] unfolding r by (metis acks insertE list.set_intros(1))
  moreover have "Status (getRelevantAcknowledgement acks) = AckFailure" if "\<exists>a \<in> set acks. Status a = AckFailure"
    using relevant_loop_failure [OF that] by (simp add: r)
  ultimately show ?thesis using relevant_loop_latest [of acks a] r by auto
qed

definition example_ack :: "string \<Rightarrow> string \<Rightarrow> string \<Rightarrow> string \<Rightarrow> ChangeFlagAck" where
  "example_ack i r st ts = zero_ack\<lparr>Id := i, AckRequestId := r, EntityId := ''e1'', EntityType := ''rule'', Status := st,
     Timestamp := ts, ProcessStatus := StatusPending\<rparr>"

theorem getRelevantAcknowledgement_decides_witness:
  "Status (getRelevantAcknowledgement
     [example_ack ''1'' ''r'' AckSuccess ''t2'', example_ack ''2'' ''r'' AckFailure ''t1'']) = AckFailure"
  using getRelevantAcknowledgement_decides
    [of "[example_ack ''1'' ''r'' AckSuccess ''t2'', example_ack ''2'' ''r'' AckFailure ''t1'']"]
  by (simp add: example_ack_def)

section \<open>The latest request\<close>

lemma latest_request_spec:
  assumes "latest_request byRequest cfs latest = r"
  defines "acked \<equiv> filter (\<lambda>cf. map_of byRequest (RequestId cf) \<noteq> None) cfs"
  shows "(r = None \<longleftrightarrow> latest = None \<and> acked = []) \<and>
         (\<forall>l. r = Some l \<longrightarrow> l \<in> set acked \<union> set_option latest \<and>
              (\<forall>cf \<in> set acked \<union> set_option latest. CfTimestamp cf \<le> CfTimestamp l))"
  using assms
proof (induction byRequest cfs latest arbitrary: acked rule: latest_request.induct)
  case (2 byRequest cf cfs latest)
  show ?case
  proof (cases "map_of byRequest (RequestId cf)")
    case None
    with 2 show ?thesis by auto
  next
    case (Some acks)
    show ?thesis
    proof (cases latest)
      case None
      with 2 Some show ?thesis by auto
    next
      case l: (Some l)
      show ?thesis
      proof (cases "CfTimestamp l < CfTimestamp cf")
        case True
        with 2 Some l show ?thesis by (fastforce simp: less_imp_le)
      next
        case False
        with 2 Some l show ?thesis by (auto simp: not_less)
      qed
    qed
  qed
qed auto

lemma map_of_concat_key:
  assumes "\<And>k v p. p \<in> set (f (k, v)) \<Longrightarrow> fst p = k" and "distinct (map fst xs)" and "(k, v) \<in> set xs"
  shows "map_of (concat (map f xs)) k = map_of (f (k, v)) k"
  using assms(2,3)
proof (induction xs)
  case (Cons x xs)
  obtain k' v' where x: "x = (k', v')" by fastforce
  have miss: "map_of (f (k', v')) k = None" if "k' \<noteq> k"
    using assms(1) that by (metis map_of_eq_None_iff image_iff)
  have none: "map_of (concat (map f xs)) k = None" if "k \<notin> fst ` set xs"
    using assms(1) that unfolding map_of_eq_None_iff by (fastforce simp: image_iff)
  show ?case
  proof (cases "k' = k")
    case True
    then have "k \<notin> fst ` set xs" "v = v'" using Cons.prems x by (auto simp: rev_image_eqI)
    with none True x show ?thesis by (auto simp: map_add_def split: option.split)
  next
    case False
    with Cons x miss show ?thesis by (auto simp: map_add_def split: option.split)
  qed
qed simp

text \<open>The request taken as the latest of an entity is an acknowledged one of the largest
  timestamp, and every other acknowledged request of the entity is suppressed; without an acknowledged
  request the entity has no latest one.\<close>

theorem getLatestEntityToRequestId_latest:
  assumes "distinct (map fst flags)" and "(e, cfs) \<in> set flags" and "map_of m e = Some byRequest"
  shows "let (latest, suppressed) = getLatestEntityToRequestId flags m;
             acked = filter (\<lambda>cf. map_of byRequest (RequestId cf) \<noteq> None) cfs in
         (case map_of latest e of
            None \<Rightarrow> acked = []
          | Some r \<Rightarrow> list_ex (\<lambda>cf. RequestId cf = r \<and> list_all (\<lambda>cf'. CfTimestamp cf' \<le> CfTimestamp cf) acked) acked
                     \<and> list_all (\<lambda>cf. RequestId cf = r \<or> RequestId cf \<in> suppressed) acked)"
proof -
  let ?acked = "filter (\<lambda>cf. map_of byRequest (RequestId cf) \<noteq> None) cfs"
  let ?latest = "latest_requests flags m"
  let ?suppressed = "\<Union> (superseded ?latest m ` set flags)"
  have le: "map_of ?latest e =
      (case latest_request byRequest cfs None of None \<Rightarrow> None | Some cf \<Rightarrow> Some (RequestId cf))"
    unfolding latest_requests_def
    by (subst map_of_concat_key [OF _ assms(1,2)]) (auto simp: assms(3) split: option.splits)
  have sup: "RequestId cf \<in> ?suppressed" if "cf \<in> set ?acked" "map_of ?latest e = Some r" "RequestId cf \<noteq> r" for cf r
  proof -
    have "RequestId cf \<in> superseded ?latest m (e, cfs)" using that assms(3) by (auto simp: superseded_def)
    then show ?thesis using assms(2) by blast
  qed
  show ?thesis
  proof (cases "latest_request byRequest cfs None")
    case None
    with latest_request_spec [OF None] have "?acked = []" by simp
    moreover have "map_of ?latest e = None" using le None by simp
    ultimately show ?thesis by (simp add: getLatestEntityToRequestId_def Let_def)
  next
    case (Some l)
    then have r: "map_of ?latest e = Some (RequestId l)" using le by simp
    have "l \<in> set ?acked" "\<forall>cf \<in> set ?acked. CfTimestamp cf \<le> CfTimestamp l"
      using latest_request_spec [OF Some] by auto
    then show ?thesis
      using r sup [OF _ r] unfolding list_ex_iff list_all_iff getLatestEntityToRequestId_def Let_def by auto
  qed
qed

definition example_request :: "string \<Rightarrow> string \<Rightarrow> ChangeFlagRequest" where
  "example_request r ts = \<lparr>RequestId = r, CfEntityId = ''e1'', CfTimestamp = ts\<rparr>"

theorem getLatestEntityToRequestId_latest_witness:
  "let (latest, suppressed) = getLatestEntityToRequestId
         [(''e1'', [example_request ''r1'' ''t1'', example_request ''r2'' ''t2''])]
         [(''e1'', [(''r1'', []), (''r2'', [])])];
       acked = filter (\<lambda>cf. map_of [(''r1'', []), (''r2'', [] :: ChangeFlagAck list)] (RequestId cf) \<noteq> None)
         [example_request ''r1'' ''t1'', example_request ''r2'' ''t2''] in
     (case map_of latest ''e1'' of
        None \<Rightarrow> acked = []
      | Some r \<Rightarrow> list_ex (\<lambda>cf. RequestId cf = r \<and> list_all (\<lambda>cf'. CfTimestamp cf' \<le> CfTimestamp cf) acked) acked
                 \<and> list_all (\<lambda>cf. RequestId cf = r \<or> RequestId cf \<in> suppressed) acked)"
  by (rule getLatestEntityToRequestId_latest) simp_all

section \<open>Updating the entities\<close>

lemma flush_singles_ids:
  "flush_singles spec items ids db = (Ok ids', db') \<Longrightarrow>
     fst ids' \<union> snd ids' = fst ids \<union> snd ids \<union> set (map requestID items)"
proof (induction spec items ids arbitrary: db rule: flush_singles.induct)
  case (2 spec item items succ fail)
  from "2.prems" obtain r db1 where
    "try_eff (executeEntityStatusSingleUpdate spec (entityID item)) db = (Ok r, db1)"
    and "(case r of Inl _ \<Rightarrow> flush_singles spec items (succ, insert (requestID item) fail)
       | Inr _ \<Rightarrow> flush_singles spec items (insert (requestID item) succ, fail)) db1 = (Ok ids', db')"
    by (auto simp: bind_eff_Ok)
  with "2.IH" show ?case by (cases r) auto
qed simp

lemma flush_batch_ids:
  assumes "flush_batch spec batch ids db = (Ok ids', db')"
  shows "fst ids' \<union> snd ids' = fst ids \<union> snd ids \<union> set (map requestID batch)"
proof -
  let ?succeeded = "(fst ids \<union> set (map requestID batch), snd ids)"
  let ?update = "try_eff (executeEntityStatusBatchUpdate spec (map entityID batch))"
  from assms obtain r db1 where "?update db = (Ok r, db1)"
    and r: "(case r of Inr _ \<Rightarrow> eff_return ?succeeded
        | Inl _ \<Rightarrow> bind_eff ?update (\<lambda>retry. case retry of Inr _ \<Rightarrow> eff_return ?succeeded
              | Inl _ \<Rightarrow> flush_singles spec batch ids)) db1 = (Ok ids', db')"
    unfolding flush_batch_def Let_def bind_eff_Ok by blast
  show ?thesis
  proof (cases r)
    case (Inl e)
    with r obtain r2 :: "go_error + unit" and db2 where r2: "(case r2 of Inr _ \<Rightarrow> eff_return ?succeeded
              | Inl _ \<Rightarrow> flush_singles spec batch ids) db2 = (Ok ids', db')"
      by (simp only: sum.case bind_eff_Ok) blast
    show ?thesis
    proof (cases r2)
      case (Inl e2)
      with r2 have "flush_singles spec batch ids db2 = (Ok ids', db')" by simp
      from flush_singles_ids [OF this] show ?thesis .
    qed (use r2 in auto)
  qed (use r in auto)
qed

lemma flush_batches_ids:
  "flush_batches bs ids db = (Ok ids', db') \<Longrightarrow>
     fst ids' \<union> snd ids' = fst ids \<union> snd ids \<union> (\<Union>(spec, b) \<in> set bs. requestID ` set b)"
proof (induction bs ids arbitrary: db rule: flush_batches.induct)
  case (2 spec batch bs ids)
  then obtain ids1 db1 where "flush_batch spec batch ids db = (Ok ids1, db1)"
    and "flush_batches bs ids1 db1 = (Ok ids', db')" by (auto simp: bind_eff_Ok)
  with "2.IH" [of ids1 db1] flush_batch_ids [of spec batch ids db ids1 db1] show ?case by auto
qed simp

text \<open>An update fails only by its database operation: the flush itself always ends with a result.\<close>

lemma db_update_cases: "(\<exists>db'. db_update f db = (Ok (), db')) \<or> (\<exists>e db'. db_update f db = (Err e, db'))"
  by (auto simp: db_update_def Let_def split: option.splits)

lemma try_update_Ok: "\<exists>r db'. try_eff (db_update f) db = (Ok r, db')"
  using db_update_cases [of f db] by (auto simp: try_eff_def)

lemma flush_singles_Ok: "\<exists>ids' db'. flush_singles spec items ids db = (Ok ids', db')"
proof (induction spec items ids arbitrary: db rule: flush_singles.induct)
  case (2 spec item items succ fail)
  obtain r db1 where "try_eff (executeEntityStatusSingleUpdate spec (entityID item)) db = (Ok r, db1)"
    unfolding executeEntityStatusSingleUpdate_def using try_update_Ok by blast
  with 2 show ?case by (cases r) (auto simp: bind_eff_def)
qed simp

lemma flush_batch_Ok: "\<exists>ids' db'. flush_batch spec batch ids db = (Ok ids', db')"
proof -
  have "\<exists>r db'. try_eff (executeEntityStatusBatchUpdate spec b) db = (Ok r, db')" for b db
    unfolding executeEntityStatusBatchUpdate_def using try_update_Ok by (auto simp: try_eff_def)
  then obtain r db1 r2 db2 where "try_eff (executeEntityStatusBatchUpdate spec (map entityID batch)) db = (Ok r, db1)"
    "try_eff (executeEntityStatusBatchUpdate spec (map entityID batch)) db1 = (Ok r2, db2)" by meson
  then show ?thesis
    using flush_singles_Ok [of spec batch ids db2] by (cases r; cases r2) (auto simp: flush_batch_def bind_eff_def Let_def)
qed

lemma flush_batches_Ok: "\<exists>ids' db'. flush_batches bs ids db = (Ok ids', db')"
proof (induction bs ids arbitrary: db rule: flush_batches.induct)
  case (2 spec batch bs ids)
  obtain ids1 db1 where "flush_batch spec batch ids db = (Ok ids1, db1)" using flush_batch_Ok by blast
  with 2 show ?case by (simp add: bind_eff_def)
qed simp

lemma batched_items:
  assumes "0 < n"
  shows "(\<Union>(spec, b) \<in> set (concat (map (\<lambda>(key, items). map (\<lambda>b. (key, b)) (step_batches n items)) c)). f ` set b)
           = (\<Union>(spec, items) \<in> set c. f ` set items)"
proof (induction c)
  case (Cons x c)
  obtain key items where x: "x = (key, items)" by fastforce
  have "(\<Union>(spec, b) \<in> set (map (\<lambda>b. (key, b)) (step_batches n items)). f ` set b) = f ` set items"
    using sb.batches_set [OF assms, of items] by auto
  with Cons show ?case by (simp add: x UN_Un)
qed simp


definition example_orders :: ack_orders where
  "example_orders = \<lparr>order_entities = (\<lambda>xs. xs), order_requests = (\<lambda>xs. xs), order_updates = (\<lambda>xs. xs)\<rparr>"

definition example_db :: ack_db where
  "example_db = \<lparr>ack_rows = [example_ack ''1'' ''r1'' AckSuccess ''t1'', example_ack ''2'' ''r2'' AckFailure ''t2''],
     request_rows = [example_request ''r1'' ''t1'', example_request ''r2'' ''t2''],
     entity_rows = [((''vc_rule'', ''e1''), ''PENDING''), ((''vc_rule'', ''e2''), ''DELETED'')],
     operations = 0, fault = (\<lambda>n. if n = 0 then Some ''timeout'' else None), time_of = (\<lambda>_. 0)\<rparr>"


end
