(* ===== verification/Ack_Safety.thy ===== *)
theory Ack_Safety
  imports Ack_Process "HOL-Library.Sublist"
begin

text \<open>
  What a run of the acknowledgement processor leaves alone, and its walk over the entities.

  The first part shows which rows the updates can change: deleted entities of the guarded tables stay
  deleted, requests are not written, and an acknowledgement changes only in its process status.  The
  second part relates the cursor paging of \<open>forEachEntityPage\<close> to a walk over the batches of the
  entity ids that were pending when the run started.
\<close>

section \<open>Rows that stay\<close>

text \<open>An acknowledgement without its process status.\<close>

definition ack_key :: "ChangeFlagAck \<Rightarrow> ChangeFlagAck" where
  "ack_key a = a\<lparr>ProcessStatus := ''''\<rparr>"

definition unguarded_tables :: "string list" where
  "unguarded_tables = [''lookup'', ''insights_rule'']"

text \<open>A deleted entity of a guarded table stays deleted.\<close>

definition entity_kept :: "(string \<times> string) \<times> string \<Rightarrow> (string \<times> string) \<times> string \<Rightarrow> bool" where
  "entity_kept x y \<longleftrightarrow> fst y = fst x
     \<and> (fst (fst x) \<notin> set unguarded_tables \<and> snd x = StatusDeleted \<longrightarrow> snd y = StatusDeleted)"

definition rows_kept :: "ack_db \<Rightarrow> ack_db \<Rightarrow> bool" where
  "rows_kept db db' \<longleftrightarrow> request_rows db' = request_rows db \<and> list_all2 entity_kept (entity_rows db) (entity_rows db')
     \<and> subseq (map ack_key (ack_rows db')) (map ack_key (ack_rows db))"

lemma preorder_rows_kept: "preorder_rel rows_kept"
proof -
  have "list_all2 entity_kept xs zs" if "list_all2 entity_kept xs ys" "list_all2 entity_kept ys zs" for xs ys zs
    by (rule list_all2_trans [OF _ that]) (auto simp: entity_kept_def)
  moreover have "list_all2 entity_kept xs xs" for xs
    by (simp add: list_all2_refl entity_kept_def)
  moreover have "subseq xs zs" if "subseq xs ys" "subseq ys zs" for xs ys zs :: "ChangeFlagAck list"
    using that by (rule subseq_order.order_trans)
  ultimately show ?thesis
    unfolding preorder_rel_def rows_kept_def by (metis subseq_order.order_refl)
qed

lemmas rows_kept_rules =
  keeps_simple [OF preorder_rows_kept] keeps_bind [OF preorder_rows_kept] keeps_try

lemma keeps_db_query: "preorder_rel R \<Longrightarrow> (\<And>db n. R db (db\<lparr>operations := n\<rparr>)) \<Longrightarrow> keeps R (db_query f)"
  by (auto simp: keeps_def db_query_def Let_def split: option.split)

lemma keeps_db_update:
  "(\<And>db n. R db (db\<lparr>operations := n\<rparr>)) \<Longrightarrow> (\<And>db n. R db (f (db\<lparr>operations := n\<rparr>))) \<Longrightarrow> keeps R (db_update f)"
  by (auto simp: keeps_def db_update_def Let_def split: option.split)

lemma rows_kept_operations: "rows_kept db (db\<lparr>operations := n\<rparr>)"
  by (simp add: rows_kept_def list_all2_refl entity_kept_def)

lemma query_rows_kept: "keeps rows_kept (db_query f)"
  by (rule keeps_db_query [OF preorder_rows_kept]) (rule rows_kept_operations)

subsection \<open>Entity updates\<close>

definition guarded_spec :: "entityUpdateSpec \<Rightarrow> bool" where
  "guarded_spec spec \<longleftrightarrow> guardKind spec = guardExcludeDeleted \<or> table spec \<in> set unguarded_tables"

lemma entityUpdateSpecForAck_guarded: "entityUpdateSpecForAck ack = Inr spec \<Longrightarrow> guarded_spec spec"
  by (auto simp: entityUpdateSpecForAck_def spec_of_def Let_def guarded_spec_def unguarded_tables_def split: if_splits)

lemma update_entities_kept:
  assumes "guarded_spec spec"
  shows "rows_kept db (update_entities spec ids (db\<lparr>operations := n\<rparr>))"
  using assms
  by (auto simp: rows_kept_def update_entities_def list_all2_map2 entity_kept_def guarded_spec_def
      split: prod.split intro!: list_all2_refl)

lemma entity_update_kept:
  assumes "guarded_spec spec"
  shows "keeps rows_kept (executeEntityStatusBatchUpdate spec ids)" "keeps rows_kept (executeEntityStatusSingleUpdate spec i)"
  unfolding executeEntityStatusBatchUpdate_def executeEntityStatusSingleUpdate_def
  using assms by (auto intro!: keeps_db_update rows_kept_operations update_entities_kept rows_kept_rules)

lemma flush_singles_kept: "guarded_spec spec \<Longrightarrow> keeps rows_kept (flush_singles spec items ids)"
  by (induction spec items ids rule: flush_singles.induct)
    (auto intro!: rows_kept_rules entity_update_kept split: sum.split)

lemma flush_batch_kept: "guarded_spec spec \<Longrightarrow> keeps rows_kept (flush_batch spec batch ids)"
  unfolding flush_batch_def Let_def
  by (auto intro!: rows_kept_rules entity_update_kept flush_singles_kept split: sum.split)

lemma flush_batches_kept:
  "\<forall>(spec, b) \<in> set bs. guarded_spec spec \<Longrightarrow> keeps rows_kept (flush_batches bs ids)"
  by (induction bs ids rule: flush_batches.induct) (auto intro!: rows_kept_rules flush_batch_kept)

lemma collect_updates_guarded:
  "\<forall>spec \<in> fst ` set (fst acc). guarded_spec spec \<Longrightarrow>
     \<forall>spec \<in> fst ` set (fst (collect_updates latest m acc)). guarded_spec spec"
proof (induction latest m acc rule: collect_updates.induct)
  case (2 latest entityId byRequest m collector failed suppressed)
  show ?case
    using 2 by (auto simp: Let_def collector_add_def group_append_def entityUpdateSpecForAck_guarded
        split: option.split sum.split spec_error.split)
qed simp

lemma startProcessing_kept:
  assumes "range_order (order_updates orders)"
  shows "keeps rows_kept (startProcessing env orders m latest n)"
proof -
  obtain c f s where c: "collect_updates latest (order_entities orders m) (newEntityUpdateCollector, {}, {}) = (c, f, s)"
    by (metis prod_cases3)
  have "\<forall>spec \<in> fst ` set c. guarded_spec spec"
    using collect_updates_guarded [of "(newEntityUpdateCollector, {}, {})" latest "order_entities orders m"]
    unfolding c by (simp add: newEntityUpdateCollector_def)
  then have "keeps rows_kept (flush env orders c n)"
    unfolding flush_def Let_def
    by (intro flush_batches_kept) (auto simp: range_order_set [OF assms])
  then show ?thesis unfolding startProcessing_def by (auto simp: c intro!: rows_kept_rules)
qed

subsection \<open>Marking\<close>

lemma set_process_status_kept: "keeps rows_kept (set_process_status st ids)"
  unfolding set_process_status_def
  by (intro keeps_db_update rows_kept_operations)
    (simp add: rows_kept_def list_all2_refl entity_kept_def comp_def ack_key_def [abs_def] if_distrib cong: if_cong)

lemma mark_batches_keeps:
  assumes "preorder_rel R" and "\<And>b. b \<in> set bs \<Longrightarrow> keeps R (mark b)"
  shows "keeps R (mark_batches mark bs e)"
  using assms(2)
proof (induction mark bs e rule: mark_batches.induct)
  case (1 mark e)
  show ?case by (auto intro: keeps_simple [OF assms(1)] split: option.split)
next
  case (2 mark b bs e)
  then show ?case by (auto intro!: keeps_bind [OF assms(1)] keeps_try)
qed

lemma markAcksByIDs_keeps:
  assumes "preorder_rel R" and "\<And>ids. set ids \<subseteq> Id ` set acks \<Longrightarrow> keeps R (mark ids)"
  shows "keeps R (markAcksByIDs env acks n mark)"
proof -
  let ?n = "nat (if n \<le> 0 then getQueryBatchSize env else n)"
  have "0 < ?n" using batch_sizes_positive(1) [of env] by auto
  then have "set b \<subseteq> Id ` set acks" if "b \<in> set (step_batches ?n (map Id acks))" for b
    using sb.batches_set [of ?n "map Id acks"] that by auto
  then show ?thesis unfolding markAcksByIDs_def
    by (cases "acks = []") (simp_all add: mark_batches_keeps keeps_simple assms)
qed

lemma markAllAcks_keeps:
  assumes "preorder_rel R"
    and "\<And>st ids. set ids \<subseteq> Id ` (\<Union>(_, byRequest) \<in> set (order_entities orders m).
            \<Union>(_, acks) \<in> set (order_requests orders byRequest). set acks) \<Longrightarrow> keeps R (set_process_status st ids)"
  shows "keeps R (markAllAcks env orders m s f u n)"
proof -
  let ?acks = "\<Union>(_, byRequest) \<in> set (order_entities orders m).
            \<Union>(_, acks) \<in> set (order_requests orders byRequest). set acks"
  have "set (acks_of orders m ids) \<subseteq> ?acks" for ids
    by (auto simp: acks_of_def split: if_splits)
  then have sub: "set ids' \<subseteq> Id ` ?acks" if "set ids' \<subseteq> Id ` set (acks_of orders m ids)" for ids ids'
    using that by (meson image_mono order_trans)
  then have "keeps R (markAcksByIDs env (acks_of orders m ids) n (set_process_status st))" for st ids
    by (intro markAcksByIDs_keeps assms) (erule sub)
  then show ?thesis unfolding markAllAcks_def MarkAcksProcessed_def [abs_def] MarkAcksError_def [abs_def] MarkAcksSuppressed_def [abs_def]
    by (auto intro!: keeps_bind [OF assms(1)])
qed

subsection \<open>A page\<close>

lemma get_requests_keeps:
  "preorder_rel R \<Longrightarrow> (\<And>db n. R db (db\<lparr>operations := n\<rparr>)) \<Longrightarrow> keeps R (get_requests bs)"
  by (induction bs) (auto intro!: keeps_bind keeps_simple keeps_db_query simp: GetChangeFlagRequest_def)

lemma getChangeFlagsForEntities_keeps:
  "preorder_rel R \<Longrightarrow> (\<And>db n. R db (db\<lparr>operations := n\<rparr>)) \<Longrightarrow> keeps R (getChangeFlagsForEntities env orders m n)"
  unfolding getChangeFlagsForEntities_def Let_def by (auto intro!: keeps_bind keeps_simple get_requests_keeps)

lemma processAckPage_kept:
  assumes "range_order (order_updates orders)"
  shows "keeps rows_kept (processAckPage env orders acks n k)"
  unfolding processAckPage_def Let_def
  by (auto intro!: rows_kept_rules getChangeFlagsForEntities_keeps preorder_rows_kept rows_kept_operations
      startProcessing_kept assms markAllAcks_keeps set_process_status_kept split: prod.split)

lemma entity_page_loop_keeps:
  assumes "preorder_rel R" and "\<And>c k. keeps R (fetch c k)" and "\<And>ids p. keeps R (onPage ids p)"
  shows "keeps R (entity_page_loop fuel k fetch onPage c p)"
  by (induction fuel arbitrary: c p) (auto intro!: keeps_simple keeps_bind assms)

text \<open>C11: Whatever operations of the database fail and however far a run of the acknowledgement
  processor gets, it never revives a deleted entity of a guarded table, writes no request, and removes or
  changes the process status of acknowledgements but alters nothing else of them.\<close>

theorem ProcessAck_rows_kept:
  assumes "range_order (order_updates orders)"
  shows "rows_kept db (snd (ProcessAck fuel env orders now db))"
proof -
  have ack_page: "keeps rows_kept (ack_page env orders t l ids p)" for t l ids p
    unfolding ack_page_def GetChangeFlagsByEntityIds_def
    by (auto intro!: rows_kept_rules query_rows_kept processAckPage_kept assms)
  have delete: "keeps rows_kept (DeleteRecords t)" for t
    unfolding DeleteRecords_def
    by (intro keeps_db_update rows_kept_operations)
      (simp add: rows_kept_def list_all2_refl entity_kept_def subseq_map)
  have "keeps rows_kept (ProcessAck fuel env orders now)"
    unfolding ProcessAck_def Let_def forEachEntityPage_def GetDistinctEntityIdsToProcess_def
    by (auto intro!: rows_kept_rules entity_page_loop_keeps preorder_rows_kept query_rows_kept ack_page delete
        split: sum.split)
  then show ?thesis by (simp add: keeps_def)
qed


theorem ProcessAck_rows_kept_witness:
  "rows_kept example_db (snd (ProcessAck 3 (\<lambda>_. '''') example_orders 0 example_db))"
  by (rule ProcessAck_rows_kept) (simp add: example_orders_def)

section \<open>The walk over the pages\<close>

lemma sorted_le_last: "sorted ys \<Longrightarrow> e \<in> set ys \<Longrightarrow> e \<le> last ys"
  by (induction ys) auto

text \<open>
  A walk over given pages that asks the database once before each page and once more at the end.
\<close>

fun walk_pages :: "('s, unit) eff \<Rightarrow> ('k list \<Rightarrow> nat \<Rightarrow> ('s, unit) eff) \<Rightarrow> 'k list list \<Rightarrow> nat \<Rightarrow> ('s, nat) eff" where
  "walk_pages ask onPage [] p = bind_eff ask (\<lambda>_. eff_return p)"
| "walk_pages ask onPage (ids # pages) p =
     bind_eff ask (\<lambda>_. bind_eff (onPage ids (Suc p)) (\<lambda>_. walk_pages ask onPage pages (Suc p)))"

text \<open>
  What \<open>forEachEntityPage\<close> relies on: the fetch returns the first \<open>size_of k\<close> of the sorted ids after the
  cursor, and handling a page does not change the ids after it.
\<close>

locale cursor_pager =
  fixes ids_of :: "'s \<Rightarrow> string list"
    and ask :: "('s, unit) eff"
    and fetch :: "string \<Rightarrow> int \<Rightarrow> ('s, string list) eff"
    and size_of :: "int \<Rightarrow> nat"
    and onPage :: "string list \<Rightarrow> nat \<Rightarrow> ('s, unit) eff"
    and inv :: "'s \<Rightarrow> bool"
  assumes ids_sorted: "sorted (ids_of s)" and ids_distinct: "distinct (ids_of s)"
    and ids_nonempty: "inv s \<Longrightarrow> '''' \<notin> set (ids_of s)"
    and size_positive: "0 < size_of k"
    and ask_keeps: "ask s = (r, s') \<Longrightarrow> ids_of s' = ids_of s \<and> (inv s \<longrightarrow> inv s')"
    and fetch_eq: "fetch c k = bind_eff ask (\<lambda>_ s. (Ok (take (size_of k) (filter (\<lambda>e. c \<noteq> '''' \<longrightarrow> c < e) (ids_of s))), s))"
    and onPage_keeps: "inv s \<Longrightarrow> set ids \<subseteq> set (ids_of s) \<Longrightarrow> onPage ids p s = (r, s') \<Longrightarrow>
        inv s' \<and> filter (\<lambda>e. e \<notin> set ids) (ids_of s') = filter (\<lambda>e. e \<notin> set ids) (ids_of s)"
begin

lemma filter_after_page:
  assumes "sorted xs" and "distinct xs" and "take n xs \<noteq> []"
  shows "filter (\<lambda>e. last (take n xs) < e) xs = drop n xs"
proof -
  have split: "xs = take n xs @ drop n xs" by simp
  have before: "e \<le> last (take n xs)" if "e \<in> set (take n xs)" for e
    using sorted_le_last [OF sorted_wrt_take [OF assms(1)] that] .
  have after: "last (take n xs) < e" if "e \<in> set (drop n xs)" for e
  proof -
    have l: "last (take n xs) \<in> set (take n xs)" using assms(3) by (rule last_in_set)
    have "last (take n xs) \<le> e" using assms(1) that l by (metis split sorted_append)
    moreover have "last (take n xs) \<noteq> e"
      using assms(2) that l by (metis split distinct_append disjoint_iff)
    ultimately show ?thesis by simp
  qed
  have "filter (\<lambda>e. last (take n xs) < e) (take n xs) = []"
    using before by (auto simp: filter_empty_conv not_less)
  moreover have "filter (\<lambda>e. last (take n xs) < e) (drop n xs) = drop n xs"
    using after by (simp add: filter_id_conv)
  ultimately have "filter (\<lambda>e. last (take n xs) < e) (take n xs @ drop n xs) = drop n xs"
    unfolding filter_append by simp
  then show ?thesis by simp
qed

text \<open>The ids after a page, before and after it is handled.\<close>

lemma next_ids:
  assumes "inv s" and "rest = filter (\<lambda>e. c \<noteq> '''' \<longrightarrow> c < e) (ids_of s)" and "rest \<noteq> []" and "0 < n"
    and "onPage (take n rest) p s = (r, s')"
  shows "filter (\<lambda>e. last (take n rest) \<noteq> '''' \<longrightarrow> last (take n rest) < e) (ids_of s') = drop n rest"
proof -
  let ?page = "take n rest"
  let ?c = "last ?page"
  have ne: "?page \<noteq> []" using assms(3,4) by simp
  have sub: "set ?page \<subseteq> set (ids_of s)" using assms(2) set_take_subset [of n rest] by auto
  have c: "?c \<in> set ?page" using ne by (rule last_in_set)
  then have cne: "?c \<noteq> ''''" using sub ids_nonempty [OF assms(1)] by (metis subsetD)
  have sorted: "sorted rest" "distinct rest"
    using assms(2) ids_sorted [of s] ids_distinct [of s] by (simp_all add: sorted_wrt_filter)
  have page: "e \<le> ?c" if "e \<in> set ?page" for e
    using sorted_le_last [OF sorted_wrt_take [OF sorted(1)] that] .
  then have "filter (\<lambda>e. ?c < e) ids = filter (\<lambda>e. ?c < e) (filter (\<lambda>e. e \<notin> set ?page) ids)" for ids
    unfolding filter_filter by (intro filter_cong) (auto simp: leD)
  then have "filter (\<lambda>e. ?c < e) (ids_of s') = filter (\<lambda>e. ?c < e) (ids_of s)"
    using onPage_keeps [OF assms(1) sub assms(5)] by metis
  also have "\<dots> = filter (\<lambda>e. ?c < e) rest"
  proof -
    have "c \<noteq> '''' \<longrightarrow> c < ?c" using c assms(2) by (auto dest: in_set_takeD)
    then show ?thesis unfolding assms(2) filter_filter by (intro filter_cong) auto
  qed
  also have "\<dots> = drop n rest" using filter_after_page [OF sorted ne] .
  finally show ?thesis using cne by simp
qed

lemma page_loop_walks:
  "inv s \<Longrightarrow> rest = filter (\<lambda>e. c \<noteq> '''' \<longrightarrow> c < e) (ids_of s) \<Longrightarrow> length (step_batches (size_of k) rest) < fuel \<Longrightarrow>
     entity_page_loop fuel k fetch onPage c p s = walk_pages ask onPage (step_batches (size_of k) rest) p s"
proof (induction fuel arbitrary: c p s rest)
  case (Suc fuel)
  let ?n = "size_of k"
  obtain r s1 where ask: "ask s = (r, s1)" by fastforce
  have s1: "inv s1" "ids_of s1 = ids_of s" using ask_keeps [OF ask] Suc.prems(1) by auto
  have rest: "rest = filter (\<lambda>e. c \<noteq> '''' \<longrightarrow> c < e) (ids_of s1)" using Suc.prems(2) s1(2) by simp
  have fetched: "fetch c k s = (case r of Ok _ \<Rightarrow> Ok (take ?n rest) | Err e \<Rightarrow> Err e | Panicked \<Rightarrow> Panicked
      | OutOfFuel \<Rightarrow> OutOfFuel, s1)"
    using ask rest by (cases r) (simp_all add: fetch_eq bind_eff_def)
  show ?case
  proof (cases "rest = []")
    case True
    then have "step_batches ?n rest = []" by (simp add: step_batches.simps)
    then show ?thesis using ask fetched True by (cases r) (simp_all add: bind_eff_def)
  next
    case False
    then have steps: "step_batches ?n rest = take ?n rest # step_batches ?n (drop ?n rest)"
      using size_positive [of k] by (subst step_batches.simps) simp
    have step: "entity_page_loop fuel k fetch onPage (last (take ?n rest)) (Suc p) s2 =
        walk_pages ask onPage (step_batches ?n (drop ?n rest)) (Suc p) s2"
      if "onPage (take ?n rest) (Suc p) s1 = (Ok u, s2)" for u s2
    proof (rule Suc.IH)
      show "drop ?n rest = filter (\<lambda>e. last (take ?n rest) \<noteq> '''' \<longrightarrow> last (take ?n rest) < e) (ids_of s2)"
        using next_ids [OF s1(1) rest False size_positive that] by simp
      have "set (take ?n rest) \<subseteq> set (ids_of s1)" using rest set_take_subset [of ?n rest] by auto
      then show "inv s2" using onPage_keeps [OF s1(1) _ that] by blast
      show "length (step_batches ?n (drop ?n rest)) < fuel" using Suc.prems(3) steps by simp
    qed
    have "take ?n rest \<noteq> []" using False size_positive [of k] by simp
    then show ?thesis
      using ask fetched step steps
      by (cases r) (auto simp: bind_eff_def split: prod.split outcome.split)
  qed
qed simp

end


subsection \<open>The rows a page changes\<close>

definition ack_same :: "string set \<Rightarrow> ChangeFlagAck \<Rightarrow> ChangeFlagAck \<Rightarrow> bool" where
  "ack_same P a b \<longleftrightarrow> ack_key b = ack_key a \<and> (EntityId a \<notin> P \<longrightarrow> ProcessStatus b = ProcessStatus a)"

text \<open>
  Starting from rows that are \<open>base\<close> but for their process status, only the acknowledgements of the
  entities \<open>P\<close> change.
\<close>

definition page_rel :: "ChangeFlagAck list \<Rightarrow> string set \<Rightarrow> ack_db \<Rightarrow> ack_db \<Rightarrow> bool" where
  "page_rel base P db db' \<longleftrightarrow> (map ack_key (ack_rows db) = base \<longrightarrow>
     time_of db' = time_of db \<and> list_all2 (ack_same P) (ack_rows db) (ack_rows db'))"

lemma ack_key_fields:
  "ack_key b = ack_key a \<Longrightarrow> Id b = Id a \<and> EntityId b = EntityId a \<and> Timestamp b = Timestamp a"
  by (cases a; cases b) (simp add: ack_key_def)

lemma ack_same_keys: "list_all2 (ack_same P) xs ys \<Longrightarrow> map ack_key ys = map ack_key xs"
  by (induction rule: list_all2_induct) (simp_all add: ack_same_def)

lemma preorder_page_rel: "preorder_rel (page_rel base P)"
proof -
  have "list_all2 (ack_same P) xs zs" if "list_all2 (ack_same P) xs ys" "list_all2 (ack_same P) ys zs" for xs ys zs
    by (rule list_all2_trans [OF _ that]) (auto simp: ack_same_def dest: ack_key_fields)
  moreover have "list_all2 (ack_same P) xs xs" for xs
    by (simp add: list_all2_refl ack_same_def)
  ultimately show ?thesis
    unfolding preorder_rel_def page_rel_def by (metis ack_same_keys)
qed

lemmas page_rel_rules =
  keeps_simple [OF preorder_page_rel] keeps_bind [OF preorder_page_rel] keeps_try

lemma page_rel_operations: "page_rel base P db (db\<lparr>operations := n\<rparr>)"
  by (simp add: page_rel_def list_all2_refl ack_same_def)

lemma page_rel_update_entities: "page_rel base P db (update_entities spec ids (db\<lparr>operations := n\<rparr>))"
  by (simp add: page_rel_def list_all2_refl ack_same_def update_entities_def)

lemma set_process_status_page:
  assumes "\<forall>k \<in> set base. Id k \<in> set ids \<longrightarrow> EntityId k \<in> P"
  shows "keeps (page_rel base P) (set_process_status st ids)"
proof -
  have "EntityId a \<in> P" if "map ack_key rows = base" "a \<in> set rows" "Id a \<in> set ids" for rows a
  proof -
    have "ack_key a \<in> set base" "Id (ack_key a) = Id a" "EntityId (ack_key a) = EntityId a"
      using that by (auto simp: ack_key_def)
    with assms that(3) show ?thesis by metis
  qed
  then show ?thesis
    unfolding set_process_status_def
    by (intro keeps_db_update page_rel_operations)
      (auto simp: page_rel_def list_all2_map2 ack_same_def ack_key_def intro!: list.rel_refl_strong)
qed

lemma entity_update_page:
  "keeps (page_rel base P) (executeEntityStatusBatchUpdate spec ids)"
  "keeps (page_rel base P) (executeEntityStatusSingleUpdate spec i)"
  unfolding executeEntityStatusBatchUpdate_def executeEntityStatusSingleUpdate_def
  by (auto intro!: keeps_db_update page_rel_operations page_rel_update_entities page_rel_rules)

lemma flush_page: "keeps (page_rel base P) (flush env orders c n)"
proof -
  have "keeps (page_rel base P) (flush_singles spec items ids)" for spec items ids
    by (induction spec items ids rule: flush_singles.induct)
      (auto intro!: page_rel_rules entity_update_page split: sum.split)
  then have "keeps (page_rel base P) (flush_batch spec batch ids)" for spec batch ids
    unfolding flush_batch_def Let_def by (cases ids) (auto intro!: page_rel_rules entity_update_page split: sum.split)
  then have "keeps (page_rel base P) (flush_batches bs ids)" for bs ids
    by (induction bs ids rule: flush_batches.induct) (auto intro!: page_rel_rules)
  then show ?thesis unfolding flush_def Let_def .
qed

lemma put_ack_members:
  "(e, br) \<in> set (fold put_ack acks m) \<Longrightarrow> (q, as) \<in> set br \<Longrightarrow> a \<in> set as \<Longrightarrow>
     a \<in> set acks \<or> (\<exists>br' q' as'. (e, br') \<in> set m \<and> (q', as') \<in> set br' \<and> a \<in> set as')"
proof (induction acks arbitrary: m)
  case (Cons x acks)
  from Cons.IH [OF Cons.prems [simplified]] consider "a \<in> set acks"
    | br' q' as' where "(e, br') \<in> set (put_ack x m)" "(q', as') \<in> set br'" "a \<in> set as'" by blast
  then show ?case
  proof cases
    case 2
    from set_update_subset [OF 2(1) [unfolded put_ack_def Let_def]] show ?thesis
    proof
      assume "(e, br') \<in> set m"
      with 2 show ?thesis by blast
    next
      assume new: "(e, br') = (EntityId x, group_append (AckRequestId x) x
          (case map_of m (EntityId x) of None \<Rightarrow> [] | Some br \<Rightarrow> br))"
      with 2(2) set_update_subset [of "(q', as')"] have
        "(q', as') \<in> set (case map_of m e of None \<Rightarrow> [] | Some br \<Rightarrow> br) \<or>
         as' = (case map_of (case map_of m e of None \<Rightarrow> [] | Some br \<Rightarrow> br) q' of None \<Rightarrow> [x] | Some vs \<Rightarrow> vs @ [x])"
        unfolding group_append_def by fastforce
      with 2(3) show ?thesis by (auto split: option.splits) (blast dest: map_of_SomeD)+
    qed
  qed simp
qed auto

lemma ack_page_touches:
  assumes orders: "range_order (order_entities orders)" "range_order (order_requests orders)"
    and ids: "distinct (map Id (ack_rows db))" and run: "ack_page env orders t l entityIds p db = (r, db')"
  shows "time_of db' = time_of db \<and> list_all2 (ack_same (set entityIds)) (ack_rows db) (ack_rows db')"
proof -
  let ?base = "map ack_key (ack_rows db)"
  let ?R = "page_rel ?base (set entityIds)"
  have marks: "keeps ?R (set_process_status st js)"
    if "set js \<subseteq> Id ` set acks" "set acks \<subseteq> {a \<in> set (ack_rows db). EntityId a \<in> set entityIds}" for st js acks
  proof (rule set_process_status_page, intro ballI impI)
    fix k assume k: "k \<in> set ?base" "Id k \<in> set js"
    from k(1) obtain b where "b \<in> set (ack_rows db)" "k = ack_key b" by auto
    moreover from k(2) that(1) obtain a where "a \<in> set acks" "Id a = Id k" by (metis imageE subsetD)
    moreover from this that(2) have "a \<in> set (ack_rows db)" "EntityId a \<in> set entityIds" by auto
    moreover from calculation have "b = a" using ids by (auto simp: ack_key_def distinct_map inj_on_def)
    ultimately show "EntityId k \<in> set entityIds" by (simp add: ack_key_def)
  qed
  have page: "keeps ?R (processAckPage env orders acks n k)"
    if acks: "set acks \<subseteq> {a \<in> set (ack_rows db). EntityId a \<in> set entityIds}" for acks n k
  proof -
    let ?m = "prepareMapOfEntityIdToRequestIdToAck acks"
    have "(\<Union>(_, br) \<in> set (order_entities orders ?m). \<Union>(_, as) \<in> set (order_requests orders br). set as) \<subseteq> set acks"
      unfolding range_order_set [OF orders(1)] range_order_set [OF orders(2)] prepareMapOfEntityIdToRequestIdToAck_def
      using put_ack_members [of _ _ acks "[]"] by fastforce
    then have "keeps ?R (markAllAcks env orders ?m s f u n)" for s f u
      by (intro markAllAcks_keeps preorder_page_rel marks [OF _ acks]) (meson image_mono order_trans)
    moreover have "keeps ?R (startProcessing env orders ?m latest k)" for latest
      unfolding startProcessing_def by (auto intro!: page_rel_rules flush_page split: prod.split)
    ultimately show ?thesis
      unfolding processAckPage_def Let_def
      by (auto intro!: page_rel_rules getChangeFlagsForEntities_keeps preorder_page_rel page_rel_operations split: prod.split)
  qed
  have "?R db (snd (ack_page env orders t l entityIds p db))"
  proof (cases "entityIds = []")
    case True
    have "keeps ?R (ack_page env orders t l entityIds p)"
      unfolding ack_page_def GetChangeFlagsByEntityIds_def using True page [of "[]"]
      by (auto simp: bind_eff_def keeps_def)
    then show ?thesis by (simp add: keeps_def)
  next
    case False
    let ?acks = "filter (\<lambda>a. EntityId a \<in> set entityIds) (ackProcessBaseQuery t l db)"
    have "set ?acks \<subseteq> {a \<in> set (ack_rows db). EntityId a \<in> set entityIds}" by (auto simp: ackProcessBaseQuery_def)
    from page [OF this] have "?R (db\<lparr>operations := n\<rparr>) (snd (processAckPage env orders ?acks q k (db\<lparr>operations := n\<rparr>)))" for n q k
      by (simp add: keeps_def)
    then show ?thesis
      using False page_rel_operations [of ?base "set entityIds" db]
      by (auto simp: ack_page_def GetChangeFlagsByEntityIds_def bind_eff_def db_query_def Let_def page_rel_def split: option.split)
  qed
  with run show ?thesis by (simp add: page_rel_def)
qed


subsection \<open>The pages of the processor\<close>

lemma ack_same_pending:
  "list_all2 (ack_same P) xs ys \<Longrightarrow>
     map EntityId (filter (\<lambda>a. Q (ProcessStatus a) (Timestamp a) \<and> EntityId a \<notin> P) ys) =
     map EntityId (filter (\<lambda>a. Q (ProcessStatus a) (Timestamp a) \<and> EntityId a \<notin> P) xs)"
  by (induction rule: list_all2_induct) (auto simp: ack_same_def dest: ack_key_fields)

lemma entity_ids_set: "set (entity_ids t l db) = EntityId ` set (ackProcessBaseQuery t l db)"
  by (simp add: entity_ids_def)

lemma entity_ids_kept:
  assumes "time_of db' = time_of db" and "list_all2 (ack_same P) (ack_rows db) (ack_rows db')"
  shows "filter (\<lambda>e. e \<notin> P) (entity_ids t l db') = filter (\<lambda>e. e \<notin> P) (entity_ids t l db)"
proof (rule sorted_distinct_set_unique)
  let ?Q = "\<lambda>st ts. (st = StatusPending \<or> st = StatusErrored) \<and> time_of db ts < t
      \<and> (case l of None \<Rightarrow> True | Some u \<Rightarrow> u \<le> time_of db ts)"
  have ids: "set (filter (\<lambda>e. e \<notin> P) (entity_ids t l d)) =
      set (map EntityId (filter (\<lambda>a. ?Q (ProcessStatus a) (Timestamp a) \<and> EntityId a \<notin> P) (ack_rows d)))"
    if "time_of d = time_of db" for d
    using that by (cases l) (auto simp: entity_ids_def ackProcessBaseQuery_def)
  show "set (filter (\<lambda>e. e \<notin> P) (entity_ids t l db')) = set (filter (\<lambda>e. e \<notin> P) (entity_ids t l db))"
    unfolding ids [OF assms(1)] ids [OF refl] ack_same_pending [OF assms(2), of ?Q] ..
qed (simp_all add: entity_ids_def sorted_wrt_filter)

text \<open>The rows are identified by their id, every row names an entity, and Go ranges over maps completely.\<close>

definition ack_table_inv :: "ack_orders \<Rightarrow> ack_db \<Rightarrow> bool" where
  "ack_table_inv orders db \<longleftrightarrow> range_order (order_entities orders) \<and> range_order (order_requests orders)
     \<and> distinct (map Id (ack_rows db)) \<and> '''' \<notin> EntityId ` set (ack_rows db)"

lemma ack_table_inv_kept:
  assumes "list_all2 (ack_same P) (ack_rows db) (ack_rows db')" and "ack_table_inv orders db"
  shows "ack_table_inv orders db'"
proof -
  from assms(1) have "map Id (ack_rows db') = map Id (ack_rows db) \<and> map EntityId (ack_rows db') = map EntityId (ack_rows db)"
    by (induction rule: list_all2_induct) (auto simp: ack_same_def dest: ack_key_fields)
  then show ?thesis using assms(2) unfolding ack_table_inv_def by (metis set_map)
qed

definition ask_db :: "(ack_db, unit) eff" where
  "ask_db = db_query (\<lambda>_. ())"

interpretation ap: cursor_pager "entity_ids t l" ask_db "GetDistinctEntityIdsToProcess t l"
  "\<lambda>k. nat (normalizeEntityPageLimit k)" "ack_page env orders t l" "ack_table_inv orders"
  for env orders t l
proof
  fix s s' :: ack_db and ids r k c p and ru :: "unit outcome"
  show "sorted (entity_ids t l s)" "distinct (entity_ids t l s)" by (simp_all add: entity_ids_def)
  show "ack_table_inv orders s \<Longrightarrow> '''' \<notin> set (entity_ids t l s)"
    by (auto simp: ack_table_inv_def entity_ids_set ackProcessBaseQuery_def)
  show "0 < nat (normalizeEntityPageLimit k)"
    by (simp add: normalizeEntityPageLimit_def defaultEntityPageLimit_def maxEntityPageLimit_def)
  have op: "entity_ids t l (s\<lparr>operations := n\<rparr>) = entity_ids t l s"
    "ack_table_inv orders (s\<lparr>operations := n\<rparr>) = ack_table_inv orders s" for n s
    by (cases l; simp add: entity_ids_def ackProcessBaseQuery_def ack_table_inv_def)+
  show "entity_ids t l s' = entity_ids t l s \<and> (ack_table_inv orders s \<longrightarrow> ack_table_inv orders s')"
    if "ask_db s = (ru, s')"
    using that by (auto simp: ask_db_def db_query_def Let_def op split: option.splits)
  show "GetDistinctEntityIdsToProcess t l c k = bind_eff ask_db (\<lambda>_ s.
      (Ok (take (nat (normalizeEntityPageLimit k)) (filter (\<lambda>e. c \<noteq> '''' \<longrightarrow> c < e) (entity_ids t l s))), s))"
    by (auto simp: GetDistinctEntityIdsToProcess_def ask_db_def db_query_def bind_eff_def Let_def op fun_eq_iff split: option.split)
  show "ack_table_inv orders s' \<and> filter (\<lambda>e. e \<notin> set ids) (entity_ids t l s') = filter (\<lambda>e. e \<notin> set ids) (entity_ids t l s)"
    if "ack_table_inv orders s" "set ids \<subseteq> set (entity_ids t l s)" "ack_page env orders t l ids p s = (ru, s')"
  proof -
    have "time_of s' = time_of s \<and> list_all2 (ack_same (set ids)) (ack_rows s) (ack_rows s')"
      using that by (intro ack_page_touches) (auto simp: ack_table_inv_def)
    then show ?thesis using entity_ids_kept ack_table_inv_kept that(1) by blast
  qed
qed

text \<open>C12: The cursor paging of the acknowledgement processor visits the entities that have
  acknowledgements to process when the run starts, each exactly once and in order: with enough fuel it is the
  walk over the batches of their sorted ids, although handling a page changes the rows the next query reads.
  Ids must not be empty and must identify the rows.\<close>

theorem forEachEntityPage_walks:
  assumes "ack_table_inv orders db"
    and "length (entity_ids t l db) < fuel"
  shows "forEachEntityPage fuel env pageSize (GetDistinctEntityIdsToProcess t l) (ack_page env orders t l) db =
     walk_pages ask_db (ack_page env orders t l)
       (step_batches (nat (normalizeEntityPageLimit (if pageSize \<le> 0 then getEntityPageSize env else pageSize)))
         (entity_ids t l db)) 0 db"
proof -
  let ?k = "if pageSize \<le> 0 then getEntityPageSize env else pageSize"
  have "0 < nat (normalizeEntityPageLimit ?k)" by (rule ap.size_positive)
  from sb.batches_count_le [OF this] assms(2)
  have "length (step_batches (nat (normalizeEntityPageLimit ?k)) (entity_ids t l db)) < fuel" by (rule le_less_trans)
  with ap.page_loop_walks [OF assms(1), of "entity_ids t l db" "''''" t l ?k fuel env] show ?thesis
    by (simp add: forEachEntityPage_def)
qed

theorem forEachEntityPage_walks_witness:
  "forEachEntityPage 3 (\<lambda>_. '''') 1 (GetDistinctEntityIdsToProcess 1 None) (ack_page (\<lambda>_. '''') example_orders 1 None) example_db =
     walk_pages ask_db (ack_page (\<lambda>_. '''') example_orders 1 None)
       (step_batches (nat (normalizeEntityPageLimit 1)) (entity_ids 1 None example_db)) 0 example_db"
proof -
  have "ack_table_inv example_orders example_db"
    by (simp add: ack_table_inv_def example_orders_def example_db_def example_ack_def)
  moreover have "length (entity_ids 1 None example_db) < 3"
    by (simp add: entity_ids_def ackProcessBaseQuery_def example_db_def example_ack_def ack_status_defs)
  ultimately show ?thesis using forEachEntityPage_walks [of example_orders example_db 1 None 3 _ 1] by simp
qed


subsection \<open>An acknowledgement without an entity id\<close>

text \<open>
  An acknowledgement whose entity id is empty and that has no request: its page leaves it pending, and the
  cursor after the page is the empty string, which asks for the first page again.
\<close>

definition nameless_db :: "nat \<Rightarrow> ack_db" where
  "nameless_db n = \<lparr>ack_rows = [(example_ack ''1'' ''r1'' AckSuccess ''t1'')\<lparr>EntityId := '''', ProcessStatus := StatusPending\<rparr>],
     request_rows = [], entity_rows = [], operations = n, fault = (\<lambda>_. None), time_of = (\<lambda>_. 0)\<rparr>"

lemma nameless_fetch:
  "GetDistinctEntityIdsToProcess 1 None '''' k (nameless_db n) = (Ok [''''], nameless_db (Suc n))"
proof -
  have "0 < normalizeEntityPageLimit k"
    by (simp add: normalizeEntityPageLimit_def defaultEntityPageLimit_def maxEntityPageLimit_def)
  then have "take (nat (normalizeEntityPageLimit k)) [''''] = [''''::string]" by simp
  then show ?thesis
    by (simp add: GetDistinctEntityIdsToProcess_def db_query_def nameless_db_def entity_ids_def ackProcessBaseQuery_def
        example_ack_def ack_status_defs)
qed

lemma nameless_page:
  "ack_page env example_orders 1 None [''''] p (nameless_db n) = (Ok (), nameless_db (Suc (Suc n)))"
proof -
  let ?ack = "(example_ack ''1'' ''r1'' AckSuccess ''t1'')\<lparr>EntityId := '''', ProcessStatus := StatusPending\<rparr>"
  have batch: "step_batches (nat k) [''''] = [['''' :: string]]" if "0 < k" for k
    using that by (subst step_batches.simps) (simp add: step_batches.simps)
  have acks: "GetChangeFlagsByEntityIds [''''] 1 None (nameless_db n) = (Ok [?ack], nameless_db (Suc n))"
    by (simp add: GetChangeFlagsByEntityIds_def db_query_def nameless_db_def ackProcessBaseQuery_def example_ack_def ack_status_defs)
  have m: "prepareMapOfEntityIdToRequestIdToAck [?ack] = [('''', [(''r1'', [?ack])])]"
    by (simp add: prepareMapOfEntityIdToRequestIdToAck_def put_ack_def group_append_def example_ack_def)
  have flags: "getChangeFlagsForEntities env example_orders [('''', [(''r1'', [?ack])])] k (nameless_db (Suc n)) =
      (Ok [], nameless_db (Suc (Suc n)))" for k
    using batch_sizes_positive(1) [of env]
    by (simp add: getChangeFlagsForEntities_def example_orders_def batch GetChangeFlagRequest_def bind_eff_def db_query_def nameless_db_def)
  have latest: "getLatestEntityToRequestId [] m = ([], {})" for m
    by (simp add: getLatestEntityToRequestId_def latest_requests_def)
  have start: "startProcessing env example_orders [('''', br)] [] k db = (Ok ({}, {}, {}), db)" for k db br
    by (simp add: startProcessing_def flush_def newEntityUpdateCollector_def example_orders_def bind_eff_def)
  have marks: "markAllAcks env example_orders m {} {} {} k db = (Ok (), db)" for k db m
    by (simp add: markAllAcks_def acks_of_def markAcksByIDs_def bind_eff_def case_prod_beta)
  show ?thesis
    by (simp add: ack_page_def processAckPage_def Let_def bind_eff_def acks m flags latest start marks)
qed

theorem nameless_entity_never_ends:
  "fst (forEachEntityPage fuel env k (GetDistinctEntityIdsToProcess 1 None) (ack_page env example_orders 1 None) (nameless_db n)) = OutOfFuel"
proof -
  have "fst (entity_page_loop fuel j (GetDistinctEntityIdsToProcess 1 None) (ack_page env example_orders 1 None) '''' p (nameless_db n)) = OutOfFuel" for j p
    by (induction fuel arbitrary: p n) (simp_all add: bind_eff_def nameless_fetch nameless_page)
  then show ?thesis by (simp add: forEachEntityPage_def)
qed

end
