(* ===== verification/Notif_Reminder.thy ===== *)
theory Notif_Reminder
  imports Job_Result Util_Time
begin

text \<open>
  The reminders of \<open>internal/cp_alerts/jobs/notifications_for_alerts.go\<close>: the configuration read from
  the environment, the slots of an alert's reminder period, and the decision whether an alert is notified
  now.  Times are milliseconds and durations nanoseconds, both 64 bits wide; the sums and differences that
  can leave that range are wrapped.
\<close>

section \<open>Alerts\<close>

text \<open>The alert document of the shared \<open>alerts_async\<close> package.\<close>

record Alert =
  AlertId :: string
  Criticality :: string
  Title :: string
  AlertMessage :: string
  CreatedAt :: int
  UpdatedAt :: int
  FirstObservedAt :: int
  LastObservedAt :: int
  AlertTenantId :: string
  Functionality :: string
  FunctionalityEntityId :: string
  FunctionalityEntityName :: string
  FunctionalityType :: string
  AlertStatus :: int
  UpdatedBy :: string
  Dismissed :: bool
  AlertType :: string
  ErrorMessage :: string
  ErrorCode :: string
  DataPlaneId :: string
  SecondaryEntityId :: string
  AlertAction :: string
  LastActivationTime :: int
  NotificationCount :: int
  LastNotificationTime :: int

section \<open>Configuration\<close>

record CustomerNotificationReminderConfig =
  sendFirstNotifications :: int
  reminderInterval :: duration
  reminderDuration :: duration

definition DefaultCustomerNotificationSendFirstAtJobFrequency :: int where
  "DefaultCustomerNotificationSendFirstAtJobFrequency = 3"
definition DefaultCustomerNotificationReminderNotificationFrequencyEvery :: duration where
  "DefaultCustomerNotificationReminderNotificationFrequencyEvery = 24 * Hour"
definition DefaultCustomerNotificationReminderNotificationEndDuration :: duration where
  "DefaultCustomerNotificationReminderNotificationEndDuration = 7 * (24 * Hour)"
definition MinCustomerNotificationReminderInterval :: duration where
  "MinCustomerNotificationReminderInterval = Hour"

lemmas reminder_defaults =
  DefaultCustomerNotificationSendFirstAtJobFrequency_def
  DefaultCustomerNotificationReminderNotificationFrequencyEvery_def
  DefaultCustomerNotificationReminderNotificationEndDuration_def
  MinCustomerNotificationReminderInterval_def

definition customerNotificationDurationFromEnv :: "(string \<Rightarrow> string) \<Rightarrow> string \<Rightarrow> duration \<Rightarrow> duration" where
  "customerNotificationDurationFromEnv getenv key def =
     (let env = GetEnvOrDefault getenv key '''' in
      if env = '''' then def
      else (case ParseDurationWithDays env of
              Inl _ \<Rightarrow> def
            | Inr d \<Rightarrow> if d \<le> 0 then def else d))"

definition NewCustomerNotificationReminderConfig :: "(string \<Rightarrow> string) \<Rightarrow> CustomerNotificationReminderConfig" where
  "NewCustomerNotificationReminderConfig getenv =
     (let sends = GetEnvInt getenv ''CUSTOMER_NOTIFICATION_FIRST_SENDS'' DefaultCustomerNotificationSendFirstAtJobFrequency;
          sends = (if sends \<le> 0 then DefaultCustomerNotificationSendFirstAtJobFrequency else sends);
          interval = customerNotificationDurationFromEnv getenv ''CUSTOMER_NOTIFICATION_REMINDER_FREQUENCY_EVERY''
                       DefaultCustomerNotificationReminderNotificationFrequencyEvery;
          interval = (if interval < MinCustomerNotificationReminderInterval
                      then DefaultCustomerNotificationReminderNotificationFrequencyEvery else interval);
          period = customerNotificationDurationFromEnv getenv ''CUSTOMER_NOTIFICATION_REMINDER_END_DURATION''
                     DefaultCustomerNotificationReminderNotificationEndDuration in
      if period \<le> interval
      then \<lparr>sendFirstNotifications = sends,
            reminderInterval = DefaultCustomerNotificationReminderNotificationFrequencyEvery,
            reminderDuration = DefaultCustomerNotificationReminderNotificationEndDuration\<rparr>
      else \<lparr>sendFirstNotifications = sends, reminderInterval = interval, reminderDuration = period\<rparr>)"

section \<open>Slots\<close>

definition lastReminderSlotIndex :: "duration \<Rightarrow> duration \<Rightarrow> int" where
  "lastReminderSlotIndex frequency dur =
     (if duration_millis frequency \<le> 0 \<or> duration_millis dur \<le> 0 then 0
      else go_div (duration_millis dur - 1) (duration_millis frequency))"

text \<open>\<open>None\<close>: the time is in no slot.\<close>

definition reminderSlotIndex :: "int \<Rightarrow> int \<Rightarrow> duration \<Rightarrow> duration \<Rightarrow> int option" where
  "reminderSlotIndex activationMillis nowMillis frequency dur =
     (if activationMillis \<le> 0 \<or> frequency \<le> 0 \<or> dur \<le> 0 then None
      else if duration_millis frequency \<le> 0 then None
      else
        (let elapsed = wrap64 (nowMillis - activationMillis) in
         if elapsed < 0 \<or> elapsed \<ge> duration_millis dur then None
         else Some (go_div elapsed (duration_millis frequency))))"

section \<open>The decision\<close>

record NotificationReminderDecision =
  SendFirstNotification :: bool
  SentReminder :: bool
  SentLastReminder :: bool
  ReasonToNotSend :: string

definition no_decision :: NotificationReminderDecision where
  "no_decision = \<lparr>SendFirstNotification = False, SentReminder = False, SentLastReminder = False, ReasonToNotSend = ''''\<rparr>"

definition isLastReminderNotification :: "CustomerNotificationReminderConfig \<Rightarrow> int \<Rightarrow> int \<Rightarrow> bool" where
  "isLastReminderNotification n activationTime now =
     (if activationTime \<le> 0 \<or> reminderInterval n \<le> 0 \<or> reminderDuration n \<le> 0 then False
      else (case reminderSlotIndex activationTime now (reminderInterval n) (reminderDuration n) of
              None \<Rightarrow> False
            | Some slot \<Rightarrow> slot = lastReminderSlotIndex (reminderInterval n) (reminderDuration n)))"

definition reminderDecision :: "CustomerNotificationReminderConfig \<Rightarrow> int \<Rightarrow> int \<Rightarrow> NotificationReminderDecision" where
  "reminderDecision n activationTime now =
     (if isLastReminderNotification n activationTime now then no_decision\<lparr>SentLastReminder := True\<rparr>
      else no_decision\<lparr>SentReminder := True\<rparr>)"

definition CheckSendingNotification ::
  "CustomerNotificationReminderConfig \<Rightarrow> int \<Rightarrow> int \<Rightarrow> int \<Rightarrow> int \<Rightarrow> NotificationReminderDecision" where
  "CheckSendingNotification n activationTime now notificationsSent lastNotificationTime =
     (if notificationsSent < sendFirstNotifications n then
        (if notificationsSent = 0 then no_decision\<lparr>SendFirstNotification := True\<rparr>
         else reminderDecision n activationTime now)
      else if activationTime \<le> 0 then no_decision\<lparr>ReasonToNotSend := ''activation time is not set''\<rparr>
      else if reminderInterval n \<le> 0 \<or> reminderDuration n \<le> 0
      then no_decision\<lparr>ReasonToNotSend := ''reminder interval or duration is not configured''\<rparr>
      else
        (case reminderSlotIndex activationTime now (reminderInterval n) (reminderDuration n) of
           None \<Rightarrow>
             if now < activationTime
             then no_decision\<lparr>ReasonToNotSend := ''current time is before activation time''\<rparr>
             else if now \<ge> wrap64 (activationTime + duration_millis (reminderDuration n))
             then no_decision\<lparr>ReasonToNotSend := ''reminder duration has elapsed''\<rparr>
             else no_decision\<lparr>ReasonToNotSend := ''not within a reminder window''\<rparr>
         | Some slot \<Rightarrow>
             if lastNotificationTime > 0
                \<and> reminderSlotIndex activationTime lastNotificationTime (reminderInterval n) (reminderDuration n) = Some slot
             then no_decision\<lparr>ReasonToNotSend := ''reminder already sent for current window''\<rparr>
             else reminderDecision n activationTime now))"

section \<open>The alerts to notify\<close>

record AlertsForNotification =
  newAlerts :: "Alert list"
  reminderAlerts :: "Alert list"
  lastNotificationAlerts :: "Alert list"

definition hasRegularAlerts :: "AlertsForNotification \<Rightarrow> bool" where
  "hasRegularAlerts a \<longleftrightarrow> length (newAlerts a) > 0 \<or> length (reminderAlerts a) > 0"

definition activationTimeForNotification :: "Alert \<Rightarrow> int" where
  "activationTimeForNotification alert =
     (if LastActivationTime alert > 0 then LastActivationTime alert
      else if LastObservedAt alert > 0 then LastObservedAt alert
      else 0)"

definition alert_decision :: "CustomerNotificationReminderConfig \<Rightarrow> int \<Rightarrow> Alert \<Rightarrow> NotificationReminderDecision" where
  "alert_decision reminderConfig now alert =
     CheckSendingNotification reminderConfig (activationTimeForNotification alert) now
       (NotificationCount alert) (LastNotificationTime alert)"

fun decide_alerts ::
  "CustomerNotificationReminderConfig \<Rightarrow> int \<Rightarrow> Alert list \<Rightarrow> AlertsForNotification \<Rightarrow> AlertsForNotification" where
  "decide_alerts reminderConfig now [] result = result"
| "decide_alerts reminderConfig now (alert # alerts) result =
     (let decision = alert_decision reminderConfig now alert in
      decide_alerts reminderConfig now alerts
        (if SendFirstNotification decision then result\<lparr>newAlerts := newAlerts result @ [alert]\<rparr>
         else if SentLastReminder decision
         then result\<lparr>lastNotificationAlerts := lastNotificationAlerts result @ [alert]\<rparr>
         else if SentReminder decision then result\<lparr>reminderAlerts := reminderAlerts result @ [alert]\<rparr>
         else result))"

definition decideAlertsForNotificationAt ::
  "Alert list \<Rightarrow> CustomerNotificationReminderConfig \<Rightarrow> int \<Rightarrow> AlertsForNotification" where
  "decideAlertsForNotificationAt alerts reminderConfig now =
     decide_alerts reminderConfig now alerts \<lparr>newAlerts = [], reminderAlerts = [], lastNotificationAlerts = []\<rparr>"

text \<open>The update written back for a notified alert; an activation time of \<open>0\<close> is not written.\<close>

record NotificationSentUpdate =
  UpdNotificationCount :: int
  UpdLastNotificationTime :: int
  UpdLastActivationTime :: int

definition notificationSentUpdate :: "Alert \<Rightarrow> int \<Rightarrow> NotificationSentUpdate" where
  "notificationSentUpdate notifiedAlert lastNotificationTime =
     \<lparr>UpdNotificationCount = wrap64 (NotificationCount notifiedAlert + 1),
      UpdLastNotificationTime = lastNotificationTime,
      UpdLastActivationTime =
        (if LastActivationTime notifiedAlert \<le> 0 then activationTimeForNotification notifiedAlert else 0)\<rparr>"


section \<open>The configuration is usable\<close>

definition valid_reminders :: "CustomerNotificationReminderConfig \<Rightarrow> bool" where
  "valid_reminders n \<longleftrightarrow> 0 < sendFirstNotifications n \<and> Hour \<le> reminderInterval n \<and> reminderInterval n < reminderDuration n"

text \<open>Whatever the environment holds, the reminder configuration has a positive number of first
  notifications, an interval of at least an hour, and a duration longer than the interval.\<close>

theorem NewCustomerNotificationReminderConfig_valid:
  "0 < sendFirstNotifications (NewCustomerNotificationReminderConfig getenv)
   \<and> 3600000000000 \<le> reminderInterval (NewCustomerNotificationReminderConfig getenv)
   \<and> reminderInterval (NewCustomerNotificationReminderConfig getenv) < reminderDuration (NewCustomerNotificationReminderConfig getenv)"
  unfolding NewCustomerNotificationReminderConfig_def Let_def by (simp add: reminder_defaults)

text \<open>The environment gives the configuration its values when they are acceptable.\<close>

lemma NewCustomerNotificationReminderConfig_env:
  assumes "ParseDurationWithDays (getenv ''CUSTOMER_NOTIFICATION_REMINDER_FREQUENCY_EVERY'') = Inr f"
    and "ParseDurationWithDays (getenv ''CUSTOMER_NOTIFICATION_REMINDER_END_DURATION'') = Inr d"
    and "getenv ''CUSTOMER_NOTIFICATION_REMINDER_FREQUENCY_EVERY'' \<noteq> ''''"
    and "getenv ''CUSTOMER_NOTIFICATION_REMINDER_END_DURATION'' \<noteq> ''''"
    and "Hour \<le> f" and "f < d"
  shows "reminderInterval (NewCustomerNotificationReminderConfig getenv) = f"
    and "reminderDuration (NewCustomerNotificationReminderConfig getenv) = d"
  using assms unfolding NewCustomerNotificationReminderConfig_def Let_def customerNotificationDurationFromEnv_def
  by (simp_all add: reminder_defaults GetEnvOrDefault_def)

section \<open>When an alert is notified\<close>

definition sends :: "NotificationReminderDecision \<Rightarrow> bool" where
  "sends d \<longleftrightarrow> SendFirstNotification d \<or> SentReminder d \<or> SentLastReminder d"

lemmas decision_defs = CheckSendingNotification_def reminderDecision_def no_decision_def

text \<open>A decision is of one kind: it is a first notification, a reminder, or the last reminder, or it
  sends nothing and gives a reason.\<close>

theorem CheckSendingNotification_one_kind:
  "CheckSendingNotification n activation now sentCount lastSent \<in>
     {\<lparr>SendFirstNotification = True, SentReminder = False, SentLastReminder = False, ReasonToNotSend = ''''\<rparr>,
      \<lparr>SendFirstNotification = False, SentReminder = True, SentLastReminder = False, ReasonToNotSend = ''''\<rparr>,
      \<lparr>SendFirstNotification = False, SentReminder = False, SentLastReminder = True, ReasonToNotSend = ''''\<rparr>}
   \<or> (\<not> sends (CheckSendingNotification n activation now sentCount lastSent)
       \<and> ReasonToNotSend (CheckSendingNotification n activation now sentCount lastSent) \<noteq> '''')"
  by (auto simp: decision_defs sends_def split: option.split)

lemma valid_millis:
  assumes "valid_reminders n"
  shows "0 < duration_millis (reminderInterval n)" "duration_millis (reminderInterval n) \<le> duration_millis (reminderDuration n)"
proof -
  have "Hour \<le> reminderInterval n" "reminderInterval n \<le> reminderDuration n" using assms by (auto simp: valid_reminders_def)
  then show "0 < duration_millis (reminderInterval n)" "duration_millis (reminderInterval n) \<le> duration_millis (reminderDuration n)"
    by (simp_all add: duration_millis_def zdiv_mono1)
qed

lemma le_zdiv_iff: "0 < f \<Longrightarrow> k \<le> a div f \<longleftrightarrow> f * k \<le> (a::int)"
proof
  assume f: "0 < f" and "k \<le> a div f"
  then have "f * k \<le> f * (a div f)" by simp
  also have "\<dots> \<le> a" using f by (metis add_le_same_cancel1 mod_mult_div_eq mult_div_mod_eq pos_mod_sign le_add_same_cancel1)
  finally show "f * k \<le> a" .
next
  assume "0 < f" and "f * k \<le> a"
  then show "k \<le> a div f" using zdiv_mono1 [of "f * k" a f] by simp
qed

text \<open>The slot of a time, for a usable configuration and times that are not negative.\<close>

lemma reminderSlotIndex_eq:
  assumes "valid_reminders n" and "0 < activation" and "int64 activation" and "0 \<le> t" and "int64 t"
  shows "reminderSlotIndex activation t (reminderInterval n) (reminderDuration n) =
     (if activation \<le> t \<and> t < activation + duration_millis (reminderDuration n)
      then Some ((t - activation) div duration_millis (reminderInterval n)) else None)"
proof -
  have "int64 (t - activation)" using assms(2-5) by (simp add: int64_def)
  moreover have "0 < reminderInterval n" "0 < reminderDuration n" using assms(1) by (auto simp: valid_reminders_def)
  ultimately show ?thesis
    using valid_millis(1) [OF assms(1)] assms(2) by (auto simp: reminderSlotIndex_def Let_def)
qed

lemma reminder_sends:
  assumes "valid_reminders n" and "0 < activation" and "int64 activation" and "0 \<le> now" and "int64 now"
    and "0 \<le> lastSent" and "int64 lastSent" and "sendFirstNotifications n \<le> sentCount"
  shows "sends (CheckSendingNotification n activation now sentCount lastSent) \<longleftrightarrow>
     activation \<le> now \<and> now < activation + duration_millis (reminderDuration n)
     \<and> \<not> (activation \<le> lastSent \<and> lastSent < activation + duration_millis (reminderDuration n)
          \<and> (lastSent - activation) div duration_millis (reminderInterval n) = (now - activation) div duration_millis (reminderInterval n))"
proof -
  have "0 < reminderInterval n" "0 < reminderDuration n" using assms(1) by (auto simp: valid_reminders_def)
  then show ?thesis
    using assms(2,6,8) reminderSlotIndex_eq [OF assms(1,2,3,4,5)] reminderSlotIndex_eq [OF assms(1,2,3,6,7)]
    by (auto simp: sends_def decision_defs)
qed

text \<open>C17: Once the first notifications are sent, an alert is notified exactly when the time is in the
  reminder period and no notification was sent in the same slot of it, a slot being one interval long; the
  reminder is the last one exactly in the final slot of the period.\<close>

theorem CheckSendingNotification_reminders:
  assumes "valid_reminders n" and "0 < activation" and "int64 activation" and "0 \<le> now" and "int64 now"
    and "0 \<le> lastSent" and "int64 lastSent" and "sendFirstNotifications n \<le> sentCount"
  shows "let d = CheckSendingNotification n activation now sentCount lastSent;
             frequency = duration_millis (reminderInterval n); period = duration_millis (reminderDuration n);
             slot = (\<lambda>t. (t - activation) div frequency); inside = (\<lambda>t. activation \<le> t \<and> t < activation + period) in
     sends d = (inside now \<and> \<not> (inside lastSent \<and> slot lastSent = slot now))
     \<and> SentLastReminder d = (sends d \<and> activation + frequency * ((period - 1) div frequency) \<le> now)
     \<and> \<not> SendFirstNotification d"
proof -
  let ?d = "CheckSendingNotification n activation now sentCount lastSent"
  let ?f = "duration_millis (reminderInterval n)" and ?p = "duration_millis (reminderDuration n)"
  have pos: "0 < reminderInterval n" "0 < reminderDuration n" "0 < ?f" "0 < ?p"
    using assms(1) valid_millis [OF assms(1)] by (auto simp: valid_reminders_def)
  have last_slot: "(now - activation) div ?f = (?p - 1) div ?f \<longleftrightarrow> activation + ?f * ((?p - 1) div ?f) \<le> now"
    if "activation \<le> now" "now < activation + ?p"
  proof -
    have "(now - activation) div ?f \<le> (?p - 1) div ?f" using that pos(3) by (intro zdiv_mono1) linarith+
    moreover have "(?p - 1) div ?f \<le> (now - activation) div ?f \<longleftrightarrow> ?f * ((?p - 1) div ?f) \<le> now - activation"
      using pos(3) by (rule le_zdiv_iff)
    ultimately show ?thesis by linarith
  qed
  have "SentLastReminder ?d = (sends ?d \<and> isLastReminderNotification n activation now)" "\<not> SendFirstNotification ?d"
    using assms(2,8) pos by (auto simp: sends_def decision_defs split: option.split)
  moreover have "isLastReminderNotification n activation now = (activation + ?f * ((?p - 1) div ?f) \<le> now)" if "sends ?d"
    using that last_slot reminderSlotIndex_eq [OF assms(1,2,3,4,5)] pos assms(2) reminder_sends [OF assms]
    by (auto simp: isLastReminderNotification_def lastReminderSlotIndex_def)
  ultimately show ?thesis using reminder_sends [OF assms] unfolding Let_def conj_assoc by blast
qed


theorem CheckSendingNotification_reminders_witness:
  "let d = CheckSendingNotification \<lparr>sendFirstNotifications = 3, reminderInterval = 86400000000000, reminderDuration = 604800000000000\<rparr>
             1000 (1000 + 6 * 86400000) 5 (1000 + 5 * 86400000) in
     sends d \<and> SentLastReminder d"
proof -
  let ?n = "\<lparr>sendFirstNotifications = 3, reminderInterval = 86400000000000, reminderDuration = 604800000000000\<rparr>"
  have "valid_reminders ?n" by (simp add: valid_reminders_def)
  from CheckSendingNotification_reminders [OF this, of 1000 "1000 + 6 * 86400000" "1000 + 5 * 86400000" 5]
  show ?thesis by (simp add: int64_def duration_millis_def Let_def)
qed

section \<open>The alerts of one run\<close>

lemma decision_exclusive:
  "\<not> (SendFirstNotification (alert_decision n now a) \<and> SentReminder (alert_decision n now a))"
  "\<not> (SendFirstNotification (alert_decision n now a) \<and> SentLastReminder (alert_decision n now a))"
  "\<not> (SentReminder (alert_decision n now a) \<and> SentLastReminder (alert_decision n now a))"
  by (auto simp: alert_decision_def decision_defs split: option.splits if_splits)

lemma decide_alerts_filter:
  "decide_alerts n now alerts result =
     result\<lparr>newAlerts := newAlerts result @ filter (\<lambda>a. SendFirstNotification (alert_decision n now a)) alerts,
       reminderAlerts := reminderAlerts result @ filter (\<lambda>a. SentReminder (alert_decision n now a)) alerts,
       lastNotificationAlerts := lastNotificationAlerts result @ filter (\<lambda>a. SentLastReminder (alert_decision n now a)) alerts\<rparr>"
proof (induction n now alerts result rule: decide_alerts.induct)
  case (2 n now a alerts result)
  with decision_exclusive [of n now a] show ?case by (auto simp: Let_def)
qed simp

text \<open>One run splits the alerts it notifies into new alerts, reminders and last reminders: every alert
  whose decision sends is in exactly one of the three lists, in the order of the input, and no other is.\<close>

theorem decideAlertsForNotificationAt_partition:
  "mset (newAlerts (decideAlertsForNotificationAt alerts n now))
     + mset (reminderAlerts (decideAlertsForNotificationAt alerts n now))
     + mset (lastNotificationAlerts (decideAlertsForNotificationAt alerts n now))
     = mset (filter (\<lambda>a. sends (alert_decision n now a)) alerts)
   \<and> newAlerts (decideAlertsForNotificationAt alerts n now) = filter (\<lambda>a. SendFirstNotification (alert_decision n now a)) alerts
   \<and> reminderAlerts (decideAlertsForNotificationAt alerts n now) = filter (\<lambda>a. SentReminder (alert_decision n now a)) alerts
   \<and> lastNotificationAlerts (decideAlertsForNotificationAt alerts n now) = filter (\<lambda>a. SentLastReminder (alert_decision n now a)) alerts"
proof -
  have "mset (filter (\<lambda>a. SendFirstNotification (alert_decision n now a)) alerts)
      + mset (filter (\<lambda>a. SentReminder (alert_decision n now a)) alerts)
      + mset (filter (\<lambda>a. SentLastReminder (alert_decision n now a)) alerts)
      = mset (filter (\<lambda>a. sends (alert_decision n now a)) alerts)"
  proof (induction alerts)
    case (Cons a alerts)
    with decision_exclusive [of n now a] show ?case by (auto simp: sends_def)
  qed simp
  then show ?thesis unfolding decideAlertsForNotificationAt_def decide_alerts_filter by simp
qed

section \<open>An alert over the runs of the job\<close>

text \<open>
  The runs of the job for one alert that stays open: at each run the decision is taken on the stored
  alert, and a notified alert is stored with its update before the next run.  \<open>sent\<close> are the times of the
  notifications, the latest first.
\<close>

definition record_sent :: "Alert \<Rightarrow> NotificationSentUpdate \<Rightarrow> Alert" where
  "record_sent alert upd =
     (let alert' = alert\<lparr>NotificationCount := UpdNotificationCount upd, LastNotificationTime := UpdLastNotificationTime upd\<rparr> in
      if UpdLastActivationTime upd > 0 then alert'\<lparr>LastActivationTime := UpdLastActivationTime upd\<rparr> else alert')"

inductive reminder_runs :: "CustomerNotificationReminderConfig \<Rightarrow> Alert \<Rightarrow> int \<Rightarrow> Alert \<Rightarrow> int list \<Rightarrow> bool"
  for n :: CustomerNotificationReminderConfig and a0 :: Alert where
  runs_start: "reminder_runs n a0 0 a0 []"
| runs_sent: "reminder_runs n a0 t a sent \<Longrightarrow> t \<le> now \<Longrightarrow> 0 < now \<Longrightarrow> int64 now \<Longrightarrow> sends (alert_decision n now a) \<Longrightarrow>
     reminder_runs n a0 now (record_sent a (notificationSentUpdate a now)) (now # sent)"
| runs_skipped: "reminder_runs n a0 t a sent \<Longrightarrow> t \<le> now \<Longrightarrow> 0 < now \<Longrightarrow> int64 now \<Longrightarrow> \<not> sends (alert_decision n now a) \<Longrightarrow>
     reminder_runs n a0 now a sent"

inductive_cases reminder_runs_NilE: "reminder_runs n a0 t a []"

text \<open>The reminders are the notifications after the first ones.\<close>

definition reminders_of :: "CustomerNotificationReminderConfig \<Rightarrow> int list \<Rightarrow> int list" where
  "reminders_of n sent = take (length sent - nat (sendFirstNotifications n)) sent"

definition reminder_slot :: "CustomerNotificationReminderConfig \<Rightarrow> int \<Rightarrow> int \<Rightarrow> int" where
  "reminder_slot n activation t = (t - activation) div duration_millis (reminderInterval n)"

definition in_period :: "CustomerNotificationReminderConfig \<Rightarrow> int \<Rightarrow> int \<Rightarrow> bool" where
  "in_period n activation t \<longleftrightarrow> activation \<le> t \<and> t < activation + duration_millis (reminderDuration n)"

lemma activation_record_sent:
  "activationTimeForNotification (record_sent a (notificationSentUpdate a now)) = activationTimeForNotification a"
  by (simp add: activationTimeForNotification_def record_sent_def notificationSentUpdate_def Let_def)

lemma strictly_decreasing_length:
  "sorted_wrt (>) xs \<Longrightarrow> \<forall>x \<in> set xs. 0 \<le> x \<and> x \<le> (m::int) \<Longrightarrow> int (length xs) \<le> max 0 (m + 1)"
proof (induction xs arbitrary: m)
  case (Cons x xs)
  then have "\<forall>y \<in> set xs. 0 \<le> y \<and> y \<le> x - 1" "sorted_wrt (>) xs" by auto
  with Cons.IH [of "x - 1"] Cons.prems show ?case by auto
qed simp

lemma period_slot:
  assumes "valid_reminders n" and "in_period n activation t"
  shows "0 \<le> reminder_slot n activation t" and "reminder_slot n activation t \<le> lastReminderSlotIndex (reminderInterval n) (reminderDuration n)"
proof -
  have f: "0 < duration_millis (reminderInterval n)" "0 < duration_millis (reminderDuration n)"
    using valid_millis [OF assms(1)] by auto
  with assms(2) show "0 \<le> reminder_slot n activation t"
    by (simp add: reminder_slot_def in_period_def pos_imp_zdiv_nonneg_iff)
  have "t - activation \<le> duration_millis (reminderDuration n) - 1" using assms(2) by (simp add: in_period_def)
  with f show "reminder_slot n activation t \<le> lastReminderSlotIndex (reminderInterval n) (reminderDuration n)"
    by (simp add: reminder_slot_def lastReminderSlotIndex_def zdiv_mono1)
qed


definition runs_inv :: "CustomerNotificationReminderConfig \<Rightarrow> int \<Rightarrow> int \<Rightarrow> Alert \<Rightarrow> int list \<Rightarrow> bool" where
  "runs_inv n activation t a sent \<longleftrightarrow>
     NotificationCount a = int (length sent) \<and> LastNotificationTime a = (if sent = [] then 0 else hd sent)
     \<and> activationTimeForNotification a = activation \<and> 0 \<le> t
     \<and> list_all (\<lambda>s. 0 < s \<and> s \<le> t \<and> int64 s) sent
     \<and> list_all (in_period n activation) (reminders_of n sent)
     \<and> sorted_wrt (>) (map (reminder_slot n activation) (reminders_of n sent))"

lemma runs_inv_length:
  assumes "valid_reminders n" and "runs_inv n activation t a sent"
  shows "int (length sent) \<le> sendFirstNotifications n + lastReminderSlotIndex (reminderInterval n) (reminderDuration n) + 1"
proof -
  let ?L = "lastReminderSlotIndex (reminderInterval n) (reminderDuration n)"
  let ?slots = "map (reminder_slot n activation) (reminders_of n sent)"
  have L: "0 \<le> ?L" using valid_millis [OF assms(1)] by (simp add: lastReminderSlotIndex_def pos_imp_zdiv_nonneg_iff)
  have "\<forall>x \<in> set ?slots. 0 \<le> x \<and> x \<le> ?L"
    using assms(2) period_slot [OF assms(1)] by (auto simp: runs_inv_def list_all_iff)
  then have "int (length ?slots) \<le> ?L + 1"
    using strictly_decreasing_length [of ?slots ?L] assms(2) L by (auto simp: runs_inv_def)
  moreover have "length sent \<le> nat (sendFirstNotifications n) + length (reminders_of n sent)"
    by (simp add: reminders_of_def)
  moreover have "0 < sendFirstNotifications n" using assms(1) by (simp add: valid_reminders_def)
  ultimately show ?thesis by simp
qed

lemma reminders_of_Cons:
  "reminders_of n (t # sent) = (if int (length sent) < sendFirstNotifications n then [] else t # reminders_of n sent)"
proof (cases "int (length sent) < sendFirstNotifications n")
  case False
  then have "length (t # sent) - nat (sendFirstNotifications n) = Suc (length sent - nat (sendFirstNotifications n))" by auto
  with False show ?thesis unfolding reminders_of_def by simp
qed (auto simp: reminders_of_def)

lemma runs_inv_sent:
  assumes valid: "valid_reminders n" and inv: "runs_inv n activation t a sent"
    and act: "0 < activation" "int64 activation" and now: "t \<le> now" "0 < now" "int64 now"
    and sends: "sends (alert_decision n now a)" and small: "int64 (int (length sent) + 1)"
  shows "runs_inv n activation now (record_sent a (notificationSentUpdate a now)) (now # sent)"
proof -
  have count: "NotificationCount (record_sent a (notificationSentUpdate a now)) = int (length (now # sent))"
    "LastNotificationTime (record_sent a (notificationSentUpdate a now)) = now"
    using inv small by (simp_all add: record_sent_def notificationSentUpdate_def Let_def runs_inv_def add.commute)
  have times: "list_all (\<lambda>s. 0 < s \<and> s \<le> now \<and> int64 s) (now # sent)"
    using inv now by (auto simp: runs_inv_def list_all_iff)
  have reminders: "list_all (in_period n activation) (reminders_of n (now # sent))
      \<and> sorted_wrt (>) (map (reminder_slot n activation) (reminders_of n (now # sent)))"
  proof (cases "int (length sent) < sendFirstNotifications n")
    case False
    have last: "0 \<le> LastNotificationTime a" "int64 (LastNotificationTime a)"
      using inv by (cases sent; auto simp: runs_inv_def int64_def)+
    have "in_period n activation now \<and> \<not> (in_period n activation (LastNotificationTime a)
        \<and> reminder_slot n activation (LastNotificationTime a) = reminder_slot n activation now)"
      using sends reminder_sends [OF valid act _ now(3) last, of "int (length sent)"] False inv now(2)
      by (auto simp: alert_decision_def runs_inv_def in_period_def reminder_slot_def)
    moreover have "reminder_slot n activation s < reminder_slot n activation now"
      if s: "s \<in> set (reminders_of n sent)" "in_period n activation now"
        "\<not> (in_period n activation (LastNotificationTime a) \<and> reminder_slot n activation (LastNotificationTime a) = reminder_slot n activation now)" for s
    proof -
      obtain r rs where rs: "reminders_of n sent = r # rs" using s(1) by (cases "reminders_of n sent") auto
      then obtain k where "take k sent = r # rs" unfolding reminders_of_def by blast
      then have r: "sent \<noteq> []" "r = hd sent" by (cases sent; cases k; simp)+
      then have "in_period n activation r" "LastNotificationTime a = r"
        using inv rs by (auto simp: runs_inv_def)
      moreover have "r \<le> now"
        using inv now(1) r by (cases sent) (auto simp: runs_inv_def)
      ultimately have "reminder_slot n activation r < reminder_slot n activation now"
        using s(3) valid_millis(1) [OF valid] zdiv_mono1 [of "r - activation" "now - activation"]
        by (fastforce simp: reminder_slot_def less_le)
      moreover have "reminder_slot n activation s \<le> reminder_slot n activation r"
        using s(1) inv rs by (auto simp: runs_inv_def)
      ultimately show ?thesis by simp
    qed
    ultimately show ?thesis using False inv by (auto simp: reminders_of_Cons runs_inv_def)
  qed (simp add: reminders_of_Cons)
  show ?thesis
    using count times reminders inv now(2) by (auto simp: runs_inv_def activation_record_sent)
qed

lemma reminder_runs_inv:
  assumes "reminder_runs n a0 t a sent" and "valid_reminders n" and "NotificationCount a0 = 0" and "LastNotificationTime a0 = 0"
    and "0 < activationTimeForNotification a0" and "int64 (activationTimeForNotification a0)"
    and "int64 (sendFirstNotifications n + lastReminderSlotIndex (reminderInterval n) (reminderDuration n) + 2)"
  shows "runs_inv n (activationTimeForNotification a0) t a sent"
  using assms(1)
proof (induction rule: reminder_runs.induct)
  case runs_start
  show ?case using assms(3,4) by (simp add: runs_inv_def reminders_of_def)
next
  case (runs_sent t a sent now)
  have "int64 (int (length sent) + 1)"
    using runs_inv_length [OF assms(2) runs_sent.IH] assms(7) by (simp add: int64_def)
  with runs_sent assms(2,5,6) show ?case by (intro runs_inv_sent)
next
  case (runs_skipped t a sent now)
  then show ?case by (auto simp: runs_inv_def list_all_iff)
qed



definition example_alert :: "string \<Rightarrow> int \<Rightarrow> Alert" where
  "example_alert i observed = \<lparr>AlertId = i, Criticality = ''critical'', Title = ''t'', AlertMessage = ''m'', CreatedAt = 0,
     UpdatedAt = 0, FirstObservedAt = 0, LastObservedAt = observed, AlertTenantId = ''tenant'', Functionality = ''fleet'',
     FunctionalityEntityId = ''e'', FunctionalityEntityName = ''E'', FunctionalityType = ''health_check'', AlertStatus = 1,
     UpdatedBy = '''', Dismissed = False, AlertType = ''external'', ErrorMessage = '''', ErrorCode = '''', DataPlaneId = '''',
     SecondaryEntityId = '''', AlertAction = '''', LastActivationTime = 0, NotificationCount = 0, LastNotificationTime = 0\<rparr>"

definition daily_reminders :: CustomerNotificationReminderConfig where
  "daily_reminders = \<lparr>sendFirstNotifications = 1, reminderInterval = 86400000000000, reminderDuration = 172800000000000\<rparr>"


end
