(* ===== verification/Notif_Email.thy ===== *)
theory Notif_Email
  imports Notif_Reminder
begin

text \<open>
  The messages of \<open>notifications_for_alerts.go\<close>: titles, themes and the details of the customer mails, the
  aggregation of alerts, and the match of an alert's functionality with a module.

  The title casing of \<open>golang.org/x/text\<close>, the local rendering of a time, the sorting of \<open>sort.Slice\<close> and
  the templates read from files are arguments; \<open>html.EscapeString\<close> is written out.
\<close>

section \<open>Mail texts\<close>

record email_lib =
  title_case :: "string \<Rightarrow> string"
  format_rfc3339 :: "int \<Rightarrow> string"
  sort_slice :: "(Alert \<Rightarrow> int) \<Rightarrow> Alert list \<Rightarrow> Alert list"

definition toTitleCase :: "email_lib \<Rightarrow> string \<Rightarrow> string" where
  "toTitleCase lib value = (if value = '''' then value else title_case lib value)"

definition buildEmailTitle :: "email_lib \<Rightarrow> string \<Rightarrow> string" where
  "buildEmailTitle lib functionalityType =
     (if functionalityType = ''ingestion_checker'' then toTitleCase lib ''No new data ingested''
      else if functionalityType = ''delivery_checker'' then toTitleCase lib ''No data delivered''
      else toTitleCase lib (go_replace_all (go_replace_all functionalityType ''_'' '' '') ''-'' '' ''))"

definition LastReminderAlertsSectionHeading :: string where
  "LastReminderAlertsSectionHeading = ''Last Reminder Alerts''"

definition LastReminderEmailTitlePrefix :: string where
  "LastReminderEmailTitlePrefix = ''Final Reminder: ''"

definition buildLastReminderEmailTitle :: "string \<Rightarrow> string" where
  "buildLastReminderEmailTitle baseTitle = LastReminderEmailTitlePrefix @ baseTitle"

definition buildLastReminderEmailSubject :: "string \<Rightarrow> string \<Rightarrow> string" where
  "buildLastReminderEmailSubject tenantName emailTitle =
     ''DataBahn.ai Final Reminder - '' @ tenantName @ '' - '' @ emailTitle"

definition escape_char :: "char \<Rightarrow> string" where
  "escape_char c =
     (if c = CHR ''&'' then ''&amp;'' else if c = CHR 0x27 then ''&#39;'' else if c = CHR ''<'' then ''&lt;''
      else if c = CHR ''>'' then ''&gt;'' else if c = CHR 0x22 then ''&#34;'' else [c])"

definition html_escape :: "string \<Rightarrow> string" where
  "html_escape s = concat (map escape_char s)"

definition formatMessageForEmail :: "string \<Rightarrow> string" where
  "formatMessageForEmail message = go_replace_all (html_escape message) [CHR 0x0A] ''<br>''"

definition formatObservedAtForEmail :: "email_lib \<Rightarrow> Alert \<Rightarrow> string" where
  "formatObservedAtForEmail lib alert =
     (let observedAt = (if LastObservedAt alert \<le> 0 then FirstObservedAt alert else LastObservedAt alert) in
      if observedAt \<le> 0 then '''' else format_rfc3339 lib observedAt)"

section \<open>Themes and details\<close>

record EmailTheme =
  Accent :: string
  Heading :: string
  EntityHeading :: string
  SectionBackground :: string
  LastSectionBackground :: string
  CardBorder :: string
  BadgeBackground :: string
  LastAccent :: string

definition errorEmailTheme :: EmailTheme where
  "errorEmailTheme = \<lparr>Accent = ''#E85D5D'', Heading = ''#C03939'', EntityHeading = ''#C03939'', SectionBackground = ''#FEF2F2'',
     LastSectionBackground = ''#FEF2F2'', CardBorder = ''#F5D5D5'', BadgeBackground = ''#FDE8E8'', LastAccent = ''#C03939''\<rparr>"

definition warningEmailTheme :: EmailTheme where
  "warningEmailTheme = \<lparr>Accent = ''#E8943A'', Heading = ''#C47A15'', EntityHeading = ''#C47A15'', SectionBackground = ''#FFF8F0'',
     LastSectionBackground = ''#FFEFD9'', CardBorder = ''#F5E4CC'', BadgeBackground = ''#FFEFD9'', LastAccent = ''#C47A15''\<rparr>"

definition greenEmailTheme :: EmailTheme where
  "greenEmailTheme = \<lparr>Accent = ''#45C96A'', Heading = ''#1F7A4A'', EntityHeading = ''#2B8A58'', SectionBackground = ''#F0FBF4'',
     LastSectionBackground = ''#D4F5DE'', CardBorder = ''#C8EBD4'', BadgeBackground = ''#D4F5DE'', LastAccent = ''#2B8A58''\<rparr>"

fun theme_loop :: "Alert list \<Rightarrow> bool \<Rightarrow> EmailTheme" where
  "theme_loop [] hasWarning = (if hasWarning then warningEmailTheme else greenEmailTheme)"
| "theme_loop (alert # alerts) hasWarning =
     (if Criticality alert = ''critical'' \<or> Criticality alert = ''severe'' then errorEmailTheme
      else theme_loop alerts (hasWarning \<or> Criticality alert = ''warning''))"

definition emailThemeForAlertList :: "Alert list \<Rightarrow> EmailTheme" where
  "emailThemeForAlertList alerts = theme_loop alerts False"

definition emailThemeForAlerts :: "AlertsForNotification \<Rightarrow> EmailTheme" where
  "emailThemeForAlerts alerts =
     emailThemeForAlertList ((newAlerts alerts @ reminderAlerts alerts) @ lastNotificationAlerts alerts)"

record EmailTemplateDetails =
  DetailEntityName :: string
  DetailMessage :: string
  DetailLastObservedAt :: string
  DetailTitle :: string
  ReminderNumber :: int
  DetailTheme :: EmailTheme

record EmailAlertSection =
  SectionHeading :: string
  Details :: "EmailTemplateDetails list"

record EmailTemplate =
  TemplateName :: string
  TemplateTitle :: string
  TemplateTheme :: EmailTheme
  NewAlerts :: "EmailAlertSection option"
  ReminderAlerts :: "EmailAlertSection option"
  LastReminderAlerts :: "EmailAlertSection option"

definition email_detail :: "email_lib \<Rightarrow> EmailTheme \<Rightarrow> int \<Rightarrow> Alert \<Rightarrow> EmailTemplateDetails" where
  "email_detail lib theme number alert =
     \<lparr>DetailEntityName = html_escape (FunctionalityEntityName alert),
      DetailMessage = formatMessageForEmail (AlertMessage alert),
      DetailLastObservedAt = formatObservedAtForEmail lib alert,
      DetailTitle = toTitleCase lib (html_escape (Title alert)),
      ReminderNumber = number, DetailTheme = theme\<rparr>"

definition alertsToEmailDetails :: "email_lib \<Rightarrow> Alert list \<Rightarrow> EmailTheme \<Rightarrow> EmailTemplateDetails list" where
  "alertsToEmailDetails lib alerts theme = map (email_detail lib theme 0) alerts"

definition alertsToReminderEmailDetails :: "email_lib \<Rightarrow> Alert list \<Rightarrow> EmailTheme \<Rightarrow> EmailTemplateDetails list" where
  "alertsToReminderEmailDetails lib alerts theme =
     map (\<lambda>alert. email_detail lib theme (NotificationCount alert) alert) (sort_slice lib NotificationCount alerts)"

definition last_reminder_template :: "email_lib \<Rightarrow> string \<Rightarrow> Alert list \<Rightarrow> EmailTemplate" where
  "last_reminder_template lib emailTitle alerts =
     (let theme = emailThemeForAlertList alerts in
      \<lparr>TemplateName = ''Dear Team,'', TemplateTitle = emailTitle, TemplateTheme = theme,
       NewAlerts = None, ReminderAlerts = None,
       LastReminderAlerts = Some \<lparr>SectionHeading = LastReminderAlertsSectionHeading,
                                  Details = alertsToReminderEmailDetails lib alerts theme\<rparr>\<rparr>)"

definition email_template :: "email_lib \<Rightarrow> string \<Rightarrow> AlertsForNotification \<Rightarrow> EmailTemplate" where
  "email_template lib emailTitle alerts =
     (let theme = emailThemeForAlerts alerts in
      \<lparr>TemplateName = ''Dear Team,'', TemplateTitle = emailTitle, TemplateTheme = theme,
       NewAlerts = (if length (newAlerts alerts) > 0
                    then Some \<lparr>SectionHeading = ''New Alerts'', Details = alertsToEmailDetails lib (newAlerts alerts) theme\<rparr>
                    else None),
       ReminderAlerts = (if length (reminderAlerts alerts) > 0
                         then Some \<lparr>SectionHeading = ''Reminder Alerts'',
                                    Details = alertsToReminderEmailDetails lib (reminderAlerts alerts) theme\<rparr>
                         else None),
       LastReminderAlerts = None\<rparr>)"

section \<open>Modules and aggregation\<close>

definition prefixMatchModules :: "string list" where
  "prefixMatchModules = [''fleet'', ''volume_control'']"

definition alertFunctionalityMatchesModuleName :: "string \<Rightarrow> string \<Rightarrow> bool" where
  "alertFunctionalityMatchesModuleName functionality moduleName =
     (let exactMatch = go_equal_fold functionality moduleName in
      if exactMatch then True
      else (case find (\<lambda>prefix. go_equal_fold prefix moduleName) prefixMatchModules of
              Some prefix \<Rightarrow> go_has_prefix (go_to_lower functionality) prefix
            | None \<Rightarrow> exactMatch))"

definition FunctionalitiesRequiringAggregation :: "string list" where
  "FunctionalitiesRequiringAggregation = [''agent'']"

definition aggregationRequired :: "string \<Rightarrow> bool" where
  "aggregationRequired functionality = list_ex (\<lambda>f. f = functionality) FunctionalitiesRequiringAggregation"

definition aggregate_alerts :: "string \<Rightarrow> Alert \<Rightarrow> Alert list \<Rightarrow> Alert" where
  "aggregate_alerts functionality a0 alerts =
     (let n = go_itoa (int (length alerts));
          a1 = a0\<lparr>Title := ''Aggregated '' @ functionality @ '' Alert ('' @ n @ '' Entities)'',
                  AlertMessage := go_join [CHR 0x0A] (map (\<lambda>a. FunctionalityEntityName a @ '': '' @ AlertMessage a) alerts)\<rparr>;
          a2 = (if length alerts > 1
                then a1\<lparr>FunctionalityEntityName := ''Multiple Entities ('' @ n @ '')''\<rparr> else a1) in
      fold (\<lambda>a agg. if LastObservedAt a > LastObservedAt agg then agg\<lparr>LastObservedAt := LastObservedAt a\<rparr> else agg)
        alerts a2)"

definition aggregateAlertbyfunctionalityType ::
  "string \<Rightarrow> (string \<times> Alert list) list \<Rightarrow> (string \<times> Alert list) list" where
  "aggregateAlertbyfunctionalityType functionality alertsByFunctionalityType =
     concat (map (\<lambda>(functionalityType, alerts).
       case alerts of
         [] \<Rightarrow> []
       | a0 # _ \<Rightarrow> [(functionalityType, [aggregate_alerts functionality a0 alerts])]) alertsByFunctionalityType)"

section \<open>Properties\<close>

lemma theme_loop_eq:
  "theme_loop alerts w =
     (if list_ex (\<lambda>a. Criticality a = ''critical'' \<or> Criticality a = ''severe'') alerts then errorEmailTheme
      else if w \<or> list_ex (\<lambda>a. Criticality a = ''warning'') alerts then warningEmailTheme
      else greenEmailTheme)"
  by (induction alerts w rule: theme_loop.induct) auto

text \<open>An escaped text has no markup of its own.\<close>

lemma html_escape_no_markup: "CHR ''<'' \<notin> set (html_escape s) \<and> CHR ''>'' \<notin> set (html_escape s) \<and> CHR 0x22 \<notin> set (html_escape s)"
  by (induction s) (auto simp: html_escape_def escape_char_def)

lemma aggregate_observed:
  "LastObservedAt (fold (\<lambda>a agg. if LastObservedAt a > LastObservedAt agg then agg\<lparr>LastObservedAt := LastObservedAt a\<rparr> else agg) alerts agg)
     = fold max (map LastObservedAt alerts) (LastObservedAt agg)"
  by (induction alerts arbitrary: agg) (auto simp: max_def)

lemma aggregate_identity:
  "AlertId (fold (\<lambda>a agg. if LastObservedAt a > LastObservedAt agg then agg\<lparr>LastObservedAt := LastObservedAt a\<rparr> else agg) alerts agg) = AlertId agg
   \<and> AlertMessage (fold (\<lambda>a agg. if LastObservedAt a > LastObservedAt agg then agg\<lparr>LastObservedAt := LastObservedAt a\<rparr> else agg) alerts agg) = AlertMessage agg"
  by (induction alerts arbitrary: agg) auto

lemma fold_max_bounds: "(m::int) \<le> fold max xs m \<and> (\<forall>x \<in> set xs. x \<le> fold max xs m) \<and> fold max xs m \<in> insert m (set xs)"
proof (induction xs arbitrary: m)
  case (Cons x xs)
  from Cons [of "max x m"] show ?case by (auto simp: max_def split: if_splits)
qed simp

text \<open>The aggregated alert of a group keeps the identity of its first alert, is observed when the latest
  of the group was, and its message has the line of every alert of the group, in order.\<close>

theorem aggregate_alerts_spec:
  assumes "alerts = a0 # rest"
  shows "AlertId (aggregate_alerts functionality a0 alerts) = AlertId a0
     \<and> AlertMessage (aggregate_alerts functionality a0 alerts) =
         go_join [CHR 0x0A] (map (\<lambda>a. FunctionalityEntityName a @ '': '' @ AlertMessage a) alerts)
     \<and> LastObservedAt (aggregate_alerts functionality a0 alerts) = Max (set (map LastObservedAt alerts))"
proof -
  have "fold max (map LastObservedAt alerts) (LastObservedAt a0) = Max (set (map LastObservedAt alerts))"
    using fold_max_bounds [of "LastObservedAt a0" "map LastObservedAt alerts"] assms
    by (intro Max_eqI [symmetric]) auto
  then show ?thesis by (simp add: aggregate_alerts_def Let_def aggregate_observed aggregate_identity)
qed

theorem aggregate_alerts_spec_witness:
  "LastObservedAt (aggregate_alerts ''agent'' (example_alert ''a'' 5) [example_alert ''a'' 5, example_alert ''b'' 9]) = 9"
proof -
  have "LastObservedAt (aggregate_alerts ''agent'' (example_alert ''a'' 5) [example_alert ''a'' 5, example_alert ''b'' 9]) =
      Max (set (map LastObservedAt [example_alert ''a'' 5, example_alert ''b'' 9]))"
    using aggregate_alerts_spec [of "[example_alert ''a'' 5, example_alert ''b'' 9]" "example_alert ''a'' 5" "[example_alert ''b'' 9]" "''agent''"] by simp
  also have "\<dots> = 9" by (simp add: example_alert_def)
  finally show ?thesis .
qed

end
