(* ===== verification/Notif_Run.thy ===== *)
theory Notif_Run
  imports Notif_Email Open_Search
begin

text \<open>
  The notification job of \<open>notifications_for_alerts.go\<close> with the tables of \<open>cp_alerts/entities\<close> and the
  messages of \<open>cp_alerts/notification\<close> and \<open>cp_alerts/alert\<close>.

  \<open>notif_world\<close> is what the job reads and writes: the calls to OpenSearch, the tables, the messages handed
  to Kafka (sending is asynchronous and does not fail), and how often the clock and the database were
  asked.  \<open>notif_env\<close> holds what is outside: the answers of OpenSearch, the failing queries, the clock, new
  ids, the decoder of alerts, the templates, and the order in which Go ranges over maps.
\<close>

section \<open>State\<close>

record Tenant =
  TenantId :: string
  TenantName :: string

record ModuleTenantConfigData =
  SourceIds :: "string list"
  IncludeExclude :: string

record ModuleTenantMapping =
  MtTenantID :: string
  MtModuleID :: string
  MtModuleName :: string
  MtEnabled :: bool
  ModuleTenantConfig :: "ModuleTenantConfigData option"

record ModuleTargets =
  MgModuleID :: string
  MgModuleName :: string
  MgTargetID :: string
  MgTargetTenantID :: string

record AlertNotificationCheckpoint =
  CpId :: string
  CpTenantId :: string
  CpLastObservedAt :: int
  CpAlertType :: string

datatype outgoing =
    OpsGenie string string
  | Email "(string \<times> string) list" string string
  | NotificationSent string int int "int option"

record notif_world =
  nw_calls :: "ext_call list"
  nw_mappings :: "ModuleTenantMapping list"
  nw_targets :: "ModuleTargets list"
  nw_checkpoints :: "AlertNotificationCheckpoint list"
  nw_sent :: "outgoing list"
  nw_queries :: nat
  nw_clock :: nat

type_synonym alert_groups = "(string \<times> (string \<times> Alert list) list) list"

record notif_env =
  ne_client :: ext_client
  ne_fuel :: nat
  ne_fault :: "nat \<Rightarrow> go_error option"
  ne_clock :: "nat \<Rightarrow> go_time"
  ne_uuid :: "nat \<Rightarrow> string"
  ne_decode :: "json_map list \<Rightarrow> go_error + Alert list"
  ne_lib :: email_lib
  ne_render :: "EmailTemplate \<Rightarrow> go_error + string"
  ne_render_ops :: "string \<Rightarrow> Alert \<Rightarrow> go_error + string"
  ne_order_groups :: "alert_groups \<Rightarrow> alert_groups"
  ne_order_types :: "(string \<times> Alert list) list \<Rightarrow> (string \<times> Alert list) list"
  ne_order_targets :: "(string \<times> string list) list \<Rightarrow> (string \<times> string list) list"
  ne_order_updates :: "(string \<times> NotificationSentUpdate) list \<Rightarrow> (string \<times> NotificationSentUpdate) list"

definition nw_query :: "notif_env \<Rightarrow> (notif_world \<Rightarrow> 'a) \<Rightarrow> (notif_world, 'a) eff" where
  "nw_query env f w =
     (let w' = w\<lparr>nw_queries := Suc (nw_queries w)\<rparr> in
      case ne_fault env (nw_queries w) of Some e \<Rightarrow> (Err e, w') | None \<Rightarrow> (Ok (f w), w'))"

definition nw_now :: "notif_env \<Rightarrow> (notif_world, go_time) eff" where
  "nw_now env w = (Ok (ne_clock env (nw_clock w)), w\<lparr>nw_clock := Suc (nw_clock w)\<rparr>)"

definition nw_send :: "outgoing \<Rightarrow> (notif_world, unit) eff" where
  "nw_send m w = (Ok (), w\<lparr>nw_sent := nw_sent w @ [m]\<rparr>)"

definition nw_search :: "'a ext \<Rightarrow> (notif_world, 'a) eff" where
  "nw_search m w = (case m (nw_calls w) of (r, h) \<Rightarrow> (r, w\<lparr>nw_calls := h\<rparr>))"

section \<open>Tables\<close>

definition GetAlertNotificationCheckpoint ::
  "notif_env \<Rightarrow> string \<Rightarrow> string \<Rightarrow> (notif_world, AlertNotificationCheckpoint option) eff" where
  "GetAlertNotificationCheckpoint env tenantId alertType =
     nw_query env (\<lambda>w. find (\<lambda>cp. CpTenantId cp = tenantId \<and> CpAlertType cp = alertType) (nw_checkpoints w))"

text \<open>\<open>Save\<close> updates the row of the id or inserts it.\<close>

definition save_checkpoint ::
  "AlertNotificationCheckpoint \<Rightarrow> AlertNotificationCheckpoint list \<Rightarrow> AlertNotificationCheckpoint list" where
  "save_checkpoint cp rows =
     (if list_ex (\<lambda>r. CpId r = CpId cp) rows then map (\<lambda>r. if CpId r = CpId cp then cp else r) rows
      else rows @ [cp])"

definition UpdateAlertNotificationCheckpoint ::
  "notif_env \<Rightarrow> AlertNotificationCheckpoint \<Rightarrow> (notif_world, unit) eff" where
  "UpdateAlertNotificationCheckpoint env cp w =
     (let w' = w\<lparr>nw_queries := Suc (nw_queries w)\<rparr> in
      case ne_fault env (nw_queries w) of
        Some e \<Rightarrow> (Err e, w')
      | None \<Rightarrow> (Ok (), w'\<lparr>nw_checkpoints := save_checkpoint cp (nw_checkpoints w)\<rparr>))"

definition LoadTenantToModuleToConfigs ::
  "notif_env \<Rightarrow> (notif_world, (string \<times> (string \<times> ModuleTenantConfigData) list) list) eff" where
  "LoadTenantToModuleToConfigs env =
     bind_eff (nw_query env (\<lambda>w. filter MtEnabled (nw_mappings w))) (\<lambda>mappings.
       eff_return (fold (\<lambda>mp configMap.
         case ModuleTenantConfig mp of
           None \<Rightarrow> configMap
         | Some cfg \<Rightarrow>
             AList.update (MtTenantID mp)
               (AList.update (MtModuleName mp) cfg
                  (case map_of configMap (MtTenantID mp) of None \<Rightarrow> [] | Some byModule \<Rightarrow> byModule)) configMap)
         mappings []))"

definition GetTargetsForTenantByModule ::
  "notif_env \<Rightarrow> string \<Rightarrow> (notif_world, (string \<times> string list) list) eff" where
  "GetTargetsForTenantByModule env tenantId =
     bind_eff (nw_query env (\<lambda>w. filter (\<lambda>mp. MtTenantID mp = tenantId) (nw_mappings w))) (\<lambda>moduleTenants.
       let enabledModuleIds = map MtModuleID (filter MtEnabled moduleTenants) in
       if enabledModuleIds = [] then eff_return []
       else
         bind_eff (nw_query env (\<lambda>w. filter (\<lambda>mt. MgModuleID mt \<in> set enabledModuleIds \<and> MgTargetTenantID mt = tenantId)
                                        (nw_targets w))) (\<lambda>moduleTargets.
           eff_return (fold (\<lambda>mt. group_append (MgModuleName mt) (MgTargetID mt)) moduleTargets [])))"

section \<open>Sending\<close>

definition sendSupportNotification :: "notif_env \<Rightarrow> Tenant \<Rightarrow> bool \<Rightarrow> Alert \<Rightarrow> (notif_world, unit) eff" where
  "sendSupportNotification env t isInternal alert =
     (let emailTitle = FunctionalityType alert @ '':'' @ TenantName t @ '':'' @ FunctionalityEntityName alert
            @ (if isInternal then '':internal'' else '''') in
      bind_eff (eff_result (ne_render_ops env (TenantName t) alert)) (\<lambda>body. nw_send (OpsGenie emailTitle body)))"

fun send_supports :: "notif_env \<Rightarrow> Tenant \<Rightarrow> bool \<Rightarrow> Alert list \<Rightarrow> (notif_world, unit) eff" where
  "send_supports env t isInternal [] = eff_return ()"
| "send_supports env t isInternal (alert # alerts) =
     bind_eff (sendSupportNotification env t isInternal alert) (\<lambda>_. send_supports env t isInternal alerts)"

fun send_updates :: "(string \<times> NotificationSentUpdate) list \<Rightarrow> (notif_world, unit) eff" where
  "send_updates [] = eff_return ()"
| "send_updates ((alertID, upd) # updates) =
     bind_eff (nw_send (NotificationSent alertID (UpdNotificationCount upd) (UpdLastNotificationTime upd)
                 (if UpdLastActivationTime upd > 0 then Some (UpdLastActivationTime upd) else None)))
       (\<lambda>_. send_updates updates)"

definition RecordNotificationSent :: "notif_env \<Rightarrow> (string \<times> NotificationSentUpdate) list \<Rightarrow> (notif_world, unit) eff" where
  "RecordNotificationSent env updates = (if updates = [] then eff_return () else send_updates (ne_order_updates env updates))"

text \<open>The alerts that a module of the tenant is interested in.\<close>

definition module_alerts ::
  "(string \<times> (string \<times> ModuleTenantConfigData) list) list \<Rightarrow> string \<Rightarrow> string \<Rightarrow> string \<Rightarrow> Alert list \<Rightarrow> Alert list" where
  "module_alerts configs tenantId functionality modulesName alerts =
     (if functionality = ''log_source'' \<or> functionality = ''cloud_log_source'' then
        (case map_of configs tenantId of
           None \<Rightarrow> alerts
         | Some moduleConfigMap \<Rightarrow>
             (case map_of moduleConfigMap modulesName of
                None \<Rightarrow> alerts
              | Some cfg \<Rightarrow>
                  if IncludeExclude cfg = ''EXCLUDE''
                  then filter (\<lambda>a. FunctionalityEntityId a \<notin> set (SourceIds cfg)) alerts
                  else alerts))
      else alerts)"

definition notified :: "int \<Rightarrow> Alert list \<Rightarrow> (string \<times> NotificationSentUpdate) list \<Rightarrow> (string \<times> NotificationSentUpdate) list" where
  "notified now alerts updates = fold (\<lambda>a. AList.update (AlertId a) (notificationSentUpdate a now)) alerts updates"

definition notify_module ::
  "notif_env \<Rightarrow> Tenant \<Rightarrow> string \<Rightarrow> (string \<times> string) list \<Rightarrow> AlertsForNotification \<Rightarrow> (notif_world, unit) eff" where
  "notify_module env t functionalityType databahnTargets finalAlerts =
     (let emailTitle = buildEmailTitle (ne_lib env) functionalityType in
      bind_eff (nw_now env) (\<lambda>time. let now = unix_milli time in
      bind_eff (if hasRegularAlerts finalAlerts then
                  bind_eff (eff_result (ne_render env (email_template (ne_lib env) emailTitle finalAlerts))) (\<lambda>body.
                  bind_eff (nw_send (Email databahnTargets
                              (''DataBahn.ai Alert - '' @ TenantName t @ '' - '' @ emailTitle) body)) (\<lambda>_.
                    eff_return (notified now (newAlerts finalAlerts @ reminderAlerts finalAlerts) [])))
                else eff_return []) (\<lambda>updates.
      bind_eff (if length (lastNotificationAlerts finalAlerts) > 0 then
                  bind_eff (eff_result (ne_render env (last_reminder_template (ne_lib env)
                              (buildLastReminderEmailTitle emailTitle) (lastNotificationAlerts finalAlerts)))) (\<lambda>body.
                  bind_eff (nw_send (Email databahnTargets (buildLastReminderEmailSubject (TenantName t) emailTitle) body)) (\<lambda>_.
                    eff_return (notified now (lastNotificationAlerts finalAlerts) updates)))
                else eff_return updates) (\<lambda>updates.
        RecordNotificationSent env updates))))"

fun send_customers ::
  "notif_env \<Rightarrow> Tenant \<Rightarrow> string \<Rightarrow> string \<Rightarrow> Alert list \<Rightarrow> (string \<times> (string \<times> ModuleTenantConfigData) list) list
     \<Rightarrow> CustomerNotificationReminderConfig \<Rightarrow> (string \<times> string list) list \<Rightarrow> (notif_world, unit) eff" where
  "send_customers env t functionalityType functionality alerts configs reminderConfig [] = eff_return ()"
| "send_customers env t functionalityType functionality alerts configs reminderConfig ((modulesName, targets) # modules) =
     (if alertFunctionalityMatchesModuleName functionality modulesName then
        bind_eff (nw_now env) (\<lambda>time.
        let finalAlerts = decideAlertsForNotificationAt (module_alerts configs (TenantId t) functionality modulesName alerts)
                            reminderConfig (unix_milli time) in
        if \<not> hasRegularAlerts finalAlerts \<and> length (lastNotificationAlerts finalAlerts) = 0
        then send_customers env t functionalityType functionality alerts configs reminderConfig modules
        else bind_eff (notify_module env t functionalityType (map (\<lambda>target. (TenantId t, target)) targets) finalAlerts) (\<lambda>_.
               send_customers env t functionalityType functionality alerts configs reminderConfig modules))
      else send_customers env t functionalityType functionality alerts configs reminderConfig modules)"

definition sendCustomerNotification ::
  "notif_env \<Rightarrow> Tenant \<Rightarrow> string \<Rightarrow> string \<Rightarrow> Alert list \<Rightarrow> (string \<times> string list) list
     \<Rightarrow> (string \<times> (string \<times> ModuleTenantConfigData) list) list \<Rightarrow> CustomerNotificationReminderConfig \<Rightarrow> (notif_world, unit) eff" where
  "sendCustomerNotification env t functionalityType functionality alerts targetsByModuleName configs reminderConfig =
     send_customers env t functionalityType functionality alerts configs reminderConfig
       (ne_order_targets env targetsByModuleName)"

section \<open>Reading\<close>

definition put_alert :: "Alert \<Rightarrow> alert_groups \<Rightarrow> alert_groups" where
  "put_alert alert m =
     (case map_of m (Functionality alert) of
        Some byType \<Rightarrow> AList.update (Functionality alert) (group_append (FunctionalityType alert) alert byType) m
      | None \<Rightarrow> AList.update (Functionality alert) [(FunctionalityType alert, [alert])] m)"

definition put_latest :: "Alert \<Rightarrow> int \<Rightarrow> int" where
  "put_latest alert latest = (if LastObservedAt alert > latest then LastObservedAt alert else latest)"

definition alert_sort :: "Sort list" where
  "alert_sort = [\<lparr>SortField = ''lastObservedAt'', Order = ''asc''\<rparr>, \<lparr>SortField = ''id'', Order = ''asc''\<rparr>]"

definition alert_query :: "int \<Rightarrow> int \<Rightarrow> string \<Rightarrow> string" where
  "alert_query lastObservedAtFrom lastObservedAtTo tenantId =
     ''dismissed:false AND lastObservedAt:{'' @ go_itoa lastObservedAtFrom @ '' TO '' @ go_itoa lastObservedAtTo
       @ ''] AND tenantId:'' @ tenantId"

text \<open>The loop over the pages: \<open>fuel\<close> bounds their number.  A failing search ends the loop without an error.\<close>

fun read_pages ::
  "notif_env \<Rightarrow> string \<Rightarrow> string \<Rightarrow> nat \<Rightarrow> json list option \<Rightarrow> alert_groups \<Rightarrow> int
     \<Rightarrow> (notif_world, alert_groups \<times> int) eff" where
  "read_pages env indexName q 0 after groups latest = eff_out_of_fuel"
| "read_pages env indexName q (Suc fuel) after groups latest =
     bind_eff (try_eff (nw_search (SearchPaginated (ne_client env) indexName q 200 after alert_sort))) (\<lambda>r.
       case r of
         Inl _ \<Rightarrow> eff_return (groups, latest)
       | Inr (alertMap, newAfter) \<Rightarrow>
           bind_eff (eff_result (ne_decode env alertMap)) (\<lambda>alerts.
             let groups' = fold put_alert alerts groups; latest' = fold put_latest alerts latest in
             if int (length alertMap) < 200 then eff_return (groups', latest')
             else read_pages env indexName q fuel (Some newAfter) groups' latest'))"

definition readAlertsSinceCheckpoint ::
  "notif_env \<Rightarrow> string \<Rightarrow> int \<Rightarrow> string \<Rightarrow> int \<Rightarrow> (notif_world, alert_groups \<times> int) eff" where
  "readAlertsSinceCheckpoint env indexName lastObservedAtFrom tenantId latestLastObserveAt =
     bind_eff (nw_now env) (\<lambda>time.
       read_pages env indexName (alert_query lastObservedAtFrom (unix_milli (time - 2 * Minute)) tenantId)
         (ne_fuel env) None [] latestLastObserveAt)"

section \<open>A tenant\<close>

definition alerts_to_send :: "string \<Rightarrow> (string \<times> Alert list) list \<Rightarrow> (string \<times> Alert list) list" where
  "alerts_to_send functionality byType =
     (if aggregationRequired functionality then aggregateAlertbyfunctionalityType functionality byType else byType)"

fun external_types ::
  "notif_env \<Rightarrow> Tenant \<Rightarrow> (string \<times> string list) list \<Rightarrow> (string \<times> (string \<times> ModuleTenantConfigData) list) list
     \<Rightarrow> CustomerNotificationReminderConfig \<Rightarrow> string \<Rightarrow> (string \<times> Alert list) list \<Rightarrow> (notif_world, unit) eff" where
  "external_types env t targets configs reminderConfig functionality [] = eff_return ()"
| "external_types env t targets configs reminderConfig functionality ((functionalityType, alerts) # types) =
     bind_eff (send_supports env t False alerts) (\<lambda>_.
     bind_eff (if length targets > 0
               then sendCustomerNotification env t functionalityType functionality alerts targets configs reminderConfig
               else eff_return ()) (\<lambda>_.
       external_types env t targets configs reminderConfig functionality types))"

fun external_groups ::
  "notif_env \<Rightarrow> Tenant \<Rightarrow> (string \<times> string list) list \<Rightarrow> (string \<times> (string \<times> ModuleTenantConfigData) list) list
     \<Rightarrow> CustomerNotificationReminderConfig \<Rightarrow> alert_groups \<Rightarrow> (notif_world, unit) eff" where
  "external_groups env t targets configs reminderConfig [] = eff_return ()"
| "external_groups env t targets configs reminderConfig ((functionality, byType) # groups) =
     bind_eff (external_types env t targets configs reminderConfig functionality
                 (ne_order_types env (alerts_to_send functionality byType))) (\<lambda>_.
       external_groups env t targets configs reminderConfig groups)"

fun internal_groups :: "notif_env \<Rightarrow> Tenant \<Rightarrow> alert_groups \<Rightarrow> (notif_world, unit) eff" where
  "internal_groups env t [] = eff_return ()"
| "internal_groups env t ((functionality, byType) # groups) =
     bind_eff (send_supports env t True (concat (map snd (ne_order_types env (alerts_to_send functionality byType))))) (\<lambda>_.
       internal_groups env t groups)"

definition new_checkpoint :: "notif_env \<Rightarrow> Tenant \<Rightarrow> string \<Rightarrow> notif_world \<Rightarrow> AlertNotificationCheckpoint" where
  "new_checkpoint env t alertType w =
     \<lparr>CpId = ne_uuid env (nw_queries w), CpTenantId = TenantId t, CpLastObservedAt = 0, CpAlertType = alertType\<rparr>"

text \<open>The time from which alerts are read.\<close>

definition read_from :: "notif_env \<Rightarrow> AlertNotificationCheckpoint option \<Rightarrow> (notif_world, int) eff" where
  "read_from env checkpoint =
     bind_eff (nw_now env) (\<lambda>time. eff_return
       (case checkpoint of None \<Rightarrow> unix_milli (time - 30 * Minute) | Some cp \<Rightarrow> CpLastObservedAt cp))"

definition final_checkpoint ::
  "notif_env \<Rightarrow> Tenant \<Rightarrow> string \<Rightarrow> AlertNotificationCheckpoint option \<Rightarrow> (notif_world, AlertNotificationCheckpoint) eff" where
  "final_checkpoint env t alertType checkpoint w =
     (Ok (case checkpoint of None \<Rightarrow> new_checkpoint env t alertType w | Some cp \<Rightarrow> cp), w)"

definition processExternalAlerts ::
  "notif_env \<Rightarrow> (string \<times> (string \<times> ModuleTenantConfigData) list) list \<Rightarrow> CustomerNotificationReminderConfig \<Rightarrow> Tenant
     \<Rightarrow> (notif_world, unit) eff" where
  "processExternalAlerts env configs reminderConfig t =
     bind_eff (GetAlertNotificationCheckpoint env (TenantId t) ''external'') (\<lambda>checkpoint.
     bind_eff (read_from env checkpoint) (\<lambda>lastObservedAtFrom.
     bind_eff (GetTargetsForTenantByModule env (TenantId t)) (\<lambda>targets.
     bind_eff (final_checkpoint env t ''external'' checkpoint) (\<lambda>finalCheckpoint.
     bind_eff (readAlertsSinceCheckpoint env ''db_alerts'' lastObservedAtFrom (TenantId t) (CpLastObservedAt finalCheckpoint))
       (\<lambda>(groups, latest).
     bind_eff (external_groups env t targets configs reminderConfig (ne_order_groups env groups)) (\<lambda>_.
       UpdateAlertNotificationCheckpoint env (finalCheckpoint\<lparr>CpLastObservedAt := latest\<rparr>)))))))"

definition processInternalAlerts :: "notif_env \<Rightarrow> Tenant \<Rightarrow> (notif_world, unit) eff" where
  "processInternalAlerts env t =
     bind_eff (GetAlertNotificationCheckpoint env (TenantId t) ''internal'') (\<lambda>checkpoint.
     bind_eff (read_from env checkpoint) (\<lambda>lastObservedAtFrom.
     bind_eff (final_checkpoint env t ''internal'' checkpoint) (\<lambda>finalCheckpoint.
     bind_eff (readAlertsSinceCheckpoint env ''db_alerts_internal'' lastObservedAtFrom (TenantId t) (CpLastObservedAt finalCheckpoint))
       (\<lambda>(groups, latest).
     bind_eff (internal_groups env t (ne_order_groups env groups)) (\<lambda>_.
       UpdateAlertNotificationCheckpoint env (finalCheckpoint\<lparr>CpLastObservedAt := latest\<rparr>))))))"

section \<open>The job\<close>

fun for_tenants ::
  "string \<Rightarrow> (Tenant \<Rightarrow> (notif_world, unit) eff) \<Rightarrow> Tenant list \<Rightarrow> JobError list \<Rightarrow> (notif_world, JobError list) eff" where
  "for_tenants what process [] jobErrors = eff_return jobErrors"
| "for_tenants what process (t # ts) jobErrors =
     bind_eff (try_eff (process t)) (\<lambda>r.
       for_tenants what process ts
         (case r of Inr _ \<Rightarrow> jobErrors
          | Inl e \<Rightarrow> jobErrors @ [\<lparr>Message = ''failed process '' @ what @ '' alerts for tenant '' @ TenantId t @ '': '' @ e\<rparr>]))"

definition DatabahnTenantId :: string where
  "DatabahnTenantId = ''dbd00000-0000-0000-0000-000000000000''"

text \<open>
  The tenants and the two Kafka managers are results of code outside the model: an error ends the job.
\<close>

definition SendNotificationsForAlerts ::
  "notif_env \<Rightarrow> (string \<Rightarrow> string) \<Rightarrow> go_error + Tenant list \<Rightarrow> go_error option \<Rightarrow> go_error option \<Rightarrow> (notif_world, JobResult) eff" where
  "SendNotificationsForAlerts env getenv tenantsResult notificationManagerErr alertsManagerErr =
     (case tenantsResult of
        Inl e \<Rightarrow> eff_return (NewJobResultFromErrors [\<lparr>Message = ''error while getting tenants: '' @ e\<rparr>])
      | Inr tenants \<Rightarrow>
     (case notificationManagerErr of
        Some e \<Rightarrow> eff_return (NewJobResultFromErrors [\<lparr>Message = ''error while creating notification manager: '' @ e\<rparr>])
      | None \<Rightarrow>
     (let reminderConfig = NewCustomerNotificationReminderConfig getenv in
      case alertsManagerErr of
        Some e \<Rightarrow> eff_return (NewJobResultFromErrors [\<lparr>Message = ''error while creating alerts manager: '' @ e\<rparr>])
      | None \<Rightarrow>
          bind_eff (try_eff (LoadTenantToModuleToConfigs env)) (\<lambda>r.
            case r of
              Inl e \<Rightarrow>
                eff_return (NewJobResultFromErrors [\<lparr>Message = ''error while loading module tenant configs: '' @ e\<rparr>])
            | Inr configs \<Rightarrow>
                bind_eff (for_tenants ''external'' (processExternalAlerts env configs reminderConfig) tenants []) (\<lambda>jobErrors.
                bind_eff (for_tenants ''internal'' (processInternalAlerts env)
                            (tenants @ [\<lparr>TenantId = DatabahnTenantId, TenantName = ''Databahn Engineering''\<rparr>]) jobErrors) (\<lambda>jobErrors.
                  if jobErrors = [] then eff_return NewJobResultSuccess
                  else eff_return (NewJobResultFromErrors jobErrors)))))))"


section \<open>What sending leaves alone\<close>

text \<open>Messages are only added, and the checkpoints stay.\<close>

definition only_sends :: "notif_world \<Rightarrow> notif_world \<Rightarrow> bool" where
  "only_sends w w' \<longleftrightarrow> nw_checkpoints w' = nw_checkpoints w \<and> (\<exists>ms. nw_sent w' = nw_sent w @ ms)"

lemma preorder_only_sends: "preorder_rel only_sends"
  unfolding preorder_rel_def only_sends_def by (metis append.assoc append_Nil2)

lemmas only_sends_rules =
  keeps_simple [OF preorder_only_sends] keeps_bind [OF preorder_only_sends] keeps_try

lemma only_sends_basic:
  "keeps only_sends (nw_query env f)" "keeps only_sends (nw_now env)" "keeps only_sends (nw_send m)" "keeps only_sends (nw_search s)"
  "keeps only_sends (eff_result r)"
  by (auto simp: keeps_def only_sends_def nw_query_def nw_now_def nw_send_def nw_search_def eff_result_def Let_def
      split: option.split prod.split sum.split)

lemmas only_sends_intros = only_sends_rules only_sends_basic

lemma send_supports_only_sends: "keeps only_sends (send_supports env t i alerts)"
  by (induction alerts) (auto intro!: only_sends_intros simp: sendSupportNotification_def Let_def)

lemma send_updates_only_sends: "keeps only_sends (send_updates updates)"
  by (induction updates rule: send_updates.induct) (auto intro!: only_sends_intros)

lemma notify_module_only_sends: "keeps only_sends (notify_module env t ft targets alerts)"
  unfolding notify_module_def Let_def RecordNotificationSent_def
  by (auto intro!: only_sends_intros send_updates_only_sends)

lemma send_customers_only_sends: "keeps only_sends (send_customers env t ft f alerts configs rc modules)"
  by (induction modules) (auto intro!: only_sends_intros notify_module_only_sends simp: Let_def)

lemma external_types_only_sends: "keeps only_sends (external_types env t targets configs rc f types)"
  by (induction types)
    (auto intro!: only_sends_intros send_supports_only_sends send_customers_only_sends simp: sendCustomerNotification_def)

lemma external_groups_only_sends: "keeps only_sends (external_groups env t targets configs rc groups)"
  by (induction groups) (auto intro!: only_sends_intros external_types_only_sends)

lemma internal_groups_only_sends: "keeps only_sends (internal_groups env t groups)"
  by (induction groups) (auto intro!: only_sends_intros send_supports_only_sends)

lemma read_pages_only_sends: "keeps only_sends (read_pages env index q fuel after groups latest)"
  by (induction fuel arbitrary: after groups latest)
    (auto intro!: only_sends_intros simp: Let_def split: sum.split prod.split)

lemma readAlerts_only_sends: "keeps only_sends (readAlertsSinceCheckpoint env index from tenantId latest)"
  unfolding readAlertsSinceCheckpoint_def by (auto intro!: only_sends_intros read_pages_only_sends)

lemma GetTargets_only_sends: "keeps only_sends (GetTargetsForTenantByModule env tenantId)"
  unfolding GetTargetsForTenantByModule_def Let_def by (auto intro!: only_sends_intros)

lemma only_sendsD:
  assumes "keeps only_sends m" and "m w = (r, w')"
  shows "nw_checkpoints w' = nw_checkpoints w" and "set (nw_sent w) \<subseteq> set (nw_sent w')"
proof -
  have "only_sends w w'" using assms by (metis keeps_def snd_conv)
  then show "nw_checkpoints w' = nw_checkpoints w" "set (nw_sent w) \<subseteq> set (nw_sent w')"
    by (auto simp: only_sends_def)
qed

section \<open>The alerts that are read\<close>

interpretation ag: grouping "[] :: alert_groups" put_alert
  "\<lambda>m (f, ft). case map_of m f of None \<Rightarrow> [] | Some byType \<Rightarrow> group_members byType ft"
  "\<lambda>a. (Functionality a, FunctionalityType a)"
proof
  fix a :: Alert and m :: alert_groups and k :: "string \<times> string"
  have single: "group_members [(ft, [a])] ft' = (if ft = ft' then [a] else [])" for ft ft' :: string
    by (simp add: group_members_def)
  show "(case k of (f, ft) \<Rightarrow> case map_of [] f of None \<Rightarrow> [] | Some byType \<Rightarrow> group_members byType ft) = []"
    by (simp split: prod.split)
  show "(case k of (f, ft) \<Rightarrow> case map_of (put_alert a m) f of None \<Rightarrow> [] | Some byType \<Rightarrow> group_members byType ft) =
      (if (Functionality a, FunctionalityType a) = k
       then (case k of (f, ft) \<Rightarrow> case map_of m f of None \<Rightarrow> [] | Some byType \<Rightarrow> group_members byType ft) @ [a]
       else (case k of (f, ft) \<Rightarrow> case map_of m f of None \<Rightarrow> [] | Some byType \<Rightarrow> group_members byType ft))"
    by (cases k) (auto simp: put_alert_def single split: option.split)
qed

text \<open>The alerts held in the groups.\<close>

definition grouped_alerts :: "alert_groups \<Rightarrow> Alert list" where
  "grouped_alerts m = concat (map (\<lambda>(f, byType). concat (map snd byType)) m)"

lemma put_alert_grouped: "set (grouped_alerts (put_alert a m)) \<subseteq> insert a (set (grouped_alerts m))"
proof
  fix x assume "x \<in> set (grouped_alerts (put_alert a m))"
  then obtain f byType ft as where x: "(f, byType) \<in> set (put_alert a m)" "(ft, as) \<in> set byType" "x \<in> set as"
    by (auto simp: grouped_alerts_def)
  show "x \<in> insert a (set (grouped_alerts m))"
  proof (cases "map_of m (Functionality a)")
    case None
    from set_update_subset [OF x(1) [unfolded put_alert_def None option.case]] x(2,3) show ?thesis
      by (force simp: grouped_alerts_def)
  next
    case (Some bt)
    from set_update_subset [OF x(1) [unfolded put_alert_def Some option.case]] show ?thesis
    proof
      assume "(f, byType) \<in> set m"
      with x(2,3) show ?thesis by (force simp: grouped_alerts_def)
    next
      assume "(f, byType) = (Functionality a, group_append (FunctionalityType a) a bt)"
      with x(2) set_update_subset [of "(ft, as)"] have
        "(ft, as) \<in> set bt \<or> as = (case map_of bt ft of None \<Rightarrow> [a] | Some vs \<Rightarrow> vs @ [a])"
        unfolding group_append_def by fastforce
      with x(3) have "x = a \<or> (\<exists>ft' as'. (ft', as') \<in> set bt \<and> x \<in> set as')"
        by (auto split: option.splits dest: map_of_SomeD)
      with map_of_SomeD [OF Some] show ?thesis by (force simp: grouped_alerts_def)
    qed
  qed
qed

lemma put_latest_eq: "fold put_latest alerts latest = fold max (map LastObservedAt alerts) latest"
  by (induction alerts arbitrary: latest) (auto simp: put_latest_def max_def)

lemma fold_put_grouped: "set (grouped_alerts (fold put_alert alerts m)) \<subseteq> set alerts \<union> set (grouped_alerts m)"
proof (induction alerts arbitrary: m)
  case (Cons a alerts)
  from Cons.IH [of "put_alert a m"] put_alert_grouped [of a m] show ?case by auto
qed simp

text \<open>Everything read is observed no later than the latest time, which is not before the checkpoint.\<close>

lemma read_pages_latest:
  "read_pages env index q fuel after groups latest w = (Ok (groups', latest'), w') \<Longrightarrow>
     \<forall>a \<in> set (grouped_alerts groups). LastObservedAt a \<le> latest \<Longrightarrow>
     latest \<le> latest' \<and> (\<forall>a \<in> set (grouped_alerts groups'). LastObservedAt a \<le> latest')"
proof (induction fuel arbitrary: after groups latest w)
  case (Suc fuel)
  from Suc.prems(1) obtain r :: "go_error + json_map list \<times> json list" and w1 where r: "(case r of
         Inl _ \<Rightarrow> eff_return (groups, latest)
       | Inr (alertMap, newAfter) \<Rightarrow>
           bind_eff (eff_result (ne_decode env alertMap)) (\<lambda>alerts.
             let groups' = fold put_alert alerts groups; latest' = fold put_latest alerts latest in
             if int (length alertMap) < 200 then eff_return (groups', latest')
             else read_pages env index q fuel (Some newAfter) groups' latest')) w1 = (Ok (groups', latest'), w')"
    unfolding read_pages.simps bind_eff_Ok by blast
  show ?case
  proof (cases r)
    case (Inl e)
    with r Suc.prems(2) show ?thesis by simp
  next
    case (Inr page)
    obtain alertMap newAfter where page: "page = (alertMap, newAfter)" by fastforce
    from r obtain alerts w2 where step: "(if int (length alertMap) < 200 then eff_return (fold put_alert alerts groups, fold put_latest alerts latest)
             else read_pages env index q fuel (Some newAfter) (fold put_alert alerts groups) (fold put_latest alerts latest)) w2
             = (Ok (groups', latest'), w')"
      unfolding Inr page sum.case prod.case bind_eff_Ok Let_def by blast
    have bound: "latest \<le> fold put_latest alerts latest"
      "\<forall>a \<in> set (grouped_alerts (fold put_alert alerts groups)). LastObservedAt a \<le> fold put_latest alerts latest"
      using fold_max_bounds [of latest "map LastObservedAt alerts"] fold_put_grouped [of alerts groups] Suc.prems(2)
      unfolding put_latest_eq by fastforce+
    show ?thesis
    proof (cases "int (length alertMap) < 200")
      case True
      with step bound show ?thesis by simp
    next
      case False
      with step have "read_pages env index q fuel (Some newAfter) (fold put_alert alerts groups) (fold put_latest alerts latest) w2
             = (Ok (groups', latest'), w')" by simp
      from Suc.IH [OF this bound(2)] bound(1) show ?thesis by auto
    qed
  qed
qed simp


section \<open>Support notifications\<close>

definition support_title :: "Tenant \<Rightarrow> bool \<Rightarrow> Alert \<Rightarrow> string" where
  "support_title t isInternal alert =
     FunctionalityType alert @ '':'' @ TenantName t @ '':'' @ FunctionalityEntityName alert @ (if isInternal then '':internal'' else '''')"

text \<open>The support notification of the alert is among the messages.\<close>

definition supported :: "notif_env \<Rightarrow> Tenant \<Rightarrow> bool \<Rightarrow> outgoing list \<Rightarrow> Alert \<Rightarrow> bool" where
  "supported env t isInternal sent alert =
     (case ne_render_ops env (TenantName t) alert of
        Inl _ \<Rightarrow> False
      | Inr body \<Rightarrow> OpsGenie (support_title t isInternal alert) body \<in> set sent)"

text \<open>The alerts the groups stand for, after aggregation.\<close>

definition to_send :: "alert_groups \<Rightarrow> Alert list" where
  "to_send m = concat (map (\<lambda>(f, byType). concat (map snd (alerts_to_send f byType))) m)"

lemma supported_mono: "supported env t i s a \<Longrightarrow> set s \<subseteq> set s' \<Longrightarrow> supported env t i s' a"
  by (auto simp: supported_def split: sum.splits)

lemma sendSupportNotification_Ok:
  assumes "sendSupportNotification env t i a w = (Ok (), w')"
  shows "supported env t i (nw_sent w') a"
  using assms
  by (auto simp: sendSupportNotification_def Let_def eff_result_def bind_eff_Ok nw_send_def supported_def support_title_def
      split: sum.splits)

lemma send_supports_Ok:
  "send_supports env t i alerts w = (Ok (), w') \<Longrightarrow> \<forall>a \<in> set alerts. supported env t i (nw_sent w') a"
proof (induction alerts arbitrary: w)
  case (Cons a alerts)
  then obtain w1 where w1: "sendSupportNotification env t i a w = (Ok (), w1)" "send_supports env t i alerts w1 = (Ok (), w')"
    by (auto simp: bind_eff_Ok)
  have "supported env t i (nw_sent w') a"
    using supported_mono [OF sendSupportNotification_Ok [OF w1(1)] only_sendsD(2) [OF send_supports_only_sends w1(2)]] .
  with Cons.IH [OF w1(2)] show ?case by simp
qed simp

lemma external_types_Ok:
  "external_types env t targets configs rc f types w = (Ok (), w') \<Longrightarrow>
     \<forall>a \<in> set (concat (map snd types)). supported env t False (nw_sent w') a"
proof (induction types arbitrary: w)
  case (Cons x types)
  obtain ft alerts where x: "x = (ft, alerts)" by fastforce
  from Cons.prems obtain w1 w2 where w1: "send_supports env t False alerts w = (Ok (), w1)"
    and w2: "(if length targets > 0 then sendCustomerNotification env t ft f alerts targets configs rc else eff_return ()) w1 = (Ok (), w2)"
    and rest: "external_types env t targets configs rc f types w2 = (Ok (), w')"
    unfolding x external_types.simps bind_eff_Ok by auto
  have "keeps only_sends (if length targets > 0 then sendCustomerNotification env t ft f alerts targets configs rc else eff_return ())"
    unfolding sendCustomerNotification_def by (auto intro: only_sends_intros send_customers_only_sends)
  from only_sendsD(2) [OF this w2] only_sendsD(2) [OF external_types_only_sends rest]
  have "set (nw_sent w1) \<subseteq> set (nw_sent w')" by blast
  with send_supports_Ok [OF w1] have "\<forall>a \<in> set alerts. supported env t False (nw_sent w') a" by (blast intro: supported_mono)
  with Cons.IH [OF rest] show ?case by (auto simp: x)
qed simp

lemma external_groups_Ok:
  assumes "range_order (ne_order_types env)"
  shows "external_groups env t targets configs rc groups w = (Ok (), w') \<Longrightarrow>
     \<forall>a \<in> set (to_send groups). supported env t False (nw_sent w') a"
proof (induction groups arbitrary: w)
  case (Cons x groups)
  obtain f byType where x: "x = (f, byType)" by fastforce
  from Cons.prems obtain w1 where w1: "external_types env t targets configs rc f (ne_order_types env (alerts_to_send f byType)) w = (Ok (), w1)"
    and rest: "external_groups env t targets configs rc groups w1 = (Ok (), w')"
    unfolding x external_groups.simps bind_eff_Ok by auto
  have "\<forall>a \<in> set (concat (map snd (alerts_to_send f byType))). supported env t False (nw_sent w1) a"
    using external_types_Ok [OF w1] by (simp add: range_order_set [OF assms])
  with only_sendsD(2) [OF external_groups_only_sends rest]
  have "\<forall>a \<in> set (concat (map snd (alerts_to_send f byType))). supported env t False (nw_sent w') a"
    by (blast intro: supported_mono)
  moreover have "set (to_send (x # groups)) = set (concat (map snd (alerts_to_send f byType))) \<union> set (to_send groups)"
    by (simp add: x to_send_def)
  ultimately show ?case using Cons.IH [OF rest] by blast
qed (simp add: to_send_def)

section \<open>Checkpoints\<close>

lemma UpdateCheckpoint_outcome:
  "UpdateAlertNotificationCheckpoint env cp w = (r, w') \<Longrightarrow>
     nw_sent w' = nw_sent w \<and>
     (r = Ok () \<and> nw_checkpoints w' = save_checkpoint cp (nw_checkpoints w) \<or> (\<exists>e. r = Err e) \<and> nw_checkpoints w' = nw_checkpoints w)"
  by (auto simp: UpdateAlertNotificationCheckpoint_def Let_def split: option.splits)

text \<open>A computation whose last step saves a checkpoint.\<close>

definition saves_last :: "(notif_world, unit) eff \<Rightarrow> bool" where
  "saves_last m \<longleftrightarrow> (\<forall>w r w'. m w = (r, w') \<longrightarrow> r = Ok () \<or> nw_checkpoints w' = nw_checkpoints w)"

lemma saves_last_bind:
  assumes "keeps only_sends m" and "\<And>x. saves_last (f x)"
  shows "saves_last (bind_eff m f)"
  unfolding saves_last_def
proof (intro allI impI)
  fix w r w' assume "bind_eff m f w = (r, w')"
  then consider x w1 where "m w = (Ok x, w1)" "f x w1 = (r, w')" | r1 where "m w = (r1, w')"
    unfolding bind_eff_outcome by blast
  then show "r = Ok () \<or> nw_checkpoints w' = nw_checkpoints w"
  proof cases
    case 1
    with only_sendsD(1) [OF assms(1) 1(1)] assms(2) [of x] show ?thesis unfolding saves_last_def by metis
  next
    case 2
    with only_sendsD(1) [OF assms(1)] show ?thesis by blast
  qed
qed

lemma saves_last_update: "saves_last (UpdateAlertNotificationCheckpoint env cp)"
  unfolding saves_last_def using UpdateCheckpoint_outcome by blast

lemma read_from_only_sends: "keeps only_sends (read_from env cp)" "keeps only_sends (final_checkpoint env t ty cp)"
  by (auto simp: read_from_def intro!: only_sends_intros)
    (simp add: keeps_def final_checkpoint_def only_sends_def)

text \<open>C16: A run for a tenant that does not succeed, whether it fails, panics or does not end, leaves the
  checkpoint of the tenant as it was, so the next run reads the same alerts again; this holds for external and
  for internal alerts.\<close>

theorem failed_run_keeps_checkpoint:
  assumes "m = processExternalAlerts env configs rc t \<or> m = processInternalAlerts env t"
    and "m w = (r, w')" and "r \<noteq> Ok ()"
  shows "nw_checkpoints w' = nw_checkpoints w"
proof -
  have "saves_last (processExternalAlerts env configs rc t)"
    unfolding processExternalAlerts_def GetAlertNotificationCheckpoint_def
    by (auto intro!: saves_last_bind saves_last_update only_sends_intros read_from_only_sends GetTargets_only_sends
        readAlerts_only_sends external_groups_only_sends)
  moreover have "saves_last (processInternalAlerts env t)"
    unfolding processInternalAlerts_def GetAlertNotificationCheckpoint_def
    by (auto intro!: saves_last_bind saves_last_update only_sends_intros read_from_only_sends
        readAlerts_only_sends internal_groups_only_sends)
  ultimately show ?thesis using assms unfolding saves_last_def by blast
qed



definition quiet_env :: notif_env where
  "quiet_env = \<lparr>ne_client = (\<lambda>_ _. Reply 200 '''' '''' (Inr (SearchBody []))), ne_fuel = 1, ne_fault = (\<lambda>_. None),
     ne_clock = (\<lambda>_. 1700000000000000000), ne_uuid = (\<lambda>_. ''id''), ne_decode = (\<lambda>_. Inr []),
     ne_lib = \<lparr>title_case = (\<lambda>s. s), format_rfc3339 = (\<lambda>_. ''''), sort_slice = sort_key\<rparr>,
     ne_render = (\<lambda>_. Inr ''''), ne_render_ops = (\<lambda>_ _. Inr ''''), ne_order_groups = (\<lambda>x. x), ne_order_types = (\<lambda>x. x),
     ne_order_targets = (\<lambda>x. x), ne_order_updates = (\<lambda>x. x)\<rparr>"

definition fresh_world :: notif_world where
  "fresh_world = \<lparr>nw_calls = [], nw_mappings = [], nw_targets = [], nw_checkpoints = [], nw_sent = [], nw_queries = 0, nw_clock = 0\<rparr>"

lemmas notif_run_defs =
  processExternalAlerts_def processInternalAlerts_def GetAlertNotificationCheckpoint_def read_from_def final_checkpoint_def
  new_checkpoint_def GetTargetsForTenantByModule_def readAlertsSinceCheckpoint_def UpdateAlertNotificationCheckpoint_def
  nw_query_def nw_now_def nw_search_def SearchPaginated_def MakeSearchCall_def search_reply_body_def IsError_def
  bind_eff_def try_eff_def eff_result_def Let_def

text \<open>
  The first run for a tenant without alerts saves the checkpoint \<open>0\<close>: the next run reads all alerts since the
  epoch instead of those of the last half hour.
\<close>

lemma first_quiet_run_stores_zero:
  "\<exists>w'. processInternalAlerts quiet_env t fresh_world = (Ok (), w')
     \<and> map (\<lambda>cp. (CpTenantId cp, CpLastObservedAt cp)) (nw_checkpoints w') = [(TenantId t, 0)]"
  by (simp add: notif_run_defs quiet_env_def fresh_world_def save_checkpoint_def)

lemma quiet_external_run:
  "\<exists>w'. processExternalAlerts quiet_env configs rc t fresh_world = (Ok (), w')"
  by (simp add: notif_run_defs quiet_env_def fresh_world_def save_checkpoint_def)


text \<open>An environment in which the first query of a run fails.\<close>

theorem failed_run_keeps_checkpoint_witness:
  "nw_checkpoints (snd (processInternalAlerts (quiet_env\<lparr>ne_fault := (\<lambda>_. Some ''down'')\<rparr>) \<lparr>TenantId = ''t'', TenantName = ''T''\<rparr> fresh_world)) = []"
proof -
  let ?env = "quiet_env\<lparr>ne_fault := (\<lambda>_. Some ''down'')\<rparr>"
  let ?m = "processInternalAlerts ?env \<lparr>TenantId = ''t'', TenantName = ''T''\<rparr>"
  obtain w' where run: "?m fresh_world = (Err ''down'', w')"
    by (simp add: notif_run_defs quiet_env_def fresh_world_def)
  from failed_run_keeps_checkpoint [OF disjI2 [OF refl] run] show ?thesis
    unfolding run by (simp add: fresh_world_def)
qed

end
