(* ===== verification/Export_Sql.thy ===== *)
theory Export_Sql
  imports Util_Time
begin

text \<open>
  The SQL texts of the Synapse export, \<open>internal/searchExport/query\<close>: \<open>synapse_sql_tokens.go\<close>,
  \<open>synapse_query_filter.go\<close>, \<open>synapse_subchunk.go\<close>, \<open>synapse_hour_chunks.go\<close> and \<open>athena_projection.go\<close>.

  The regular expressions of the code are written as scanners: \<open>re_space\<close> is the class \<^verbatim>\<open>\s\<close>, \<open>word_char\<close> the
  class \<^verbatim>\<open>\w\<close> that decides \<^verbatim>\<open>\b\<close>, and \<open>(?i)\<close> compares the upper-case ASCII text.
\<close>

section \<open>Tokens\<close>

definition re_space :: "char \<Rightarrow> bool" where
  "re_space c \<longleftrightarrow> c \<in> {CHR 0x09, CHR 0x0A, CHR 0x0C, CHR 0x0D, CHR '' ''}"

definition word_char :: "char \<Rightarrow> bool" where
  "word_char c \<longleftrightarrow> (let n = of_char c :: nat in (48 \<le> n \<and> n \<le> 57) \<or> (65 \<le> n \<and> n \<le> 90) \<or> (97 \<le> n \<and> n \<le> 122) \<or> n = 95)"

definition starts_word :: "string \<Rightarrow> bool" where
  "starts_word s \<longleftrightarrow> (case s of [] \<Rightarrow> False | c # _ \<Rightarrow> word_char c)"

text \<open>
  \<^verbatim>\<open>\bWHERE\b\<close>: the flag says whether the character before is a word character.
\<close>

fun where_scan :: "bool \<Rightarrow> string \<Rightarrow> bool" where
  "where_scan w [] = False"
| "where_scan w (c # s) =
     ((\<not> w \<and> go_has_prefix (go_to_upper (c # s)) ''WHERE'' \<and> \<not> starts_word (drop 5 (c # s))) \<or> where_scan (word_char c) s)"

definition has_where_clause :: "string \<Rightarrow> bool" where
  "has_where_clause sql = where_scan False sql"

text \<open>\<^verbatim>\<open>\bORDER\s+BY\b\<close>\<close>

definition order_by_here :: "string \<Rightarrow> bool" where
  "order_by_here s \<longleftrightarrow>
     go_has_prefix (go_to_upper s) ''ORDER'' \<and>
     (let rest = drop 5 s; after = dropWhile re_space rest in
      length after < length rest \<and> go_has_prefix (go_to_upper after) ''BY'' \<and> \<not> starts_word (drop 2 after))"

fun order_scan :: "bool \<Rightarrow> string \<Rightarrow> bool" where
  "order_scan w [] = False"
| "order_scan w (c # s) = ((\<not> w \<and> order_by_here (c # s)) \<or> order_scan (word_char c) s)"

definition hasOrderByClause :: "string \<Rightarrow> bool" where
  "hasOrderByClause sql = order_scan False sql"

text \<open>The offset just after the outermost \<open>SELECT\<close>: \<open>select_scan\<close> returns how much further it is.\<close>

fun select_scan :: "nat \<Rightarrow> string \<Rightarrow> nat option" where
  "select_scan depth [] = None"
| "select_scan depth (c # s) =
     (if c = CHR ''('' then map_option Suc (select_scan (Suc depth) s)
      else if c = CHR '')'' then map_option Suc (select_scan (depth - 1) s)
      else if depth \<noteq> 0 then map_option Suc (select_scan depth s)
      else if go_has_prefix (c # s) ''SELECT DISTINCT '' then Some (length ''SELECT DISTINCT '')
      else if go_has_prefix (c # s) ''SELECT '' then Some (length ''SELECT '')
      else map_option Suc (select_scan depth s))"

definition outerSelectInsertPos :: "string \<Rightarrow> nat option" where
  "outerSelectInsertPos sql = select_scan 0 (go_to_upper sql)"

section \<open>Filters\<close>

definition AddPartitionFilter :: "string \<Rightarrow> string \<Rightarrow> string" where
  "AddPartitionFilter query partitionFilter =
     (let q = go_trim_space query; f = go_trim_space partitionFilter in
      if f = '''' then q
      else if has_where_clause q then q @ '' AND ('' @ f @ '')''
      else q @ '' WHERE ('' @ f @ '')'')"

definition trim_right_semicolons :: "string \<Rightarrow> string" where
  "trim_right_semicolons s = rev (dropWhile (\<lambda>c. c = CHR '';'') (rev s))"

definition WrapWithPartitionFilter :: "string \<Rightarrow> string \<Rightarrow> string" where
  "WrapWithPartitionFilter innerSQL partitionFilter =
     (let q = trim_right_semicolons (go_trim_space innerSQL); f = go_trim_space partitionFilter in
      if f = '''' then q
      else ''SELECT * FROM ('' @ [CHR 0x0A] @ q @ [CHR 0x0A] @ '') AS _q WHERE ('' @ f @ '')'')"

section \<open>Sub-chunk queries\<close>

definition synapseExportSortColumn :: string where
  "synapseExportSortColumn = ''db_edge_ts''"

definition quote_char :: char where
  "quote_char = CHR 0x27"

definition escapeSQLLiteral :: "string \<Rightarrow> string" where
  "escapeSQLLiteral s = go_replace_all s [quote_char] [quote_char, quote_char]"

text \<open>
  \<^verbatim>\<open>^\s*TOP\s*(?:\(\s*(\d+)\s*\)|(\d+))\s+\<close>: the digits and the rest after the match.
\<close>

definition match_top :: "string \<Rightarrow> (string \<times> string) option" where
  "match_top tail =
     (let s1 = dropWhile re_space tail in
      if \<not> go_has_prefix (go_to_upper s1) ''TOP'' then None
      else
        (let s2 = dropWhile re_space (drop 3 s1);
             found = (case s2 of
                 [] \<Rightarrow> None
               | c # s3 \<Rightarrow>
                   if c = CHR ''('' then
                     (let s4 = dropWhile re_space s3; ds = takeWhile is_digit s4;
                          s5 = dropWhile re_space (dropWhile is_digit s4) in
                      if ds \<noteq> [] \<and> s5 \<noteq> [] \<and> hd s5 = CHR '')'' then Some (ds, tl s5) else None)
                   else
                     (let ds = takeWhile is_digit s2 in
                      if ds \<noteq> [] then Some (ds, dropWhile is_digit s2) else None)) in
         case found of
           None \<Rightarrow> None
         | Some (ds, rest) \<Rightarrow>
             if rest \<noteq> [] \<and> re_space (hd rest) then Some (ds, dropWhile re_space rest) else None))"

definition stripTop :: "string \<Rightarrow> string \<times> int" where
  "stripTop sql =
     (case outerSelectInsertPos sql of
        None \<Rightarrow> (sql, 0)
      | Some pos \<Rightarrow>
          (case match_top (drop pos sql) of
             None \<Rightarrow> (sql, 0)
           | Some (ds, rest) \<Rightarrow>
               (take pos sql @ rest, case go_atoi ds of None \<Rightarrow> 0 | Some n \<Rightarrow> n)))"

definition injectTop :: "string \<Rightarrow> int \<Rightarrow> string" where
  "injectTop sql n =
     (case outerSelectInsertPos sql of
        None \<Rightarrow> sql
      | Some pos \<Rightarrow> take pos sql @ ''TOP ('' @ go_itoa n @ '') '' @ drop pos sql)"

definition effectiveTopLimit :: "int \<Rightarrow> int \<Rightarrow> int" where
  "effectiveTopLimit batchRows existingTop =
     (if batchRows \<le> 0 \<and> existingTop \<le> 0 then 0
      else if batchRows \<le> 0 then existingTop
      else if existingTop \<le> 0 then batchRows
      else if batchRows < existingTop then batchRows
      else existingTop)"

definition BuildSubChunkQuery :: "string \<Rightarrow> int \<Rightarrow> string \<Rightarrow> string" where
  "BuildSubChunkQuery hourSQL batchRows lastSortKey =
     (let (sql, existingTop) = stripTop hourSQL;
          topN = effectiveTopLimit batchRows existingTop;
          sql = (if topN > 0 then injectTop sql topN else sql);
          sql = (if lastSortKey \<noteq> ''''
                 then AddPartitionFilter sql
                        (synapseExportSortColumn @ '' > '' @ [quote_char] @ escapeSQLLiteral lastSortKey @ [quote_char])
                 else sql) in
      if (topN > 0 \<or> lastSortKey \<noteq> '''') \<and> \<not> hasOrderByClause sql
      then sql @ '' ORDER BY '' @ synapseExportSortColumn
      else sql)"

section \<open>Timestamps of an Athena export\<close>

record ColumnInfo =
  ColName :: string
  ColType :: string

definition isNarrowableTimestamp :: "string \<Rightarrow> bool" where
  "isNarrowableTimestamp columnType =
     (let t = go_to_lower (go_trim_space columnType) in
      if \<not> go_has_prefix t ''timestamp'' then False
      else if go_contains t ''zone'' \<or> go_has_prefix t ''timestamptz'' then False
      else (let rest = go_trim_prefix t ''timestamp'' in rest = '''' \<or> go_has_prefix rest ''(''))"

definition double_quoted :: "string \<Rightarrow> string" where
  "double_quoted name = [CHR 0x22] @ name @ [CHR 0x22]"

definition projection_item :: "string \<Rightarrow> string \<Rightarrow> string" where
  "projection_item name ty =
     (if isNarrowableTimestamp ty then ''CAST('' @ double_quoted name @ '' AS timestamp(3)) AS '' @ double_quoted name
      else double_quoted name)"

text \<open>\<open>None\<close>: a name makes the projection unsafe.\<close>

fun projection_items :: "string list \<Rightarrow> ColumnInfo list \<Rightarrow> (string list \<times> bool) option" where
  "projection_items seen [] = Some ([], False)"
| "projection_items seen (col # cols) =
     (let name = go_trim_space (ColName col) in
      if name = '''' \<or> go_contains name [CHR 0x22] then None
      else if name \<in> set seen then None
      else
        (case projection_items (name # seen) cols of
           None \<Rightarrow> None
         | Some (items, needsCast) \<Rightarrow>
             Some (projection_item name (ColType col) # items, isNarrowableTimestamp (ColType col) \<or> needsCast)))"

definition timestampSafeProjection :: "ColumnInfo list \<Rightarrow> string \<times> bool" where
  "timestampSafeProjection cols =
     (if cols = [] then ('''', False)
      else (case projection_items [] cols of
              None \<Rightarrow> ('''', False)
            | Some (items, needsCast) \<Rightarrow> (go_join '', '' items, needsCast)))"

definition exportSubqueryAlias :: string where
  "exportSubqueryAlias = ''databahn_export_src''"

definition wrapWithProjection :: "string \<Rightarrow> string \<Rightarrow> string" where
  "wrapWithProjection query projection = ''SELECT '' @ projection @ '' FROM ('' @ query @ '') AS '' @ exportSubqueryAlias"

text \<open>The column metadata of the query is asked from Athena.\<close>

definition narrowTimestampsForUnload :: "bool \<Rightarrow> (go_error + ColumnInfo list) \<Rightarrow> string \<Rightarrow> string" where
  "narrowTimestampsForUnload enabled metadata query =
     (if \<not> enabled then query
      else (case metadata of
              Inl _ \<Rightarrow> query
            | Inr cols \<Rightarrow>
                (let (projection, needsCast) = timestampSafeProjection cols in
                 if \<not> needsCast then query else wrapWithProjection query projection)))"

section \<open>The limit of a query can be taken off again\<close>

lemma go_to_upper_append [simp]: "go_to_upper (s @ t) = go_to_upper s @ go_to_upper t"
  by (simp add: go_to_upper_def)

lemma length_go_to_upper [simp]: "length (go_to_upper s) = length s"
  by (simp add: go_to_upper_def)

lemma go_has_prefix_take: "go_has_prefix (p @ s) q \<Longrightarrow> length q \<le> length p \<Longrightarrow> go_has_prefix (p @ t) q"
  by (simp add: go_has_prefix_def)

text \<open>The text after the found position does not matter, as long as it does not turn \<open>SELECT\<close> into \<open>SELECT DISTINCT\<close>.\<close>

lemma select_prefixes:
  "go_has_prefix s ''SELECT DISTINCT '' \<Longrightarrow> go_has_prefix s ''SELECT ''"
  "go_has_prefix (''SELECT '' @ t) ''SELECT DISTINCT '' = go_has_prefix t ''DISTINCT ''"
proof -
  assume "go_has_prefix s ''SELECT DISTINCT ''"
  then obtain u where "s = ''SELECT '' @ ''DISTINCT '' @ u" by (auto simp: go_has_prefix_iff)
  then show "go_has_prefix s ''SELECT ''" by (simp add: go_has_prefix_def)
qed (simp add: go_has_prefix_def)

lemma select_prefix_take: "go_has_prefix s ''SELECT '' \<longleftrightarrow> take 7 s = ''SELECT ''"
  by (simp add: go_has_prefix_def eval_nat_numeral)

lemma select_scan_at:
  "select_scan 0 (''SELECT DISTINCT '' @ t) = Some 16"
  "\<not> go_has_prefix t ''DISTINCT '' \<Longrightarrow> select_scan 0 (''SELECT '' @ t) = Some 7"
  by (simp_all add: go_has_prefix_def)

lemma select_scan_bounds: "select_scan d s = Some pos \<Longrightarrow> 7 \<le> pos \<and> pos \<le> length s"
proof (induction d s arbitrary: pos rule: select_scan.induct)
  case (2 depth c s)
  have l: "length p \<le> Suc (length s)" if "go_has_prefix (c # s) p" for p
    using that by (metis go_has_prefix_def length_take min.absorb_iff2 min.commute length_Cons)
  have "16 \<le> Suc (length s)" if "go_has_prefix (c # s) ''SELECT DISTINCT ''" using l [OF that] by simp
  moreover have "7 \<le> Suc (length s)" if "go_has_prefix (c # s) ''SELECT ''" using l [OF that] by simp
  ultimately show ?case using 2 by (simp split: if_splits) fastforce+
qed simp

lemma select_scan_stable:
  "select_scan d s = Some pos \<Longrightarrow> \<not> go_has_prefix t ''DISTINCT '' \<Longrightarrow> select_scan d (take pos s @ t) = Some pos"
proof (induction d s arbitrary: pos rule: select_scan.induct)
  case (2 depth c s)
  consider (paren) "c = CHR ''('' \<or> c = CHR '')'' \<or> depth \<noteq> 0"
    | (distinct) u where "depth = 0" "c # s = ''SELECT DISTINCT '' @ u"
    | (select) u where "depth = 0" "c # s = ''SELECT '' @ u" "\<not> go_has_prefix u ''DISTINCT ''"
    | (other) "c \<noteq> CHR ''(''" "c \<noteq> CHR '')''" "depth = 0" "\<not> go_has_prefix (c # s) ''SELECT ''"
    by (metis go_has_prefix_iff select_prefixes(2))
  then show ?case
  proof cases
    case paren
    with 2 show ?thesis by (auto split: if_splits)
  next
    case distinct
    have "pos = 16" using "2.prems"(1) unfolding distinct select_scan_at by simp
    then have "take pos (c # s) = ''SELECT DISTINCT ''" unfolding distinct by simp
    then show ?thesis using distinct(1) select_scan_at(1) \<open>pos = 16\<close> by simp
  next
    case select
    have "pos = 7" using "2.prems"(1) unfolding select(1,2) select_scan_at(2) [OF select(3)] by simp
    then have "take pos (c # s) = ''SELECT ''" unfolding select(2) by simp
    then show ?thesis using select(1) select_scan_at(2) [OF "2.prems"(2)] \<open>pos = 7\<close> by simp
  next
    case other
    then have nd: "\<not> go_has_prefix (c # s) ''SELECT DISTINCT ''" using select_prefixes(1) by blast
    with "2.prems"(1) other obtain p where p: "pos = Suc p" "select_scan 0 s = Some p" by auto
    then have "7 \<le> p" "p \<le> length s" using select_scan_bounds by blast+
    then have "take 7 (c # (take p s @ t)) = take 7 (c # s)" by (simp add: take_Cons')
    then have no: "\<not> go_has_prefix (c # (take p s @ t)) ''SELECT ''" using other(4) unfolding select_prefix_take by metis
    then have nod: "\<not> go_has_prefix (c # (take p s @ t)) ''SELECT DISTINCT ''" using select_prefixes(1) by blast
    from "2.IH"(4) [OF other(1,2) _ nd other(4) _ "2.prems"(2)] p other(3)
    have "select_scan 0 (take p s @ t) = Some p" by simp
    with no nod other p show ?thesis by auto
  qed
qed simp


lemma digit_not_re_space: "is_digit c \<Longrightarrow> \<not> re_space c"
  by (auto simp: re_space_def is_digit_def Let_def)

lemma match_top_injected:
  assumes "0 \<le> n" and "tail = [] \<or> \<not> re_space (hd tail)"
  shows "match_top (''TOP ('' @ go_itoa n @ '') '' @ tail) = Some (go_itoa n, tail)"
proof -
  let ?after = "CHR '')'' # CHR '' '' # tail"
  have digits: "takeWhile is_digit (go_itoa n @ ?after) = go_itoa n" "dropWhile is_digit (go_itoa n @ ?after) = ?after"
    using while_digits [OF go_itoa_digits [OF assms(1)], of "CHR '')''"] by (simp_all add: is_digit_def)
  obtain d ds where d: "go_itoa n = d # ds" "is_digit d"
    using go_itoa_digits [OF assms(1)] go_itoa_not_Nil [of n] by (cases "go_itoa n") (auto simp: list_all_iff)
  have first: "dropWhile re_space (go_itoa n @ ?after) = go_itoa n @ ?after"
    using d digit_not_re_space by simp
  have rest: "dropWhile re_space tail = tail"
    using assms(2) by (cases tail) auto
  have upper: "go_has_prefix (go_to_upper (''TOP ('' @ s)) ''TOP''" for s
    by (simp add: go_has_prefix_def go_to_upper_def ascii_upper_def)
  show ?thesis
    using digits first rest upper [of "go_itoa n @ ?after"] d(1)
    by (simp add: match_top_def Let_def re_space_def [of "CHR ''T''"] re_space_def [of "CHR '' ''"] re_space_def [of "CHR ''(''"] re_space_def [of "CHR '')''"])
qed

text \<open>C21: The row limit put into a query is taken off again exactly: stripping the limit from a query with an
  injected limit returns the query and the limit.\<close>

theorem stripTop_injectTop:
  assumes "outerSelectInsertPos sql = Some pos" and "drop pos sql = [] \<or> \<not> re_space (hd (drop pos sql))"
    and "0 \<le> n" and "int64 n"
  shows "stripTop (injectTop sql n) = (sql, n)"
proof -
  let ?top = "''TOP ('' @ go_itoa n @ '') '' @ drop pos sql"
  have new: "injectTop sql n = take pos sql @ ?top" using assms(1) by (simp add: injectTop_def)
  have pos: "pos \<le> length sql" using assms(1) select_scan_bounds unfolding outerSelectInsertPos_def by fastforce
  have "\<not> go_has_prefix (go_to_upper ?top) ''DISTINCT ''" by (simp add: go_has_prefix_def go_to_upper_def ascii_upper_def)
  then have "outerSelectInsertPos (injectTop sql n) = Some pos"
    unfolding new outerSelectInsertPos_def go_to_upper_append
    using select_scan_stable [of 0 "go_to_upper sql" pos] assms(1)
    by (simp add: outerSelectInsertPos_def take_map go_to_upper_def)
  moreover have "drop pos (injectTop sql n) = ?top" "take pos (injectTop sql n) = take pos sql"
    unfolding new using pos by simp_all
  ultimately show ?thesis
    using match_top_injected [OF assms(3,2)] go_atoi_itoa [OF assms(4)] by (simp add: stripTop_def)
qed

theorem stripTop_injectTop_witness:
  "stripTop (injectTop ''select a from (select b from t) x'' 500) = (''select a from (select b from t) x'', 500)"
proof -
  have "outerSelectInsertPos ''select a from (select b from t) x'' = Some 7" by code_simp
  then show ?thesis by (rule stripTop_injectTop) (simp_all add: re_space_def int64_def)
qed


section \<open>A value cannot leave its literal\<close>

text \<open>How SQL reads a text literal after its opening quote: two quotes stand for one, a single one ends it.\<close>

fun read_literal :: "string \<Rightarrow> (string \<times> string) option" where
  "read_literal [] = None"
| "read_literal (c # s) =
     (if c = quote_char
      then (if s \<noteq> [] \<and> hd s = quote_char
            then map_option (\<lambda>(v, rest). (quote_char # v, rest)) (read_literal (tl s))
            else Some ([], s))
      else map_option (\<lambda>(v, rest). (c # v, rest)) (read_literal s))"

lemma escapeSQLLiteral_simps:
  "escapeSQLLiteral [] = []"
  "escapeSQLLiteral (c # s) = (if c = quote_char then quote_char # quote_char # escapeSQLLiteral s else c # escapeSQLLiteral s)"
  by (simp_all add: escapeSQLLiteral_def go_replace_all.simps [of "[]"] go_replace_all.simps [of "c # s"] go_has_prefix_def)

text \<open>A key put into a query as an escaped literal is read back as the same value, whatever characters it
  has: it cannot end the literal early.\<close>

theorem escapeSQLLiteral_read:
  assumes "rest = [] \<or> hd rest \<noteq> quote_char"
  shows "read_literal (escapeSQLLiteral s @ quote_char # rest) = Some (s, rest)"
  using assms by (induction s) (auto simp: escapeSQLLiteral_simps)

theorem escapeSQLLiteral_read_witness:
  "read_literal (escapeSQLLiteral (''a'' @ [quote_char] @ '' OR 1=1 --'') @ quote_char # '' ORDER BY db_edge_ts'')
     = Some (''a'' @ [quote_char] @ '' OR 1=1 --'', '' ORDER BY db_edge_ts'')"
  by (rule escapeSQLLiteral_read) (simp add: quote_char_def)


text \<open>The query after a key differs from the query of the first batch: it has more quotes.\<close>

lemma count_dropWhile: "\<not> P c \<Longrightarrow> count_list (dropWhile P s) c = count_list s c"
  by (induction s) auto

lemma count_trim_space: "\<not> ascii_space c \<Longrightarrow> count_list (go_trim_space s) c = count_list s c"
  by (simp add: go_trim_space_def count_dropWhile)

lemma quote_not_space: "\<not> ascii_space quote_char"
  by (simp add: ascii_space_def quote_char_def)

lemma AddPartitionFilter_quotes:
  assumes "go_trim_space f \<noteq> ''''"
  shows "count_list (AddPartitionFilter q f) quote_char = count_list q quote_char + count_list f quote_char"
  using assms by (simp add: AddPartitionFilter_def Let_def count_trim_space quote_not_space) (simp add: quote_char_def)

lemma BuildSubChunkQuery_key:
  assumes "k \<noteq> ''''"
  shows "BuildSubChunkQuery sql n k \<noteq> BuildSubChunkQuery sql n ''''"
proof -
  obtain sql' top where strip: "stripTop sql = (sql', top)" by fastforce
  let ?topN = "effectiveTopLimit n top"
  let ?x = "if ?topN > 0 then injectTop sql' ?topN else sql'"
  let ?f = "synapseExportSortColumn @ '' > '' @ [quote_char] @ escapeSQLLiteral k @ [quote_char]"
  have q: "0 < count_list ?f quote_char" by (simp add: count_list_append)
  have ne: "go_trim_space ?f \<noteq> ''''"
  proof
    assume "go_trim_space ?f = ''''"
    then have "count_list ?f quote_char = 0" using count_trim_space [OF quote_not_space, of ?f] by simp
    with q show False by simp
  qed
  have more: "count_list ?x quote_char < count_list (AddPartitionFilter ?x ?f) quote_char"
    unfolding AddPartitionFilter_quotes [OF ne] using q by linarith
  have order: "count_list ('' ORDER BY '' @ synapseExportSortColumn) quote_char = 0"
    by (simp add: synapseExportSortColumn_def quote_char_def)
  have "count_list (BuildSubChunkQuery sql n '''') quote_char = count_list ?x quote_char"
    "count_list (BuildSubChunkQuery sql n k) quote_char = count_list (AddPartitionFilter ?x ?f) quote_char"
    using assms order by (simp_all add: BuildSubChunkQuery_def strip Let_def)
  with more show ?thesis by (metis less_irrefl)
qed

end
