(* ===== verification/Export_Plan.thy ===== *)
theory Export_Plan
  imports Export_Sql
begin

text \<open>
  The plan of a Synapse export, \<open>internal/searchExport/query\<close>: the hour chunks and partition filters of
  \<open>synapse_hour_chunks.go\<close>, the options of \<open>stream_options.go\<close> and the Sentinel plan of \<open>sentinel_plan.go\<close>.
\<close>

section \<open>Hour chunks\<close>

definition hourMillis :: int where
  "hourMillis = 3600000"

record HourChunk =
  StartMs :: int

record PartitionColumns =
  ColYear :: string
  ColMonth :: string
  ColDay :: string
  ColHour :: string

definition DestinationPartitionColumns :: PartitionColumns where
  "DestinationPartitionColumns = \<lparr>ColYear = ''year_partition'', ColMonth = ''month_partition'',
     ColDay = ''day_partition'', ColHour = ''hour_partition''\<rparr>"

definition ExternalHivePartitionColumns :: PartitionColumns where
  "ExternalHivePartitionColumns = \<lparr>ColYear = ''year'', ColMonth = ''month'', ColDay = ''day'', ColHour = ''hour''\<rparr>"

definition PartitionColumnsForStoreType :: "string \<Rightarrow> PartitionColumns" where
  "PartitionColumnsForStoreType dataStoreType =
     (if dataStoreType = ''EXTERNAL_STORAGE'' then ExternalHivePartitionColumns else DestinationPartitionColumns)"

function chunk_loop :: "int \<Rightarrow> int \<Rightarrow> HourChunk list" where
  "chunk_loop t alignedEnd =
     (if t < alignedEnd then \<lparr>StartMs = t\<rparr> # chunk_loop (t + hourMillis) alignedEnd else [])"
  by pat_completeness auto
termination
  by (relation "measure (\<lambda>(t, e). nat (e - t))") (auto simp: hourMillis_def)

declare chunk_loop.simps [simp del]

definition PlanHourChunks :: "int \<Rightarrow> int \<Rightarrow> HourChunk list" where
  "PlanHourChunks startMs endMs =
     (if startMs \<le> 0 \<or> endMs \<le> 0 \<or> startMs > endMs then []
      else chunk_loop (go_div startMs hourMillis * hourMillis)
             (go_div (wrap64 (endMs + hourMillis)) hourMillis * hourMillis))"

definition column_equals :: "string \<Rightarrow> string \<Rightarrow> string" where
  "column_equals column val = column @ '' = '' @ [quote_char] @ val @ [quote_char]"

definition HourPartitionFilter :: "int \<Rightarrow> PartitionColumns \<Rightarrow> string" where
  "HourPartitionFilter startMs cols =
     (let t = from_unix_milli startMs in
      column_equals (ColYear cols) (pad_zeros 4 (time_year t)) @ '' AND '' @
      column_equals (ColMonth cols) (pad_zeros 2 (time_month t)) @ '' AND '' @
      column_equals (ColDay cols) (pad_zeros 2 (time_day t)) @ '' AND '' @
      column_equals (ColHour cols) (pad_zeros 2 (time_hour t)))"

definition sort_bound :: "string \<Rightarrow> int \<Rightarrow> string" where
  "sort_bound rel ms = synapseExportSortColumn @ '' '' @ rel @ '' '' @ [quote_char] @ go_itoa ms @ [quote_char]"

definition maxHourPredicates :: nat where
  "maxHourPredicates = 31 * 24"

definition RangePartitionFilter :: "int \<Rightarrow> int \<Rightarrow> PartitionColumns \<Rightarrow> string" where
  "RangePartitionFilter rangeStartMs rangeEndMs cols =
     (let hours = PlanHourChunks rangeStartMs rangeEndMs;
          bounds = sort_bound ''>='' rangeStartMs @ '' AND '' @ sort_bound ''<='' rangeEndMs in
      if hours = [] then ''''
      else if length hours > maxHourPredicates then bounds
      else ''('' @ go_join '' OR '' (map (\<lambda>h. ''('' @ HourPartitionFilter (StartMs h) cols @ '')'') hours) @ '') AND '' @ bounds)"

definition HourChunkFilter :: "int \<Rightarrow> int \<Rightarrow> int \<Rightarrow> PartitionColumns \<Rightarrow> string" where
  "HourChunkFilter chunkStartMs rangeStartMs rangeEndMs cols =
     (let chunkEndMs = wrap64 (chunkStartMs + hourMillis) in
      HourPartitionFilter chunkStartMs cols
        @ (if rangeStartMs > chunkStartMs then '' AND '' @ sort_bound ''>='' rangeStartMs else '''')
        @ (if rangeEndMs < chunkEndMs - 1 then '' AND '' @ sort_bound ''<='' rangeEndMs else ''''))"

section \<open>Options\<close>

record StreamRowsOptions =
  MaxRows :: int
  ServerRowCap :: int
  QueryTimeout :: duration
  ProgressEvery :: duration
  ProgressEveryRows :: int
  SkipPreflight :: bool
  HourBatchRows :: int

definition defaultMaxExportRows :: int where "defaultMaxExportRows = 10000000"
definition defaultSynapseQueryTimeoutMin :: int where "defaultSynapseQueryTimeoutMin = 120"
definition maxLOBBytes :: nat where "maxLOBBytes = 1048576"
definition synapseProgressInterval :: duration where "synapseProgressInterval = 30 * Second"
definition defaultSentinelQueryTimeoutSeconds :: int where "defaultSentinelQueryTimeoutSeconds = 600"
definition defaultSentinelMaxRetries :: int where "defaultSentinelMaxRetries = 3"
definition defaultSentinelMaxRows :: int where "defaultSentinelMaxRows = 500000"
definition maxSentinelRetries :: int where "maxSentinelRetries = 10"
definition sentinelLakeMaxTimeout :: duration where "sentinelLakeMaxTimeout = 4 * Minute"
definition defaultSplunkMaxRows :: int where "defaultSplunkMaxRows = 1000000"
definition defaultSplunkQueryTimeoutMin :: int where "defaultSplunkQueryTimeoutMin = 30"
definition defaultSplunkMaxRetries :: int where "defaultSplunkMaxRetries = 3"
definition maxSplunkRetries :: int where "maxSplunkRetries = 10"

lemmas export_constants =
  defaultMaxExportRows_def defaultSynapseQueryTimeoutMin_def synapseProgressInterval_def
  defaultSentinelQueryTimeoutSeconds_def defaultSentinelMaxRetries_def defaultSentinelMaxRows_def maxSentinelRetries_def
  sentinelLakeMaxTimeout_def defaultSplunkMaxRows_def defaultSplunkQueryTimeoutMin_def defaultSplunkMaxRetries_def
  maxSplunkRetries_def

text \<open>\<open>lookup\<close> is the environment: \<open>None\<close> for a variable that is not set.\<close>

definition env_of :: "(string \<Rightarrow> string option) \<Rightarrow> string \<Rightarrow> string" where
  "env_of lookup key = (case lookup key of None \<Rightarrow> '''' | Some v \<Rightarrow> v)"

definition parse_bool :: "string \<Rightarrow> bool option" where
  "parse_bool s =
     (if s \<in> {''1'', ''t'', ''T'', ''true'', ''TRUE'', ''True''} then Some True
      else if s \<in> {''0'', ''f'', ''F'', ''false'', ''FALSE'', ''False''} then Some False
      else None)"

definition GetEnvBool :: "(string \<Rightarrow> string) \<Rightarrow> string \<Rightarrow> bool \<Rightarrow> bool" where
  "GetEnvBool getenv key defaultValue =
     (if getenv key = '''' then defaultValue
      else (case parse_bool (getenv key) of None \<Rightarrow> defaultValue | Some b \<Rightarrow> b))"

definition StreamRowsOptionsFromEnv :: "(string \<Rightarrow> string option) \<Rightarrow> StreamRowsOptions" where
  "StreamRowsOptionsFromEnv lookup =
     (let getenv = env_of lookup;
          progressEveryRows = GetEnvInt getenv ''SEARCH_EXPORT_SYNAPSE_PROGRESS_EVERY_ROWS'' 0;
          maxRows = (case lookup ''SEARCH_EXPORT_MAX_ROWS'' of
                       None \<Rightarrow> defaultMaxExportRows
                     | Some _ \<Rightarrow> GetEnvInt getenv ''SEARCH_EXPORT_MAX_ROWS'' defaultMaxExportRows);
          serverRowCap = (case lookup ''SEARCH_EXPORT_MAX_ROWS'' of
                            None \<Rightarrow> 0
                          | Some _ \<Rightarrow> if maxRows > 0 then maxRows else 0);
          skipPreflight = GetEnvBool getenv ''SEARCH_EXPORT_SYNAPSE_SKIP_PREFLIGHT'' True in
      \<lparr>MaxRows = maxRows, ServerRowCap = serverRowCap,
       QueryTimeout = wrap64 (GetEnvInt getenv ''SEARCH_EXPORT_SYNAPSE_QUERY_TIMEOUT_MINUTES'' defaultSynapseQueryTimeoutMin * Minute),
       ProgressEvery = synapseProgressInterval, ProgressEveryRows = progressEveryRows,
       SkipPreflight = (if serverRowCap > 0 then True else skipPreflight),
       HourBatchRows = GetEnvInt getenv ''SEARCH_EXPORT_SYNAPSE_HOUR_BATCH_ROWS'' 10000\<rparr>)"

definition sentinelQueryTimeout :: "(string \<Rightarrow> string) \<Rightarrow> duration" where
  "sentinelQueryTimeout getenv =
     (let seconds = GetEnvInt getenv ''SEARCH_EXPORT_SENTINEL_QUERY_TIMEOUT_SECONDS'' defaultSentinelQueryTimeoutSeconds;
          seconds = (if seconds < 1 then defaultSentinelQueryTimeoutSeconds else seconds);
          seconds = (if seconds > defaultSentinelQueryTimeoutSeconds then defaultSentinelQueryTimeoutSeconds else seconds) in
      seconds * Second)"

definition SentinelStreamOptionsFromEnv :: "(string \<Rightarrow> string) \<Rightarrow> StreamRowsOptions" where
  "SentinelStreamOptionsFromEnv getenv =
     \<lparr>MaxRows = GetEnvInt getenv ''SEARCH_EXPORT_SENTINEL_MAX_ROWS'' defaultSentinelMaxRows, ServerRowCap = 0,
      QueryTimeout = sentinelQueryTimeout getenv, ProgressEvery = synapseProgressInterval, ProgressEveryRows = 0,
      SkipPreflight = True, HourBatchRows = 0\<rparr>"

definition SentinelStreamOptionsForTier :: "(string \<Rightarrow> string) \<Rightarrow> string \<Rightarrow> StreamRowsOptions" where
  "SentinelStreamOptionsForTier getenv tier =
     (let opts = SentinelStreamOptionsFromEnv getenv in
      if (go_equal_fold tier ''LAKE'' \<or> tier = ''KUSTO_LAKE'') \<and> QueryTimeout opts > sentinelLakeMaxTimeout
      then opts\<lparr>QueryTimeout := sentinelLakeMaxTimeout\<rparr> else opts)"

definition clamp_retries :: "int \<Rightarrow> int \<Rightarrow> int" where
  "clamp_retries most retries = (if retries < 0 then 0 else if retries > most then most else retries)"

definition SentinelMaxRetriesFromEnv :: "(string \<Rightarrow> string) \<Rightarrow> int" where
  "SentinelMaxRetriesFromEnv getenv =
     clamp_retries maxSentinelRetries (GetEnvInt getenv ''SEARCH_EXPORT_SENTINEL_MAX_RETRIES'' defaultSentinelMaxRetries)"

definition SplunkStreamOptionsFromEnv :: "(string \<Rightarrow> string) \<Rightarrow> StreamRowsOptions" where
  "SplunkStreamOptionsFromEnv getenv =
     (let minutes = GetEnvInt getenv ''SEARCH_EXPORT_SPLUNK_QUERY_TIMEOUT_MINUTES'' defaultSplunkQueryTimeoutMin;
          minutes = (if minutes < 1 then defaultSplunkQueryTimeoutMin else minutes) in
      \<lparr>MaxRows = GetEnvInt getenv ''SEARCH_EXPORT_SPLUNK_MAX_ROWS'' defaultSplunkMaxRows, ServerRowCap = 0,
       QueryTimeout = wrap64 (minutes * Minute), ProgressEvery = synapseProgressInterval, ProgressEveryRows = 0,
       SkipPreflight = True, HourBatchRows = 0\<rparr>)"

definition SplunkMaxRetriesFromEnv :: "(string \<Rightarrow> string) \<Rightarrow> int" where
  "SplunkMaxRetriesFromEnv getenv =
     clamp_retries maxSplunkRetries (GetEnvInt getenv ''SEARCH_EXPORT_SPLUNK_MAX_RETRIES'' defaultSplunkMaxRetries)"

record SentinelQueryPlan =
  KQL :: string
  Label :: string

definition PlanSentinelQueries :: "string \<Rightarrow> SentinelQueryPlan list" where
  "PlanSentinelQueries kql = [\<lparr>KQL = go_trim_space kql, Label = ''full-range''\<rparr>]"

section \<open>The hour chunks cover the range\<close>

definition hour_windows :: "unit \<Rightarrow> int \<Rightarrow> int \<Rightarrow> (int \<times> int) list" where
  "hour_windows _ startMs endMs = map (\<lambda>h. (StartMs h, StartMs h + hourMillis)) (PlanHourChunks startMs endMs)"

definition plannable_range :: "unit \<Rightarrow> int \<Rightarrow> int \<Rightarrow> bool" where
  "plannable_range _ startMs endMs \<longleftrightarrow> 0 < startMs \<and> startMs \<le> endMs \<and> int64 (endMs + hourMillis)"

lemma chunk_loop_step: "t < e \<Longrightarrow> chunk_loop t e = \<lparr>StartMs = t\<rparr> # chunk_loop (t + hourMillis) e"
  by (simp add: chunk_loop.simps)

lemma chunk_loop_chain:
  assumes "t < e" and "hourMillis dvd e - t"
  shows "chained (map (\<lambda>h. (StartMs h, StartMs h + hourMillis)) (chunk_loop t e))
     \<and> fst (hd (map (\<lambda>h. (StartMs h, StartMs h + hourMillis)) (chunk_loop t e))) = t
     \<and> snd (last (map (\<lambda>h. (StartMs h, StartMs h + hourMillis)) (chunk_loop t e))) = e"
  using assms
proof (induction t e rule: chunk_loop.induct)
  case (1 t e)
  have h: "0 < hourMillis" by (simp add: hourMillis_def)
  show ?case
  proof (cases "t + hourMillis < e")
    case True
    moreover have "hourMillis dvd e - (t + hourMillis)"
      using "1.prems"(2) by (metis diff_diff_add dvd_diff dvd_refl)
    ultimately have IH: "chained (map (\<lambda>h. (StartMs h, StartMs h + hourMillis)) (chunk_loop (t + hourMillis) e))
       \<and> fst (hd (map (\<lambda>h. (StartMs h, StartMs h + hourMillis)) (chunk_loop (t + hourMillis) e))) = t + hourMillis
       \<and> snd (last (map (\<lambda>h. (StartMs h, StartMs h + hourMillis)) (chunk_loop (t + hourMillis) e))) = e"
      using 1 by blast
    show ?thesis using IH "1.prems"(1) True h
      by (simp add: chunk_loop_step [of t] chunk_loop_step [of "t + hourMillis"])
  next
    case False
    obtain k where "e - t = hourMillis * k" using "1.prems"(2) by blast
    with False "1.prems"(1) h have "k = 1"
      by (smt (verit) mult_le_cancel_left_pos mult_cancel_left2 zero_less_mult_pos)
    with \<open>e - t = hourMillis * k\<close> have "e = t + hourMillis" by simp
    with "1.prems"(1) h show ?thesis by (simp add: chunk_loop_step [of t] chunk_loop.simps [of "t + hourMillis"])
  qed
qed

interpretation hours: time_cover hour_windows plannable_range
proof
  fix p :: unit and lo hi :: int
  assume plan: "plannable_range p lo hi"
  let ?a = "lo div hourMillis * hourMillis" and ?b = "(hi + hourMillis) div hourMillis * hourMillis"
  have h: "0 < hourMillis" by (simp add: hourMillis_def)
  have w: "hour_windows p lo hi = map (\<lambda>h. (StartMs h, StartMs h + hourMillis)) (chunk_loop ?a ?b)"
    using plan h by (simp add: hour_windows_def PlanHourChunks_def plannable_range_def)
  have "?a \<le> lo" using h by (simp add: minus_mod_eq_div_mult [symmetric])
  moreover have "hi < ?b"
    using h pos_mod_bound [of hourMillis "hi + hourMillis"] by (simp add: minus_mod_eq_div_mult [symmetric])
  moreover have "hourMillis dvd ?b - ?a" by simp
  ultimately have c: "chained (hour_windows p lo hi) \<and> fst (hd (hour_windows p lo hi)) = ?a \<and> snd (last (hour_windows p lo hi)) = ?b"
    unfolding w using plan by (intro chunk_loop_chain) (auto simp: plannable_range_def)
  show "hour_windows p lo hi \<noteq> []"
    using plan \<open>?a \<le> lo\<close> \<open>hi < ?b\<close> unfolding w by (simp add: chunk_loop.simps plannable_range_def)
  show "chained (hour_windows p lo hi)" "fst (hd (hour_windows p lo hi)) \<le> lo" "hi < snd (last (hour_windows p lo hi))"
    using c \<open>?a \<le> lo\<close> \<open>hi < ?b\<close> by simp_all
qed

text \<open>C20: Every millisecond of an export range, the end included, lies in exactly one of the planned hours.\<close>

theorem PlanHourChunks_exactly_one:
  assumes "0 < startMs" and "startMs \<le> t" and "t \<le> endMs" and "int64 (endMs + 3600000)"
  shows "length (filter (\<lambda>h. StartMs h \<le> t \<and> t < StartMs h + 3600000) (PlanHourChunks startMs endMs)) = 1"
proof -
  have "plannable_range () startMs endMs" using assms by (simp add: plannable_range_def hourMillis_def)
  from hours.exactly_one_window [OF this assms(2,3)] show ?thesis
    by (simp add: hour_windows_def filter_map comp_def in_window_def hourMillis_def)
qed

theorem PlanHourChunks_exactly_one_witness:
  "length (filter (\<lambda>h. StartMs h \<le> 7200000 \<and> 7200000 < StartMs h + 3600000) (PlanHourChunks 3600001 7200000)) = 1"
  by (rule PlanHourChunks_exactly_one) (simp_all add: int64_def)

end
