(* ===== verification/Export_Stream.thy ===== *)
theory Export_Stream
  imports Export_Plan "HOL-Library.List_Lexorder" "HOL-Library.Char_ord"
begin

text \<open>
  The row stream of a Synapse export: \<open>StreamRows\<close> of \<open>query/synapse_stream.go\<close> and the hour and sub-chunk
  loops of \<open>pipeline/synapse_stream.go\<close>.

  The state holds the rows handed to the encoder and the number of queries asked.  \<open>synapse_env\<close> is the
  outside: the answer of the server to each query, with its columns, its rows in order and the error that
  ended the rows, and the error with which the encoder refuses a row.  The hour loop asks for the next batch
  of an hour until the server returns less than a full batch; \<open>se_fuel\<close> bounds the batches of one hour.
\<close>

section \<open>Rows\<close>

text \<open>A scanned value: null, a text, bytes, or another value with its printed form.\<close>

datatype cell = CNull | CText string | CBytes string | COther string

definition normalizeCellValue :: "cell \<Rightarrow> cell" where
  "normalizeCellValue v = (case v of CBytes b \<Rightarrow> CText b | _ \<Rightarrow> v)"

definition checkCellSize :: "cell \<Rightarrow> go_error option" where
  "checkCellSize v =
     (case v of
        CBytes x \<Rightarrow> if length x > maxLOBBytes
                    then Some (''synapse cell exceeds 1MB LOB limit ('' @ go_itoa (int (length x)) @ '' bytes)'') else None
      | CText x \<Rightarrow> if length x > maxLOBBytes
                   then Some (''synapse cell exceeds 1MB LOB limit ('' @ go_itoa (int (length x)) @ '' bytes)'') else None
      | _ \<Rightarrow> None)"

fun normalize_row :: "cell list \<Rightarrow> go_error + cell list" where
  "normalize_row [] = Inr []"
| "normalize_row (v # vs) =
     (let norm = normalizeCellValue v in
      case checkCellSize norm of
        Some e \<Rightarrow> Inl e
      | None \<Rightarrow> (case normalize_row vs of Inl e \<Rightarrow> Inl e | Inr row \<Rightarrow> Inr (norm # row)))"

definition cellSortKey :: "cell list \<Rightarrow> int \<Rightarrow> string" where
  "cellSortKey row idx =
     (if idx < 0 \<or> idx \<ge> int (length row) then ''''
      else (case row ! nat idx of CNull \<Rightarrow> '''' | CText v \<Rightarrow> v | CBytes v \<Rightarrow> v | COther v \<Rightarrow> v))"

fun column_index :: "int \<Rightarrow> string list \<Rightarrow> string \<Rightarrow> int" where
  "column_index i [] want = -1"
| "column_index i (c # cs) want = (if go_to_lower c = want then i else column_index (i + 1) cs want)"

definition columnIndex :: "string list \<Rightarrow> string \<Rightarrow> int" where
  "columnIndex columns name = column_index 0 columns (go_to_lower name)"

section \<open>Streaming one query\<close>

record stream_reply =
  rep_columns :: "string list"
  rep_rows :: "cell list list"
  rep_err :: "go_error option"

record synapse_env =
  se_server :: "nat \<Rightarrow> string \<Rightarrow> int \<Rightarrow> go_error + stream_reply"
  se_sink :: "nat \<Rightarrow> go_error option"
  se_fuel :: nat

record stream_state =
  exported :: "cell list list"
  asked :: nat

text \<open>The encoder takes a row or refuses it.\<close>

definition encode_row :: "synapse_env \<Rightarrow> cell list \<Rightarrow> (stream_state, unit) eff" where
  "encode_row env row st =
     (case se_sink env (length (exported st)) of
        Some e \<Rightarrow> (Err e, st)
      | None \<Rightarrow> (Ok (), st\<lparr>exported := exported st @ [row]\<rparr>))"

definition ask_server :: "synapse_env \<Rightarrow> string \<Rightarrow> int \<Rightarrow> (stream_state, stream_reply) eff" where
  "ask_server env query cap st =
     (case se_server env (asked st) query cap of
        Inl e \<Rightarrow> (Err e, st\<lparr>asked := Suc (asked st)\<rparr>)
      | Inr rep \<Rightarrow> (Ok rep, st\<lparr>asked := Suc (asked st)\<rparr>))"

text \<open>
  The loop over the rows: the number of rows, and the last non-empty sort key seen by the callback of the
  export.
\<close>

fun stream_rows ::
  "synapse_env \<Rightarrow> StreamRowsOptions \<Rightarrow> int \<Rightarrow> go_error option \<Rightarrow> cell list list \<Rightarrow> int \<Rightarrow> string
     \<Rightarrow> (stream_state, int \<times> string) eff" where
  "stream_rows env opts sortColIdx rowsErr [] cnt batchMaxKey =
     (case rowsErr of Some e \<Rightarrow> eff_fail (''synapse rows: '' @ e) | None \<Rightarrow> eff_return (cnt, batchMaxKey))"
| "stream_rows env opts sortColIdx rowsErr (raw # rows) cnt batchMaxKey =
     (case normalize_row raw of
        Inl e \<Rightarrow> eff_fail e
      | Inr row \<Rightarrow>
          if ServerRowCap opts = 0 \<and> MaxRows opts > 0 \<and> cnt + 1 > MaxRows opts
          then eff_fail (''export row cap exceeded ('' @ go_itoa (MaxRows opts) @ '')'')
          else
            (let k = cellSortKey row sortColIdx in
             bind_eff (encode_row env row) (\<lambda>_.
               stream_rows env opts sortColIdx rowsErr rows (cnt + 1) (if k \<noteq> '''' then k else batchMaxKey))))"

text \<open>
  With the preflight skipped the sort column is found in the columns of the answer; otherwise it was found
  before.
\<close>

definition StreamRows ::
  "synapse_env \<Rightarrow> StreamRowsOptions \<Rightarrow> int \<Rightarrow> string \<Rightarrow> (stream_state, int \<times> string) eff" where
  "StreamRows env opts presetIdx query =
     bind_eff (ask_server env query (if ServerRowCap opts > 0 then ServerRowCap opts else 0)) (\<lambda>rep.
       stream_rows env opts (if SkipPreflight opts then columnIndex (rep_columns rep) ''db_edge_ts'' else presetIdx)
         (rep_err rep) (rep_rows rep) 0 '''')"

section \<open>The hours of an export\<close>

definition synapseStreamOpts :: "StreamRowsOptions \<Rightarrow> int \<Rightarrow> StreamRowsOptions" where
  "synapseStreamOpts opts remaining =
     (if remaining > 0
      then opts\<lparr>MaxRows := remaining,
                ServerRowCap := (if ServerRowCap opts > 0 \<and> remaining < ServerRowCap opts then remaining else ServerRowCap opts)\<rparr>
      else opts)"

text \<open>The batches of one hour: \<open>(True, _)\<close> when the row budget is used up, else the budget that is left.\<close>

fun hour_batches ::
  "synapse_env \<Rightarrow> StreamRowsOptions \<Rightarrow> int \<Rightarrow> string \<Rightarrow> nat \<Rightarrow> string \<Rightarrow> int \<Rightarrow> (stream_state, bool \<times> int) eff" where
  "hour_batches env opts presetIdx hourSQL 0 key remaining = eff_out_of_fuel"
| "hour_batches env opts presetIdx hourSQL (Suc fuel) key remaining =
     bind_eff (StreamRows env (synapseStreamOpts opts remaining) presetIdx (BuildSubChunkQuery hourSQL (HourBatchRows opts) key))
       (\<lambda>(n, batchMaxKey).
         let left = (if remaining > 0 then remaining - n else remaining);
             key' = (if batchMaxKey \<noteq> '''' then batchMaxKey else key) in
         if remaining > 0 \<and> left \<le> 0 then eff_return (True, left)
         else if HourBatchRows opts > 0 \<and> n \<ge> HourBatchRows opts \<and> batchMaxKey = ''''
         then eff_fail ''hour-chunk pagination requires db_edge_ts column with non-null values in result set''
         else if n = 0 \<or> HourBatchRows opts \<le> 0 \<or> n < HourBatchRows opts then eff_return (False, left)
         else hour_batches env opts presetIdx hourSQL fuel key' left)"

fun hour_loop ::
  "synapse_env \<Rightarrow> StreamRowsOptions \<Rightarrow> int \<Rightarrow> (HourChunk \<Rightarrow> string) \<Rightarrow> HourChunk list \<Rightarrow> int \<Rightarrow> (stream_state, unit) eff" where
  "hour_loop env opts presetIdx hourSQL [] remaining = eff_return ()"
| "hour_loop env opts presetIdx hourSQL (h # hours) remaining =
     bind_eff (hour_batches env opts presetIdx (hourSQL h) (se_fuel env) '''' remaining) (\<lambda>(full, left).
       if full then eff_return () else hour_loop env opts presetIdx hourSQL hours left)"

text \<open>The SQL of one hour of the range.\<close>

definition hour_sql :: "string \<Rightarrow> string \<Rightarrow> int \<Rightarrow> int \<Rightarrow> HourChunk \<Rightarrow> string" where
  "hour_sql query dataStoreType rangeStartMs rangeEndMs h =
     AddPartitionFilter query
       (HourChunkFilter (StartMs h) rangeStartMs rangeEndMs (PartitionColumnsForStoreType dataStoreType))"

definition stream_export ::
  "synapse_env \<Rightarrow> StreamRowsOptions \<Rightarrow> int \<Rightarrow> string \<Rightarrow> string \<Rightarrow> int \<Rightarrow> int \<Rightarrow> (stream_state, unit) eff" where
  "stream_export env opts presetIdx query dataStoreType rangeStartMs rangeEndMs =
     (let hours = PlanHourChunks rangeStartMs rangeEndMs; remaining = MaxRows opts in
      if hours = []
      then bind_eff (StreamRows env (synapseStreamOpts opts remaining) presetIdx query) (\<lambda>_. eff_return ())
      else hour_loop env opts presetIdx (hour_sql query dataStoreType rangeStartMs rangeEndMs) hours remaining)"

section \<open>The row budget\<close>

lemma stream_rows_budget:
  assumes "stream_rows env opts idx err rows cnt key st = (r, st')" and "ServerRowCap opts = 0" and "0 < MaxRows opts"
    and "cnt \<le> MaxRows opts"
  shows "int (length (exported st')) \<le> int (length (exported st)) + MaxRows opts - cnt
     \<and> (\<forall>n k. r = Ok (n, k) \<longrightarrow> int (length (exported st')) = int (length (exported st)) + n - cnt)"
  using assms
proof (induction rows arbitrary: cnt key st)
  case Nil
  then show ?case by (auto split: option.splits)
next
  case (Cons raw rows)
  show ?case
  proof (cases "normalize_row raw")
    case (Inl e)
    with Cons.prems show ?thesis by auto
  next
    case (Inr row)
    show ?thesis
    proof (cases "cnt + 1 > MaxRows opts")
      case True
      with Cons.prems Inr show ?thesis by auto
    next
      case False
      show ?thesis
      proof (cases "se_sink env (length (exported st))")
        case None
        let ?k = "cellSortKey row idx"
        from Cons.prems(1) Inr False None have
          "stream_rows env opts idx err rows (cnt + 1) (if ?k \<noteq> '''' then ?k else key) (st\<lparr>exported := exported st @ [row]\<rparr>) = (r, st')"
          by (simp add: Let_def bind_eff_def encode_row_def)
        from Cons.IH [OF this Cons.prems(2,3)] False show ?thesis by auto
      next
        case (Some e)
        with Cons.prems Inr False show ?thesis by (auto simp: Let_def bind_eff_def encode_row_def)
      qed
    qed
  qed
qed

lemma StreamRows_budget:
  assumes "StreamRows env opts idx q st = (r, st')" and "ServerRowCap opts = 0" and "0 < MaxRows opts"
  shows "int (length (exported st')) \<le> int (length (exported st)) + MaxRows opts
     \<and> (\<forall>n k. r = Ok (n, k) \<longrightarrow> int (length (exported st')) = int (length (exported st)) + n)"
proof (cases "se_server env (asked st) q 0")
  case (Inl e)
  with assms show ?thesis by (auto simp: StreamRows_def bind_eff_def ask_server_def)
next
  case (Inr rep)
  let ?idx = "if SkipPreflight opts then columnIndex (rep_columns rep) ''db_edge_ts'' else idx"
  have "stream_rows env opts ?idx (rep_err rep) (rep_rows rep) 0 '''' (st\<lparr>asked := Suc (asked st)\<rparr>) = (r, st')"
    using assms Inr by (simp add: StreamRows_def bind_eff_def ask_server_def)
  from stream_rows_budget [OF this assms(2,3)] assms(3) show ?thesis by auto
qed

lemma hour_batches_budget:
  assumes "ServerRowCap opts = 0" and "0 < remaining" and "hour_batches env opts idx sql fuel key remaining st = (r, st')"
  shows "int (length (exported st')) \<le> int (length (exported st)) + remaining
     \<and> (\<forall>left. r = Ok (False, left) \<longrightarrow> 0 < left \<and> int (length (exported st')) = int (length (exported st)) + remaining - left)"
  using assms(2,3)
proof (induction fuel arbitrary: key remaining st)
  case (Suc fuel)
  let ?opts = "synapseStreamOpts opts remaining"
  have o: "ServerRowCap ?opts = 0" "MaxRows ?opts = remaining" using assms(1) Suc.prems(1) by (simp_all add: synapseStreamOpts_def)
  obtain r1 st1 where run: "StreamRows env ?opts idx (BuildSubChunkQuery sql (HourBatchRows opts) key) st = (r1, st1)" by fastforce
  note b = StreamRows_budget [OF run o(1)] 
  show ?case
  proof (cases r1)
    case (Ok x)
    obtain n k where x: "x = (n, k)" by fastforce
    have n: "int (length (exported st1)) = int (length (exported st)) + n" "int (length (exported st1)) \<le> int (length (exported st)) + remaining"
      using b o(2) Suc.prems(1) Ok x by auto
    note step = Suc.prems(2) [unfolded hour_batches.simps bind_eff_def run Ok x]
    show ?thesis
    proof (cases "remaining - n \<le> 0 \<or> (HourBatchRows opts > 0 \<and> n \<ge> HourBatchRows opts \<and> k = '''')
        \<or> n = 0 \<or> HourBatchRows opts \<le> 0 \<or> n < HourBatchRows opts")
      case True
      with step n Suc.prems(1) show ?thesis by (auto simp: Let_def split: if_splits)
    next
      case False
      with step Suc.prems(1) have
        "hour_batches env opts idx sql fuel (if k \<noteq> '''' then k else key) (remaining - n) st1 = (r, st')"
        by (auto simp: Let_def split: if_splits)
      from Suc.IH [OF _ this] n False show ?thesis by auto
    qed
  qed (use Suc.prems run b o in \<open>auto simp: bind_eff_def\<close>)
qed simp

text \<open>C19: Without a cap at the server, an export never hands more rows to the encoder than its row budget,
  whatever the server answers, over all hours and batches together, and also when it fails.\<close>

theorem stream_export_row_budget:
  assumes "0 < MaxRows opts" and "ServerRowCap opts = 0"
    and "stream_export env opts idx query storeType rangeStart rangeEnd st = (r, st')"
  shows "int (length (exported st')) \<le> int (length (exported st)) + MaxRows opts"
proof -
  have loop: "int (length (exported st')) \<le> int (length (exported st)) + remaining"
    if "hour_loop env opts idx sql hours remaining st = (r, st')" "0 < remaining" for sql hours remaining st
    using that
  proof (induction hours arbitrary: remaining st)
    case (Cons h hours)
    obtain r1 st1 where run: "hour_batches env opts idx (sql h) (se_fuel env) '''' remaining st = (r1, st1)" by fastforce
    note b = hour_batches_budget [OF assms(2) Cons.prems(2) run]
    show ?case
    proof (cases r1)
      case (Ok x)
      obtain full left where x: "x = (full, left)" by fastforce
      show ?thesis
      proof (cases full)
        case True
        with Cons.prems(1) run Ok x b show ?thesis by (auto simp: bind_eff_def)
      next
        case False
        with Cons.prems(1) run Ok x have "hour_loop env opts idx sql hours left st1 = (r, st')" by (simp add: bind_eff_def)
        from Cons.IH [OF this] b Ok x False show ?thesis by auto
      qed
    qed (use Cons.prems run b in \<open>auto simp: bind_eff_def\<close>)
  qed auto
  show ?thesis
  proof (cases "PlanHourChunks rangeStart rangeEnd = []")
    case True
    obtain r1 st1 where run: "StreamRows env (synapseStreamOpts opts (MaxRows opts)) idx query st = (r1, st1)" by fastforce
    have "st' = st1" using assms(3) True run by (cases r1) (auto simp: stream_export_def bind_eff_def)
    then show ?thesis using StreamRows_budget [OF run] assms(1,2) by (auto simp: synapseStreamOpts_def)
  next
    case False
    with assms(3) have "hour_loop env opts idx (hour_sql query storeType rangeStart rangeEnd)
        (PlanHourChunks rangeStart rangeEnd) (MaxRows opts) st = (r, st')" by (simp add: stream_export_def Let_def)
    from loop [OF this assms(1)] show ?thesis .
  qed
qed


theorem stream_export_row_budget_witness:
  "int (length (exported (snd (stream_export
       \<lparr>se_server = (\<lambda>_ _ _. Inr \<lparr>rep_columns = [''db_edge_ts''], rep_rows = [[CText ''1''], [CText ''2'']], rep_err = None\<rparr>),
        se_sink = (\<lambda>_. None), se_fuel = 2\<rparr>
       \<lparr>MaxRows = 1, ServerRowCap = 0, QueryTimeout = 0, ProgressEvery = 0, ProgressEveryRows = 0, SkipPreflight = True, HourBatchRows = 10\<rparr>
       0 ''select * from t'' '''' 0 0 \<lparr>exported = [], asked = 0\<rparr>)))) \<le> 0 + 1"
proof -
  let ?env = "\<lparr>se_server = (\<lambda>_ _ _. Inr \<lparr>rep_columns = [''db_edge_ts''], rep_rows = [[CText ''1''], [CText ''2'']], rep_err = None\<rparr>),
        se_sink = (\<lambda>_. None), se_fuel = 2\<rparr>"
  let ?opts = "\<lparr>MaxRows = 1, ServerRowCap = 0, QueryTimeout = 0, ProgressEvery = 0, ProgressEveryRows = 0, SkipPreflight = True, HourBatchRows = 10\<rparr>"
  obtain r st' where run: "stream_export ?env ?opts 0 ''select * from t'' '''' 0 0 \<lparr>exported = [], asked = 0\<rparr> = (r, st')" by fastforce
  have "int (length (exported st')) \<le> int (length (exported \<lparr>exported = [], asked = 0\<rparr>)) + MaxRows ?opts"
    by (rule stream_export_row_budget [OF _ _ run]) simp_all
  then show ?thesis unfolding run by simp
qed

section \<open>Every row of the range is exported once\<close>

text \<open>
  What the export relies on at the server: the sub-chunk query with a batch size and a key returns the first
  rows of the hour after the key, ordered by the sort column, which identifies the rows of an hour.
\<close>

definition after_key :: "int \<Rightarrow> string \<Rightarrow> cell list list \<Rightarrow> cell list list" where
  "after_key idx key rows = filter (\<lambda>r. key \<noteq> '''' \<longrightarrow> key < cellSortKey r idx) rows"

definition page_keys :: "int \<Rightarrow> cell list list \<Rightarrow> string set" where
  "page_keys idx rows = insert '''' ((\<lambda>r. cellSortKey r idx) ` set rows)"

definition serves_hour :: "synapse_env \<Rightarrow> StreamRowsOptions \<Rightarrow> int \<Rightarrow> string \<Rightarrow> cell list list \<Rightarrow> bool" where
  "serves_hour env opts idx sql rows \<longleftrightarrow>
     (\<forall>r \<in> set rows. cellSortKey r idx \<noteq> '''' \<and> normalize_row r = Inr r) \<and>
     (\<forall>n. \<forall>key \<in> page_keys idx rows. \<exists>cols. se_server env n (BuildSubChunkQuery sql (HourBatchRows opts) key) 0 =
        Inr \<lparr>rep_columns = cols, rep_rows = take (nat (HourBatchRows opts)) (after_key idx key rows), rep_err = None\<rparr>
        \<and> (SkipPreflight opts \<longrightarrow> columnIndex cols ''db_edge_ts'' = idx))"

definition distinct_keys :: "int \<Rightarrow> cell list list \<Rightarrow> bool" where
  "distinct_keys idx rows \<longleftrightarrow> sorted_wrt (<) (map (\<lambda>r. cellSortKey r idx) rows)"

lemma strict_filter_after:
  "sorted_wrt (<) (map f xs) \<Longrightarrow> take n xs \<noteq> [] \<Longrightarrow> filter (\<lambda>r. f (last (take n xs)) < (f r :: 'a :: linorder)) xs = drop n xs"
proof (induction n arbitrary: xs)
  case (Suc n)
  then obtain x ys where xs: "xs = x # ys" by (cases xs) auto
  show ?case
  proof (cases "take n ys = []")
    case True
    with Suc.prems(1) show ?thesis by (auto simp: xs filter_id_conv)
  next
    case False
    then have "last (take n ys) \<in> set ys" by (meson in_set_takeD last_in_set)
    then have "f x < f (last (take n ys))" using Suc.prems(1) by (simp add: xs)
    then show ?thesis using Suc.IH [OF _ False] Suc.prems(1) False by (simp add: xs)
  qed
qed simp

lemma stream_rows_all:
  assumes "\<forall>r \<in> set rows. cellSortKey r idx \<noteq> '''' \<and> normalize_row r = Inr r" and "\<forall>n. se_sink env n = None"
    and "MaxRows opts \<le> 0 \<or> cnt + int (length rows) \<le> MaxRows opts"
  shows "stream_rows env opts idx None rows cnt key st =
     (Ok (cnt + int (length rows), if rows = [] then key else cellSortKey (last rows) idx), st\<lparr>exported := exported st @ rows\<rparr>)"
  using assms
proof (induction rows arbitrary: cnt key st)
  case (Cons r rows)
  have "stream_rows env opts idx None rows (cnt + 1) (cellSortKey r idx) (st\<lparr>exported := exported st @ [r]\<rparr>) =
     (Ok (cnt + 1 + int (length rows), if rows = [] then cellSortKey r idx else cellSortKey (last rows) idx),
      st\<lparr>exported := (exported st @ [r]) @ rows\<rparr>)"
    using Cons.IH [of "cnt + 1" "cellSortKey r idx" "st\<lparr>exported := exported st @ [r]\<rparr>"] Cons.prems by auto
  then show ?case using Cons.prems by (auto simp: Let_def bind_eff_def encode_row_def)
qed simp

lemma StreamRows_batch:
  assumes "serves_hour env opts idx sql rows" and "key \<in> page_keys idx rows" and "\<forall>n. se_sink env n = None" and "ServerRowCap opts = 0"
    and "remaining \<le> 0 \<and> MaxRows opts \<le> 0 \<or> int (length (after_key idx key rows)) < remaining"
  defines "batch \<equiv> take (nat (HourBatchRows opts)) (after_key idx key rows)"
  shows "StreamRows env (synapseStreamOpts opts remaining) idx (BuildSubChunkQuery sql (HourBatchRows opts) key) st =
     (Ok (int (length batch), if batch = [] then '''' else cellSortKey (last batch) idx),
      st\<lparr>exported := exported st @ batch, asked := Suc (asked st)\<rparr>)"
proof -
  let ?o = "synapseStreamOpts opts remaining"
  have o: "ServerRowCap ?o = 0" "SkipPreflight ?o = SkipPreflight opts" "MaxRows ?o \<le> 0 \<or> 0 + int (length batch) \<le> MaxRows ?o"
    using assms(4,5) by (auto simp: synapseStreamOpts_def batch_def)
  obtain cols where cols: "se_server env (asked st) (BuildSubChunkQuery sql (HourBatchRows opts) key) 0 =
      Inr \<lparr>rep_columns = cols, rep_rows = batch, rep_err = None\<rparr>" "SkipPreflight opts \<longrightarrow> columnIndex cols ''db_edge_ts'' = idx"
    using assms(1,2) unfolding serves_hour_def batch_def by blast
  have "\<forall>r \<in> set batch. cellSortKey r idx \<noteq> '''' \<and> normalize_row r = Inr r"
    using assms(1) unfolding serves_hour_def batch_def after_key_def by (auto dest: in_set_takeD)
  from stream_rows_all [OF this assms(3) o(3)] show ?thesis
    using o cols by (simp add: StreamRows_def bind_eff_def ask_server_def)
qed

lemma after_key_next:
  assumes "distinct_keys idx rows" and "take n (after_key idx key rows) \<noteq> []"
    and "cellSortKey (last (take n (after_key idx key rows))) idx \<noteq> ''''"
  shows "after_key idx (cellSortKey (last (take n (after_key idx key rows))) idx) rows = drop n (after_key idx key rows)"
proof -
  let ?rest = "after_key idx key rows" and ?f = "\<lambda>r. cellSortKey r idx"
  have rest: "sorted_wrt (<) (map ?f ?rest)"
    using assms(1) by (simp add: distinct_keys_def after_key_def sorted_wrt_map sorted_wrt_filter)
  have "last (take n ?rest) \<in> set ?rest" using assms(2) by (meson in_set_takeD last_in_set)
  then have "key \<noteq> '''' \<longrightarrow> key < ?f (last (take n ?rest))" by (simp add: after_key_def)
  then have "filter (\<lambda>r. ?f (last (take n ?rest)) < ?f r) rows = filter (\<lambda>r. ?f (last (take n ?rest)) < ?f r) ?rest"
    unfolding after_key_def [of idx key rows] filter_filter by (intro filter_cong) auto
  also have "\<dots> = drop n ?rest" using strict_filter_after [OF rest assms(2)] .
  finally show ?thesis using assms(3) by (simp add: after_key_def [of _ "?f (last (take n ?rest))"])
qed

lemma hour_batches_complete:
  assumes "serves_hour env opts idx sql rows" and "distinct_keys idx rows" and "\<forall>n. se_sink env n = None"
    and "ServerRowCap opts = 0" and "0 < HourBatchRows opts"
  shows "remaining \<le> 0 \<and> MaxRows opts \<le> 0 \<or> int (length (after_key idx key rows)) < remaining \<Longrightarrow>
     key \<in> page_keys idx rows \<Longrightarrow>
     length (after_key idx key rows) < fuel \<Longrightarrow>
     \<exists>n. hour_batches env opts idx sql fuel key remaining st =
       (Ok (False, if remaining > 0 then remaining - int (length (after_key idx key rows)) else remaining),
        st\<lparr>exported := exported st @ after_key idx key rows, asked := n\<rparr>)"
proof (induction fuel arbitrary: key remaining st)
  case (Suc fuel)
  let ?rest = "after_key idx key rows"
  let ?b = "nat (HourBatchRows opts)"
  let ?batch = "take ?b ?rest"
  let ?st = "st\<lparr>exported := exported st @ ?batch, asked := Suc (asked st)\<rparr>"
  have run: "StreamRows env (synapseStreamOpts opts remaining) idx (BuildSubChunkQuery sql (HourBatchRows opts) key) st =
     (Ok (int (length ?batch), if ?batch = [] then '''' else cellSortKey (last ?batch) idx), ?st)"
    using StreamRows_batch [OF assms(1) Suc.prems(2) assms(3,4) Suc.prems(1)] .
  show ?case
  proof (cases "length ?rest < ?b")
    case True
    then have "?batch = ?rest" by simp
    then show ?thesis using run Suc.prems(1) True assms(5)
      by (auto simp: bind_eff_def Let_def intro!: exI [of _ "Suc (asked st)"])
  next
    case False
    then have n: "length ?batch = ?b" "?batch \<noteq> []" using assms(5) by auto
    let ?k = "cellSortKey (last ?batch) idx"
    have "last ?batch \<in> set rows" using n(2) by (metis after_key_def filter_is_subset in_set_takeD last_in_set subsetD)
    then have k: "?k \<noteq> ''''" "?k \<in> page_keys idx rows" using assms(1) by (auto simp: serves_hour_def page_keys_def)
    have nxt: "after_key idx ?k rows = drop ?b ?rest" using after_key_next [OF assms(2) n(2) k(1)] .
    let ?left = "if remaining > 0 then remaining - int ?b else remaining"
    have "\<exists>m. hour_batches env opts idx sql fuel ?k ?left ?st =
       (Ok (False, if ?left > 0 then ?left - int (length (drop ?b ?rest)) else ?left),
        ?st\<lparr>exported := exported ?st @ drop ?b ?rest, asked := m\<rparr>)"
      using Suc.IH [of ?left ?k ?st] Suc.prems False assms(5) k(2) unfolding nxt by auto
    then obtain m where m: "hour_batches env opts idx sql fuel ?k ?left ?st =
       (Ok (False, if ?left > 0 then ?left - int (length (drop ?b ?rest)) else ?left),
        st\<lparr>exported := exported st @ ?rest, asked := m\<rparr>)" by auto
    have "\<not> (remaining > 0 \<and> remaining - int ?b \<le> 0)" using Suc.prems(1) False by auto
    then have "hour_batches env opts idx sql (Suc fuel) key remaining st = hour_batches env opts idx sql fuel ?k ?left ?st"
      using run n k assms(5) by (auto simp: bind_eff_def Let_def)
    then show ?thesis using m Suc.prems(1) False by auto
  qed
qed simp


lemma after_key_start [simp]: "after_key idx '''' rows = rows"
  by (simp add: after_key_def)


text \<open>
  Two rows of an hour with the same key on the border of a batch: the next batch starts after the key, and the
  second row is not exported.
\<close>

lemma equal_keys_lost:
  assumes "serves_hour env opts idx sql [r1, r2]" and "cellSortKey r1 idx = k" and "cellSortKey r2 idx = k"
    and "\<forall>n. se_sink env n = None" and "ServerRowCap opts = 0" and "HourBatchRows opts = 1" and "MaxRows opts \<le> 0" and "remaining \<le> 0"
  shows "\<exists>n. hour_batches env opts idx sql (Suc (Suc fuel)) '''' remaining st =
     (Ok (False, remaining), st\<lparr>exported := exported st @ [r1], asked := n\<rparr>)"
proof -
  have k: "k \<noteq> ''''" "k \<in> page_keys idx [r1, r2]" "'''' \<in> page_keys idx [r1, r2]"
    using assms(1-3) by (auto simp: serves_hour_def page_keys_def)
  have none: "after_key idx k [r1, r2] = []" using assms(2,3) k(1) by (simp add: after_key_def)
  have "StreamRows env (synapseStreamOpts opts remaining) idx (BuildSubChunkQuery sql 1 '''') st =
     (Ok (1, k), st\<lparr>exported := exported st @ [r1], asked := Suc (asked st)\<rparr>)" for st
    using StreamRows_batch [OF assms(1) k(3) assms(4,5), of remaining] assms(2,6-8) by simp
  moreover have "StreamRows env (synapseStreamOpts opts remaining) idx (BuildSubChunkQuery sql 1 k) st =
     (Ok (0, ''''), st\<lparr>exported := exported st, asked := Suc (asked st)\<rparr>)" for st
    using StreamRows_batch [OF assms(1) k(2) assms(4,5), of remaining] assms(6-8) none by simp
  ultimately show ?thesis using assms(6,8) k(1)
    by (auto simp: bind_eff_def Let_def intro!: exI [of _ "Suc (Suc (asked st))"])
qed

definition one_row_opts :: StreamRowsOptions where
  "one_row_opts = \<lparr>MaxRows = 0, ServerRowCap = 0, QueryTimeout = 0, ProgressEvery = 0, ProgressEveryRows = 0,
     SkipPreflight = True, HourBatchRows = 1\<rparr>"

definition one_row_env :: synapse_env where
  "one_row_env =
     \<lparr>se_server = (\<lambda>_ sql _. Inr \<lparr>rep_columns = [''db_edge_ts''],
        rep_rows = (if sql = BuildSubChunkQuery (hour_sql ''SELECT * FROM t'' '''' 7200000 7200001 \<lparr>StartMs = 7200000\<rparr>) 1 ''''
                    then [[CText ''7200001'']] else []), rep_err = None\<rparr>),
      se_sink = (\<lambda>_. None), se_fuel = 2\<rparr>"


end
