(* ===== verification/Catalog_Model.thy ===== *)
theory Catalog_Model
  imports Go_Strings
begin

text \<open>
  The data catalog's fields and the parts of \<open>internal/data_catalog/catalog\<close> that are pure: the error
  types, names and types of \<open>model\<close>, the validation of \<open>validate/fields.go\<close> and the column statements of
  \<open>apply/columns.go\<close> and \<open>apply/ddl.go\<close>.

  The lemmas show which fields are kept, that nothing of a group is lost by the split, and that an
  \<^verbatim>\<open>ALTER TABLE\<close> statement that is built reads back as the table and columns it was built from,
  whatever the names are.
\<close>

section \<open>Fields and errors\<close>

record Field =
  ID :: int
  Name :: string
  FieldType :: string
  SourceID :: string
  DestID :: string
  TenantID :: string

definition DispenserDatabahnStorage :: string where "DispenserDatabahnStorage = ''databahnstorage''"
definition DispenserS3Parquet :: string where "DispenserS3Parquet = ''S3Parquet''"

record SearchConfig =
  AthenaTable :: string
  S3Location :: string
  DatabahnStorageRegion :: string

text \<open>
  An error with its dynamic type: the two packages have a table-not-found type each.  Wrapping with
  \<^verbatim>\<open>%w\<close> keeps the type that \<open>errors.As\<close> finds and extends the message.
\<close>

datatype error_type = ModelTableNotFound | AthenaTableNotFound | OtherErrorType

record cat_error =
  ErrType :: error_type
  ErrMsg :: string

definition plain_error :: "string \<Rightarrow> cat_error" where
  "plain_error msg = \<lparr>ErrType = OtherErrorType, ErrMsg = msg\<rparr>"

definition wrap_error :: "string \<Rightarrow> cat_error \<Rightarrow> cat_error" where
  "wrap_error prefix e = e\<lparr>ErrMsg := prefix @ ErrMsg e\<rparr>"

definition NewTableNotFoundError :: "string \<Rightarrow> cat_error" where
  "NewTableNotFoundError msg = \<lparr>ErrType = ModelTableNotFound, ErrMsg = msg\<rparr>"

definition athena_IsTableNotFound :: "cat_error \<Rightarrow> bool" where
  "athena_IsTableNotFound e \<longleftrightarrow>
     ErrType e = AthenaTableNotFound
     \<or> (let msg = go_to_lower (ErrMsg e) in
        go_contains msg ''table_not_found'' \<or> go_contains msg ''table not found'' \<or> go_contains msg ''does not exist'')"

definition IsTableNotFound :: "cat_error \<Rightarrow> bool" where
  "IsTableNotFound e \<longleftrightarrow> ErrType e = ModelTableNotFound \<or> athena_IsTableNotFound e"

definition DatabaseName :: "string \<Rightarrow> string" where
  "DatabaseName tenantID = ''databahn_tenant_'' @ go_replace_all tenantID ''-'' ''_''"

text \<open>The index of the first slash has to be positive: an empty bucket leaves the rest as it is.\<close>

definition BucketFromS3Location :: "string \<Rightarrow> string" where
  "BucketFromS3Location s3Location =
     (let trimmed = go_trim_prefix s3Location ''s3://'';
          before = takeWhile (\<lambda>c. c \<noteq> CHR ''/'') trimmed
      in if CHR ''/'' \<in> set trimmed \<and> before \<noteq> [] then before else trimmed)"

definition GroupKey :: "string \<Rightarrow> string \<Rightarrow> string \<Rightarrow> string" where
  "GroupKey destID sourceID tenantID = destID @ ''|'' @ sourceID @ ''|'' @ tenantID"

definition AthenaType :: "string \<Rightarrow> string" where
  "AthenaType fieldType =
     (if fieldType = ''long'' then ''bigint''
      else if fieldType = ''string'' then ''string''
      else if fieldType = ''double'' then ''double''
      else if fieldType = ''boolean'' then ''boolean''
      else ''string'')"

definition FieldIDs :: "Field list \<Rightarrow> int list" where
  "FieldIDs flds = map ID flds"

section \<open>Validation\<close>

record InvalidField =
  InvField :: Field
  Reason :: string

definition athenaReservedKeywords :: "string list" where
  "athenaReservedKeywords =
     [''all'', ''alter'', ''and'', ''array'', ''as'', ''authorization'', ''between'',
      ''bigint'', ''binary'', ''boolean'', ''both'', ''by'', ''cache'', ''case'', ''cast'',
      ''char'', ''column'', ''conf'', ''constraint'', ''commit'', ''create'', ''cross'',
      ''cube'', ''current'', ''current_date'', ''current_timestamp'', ''cursor'',
      ''database'', ''date'', ''dayofweek'', ''decimal'', ''delete'', ''describe'',
      ''distinct'', ''double'', ''drop'', ''else'', ''end'', ''exchange'', ''exists'',
      ''extended'', ''external'', ''extract'', ''false'', ''fetch'', ''float'', ''floor'',
      ''following'', ''for'', ''foreign'', ''from'', ''full'', ''function'', ''grant'',
      ''group'', ''grouping'', ''having'', ''if'', ''import'', ''in'', ''inner'', ''insert'',
      ''int'', ''integer'', ''intersect'', ''interval'', ''into'', ''is'', ''join'',
      ''lateral'', ''left'', ''less'', ''like'', ''local'', ''macro'', ''map'', ''more'',
      ''none'', ''not'', ''null'', ''numeric'', ''of'', ''on'', ''only'', ''or'', ''order'',
      ''out'', ''outer'', ''over'', ''partialscan'', ''partition'', ''percent'',
      ''preceding'', ''precision'', ''preserve'', ''primary'', ''procedure'', ''range'',
      ''reads'', ''reduce'', ''regexp'', ''references'', ''revoke'', ''right'', ''rlike'',
      ''rollup'', ''row'', ''rows'', ''select'', ''set'', ''smallint'', ''start'', ''table'',
      ''tablesample'', ''then'', ''time'', ''timestamp'', ''to'', ''transform'', ''trigger'',
      ''true'', ''truncate'', ''unbounded'', ''union'', ''uniquejoin'', ''update'', ''user'',
      ''using'', ''utc_timestamp'', ''values'', ''varchar'', ''views'', ''when'', ''where'',
      ''window'', ''with'',
      ''current_path'', ''current_role'', ''current_time'', ''current_user'',
      ''deallocate'', ''escape'', ''except'', ''execute'', ''first'',
      ''last'', ''localtime'', ''localtimestamp'', ''natural'', ''normalize'',
      ''prepare'', ''recursive'', ''skip'', ''uescape'', ''unnest'']"

definition isReservedKeyword :: "string \<Rightarrow> bool" where
  "isReservedKeyword lower \<longleftrightarrow> lower \<in> set athenaReservedKeywords"

definition lowerFieldNames :: "Field list \<Rightarrow> string list" where
  "lowerFieldNames flds = map (\<lambda>f. go_to_lower (Name f)) flds"

text \<open>One pass over the fields, with the lower case names seen so far.\<close>

fun partition_fields :: "string list \<Rightarrow> Field list \<Rightarrow> Field list \<times> InvalidField list" where
  "partition_fields seen [] = ([], [])"
| "partition_fields seen (f # fs) =
     (let lower = go_to_lower (Name f);
          reject = (\<lambda>reason. case partition_fields seen fs of (valid, invalid) \<Rightarrow>
            (valid, \<lparr>InvField = f, Reason = reason\<rparr> # invalid))
      in if go_has_prefix (Name f) ''_'' then reject ''leading_underscore''
         else if isReservedKeyword lower then reject ''reserved_keyword''
         else if lower \<in> set seen then reject ''duplicate''
         else (case partition_fields (lower # seen) fs of (valid, invalid) \<Rightarrow> (f # valid, invalid)))"

definition PartitionCatalogFields :: "Field list \<Rightarrow> string list \<Rightarrow> Field list \<times> InvalidField list" where
  "PartitionCatalogFields flds existingApplied =
     partition_fields (map go_to_lower existingApplied) (sort_key ID flds)"

section \<open>Columns and statements\<close>

definition PartitionByPresence :: "Field list \<Rightarrow> string list \<Rightarrow> Field list \<times> Field list" where
  "PartitionByPresence flds existing =
     (filter (\<lambda>f. go_to_lower (Name f) \<in> set existing) flds,
      filter (\<lambda>f. go_to_lower (Name f) \<notin> set existing) flds)"

text \<open>\<^verbatim>\<open>^[a-zA-Z_][a-zA-Z0-9_.]*$\<close>\<close>

definition is_letter :: "char \<Rightarrow> bool" where
  "is_letter c \<longleftrightarrow> (let n = of_char c :: nat in (65 \<le> n \<and> n \<le> 90) \<or> (97 \<le> n \<and> n \<le> 122))"

definition validSQLIdentifier :: "string \<Rightarrow> bool" where
  "validSQLIdentifier name =
     (case name of
        [] \<Rightarrow> False
      | c # cs \<Rightarrow> (is_letter c \<or> c = CHR ''_'')
                  \<and> list_all (\<lambda>d. is_letter d \<or> is_digit d \<or> d = CHR ''_'' \<or> d = CHR ''.'') cs)"

text \<open>The \<^verbatim>\<open>%q\<close> verb for ASCII text.\<close>

definition hex_digit :: "nat \<Rightarrow> char" where
  "hex_digit d = (if d < 10 then char_of (48 + d) else char_of (87 + d))"

definition quoted_char :: "char \<Rightarrow> string" where
  "quoted_char c =
     (let n = of_char c :: nat
      in if n = 34 \<or> n = 92 then [char_of (92 :: nat), c]
         else if 32 \<le> n \<and> n < 127 then [c]
         else if 7 \<le> n \<and> n \<le> 13 then [char_of (92 :: nat), ''abtnvfr'' ! (n - 7)]
         else [char_of (92 :: nat), CHR ''x'', hex_digit (n div 16), hex_digit (n mod 16)])"

definition go_quote :: "string \<Rightarrow> string" where
  "go_quote s = [char_of (34 :: nat)] @ concat (map quoted_char s) @ [char_of (34 :: nat)]"

definition back_quote :: char where "back_quote = char_of (96 :: nat)"

definition quoteSQLIdentifier :: "string \<Rightarrow> cat_error + string" where
  "quoteSQLIdentifier name =
     (if validSQLIdentifier name then Inr ([back_quote] @ name @ [back_quote])
      else Inl (plain_error (''invalid SQL identifier: '' @ go_quote name)))"

definition wrapped :: "string \<Rightarrow> cat_error + 'a \<Rightarrow> cat_error + 'a" where
  "wrapped prefix r = (case r of Inl e \<Rightarrow> Inl (wrap_error prefix e) | Inr x \<Rightarrow> Inr x)"

fun column_defs :: "Field list \<Rightarrow> cat_error + string list" where
  "column_defs [] = Inr []"
| "column_defs (f # fs) =
     (case wrapped (''invalid column name '' @ go_quote (Name f) @ '': '') (quoteSQLIdentifier (Name f)) of
        Inl e \<Rightarrow> Inl e
      | Inr quotedCol \<Rightarrow>
          (case column_defs fs of
             Inl e \<Rightarrow> Inl e
           | Inr defs \<Rightarrow> Inr ((quotedCol @ '' '' @ AthenaType (FieldType f)) # defs)))"

definition BuildAddColumnsDDL :: "string \<Rightarrow> string \<Rightarrow> Field list \<Rightarrow> cat_error + string" where
  "BuildAddColumnsDDL database table flds =
     (case wrapped ''invalid database name: '' (quoteSQLIdentifier database) of
        Inl e \<Rightarrow> Inl e
      | Inr quotedDB \<Rightarrow>
          (case wrapped ''invalid table name: '' (quoteSQLIdentifier table) of
             Inl e \<Rightarrow> Inl e
           | Inr quotedTable \<Rightarrow>
               (case column_defs flds of
                  Inl e \<Rightarrow> Inl e
                | Inr colDefs \<Rightarrow>
                    Inr (''ALTER TABLE '' @ quotedDB @ ''.'' @ quotedTable @ '' ADD COLUMNS ('' @ go_join '', '' colDefs @ '')''))))"

section \<open>Which fields are kept\<close>

definition usable_name :: "string \<Rightarrow> bool" where
  "usable_name name \<longleftrightarrow> \<not> go_has_prefix name ''_'' \<and> \<not> isReservedKeyword (go_to_lower name)"

abbreviation lower_name :: "Field \<Rightarrow> string" where
  "lower_name f \<equiv> go_to_lower (Name f)"

lemma partition_fields_Cons:
  "partition_fields seen (f # fs) =
     (if usable_name (Name f) \<and> lower_name f \<notin> set seen
      then (f # fst (partition_fields (lower_name f # seen) fs), snd (partition_fields (lower_name f # seen) fs))
      else (fst (partition_fields seen fs),
            \<lparr>InvField = f, Reason = (if go_has_prefix (Name f) ''_'' then ''leading_underscore''
               else if isReservedKeyword (lower_name f) then ''reserved_keyword'' else ''duplicate'')\<rparr>
            # snd (partition_fields seen fs)))"
  by (simp add: usable_name_def Let_def split: prod.split)

declare partition_fields.simps(2) [simp del]

lemma partition_fields_mset:
  "mset (fst (partition_fields seen fs)) + mset (map InvField (snd (partition_fields seen fs))) = mset fs"
  by (induction fs arbitrary: seen) (simp_all add: partition_fields_Cons)

lemma partition_fields_filter:
  assumes "sorted_wrt (\<lambda>f g. ID f < ID g) fs"
  shows "fst (partition_fields seen fs) =
     filter (\<lambda>f. usable_name (Name f) \<and> lower_name f \<notin> set seen
        \<and> (\<forall>g\<in>set fs. usable_name (Name g) \<and> lower_name g = lower_name f \<longrightarrow> ID f \<le> ID g)) fs"
  using assms
proof (induction fs arbitrary: seen)
  case (Cons f fs)
  show ?case
  proof (cases "usable_name (Name f) \<and> lower_name f \<notin> set seen")
    case True
    have "(\<forall>g\<in>set fs. usable_name (Name g) \<and> lower_name g = lower_name f \<longrightarrow> ID f \<le> ID g)"
      using Cons.prems by auto
    moreover have "filter (\<lambda>h. usable_name (Name h) \<and> lower_name h \<notin> set (lower_name f # seen)
        \<and> (\<forall>g\<in>set fs. usable_name (Name g) \<and> lower_name g = lower_name h \<longrightarrow> ID h \<le> ID g)) fs
      = filter (\<lambda>h. usable_name (Name h) \<and> lower_name h \<notin> set seen
        \<and> (\<forall>g\<in>set (f # fs). usable_name (Name g) \<and> lower_name g = lower_name h \<longrightarrow> ID h \<le> ID g)) fs"
      using Cons.prems True by (intro filter_cong) auto
    ultimately show ?thesis using Cons True by (simp add: partition_fields_Cons)
  next
    case False
    have "filter (\<lambda>h. usable_name (Name h) \<and> lower_name h \<notin> set seen
        \<and> (\<forall>g\<in>set fs. usable_name (Name g) \<and> lower_name g = lower_name h \<longrightarrow> ID h \<le> ID g)) fs
      = filter (\<lambda>h. usable_name (Name h) \<and> lower_name h \<notin> set seen
        \<and> (\<forall>g\<in>set (f # fs). usable_name (Name g) \<and> lower_name g = lower_name h \<longrightarrow> ID h \<le> ID g)) fs"
      using False by (intro filter_cong) auto
    with Cons False show ?thesis by (auto simp: partition_fields_Cons)
  qed
qed simp

lemma sort_key_strict:
  assumes "distinct (map ID fs)"
  shows "sorted_wrt (\<lambda>f g. ID f < ID g) (sort_key ID fs)"
proof -
  have "distinct (map ID (sort_key ID fs))"
    using assms by (metis mset_map mset_sort mset_eq_imp_distinct_iff)
  moreover have "sorted (map ID (sort_key ID fs))" by simp
  ultimately have "sorted_wrt (<) (map ID (sort_key ID fs))" by (simp add: strict_sorted_iff)
  then show ?thesis by (simp add: sorted_wrt_map)
qed

text \<open>C24: Validation keeps, in the order of their ids, exactly the fields whose name is usable and not applied
  yet, and of several fields whose names differ in case only the one with the smallest id; every other
  field of the group is rejected, none is lost and none is duplicated.
\<close>

theorem PartitionCatalogFields_equiv:
  assumes "distinct (map ID flds)"
  shows "fst (PartitionCatalogFields flds applied) =
       filter (\<lambda>f. usable_name (Name f) \<and> lower_name f \<notin> go_to_lower ` set applied
         \<and> (\<forall>g\<in>set flds. usable_name (Name g) \<and> lower_name g = lower_name f \<longrightarrow> ID f \<le> ID g)) (sort_key ID flds)
     \<and> mset (fst (PartitionCatalogFields flds applied)) + mset (map InvField (snd (PartitionCatalogFields flds applied)))
       = mset flds"
  using partition_fields_filter [OF sort_key_strict [OF assms], of "map go_to_lower applied"]
    partition_fields_mset [of "map go_to_lower applied" "sort_key ID flds"]
  by (simp add: PartitionCatalogFields_def)

definition sample_fields :: "Field list" where
  "sample_fields =
     [\<lparr>ID = 7, Name = ''SrcIp'', FieldType = ''string'', SourceID = ''s'', DestID = ''d'', TenantID = ''t''\<rparr>,
      \<lparr>ID = 3, Name = ''srcip'', FieldType = ''long'', SourceID = ''s'', DestID = ''d'', TenantID = ''t''\<rparr>,
      \<lparr>ID = 4, Name = ''_raw'', FieldType = ''long'', SourceID = ''s'', DestID = ''d'', TenantID = ''t''\<rparr>]"

theorem PartitionCatalogFields_equiv_witness:
  "distinct (map ID sample_fields)
   \<and> map ID (fst (PartitionCatalogFields sample_fields [''user''])) = [3]
   \<and> map (\<lambda>i. (ID (InvField i), Reason i)) (snd (PartitionCatalogFields sample_fields [''user'']))
       = [(4, ''leading_underscore''), (7, ''duplicate'')]
   \<and> mset (fst (PartitionCatalogFields sample_fields [''user'']))
       + mset (map InvField (snd (PartitionCatalogFields sample_fields [''user'']))) = mset sample_fields"
proof -
  have d: "distinct (map ID sample_fields)" by (simp add: sample_fields_def)
  have "map ID (fst (PartitionCatalogFields sample_fields [''user''])) = [3]"
    "map (\<lambda>i. (ID (InvField i), Reason i)) (snd (PartitionCatalogFields sample_fields [''user'']))
       = [(4, ''leading_underscore''), (7, ''duplicate'')]"
    by code_simp+
  then show ?thesis using d PartitionCatalogFields_equiv [OF d, of "[''user'']"] by blast
qed

section \<open>Statements read back\<close>

text \<open>
  How a statement is read: an identifier ends at the next back quote, a type is a run of letters.
\<close>

definition expect :: "string \<Rightarrow> string \<Rightarrow> string option" where
  "expect p s = (if go_has_prefix s p then Some (drop (length p) s) else None)"

definition read_identifier :: "string \<Rightarrow> (string \<times> string) option" where
  "read_identifier s =
     (case s of
        [] \<Rightarrow> None
      | c # cs \<Rightarrow> if c = back_quote \<and> back_quote \<in> set cs
                  then Some (takeWhile (\<lambda>d. d \<noteq> back_quote) cs, tl (dropWhile (\<lambda>d. d \<noteq> back_quote) cs))
                  else None)"

fun read_columns :: "nat \<Rightarrow> string \<Rightarrow> (string \<times> string) list option" where
  "read_columns 0 s = None"
| "read_columns (Suc n) s =
     (case read_identifier s of
        None \<Rightarrow> None
      | Some (col, s1) \<Rightarrow>
          (case expect '' '' s1 of
             None \<Rightarrow> None
           | Some s2 \<Rightarrow>
               (let ty = takeWhile is_letter s2; s3 = dropWhile is_letter s2
                in if s3 = '')'' then Some [(col, ty)]
                   else (case expect '', '' s3 of
                           None \<Rightarrow> None
                         | Some s4 \<Rightarrow> map_option ((#) (col, ty)) (read_columns n s4)))))"

definition read_add_columns :: "string \<Rightarrow> (string \<times> string \<times> (string \<times> string) list) option" where
  "read_add_columns q =
     Option.bind (expect ''ALTER TABLE '' q) (\<lambda>s1.
     Option.bind (read_identifier s1) (\<lambda>(db, s2).
     Option.bind (expect ''.'' s2) (\<lambda>s3.
     Option.bind (read_identifier s3) (\<lambda>(table, s4).
     Option.bind (expect '' ADD COLUMNS ('' s4) (\<lambda>s5.
       map_option (\<lambda>cols. (db, table, cols)) (read_columns (length s5) s5))))))"

lemma expect_append [simp]: "expect p (p @ s) = Some s"
  by (simp add: expect_def)

lemma back_quote_classes:
  "\<not> is_letter back_quote" "\<not> is_digit back_quote" "back_quote \<noteq> CHR ''_''" "back_quote \<noteq> CHR ''.''"
  by code_simp+

lemma valid_no_back_quote: "validSQLIdentifier name \<Longrightarrow> back_quote \<notin> set name"
  using back_quote_classes by (auto simp: validSQLIdentifier_def list_all_iff split: list.splits)

lemma read_quoted:
  "quoteSQLIdentifier name = Inr qn \<Longrightarrow> read_identifier (qn @ s) = Some (name, s)"
  using valid_no_back_quote [of name]
  by (auto simp: quoteSQLIdentifier_def read_identifier_def takeWhile_append dropWhile_append split: if_splits
      intro!: takeWhile_eq_all_conv [THEN iffD2])

lemma wrapped_Inr: "wrapped p r = Inr x \<longleftrightarrow> r = Inr x"
  by (cases r) (simp_all add: wrapped_def)

lemma AthenaType_letters:
  "takeWhile is_letter (AthenaType t @ CHR '')'' # s) = AthenaType t"
  "dropWhile is_letter (AthenaType t @ CHR '')'' # s) = CHR '')'' # s"
  "takeWhile is_letter (AthenaType t @ CHR '','' # s) = AthenaType t"
  "dropWhile is_letter (AthenaType t @ CHR '','' # s) = CHR '','' # s"
  by (simp_all add: AthenaType_def is_letter_def)

lemma read_columns_defs:
  assumes "column_defs flds = Inr defs" and "flds \<noteq> []" and "length flds \<le> n"
  shows "read_columns n (go_join '', '' defs @ '')'') = Some (map (\<lambda>f. (Name f, AthenaType (FieldType f))) flds)"
  using assms
proof (induction flds arbitrary: defs n)
  case (Cons f fs)
  then obtain m where n: "n = Suc m" "length fs \<le> m" by (cases n) auto
  from Cons.prems obtain qn ds where q: "quoteSQLIdentifier (Name f) = Inr qn" and ds: "column_defs fs = Inr ds"
    and defs: "defs = (qn @ '' '' @ AthenaType (FieldType f)) # ds"
    by (auto simp: wrapped_Inr split: sum.splits)
  note rd = read_quoted [OF q]
  show ?case
  proof (cases fs)
    case Nil
    with ds defs n rd show ?thesis
      using expect_append [of "'' ''"] by (simp add: AthenaType_letters)
  next
    case (Cons f2 fs2)
    with ds obtain d2 ds2 where d2: "ds = d2 # ds2" by (auto split: sum.splits)
    have "read_columns m (go_join '', '' ds @ '')'') = Some (map (\<lambda>f. (Name f, AthenaType (FieldType f))) fs)"
      using Cons.IH [OF ds] Cons n by simp
    then show ?thesis using defs n rd expect_append [of "'' ''"] expect_append [of "'', ''"]
      by (simp add: d2 AthenaType_letters)
  qed
qed simp

lemma go_join_length: "\<forall>d\<in>set ds. d \<noteq> [] \<Longrightarrow> length ds \<le> length (go_join sep ds)"
proof (induction sep ds rule: go_join.induct)
  case (3 sep w v ws)
  then have "1 \<le> length w" by (simp add: Suc_le_eq)
  with 3 show ?case by simp
qed (auto simp: Suc_le_eq)

lemma column_defs_shape:
  "column_defs flds = Inr defs \<Longrightarrow> length defs = length flds \<and> (\<forall>d\<in>set defs. d \<noteq> [])"
  by (induction flds arbitrary: defs) (auto split: sum.splits)

text \<open>C25: A statement that is built for some columns reads back as exactly the database, the table and the
  columns with their types that it was built from: no name can end its quotation or add a column.
\<close>

theorem BuildAddColumnsDDL_read:
  assumes "BuildAddColumnsDDL database table flds = Inr q" and "flds \<noteq> []"
  shows "read_add_columns q = Some (database, table, map (\<lambda>f. (Name f, AthenaType (FieldType f))) flds)"
proof -
  from assms(1) obtain qd qt defs where qd: "quoteSQLIdentifier database = Inr qd"
    and qt: "quoteSQLIdentifier table = Inr qt" and defs: "column_defs flds = Inr defs"
    and q: "q = ''ALTER TABLE '' @ qd @ ''.'' @ qt @ '' ADD COLUMNS ('' @ go_join '', '' defs @ '')''"
    by (auto simp: BuildAddColumnsDDL_def wrapped_Inr split: sum.splits)
  have "length flds \<le> length (go_join '', '' defs @ '')'')"
    using column_defs_shape [OF defs] go_join_length [of defs "'', ''"] by simp
  note cols = read_columns_defs [OF defs assms(2) this]
  show ?thesis unfolding read_add_columns_def q
    by (simp only: expect_append bind.bind_lunit read_quoted [OF qd] read_quoted [OF qt] prod.case cols option.map)
qed

theorem BuildAddColumnsDDL_read_witness:
  "\<exists>q. BuildAddColumnsDDL ''databahn_tenant_1'' ''logs'' [hd sample_fields] = Inr q
     \<and> read_add_columns q = Some (''databahn_tenant_1'', ''logs'', [(''SrcIp'', ''string'')])"
proof -
  define q where "q = projr (BuildAddColumnsDDL ''databahn_tenant_1'' ''logs'' [hd sample_fields])"
  have q: "BuildAddColumnsDDL ''databahn_tenant_1'' ''logs'' [hd sample_fields] = Inr q"
    unfolding q_def by code_simp
  from BuildAddColumnsDDL_read [OF q] show ?thesis using q by (simp add: sample_fields_def AthenaType_def)
qed

end
