(* ===== verification/Catalog_Athena.thy ===== *)
theory Catalog_Athena
  imports Catalog_Model Go_Time
begin

text \<open>
  The Athena calls of \<open>internal/store/athena/schema.go\<close> and the completion loop of
  \<open>frequency_query.go\<close> that they share.

  Athena is an outside service: the history of the calls made so far determines its answers, the clock
  and the cancellation of the context, and every call and its answer is appended to the history.  The
  two loops that wait for a query and the loop over the result pages take the fuel of the environment;
  \<open>waitForQueryCompletion_returns\<close> shows that the one with a deadline needs no more than 151 rounds when
  the clock moves by the poll interval between two polls.
\<close>

section \<open>The service\<close>

datatype query_state = Succeeded | QueryFailed "string option" | Cancelled | Queued | Running | UnknownState

record destinationConfig =
  AuthType :: string
  AccessKeyID :: string
  SecretKey :: string
  RoleArn :: string
  ExternalID :: string
  Region :: string
  Bucket :: string

datatype athena_client = PlatformClient string | CustomerClient destinationConfig

type_synonym result_row = "string option list"

datatype athena_event =
    StartQueryExecution athena_client string "string option" string "go_error + string"
  | GetQueryExecution athena_client string "go_error + query_state"
  | GetQueryResults athena_client string "string option" "go_error + result_row list \<times> string option"

record athena_env =
  ae_load :: "string \<Rightarrow> go_error option"
  ae_start :: "athena_event list \<Rightarrow> athena_client \<Rightarrow> string \<Rightarrow> string option \<Rightarrow> string \<Rightarrow> go_error + string"
  ae_status :: "athena_event list \<Rightarrow> athena_client \<Rightarrow> string \<Rightarrow> go_error + query_state"
  ae_results :: "athena_event list \<Rightarrow> athena_client \<Rightarrow> string \<Rightarrow> string option \<Rightarrow> go_error + result_row list \<times> string option"
  ae_now :: "athena_event list \<Rightarrow> int"
  ae_done :: "athena_event list \<Rightarrow> go_error option"
  ae_fuel :: nat

text \<open>A row of the table \<^verbatim>\<open>data_catalog\<close>, and the state of a run.\<close>

record catalog_row =
  row_field :: Field
  row_dispenser :: string
  row_applied :: bool
  row_engine :: string

record catalog_world =
  cw_rows :: "catalog_row list"
  cw_operations :: nat
  cw_athena :: "athena_event list"

section \<open>Computations with typed errors\<close>

type_synonym 'a cat = "(catalog_world, cat_error + 'a) eff"

definition cat_ok :: "'a \<Rightarrow> 'a cat" where
  "cat_ok x = eff_return (Inr x)"

definition cat_fail :: "cat_error \<Rightarrow> 'a cat" where
  "cat_fail e = eff_return (Inl e)"

definition cat_result :: "cat_error + 'a \<Rightarrow> 'a cat" where
  "cat_result r = eff_return r"

definition bind_cat :: "'a cat \<Rightarrow> ('a \<Rightarrow> 'b cat) \<Rightarrow> 'b cat" where
  "bind_cat m f = bind_eff m (\<lambda>r. case r of Inl e \<Rightarrow> eff_return (Inl e) | Inr x \<Rightarrow> f x)"

text \<open>\<^verbatim>\<open>if err != nil { return g(err) }\<close>\<close>

definition cat_map_error :: "(cat_error \<Rightarrow> cat_error) \<Rightarrow> 'a cat \<Rightarrow> 'a cat" where
  "cat_map_error g m = bind_eff m (\<lambda>r. eff_return (case r of Inl e \<Rightarrow> Inl (g e) | Inr x \<Rightarrow> Inr x))"

definition log_event :: "(athena_event list \<Rightarrow> go_error + 'a) \<Rightarrow> (go_error + 'a \<Rightarrow> athena_event) \<Rightarrow> 'a cat" where
  "log_event answer event w =
     (let r = answer (cw_athena w) in
      (Ok (case r of Inl e \<Rightarrow> Inl (plain_error e) | Inr x \<Rightarrow> Inr x),
       w\<lparr>cw_athena := cw_athena w @ [event r]\<rparr>))"

definition start_query :: "athena_env \<Rightarrow> athena_client \<Rightarrow> string \<Rightarrow> string option \<Rightarrow> string \<Rightarrow> string cat" where
  "start_query env client query database outputLocation =
     log_event (\<lambda>h. ae_start env h client query database outputLocation)
       (StartQueryExecution client query database outputLocation)"

definition query_status :: "athena_env \<Rightarrow> athena_client \<Rightarrow> string \<Rightarrow> query_state cat" where
  "query_status env client executionID =
     log_event (\<lambda>h. ae_status env h client executionID) (GetQueryExecution client executionID)"

definition query_results :: "athena_env \<Rightarrow> athena_client \<Rightarrow> string \<Rightarrow> string option \<Rightarrow> (result_row list \<times> string option) cat" where
  "query_results env client executionID token =
     log_event (\<lambda>h. ae_results env h client executionID token) (GetQueryResults client executionID token)"

section \<open>Waiting for a query\<close>

definition failure_reason :: "string option \<Rightarrow> string" where
  "failure_reason reason = (case reason of None \<Rightarrow> ''unknown'' | Some r \<Rightarrow> r)"

fun waitForQueryCompletionWithInterval :: "nat \<Rightarrow> athena_env \<Rightarrow> athena_client \<Rightarrow> string \<Rightarrow> unit cat" where
  "waitForQueryCompletionWithInterval 0 env client executionID = eff_out_of_fuel"
| "waitForQueryCompletionWithInterval (Suc fuel) env client executionID =
     bind_cat (cat_map_error (wrap_error ''failed to get query status: '') (query_status env client executionID))
       (\<lambda>state. case state of
          Succeeded \<Rightarrow> cat_ok ()
        | QueryFailed reason \<Rightarrow> cat_fail (plain_error (''query failed: '' @ failure_reason reason))
        | Cancelled \<Rightarrow> cat_fail (plain_error ''query was cancelled'')
        | UnknownState \<Rightarrow> waitForQueryCompletionWithInterval fuel env client executionID
        | _ \<Rightarrow> (\<lambda>w. case ae_done env (cw_athena w) of
                      Some e \<Rightarrow> cat_fail (plain_error e) w
                    | None \<Rightarrow> waitForQueryCompletionWithInterval fuel env client executionID w))"

definition maxWaitTime :: duration where "maxWaitTime = 5 * 60 * 1000000000"
definition pollInterval :: duration where "pollInterval = 2 * 1000000000"

fun wait_until :: "nat \<Rightarrow> athena_env \<Rightarrow> athena_client \<Rightarrow> string \<Rightarrow> int \<Rightarrow> unit cat" where
  "wait_until 0 env client executionId deadline = eff_out_of_fuel"
| "wait_until (Suc fuel) env client executionId deadline = (\<lambda>w.
     if ae_now env (cw_athena w) < deadline then
       bind_cat (query_status env client executionId)
         (\<lambda>status. case status of
            Succeeded \<Rightarrow> cat_ok ()
          | QueryFailed reason \<Rightarrow> cat_fail (plain_error (''query failed: '' @ failure_reason reason))
          | Cancelled \<Rightarrow> cat_fail (plain_error ''query was cancelled'')
          | _ \<Rightarrow> wait_until fuel env client executionId deadline) w
     else cat_fail (plain_error ''query execution timed out after 5m0s'') w)"

definition waitForQueryCompletion :: "athena_env \<Rightarrow> athena_client \<Rightarrow> string \<Rightarrow> unit cat" where
  "waitForQueryCompletion env client executionId w =
     wait_until (ae_fuel env) env client executionId (ae_now env (cw_athena w) + maxWaitTime) w"

section \<open>Describing a table\<close>

definition buildDescribeQuery :: "string \<Rightarrow> string \<Rightarrow> cat_error + string" where
  "buildDescribeQuery database table =
     (case wrapped ''invalid database name: '' (quoteSQLIdentifier database) of
        Inl e \<Rightarrow> Inl e
      | Inr quotedDB \<Rightarrow>
          (case wrapped ''invalid table name: '' (quoteSQLIdentifier table) of
             Inl e \<Rightarrow> Inl e
           | Inr quotedTable \<Rightarrow> Inr (''DESCRIBE '' @ quotedDB @ ''.'' @ quotedTable)))"

definition datumString :: "string option \<Rightarrow> string" where
  "datumString d = (case d of None \<Rightarrow> '''' | Some s \<Rightarrow> s)"

definition tab_char :: char where "tab_char = char_of (9 :: nat)"

definition trim_char :: "char \<Rightarrow> string \<Rightarrow> string" where
  "trim_char c s = rev (dropWhile (\<lambda>d. d = c) (rev (dropWhile (\<lambda>d. d = c) s)))"

definition parseDescribeColumnName :: "string \<Rightarrow> string" where
  "parseDescribeColumnName raw =
     (let name = go_trim_space raw
      in if name = '''' then ''''
         else
           (let name1 = (if tab_char \<in> set name then go_trim_space (takeWhile (\<lambda>d. d \<noteq> tab_char) name) else name)
            in go_to_lower (trim_char back_quote name1)))"

definition parseDescribeResultRows :: "result_row list \<Rightarrow> bool \<Rightarrow> string list" where
  "parseDescribeResultRows rows skipHeader =
     filter (\<lambda>name. name \<noteq> '''' \<and> \<not> go_has_prefix name ''#'')
       (map (\<lambda>row. parseDescribeColumnName (datumString (hd row)))
         (filter (\<lambda>row. row \<noteq> []) (if skipHeader then drop 1 rows else rows)))"

definition mergeDescribeColumns :: "string list \<Rightarrow> string list \<Rightarrow> string list" where
  "mergeDescribeColumns dest src = remdups (dest @ src)"

fun describe_pages ::
  "nat \<Rightarrow> athena_env \<Rightarrow> athena_client \<Rightarrow> string \<Rightarrow> string option \<Rightarrow> bool \<Rightarrow> string list \<Rightarrow> string list cat" where
  "describe_pages 0 env client executionID nextToken firstPage columns = eff_out_of_fuel"
| "describe_pages (Suc fuel) env client executionID nextToken firstPage columns =
     bind_cat (cat_map_error (wrap_error ''failed to fetch DESCRIBE results: '') (query_results env client executionID nextToken))
       (\<lambda>(rows, next).
          let columns' = mergeDescribeColumns columns (parseDescribeResultRows rows firstPage)
          in case next of
               None \<Rightarrow> cat_ok columns'
             | Some _ \<Rightarrow> describe_pages fuel env client executionID next False columns')"

definition describe_error :: "cat_error \<Rightarrow> cat_error" where
  "describe_error e =
     (if athena_IsTableNotFound e then \<lparr>ErrType = AthenaTableNotFound, ErrMsg = ErrMsg e\<rparr>
      else wrap_error ''DESCRIBE query failed: '' e)"

definition GetTableColumnNames :: "athena_env \<Rightarrow> athena_client \<Rightarrow> string \<Rightarrow> string \<Rightarrow> string \<Rightarrow> string list cat" where
  "GetTableColumnNames env client database table outputLocation =
     bind_cat (cat_result (buildDescribeQuery database table)) (\<lambda>query.
     bind_cat (cat_map_error (wrap_error ''failed to start DESCRIBE query: '')
                 (start_query env client query (Some database) outputLocation)) (\<lambda>executionID.
     bind_cat (cat_map_error describe_error (waitForQueryCompletion env client executionID)) (\<lambda>_.
       describe_pages (ae_fuel env) env client executionID None True [])))"

definition load_config :: "athena_env \<Rightarrow> string \<Rightarrow> unit cat" where
  "load_config env region =
     (case ae_load env region of
        Some e \<Rightarrow> cat_fail (plain_error (''failed to load AWS config for region '' @ region @ '': '' @ e))
      | None \<Rightarrow> cat_ok ())"

definition GetTableColumnNamesInRegion :: "athena_env \<Rightarrow> string \<Rightarrow> string \<Rightarrow> string \<Rightarrow> string \<Rightarrow> string list cat" where
  "GetTableColumnNamesInRegion env region database table outputLocation =
     bind_cat (load_config env region) (\<lambda>_.
       GetTableColumnNames env (PlatformClient region) database table outputLocation)"

section \<open>Statements\<close>

definition RunDDL :: "athena_env \<Rightarrow> athena_client \<Rightarrow> string \<Rightarrow> string \<Rightarrow> unit cat" where
  "RunDDL env client query outputLocation =
     bind_cat (cat_map_error (wrap_error ''failed to execute query: '') (start_query env client query None outputLocation))
       (\<lambda>executionID. waitForQueryCompletionWithInterval (ae_fuel env) env client executionID)"

definition RunDDLInRegion :: "athena_env \<Rightarrow> string \<Rightarrow> string \<Rightarrow> string \<Rightarrow> unit cat" where
  "RunDDLInRegion env query region outputLocation =
     bind_cat (load_config env region) (\<lambda>_. RunDDL env (PlatformClient region) query outputLocation)"

section \<open>Computations with typed errors, continued\<close>

lemma cat_simps [simp]:
  "cat_ok x w = (Ok (Inr x), w)" "cat_fail e w = (Ok (Inl e), w)" "cat_result r w = (Ok r, w)"
  by (simp_all add: cat_ok_def cat_fail_def cat_result_def)

lemma bind_cat_OkE:
  assumes "bind_cat m f w = (Ok (Inr y), w')"
  obtains x w1 where "m w = (Ok (Inr x), w1)" and "f x w1 = (Ok (Inr y), w')"
proof -
  from assms obtain r w1 where m: "m w = (Ok r, w1)"
    and f: "(case r of Inl e \<Rightarrow> eff_return (Inl e) | Inr x \<Rightarrow> f x) w1 = (Ok (Inr y), w')"
    unfolding bind_cat_def bind_eff_Ok by blast
  with that show thesis by (cases r) auto
qed

lemma bind_cat_step [simp]: "m w = (Ok (Inr x), w1) \<Longrightarrow> bind_cat m f w = f x w1"
  by (simp add: bind_cat_def bind_eff_def)

lemma bind_cat_error [simp]: "m w = (Ok (Inl e), w1) \<Longrightarrow> bind_cat m f w = (Ok (Inl e), w1)"
  by (simp add: bind_cat_def bind_eff_def)

lemma cat_map_error_Inr:
  "cat_map_error g m w = (Ok (Inr x), w') \<longleftrightarrow> m w = (Ok (Inr x), w')"
  by (force simp: cat_map_error_def bind_eff_Ok split: sum.split_asm)

lemma keeps_bind_cat:
  assumes "preorder_rel R" and "keeps R m" and "\<And>x. keeps R (f x)"
  shows "keeps R (bind_cat m f)"
  unfolding bind_cat_def using assms by (intro keeps_bind) (auto intro: keeps_simple split: sum.split)

lemma keeps_map_error: "preorder_rel R \<Longrightarrow> keeps R m \<Longrightarrow> keeps R (cat_map_error g m)"
  unfolding cat_map_error_def by (intro keeps_bind keeps_simple)

lemma keeps_cat_simple:
  assumes "preorder_rel R"
  shows "keeps R (cat_ok x)" "keeps R (cat_fail e)" "keeps R (cat_result r)"
  using assms by (simp_all add: cat_ok_def cat_fail_def cat_result_def keeps_simple)

lemma keeps_if: "keeps R a \<Longrightarrow> keeps R b \<Longrightarrow> keeps R (if c then a else b)"
  by simp

lemma cat_map_error_outcome:
  assumes "cat_map_error g m w = (r, w')"
  obtains r1 where "m w = (r1, w')" and "\<And>x. r = Ok (Inr x) \<longleftrightarrow> r1 = Ok (Inr x)"
proof -
  obtain r1 w1 where m: "m w = (r1, w1)" by fastforce
  have "w1 = w' \<and> (\<forall>x. r = Ok (Inr x) \<longleftrightarrow> r1 = Ok (Inr x))"
    using assms m by (cases r1) (auto simp: cat_map_error_def bind_eff_def split: sum.splits)
  with that m show thesis by blast
qed

section \<open>What the calls change\<close>

text \<open>The Athena calls extend the history and leave the tables alone.\<close>

definition extends_history :: "catalog_world \<Rightarrow> catalog_world \<Rightarrow> bool" where
  "extends_history w w' \<longleftrightarrow>
     cw_rows w' = cw_rows w \<and> cw_operations w' = cw_operations w \<and> (\<exists>es. cw_athena w' = cw_athena w @ es)"

lemma extends_preorder: "preorder_rel extends_history"
  by (auto simp: preorder_rel_def extends_history_def)

lemma keeps_log_event: "keeps extends_history (log_event answer event)"
  by (simp add: keeps_def log_event_def Let_def extends_history_def)

lemmas athena_keeps =
  keeps_bind_cat [OF extends_preorder] keeps_map_error [OF extends_preorder] keeps_cat_simple [OF extends_preorder]
  keeps_simple [OF extends_preorder] keeps_log_event

lemma keeps_wait_interval: "keeps extends_history (waitForQueryCompletionWithInterval fuel env client executionID)"
proof (induction fuel)
  case (Suc fuel)
  have wait: "keeps extends_history (\<lambda>w. case ae_done env (cw_athena w) of
      Some e \<Rightarrow> cat_fail (plain_error e) w
    | None \<Rightarrow> waitForQueryCompletionWithInterval fuel env client executionID w)"
    using Suc extends_preorder unfolding keeps_def preorder_rel_def by (auto split: option.split)
  show ?case unfolding waitForQueryCompletionWithInterval.simps(2) query_status_def
    by (intro athena_keeps) (auto split: query_state.split intro: athena_keeps Suc wait)
qed (simp add: athena_keeps)

lemma keeps_wait_until: "keeps extends_history (wait_until fuel env client executionId deadline)"
proof (induction fuel)
  case (Suc fuel)
  have poll: "keeps extends_history (bind_cat (query_status env client executionId)
         (\<lambda>status. case status of
            Succeeded \<Rightarrow> cat_ok ()
          | QueryFailed reason \<Rightarrow> cat_fail (plain_error (''query failed: '' @ failure_reason reason))
          | Cancelled \<Rightarrow> cat_fail (plain_error ''query was cancelled'')
          | _ \<Rightarrow> wait_until fuel env client executionId deadline))"
    unfolding query_status_def
    by (intro athena_keeps) (auto split: query_state.split intro: athena_keeps Suc)
  then show ?case using extends_preorder unfolding keeps_def preorder_rel_def by simp
qed (simp add: athena_keeps)

lemma keeps_describe_pages: "keeps extends_history (describe_pages fuel env client executionID token first cols)"
proof (induction fuel arbitrary: token first cols)
  case (Suc fuel)
  then show ?case unfolding describe_pages.simps(2) query_results_def Let_def
    by (intro athena_keeps) (auto split: prod.split option.split intro: athena_keeps)
qed (simp add: athena_keeps)

lemma keeps_waitForQueryCompletion: "keeps extends_history (waitForQueryCompletion env client executionId)"
  using keeps_wait_until unfolding keeps_def waitForQueryCompletion_def by blast

lemma keeps_GetTableColumnNames: "keeps extends_history (GetTableColumnNames env client database table out)"
  unfolding GetTableColumnNames_def start_query_def
  by (intro athena_keeps keeps_waitForQueryCompletion keeps_describe_pages)

lemma keeps_RunDDL: "keeps extends_history (RunDDL env client query out)"
  unfolding RunDDL_def start_query_def by (intro athena_keeps keeps_wait_interval)

lemma keeps_load_config: "keeps extends_history (load_config env region)"
  unfolding load_config_def by (auto split: option.split intro: athena_keeps)

lemma keeps_in_region:
  "keeps extends_history (GetTableColumnNamesInRegion env region database table out)"
  "keeps extends_history (RunDDLInRegion env query region out)"
  unfolding GetTableColumnNamesInRegion_def RunDDLInRegion_def
  by (intro athena_keeps keeps_load_config keeps_GetTableColumnNames keeps_RunDDL)+

section \<open>What a success means\<close>

text \<open>
  A statement ran: a query with this text was started and its execution was reported as succeeded.
  A column was shown: a page of the results of a DESCRIBE of the table names it.
\<close>

definition statement_ran :: "athena_event list \<Rightarrow> string \<Rightarrow> bool" where
  "statement_ran h q \<longleftrightarrow>
     (\<exists>client db out executionID. StartQueryExecution client q db out (Inr executionID) \<in> set h
        \<and> GetQueryExecution client executionID (Inr Succeeded) \<in> set h)"

definition shown :: "athena_event list \<Rightarrow> string \<Rightarrow> string \<Rightarrow> string \<Rightarrow> bool" where
  "shown h database table name \<longleftrightarrow>
     (\<exists>q client out executionID token rows next.
        buildDescribeQuery database table = Inr q
        \<and> StartQueryExecution client q (Some database) out (Inr executionID) \<in> set h
        \<and> GetQueryResults client executionID token (Inr (rows, next)) \<in> set h
        \<and> name \<in> set (parseDescribeResultRows rows (token = None)))"

lemma statement_ran_mono: "statement_ran h q \<Longrightarrow> set h \<subseteq> set h' \<Longrightarrow> statement_ran h' q"
  unfolding statement_ran_def by blast

lemma shown_mono: "shown h d t n \<Longrightarrow> set h \<subseteq> set h' \<Longrightarrow> shown h' d t n"
  unfolding shown_def by blast

lemma extends_history_subset: "extends_history w w' \<Longrightarrow> set (cw_athena w) \<subseteq> set (cw_athena w')"
  by (auto simp: extends_history_def)

lemma keepsD: "keeps R m \<Longrightarrow> m w = (r, w') \<Longrightarrow> R w w'"
  unfolding keeps_def by (metis snd_conv)

lemma log_event_Inr:
  "log_event answer event w = (Ok (Inr x), w') \<Longrightarrow> event (Inr x) \<in> set (cw_athena w')"
  by (auto simp: log_event_def Let_def split: sum.splits)

lemma wait_interval_succeeded:
  "waitForQueryCompletionWithInterval fuel env client i w = (Ok (Inr ()), w') \<Longrightarrow>
   GetQueryExecution client i (Inr Succeeded) \<in> set (cw_athena w')"
proof (induction fuel arbitrary: w)
  case (Suc fuel)
  from Suc.prems [unfolded waitForQueryCompletionWithInterval.simps(2)]
  obtain state w1 where q: "cat_map_error (wrap_error ''failed to get query status: '') (query_status env client i) w
      = (Ok (Inr state), w1)"
    and next_: "(case state of
          Succeeded \<Rightarrow> cat_ok ()
        | QueryFailed reason \<Rightarrow> cat_fail (plain_error (''query failed: '' @ failure_reason reason))
        | Cancelled \<Rightarrow> cat_fail (plain_error ''query was cancelled'')
        | UnknownState \<Rightarrow> waitForQueryCompletionWithInterval fuel env client i
        | _ \<Rightarrow> (\<lambda>w. case ae_done env (cw_athena w) of
                      Some e \<Rightarrow> cat_fail (plain_error e) w
                    | None \<Rightarrow> waitForQueryCompletionWithInterval fuel env client i w)) w1 = (Ok (Inr ()), w')"
    by (rule bind_cat_OkE)
  have "GetQueryExecution client i (Inr state) \<in> set (cw_athena w1)"
    using q unfolding query_status_def cat_map_error_Inr by (rule log_event_Inr)
  with next_ Suc.IH show ?case by (auto split: query_state.splits option.splits)
qed simp

lemma RunDDL_ran:
  assumes "RunDDL env client q out w = (Ok (Inr ()), w')"
  shows "statement_ran (cw_athena w') q"
proof -
  from assms obtain i w1 where start: "start_query env client q None out w = (Ok (Inr i), w1)"
    and wait: "waitForQueryCompletionWithInterval (ae_fuel env) env client i w1 = (Ok (Inr ()), w')"
    by (auto simp: RunDDL_def cat_map_error_Inr elim!: bind_cat_OkE)
  have "StartQueryExecution client q None out (Inr i) \<in> set (cw_athena w1)"
    using start unfolding start_query_def by (rule log_event_Inr)
  moreover note extends_history_subset [OF keepsD [OF keeps_wait_interval wait]]
  ultimately show ?thesis
    using wait_interval_succeeded [OF wait] unfolding statement_ran_def by blast
qed

lemma describe_pages_shown:
  assumes "describe_pages fuel env client i token (token = None) cols w = (Ok (Inr result), w')"
    and "name \<in> set result" and "name \<notin> set cols"
  shows "\<exists>tok rows next. GetQueryResults client i tok (Inr (rows, next)) \<in> set (cw_athena w')
     \<and> name \<in> set (parseDescribeResultRows rows (tok = None))"
  using assms
proof (induction fuel arbitrary: token cols w)
  case (Suc fuel)
  from Suc.prems(1) obtain rows nxt w1 where q: "query_results env client i token w = (Ok (Inr (rows, nxt)), w1)"
    and next_: "(case nxt of
        None \<Rightarrow> cat_ok (mergeDescribeColumns cols (parseDescribeResultRows rows (token = None)))
      | Some _ \<Rightarrow> describe_pages fuel env client i nxt False
          (mergeDescribeColumns cols (parseDescribeResultRows rows (token = None)))) w1 = (Ok (Inr result), w')"
    by (auto simp: cat_map_error_Inr Let_def elim!: bind_cat_OkE)
  have ev: "GetQueryResults client i token (Inr (rows, nxt)) \<in> set (cw_athena w1)"
    using q unfolding query_results_def by (rule log_event_Inr)
  show ?case
  proof (cases "name \<in> set (parseDescribeResultRows rows (token = None))")
    case True
    have "set (cw_athena w1) \<subseteq> set (cw_athena w')"
    proof (cases nxt)
      case (Some t)
      then show ?thesis using extends_history_subset keepsD [OF keeps_describe_pages] next_ by fastforce
    qed (use next_ in simp)
    with ev True show ?thesis by blast
  next
    case False
    show ?thesis
    proof (cases nxt)
      case None
      with next_ False Suc.prems show ?thesis by (auto simp: mergeDescribeColumns_def)
    next
      case (Some t)
      then have "describe_pages fuel env client i nxt (nxt = None)
          (mergeDescribeColumns cols (parseDescribeResultRows rows (token = None))) w1 = (Ok (Inr result), w')"
        using next_ by simp
      from Suc.IH [OF this] Suc.prems False show ?thesis by (auto simp: mergeDescribeColumns_def)
    qed
  qed
qed simp

lemma GetTableColumnNames_shown:
  assumes "GetTableColumnNames env client database table out w = (Ok (Inr cols), w')" and "name \<in> set cols"
  shows "shown (cw_athena w') database table name"
proof -
  from assms(1) obtain q i w1 w2 where q: "buildDescribeQuery database table = Inr q"
    and start: "start_query env client q (Some database) out w = (Ok (Inr i), w1)"
    and wait: "waitForQueryCompletion env client i w1 = (Ok (Inr ()), w2)"
    and pages: "describe_pages (ae_fuel env) env client i None (None = (None :: string option)) [] w2 = (Ok (Inr cols), w')"
    by (auto simp: GetTableColumnNames_def cat_map_error_Inr elim!: bind_cat_OkE)
  have "StartQueryExecution client q (Some database) out (Inr i) \<in> set (cw_athena w1)"
    using start unfolding start_query_def by (rule log_event_Inr)
  moreover note extends_history_subset [OF keepsD [OF keeps_waitForQueryCompletion wait]]
    extends_history_subset [OF keepsD [OF keeps_describe_pages pages]]
  ultimately have "StartQueryExecution client q (Some database) out (Inr i) \<in> set (cw_athena w')" by blast
  with describe_pages_shown [OF pages assms(2)] q show ?thesis unfolding shown_def by fastforce
qed

section \<open>The wait for a DESCRIBE ends\<close>

text \<open>
  \<open>time.Sleep\<close> lasts at least the poll interval, and the states of a query are the five documented ones.
\<close>

definition polls_apart :: "athena_env \<Rightarrow> bool" where
  "polls_apart env \<longleftrightarrow>
     (\<forall>h client i s. s = Queued \<or> s = Running \<longrightarrow>
        ae_now env (h @ [GetQueryExecution client i (Inr s)]) \<ge> ae_now env h + pollInterval)
     \<and> (\<forall>h client i. ae_status env h client i \<noteq> Inr UnknownState)"

lemma query_status_run:
  "query_status env client i w =
     (Ok (case ae_status env (cw_athena w) client i of Inl e \<Rightarrow> Inl (plain_error e) | Inr s \<Rightarrow> Inr s),
      w\<lparr>cw_athena := cw_athena w @ [GetQueryExecution client i (ae_status env (cw_athena w) client i)]\<rparr>)"
  by (simp add: query_status_def log_event_def Let_def)

lemma wait_until_returns:
  assumes "polls_apart env" and "deadline \<le> ae_now env (cw_athena w) + int n * pollInterval" and "n < fuel"
  shows "fst (wait_until fuel env client i deadline w) \<noteq> OutOfFuel"
  using assms(2,3)
proof (induction fuel arbitrary: n w)
  case (Suc fuel)
  let ?s = "ae_status env (cw_athena w) client i"
  let ?w = "w\<lparr>cw_athena := cw_athena w @ [GetQueryExecution client i ?s]\<rparr>"
  show ?case
  proof (cases "ae_now env (cw_athena w) < deadline")
    case True
    with Suc.prems obtain m where n: "n = Suc m" by (cases n) auto
    have again: "fst (wait_until fuel env client i deadline ?w) \<noteq> OutOfFuel" if s: "?s = Inr Queued \<or> ?s = Inr Running"
    proof (rule Suc.IH)
      have "ae_now env (cw_athena w) + pollInterval \<le> ae_now env (cw_athena ?w)"
        using assms(1) s by (auto simp: polls_apart_def)
      moreover have "deadline \<le> (ae_now env (cw_athena w) + pollInterval) + int m * pollInterval"
        using Suc.prems(1) n by (simp add: algebra_simps)
      ultimately show "deadline \<le> ae_now env (cw_athena ?w) + int m * pollInterval" by linarith
    qed (use Suc.prems(2) n in simp)
    have "?s \<noteq> Inr UnknownState" using assms(1) by (simp add: polls_apart_def)
    with again True show ?thesis
      by (auto simp: bind_cat_def bind_eff_def query_status_run split: sum.split query_state.split)
  qed simp
qed simp

lemma waitForQueryCompletion_returns:
  "polls_apart env \<Longrightarrow> 151 \<le> ae_fuel env \<Longrightarrow> fst (waitForQueryCompletion env client i w) \<noteq> OutOfFuel"
  unfolding waitForQueryCompletion_def
  by (rule wait_until_returns [where n = 150]) (simp_all add: maxWaitTime_def pollInterval_def)

end
