(* ===== verification/Catalog_Sync.thy ===== *)
theory Catalog_Sync
  imports Catalog_Athena Job_Result
begin

text \<open>
  The two jobs that bring the search tables in Athena in line with the data catalog:
  \<open>internal/data_catalog/databahnstorage/sync.go\<close> and \<open>internal/data_catalog/s3parquet/sync.go\<close>, with the
  database parts of \<open>catalog/validate/clean.go\<close>, \<open>catalog/apply/columns.go\<close> and \<open>catalog/apply/preflight.go\<close>.

  The state holds the rows of \<^verbatim>\<open>data_catalog\<close> and the history of the Athena calls.  Every database operation
  is counted; \<open>ce_fault\<close> says which updates and catalog queries fail, and a failing one changes no row.  The
  tables that the jobs only read, the decoding of the JSON documents in them and the AWS configuration
  are functions of the environment; a query that finds no row gives the empty string.
\<close>

section \<open>Environment and database operations\<close>

datatype config_value = ConfString string | ConfOther string

record destinationRow =
  DestTenantID :: string
  DestConfiguration :: string

record destinationConfigWrapper =
  SecretID :: string
  Configuration :: "(string \<times> config_value) list"

record catalog_env =
  ce_athena :: athena_env
  ce_fault :: "nat \<Rightarrow> go_error option"
  ce_order :: "(string \<times> Field list) list \<Rightarrow> (string \<times> Field list) list"
  ce_store :: "nat \<Rightarrow> string \<Rightarrow> string \<Rightarrow> go_error + string"
  ce_data_set :: "nat \<Rightarrow> string \<Rightarrow> string \<Rightarrow> go_error + string"
  ce_search_config :: "string \<Rightarrow> go_error + SearchConfig"
  ce_destination :: "nat \<Rightarrow> string \<Rightarrow> string \<Rightarrow> go_error + destinationRow"
  ce_wrapper :: "string \<Rightarrow> go_error + destinationConfigWrapper"
  ce_backend_secret :: "nat \<Rightarrow> string \<Rightarrow> go_error + string"
  ce_read_secret :: "nat \<Rightarrow> string \<Rightarrow> string \<Rightarrow> go_error + string option"
  ce_secret_map :: "string \<Rightarrow> go_error + (string \<times> string) list"
  ce_app_region :: string
  ce_base_config :: "string \<Rightarrow> go_error option"

definition lift_error :: "go_error + 'a \<Rightarrow> cat_error + 'a" where
  "lift_error r = (case r of Inl e \<Rightarrow> Inl (plain_error e) | Inr x \<Rightarrow> Inr x)"

definition count_operation :: "catalog_world \<Rightarrow> catalog_world" where
  "count_operation w = w\<lparr>cw_operations := Suc (cw_operations w)\<rparr>"

definition read_op :: "(nat \<Rightarrow> go_error + 'a) \<Rightarrow> 'a cat" where
  "read_op f w = (Ok (lift_error (f (cw_operations w))), count_operation w)"

definition catalog_query :: "catalog_env \<Rightarrow> (catalog_row list \<Rightarrow> 'a) \<Rightarrow> 'a cat" where
  "catalog_query env f w =
     (Ok (case ce_fault env (cw_operations w) of Some e \<Rightarrow> Inl (plain_error e) | None \<Rightarrow> Inr (f (cw_rows w))),
      count_operation w)"

definition catalog_update :: "catalog_env \<Rightarrow> (catalog_row list \<Rightarrow> catalog_row list) \<Rightarrow> unit cat" where
  "catalog_update env f w =
     (case ce_fault env (cw_operations w) of
        Some e \<Rightarrow> (Ok (Inl (plain_error e)), count_operation w)
      | None \<Rightarrow> (Ok (Inr ()), (count_operation w)\<lparr>cw_rows := f (cw_rows w)\<rparr>))"

definition defaultPluckAppliedNames ::
  "catalog_env \<Rightarrow> string \<Rightarrow> string \<Rightarrow> string \<Rightarrow> string \<Rightarrow> string list \<Rightarrow> string list cat" where
  "defaultPluckAppliedNames env destID sourceID tenantID dispenserType incomingLower =
     catalog_query env (\<lambda>rows. map (\<lambda>r. Name (row_field r))
       (filter (\<lambda>r. row_applied r \<and> DestID (row_field r) = destID \<and> SourceID (row_field r) = sourceID
          \<and> TenantID (row_field r) = tenantID \<and> row_dispenser r = dispenserType
          \<and> go_to_lower (Name (row_field r)) \<in> set incomingLower) rows))"

definition defaultDeleteInvalidRows :: "catalog_env \<Rightarrow> int list \<Rightarrow> unit cat" where
  "defaultDeleteInvalidRows env invalidIDs =
     catalog_update env (filter (\<lambda>r. ID (row_field r) \<notin> set invalidIDs))"

definition searchEngineAthena :: string where "searchEngineAthena = ''ATHENA''"

definition defaultUpdateCatalogAppliedRows :: "catalog_env \<Rightarrow> int list \<Rightarrow> unit cat" where
  "defaultUpdateCatalogAppliedRows env ids =
     catalog_update env (map (\<lambda>r. if ID (row_field r) \<in> set ids
       then r\<lparr>row_applied := True, row_engine := searchEngineAthena\<rparr> else r))"

definition defaultMarkCatalogApplied :: "catalog_env \<Rightarrow> int list \<Rightarrow> string \<Rightarrow> unit cat" where
  "defaultMarkCatalogApplied env ids phase =
     cat_map_error (wrap_error (''failed to update applied_on_search ('' @ phase @ ''): ''))
       (defaultUpdateCatalogAppliedRows env ids)"

definition MarkApplied :: "catalog_env \<Rightarrow> int list \<Rightarrow> string \<Rightarrow> unit cat" where
  "MarkApplied env ids phase = (if ids = [] then cat_ok () else defaultMarkCatalogApplied env ids phase)"

section \<open>Validation of a group\<close>

definition CleanFields ::
  "catalog_env \<Rightarrow> string \<Rightarrow> string \<Rightarrow> string \<Rightarrow> string \<Rightarrow> Field list \<Rightarrow> Field list cat" where
  "CleanFields env destID sourceID tenantID dispenserType flds =
     bind_cat (cat_map_error (wrap_error (''failed to load applied catalog fields for '' @ destID @ ''/'' @ sourceID @ '': ''))
                 (defaultPluckAppliedNames env destID sourceID tenantID dispenserType (lowerFieldNames flds)))
       (\<lambda>existingApplied.
          case PartitionCatalogFields flds existingApplied of (valid, invalid) \<Rightarrow>
            bind_cat
              (if invalid \<noteq> []
               then cat_map_error (wrap_error ''failed to delete invalid catalog fields: '')
                      (defaultDeleteInvalidRows env (map (\<lambda>inv. ID (InvField inv)) invalid))
               else cat_ok ())
              (\<lambda>_. cat_ok valid))"

section \<open>Applying the fields to a table\<close>

record SchemaOps =
  ops_Describe :: "string list cat"
  ops_RunDDL :: "string \<Rightarrow> unit cat"

record PreflightParams =
  pfValid :: "Field list"
  pfDatabase :: string
  pfTableName :: string

definition describe_failure :: "string \<Rightarrow> string \<Rightarrow> cat_error \<Rightarrow> cat_error" where
  "describe_failure database tableName e =
     (if athena_IsTableNotFound e then NewTableNotFoundError (ErrMsg e)
      else wrap_error (''failed to DESCRIBE '' @ database @ ''.'' @ tableName @ '': '') e)"

definition WithPreflight :: "catalog_env \<Rightarrow> PreflightParams \<Rightarrow> SchemaOps \<Rightarrow> unit cat" where
  "WithPreflight env p ops =
     bind_cat (cat_map_error (describe_failure (pfDatabase p) (pfTableName p)) (ops_Describe ops)) (\<lambda>existingCols.
       case PartitionByPresence (pfValid p) existingCols of (alreadyPresent, missing) \<Rightarrow>
         bind_cat (if alreadyPresent \<noteq> [] then MarkApplied env (FieldIDs alreadyPresent) ''already_present'' else cat_ok ()) (\<lambda>_.
           if missing = [] then cat_ok ()
           else
             bind_cat (cat_result (BuildAddColumnsDDL (pfDatabase p) (pfTableName p) missing)) (\<lambda>query.
             bind_cat (cat_map_error
                         (wrap_error (''ALTER TABLE failed for '' @ pfDatabase p @ ''.'' @ pfTableName p @ '': ''))
                         (ops_RunDDL ops query)) (\<lambda>_.
               MarkApplied env (FieldIDs missing) ''after_ddl''))))"

definition PlatformOps :: "catalog_env \<Rightarrow> string \<Rightarrow> string \<Rightarrow> string \<Rightarrow> string \<Rightarrow> SchemaOps" where
  "PlatformOps env region database tableName outputLocation =
     \<lparr>ops_Describe = GetTableColumnNamesInRegion (ce_athena env) region database tableName outputLocation,
      ops_RunDDL = (\<lambda>query. RunDDLInRegion (ce_athena env) query region outputLocation)\<rparr>"

definition CustomerOps :: "catalog_env \<Rightarrow> athena_client \<Rightarrow> string \<Rightarrow> string \<Rightarrow> string \<Rightarrow> SchemaOps" where
  "CustomerOps env client database tableName outputLocation =
     \<lparr>ops_Describe = GetTableColumnNames (ce_athena env) client database tableName outputLocation,
      ops_RunDDL = (\<lambda>query. RunDDL (ce_athena env) client query outputLocation)\<rparr>"

section \<open>Targets of the storage job\<close>

record databahnStorageTarget =
  dsTableName :: string
  dsRegion :: string
  dsOutputLocation :: string

definition parseDatabahnStorageSearchConfig ::
  "catalog_env \<Rightarrow> string \<Rightarrow> string \<Rightarrow> string \<Rightarrow> cat_error + databahnStorageTarget" where
  "parseDatabahnStorageSearchConfig env storeID sourceID searchConfigJSON =
     (let at = '' for store '' @ storeID @ '', source '' @ sourceID
      in case ce_search_config env searchConfigJSON of
           Inl e \<Rightarrow> Inl (plain_error (''failed to parse search_configuration: '' @ e))
         | Inr sc \<Rightarrow>
             if AthenaTable sc = '''' then Inl (NewTableNotFoundError (''athenaTable is empty in search_configuration'' @ at))
             else if DatabahnStorageRegion sc = ''''
             then Inl (plain_error (''databahnStorageRegion is empty in search_configuration'' @ at))
             else if BucketFromS3Location (S3Location sc) = ''''
             then Inl (plain_error (''could not extract bucket from s3Location'' @ at))
             else Inr \<lparr>dsTableName = AthenaTable sc, dsRegion = DatabahnStorageRegion sc,
                        dsOutputLocation = ''s3://'' @ BucketFromS3Location (S3Location sc) @ ''/athena-results/''\<rparr>)"

text \<open>The result of \<^verbatim>\<open>Scan\<close>: an error or the empty string means that there is no row; \<^verbatim>\<open>%v\<close> of no error is \<^verbatim>\<open><nil>\<close>.\<close>

definition missing_row :: "cat_error + string \<Rightarrow> (string \<Rightarrow> cat_error) \<Rightarrow> cat_error + string" where
  "missing_row r notFound =
     (case r of
        Inl e \<Rightarrow> Inl (notFound (ErrMsg e))
      | Inr s \<Rightarrow> if s = '''' then Inl (notFound ''<nil>'') else Inr s)"

definition required_row :: "(string \<Rightarrow> cat_error) \<Rightarrow> string cat \<Rightarrow> string cat" where
  "required_row notFound m = bind_eff m (\<lambda>r. eff_return (missing_row r notFound))"

definition defaultResolveDatabahnStorageTarget :: "catalog_env \<Rightarrow> string \<Rightarrow> string \<Rightarrow> databahnStorageTarget cat" where
  "defaultResolveDatabahnStorageTarget env destID sourceID =
     bind_cat (required_row (\<lambda>e. NewTableNotFoundError (''search_data_store not found for destination '' @ destID @ '': '' @ e))
                 (read_op (\<lambda>n. ce_store env n ''DATABAHN_STORAGE'' destID))) (\<lambda>storeID.
     bind_cat (required_row (\<lambda>e. NewTableNotFoundError
                    (''search_data_set not found for store '' @ storeID @ '', source '' @ sourceID @ '': '' @ e))
                 (read_op (\<lambda>n. ce_data_set env n storeID sourceID))) (\<lambda>searchConfigJSON.
       cat_result (parseDatabahnStorageSearchConfig env storeID sourceID searchConfigJSON)))"

section \<open>Targets of the parquet job\<close>

definition getString :: "destinationConfigWrapper \<Rightarrow> string \<Rightarrow> string" where
  "getString w key =
     (case map_of (Configuration w) key of
        None \<Rightarrow> ''''
      | Some (ConfString s) \<Rightarrow> s
      | Some (ConfOther s) \<Rightarrow> s)"

record parsedDestinationConfig =
  pdcConfig :: destinationConfig
  pdcSecretID :: string

definition parseDestinationWrapperConfiguration :: "catalog_env \<Rightarrow> string \<Rightarrow> cat_error + parsedDestinationConfig" where
  "parseDestinationWrapperConfiguration env configuration =
     (case ce_wrapper env configuration of
        Inl e \<Rightarrow> Inl (plain_error (''failed to parse destination configuration: '' @ e))
      | Inr w \<Rightarrow> Inr \<lparr>pdcConfig =
            \<lparr>AuthType = getString w ''auth_type'', AccessKeyID = getString w ''access_key_id'',
             SecretKey = getString w ''secret_access_key'', RoleArn = getString w ''role_arn'',
             ExternalID = getString w ''external_id'', Region = getString w ''region'', Bucket = getString w ''bucket''\<rparr>,
          pdcSecretID = SecretID w\<rparr>)"

definition put_secret :: "string \<times> string \<Rightarrow> destinationConfig \<Rightarrow> destinationConfig" where
  "put_secret kv cfg =
     (if fst kv = ''access_key_id'' then cfg\<lparr>AccessKeyID := snd kv\<rparr>
      else if fst kv = ''secret_access_key'' then cfg\<lparr>SecretKey := snd kv\<rparr>
      else if fst kv = ''role_arn'' then cfg\<lparr>RoleArn := snd kv\<rparr>
      else if fst kv = ''external_id'' then cfg\<lparr>ExternalID := snd kv\<rparr>
      else cfg)"

definition add_secret :: "catalog_env \<Rightarrow> string \<Rightarrow> destinationRow \<Rightarrow> parsedDestinationConfig \<Rightarrow> destinationConfig cat" where
  "add_secret env destID dest cfg =
     (let at = ''(destination='' @ destID @ '', tenant='' @ DestTenantID dest
      in bind_cat (required_row (\<lambda>_. plain_error
             (''failed to look up backend_secret_id: secret reference not found or inaccessible '' @ at
               @ '', bucket='' @ Bucket (pdcConfig cfg) @ '')''))
             (read_op (\<lambda>n. ce_backend_secret env n (pdcSecretID cfg)))) (\<lambda>backendSecretID.
         bind_cat (cat_map_error (\<lambda>_. plain_error (''failed to read secret from AWS Secrets Manager '' @ at @ '')''))
             (read_op (\<lambda>n. ce_read_secret env n backendSecretID (ce_app_region env)))) (\<lambda>secretString.
           case secretString of
             None \<Rightarrow> cat_ok (pdcConfig cfg)
           | Some s \<Rightarrow>
               (case ce_secret_map env s of
                  Inl _ \<Rightarrow> cat_fail (plain_error (''failed to parse secret value: malformed JSON '' @ at @ '')''))
                | Inr secretMap \<Rightarrow> cat_ok (fold put_secret secretMap (pdcConfig cfg))))))"

definition getDestinationConfig :: "catalog_env \<Rightarrow> string \<Rightarrow> string \<Rightarrow> destinationConfig cat" where
  "getDestinationConfig env destID tenantID =
     bind_cat (cat_map_error (wrap_error ''destination not found: '') (read_op (\<lambda>n. ce_destination env n destID tenantID))) (\<lambda>dest.
       if DestConfiguration dest = '''' then cat_fail (plain_error (''destination configuration is empty for '' @ destID))
       else bind_cat (cat_result (parseDestinationWrapperConfiguration env (DestConfiguration dest))) (\<lambda>cfg.
         if pdcSecretID cfg \<noteq> '''' then add_secret env destID dest cfg else cat_ok (pdcConfig cfg)))"

record s3ParquetTarget =
  s3TableName :: string
  s3OutputLocation :: string
  s3DestConfig :: destinationConfig

definition parseS3ParquetTableName :: "catalog_env \<Rightarrow> string \<Rightarrow> string \<Rightarrow> string \<Rightarrow> cat_error + string" where
  "parseS3ParquetTableName env storeID sourceID searchConfigJSON =
     (case ce_search_config env searchConfigJSON of
        Inl e \<Rightarrow> Inl (plain_error (''failed to parse search_configuration: '' @ e))
      | Inr sc \<Rightarrow>
          if AthenaTable sc = ''''
          then Inl (NewTableNotFoundError (''athenaTable is empty for s3 parquet store '' @ storeID @ '', source '' @ sourceID))
          else Inr (AthenaTable sc))"

definition defaultResolveS3ParquetTarget :: "catalog_env \<Rightarrow> string \<Rightarrow> string \<Rightarrow> string \<Rightarrow> s3ParquetTarget cat" where
  "defaultResolveS3ParquetTarget env destID sourceID tenantID =
     bind_cat (required_row (\<lambda>_. NewTableNotFoundError (''search_data_store not found for s3 parquet destination '' @ destID))
                 (read_op (\<lambda>n. ce_store env n ''DATABAHN_DESTINATION'' destID))) (\<lambda>storeID.
     bind_cat (required_row (\<lambda>_. NewTableNotFoundError
                    (''search_data_set not found for s3 parquet store '' @ storeID @ '', source '' @ sourceID))
                 (read_op (\<lambda>n. ce_data_set env n storeID sourceID))) (\<lambda>searchConfigJSON.
     bind_cat (cat_result (parseS3ParquetTableName env storeID sourceID searchConfigJSON)) (\<lambda>tableName.
     bind_cat (cat_map_error (wrap_error (''failed to get destination config for '' @ destID @ '': ''))
                 (getDestinationConfig env destID tenantID)) (\<lambda>destConfig.
       if Region destConfig = '''' then cat_fail (plain_error (''region is empty in destination config for '' @ destID))
       else cat_ok \<lparr>s3TableName = tableName, s3OutputLocation = ''s3://'' @ Bucket destConfig @ ''/.databahn_out/'',
                     s3DestConfig = destConfig\<rparr>))))"

text \<open>The credentials are used by the SDK when the client calls Athena; creating it can only fail in the base configuration.\<close>

definition createCustomerAthenaClient :: "catalog_env \<Rightarrow> destinationConfig \<Rightarrow> athena_client cat" where
  "createCustomerAthenaClient env cfg =
     (if AuthType cfg = ''role_based'' then
        (case ce_base_config env (Region cfg) of
           Some e \<Rightarrow> cat_fail (plain_error (''failed to load base AWS config: '' @ e))
         | None \<Rightarrow> cat_ok (CustomerClient cfg))
      else cat_ok (CustomerClient cfg))"

section \<open>The jobs\<close>

definition storage_processGroup ::
  "catalog_env \<Rightarrow> SchemaOps option \<Rightarrow> string \<Rightarrow> string \<Rightarrow> string \<Rightarrow> Field list \<Rightarrow> unit cat" where
  "storage_processGroup env ops destID sourceID tenantID flds =
     bind_cat (defaultResolveDatabahnStorageTarget env destID sourceID) (\<lambda>target.
     bind_cat (CleanFields env destID sourceID tenantID DispenserDatabahnStorage flds) (\<lambda>valid.
       if valid = [] then cat_ok ()
       else
         (let database = DatabaseName tenantID;
              schemaOps = (case ops of
                 None \<Rightarrow> PlatformOps env (dsRegion target) database (dsTableName target) (dsOutputLocation target)
               | Some o' \<Rightarrow> o')
          in WithPreflight env \<lparr>pfValid = valid, pfDatabase = database, pfTableName = dsTableName target\<rparr> schemaOps)))"

definition parquet_processGroup ::
  "catalog_env \<Rightarrow> SchemaOps option \<Rightarrow> string \<Rightarrow> string \<Rightarrow> string \<Rightarrow> Field list \<Rightarrow> unit cat" where
  "parquet_processGroup env ops destID sourceID tenantID flds =
     bind_cat (defaultResolveS3ParquetTarget env destID sourceID tenantID) (\<lambda>target.
     bind_cat (CleanFields env destID sourceID tenantID DispenserS3Parquet flds) (\<lambda>valid.
       if valid = [] then cat_ok ()
       else
         (let database = DatabaseName tenantID
          in bind_cat
               (case ops of
                  None \<Rightarrow>
                    bind_cat (cat_map_error (wrap_error (''failed to create customer Athena client for '' @ destID @ '': ''))
                                (createCustomerAthenaClient env (s3DestConfig target))) (\<lambda>client.
                      cat_ok (CustomerOps env client database (s3TableName target) (s3OutputLocation target)))
                | Some o' \<Rightarrow> cat_ok o')
               (\<lambda>schemaOps.
                  WithPreflight env \<lparr>pfValid = valid, pfDatabase = database, pfTableName = s3TableName target\<rparr> schemaOps))))"

definition unapplied_fields :: "string \<Rightarrow> catalog_row list \<Rightarrow> Field list" where
  "unapplied_fields dispenser rows =
     map row_field (filter (\<lambda>r. \<not> row_applied r \<and> row_dispenser r = dispenser) rows)"

definition defaultQueryUnappliedFields :: "catalog_env \<Rightarrow> Field list cat" where
  "defaultQueryUnappliedFields env = catalog_query env (unapplied_fields DispenserDatabahnStorage)"

definition defaultQueryUnappliedS3ParquetFields :: "catalog_env \<Rightarrow> Field list cat" where
  "defaultQueryUnappliedS3ParquetFields env = catalog_query env (unapplied_fields DispenserS3Parquet)"

definition field_group :: "Field \<Rightarrow> string" where
  "field_group f = GroupKey (DestID f) (SourceID f) (TenantID f)"

definition group_fields :: "Field list \<Rightarrow> (string \<times> Field list) list" where
  "group_fields flds = fold (\<lambda>f. group_append (field_group f) f) flds []"

text \<open>A group whose table is not found is skipped; the error of any other is collected.\<close>

fun sync_groups ::
  "(string \<Rightarrow> string \<Rightarrow> string \<Rightarrow> Field list \<Rightarrow> unit cat) \<Rightarrow> (string \<times> Field list) list \<Rightarrow> JobError list
     \<Rightarrow> (catalog_world, JobError list) eff" where
  "sync_groups process [] jobErrors = eff_return jobErrors"
| "sync_groups process ((key, grp) # groups) jobErrors =
     (let first = hd grp
      in bind_eff (process (DestID first) (SourceID first) (TenantID first) grp) (\<lambda>r.
           sync_groups process groups
             (case r of
                Inr _ \<Rightarrow> jobErrors
              | Inl e \<Rightarrow> if IsTableNotFound e then jobErrors else jobErrors @ [\<lparr>Message = ErrMsg e\<rparr>])))"

definition finish_job :: "JobError list \<Rightarrow> JobResult" where
  "finish_job jobErrors = (if jobErrors \<noteq> [] then NewJobResultFromErrors jobErrors else NewJobResultSuccess)"

definition ApplyDataCatalogToAthena :: "catalog_env \<Rightarrow> (catalog_world, JobResult) eff" where
  "ApplyDataCatalogToAthena env =
     bind_eff (defaultQueryUnappliedFields env) (\<lambda>r. case r of
       Inl e \<Rightarrow> eff_return (NewJobResultFromError (Some (''failed to query data_catalog: '' @ ErrMsg e)))
     | Inr flds \<Rightarrow>
         if flds = [] then eff_return NewJobResultSuccess
         else bind_eff (sync_groups (storage_processGroup env None) (ce_order env (group_fields flds)) [])
                (\<lambda>jobErrors. eff_return (finish_job jobErrors)))"

definition ApplyS3ParquetCatalogToAthena :: "catalog_env \<Rightarrow> (catalog_world, JobResult) eff" where
  "ApplyS3ParquetCatalogToAthena env =
     bind_eff (defaultQueryUnappliedS3ParquetFields env) (\<lambda>r. case r of
       Inl e \<Rightarrow> eff_return (NewJobResultFromError (Some (''failed to query data_catalog for s3parquet: '' @ ErrMsg e)))
     | Inr flds \<Rightarrow>
         if flds = [] then eff_return NewJobResultSuccess
         else bind_eff (sync_groups (parquet_processGroup env None) (ce_order env (group_fields flds)) [])
                (\<lambda>jobErrors. eff_return (finish_job jobErrors)))"

end
