(* ===== verification/Catalog_Safety.thy ===== *)
theory Catalog_Safety
  imports Catalog_Sync
begin

text \<open>
  What the catalog jobs do to the table \<^verbatim>\<open>data_catalog\<close>, in every run: rows outside the unapplied rows of the
  job's dispenser are untouched, and a row becomes applied only when the history of the Athena calls shows
  its column.  A group that succeeds leaves no row unapplied and has a column for every usable name.

  Two interfaces carry the proofs: \<open>schema_ops\<close> is what \<open>WithPreflight\<close> relies on, provided by the platform and
  the customer operations; \<open>group_sync\<close> is what the loop over the groups relies on, provided by the two
  \<open>processGroup\<close> functions.
\<close>

section \<open>How a run may change the rows\<close>

definition justified :: "athena_event list \<Rightarrow> Field \<Rightarrow> bool" where
  "justified h f \<longleftrightarrow>
     (\<exists>table. shown h (DatabaseName (TenantID f)) table (lower_name f)
        \<or> (\<exists>fs q. BuildAddColumnsDDL (DatabaseName (TenantID f)) table fs = Inr q \<and> f \<in> set fs \<and> statement_ran h q))"

abbreviation row_id :: "catalog_row \<Rightarrow> int" where
  "row_id r \<equiv> ID (row_field r)"

definition synced :: "int set \<Rightarrow> catalog_world \<Rightarrow> catalog_world \<Rightarrow> bool" where
  "synced I w w' \<longleftrightarrow>
     filter (\<lambda>r. row_id r \<notin> I) (cw_rows w') = filter (\<lambda>r. row_id r \<notin> I) (cw_rows w)
     \<and> (\<forall>r'\<in>set (cw_rows w'). \<exists>r\<in>set (cw_rows w). row_field r' = row_field r \<and> row_dispenser r' = row_dispenser r
          \<and> (r' = r \<or> row_applied r' \<and> row_engine r' = searchEngineAthena \<and> justified (cw_athena w') (row_field r')))
     \<and> set (cw_athena w) \<subseteq> set (cw_athena w')"

lemma justified_mono: "justified h f \<Longrightarrow> set h \<subseteq> set h' \<Longrightarrow> justified h' f"
  unfolding justified_def using statement_ran_mono shown_mono by metis

lemma justified_shown: "shown h (DatabaseName (TenantID f)) table (lower_name f) \<Longrightarrow> justified h f"
  unfolding justified_def by blast

lemma justified_ddl:
  "BuildAddColumnsDDL (DatabaseName (TenantID f)) table fs = Inr q \<Longrightarrow> f \<in> set fs \<Longrightarrow> statement_ran h q \<Longrightarrow> justified h f"
  unfolding justified_def by blast

lemma synced_refl [simp]: "synced I w w"
  unfolding synced_def by blast

lemma synced_trans:
  assumes "synced I w1 w2" and "synced I w2 w3"
  shows "synced I w1 w3"
proof -
  have h: "set (cw_athena w2) \<subseteq> set (cw_athena w3)" using assms(2) by (simp add: synced_def)
  have "\<exists>r\<in>set (cw_rows w1). row_field r3 = row_field r \<and> row_dispenser r3 = row_dispenser r
      \<and> (r3 = r \<or> row_applied r3 \<and> row_engine r3 = searchEngineAthena \<and> justified (cw_athena w3) (row_field r3))"
    if r3: "r3 \<in> set (cw_rows w3)" for r3
  proof -
    obtain r2 where r2: "r2 \<in> set (cw_rows w2)" "row_field r3 = row_field r2" "row_dispenser r3 = row_dispenser r2"
      "r3 = r2 \<or> row_applied r3 \<and> row_engine r3 = searchEngineAthena \<and> justified (cw_athena w3) (row_field r3)"
      using assms(2) r3 unfolding synced_def by blast
    obtain r1 where "r1 \<in> set (cw_rows w1)" "row_field r2 = row_field r1" "row_dispenser r2 = row_dispenser r1"
      "r2 = r1 \<or> row_applied r2 \<and> row_engine r2 = searchEngineAthena \<and> justified (cw_athena w2) (row_field r2)"
      using assms(1) r2(1) unfolding synced_def by blast
    then show ?thesis using r2 justified_mono [OF _ h] by metis
  qed
  then show ?thesis using assms h unfolding synced_def by auto
qed

lemma synced_mono: "synced I w w' \<Longrightarrow> I \<subseteq> J \<Longrightarrow> synced J w w'"
proof -
  assume s: "synced I w w'" and IJ: "I \<subseteq> J"
  have "filter (\<lambda>r. row_id r \<notin> J) rows = filter (\<lambda>r. row_id r \<notin> J) (filter (\<lambda>r. row_id r \<notin> I) rows)" for rows
    using IJ by (auto intro: filter_cong)
  then have "filter (\<lambda>r. row_id r \<notin> J) (cw_rows w') = filter (\<lambda>r. row_id r \<notin> J) (cw_rows w)"
    using s unfolding synced_def by metis
  with s show ?thesis unfolding synced_def by blast
qed

text \<open>The fields of a group are those of the rows with their ids.\<close>

definition fields_match :: "Field list \<Rightarrow> catalog_world \<Rightarrow> bool" where
  "fields_match flds w \<longleftrightarrow> (\<forall>f\<in>set flds. \<forall>r\<in>set (cw_rows w). row_id r = ID f \<longrightarrow> row_field r = f)"

lemma fields_match_synced: "fields_match flds w \<Longrightarrow> synced I w w' \<Longrightarrow> fields_match flds w'"
  unfolding fields_match_def synced_def by metis

section \<open>The database operations\<close>

lemma count_operation_sel [simp]:
  "cw_rows (count_operation w) = cw_rows w" "cw_athena (count_operation w) = cw_athena w"
  by (simp_all add: count_operation_def)

lemma synced_same: "cw_rows w' = cw_rows w \<Longrightarrow> set (cw_athena w) \<subseteq> set (cw_athena w') \<Longrightarrow> synced I w w'"
  unfolding synced_def by auto

lemma synced_extends: "extends_history w w' \<Longrightarrow> synced I w w'"
  using extends_history_subset by (intro synced_same) (auto simp: extends_history_def)

definition only_counts :: "catalog_world \<Rightarrow> catalog_world \<Rightarrow> bool" where
  "only_counts w w' \<longleftrightarrow> cw_rows w' = cw_rows w \<and> cw_athena w' = cw_athena w"

lemma only_counts_preorder: "preorder_rel only_counts"
  by (simp add: preorder_rel_def only_counts_def)

lemmas reading_keeps =
  keeps_bind_cat [OF only_counts_preorder] keeps_map_error [OF only_counts_preorder]
  keeps_cat_simple [OF only_counts_preorder] keeps_simple [OF only_counts_preorder] keeps_bind [OF only_counts_preorder]

lemma keeps_read_op: "keeps only_counts (read_op f)"
  by (simp add: keeps_def read_op_def only_counts_def)

lemma keeps_catalog_query: "keeps only_counts (catalog_query env f)"
  by (simp add: keeps_def catalog_query_def only_counts_def)

lemma keeps_required_row: "keeps only_counts m \<Longrightarrow> keeps only_counts (required_row g m)"
  unfolding required_row_def by (intro reading_keeps)

lemma keeps_add_secret: "keeps only_counts (add_secret env destID dest cfg)"
  unfolding add_secret_def Let_def
  by (intro reading_keeps keeps_required_row keeps_read_op)
     (auto split: option.split sum.split intro: reading_keeps)

lemma keeps_getDestinationConfig: "keeps only_counts (getDestinationConfig env destID tenantID)"
  unfolding getDestinationConfig_def
  by (intro reading_keeps keeps_read_op keeps_add_secret keeps_if)

lemma keeps_resolve_storage: "keeps only_counts (defaultResolveDatabahnStorageTarget env destID sourceID)"
  unfolding defaultResolveDatabahnStorageTarget_def
  by (intro reading_keeps keeps_required_row keeps_read_op)

lemma keeps_resolve_parquet: "keeps only_counts (defaultResolveS3ParquetTarget env destID sourceID tenantID)"
  unfolding defaultResolveS3ParquetTarget_def
  by (intro reading_keeps keeps_required_row keeps_read_op keeps_getDestinationConfig keeps_if)

lemma keeps_create_client: "keeps only_counts (createCustomerAthenaClient env cfg)"
  unfolding createCustomerAthenaClient_def by (auto split: option.split intro: reading_keeps)

lemma only_counts_synced: "only_counts w w' \<Longrightarrow> synced I w w'"
  by (intro synced_same) (auto simp: only_counts_def)

lemma catalog_update_cases:
  assumes "catalog_update env f w = (r, w')"
  shows "(\<exists>e. r = Ok (Inl e)) \<and> cw_rows w' = cw_rows w \<and> cw_athena w' = cw_athena w
       \<or> r = Ok (Inr ()) \<and> cw_rows w' = f (cw_rows w) \<and> cw_athena w' = cw_athena w"
  using assms by (auto simp: catalog_update_def split: option.splits)

text \<open>Deleting rows by id.\<close>

lemma delete_synced:
  assumes "defaultDeleteInvalidRows env ids w = (r, w')" and "set ids \<subseteq> I"
  shows "synced I w w'"
  using catalog_update_cases [OF assms(1) [unfolded defaultDeleteInvalidRows_def]]
proof (elim disjE conjE)
  assume rows: "cw_rows w' = filter (\<lambda>r. row_id r \<notin> set ids) (cw_rows w)" and h: "cw_athena w' = cw_athena w"
  have "filter (\<lambda>r. row_id r \<notin> I) (filter (\<lambda>r. row_id r \<notin> set ids) (cw_rows w)) = filter (\<lambda>r. row_id r \<notin> I) (cw_rows w)"
    using assms(2) by (auto intro: filter_cong)
  then show ?thesis unfolding synced_def rows h by auto
qed (auto intro: synced_same)

text \<open>Marking the rows of some fields whose columns are justified.\<close>

lemma filter_map_outside:
  "(\<And>r. g r \<noteq> r \<Longrightarrow> row_id r \<in> I) \<Longrightarrow> (\<And>r. row_id (g r) = row_id r) \<Longrightarrow>
   filter (\<lambda>r. row_id r \<notin> I) (map g rows) = filter (\<lambda>r. row_id r \<notin> I) rows"
  by (induction rows) auto

lemma mark_synced:
  assumes "MarkApplied env (FieldIDs fs) phase w = (r, w')"
    and "fields_match fs w" and "ID ` set fs \<subseteq> I" and "\<forall>f\<in>set fs. justified (cw_athena w) f"
  shows "synced I w w' \<and> (r = Ok (Inr ()) \<longrightarrow>
     cw_rows w' = map (\<lambda>r. if row_id r \<in> ID ` set fs then r\<lparr>row_applied := True, row_engine := searchEngineAthena\<rparr> else r) (cw_rows w))"
proof (cases fs)
  case Nil
  with assms(1) show ?thesis by (simp add: MarkApplied_def FieldIDs_def)
next
  case (Cons f0 fs0)
  let ?g = "\<lambda>r. if row_id r \<in> ID ` set fs then r\<lparr>row_applied := True, row_engine := searchEngineAthena\<rparr> else r"
  from assms(1) Cons have "defaultMarkCatalogApplied env (FieldIDs fs) phase w = (r, w')"
    by (simp add: MarkApplied_def FieldIDs_def)
  then obtain r1 where upd: "defaultUpdateCatalogAppliedRows env (FieldIDs fs) w = (r1, w')"
    and r: "r = Ok (Inr ()) \<longleftrightarrow> r1 = Ok (Inr ())"
    unfolding defaultMarkCatalogApplied_def by (rule cat_map_error_outcome) blast
  have ids: "set (FieldIDs fs) = ID ` set fs" by (simp add: FieldIDs_def)
  show ?thesis
    using catalog_update_cases [OF upd [unfolded defaultUpdateCatalogAppliedRows_def ids]]
  proof (elim disjE conjE exE)
    fix e assume "r1 = Ok (Inl e)" "cw_rows w' = cw_rows w" "cw_athena w' = cw_athena w"
    then show ?thesis using r by (auto intro: synced_same)
  next
    assume rows: "cw_rows w' = map ?g (cw_rows w)" and h: "cw_athena w' = cw_athena w"
    have "filter (\<lambda>r. row_id r \<notin> I) (map ?g (cw_rows w)) = filter (\<lambda>r. row_id r \<notin> I) (cw_rows w)"
      using assms(3) by (intro filter_map_outside) (auto split: if_splits)
    moreover have "justified (cw_athena w) (row_field x)" if "x \<in> set (cw_rows w)" "row_id x \<in> ID ` set fs" for x
      using that assms(2,4) unfolding fields_match_def by fastforce
    ultimately show ?thesis unfolding synced_def rows h by force
  qed
qed

section \<open>Triples\<close>

text \<open>
  \<open>triple P m Q E\<close>: from a state with \<open>P\<close>, a success of \<open>m\<close> with value \<open>x\<close> ends in \<open>Q x\<close>, and any other outcome in \<open>E\<close>.
\<close>

definition triple :: "(catalog_world \<Rightarrow> bool) \<Rightarrow> 'a cat \<Rightarrow> ('a \<Rightarrow> catalog_world \<Rightarrow> bool) \<Rightarrow> (catalog_world \<Rightarrow> bool) \<Rightarrow> bool" where
  "triple P m Q E \<longleftrightarrow>
     (\<forall>w r w'. P w \<longrightarrow> m w = (r, w') \<longrightarrow> (case r of Ok (Inr x) \<Rightarrow> Q x w' | _ \<Rightarrow> E w'))"

lemma triple_ok: "(\<And>w. P w \<Longrightarrow> Q x w) \<Longrightarrow> triple P (cat_ok x) Q E"
  by (simp add: triple_def)

lemma triple_result:
  "(\<And>w x. P w \<Longrightarrow> r = Inr x \<Longrightarrow> Q x w) \<Longrightarrow> (\<And>w. P w \<Longrightarrow> E w) \<Longrightarrow> triple P (cat_result r) Q E"
  by (cases r) (simp_all add: triple_def)

lemma triple_bind:
  assumes "triple P m Q E" and "\<And>x. triple (Q x) (f x) R E"
  shows "triple P (bind_cat m f) R E"
  unfolding triple_def
proof (intro allI impI)
  fix w r w' assume P: "P w" and run: "bind_cat m f w = (r, w')"
  obtain r1 w1 where m: "m w = (r1, w1)" by fastforce
  have m_post: "case r1 of Ok (Inr x) \<Rightarrow> Q x w1 | _ \<Rightarrow> E w1"
    using assms(1) P m unfolding triple_def by blast
  have f_post: "Q x w1 \<Longrightarrow> f x w1 = (r, w') \<Longrightarrow> (case r of Ok (Inr y) \<Rightarrow> R y w' | _ \<Rightarrow> E w')" for x
    using assms(2) unfolding triple_def by blast
  show "case r of Ok (Inr y) \<Rightarrow> R y w' | _ \<Rightarrow> E w'"
    using run m m_post f_post by (auto simp: bind_cat_def bind_eff_def split: outcome.splits sum.splits)
qed

lemma triple_map_error: "triple P m Q E \<Longrightarrow> triple P (cat_map_error g m) Q E"
  unfolding triple_def cat_map_error_def bind_eff_outcome
  by (auto split: outcome.splits sum.splits) (metis sum.exhaust)+

lemma triple_if:
  "(c \<Longrightarrow> triple P a Q E) \<Longrightarrow> (\<not> c \<Longrightarrow> triple P b Q E) \<Longrightarrow> triple P (if c then a else b) Q E"
  by simp

lemma tripleI:
  assumes "\<And>w r w'. P w \<Longrightarrow> m w = (r, w') \<Longrightarrow> E w'" and "\<And>w w' x. P w \<Longrightarrow> m w = (Ok (Inr x), w') \<Longrightarrow> Q x w'"
  shows "triple P m Q E"
  unfolding triple_def using assms by (auto split: outcome.split sum.split)

lemma tripleD: "triple P m Q E \<Longrightarrow> P w \<Longrightarrow> m w = (Ok (Inr x), w') \<Longrightarrow> Q x w'"
  unfolding triple_def by fastforce

lemma tripleD_any:
  "triple P m Q E \<Longrightarrow> P w \<Longrightarrow> m w = (r, w') \<Longrightarrow> (\<And>x. Q x w' \<Longrightarrow> E w') \<Longrightarrow> E w'"
  unfolding triple_def by (cases r) (auto split: sum.splits)

section \<open>Applying a group to its table\<close>

definition all_applied :: "Field list \<Rightarrow> catalog_world \<Rightarrow> bool" where
  "all_applied fs w \<longleftrightarrow> (\<forall>r\<in>set (cw_rows w). row_id r \<in> ID ` set fs \<longrightarrow> row_applied r)"

text \<open>What \<open>WithPreflight\<close> relies on, for the table its operations were made for.\<close>

locale schema_ops =
  fixes ops :: SchemaOps and database :: string and tableName :: string
  assumes describe_extends: "keeps extends_history (ops_Describe ops)"
    and ddl_extends: "keeps extends_history (ops_RunDDL ops query)"
    and describe_shown: "ops_Describe ops w = (Ok (Inr cols), w') \<Longrightarrow> name \<in> set cols \<Longrightarrow>
        shown (cw_athena w') database tableName name"
    and ddl_ran: "ops_RunDDL ops query w = (Ok (Inr ()), w') \<Longrightarrow> statement_ran (cw_athena w') query"
begin

lemma describe_triple:
  assumes "\<forall>f\<in>set valid. DatabaseName (TenantID f) = database"
  shows "triple (\<lambda>w. synced I w0 w) (ops_Describe ops)
     (\<lambda>cols w. synced I w0 w \<and> (\<forall>f\<in>set valid. lower_name f \<in> set cols \<longrightarrow> justified (cw_athena w) f)) (synced I w0)"
proof (rule tripleI)
  fix w r w' assume "synced I w0 w" and "ops_Describe ops w = (r, w')"
  then show "synced I w0 w'" using synced_extends [OF keepsD [OF describe_extends]] synced_trans by blast
next
  fix w w' cols assume w: "synced I w0 w" and run: "ops_Describe ops w = (Ok (Inr cols), w')"
  show "synced I w0 w' \<and> (\<forall>f\<in>set valid. lower_name f \<in> set cols \<longrightarrow> justified (cw_athena w') f)"
    using synced_trans [OF w synced_extends [OF keepsD [OF describe_extends run]]] describe_shown [OF run] assms
    by (metis justified_shown)
qed

lemma ddl_triple:
  assumes "\<forall>f\<in>set missing. DatabaseName (TenantID f) = database"
    and "BuildAddColumnsDDL database tableName missing = Inr query"
  shows "triple (\<lambda>w. synced I w0 w \<and> all_applied gs w) (ops_RunDDL ops query)
     (\<lambda>_ w. synced I w0 w \<and> all_applied gs w \<and> (\<forall>f\<in>set missing. justified (cw_athena w) f)) (synced I w0)"
proof (rule tripleI)
  fix w r w' assume "synced I w0 w \<and> all_applied gs w" and "ops_RunDDL ops query w = (r, w')"
  then show "synced I w0 w'" using synced_extends [OF keepsD [OF ddl_extends]] synced_trans by blast
next
  fix w w' and x :: unit assume w: "synced I w0 w \<and> all_applied gs w" and run: "ops_RunDDL ops query w = (Ok (Inr x), w')"
  have ext: "extends_history w w'" by (rule keepsD [OF ddl_extends run])
  then have "all_applied gs w'" using w by (simp add: all_applied_def extends_history_def)
  moreover have "synced I w0 w'" using w synced_extends [OF ext] synced_trans by blast
  ultimately show "synced I w0 w' \<and> all_applied gs w' \<and> (\<forall>f\<in>set missing. justified (cw_athena w') f)"
    using ddl_ran [of query w w'] run assms by (metis (full_types) justified_ddl old.unit.exhaust)
qed

end

text \<open>Marking in the middle of a run that started in \<open>w0\<close>.\<close>

lemma mark_triple:
  assumes "fields_match fs w0" and "ID ` set fs \<subseteq> I"
  shows "triple (\<lambda>w. synced I w0 w \<and> all_applied gs w \<and> (\<forall>f\<in>set fs. justified (cw_athena w) f))
     (MarkApplied env (FieldIDs fs) phase) (\<lambda>_ w. synced I w0 w \<and> all_applied (gs @ fs) w) (synced I w0)"
proof (rule tripleI)
  fix w r w' assume w: "synced I w0 w \<and> all_applied gs w \<and> (\<forall>f\<in>set fs. justified (cw_athena w) f)"
    and run: "MarkApplied env (FieldIDs fs) phase w = (r, w')"
  have "fields_match fs w" using fields_match_synced assms(1) w by blast
  from mark_synced [OF run this assms(2)] w show "synced I w0 w'" using synced_trans by blast
next
  fix w w' and x :: unit assume w: "synced I w0 w \<and> all_applied gs w \<and> (\<forall>f\<in>set fs. justified (cw_athena w) f)"
    and run: "MarkApplied env (FieldIDs fs) phase w = (Ok (Inr x), w')"
  have "fields_match fs w" using fields_match_synced assms(1) w by blast
  from mark_synced [OF run this assms(2)] w show "synced I w0 w' \<and> all_applied (gs @ fs) w'"
    using synced_trans by (auto simp: all_applied_def split: if_splits)
qed

lemma triple_pre: "triple P' m Q E \<Longrightarrow> (\<And>w. P w \<Longrightarrow> P' w) \<Longrightarrow> triple P m Q E"
  unfolding triple_def by blast

lemma triple_post:
  assumes "triple P m Q' E" and "\<And>x w. Q' x w \<Longrightarrow> Q x w"
  shows "triple P m Q E"
  unfolding triple_def
proof (intro allI impI)
  fix w r w' assume "P w" and "m w = (r, w')"
  then have "case r of Ok (Inr x) \<Rightarrow> Q' x w' | _ \<Rightarrow> E w'" using assms(1) unfolding triple_def by blast
  then show "case r of Ok (Inr x) \<Rightarrow> Q x w' | _ \<Rightarrow> E w'" using assms(2) by (auto split: outcome.splits sum.splits)
qed

lemma mark_present_triple:
  assumes "fields_match fs w0" and "ID ` set fs \<subseteq> I"
  shows "triple (\<lambda>w. synced I w0 w \<and> (\<forall>f\<in>set fs. justified (cw_athena w) f))
     (if fs \<noteq> [] then MarkApplied env (FieldIDs fs) phase else cat_ok ())
     (\<lambda>_ w. synced I w0 w \<and> all_applied fs w) (synced I w0)"
proof (rule triple_if)
  show "triple (\<lambda>w. synced I w0 w \<and> (\<forall>f\<in>set fs. justified (cw_athena w) f)) (MarkApplied env (FieldIDs fs) phase)
     (\<lambda>_ w. synced I w0 w \<and> all_applied fs w) (synced I w0)"
    by (rule triple_pre [OF triple_post [OF mark_triple [OF assms, of "[]"]]]) (simp_all add: all_applied_def)
qed (auto intro!: triple_ok simp: all_applied_def)

context schema_ops
begin

lemma add_columns_triple:
  assumes "fields_match missing w0" and "ID ` set missing \<subseteq> I"
    and "\<forall>f\<in>set missing. DatabaseName (TenantID f) = database"
  shows "triple (\<lambda>w. synced I w0 w \<and> all_applied present w)
     (if missing = [] then cat_ok ()
      else bind_cat (cat_result (BuildAddColumnsDDL database tableName missing)) (\<lambda>query.
        bind_cat (cat_map_error g (ops_RunDDL ops query)) (\<lambda>_. MarkApplied env (FieldIDs missing) phase)))
     (\<lambda>_ w. synced I w0 w \<and> all_applied (present @ missing) w) (synced I w0)"
proof (rule triple_if)
  show "triple (\<lambda>w. synced I w0 w \<and> all_applied present w)
     (bind_cat (cat_result (BuildAddColumnsDDL database tableName missing)) (\<lambda>query.
        bind_cat (cat_map_error g (ops_RunDDL ops query)) (\<lambda>_. MarkApplied env (FieldIDs missing) phase)))
     (\<lambda>_ w. synced I w0 w \<and> all_applied (present @ missing) w) (synced I w0)"
  proof (cases "BuildAddColumnsDDL database tableName missing")
    case (Inr query)
    note alter = triple_bind [OF triple_map_error [OF ddl_triple [OF assms(3) Inr]] mark_triple [OF assms(1,2)]]
    have "bind_cat (cat_result (BuildAddColumnsDDL database tableName missing)) f = f query" for f :: "string \<Rightarrow> unit cat"
      by (rule ext) (simp add: Inr)
    with alter show ?thesis by simp
  qed (simp add: triple_def cat_result_def bind_cat_def bind_eff_def)
qed (auto intro!: triple_ok simp: all_applied_def)

lemma preflight_triple:
  assumes "fields_match valid w0" and "ID ` set valid \<subseteq> I"
    and "\<forall>f\<in>set valid. DatabaseName (TenantID f) = database"
  shows "triple (synced I w0)
     (WithPreflight env \<lparr>pfValid = valid, pfDatabase = database, pfTableName = tableName\<rparr> ops)
     (\<lambda>_ w. synced I w0 w \<and> all_applied valid w) (synced I w0)"
  unfolding WithPreflight_def PartitionByPresence_def PreflightParams.simps prod.case
proof (rule triple_bind [OF triple_map_error [OF describe_triple [OF assms(3)]]])
  fix cols
  let ?present = "filter (\<lambda>f. lower_name f \<in> set cols) valid"
  let ?missing = "filter (\<lambda>f. lower_name f \<notin> set cols) valid"
  have sub: "fields_match ?present w0" "ID ` set ?present \<subseteq> I" "fields_match ?missing w0" "ID ` set ?missing \<subseteq> I"
    "\<forall>f\<in>set ?missing. DatabaseName (TenantID f) = database"
    using assms by (auto simp: fields_match_def)
  have all: "all_applied (?present @ ?missing) w \<Longrightarrow> all_applied valid w" for w
    by (auto simp: all_applied_def)
  show "triple (\<lambda>w. synced I w0 w \<and> (\<forall>f\<in>set valid. lower_name f \<in> set cols \<longrightarrow> justified (cw_athena w) f))
     (bind_cat (if ?present \<noteq> [] then MarkApplied env (FieldIDs ?present) ''already_present'' else cat_ok ()) (\<lambda>_.
        if ?missing = [] then cat_ok ()
        else bind_cat (cat_result (BuildAddColumnsDDL database tableName ?missing)) (\<lambda>query.
          bind_cat (cat_map_error (wrap_error (''ALTER TABLE failed for '' @ database @ ''.'' @ tableName @ '': '')) (ops_RunDDL ops query))
            (\<lambda>_. MarkApplied env (FieldIDs ?missing) ''after_ddl''))))
     (\<lambda>_ w. synced I w0 w \<and> all_applied valid w) (synced I w0)"
    by (rule triple_pre [OF triple_bind [OF mark_present_triple [OF sub(1,2)]
          triple_post [OF add_columns_triple [OF sub(3-5)]]]]) (auto dest: all)
qed

end

interpretation platform: schema_ops "PlatformOps env region database tableName out" database tableName
  by unfold_locales
     (auto simp: PlatformOps_def GetTableColumnNamesInRegion_def RunDDLInRegion_def load_config_def
       intro!: athena_keeps keeps_GetTableColumnNames keeps_RunDDL
       elim!: bind_cat_OkE dest: GetTableColumnNames_shown RunDDL_ran split: option.splits)

interpretation customer: schema_ops "CustomerOps env client database tableName out" database tableName
  by unfold_locales
     (auto simp: CustomerOps_def intro: keeps_GetTableColumnNames keeps_RunDDL GetTableColumnNames_shown RunDDL_ran)

section \<open>A group\<close>

lemma partition_catalog_mset:
  "mset (fst (PartitionCatalogFields flds applied)) + mset (map InvField (snd (PartitionCatalogFields flds applied))) = mset flds"
  using partition_fields_mset by (simp add: PartitionCatalogFields_def)

lemma partition_catalog_set:
  "set flds = set (fst (PartitionCatalogFields flds applied)) \<union> InvField ` set (snd (PartitionCatalogFields flds applied))"
  using arg_cong [OF partition_catalog_mset [of flds applied], of set_mset] by simp

text \<open>The rows of the group that are left are those of the valid fields.\<close>

definition cleaned :: "Field list \<Rightarrow> Field list \<Rightarrow> catalog_world \<Rightarrow> bool" where
  "cleaned flds valid w \<longleftrightarrow>
     set valid \<subseteq> set flds \<and> (\<forall>r\<in>set (cw_rows w). row_id r \<in> ID ` set flds \<longrightarrow> row_id r \<in> ID ` set valid)"

lemma delete_triple:
  assumes "ID ` set flds \<subseteq> I" and part: "PartitionCatalogFields flds applied = (valid, invalid)"
  shows "triple (synced I w0)
     (if invalid \<noteq> [] then cat_map_error g (defaultDeleteInvalidRows env (map (\<lambda>inv. ID (InvField inv)) invalid)) else cat_ok ())
     (\<lambda>_ w. synced I w0 w \<and> cleaned flds valid w) (synced I w0)"
proof (rule triple_if)
  have sets: "set flds = set valid \<union> InvField ` set invalid"
    using partition_catalog_set [of flds applied] part by simp
  show "triple (synced I w0) (cat_map_error g (defaultDeleteInvalidRows env (map (\<lambda>inv. ID (InvField inv)) invalid)))
     (\<lambda>_ w. synced I w0 w \<and> cleaned flds valid w) (synced I w0)"
  proof (rule triple_map_error, rule tripleI)
    fix w r w' assume w: "synced I w0 w" and run: "defaultDeleteInvalidRows env (map (\<lambda>inv. ID (InvField inv)) invalid) w = (r, w')"
    have "set (map (\<lambda>inv. ID (InvField inv)) invalid) \<subseteq> I" using assms(1) sets by auto
    from synced_trans [OF w delete_synced [OF run this]] show "synced I w0 w'" .
  next
    fix w w' and x :: unit
    assume w: "synced I w0 w" and run: "defaultDeleteInvalidRows env (map (\<lambda>inv. ID (InvField inv)) invalid) w = (Ok (Inr x), w')"
    have "set (map (\<lambda>inv. ID (InvField inv)) invalid) \<subseteq> I" using assms(1) sets by auto
    moreover have "cw_rows w' = filter (\<lambda>r. row_id r \<notin> set (map (\<lambda>inv. ID (InvField inv)) invalid)) (cw_rows w)"
      using catalog_update_cases [OF run [unfolded defaultDeleteInvalidRows_def]] by auto
    ultimately show "synced I w0 w' \<and> cleaned flds valid w'"
      using synced_trans [OF w delete_synced [OF run]] sets by (auto simp: cleaned_def)
  qed
next
  assume "\<not> invalid \<noteq> []"
  then have "set valid = set flds" using partition_catalog_set [of flds applied] part by simp
  then show "triple (synced I w0) (cat_ok ()) (\<lambda>_ w. synced I w0 w \<and> cleaned flds valid w) (synced I w0)"
    by (intro triple_ok) (simp add: cleaned_def)
qed

lemma counting_triple:
  assumes "keeps only_counts m"
  shows "triple (synced I w0) m (\<lambda>_. synced I w0) (synced I w0)"
  by (rule tripleI) (rule synced_trans [OF _ only_counts_synced [OF keepsD [OF assms]]], assumption+)+

lemma clean_triple:
  assumes "ID ` set flds \<subseteq> I"
  shows "triple (synced I w0) (CleanFields env destID sourceID tenantID dispenserType flds)
     (\<lambda>valid w. synced I w0 w \<and> cleaned flds valid w) (synced I w0)"
  unfolding CleanFields_def defaultPluckAppliedNames_def
proof (rule triple_bind [OF triple_map_error [OF counting_triple [OF keeps_catalog_query]]])
  fix applied
  obtain valid invalid where part: "PartitionCatalogFields flds applied = (valid, invalid)" by fastforce
  show "triple (synced I w0) (case PartitionCatalogFields flds applied of (valid, invalid) \<Rightarrow>
      bind_cat (if invalid \<noteq> [] then cat_map_error (wrap_error ''failed to delete invalid catalog fields: '')
          (defaultDeleteInvalidRows env (map (\<lambda>inv. ID (InvField inv)) invalid)) else cat_ok ()) (\<lambda>_. cat_ok valid))
      (\<lambda>valid w. synced I w0 w \<and> cleaned flds valid w) (synced I w0)"
    unfolding part prod.case by (rule triple_bind [OF delete_triple [OF assms part]]) (rule triple_ok)
qed

lemma clean_result:
  assumes "CleanFields env destID sourceID tenantID d flds w = (Ok (Inr valid), w')"
  shows "synced (ID ` set flds) w w' \<and> cleaned flds valid w'"
  by (rule tripleD [OF clean_triple [OF subset_refl] _ assms]) simp

lemma synced_row: "synced I w w' \<Longrightarrow> r' \<in> set (cw_rows w') \<Longrightarrow> \<exists>r\<in>set (cw_rows w). row_field r' = row_field r"
  unfolding synced_def by blast

lemma cleaned_done:
  assumes "cleaned flds valid w" and "all_applied valid w'" and "synced I w w'"
  shows "all_applied flds w'"
  unfolding all_applied_def
proof (intro ballI impI)
  fix r' assume r': "r' \<in> set (cw_rows w')" "row_id r' \<in> ID ` set flds"
  obtain r where "r \<in> set (cw_rows w)" "row_field r' = row_field r" using synced_row [OF assms(3) r'(1)] by blast
  then have "row_id r' \<in> ID ` set valid" using assms(1) r'(2) by (simp add: cleaned_def)
  then show "row_applied r'" using assms(2) r'(1) by (simp add: all_applied_def)
qed

text \<open>After the validation a group only applies what is left of it.\<close>

lemma apply_triple:
  assumes "\<And>valid I w0. fields_match valid w0 \<Longrightarrow> ID ` set valid \<subseteq> I \<Longrightarrow> set valid \<subseteq> set flds \<Longrightarrow>
      triple (synced I w0) (app valid) (\<lambda>_ w. synced I w0 w \<and> all_applied valid w) (synced I w0)"
    and "fields_match flds w0" and "ID ` set flds \<subseteq> I"
  shows "triple (\<lambda>w. synced I w0 w \<and> cleaned flds valid w) (if valid = [] then cat_ok () else app valid)
     (\<lambda>_ w. synced I w0 w \<and> all_applied flds w) (synced I w0)"
proof (rule tripleI)
  fix w r w' assume w: "synced I w0 w \<and> cleaned flds valid w" and run: "(if valid = [] then cat_ok () else app valid) w = (r, w')"
  have sub: "set valid \<subseteq> set flds" using w by (simp add: cleaned_def)
  have fm: "fields_match valid w" "ID ` set valid \<subseteq> I"
    using fields_match_synced assms(2,3) w sub by (fastforce simp: fields_match_def)+
  have "synced I w w'"
    using run tripleD_any [OF assms(1) [OF fm sub], of w r w'] by (cases "valid = []") auto
  with w show "synced I w0 w'" using synced_trans by blast
next
  fix w w' and x :: unit
  assume w: "synced I w0 w \<and> cleaned flds valid w" and run: "(if valid = [] then cat_ok () else app valid) w = (Ok (Inr x), w')"
  have sub: "set valid \<subseteq> set flds" using w by (simp add: cleaned_def)
  have fm: "fields_match valid w" "ID ` set valid \<subseteq> I"
    using fields_match_synced assms(2,3) w sub by (fastforce simp: fields_match_def)+
  have "synced I w w' \<and> all_applied valid w'"
    using run tripleD [OF assms(1) [OF fm sub], of w x w'] by (cases "valid = []") (auto simp: all_applied_def)
  with w show "synced I w0 w' \<and> all_applied flds w'" using synced_trans cleaned_done by blast
qed

lemma storage_triple:
  assumes "fields_match flds w0" and "ID ` set flds \<subseteq> I" and "\<forall>f\<in>set flds. TenantID f = tenantID"
  shows "triple (synced I w0) (storage_processGroup env None destID sourceID tenantID flds)
     (\<lambda>_ w. synced I w0 w \<and> all_applied flds w) (synced I w0)"
  unfolding storage_processGroup_def Let_def option.case
proof (rule triple_bind [OF counting_triple [OF keeps_resolve_storage]], rule triple_bind [OF clean_triple [OF assms(2)]],
    rule apply_triple [OF _ assms(1,2)])
  fix target valid J w1 assume "fields_match valid w1" "ID ` set valid \<subseteq> J" "set valid \<subseteq> set flds"
  moreover from this assms(3) have "\<forall>f\<in>set valid. DatabaseName (TenantID f) = DatabaseName tenantID" by auto
  ultimately show "triple (synced J w1)
      (WithPreflight env \<lparr>pfValid = valid, pfDatabase = DatabaseName tenantID, pfTableName = dsTableName target\<rparr>
        (PlatformOps env (dsRegion target) (DatabaseName tenantID) (dsTableName target) (dsOutputLocation target)))
      (\<lambda>_ w. synced J w1 w \<and> all_applied valid w) (synced J w1)"
    by (intro platform.preflight_triple)
qed

lemma parquet_triple:
  assumes "fields_match flds w0" and "ID ` set flds \<subseteq> I" and "\<forall>f\<in>set flds. TenantID f = tenantID"
  shows "triple (synced I w0) (parquet_processGroup env None destID sourceID tenantID flds)
     (\<lambda>_ w. synced I w0 w \<and> all_applied flds w) (synced I w0)"
  unfolding parquet_processGroup_def Let_def option.case
proof (rule triple_bind [OF counting_triple [OF keeps_resolve_parquet]], rule triple_bind [OF clean_triple [OF assms(2)]],
    rule apply_triple [OF _ assms(1,2)])
  fix target valid J w1 assume v: "fields_match valid w1" "ID ` set valid \<subseteq> J" "set valid \<subseteq> set flds"
  from v(3) assms(3) have db: "\<forall>f\<in>set valid. DatabaseName (TenantID f) = DatabaseName tenantID" by auto
  let ?ops = "\<lambda>client. CustomerOps env client (DatabaseName tenantID) (s3TableName target) (s3OutputLocation target)"
  have client: "triple (synced J w1)
      (bind_cat (cat_map_error g (createCustomerAthenaClient env (s3DestConfig target))) (\<lambda>client. cat_ok (?ops client)))
      (\<lambda>o' w. synced J w1 w \<and> (\<exists>client. o' = ?ops client)) (synced J w1)" for g
    by (rule triple_bind [OF triple_map_error [OF counting_triple [OF keeps_create_client]]]) (auto intro: triple_ok)
  show "triple (synced J w1)
      (bind_cat (bind_cat (cat_map_error (wrap_error (''failed to create customer Athena client for '' @ destID @ '': ''))
            (createCustomerAthenaClient env (s3DestConfig target))) (\<lambda>client. cat_ok (?ops client)))
        (WithPreflight env \<lparr>pfValid = valid, pfDatabase = DatabaseName tenantID, pfTableName = s3TableName target\<rparr>))
      (\<lambda>_ w. synced J w1 w \<and> all_applied valid w) (synced J w1)"
  proof (rule triple_bind [OF client])
    fix o'
    show "triple (\<lambda>w. synced J w1 w \<and> (\<exists>client. o' = ?ops client))
        (WithPreflight env \<lparr>pfValid = valid, pfDatabase = DatabaseName tenantID, pfTableName = s3TableName target\<rparr> o')
        (\<lambda>_ w. synced J w1 w \<and> all_applied valid w) (synced J w1)"
    proof (cases "\<exists>client. o' = ?ops client")
      case True
      then obtain client where o': "o' = ?ops client" by blast
      show ?thesis unfolding o' by (rule triple_pre [OF customer.preflight_triple [OF v(1,2) db]]) blast
    qed (auto simp: triple_def)
  qed
qed

section \<open>The loop over the groups\<close>

definition good_group :: "int set \<Rightarrow> catalog_world \<Rightarrow> Field list \<Rightarrow> bool" where
  "good_group I w grp \<longleftrightarrow>
     fields_match grp w \<and> ID ` set grp \<subseteq> I \<and> (\<forall>f\<in>set grp. TenantID f = TenantID (hd grp))"

lemma good_group_synced: "synced J w w1 \<Longrightarrow> good_group I w grp \<Longrightarrow> good_group I w1 grp"
  unfolding good_group_def using fields_match_synced by blast

text \<open>What the loop relies on: processing a group may change only the rows of the group, and a success finishes them.\<close>

locale group_sync =
  fixes process :: "string \<Rightarrow> string \<Rightarrow> string \<Rightarrow> Field list \<Rightarrow> unit cat"
  assumes process_triple: "fields_match flds w0 \<Longrightarrow> ID ` set flds \<subseteq> I \<Longrightarrow> \<forall>f\<in>set flds. TenantID f = tenantID \<Longrightarrow>
      triple (synced I w0) (process destID sourceID tenantID flds) (\<lambda>_ w. synced I w0 w \<and> all_applied flds w) (synced I w0)"
begin

lemma process_synced:
  assumes "fields_match flds w" and "ID ` set flds \<subseteq> I" and "\<forall>f\<in>set flds. TenantID f = tenantID"
    and "process destID sourceID tenantID flds w = (r, w')"
  shows "synced I w w'"
  using tripleD_any [OF process_triple [OF assms(1-3)] _ assms(4)] by simp

lemma process_done:
  assumes "fields_match flds w" and "\<forall>f\<in>set flds. TenantID f = tenantID"
    and "process destID sourceID tenantID flds w = (Ok (Inr ()), w')"
  shows "all_applied flds w'"
  using tripleD [OF process_triple [OF assms(1) subset_refl assms(2)] _ assms(3)] by simp

lemma sync_groups_synced:
  assumes "\<forall>(k, grp)\<in>set groups. good_group I w grp" and "sync_groups process groups errs w = (r, w')"
  shows "synced I w w'"
  using assms
proof (induction groups arbitrary: errs w)
  case (Cons kg groups)
  obtain k grp where kg: "kg = (k, grp)" by fastforce
  let ?m = "process (DestID (hd grp)) (SourceID (hd grp)) (TenantID (hd grp)) grp"
  obtain r1 w1 where m: "?m w = (r1, w1)" by fastforce
  have good: "good_group I w grp" using Cons.prems(1) kg by simp
  have s: "synced I w w1"
    using good m unfolding good_group_def by (intro process_synced [of grp w I "TenantID (hd grp)"]) auto
  have rest: "\<forall>(k, g)\<in>set groups. good_group I w1 g"
    using Cons.prems(1) good_group_synced [OF s] by auto
  have "w' = w1 \<or> (\<exists>errs. sync_groups process groups errs w1 = (r, w'))"
    using Cons.prems(2) m kg by (cases r1) (auto simp: bind_eff_def Let_def)
  then show ?case
  proof (elim disjE exE)
    fix errs' assume "sync_groups process groups errs' w1 = (r, w')"
    from synced_trans [OF s Cons.IH [OF rest this]] show ?thesis .
  qed (use s in simp)
qed simp

end

interpretation storage: group_sync "storage_processGroup env None"
  by unfold_locales (rule storage_triple)

interpretation parquet: group_sync "parquet_processGroup env None"
  by unfold_locales (rule parquet_triple)

section \<open>The groups\<close>

interpretation cat_groups: grouping "[]" "\<lambda>f. group_append (field_group f) f" group_members field_group
  by unfold_locales simp_all

lemma distinct_group_fields: "distinct (map fst (group_fields flds))"
proof -
  have "distinct (map fst m) \<Longrightarrow> distinct (map fst (fold (\<lambda>f. group_append (field_group f) f) flds m))" for m
    by (induction flds arbitrary: m) simp_all
  then show ?thesis by (simp add: group_fields_def)
qed

lemma group_fields_members: "(k, grp) \<in> set (group_fields flds) \<Longrightarrow> grp = filter (\<lambda>f. field_group f = k) flds"
  using cat_groups.members_grouped [of flds k] distinct_group_fields [of flds]
  by (simp add: group_members_def group_fields_def [symmetric] map_of_eq_Some_iff [THEN iffD2])

text \<open>Ids of destinations, sources and tenants are UUIDs; all that matters is that they have no separator.\<close>

definition plain_ids :: "Field \<Rightarrow> bool" where
  "plain_ids f \<longleftrightarrow> CHR ''|'' \<notin> set (DestID f) \<and> CHR ''|'' \<notin> set (SourceID f) \<and> CHR ''|'' \<notin> set (TenantID f)"

lemma field_group_split: "plain_ids f \<Longrightarrow> go_split (CHR ''|'') (field_group f) = [DestID f, SourceID f, TenantID f]"
  by (simp add: plain_ids_def field_group_def GroupKey_def go_split_append go_split_no_sep)

lemma field_group_inj:
  assumes "plain_ids f" and "plain_ids g" and "field_group f = field_group g"
  shows "DestID f = DestID g \<and> SourceID f = SourceID g \<and> TenantID f = TenantID g"
  using field_group_split [OF assms(1)] field_group_split [OF assms(2)] assms(3) by simp

definition unapplied_ids :: "string \<Rightarrow> catalog_row list \<Rightarrow> int set" where
  "unapplied_ids d rows = {row_id r | r. r \<in> set rows \<and> \<not> row_applied r \<and> row_dispenser r = d}"

lemma unapplied_fields_match:
  assumes "distinct (map row_id (cw_rows w))"
  shows "fields_match (unapplied_fields d (cw_rows w)) w"
  using assms unfolding fields_match_def unapplied_fields_def
  by (auto simp: distinct_map dest: inj_onD)

lemma groups_good:
  assumes "distinct (map row_id (cw_rows w))" and "\<forall>r\<in>set (cw_rows w). plain_ids (row_field r)"
    and "(k, grp) \<in> set (group_fields (unapplied_fields d (cw_rows w)))"
  shows "good_group (unapplied_ids d (cw_rows w)) w grp"
proof -
  let ?flds = "unapplied_fields d (cw_rows w)"
  have grp: "grp = filter (\<lambda>f. field_group f = k) ?flds" by (rule group_fields_members [OF assms(3)])
  have plain: "plain_ids f" if "f \<in> set ?flds" for f
    using that assms(2) by (auto simp: unapplied_fields_def)
  have "TenantID f = TenantID (hd grp)" if f: "f \<in> set grp" for f
  proof -
    have "hd grp \<in> set grp" using f by (cases grp) auto
    with f plain show ?thesis using field_group_inj [of f "hd grp"] unfolding grp by simp
  qed
  moreover have "fields_match grp w"
    using unapplied_fields_match [OF assms(1)] unfolding grp fields_match_def by auto
  moreover have "ID ` set grp \<subseteq> unapplied_ids d (cw_rows w)"
    unfolding grp by (auto simp: unapplied_fields_def unapplied_ids_def)
  ultimately show ?thesis by (simp add: good_group_def)
qed

text \<open>Both jobs, with the dispenser whose rows they read.\<close>

definition catalog_job :: "catalog_env \<Rightarrow> string \<Rightarrow> (catalog_world, JobResult) eff" where
  "catalog_job env d = (if d = DispenserDatabahnStorage then ApplyDataCatalogToAthena env else ApplyS3ParquetCatalogToAthena env)"

lemma catalog_query_run:
  "catalog_query env f w = (r, w1) \<Longrightarrow> only_counts w w1 \<and> ((\<exists>e. r = Ok (Inl e)) \<or> r = Ok (Inr (f (cw_rows w))))"
  by (auto simp: catalog_query_def only_counts_def split: option.splits)

lemma job_synced:
  assumes "range_order (ce_order env)" and "distinct (map row_id (cw_rows w))"
    and "\<forall>r\<in>set (cw_rows w). plain_ids (row_field r)" and "d = DispenserDatabahnStorage \<or> d = DispenserS3Parquet"
    and "catalog_job env d w = (r, w')"
  shows "synced (unapplied_ids d (cw_rows w)) w w'"
proof -
  let ?I = "unapplied_ids d (cw_rows w)" and ?groups = "group_fields (unapplied_fields d (cw_rows w))"
  let ?process = "if d = DispenserDatabahnStorage then storage_processGroup env None else parquet_processGroup env None"
  obtain r1 w1 where q: "catalog_query env (unapplied_fields d) w = (r1, w1)" by fastforce
  then have c: "only_counts w w1" and r1: "(\<exists>e. r1 = Ok (Inl e)) \<or> r1 = Ok (Inr (unapplied_fields d (cw_rows w)))"
    using catalog_query_run by blast+
  have "w' = w1 \<or> (\<exists>r2. sync_groups ?process (ce_order env ?groups) [] w1 = (r2, w'))"
    using assms(4,5) q r1
    by (cases "d = DispenserDatabahnStorage")
       (auto simp: catalog_job_def ApplyDataCatalogToAthena_def ApplyS3ParquetCatalogToAthena_def
         defaultQueryUnappliedFields_def defaultQueryUnappliedS3ParquetFields_def bind_eff_def
         DispenserDatabahnStorage_def DispenserS3Parquet_def split: prod.splits outcome.splits if_splits)
  then show ?thesis
  proof (elim disjE exE)
    fix r2 assume loop: "sync_groups ?process (ce_order env ?groups) [] w1 = (r2, w')"
    have good: "\<forall>(k, grp)\<in>set (ce_order env ?groups). good_group ?I w1 grp"
      using groups_good [OF assms(2,3)] range_order_set [OF assms(1)] good_group_synced [OF only_counts_synced [OF c]] by auto
    have "synced ?I w1 w'"
      using loop storage.sync_groups_synced [OF good, of env "[]" r2 w'] parquet.sync_groups_synced [OF good, of env "[]" r2 w']
      by (simp split: if_splits)
    then show ?thesis by (rule synced_trans [OF only_counts_synced [OF c]])
  qed (use only_counts_synced [OF c] in simp)
qed

text \<open>C22: In every run of either catalog job, with whatever failing database operations and Athena answers, the
  rows that are applied already and the rows of other dispensers stay as they are, no row is added, and a
  row becomes applied only after a DESCRIBE of its tenant's database showed its column or an ALTER TABLE
  that adds the column to a table of that database succeeded.
\<close>

theorem catalog_job_safe:
  assumes "range_order (ce_order env)" and "distinct (map row_id (cw_rows w))"
    and "\<forall>r\<in>set (cw_rows w). plain_ids (row_field r)" and "d = DispenserDatabahnStorage \<or> d = DispenserS3Parquet"
    and "catalog_job env d w = (r, w')"
  shows "(\<forall>x\<in>set (cw_rows w). row_applied x \<or> row_dispenser x \<noteq> d \<longrightarrow> x \<in> set (cw_rows w'))
     \<and> (\<forall>x'\<in>set (cw_rows w'). x' \<in> set (cw_rows w)
          \<or> (\<exists>x\<in>set (cw_rows w). \<not> row_applied x \<and> row_dispenser x = d
               \<and> x' = x\<lparr>row_applied := True, row_engine := searchEngineAthena\<rparr> \<and> justified (cw_athena w') (row_field x)))"
proof -
  let ?I = "unapplied_ids d (cw_rows w)"
  note s = job_synced [OF assms]
  have I: "row_id x \<in> ?I \<longleftrightarrow> \<not> row_applied x \<and> row_dispenser x = d" if "x \<in> set (cw_rows w)" for x
    using that assms(2) unfolding unapplied_ids_def by (auto simp: distinct_map dest: inj_onD)
  have outside: "x \<in> set (cw_rows w) \<longleftrightarrow> x \<in> set (cw_rows w')" if "row_id x \<notin> ?I" for x
  proof -
    have "set (filter (\<lambda>r. row_id r \<notin> ?I) (cw_rows w')) = set (filter (\<lambda>r. row_id r \<notin> ?I) (cw_rows w))"
      using s by (simp add: synced_def)
    with that show ?thesis by auto
  qed
  have "x' \<in> set (cw_rows w) \<or> (\<exists>x\<in>set (cw_rows w). \<not> row_applied x \<and> row_dispenser x = d
      \<and> x' = x\<lparr>row_applied := True, row_engine := searchEngineAthena\<rparr> \<and> justified (cw_athena w') (row_field x))"
    if x': "x' \<in> set (cw_rows w')" for x'
  proof -
    obtain x where x: "x \<in> set (cw_rows w)" "row_field x' = row_field x" "row_dispenser x' = row_dispenser x"
      "x' = x \<or> row_applied x' \<and> row_engine x' = searchEngineAthena \<and> justified (cw_athena w') (row_field x')"
      using s x' unfolding synced_def by blast
    then show ?thesis using I [OF x(1)] outside [of x'] x' by (cases "x' = x") auto
  qed
  then show ?thesis using I outside by blast
qed

section \<open>No usable name is lost\<close>

definition flags_grow :: "catalog_world \<Rightarrow> catalog_world \<Rightarrow> bool" where
  "flags_grow w w' \<longleftrightarrow>
     list_all2 (\<lambda>r r'. row_field r' = row_field r \<and> row_dispenser r' = row_dispenser r \<and> (row_applied r \<longrightarrow> row_applied r'))
       (cw_rows w) (cw_rows w')"

lemma flags_preorder: "preorder_rel flags_grow"
  unfolding preorder_rel_def flags_grow_def list_all2_conv_all_nth by auto

lemma flags_grow_row:
  "flags_grow w w' \<Longrightarrow> r \<in> set (cw_rows w) \<Longrightarrow>
   \<exists>r'\<in>set (cw_rows w'). row_field r' = row_field r \<and> row_dispenser r' = row_dispenser r \<and> (row_applied r \<longrightarrow> row_applied r')"
  unfolding flags_grow_def list_all2_conv_all_nth in_set_conv_nth by (metis nth_mem)

lemma keeps_mono: "keeps R m \<Longrightarrow> (\<And>w w'. R w w' \<Longrightarrow> S w w') \<Longrightarrow> keeps S m"
  unfolding keeps_def by blast

lemma flags_same: "cw_rows w' = cw_rows w \<Longrightarrow> flags_grow w w'"
  by (simp add: flags_grow_def list_all2_refl)

lemma keeps_flags_mark: "keeps flags_grow (MarkApplied env ids phase)"
proof -
  have "keeps flags_grow (defaultUpdateCatalogAppliedRows env ids)"
    unfolding keeps_def defaultUpdateCatalogAppliedRows_def catalog_update_def flags_grow_def
    by (auto simp: list_all2_refl list.rel_map split: option.split intro!: list.rel_refl)
  then show ?thesis unfolding MarkApplied_def defaultMarkCatalogApplied_def
    by (intro keeps_if keeps_map_error keeps_cat_simple flags_preorder)
qed

context schema_ops
begin

lemma keeps_flags_preflight: "keeps flags_grow (WithPreflight env p ops)"
proof -
  have "keeps flags_grow (ops_Describe ops)" "\<And>q. keeps flags_grow (ops_RunDDL ops q)"
    using keeps_mono [OF describe_extends] keeps_mono [OF ddl_extends] flags_same
    unfolding extends_history_def by blast+
  then show ?thesis unfolding WithPreflight_def PartitionByPresence_def prod.case
    by (intro keeps_bind_cat keeps_map_error keeps_if keeps_cat_simple keeps_flags_mark flags_preorder)
qed

end

lemma partition_fields_covers:
  "f \<in> set fs \<Longrightarrow> usable_name (Name f) \<Longrightarrow>
   lower_name f \<in> set seen \<or> (\<exists>v\<in>set (fst (partition_fields seen fs)). lower_name v = lower_name f)"
proof (induction fs arbitrary: seen)
  case (Cons a fs)
  show ?case
  proof (cases "f = a")
    case False
    with Cons.prems have f: "f \<in> set fs" by simp
    show ?thesis using Cons.IH [OF f Cons.prems(2), of seen] Cons.IH [OF f Cons.prems(2), of "lower_name a # seen"]
      by (auto simp: partition_fields_Cons)
  qed (use Cons.prems in \<open>auto simp: partition_fields_Cons\<close>)
qed simp

definition in_group :: "string \<Rightarrow> string \<Rightarrow> string \<Rightarrow> Field \<Rightarrow> bool" where
  "in_group destID sourceID tenantID f \<longleftrightarrow> DestID f = destID \<and> SourceID f = sourceID \<and> TenantID f = tenantID"

text \<open>The fields that a job reads for a group: those of the group's unapplied rows of the job's dispenser.\<close>

definition reads_group :: "string \<Rightarrow> string \<Rightarrow> string \<Rightarrow> string \<Rightarrow> Field list \<Rightarrow> catalog_world \<Rightarrow> bool" where
  "reads_group destID sourceID tenantID d flds w \<longleftrightarrow>
     distinct (map row_id (cw_rows w)) \<and> distinct (map ID flds)
     \<and> list_all (\<lambda>f. in_group destID sourceID tenantID f
          \<and> list_ex (\<lambda>r. row_field r = f \<and> \<not> row_applied r \<and> row_dispenser r = d) (cw_rows w)) flds"

definition covered :: "string \<Rightarrow> string \<Rightarrow> string \<Rightarrow> string \<Rightarrow> (catalog_row \<Rightarrow> bool) \<Rightarrow> catalog_world \<Rightarrow> Field \<Rightarrow> bool" where
  "covered destID sourceID tenantID d P w f \<longleftrightarrow>
     list_ex (\<lambda>r. P r \<and> row_dispenser r = d \<and> in_group destID sourceID tenantID (row_field r)
        \<and> lower_name (row_field r) = lower_name f) (cw_rows w)"

lemma reads_group_match: "reads_group destID sourceID tenantID d flds w \<Longrightarrow> fields_match flds w"
  unfolding reads_group_def fields_match_def list_all_iff list_ex_iff by (metis distinct_map inj_onD)

lemma CleanFields_run:
  assumes "CleanFields env destID sourceID tenantID d flds w = (Ok (Inr valid), w')"
  obtains applied where
    "applied = map (\<lambda>r. Name (row_field r)) (filter (\<lambda>r. row_applied r \<and> DestID (row_field r) = destID
       \<and> SourceID (row_field r) = sourceID \<and> TenantID (row_field r) = tenantID \<and> row_dispenser r = d
       \<and> go_to_lower (Name (row_field r)) \<in> set (lowerFieldNames flds)) (cw_rows w))"
    and "valid = fst (PartitionCatalogFields flds applied)"
    and "cw_rows w' = filter (\<lambda>r. row_id r \<notin> ID ` InvField ` set (snd (PartitionCatalogFields flds applied))) (cw_rows w)"
proof -
  from assms obtain applied w1 where "cat_map_error (wrap_error (''failed to load applied catalog fields for '' @ destID @ ''/'' @ sourceID @ '': ''))
       (defaultPluckAppliedNames env destID sourceID tenantID d (lowerFieldNames flds)) w = (Ok (Inr applied), w1)"
    and step: "(case PartitionCatalogFields flds applied of (valid, invalid) \<Rightarrow>
      bind_cat (if invalid \<noteq> [] then cat_map_error (wrap_error ''failed to delete invalid catalog fields: '')
          (defaultDeleteInvalidRows env (map (\<lambda>inv. ID (InvField inv)) invalid)) else cat_ok ()) (\<lambda>_. cat_ok valid)) w1
      = (Ok (Inr valid), w')"
    unfolding CleanFields_def by (rule bind_cat_OkE)
  then have q: "defaultPluckAppliedNames env destID sourceID tenantID d (lowerFieldNames flds) w = (Ok (Inr applied), w1)"
    by (simp add: cat_map_error_Inr)
  obtain v invalid where part: "PartitionCatalogFields flds applied = (v, invalid)" by fastforce
  from catalog_query_run [OF q [unfolded defaultPluckAppliedNames_def]]
  have rows: "cw_rows w1 = cw_rows w" by (simp add: only_counts_def)
  have "v = valid \<and> cw_rows w' = filter (\<lambda>r. row_id r \<notin> ID ` InvField ` set invalid) (cw_rows w)"
  proof (cases "invalid = []")
    case True
    then show ?thesis using step part rows by (auto elim!: bind_cat_OkE)
  next
    case False
    then obtain w2 where "defaultDeleteInvalidRows env (map (\<lambda>inv. ID (InvField inv)) invalid) w1 = (Ok (Inr ()), w2)"
      and "w2 = w'" "v = valid"
      using step part by (auto simp: cat_map_error_Inr elim!: bind_cat_OkE)
    then show ?thesis using rows catalog_update_cases [of env _ w1 "Ok (Inr ())" w']
      by (auto simp: defaultDeleteInvalidRows_def image_image)
  qed
  with that [of applied] q part show thesis
    using catalog_query_run [OF q [unfolded defaultPluckAppliedNames_def]] by simp
qed

lemma clean_covers:
  assumes run: "CleanFields env destID sourceID tenantID d flds w = (Ok (Inr valid), w')"
    and grp: "reads_group destID sourceID tenantID d flds w" and f: "f \<in> set flds" "usable_name (Name f)"
  shows "covered destID sourceID tenantID d (\<lambda>r. row_applied r \<or> row_field r \<in> set valid) w' f"
proof -
  from run obtain applied where applied: "applied = map (\<lambda>r. Name (row_field r)) (filter (\<lambda>r. row_applied r \<and> DestID (row_field r) = destID
       \<and> SourceID (row_field r) = sourceID \<and> TenantID (row_field r) = tenantID \<and> row_dispenser r = d
       \<and> go_to_lower (Name (row_field r)) \<in> set (lowerFieldNames flds)) (cw_rows w))"
    and valid: "valid = fst (PartitionCatalogFields flds applied)"
    and rows: "cw_rows w' = filter (\<lambda>r. row_id r \<notin> ID ` InvField ` set (snd (PartitionCatalogFields flds applied))) (cw_rows w)"
    by (rule CleanFields_run)
  let ?inv = "InvField ` set (snd (PartitionCatalogFields flds applied))"
  have sets: "set flds = set valid \<union> ?inv" unfolding valid by (rule partition_catalog_set)
  have unapplied: "\<not> row_applied r" if "r \<in> set (cw_rows w)" "row_id r \<in> ID ` set flds" for r
    using that grp unfolding reads_group_def list_all_iff list_ex_iff by (metis (no_types, lifting) distinct_map imageE inj_onD)
  have disjoint: "ID v \<notin> ID ` ?inv" if "v \<in> set valid" for v
  proof -
    have "distinct (map ID valid @ map ID (map InvField (snd (PartitionCatalogFields flds applied))))"
      using grp partition_catalog_mset [of flds applied] unfolding reads_group_def valid
      by (metis map_append mset_append mset_eq_imp_distinct_iff mset_map)
    with that show ?thesis by (auto simp: image_image)
  qed
  consider "lower_name f \<in> go_to_lower ` set applied" | v where "v \<in> set valid" "lower_name v = lower_name f"
    using partition_fields_covers [of f "sort_key ID flds" "map go_to_lower applied"] f
    unfolding valid PartitionCatalogFields_def by auto
  then show ?thesis
  proof cases
    case 1
    then obtain r where r: "r \<in> set (cw_rows w)" "row_applied r" "row_dispenser r = d"
      "in_group destID sourceID tenantID (row_field r)" "lower_name (row_field r) = lower_name f"
      unfolding applied by (auto simp: in_group_def)
    then have "r \<in> set (cw_rows w')" using unapplied [OF r(1)] sets unfolding rows by auto
    with r show ?thesis unfolding covered_def list_ex_iff by blast
  next
    case (2 v)
    then have "v \<in> set flds" using sets by blast
    then obtain r where r: "r \<in> set (cw_rows w)" "row_field r = v" "row_dispenser r = d" "in_group destID sourceID tenantID v"
      using grp unfolding reads_group_def list_all_iff list_ex_iff by blast
    then have "r \<in> set (cw_rows w')" using disjoint [OF 2(1)] unfolding rows by auto
    with r 2 show ?thesis unfolding covered_def list_ex_iff by blast
  qed
qed

lemma covered_finish:
  assumes "covered destID sourceID tenantID d (\<lambda>r. row_applied r \<or> row_field r \<in> set valid) w f"
    and "flags_grow w w'" and "all_applied valid w'"
  shows "covered destID sourceID tenantID d row_applied w' f"
proof -
  from assms(1) obtain r where r: "r \<in> set (cw_rows w)" "row_applied r \<or> row_field r \<in> set valid" "row_dispenser r = d"
    "in_group destID sourceID tenantID (row_field r)" "lower_name (row_field r) = lower_name f"
    unfolding covered_def list_ex_iff by blast
  obtain r' where r': "r' \<in> set (cw_rows w')" "row_field r' = row_field r" "row_dispenser r' = row_dispenser r"
    "row_applied r \<longrightarrow> row_applied r'" using flags_grow_row [OF assms(2) r(1)] by blast
  have "row_applied r'" using r(2) r' assms(3) unfolding all_applied_def by auto
  with r r' show ?thesis unfolding covered_def list_ex_iff by metis
qed

text \<open>After the validation either job applies what is left, with operations for the group's table.\<close>

lemma apply_covers:
  assumes "CleanFields env destID sourceID tenantID d flds w1 = (Ok (Inr valid), w2)"
    and "reads_group destID sourceID tenantID d flds w1" and "f \<in> set flds" "usable_name (Name f)"
    and "w' = w2 \<and> valid = [] \<or> keeps flags_grow (app :: unit cat) \<and> app w2 = (Ok (Inr ()), w')
      \<and> (\<forall>I w0. triple (synced I w0) app (\<lambda>_ w. synced I w0 w \<and> all_applied valid w) (synced I w0)
           \<or> \<not> fields_match valid w0 \<or> \<not> ID ` set valid \<subseteq> I)"
  shows "covered destID sourceID tenantID d row_applied w' f"
proof -
  note cover = clean_covers [OF assms(1-4)]
  note clean = clean_result [OF assms(1)]
  have fm: "fields_match valid w2"
    using clean fields_match_synced [OF reads_group_match [OF assms(2)]] unfolding cleaned_def fields_match_def by fastforce
  show ?thesis using assms(5)
  proof (elim disjE conjE)
    assume "w' = w2" "valid = []"
    then show ?thesis using covered_finish [OF cover flags_same] by (simp add: all_applied_def)
  next
    assume k: "keeps flags_grow app" and run: "app w2 = (Ok (Inr ()), w')"
      and t: "\<forall>I w0. triple (synced I w0) app (\<lambda>_ w. synced I w0 w \<and> all_applied valid w) (synced I w0)
           \<or> \<not> fields_match valid w0 \<or> \<not> ID ` set valid \<subseteq> I"
    have "all_applied valid w'"
      using t fm tripleD [of "synced (ID ` set valid) w2" app "\<lambda>_ w. synced (ID ` set valid) w2 w \<and> all_applied valid w"
          "synced (ID ` set valid) w2", OF _ _ run] by auto
    from covered_finish [OF cover keepsD [OF k run] this] show ?thesis .
  qed
qed

definition catalog_process ::
  "catalog_env \<Rightarrow> string \<Rightarrow> string \<Rightarrow> string \<Rightarrow> string \<Rightarrow> Field list \<Rightarrow> unit cat" where
  "catalog_process env d =
     (if d = DispenserDatabahnStorage then storage_processGroup env None else parquet_processGroup env None)"

lemma storage_covers:
  assumes run: "storage_processGroup env None destID sourceID tenantID flds w = (Ok (Inr ()), w')"
    and grp: "reads_group destID sourceID tenantID DispenserDatabahnStorage flds w" and f: "f \<in> set flds" "usable_name (Name f)"
  shows "covered destID sourceID tenantID DispenserDatabahnStorage row_applied w' f"
proof -
  from run obtain target w1 where res: "defaultResolveDatabahnStorageTarget env destID sourceID w = (Ok (Inr target), w1)"
    and rest: "bind_cat (CleanFields env destID sourceID tenantID DispenserDatabahnStorage flds) (\<lambda>valid.
       if valid = [] then cat_ok ()
       else WithPreflight env \<lparr>pfValid = valid, pfDatabase = DatabaseName tenantID, pfTableName = dsTableName target\<rparr>
         (PlatformOps env (dsRegion target) (DatabaseName tenantID) (dsTableName target) (dsOutputLocation target))) w1 = (Ok (Inr ()), w')"
    unfolding storage_processGroup_def Let_def option.case by (rule bind_cat_OkE)
  let ?app = "\<lambda>valid. WithPreflight env \<lparr>pfValid = valid, pfDatabase = DatabaseName tenantID, pfTableName = dsTableName target\<rparr>
         (PlatformOps env (dsRegion target) (DatabaseName tenantID) (dsTableName target) (dsOutputLocation target))"
  from rest obtain valid w2 where clean: "CleanFields env destID sourceID tenantID DispenserDatabahnStorage flds w1 = (Ok (Inr valid), w2)"
    and app: "(if valid = [] then cat_ok () else ?app valid) w2 = (Ok (Inr ()), w')" by (rule bind_cat_OkE)
  have grp1: "reads_group destID sourceID tenantID DispenserDatabahnStorage flds w1"
    using grp keepsD [OF keeps_resolve_storage res] by (simp add: reads_group_def only_counts_def)
  have "set valid \<subseteq> set flds" using clean_result [OF clean] by (simp add: cleaned_def)
  then have db: "\<forall>f\<in>set valid. DatabaseName (TenantID f) = DatabaseName tenantID"
    using grp by (auto simp: reads_group_def list_all_iff in_group_def)
  show ?thesis
    using app db by (intro apply_covers [OF clean grp1 f, of w' "?app valid"])
      (auto intro: platform.keeps_flags_preflight platform.preflight_triple split: if_splits)
qed

lemma parquet_covers:
  assumes run: "parquet_processGroup env None destID sourceID tenantID flds w = (Ok (Inr ()), w')"
    and grp: "reads_group destID sourceID tenantID DispenserS3Parquet flds w" and f: "f \<in> set flds" "usable_name (Name f)"
  shows "covered destID sourceID tenantID DispenserS3Parquet row_applied w' f"
proof -
  let ?ops = "\<lambda>target client. CustomerOps env client (DatabaseName tenantID) (s3TableName target) (s3OutputLocation target)"
  let ?app = "\<lambda>target valid. WithPreflight env \<lparr>pfValid = valid, pfDatabase = DatabaseName tenantID, pfTableName = s3TableName target\<rparr>"
  let ?client = "\<lambda>target. bind_cat (cat_map_error (wrap_error (''failed to create customer Athena client for '' @ destID @ '': ''))
       (createCustomerAthenaClient env (s3DestConfig target))) (\<lambda>client. cat_ok (?ops target client))"
  from run obtain target w1 where res: "defaultResolveS3ParquetTarget env destID sourceID tenantID w = (Ok (Inr target), w1)"
    and rest: "bind_cat (CleanFields env destID sourceID tenantID DispenserS3Parquet flds) (\<lambda>valid.
       if valid = [] then cat_ok () else bind_cat (?client target) (?app target valid)) w1 = (Ok (Inr ()), w')"
    unfolding parquet_processGroup_def Let_def option.case by (rule bind_cat_OkE)
  from rest obtain valid w2 where clean: "CleanFields env destID sourceID tenantID DispenserS3Parquet flds w1 = (Ok (Inr valid), w2)"
    and app: "(if valid = [] then cat_ok () else bind_cat (?client target) (?app target valid)) w2 = (Ok (Inr ()), w')"
    by (rule bind_cat_OkE)
  have grp1: "reads_group destID sourceID tenantID DispenserS3Parquet flds w1"
    using grp keepsD [OF keeps_resolve_parquet res] by (simp add: reads_group_def only_counts_def)
  have "set valid \<subseteq> set flds" using clean_result [OF clean] by (simp add: cleaned_def)
  then have db: "\<forall>f\<in>set valid. DatabaseName (TenantID f) = DatabaseName tenantID"
    using grp by (auto simp: reads_group_def list_all_iff in_group_def)
  show ?thesis
  proof (cases "valid = []")
    case True
    with app show ?thesis by (intro apply_covers [OF clean grp1 f, of w' "cat_ok ()"]) simp
  next
    case False
    then obtain client where "?client target w2 = (Ok (Inr (?ops target client)), w2)" and app: "?app target valid (?ops target client) w2 = (Ok (Inr ()), w')"
      using app by (auto elim!: bind_cat_OkE simp: cat_map_error_Inr createCustomerAthenaClient_def split: if_splits option.splits)
    then show ?thesis using db
      by (intro apply_covers [OF clean grp1 f, of w' "?app target valid (?ops target client)"])
         (auto intro: customer.keeps_flags_preflight customer.preflight_triple)
  qed
qed

text \<open>C23: When a group of unapplied fields is processed without an error, none of its rows is left unapplied, and
  for every field of the group with a usable name there is an applied row of the same destination, source,
  tenant and dispenser whose name is the same up to case: rejected duplicates are the only usable rows that
  are deleted.
\<close>

theorem catalog_process_complete:
  assumes "d = DispenserDatabahnStorage \<or> d = DispenserS3Parquet"
    and "reads_group destID sourceID tenantID d flds w"
    and "catalog_process env d destID sourceID tenantID flds w = (Ok (Inr ()), w')"
  shows "(\<forall>r\<in>set (cw_rows w'). row_id r \<in> ID ` set flds \<longrightarrow> row_applied r)
     \<and> (\<forall>f\<in>set flds. usable_name (Name f) \<longrightarrow> covered destID sourceID tenantID d row_applied w' f)"
proof -
  have tenant: "\<forall>f\<in>set flds. TenantID f = tenantID"
    using assms(2) by (auto simp: reads_group_def list_all_iff in_group_def)
  have ne: "DispenserS3Parquet \<noteq> DispenserDatabahnStorage" by (simp add: DispenserS3Parquet_def DispenserDatabahnStorage_def)
  have "all_applied flds w'"
    using assms(3) storage.process_done [OF reads_group_match [OF assms(2)] tenant, of env destID sourceID w']
      parquet.process_done [OF reads_group_match [OF assms(2)] tenant, of env destID sourceID w']
    by (simp add: catalog_process_def split: if_splits)
  moreover have "covered destID sourceID tenantID d row_applied w' f" if "f \<in> set flds" "usable_name (Name f)" for f
    using assms(1)
  proof
    assume d: "d = DispenserDatabahnStorage"
    show ?thesis using storage_covers [OF _ assms(2) [unfolded d] that] assms(3) by (simp add: catalog_process_def d)
  next
    assume d: "d = DispenserS3Parquet"
    show ?thesis using parquet_covers [OF _ assms(2) [unfolded d] that] assms(3) ne by (simp add: catalog_process_def d)
  qed
  ultimately show ?thesis by (simp add: all_applied_def)
qed

section \<open>A run\<close>

definition sample_athena :: athena_env where
  "sample_athena = \<lparr>ae_load = (\<lambda>_. None), ae_start = (\<lambda>_ _ _ _ _. Inr ''execution''), ae_status = (\<lambda>_ _ _. Inr Succeeded),
     ae_results = (\<lambda>_ _ _ _. Inr ([[Some ''col_name''], [Some ''ip'', Some ''string'']], None)),
     ae_now = (\<lambda>_. 0), ae_done = (\<lambda>_. None), ae_fuel = 2\<rparr>"

definition sample_env :: catalog_env where
  "sample_env = \<lparr>ce_athena = sample_athena, ce_fault = (\<lambda>_. None), ce_order = (\<lambda>xs. xs), ce_store = (\<lambda>_ _ _. Inr ''st''),
     ce_data_set = (\<lambda>_ _ _. Inr ''{}''),
     ce_search_config = (\<lambda>_. Inr \<lparr>AthenaTable = ''logs'', S3Location = ''s3://b/x'', DatabahnStorageRegion = ''us''\<rparr>),
     ce_destination = (\<lambda>_ _ _. Inl ''none''), ce_wrapper = (\<lambda>_. Inl ''none''), ce_backend_secret = (\<lambda>_ _. Inl ''none''),
     ce_read_secret = (\<lambda>_ _ _. Inl ''none''), ce_secret_map = (\<lambda>_. Inl ''none''), ce_app_region = ''us'',
     ce_base_config = (\<lambda>_. None)\<rparr>"

definition sample_row :: "int \<Rightarrow> string \<Rightarrow> catalog_row" where
  "sample_row i name = \<lparr>row_field = \<lparr>ID = i, Name = name, FieldType = ''string'', SourceID = ''s'', DestID = ''d'', TenantID = ''t''\<rparr>,
     row_dispenser = DispenserDatabahnStorage, row_applied = False, row_engine = ''''\<rparr>"

definition sample_world :: catalog_world where
  "sample_world = \<lparr>cw_rows = [sample_row 1 ''IP'', sample_row 2 ''user_name'', sample_row 3 ''ip'', sample_row 4 ''select''],
     cw_operations = 0, cw_athena = []\<rparr>"

lemma sample_job_run:
  "map (\<lambda>r. (row_id r, row_applied r)) (cw_rows (snd (catalog_job sample_env DispenserDatabahnStorage sample_world)))
     = [(1, True), (2, True)]"
  by code_simp

lemma sample_conditions:
  "range_order (ce_order sample_env)" "distinct (map row_id (cw_rows sample_world))"
  "\<forall>r\<in>set (cw_rows sample_world). plain_ids (row_field r)"
  by (simp_all add: sample_env_def sample_world_def sample_row_def plain_ids_def)

theorem catalog_job_safe_witness:
  "\<exists>r w'. catalog_job sample_env DispenserDatabahnStorage sample_world = (r, w')
     \<and> map (\<lambda>r. (row_id r, row_applied r)) (cw_rows w') = [(1, True), (2, True)]
     \<and> justified (cw_athena w') (row_field (sample_row 2 ''user_name''))"
proof -
  obtain r w' where run: "catalog_job sample_env DispenserDatabahnStorage sample_world = (r, w')" by fastforce
  have rows: "map (\<lambda>r. (row_id r, row_applied r)) (cw_rows w') = [(1, True), (2, True)]" using sample_job_run run by simp
  then obtain a x where ax: "cw_rows w' = [a, x]" "row_id x = 2" "row_applied x" by auto
  have "x \<notin> set (cw_rows sample_world)" using ax(3) by (auto simp: sample_world_def sample_row_def)
  moreover have "x \<in> set (cw_rows w')" by (simp add: ax(1))
  ultimately obtain y where y: "y \<in> set (cw_rows sample_world)" "x = y\<lparr>row_applied := True, row_engine := searchEngineAthena\<rparr>"
    "justified (cw_athena w') (row_field y)"
    using catalog_job_safe [OF sample_conditions disjI1 [OF refl] run] by blast
  have "row_id y = 2" using y(2) ax(2) by simp
  then have "y = sample_row 2 ''user_name''" using y(1) by (auto simp: sample_world_def sample_row_def)
  with y(3) run rows show ?thesis by (intro exI [of _ r] exI [of _ w']) simp
qed

lemma sample_process_run:
  "fst (catalog_process sample_env DispenserDatabahnStorage ''d'' ''s'' ''t'' (map row_field (cw_rows sample_world)) sample_world)
     = Ok (Inr ())"
  by code_simp

theorem catalog_process_complete_witness:
  "\<exists>w'. catalog_process sample_env DispenserDatabahnStorage ''d'' ''s'' ''t'' (map row_field (cw_rows sample_world)) sample_world
       = (Ok (Inr ()), w')
     \<and> reads_group ''d'' ''s'' ''t'' DispenserDatabahnStorage (map row_field (cw_rows sample_world)) sample_world
     \<and> covered ''d'' ''s'' ''t'' DispenserDatabahnStorage row_applied w' (row_field (sample_row 3 ''ip''))"
proof -
  obtain w' where run: "catalog_process sample_env DispenserDatabahnStorage ''d'' ''s'' ''t''
      (map row_field (cw_rows sample_world)) sample_world = (Ok (Inr ()), w')"
    using sample_process_run by (metis fst_conv surj_pair)
  have grp: "reads_group ''d'' ''s'' ''t'' DispenserDatabahnStorage (map row_field (cw_rows sample_world)) sample_world"
    by (simp add: reads_group_def sample_world_def sample_row_def in_group_def)
  have "usable_name (Name (row_field (sample_row 3 ''ip'')))" by code_simp
  moreover have "row_field (sample_row 3 ''ip'') \<in> set (map row_field (cw_rows sample_world))"
    by (simp add: sample_world_def)
  ultimately show ?thesis
    using catalog_process_complete [OF disjI1 [OF refl] grp run] run grp by blast
qed


section \<open>A database error that is taken for a missing table\<close>

text \<open>
  A failing query of the validation whose message says that something does not exist counts as a missing
  Athena table: the group is skipped and the job reports no error.
\<close>

definition broken_env :: catalog_env where
  "broken_env = sample_env\<lparr>ce_fault := (\<lambda>n. if n = 3 then Some ''column search_engine does not exist'' else None)\<rparr>"

lemma database_error_is_skipped:
  "fst (catalog_job broken_env DispenserDatabahnStorage sample_world) = Ok NewJobResultSuccess"
  by code_simp

end
