(* ===== verification/Alert_World.thy ===== *)
theory Alert_World
  imports Notif_Reminder Open_Search Util_Slice Job_Result
begin

text \<open>
  What the alert jobs of \<open>internal/cp_alerts/jobs\<close> share: the alert configuration of an entity
  (\<open>cp_alerts/entities/entity_alerts_config.go\<close>), the builder of alerts (\<open>alerts_async\<close>), the alerts manager
  (\<open>cp_alerts/alert/alerts_manager.go\<close>), the values of aggregations (\<open>aggregation_values.go\<close>) and the state.

  \<open>alert_world\<close> is the part of the state every job has: the calls made to OpenSearch, the messages handed to
  Kafka (sending is asynchronous and does not fail), the number of database operations, and how often the
  clock was read; a job extends it by its tables.  \<open>alert_env\<close> holds what is outside: the answers of
  OpenSearch, the failing database operations, the clock, the decoder of alert documents and the hash.
\<close>

section \<open>Alert configuration\<close>

record Duration =
  DurTime :: int
  Interval :: string

text \<open>\<open>Inl\<close> is the error; products of durations wrap around at 64 bits.\<close>

definition GetDuration :: "Duration \<Rightarrow> go_error + duration" where
  "GetDuration d =
     (if Interval d = ''MINUTE'' then Inr (wrap64 (DurTime d * Minute))
      else if Interval d = ''HOUR'' then Inr (wrap64 (DurTime d * Hour))
      else if Interval d = ''DAY'' then Inr (wrap64 (wrap64 (DurTime d * Hour) * 24))
      else if Interval d = ''WEEK'' then Inr (wrap64 (wrap64 (wrap64 (DurTime d * Hour) * 24) * 7))
      else Inl (''invalid interval: '' @ Interval d))"

text \<open>An inactivity configuration holds an optional duration; the parts of other jobs are not read here.\<close>

record AlertConfig =
  Enabled :: bool
  LogSourceInactivityAlertConfig :: "Duration option option"
  DestinationInactivityAlertConfig :: "Duration option option"

record EntityAlertsConfig =
  EntityID :: string
  EntityType :: string
  EcAlertType :: string
  EcTenantID :: string
  Config :: "AlertConfig option"

definition LogSourceEntityType :: string where "LogSourceEntityType = ''LOG_SOURCE''"
definition DestinationEntityType :: string where "DestinationEntityType = ''DESTINATION''"

section \<open>State and environment\<close>

datatype alert_message = SendAlert Alert | AutoResolve string

record alert_world =
  aw_calls :: "ext_call list"
  aw_sent :: "alert_message list"
  aw_operations :: nat
  aw_clock :: nat

record AlertDocument =
  DocId :: string
  DocEntityId :: string

record alert_env =
  al_client :: ext_client
  al_fault :: "nat \<Rightarrow> go_error option"
  al_now :: "nat \<Rightarrow> go_time"
  al_decode :: "json_map list \<Rightarrow> go_error + AlertDocument list"
  al_sha256 :: "string \<Rightarrow> string"
  al_fuel :: nat

definition now_utc :: "'e alert_env_scheme \<Rightarrow> ('t alert_world_scheme, go_time) eff" where
  "now_utc env w = (Ok (al_now env (aw_clock w)), w\<lparr>aw_clock := Suc (aw_clock w)\<rparr>)"

definition al_query :: "'e alert_env_scheme \<Rightarrow> ('t alert_world_scheme \<Rightarrow> 'a) \<Rightarrow> ('t alert_world_scheme, 'a) eff" where
  "al_query env f w =
     (let w' = w\<lparr>aw_operations := Suc (aw_operations w)\<rparr> in
      case al_fault env (aw_operations w) of Some e \<Rightarrow> (Err e, w') | None \<Rightarrow> (Ok (f w), w'))"

definition al_update ::
  "'e alert_env_scheme \<Rightarrow> ('t alert_world_scheme \<Rightarrow> 't alert_world_scheme) \<Rightarrow> ('t alert_world_scheme, unit) eff" where
  "al_update env f w =
     (let w' = w\<lparr>aw_operations := Suc (aw_operations w)\<rparr> in
      case al_fault env (aw_operations w) of Some e \<Rightarrow> (Err e, w') | None \<Rightarrow> (Ok (), f w'))"

definition al_search :: "'a ext \<Rightarrow> ('t alert_world_scheme, 'a) eff" where
  "al_search m w = (case m (aw_calls w) of (r, h) \<Rightarrow> (r, w\<lparr>aw_calls := h\<rparr>))"

definition al_send :: "alert_message \<Rightarrow> ('t alert_world_scheme, unit) eff" where
  "al_send m w = (Ok (), w\<lparr>aw_sent := aw_sent w @ [m]\<rparr>)"

definition al_result :: "go_error + 'a \<Rightarrow> ('t alert_world_scheme, 'a) eff" where
  "al_result r = (case r of Inl e \<Rightarrow> eff_fail e | Inr x \<Rightarrow> eff_return x)"

text \<open>\<open>time.Time.Sub\<close> saturates at the limits of a duration.\<close>

definition time_sub :: "go_time \<Rightarrow> go_time \<Rightarrow> duration" where
  "time_sub t u = max (- (2 ^ 63)) (min (2 ^ 63 - 1) (t - u))"

section \<open>Building alerts\<close>

record AlertEntity =
  GetEntityId :: string
  GetEntityName :: string
  GetDataPlaneId :: string
  GetTenantId :: string
  GetSecondaryEntityId :: string

record alert_options =
  OptFunctionality :: string
  OptEntity :: AlertEntity
  OptCriticality :: string
  OptFunctionalityType :: string
  OptTitle :: string
  OptMessage :: string
  OptErrorCode :: string
  OptErrorTemplate :: string
  OptErrorParam :: string
  OptAction :: string

definition validateAlert :: "Alert \<Rightarrow> go_error option" where
  "validateAlert a =
     (if Functionality a = '''' then Some ''functionality is required for alert''
      else if Criticality a = '''' then Some ''criticality is required for alert''
      else if Title a = '''' then Some ''title is required for alert''
      else if AlertMessage a = '''' then Some ''message is required for alert''
      else if AlertTenantId a = '''' then Some ''tenant id is required for alert''
      else if FunctionalityEntityId a = '''' then Some ''entity id is required for alert''
      else if FunctionalityEntityName a = '''' then Some ''entity name is required for alert''
      else if FunctionalityType a = '''' then Some ''functionality type is required for alert''
      else if ErrorCode a = '''' then Some ''error code is required for alert''
      else None)"

definition id_text :: "Alert \<Rightarrow> string" where
  "id_text a =
     ''tenantId='' @ AlertTenantId a @ ''&entityId='' @ FunctionalityEntityId a @ ''&entityName='' @ FunctionalityEntityName a
       @ ''&functionality='' @ Functionality a @ ''&type='' @ FunctionalityType a
       @ (if SecondaryEntityId a \<noteq> '''' then ''&secondaryEntityId='' @ SecondaryEntityId a else '''')"

text \<open>The time of the alert is read first; an open alert has status 1 and the type \<open>external\<close>.\<close>

definition built_alert :: "go_time \<Rightarrow> alert_options \<Rightarrow> Alert" where
  "built_alert now opts =
     \<lparr>AlertId = '''', Criticality = OptCriticality opts, Title = OptTitle opts, AlertMessage = OptMessage opts,
      CreatedAt = unix_milli now, UpdatedAt = unix_milli now, FirstObservedAt = unix_milli now, LastObservedAt = unix_milli now,
      AlertTenantId = GetTenantId (OptEntity opts), Functionality = OptFunctionality opts,
      FunctionalityEntityId = GetEntityId (OptEntity opts), FunctionalityEntityName = GetEntityName (OptEntity opts),
      FunctionalityType = OptFunctionalityType opts, AlertStatus = 1, UpdatedBy = '''', Dismissed = False, AlertType = '''',
      ErrorMessage = go_replace_all (OptErrorTemplate opts) ''{0}'' (OptErrorParam opts), ErrorCode = OptErrorCode opts,
      DataPlaneId = GetDataPlaneId (OptEntity opts), SecondaryEntityId = GetSecondaryEntityId (OptEntity opts),
      AlertAction = OptAction opts, LastActivationTime = 0, NotificationCount = 0, LastNotificationTime = 0\<rparr>"

definition NewAlert :: "'e alert_env_scheme \<Rightarrow> alert_options \<Rightarrow> ('t alert_world_scheme, Alert) eff" where
  "NewAlert env opts =
     bind_eff (now_utc env) (\<lambda>now.
       let alert = built_alert now opts
       in case validateAlert alert of
            Some e \<Rightarrow> eff_fail e
          | None \<Rightarrow> eff_return (alert\<lparr>AlertId := al_sha256 env (id_text alert), AlertType := ''external''\<rparr>))"

section \<open>The alerts manager\<close>

fun SendAlerts :: "Alert list \<Rightarrow> ('t alert_world_scheme, unit) eff" where
  "SendAlerts [] = eff_return ()"
| "SendAlerts (a # alerts) = bind_eff (al_send (SendAlert a)) (\<lambda>_. SendAlerts alerts)"

fun AutoResolveAlerts :: "string list \<Rightarrow> ('t alert_world_scheme, unit) eff" where
  "AutoResolveAlerts [] = eff_return ()"
| "AutoResolveAlerts (i # alertIds) = bind_eff (al_send (AutoResolve i)) (\<lambda>_. AutoResolveAlerts alertIds)"

section \<open>Values of aggregations\<close>

definition stringFromAny :: "json \<Rightarrow> string option" where
  "stringFromAny v = (case v of JStr s \<Rightarrow> Some s | _ \<Rightarrow> None)"

text \<open>A number decoded from JSON is a finite float.\<close>

definition float64FromAny :: "json \<Rightarrow> rat option" where
  "float64FromAny v = (case v of JNum n \<Rightarrow> Some n | _ \<Rightarrow> None)"

definition aggKeyString_jobs :: "json_map \<Rightarrow> string \<Rightarrow> string option" where
  "aggKeyString_jobs m key = (case map_of m key of None \<Rightarrow> None | Some v \<Rightarrow> stringFromAny v)"

definition aggValueFloat64 :: "json_map \<Rightarrow> string \<Rightarrow> rat option" where
  "aggValueFloat64 m key = (case map_of m key of None \<Rightarrow> None | Some v \<Rightarrow> float64FromAny v)"

definition unixMilliUTCFromFloat64 :: "rat \<Rightarrow> go_time option" where
  "unixMilliUTCFromFloat64 ms =
     (if ms < 0 then None else if ms > 10 ^ 15 then None else Some (from_unix_milli \<lfloor>ms\<rfloor>))"

section \<open>Pages of an aggregation\<close>

text \<open>
  \<^verbatim>\<open>for { responses, newAfter, err := fetch(after); ...; after = newAfter }\<close>: every response of every page
  is put into the result until a page is empty; \<open>None\<close> is a panic of the body.
\<close>

fun put_responses :: "(AggResponse \<Rightarrow> 'm \<Rightarrow> 'm option) \<Rightarrow> AggResponse list \<Rightarrow> 'm \<Rightarrow> 'm option" where
  "put_responses put [] acc = Some acc"
| "put_responses put (r # rs) acc = (case put r acc of None \<Rightarrow> None | Some acc' \<Rightarrow> put_responses put rs acc')"

fun agg_pages ::
  "nat \<Rightarrow> (json_map option \<Rightarrow> (AggResponse list \<times> json_map option) ext) \<Rightarrow> (AggResponse \<Rightarrow> 'm \<Rightarrow> 'm option)
     \<Rightarrow> json_map option \<Rightarrow> 'm \<Rightarrow> ('t alert_world_scheme, 'm) eff" where
  "agg_pages 0 fetch put after acc = eff_out_of_fuel"
| "agg_pages (Suc fuel) fetch put after acc =
     bind_eff (al_search (fetch after)) (\<lambda>(responses, newAfter).
       if responses = [] then eff_return acc
       else (case put_responses put responses acc of
               None \<Rightarrow> eff_panic
             | Some acc' \<Rightarrow> agg_pages fuel fetch put newAfter acc'))"

definition last_event_agg :: "string \<Rightarrow> AggregationFunction" where
  "last_event_agg field = \<lparr>Function = ''max'', AggField = field, AggName = ''last_event_time''\<rparr>"

definition StatisticsIndexAlias :: "string \<Rightarrow> string" where
  "StatisticsIndexAlias tenantId = ''db_statistics_alias_'' @ tenantId"

section \<open>Errors, times and quotes in texts\<close>

text \<open>\<^verbatim>\<open>fmt.Sprintf("...: %v", err)\<close> around a failing call.\<close>

definition wrap_eff :: "string \<Rightarrow> ('s, 'a) eff \<Rightarrow> ('s, 'a) eff" where
  "wrap_eff prefix m w = (case m w of (Err e, w') \<Rightarrow> (Err (prefix @ e), w') | (r, w') \<Rightarrow> (r, w'))"

definition quoted :: "string \<Rightarrow> string" where
  "quoted s = [CHR 0x27] @ s @ [CHR 0x27]"

definition time_minute :: "go_time \<Rightarrow> int" where
  "time_minute t = (t mod Hour) div Minute"

definition time_second :: "go_time \<Rightarrow> int" where
  "time_second t = (t mod Minute) div Second"

text \<open>The layout \<open>time.RFC3339\<close> for a time in UTC and a year from 0 to 9999.\<close>

definition HumanReadableTimeWithZone :: "go_time \<Rightarrow> string" where
  "HumanReadableTimeWithZone t =
     pad_zeros 4 (time_year t) @ ''-'' @ pad_zeros 2 (time_month t) @ ''-'' @ pad_zeros 2 (time_day t) @ ''T'' @
     pad_zeros 2 (time_hour t) @ '':'' @ pad_zeros 2 (time_minute t) @ '':'' @ pad_zeros 2 (time_second t) @ ''Z''"

section \<open>Resolving the alerts of active entities\<close>

definition AlertsIndex :: string where "AlertsIndex = ''db_alerts''"

definition open_alerts_query :: "string \<Rightarrow> string list \<Rightarrow> string \<Rightarrow> string" where
  "open_alerts_query tenantId ids types =
     ''tenantId:'' @ tenantId @ '' AND dismissed:false AND functionalityEntityId:'' @ ''('' @ go_join '' OR '' ids @ '')''
       @ '' AND functionalityType:('' @ types @ '')''"

text \<open>
  The loop of every alert job over the parts of its active entities: the open alerts of a part are fetched,
  and those whose entity is active are collected for dismissal.
\<close>

fun collect_open ::
  "(string list \<Rightarrow> ('w, AlertDocument list) eff) \<Rightarrow> string list \<Rightarrow> string list list \<Rightarrow> string list \<Rightarrow> ('w, string list) eff" where
  "collect_open fetch active [] alertsToDismiss = eff_return alertsToDismiss"
| "collect_open fetch active (part # parts) alertsToDismiss =
     bind_eff (fetch part) (\<lambda>alerts.
       collect_open fetch active parts
         (alertsToDismiss @ map DocId (filter (\<lambda>a. DocEntityId a \<in> set active) alerts)))"

section \<open>Building all alerts, and the loop over the tenants\<close>

fun build_all :: "('x \<Rightarrow> ('w, Alert) eff) \<Rightarrow> 'x list \<Rightarrow> ('w, Alert list) eff" where
  "build_all build [] = eff_return []"
| "build_all build (x # xs) = bind_eff (build x) (\<lambda>a. bind_eff (build_all build xs) (\<lambda>alerts. eff_return (a # alerts)))"

fun each_tenant :: "(string \<Rightarrow> ('w, unit) eff) \<Rightarrow> string list \<Rightarrow> ('w, unit) eff" where
  "each_tenant f [] = eff_return ()"
| "each_tenant f (t # tenants) = bind_eff (f t) (\<lambda>_. each_tenant f tenants)"

text \<open>The first error ends the job and is its result.\<close>

definition job_of :: "('w, unit) eff \<Rightarrow> ('w, JobResult) eff" where
  "job_of m = bind_eff (try_eff m) (\<lambda>r. case r of
     Inl e \<Rightarrow> eff_return (NewJobResultFromErrors [\<lparr>Message = e\<rparr>]) | Inr _ \<Rightarrow> eff_return NewJobResultSuccess)"

lemma wrap_eff_Ok: "wrap_eff p m w = (Ok x, w') \<longleftrightarrow> m w = (Ok x, w')"
  by (auto simp: wrap_eff_def split: prod.splits outcome.splits)

lemma wrap_eff_state: "snd (wrap_eff p m w) = snd (m w)"
  by (auto simp: wrap_eff_def split: prod.splits outcome.splits)

end
