(* ===== verification/Inactive_Store.thy ===== *)
theory Inactive_Store
  imports Alert_World
begin

text \<open>
  What the inactivity jobs read and write: the queries of \<open>store/source/logSource.go\<close>, the models of
  \<open>cp_alerts/model/inactive_source.go\<close> and the tracker of silent agents
  (\<open>cp_alerts/jobs/unhealthy_source_tracker.go\<close>).

  The tables are part of the state.  A query without an order returns its rows in an order of the
  database's choice: \<open>ie_rows n\<close> is the order in which operation \<open>n\<close> returns them; so does the
  loop over the tracker's map, whose order is \<open>ie_tracker_rows\<close>.  \<open>ie_float_overflow\<close> is the value of a float outside
  the range of 64-bit integers converted to one, which the language leaves open.  The joins that give the
  fleets and agents of a source are tables of their results.
\<close>

section \<open>Tables and environment\<close>

record Source =
  SrcID :: string
  SrcName :: string
  Scope :: string
  SrcStatus :: string
  SrcTenantID :: string
  SrcUpdatedAt :: go_time
  SrcDataPlaneId :: string

record SourceFleetInfo =
  FleetId :: string
  FleetName :: string

record SourceAgentInfo =
  AgentId :: string
  AgentName :: string

record silent_source_row =
  SsId :: string
  SsTenantId :: string
  SsAgentId :: string
  SsSourceId :: string
  SsSourceName :: string
  SsLastInactive :: int
  SsCreatedAt :: go_time
  SsUpdatedAt :: go_time

record Destination =
  DstID :: string
  DstName :: string
  DstStatus :: string
  DstTenantID :: string
  DstDataPlaneId :: string

record InactiveAgentInfo =
  IaAgentId :: string
  IaAgentName :: string
  IaLastEventTime :: go_time

record SourceUnhealthyData =
  UnhealthySourceName :: string
  UnhealthyAgents :: "InactiveAgentInfo list"

record inactive_world = alert_world +
  iw_tenants :: "(string \<times> bool) list"
  iw_sources :: "Source list"
  iw_destinations :: "Destination list"
  iw_configs :: "EntityAlertsConfig list"
  iw_fleets :: "(string \<times> SourceFleetInfo) list"
  iw_agents :: "(string \<times> SourceAgentInfo) list"
  iw_silent :: "silent_source_row list"

record inactive_env = alert_env +
  ie_rows :: "nat \<Rightarrow> Source list \<Rightarrow> Source list"
  ie_destination_rows :: "nat \<Rightarrow> Destination list \<Rightarrow> Destination list"
  ie_tracker_rows :: "(string \<times> SourceUnhealthyData) list \<Rightarrow> (string \<times> SourceUnhealthyData) list"
  ie_uuid :: "nat \<Rightarrow> string"
  ie_getenv :: "string \<Rightarrow> string"
  ie_float_overflow :: "rat \<Rightarrow> int"
  ie_app_url :: string
  ie_client_ok :: bool
  ie_manager :: "go_error option"

type_synonym 'a inact = "(inactive_world, 'a) eff"

definition GetTenants :: "inactive_env \<Rightarrow> string list inact" where
  "GetTenants env = al_query env (\<lambda>w. map fst (filter snd (iw_tenants w)))"

definition ReadEntityConfigs :: "inactive_env \<Rightarrow> string \<Rightarrow> string \<Rightarrow> string \<Rightarrow> string list \<Rightarrow> EntityAlertsConfig list inact" where
  "ReadEntityConfigs env entityType alertType tenantId entityIds =
     al_query env (\<lambda>w. filter (\<lambda>c. EcTenantID c = tenantId \<and> EntityType c = entityType \<and> EcAlertType c = alertType
        \<and> EntityID c \<in> set entityIds) (iw_configs w))"

definition source_rows :: "string \<Rightarrow> string list \<Rightarrow> inactive_world \<Rightarrow> Source list" where
  "source_rows tenantId statuses w = filter (\<lambda>s. SrcTenantID s = tenantId \<and> SrcStatus s \<in> set statuses) (iw_sources w)"

definition ReadSourcesPaginated :: "inactive_env \<Rightarrow> string \<Rightarrow> nat \<Rightarrow> nat \<Rightarrow> string list \<Rightarrow> Source list inact" where
  "ReadSourcesPaginated env tenantId page pageSize statuses =
     al_query env (\<lambda>w. take pageSize (drop (page * pageSize) (ie_rows env (aw_operations w) (source_rows tenantId statuses w))))"

definition getAllLogSourcesOfTenant :: "inactive_env \<Rightarrow> string \<Rightarrow> Source list inact" where
  "getAllLogSourcesOfTenant env tenantId =
     al_query env (\<lambda>w. ie_rows env (aw_operations w) (source_rows tenantId [''ACTIVE'', ''ERRORED'', ''DEPLOYING''] w))"

definition GetFleetsBySourceIDs :: "inactive_env \<Rightarrow> string list \<Rightarrow> (string \<times> SourceFleetInfo list) list inact" where
  "GetFleetsBySourceIDs env sourceIDs =
     (if sourceIDs = [] then eff_return []
      else wrap_eff ''error getting fleets for sources: ''
        (al_query env (\<lambda>w. fold (\<lambda>r. group_append (fst r) (snd r)) (filter (\<lambda>r. fst r \<in> set sourceIDs) (iw_fleets w)) [])))"

definition GetAgentsBySourceIDs :: "inactive_env \<Rightarrow> string list \<Rightarrow> (string \<times> SourceAgentInfo list) list inact" where
  "GetAgentsBySourceIDs env sourceIDs =
     (if sourceIDs = [] then eff_return []
      else wrap_eff ''error getting agents for sources: ''
        (al_query env (\<lambda>w. fold (\<lambda>r. group_append (fst r) (snd r)) (filter (\<lambda>r. fst r \<in> set sourceIDs) (iw_agents w)) [])))"

section \<open>Inactive sources\<close>

record InActiveSource =
  IasSource :: Source
  IasLastEventTime :: go_time
  IasAlertDuration :: duration
  IasCheckedAt :: go_time
  IasFleetId :: string
  IasFleetName :: string
  GroupedInactiveAgents :: "InactiveAgentInfo list"
  IsGroupedAgentAlert :: bool

definition NewInActiveSource :: "inactive_env \<Rightarrow> Source \<Rightarrow> go_time \<Rightarrow> duration \<Rightarrow> InActiveSource inact" where
  "NewInActiveSource env src lastEventTime alertDuration =
     bind_eff (now_utc env) (\<lambda>now. eff_return
       \<lparr>IasSource = src, IasLastEventTime = lastEventTime, IasAlertDuration = alertDuration, IasCheckedAt = now,
        IasFleetId = '''', IasFleetName = '''', GroupedInactiveAgents = [], IsGroupedAgentAlert = False\<rparr>)"

definition NewInActiveSourceWithFleet ::
  "inactive_env \<Rightarrow> Source \<Rightarrow> go_time \<Rightarrow> duration \<Rightarrow> string \<Rightarrow> string \<Rightarrow> InActiveSource inact" where
  "NewInActiveSourceWithFleet env src lastEventTime alertDuration fleetId fleetName =
     bind_eff (now_utc env) (\<lambda>now. eff_return
       \<lparr>IasSource = src, IasLastEventTime = lastEventTime, IasAlertDuration = alertDuration, IasCheckedAt = now,
        IasFleetId = fleetId, IasFleetName = fleetName, GroupedInactiveAgents = [], IsGroupedAgentAlert = False\<rparr>)"

definition NewInActiveSourceWithGroupedAgents ::
  "inactive_env \<Rightarrow> Source \<Rightarrow> go_time \<Rightarrow> duration \<Rightarrow> InactiveAgentInfo list \<Rightarrow> InActiveSource inact" where
  "NewInActiveSourceWithGroupedAgents env src lastEventTime alertDuration inactiveAgents =
     bind_eff (now_utc env) (\<lambda>now. eff_return
       \<lparr>IasSource = src, IasLastEventTime = lastEventTime, IasAlertDuration = alertDuration, IasCheckedAt = now,
        IasFleetId = '''', IasFleetName = '''', GroupedInactiveAgents = inactiveAgents, IsGroupedAgentAlert = True\<rparr>)"

definition source_entity :: "InActiveSource \<Rightarrow> AlertEntity" where
  "source_entity ias =
     \<lparr>GetEntityId = SrcID (IasSource ias), GetEntityName = SrcName (IasSource ias), GetDataPlaneId = SrcDataPlaneId (IasSource ias),
      GetTenantId = SrcTenantID (IasSource ias),
      GetSecondaryEntityId = (if Scope (IasSource ias) = ''FLEET'' then IasFleetId ias else '''')\<rparr>"

definition IsFleetScoped :: "InActiveSource \<Rightarrow> bool" where
  "IsFleetScoped ias \<longleftrightarrow> IasFleetId ias \<noteq> ''''"

definition InactivityDurationStr :: "InActiveSource \<Rightarrow> string" where
  "InactivityDurationStr ias = HumanReadableDuration (time_sub (IasCheckedAt ias) (IasLastEventTime ias))"

definition AlertConfigDurationStr :: "InActiveSource \<Rightarrow> string" where
  "AlertConfigDurationStr ias = HumanReadableDuration (IasAlertDuration ias)"

section \<open>The tracker of silent agents\<close>

record AgentUnhealthySourceTracker =
  sourceUnhealthyAgents :: "(string \<times> SourceUnhealthyData) list"
  processedSourceIds :: "string list"

definition NewAgentUnhealthySourceTracker :: AgentUnhealthySourceTracker where
  "NewAgentUnhealthySourceTracker = \<lparr>sourceUnhealthyAgents = [], processedSourceIds = []\<rparr>"

definition MarkSourceProcessed :: "string \<Rightarrow> AgentUnhealthySourceTracker \<Rightarrow> AgentUnhealthySourceTracker" where
  "MarkSourceProcessed sourceId t = t\<lparr>processedSourceIds := List.insert sourceId (processedSourceIds t)\<rparr>"

definition AddUnhealthyAgents ::
  "string \<Rightarrow> string \<Rightarrow> InactiveAgentInfo list \<Rightarrow> AgentUnhealthySourceTracker \<Rightarrow> AgentUnhealthySourceTracker" where
  "AddUnhealthyAgents sourceId sourceName agents t =
     (let old = (case map_of (sourceUnhealthyAgents t) sourceId of
                   None \<Rightarrow> \<lparr>UnhealthySourceName = sourceName, UnhealthyAgents = []\<rparr> | Some d \<Rightarrow> d)
      in t\<lparr>processedSourceIds := List.insert sourceId (processedSourceIds t),
           sourceUnhealthyAgents := AList.update sourceId (old\<lparr>UnhealthyAgents := UnhealthyAgents old @ agents\<rparr>) (sourceUnhealthyAgents t)\<rparr>)"

text \<open>A failing insertion is logged and skipped.\<close>

fun insert_silent :: "inactive_env \<Rightarrow> string \<Rightarrow> go_time \<Rightarrow> (string \<times> string \<times> InactiveAgentInfo) list \<Rightarrow> unit inact" where
  "insert_silent env tenantId now [] = eff_return ()"
| "insert_silent env tenantId now ((sourceId, sourceName, agentInfo) # rows) =
     bind_eff (try_eff (al_update env (\<lambda>w. w\<lparr>iw_silent := iw_silent w @
        [\<lparr>SsId = ie_uuid env (aw_operations w), SsTenantId = tenantId, SsAgentId = IaAgentId agentInfo, SsSourceId = sourceId,
          SsSourceName = sourceName, SsLastInactive = unix_milli (IaLastEventTime agentInfo), SsCreatedAt = now, SsUpdatedAt = now\<rparr>]\<rparr>)))
       (\<lambda>_. insert_silent env tenantId now rows)"

definition SaveToDatabase :: "inactive_env \<Rightarrow> AgentUnhealthySourceTracker \<Rightarrow> string \<Rightarrow> unit inact" where
  "SaveToDatabase env t tenantId =
     bind_eff (al_update env (\<lambda>w. w\<lparr>iw_silent := filter (\<lambda>r. SsTenantId r \<noteq> tenantId) (iw_silent w)\<rparr>)) (\<lambda>_.
       if sourceUnhealthyAgents t = [] then eff_return ()
       else bind_eff (now_utc env) (\<lambda>now.
         insert_silent env tenantId now
           (concat (map (\<lambda>(sourceId, d). map (\<lambda>a. (sourceId, UnhealthySourceName d, a)) (UnhealthyAgents d))
             (ie_tracker_rows env (sourceUnhealthyAgents t))))))"

end
