(* ===== verification/Inactive_Source.thy ===== *)
theory Inactive_Source
  imports Inactive_Store
begin

text \<open>
  The job of \<open>internal/cp_alerts/jobs/source_inactivity.go\<close> and the texts of
  \<open>aggregation_alert_grouping.go\<close>: log sources that have not received events for longer than their
  configured duration are alerted, and open alerts of sources that receive events again are resolved.
\<close>

section \<open>Durations and keys\<close>

definition defaultAlertDuration30Min :: duration where
  "defaultAlertDuration30Min = 30 * Minute"

definition defaultRequiredEventsInLastSevenDays :: duration where
  "defaultRequiredEventsInLastSevenDays = 7 * 24 * Hour"

definition sourceFleetKey :: "string \<Rightarrow> string \<Rightarrow> string" where
  "sourceFleetKey sourceId fleetId = sourceId @ ''|'' @ fleetId"

definition sourceAgentKey :: "string \<Rightarrow> string \<Rightarrow> string" where
  "sourceAgentKey sourceId agentId = sourceId @ ''|'' @ agentId"

text \<open>The duration or its error, and whether the source is skipped.\<close>

definition getAlertDuration :: "EntityAlertsConfig \<Rightarrow> (go_error + duration) \<times> bool" where
  "getAlertDuration alertConfig =
     (case Config alertConfig of
        None \<Rightarrow> (Inr defaultAlertDuration30Min, False)
      | Some dbConfig \<Rightarrow>
          if \<not> Enabled dbConfig then (Inr defaultAlertDuration30Min, True)
          else (case LogSourceInactivityAlertConfig dbConfig of
                  None \<Rightarrow> (Inr defaultAlertDuration30Min, False)
                | Some None \<Rightarrow> (Inr defaultAlertDuration30Min, False)
                | Some (Some d) \<Rightarrow> (GetDuration d, False)))"

definition configs_by_id :: "EntityAlertsConfig list \<Rightarrow> string \<rightharpoonup> EntityAlertsConfig" where
  "configs_by_id alertConfigs = map_of (rev (map (\<lambda>c. (EntityID c, c)) alertConfigs))"

text \<open>The duration a source is checked with; \<open>None\<close> when it is passed over.\<close>

definition source_duration :: "(string \<rightharpoonup> EntityAlertsConfig) \<Rightarrow> Source \<Rightarrow> duration option" where
  "source_duration alertConfigsBySourceId s =
     (case alertConfigsBySourceId (SrcID s) of
        Some alertConfig \<Rightarrow>
          (case getAlertDuration alertConfig of
             (Inl _, _) \<Rightarrow> None
           | (Inr d, skip) \<Rightarrow> if skip then None else Some d)
      | None \<Rightarrow> if Scope s = ''AGENT'' then None else Some defaultAlertDuration30Min)"

section \<open>Times of the last events\<close>

type_synonym event_times = "string \<rightharpoonup> go_time"

definition source_stats_query :: string where
  "source_stats_query = ''tags.component_name: \"ingestion\" AND name: \"total_events_delivered\"''"

definition put_source_time :: "AggResponse \<Rightarrow> event_times \<Rightarrow> event_times option" where
  "put_source_time response tms =
     (case (aggKeyString_jobs (RespKey response) ''tags.db_event_source_id.keyword'', aggValueFloat64 (RespValues response) ''last_event_time'') of
        (Some sourceId, Some lastEventVal) \<Rightarrow>
          (case unixMilliUTCFromFloat64 lastEventVal of
             None \<Rightarrow> Some tms
           | Some lastEventTime \<Rightarrow> Some (tms(sourceId \<mapsto> lastEventTime)))
      | _ \<Rightarrow> Some tms)"

definition put_pair_time ::
  "string \<Rightarrow> string \<Rightarrow> (string \<Rightarrow> string \<Rightarrow> string) \<Rightarrow> AggResponse \<Rightarrow> event_times \<Rightarrow> event_times option" where
  "put_pair_time srcField partField key response tms =
     (case (aggKeyString_jobs (RespKey response) srcField, aggKeyString_jobs (RespKey response) partField,
            aggValueFloat64 (RespValues response) ''last_event_time'') of
        (Some sourceId, Some partId, Some lastEventVal) \<Rightarrow>
          if partId = '''' then Some tms
          else (case unixMilliUTCFromFloat64 lastEventVal of
                  None \<Rightarrow> Some tms
                | Some lastEventTime \<Rightarrow> Some (tms(key sourceId partId \<mapsto> lastEventTime)))
      | _ \<Rightarrow> Some tms)"

definition add_onboarded :: "Source list \<Rightarrow> event_times \<Rightarrow> event_times" where
  "add_onboarded sources tms =
     fold (\<lambda>s m. if m (SrcID s) = None then m(SrcID s \<mapsto> SrcUpdatedAt s) else m) sources tms"

definition getSourceIdToLastEventTime :: "inactive_env \<Rightarrow> string \<Rightarrow> Source list \<Rightarrow> event_times inact" where
  "getSourceIdToLastEventTime env tenantId sources =
     bind_eff (agg_pages (al_fuel env)
         (\<lambda>after. CompositePaginatedAggregate (al_client env) 100 (StatisticsIndexAlias tenantId) source_stats_query
            [''tags.db_event_source_id.keyword''] [last_event_agg ''tags.db_ts_win''] after)
         put_source_time None Map.empty) (\<lambda>tms.
       eff_return (add_onboarded sources tms))"

definition getSourceFleetLastEventTimes :: "inactive_env \<Rightarrow> string \<Rightarrow> event_times inact" where
  "getSourceFleetLastEventTimes env tenantId =
     agg_pages (al_fuel env)
       (\<lambda>after. CompositePaginatedAggregate (al_client env) 100 (StatisticsIndexAlias tenantId) source_stats_query
          [''tags.db_event_source_id.keyword'', ''tags.db_fleet_id.keyword''] [last_event_agg ''tags.db_ts_win''] after)
       (put_pair_time ''tags.db_event_source_id.keyword'' ''tags.db_fleet_id.keyword'' sourceFleetKey) None Map.empty"

text \<open>\<^verbatim>\<open>%q\<close> of a tenant id, the text of a UUID, puts it between double quotes.\<close>

definition getSourceAgentLastEventTimes :: "inactive_env \<Rightarrow> string \<Rightarrow> event_times inact" where
  "getSourceAgentLastEventTimes env tenantId =
     (let pageSize = GetEnvInt (ie_getenv env) ''SOURCE_AGENT_COMPOSITE_PAGE_SIZE'' 100;
          q = ''tags.db_tenant_id: \"'' @ tenantId @ ''\" AND tags.component_name: \"agent-ingestion\" AND name: \"total_data_received\"''
      in agg_pages (al_fuel env)
           (\<lambda>after. CompositePaginatedAggregate (al_client env) pageSize ''db_statistics_agent'' q
              [''tags.db_event_source_id'', ''tags.db_agent_id''] [last_event_agg ''tags.db_ts_win''] after)
           (put_pair_time ''tags.db_event_source_id'' ''tags.db_agent_id'' sourceAgentKey) None Map.empty)"

section \<open>Finding inactive and active sources\<close>

definition stale :: "go_time \<Rightarrow> go_time \<Rightarrow> bool" where
  "stale now lastEventTime \<longleftrightarrow> lastEventTime < now - defaultRequiredEventsInLastSevenDays"

fun check_fleets ::
  "inactive_env \<Rightarrow> event_times \<Rightarrow> Source \<Rightarrow> duration \<Rightarrow> SourceFleetInfo list \<Rightarrow> InActiveSource list \<Rightarrow> bool \<Rightarrow> bool
     \<Rightarrow> (InActiveSource list \<times> bool \<times> bool) inact" where
  "check_fleets env tms s alertDuration [] sourcesToAlert allFleetsActive atLeastOneFleetActive =
     eff_return (sourcesToAlert, allFleetsActive, atLeastOneFleetActive)"
| "check_fleets env tms s alertDuration (fi # fleets) sourcesToAlert allFleetsActive atLeastOneFleetActive =
     (let fleetLastEventTime = (case tms (sourceFleetKey (SrcID s) (FleetId fi)) of None \<Rightarrow> SrcUpdatedAt s | Some t \<Rightarrow> t)
      in bind_eff (now_utc env) (\<lambda>now.
           if time_sub now fleetLastEventTime > alertDuration then
             if stale now fleetLastEventTime
             then check_fleets env tms s alertDuration fleets sourcesToAlert allFleetsActive atLeastOneFleetActive
             else bind_eff (NewInActiveSourceWithFleet env s fleetLastEventTime alertDuration (FleetId fi) (FleetName fi)) (\<lambda>ias.
                    check_fleets env tms s alertDuration fleets (sourcesToAlert @ [ias]) False atLeastOneFleetActive)
           else check_fleets env tms s alertDuration fleets sourcesToAlert allFleetsActive True))"

record agent_scan =
  inactiveAgentsForAlert :: "InactiveAgentInfo list"
  allInactiveAgents :: "InactiveAgentInfo list"
  earliestTime :: go_time
  allAgentsActive :: bool

fun check_agents ::
  "inactive_env \<Rightarrow> event_times \<Rightarrow> Source \<Rightarrow> duration \<Rightarrow> SourceAgentInfo list \<Rightarrow> agent_scan \<Rightarrow> agent_scan inact" where
  "check_agents env tms s alertDuration [] acc = eff_return acc"
| "check_agents env tms s alertDuration (ai # agents) acc =
     (let agentLastEventTime = (case tms (sourceAgentKey (SrcID s) (AgentId ai)) of None \<Rightarrow> SrcUpdatedAt s | Some t \<Rightarrow> t);
          info = \<lparr>IaAgentId = AgentId ai, IaAgentName = AgentName ai, IaLastEventTime = agentLastEventTime\<rparr>
      in bind_eff (now_utc env) (\<lambda>now.
           if time_sub now agentLastEventTime > alertDuration then
             let acc1 = acc\<lparr>allAgentsActive := False, allInactiveAgents := allInactiveAgents acc @ [info]\<rparr>
             in if stale now agentLastEventTime then check_agents env tms s alertDuration agents acc1
                else check_agents env tms s alertDuration agents
                       (acc1\<lparr>inactiveAgentsForAlert := inactiveAgentsForAlert acc1 @ [info],
                             earliestTime := min agentLastEventTime (earliestTime acc1)\<rparr>)
           else check_agents env tms s alertDuration agents acc))"

type_synonym source_scan = "InActiveSource list \<times> Source list \<times> AgentUnhealthySourceTracker"

definition check_multi_fleet ::
  "inactive_env \<Rightarrow> event_times \<Rightarrow> SourceFleetInfo list \<Rightarrow> Source \<Rightarrow> duration \<Rightarrow> source_scan \<Rightarrow> source_scan inact" where
  "check_multi_fleet env fleetTimes fleets s alertDuration = (\<lambda>(sourcesToAlert, activeSources, tracker).
     bind_eff (check_fleets env fleetTimes s alertDuration fleets sourcesToAlert True False)
       (\<lambda>(sourcesToAlert, allFleetsActive, atLeastOneFleetActive).
          eff_return (sourcesToAlert,
            if allFleetsActive \<and> atLeastOneFleetActive then activeSources @ [s] else activeSources, tracker)))"

definition check_agent_source ::
  "inactive_env \<Rightarrow> event_times \<Rightarrow> SourceAgentInfo list \<Rightarrow> Source \<Rightarrow> duration \<Rightarrow> source_scan \<Rightarrow> source_scan inact" where
  "check_agent_source env agentTimes agents s alertDuration = (\<lambda>(sourcesToAlert, activeSources, tracker).
     let tracker1 = MarkSourceProcessed (SrcID s) tracker
     in bind_eff (now_utc env) (\<lambda>start.
        bind_eff (check_agents env agentTimes s alertDuration agents
            \<lparr>inactiveAgentsForAlert = [], allInactiveAgents = [], earliestTime = start, allAgentsActive = True\<rparr>) (\<lambda>r.
          let tracker2 = (if allInactiveAgents r \<noteq> [] then AddUnhealthyAgents (SrcID s) (SrcName s) (allInactiveAgents r) tracker1
                          else tracker1);
              active = (if allAgentsActive r then activeSources @ [s] else activeSources)
          in if inactiveAgentsForAlert r \<noteq> [] then
               bind_eff (NewInActiveSourceWithGroupedAgents env s (earliestTime r) alertDuration (inactiveAgentsForAlert r)) (\<lambda>ias.
                 eff_return (sourcesToAlert @ [ias], active, tracker2))
             else eff_return (sourcesToAlert, active, tracker2))))"

definition check_plain_source ::
  "inactive_env \<Rightarrow> event_times \<Rightarrow> Source \<Rightarrow> duration \<Rightarrow> source_scan \<Rightarrow> source_scan inact" where
  "check_plain_source env sourceTimes s alertDuration = (\<lambda>(sourcesToAlert, activeSources, tracker).
     (case sourceTimes (SrcID s) of
        None \<Rightarrow> eff_return (sourcesToAlert, activeSources, tracker)
      | Some lastEventTime \<Rightarrow>
          bind_eff (now_utc env) (\<lambda>now.
            if time_sub now lastEventTime > alertDuration then
              if stale now lastEventTime then eff_return (sourcesToAlert, activeSources, tracker)
              else bind_eff (NewInActiveSource env s lastEventTime alertDuration) (\<lambda>ias.
                     eff_return (sourcesToAlert @ [ias], activeSources, tracker))
            else eff_return (sourcesToAlert, activeSources @ [s], tracker))))"

record source_page =
  alertConfigsBySourceId :: "string \<rightharpoonup> EntityAlertsConfig"
  sourceToFleets :: "(string \<times> SourceFleetInfo list) list"
  sourceToAgents :: "(string \<times> SourceAgentInfo list) list"

record source_times =
  sourceIdToLastEventTime :: event_times
  sourceFleetLastEventTimes :: event_times
  sourceAgentLastEventTimes :: event_times

definition check_source ::
  "inactive_env \<Rightarrow> source_times \<Rightarrow> source_page \<Rightarrow> Source \<Rightarrow> source_scan \<Rightarrow> source_scan inact" where
  "check_source env tms pg s acc =
     (case source_duration (alertConfigsBySourceId pg) s of
        None \<Rightarrow> eff_return acc
      | Some alertDuration \<Rightarrow>
          let fleets = group_members (sourceToFleets pg) (SrcID s);
              agents = group_members (sourceToAgents pg) (SrcID s)
          in if Scope s = ''FLEET'' \<and> 1 < length fleets then
               check_multi_fleet env (sourceFleetLastEventTimes tms) fleets s alertDuration acc
             else if Scope s = ''AGENT'' \<and> agents = [] then
               eff_return (case acc of (sourcesToAlert, activeSources, tracker) \<Rightarrow>
                 (sourcesToAlert, activeSources, MarkSourceProcessed (SrcID s) tracker))
             else if Scope s = ''AGENT'' then
               check_agent_source env (sourceAgentLastEventTimes tms) agents s alertDuration acc
             else check_plain_source env (sourceIdToLastEventTime tms) s alertDuration acc)"

fun check_sources ::
  "inactive_env \<Rightarrow> source_times \<Rightarrow> source_page \<Rightarrow> Source list \<Rightarrow> source_scan \<Rightarrow> source_scan inact" where
  "check_sources env tms pg [] acc = eff_return acc"
| "check_sources env tms pg (s # sources) acc =
     bind_eff (check_source env tms pg s acc) (check_sources env tms pg sources)"

text \<open>The reads of one page.\<close>

definition read_source_page :: "inactive_env \<Rightarrow> string \<Rightarrow> Source list \<Rightarrow> source_page inact" where
  "read_source_page env tenantId sources =
     bind_eff (ReadEntityConfigs env LogSourceEntityType ''LOG_SOURCE_INACTIVITY'' tenantId (map SrcID sources)) (\<lambda>alertConfigs.
     bind_eff (GetFleetsBySourceIDs env (map SrcID (filter (\<lambda>s. Scope s = ''FLEET'') sources))) (\<lambda>fleets.
     bind_eff (GetAgentsBySourceIDs env (map SrcID (filter (\<lambda>s. Scope s = ''AGENT'') sources))) (\<lambda>agents.
       eff_return \<lparr>alertConfigsBySourceId = configs_by_id alertConfigs, sourceToFleets = fleets, sourceToAgents = agents\<rparr>)))"

fun source_pages ::
  "nat \<Rightarrow> inactive_env \<Rightarrow> string \<Rightarrow> source_times \<Rightarrow> nat \<Rightarrow> source_scan \<Rightarrow> source_scan inact" where
  "source_pages 0 env tenantId tms page acc = eff_out_of_fuel"
| "source_pages (Suc fuel) env tenantId tms page acc =
     bind_eff (ReadSourcesPaginated env tenantId page 50 [''ACTIVE'', ''ERRORED'', ''DEPLOYING'']) (\<lambda>sources.
       if sources = [] then eff_return acc
       else bind_eff (read_source_page env tenantId sources) (\<lambda>pg.
            bind_eff (check_sources env tms pg sources acc) (source_pages fuel env tenantId tms (Suc page))))"

definition findInactiveAndActiveSources ::
  "inactive_env \<Rightarrow> string \<Rightarrow> source_times \<Rightarrow> AgentUnhealthySourceTracker \<Rightarrow> source_scan inact" where
  "findInactiveAndActiveSources env tenantId tms tracker =
     source_pages (al_fuel env) env tenantId tms 0 ([], [], tracker)"

section \<open>Texts of the alerts\<close>

definition groupedAlertMaxAgentsInMessage :: nat where
  "groupedAlertMaxAgentsInMessage = 2"

record AgentDisplayEntry =
  DispAgentName :: string
  DispLastEventTime :: go_time

record GroupedAgents =
  DisplayEntries :: "AgentDisplayEntry list"
  GroupTotalCount :: nat

definition FormatGroupedAgentsList :: "InactiveAgentInfo list \<Rightarrow> GroupedAgents" where
  "FormatGroupedAgentsList agents =
     \<lparr>DisplayEntries = map (\<lambda>a. \<lparr>DispAgentName = IaAgentName a, DispLastEventTime = IaLastEventTime a\<rparr>)
        (take groupedAlertMaxAgentsInMessage agents),
      GroupTotalCount = length agents\<rparr>"

definition go_trim_right :: "char \<Rightarrow> string \<Rightarrow> string" where
  "go_trim_right c s = rev (dropWhile (\<lambda>x. x = c) (rev s))"

definition BuildAgentListDeepLink :: "string \<Rightarrow> string \<Rightarrow> string" where
  "BuildAgentListDeepLink appUrl silentSourceID =
     (if go_trim_space silentSourceID = '''' then ''''
      else let baseURL = go_trim_space appUrl in
        if baseURL = '''' then ''''
        else let base1 = go_trim_right (CHR ''/'') baseURL;
                 base2 = (if \<not> go_has_prefix base1 ''http://'' \<and> \<not> go_has_prefix base1 ''https://''
                          then ''https://'' @ go_trim_prefix base1 ''/'' else base1)
             in base2 @ ''/agent?'' @ ''silentSourceId='' @ query_escape (go_trim_space silentSourceID))"

definition month_names :: "string list" where
  "month_names = [''Jan'', ''Feb'', ''Mar'', ''Apr'', ''May'', ''Jun'', ''Jul'', ''Aug'', ''Sep'', ''Oct'', ''Nov'', ''Dec'']"

text \<open>The zero time is 1 January of year 1.\<close>

definition zero_time :: go_time where
  "zero_time = - 62135596800 * Second"

definition formatGroupedAlertLastSeen :: "go_time \<Rightarrow> string" where
  "formatGroupedAlertLastSeen t =
     (if t = zero_time then ''unknown''
      else pad_zeros 2 (time_day t) @ '' '' @ month_names ! nat (time_month t - 1) @ '' '' @ pad_zeros 4 (time_year t)
             @ '', '' @ pad_zeros 2 (time_hour t) @ '':'' @ pad_zeros 2 (time_minute t) @ '' UTC'')"

definition FormatGroupedAgentsMessage :: "GroupedAgents \<Rightarrow> string \<Rightarrow> string \<Rightarrow> string" where
  "FormatGroupedAgentsMessage grouped deepLink logSourceName =
     (let agentDetails = map (\<lambda>e. DispAgentName e @ '' (last seen: '' @ formatGroupedAlertLastSeen (DispLastEventTime e) @ '')'')
                           (DisplayEntries grouped);
          agentList = go_join '', '' agentDetails
            @ (if groupedAlertMaxAgentsInMessage < GroupTotalCount grouped
               then '', and '' @ go_itoa (int (GroupTotalCount grouped - groupedAlertMaxAgentsInMessage)) @ '' more'' else '''')
      in ''For log source '' @ quoted logSourceName @ '', the following agents are not sending data: '' @ agentList @ ''.''
           @ (if deepLink \<noteq> '''' then '' Open this URL in a browser to view all affected agents: '' @ deepLink else ''''))"

definition source_action :: "inactive_env \<Rightarrow> InActiveSource \<Rightarrow> string" where
  "source_action env ias =
     (let deepLink = BuildAgentListDeepLink (ie_app_url env) (SrcID (IasSource ias))
      in if IsGroupedAgentAlert ias \<and> deepLink \<noteq> ''''
         then ''Open this URL in a browser to view all affected agents: '' @ deepLink
         else ''Please check log source, fleet, connector etc of the source and devices sending data to the source.'')"

definition source_title :: "InActiveSource \<Rightarrow> string" where
  "source_title ias =
     (let name = quoted (SrcName (IasSource ias)) in
      if IsGroupedAgentAlert ias then
        ''Log Source '' @ name @ '' Inactivity Alert: '' @ go_itoa (int (GroupTotalCount (FormatGroupedAgentsList (GroupedInactiveAgents ias))))
          @ '' agent(s), no data for more than '' @ AlertConfigDurationStr ias
      else if IsFleetScoped ias then
        ''Log Source '' @ name @ '' Inactivity Alert for Fleet '' @ quoted (IasFleetName ias) @ '': No data received for ''
          @ InactivityDurationStr ias
      else ''Log Source '' @ name @ '' Inactivity Alert: No data received for '' @ InactivityDurationStr ias)"

definition source_message :: "inactive_env \<Rightarrow> InActiveSource \<Rightarrow> string" where
  "source_message env ias =
     (if IsGroupedAgentAlert ias then
        FormatGroupedAgentsMessage (FormatGroupedAgentsList (GroupedInactiveAgents ias))
          (BuildAgentListDeepLink (ie_app_url env) (SrcID (IasSource ias))) (SrcName (IasSource ias))
      else if IsFleetScoped ias then
        ''This source is configured to be alerted on not receiving data in last '' @ AlertConfigDurationStr ias @ '' for fleet ''
          @ quoted (IasFleetName ias) @ ''. As of '' @ quoted (HumanReadableTimeWithZone (IasCheckedAt ias))
          @ '' last event from this fleet was received at '' @ quoted (HumanReadableTimeWithZone (IasLastEventTime ias)) @ ''.''
      else
        ''This source is configured to be alerted on not receiving data in last '' @ AlertConfigDurationStr ias
          @ ''. As of '' @ quoted (HumanReadableTimeWithZone (IasCheckedAt ias))
          @ '' last event was received at '' @ quoted (HumanReadableTimeWithZone (IasLastEventTime ias)) @ ''.'')"

definition source_alert_options :: "inactive_env \<Rightarrow> InActiveSource \<Rightarrow> alert_options" where
  "source_alert_options env ias =
     \<lparr>OptFunctionality = (if Scope (IasSource ias) = ''CLOUD'' then ''cloud_log_source'' else ''log_source''),
      OptEntity = source_entity ias, OptCriticality = ''critical'', OptFunctionalityType = ''ingestion_checker'',
      OptTitle = source_title ias, OptMessage = source_message env ias,
      OptErrorCode = ''DNDW10001'', OptErrorTemplate = ''No Data For Logsource Received. {0}'', OptErrorParam = '''',
      OptAction = source_action env ias\<rparr>"

definition buildAlert :: "inactive_env \<Rightarrow> InActiveSource \<Rightarrow> Alert inact" where
  "buildAlert env ias = NewAlert env (source_alert_options env ias)"

section \<open>The job\<close>

definition sendInAppAlerts :: "inactive_env \<Rightarrow> InActiveSource list \<Rightarrow> unit inact" where
  "sendInAppAlerts env sourcesToAlert = bind_eff (build_all (buildAlert env) sourcesToAlert) SendAlerts"

text \<open>The open alerts of some of the active sources, with the errors of the search and of the decoder.\<close>

definition open_source_alerts :: "inactive_env \<Rightarrow> string \<Rightarrow> string list \<Rightarrow> AlertDocument list inact" where
  "open_source_alerts env tenantId sourceIds =
     bind_eff (wrap_eff (''error searching for alerts for tenant '' @ tenantId @ '': '')
         (al_search (Search (al_client env) AlertsIndex
            (open_alerts_query tenantId sourceIds (''ingestion-checker'' @ '' OR '' @ ''ingestion_checker''))))) (\<lambda>openAlerts.
       wrap_eff (''error decoding openSearch response for tenant '' @ tenantId @ '': '') (al_result (al_decode env openAlerts)))"

definition dismiss_source_alerts :: "inactive_env \<Rightarrow> string \<Rightarrow> Source list \<Rightarrow> unit inact" where
  "dismiss_source_alerts env tenantId activeSources =
     bind_eff (collect_open (open_source_alerts env tenantId) (map SrcID activeSources)
         (map (map SrcID) (PartitionSlice activeSources 10)) []) (\<lambda>alertsToDismiss.
       if alertsToDismiss \<noteq> [] then AutoResolveAlerts alertsToDismiss else eff_return ())"

definition source_times_of :: "inactive_env \<Rightarrow> string \<Rightarrow> Source list \<Rightarrow> source_times inact" where
  "source_times_of env tenantId sources =
     bind_eff (wrap_eff (''error getting source event times for tenant '' @ tenantId @ '': '')
         (getSourceIdToLastEventTime env tenantId sources)) (\<lambda>t1.
     bind_eff (wrap_eff (''error getting source-fleet event times for tenant '' @ tenantId @ '': '')
         (getSourceFleetLastEventTimes env tenantId)) (\<lambda>t2.
     bind_eff (wrap_eff (''error getting source-agent event times for tenant '' @ tenantId @ '': '')
         (getSourceAgentLastEventTimes env tenantId)) (\<lambda>t3.
       eff_return \<lparr>sourceIdToLastEventTime = t1, sourceFleetLastEventTimes = t2, sourceAgentLastEventTimes = t3\<rparr>)))"

text \<open>One tenant; its error is the message of the job's error.  A failure to save the tracker is only logged.\<close>

definition send_and_dismiss_sources :: "inactive_env \<Rightarrow> string \<Rightarrow> source_scan \<Rightarrow> unit inact" where
  "send_and_dismiss_sources env tenantId = (\<lambda>(sourcesToAlert, activeSources, agentUnhealthyTracker).
     bind_eff (if sourcesToAlert = [] then eff_return ()
               else wrap_eff (''error sending in-app alerts for tenant '' @ tenantId @ '': '') (sendInAppAlerts env sourcesToAlert)) (\<lambda>_.
     bind_eff (dismiss_source_alerts env tenantId activeSources) (\<lambda>_.
     bind_eff (try_eff (SaveToDatabase env agentUnhealthyTracker tenantId)) (\<lambda>_. eff_return ()))))"

definition check_live_sources :: "inactive_env \<Rightarrow> string \<Rightarrow> Source list \<Rightarrow> unit inact" where
  "check_live_sources env tenantId sources =
     bind_eff (source_times_of env tenantId sources) (\<lambda>tms.
     bind_eff (wrap_eff (''error finding inactive sources for tenant '' @ tenantId @ '': '')
         (findInactiveAndActiveSources env tenantId tms NewAgentUnhealthySourceTracker))
       (send_and_dismiss_sources env tenantId))"

definition check_source_tenant :: "inactive_env \<Rightarrow> string \<Rightarrow> unit inact" where
  "check_source_tenant env tenantId =
     bind_eff (wrap_eff (''error while getting all log sources of tenant '' @ tenantId @ '': '')
         (getAllLogSourcesOfTenant env tenantId)) (\<lambda>sources.
       if sources = [] then eff_return () else check_live_sources env tenantId sources)"

definition AlertForNoEventsFromSources :: "inactive_env \<Rightarrow> JobResult inact" where
  "AlertForNoEventsFromSources env = job_of
     (bind_eff (wrap_eff ''error while getting tenants: '' (GetTenants env)) (\<lambda>tenants.
        if \<not> ie_client_ok env then
          eff_fail ''opensearch client is not available (check credentials / secrets manager configuration)''
        else (case ie_manager env of
                Some e \<Rightarrow> eff_fail (''error while creating alerts manager: '' @ e)
              | None \<Rightarrow> each_tenant (check_source_tenant env) tenants)))"

end
