(* ===== verification/Inactive_Destination.thy ===== *)
theory Inactive_Destination
  imports Inactive_Source
begin

text \<open>
  The job of \<open>internal/cp_alerts/jobs/destination_inactivity.go\<close> with \<open>cp_alerts/model/inactive_destination.go\<close>:
  destinations to which no events were delivered for longer than their configured duration are alerted,
  and open alerts of destinations that receive events again are resolved.
\<close>

section \<open>Inactive destinations\<close>

record InactiveDestination =
  IadDestination :: Destination
  IadLastEventTime :: go_time
  IadAlertDuration :: duration
  IadCheckedAt :: go_time

definition NewInactiveDestination :: "Destination \<Rightarrow> go_time \<Rightarrow> duration \<Rightarrow> go_time \<Rightarrow> InactiveDestination" where
  "NewInactiveDestination dest lastEventTime alertDuration checkedAt =
     \<lparr>IadDestination = dest, IadLastEventTime = lastEventTime, IadAlertDuration = alertDuration, IadCheckedAt = checkedAt\<rparr>"

definition destination_entity :: "InactiveDestination \<Rightarrow> AlertEntity" where
  "destination_entity iad =
     \<lparr>GetEntityId = DstID (IadDestination iad), GetEntityName = DstName (IadDestination iad),
      GetDataPlaneId = DstDataPlaneId (IadDestination iad), GetTenantId = DstTenantID (IadDestination iad),
      GetSecondaryEntityId = ''''\<rparr>"

definition destination_rows :: "string \<Rightarrow> string list \<Rightarrow> inactive_world \<Rightarrow> Destination list" where
  "destination_rows tenantId statuses w =
     filter (\<lambda>d. DstTenantID d = tenantId \<and> DstStatus d \<in> set statuses) (iw_destinations w)"

definition readDestinationsPaginated :: "inactive_env \<Rightarrow> string \<Rightarrow> nat \<Rightarrow> nat \<Rightarrow> string list \<Rightarrow> Destination list inact" where
  "readDestinationsPaginated env tenantId page pageSize statuses =
     al_query env (\<lambda>w. take pageSize (drop (page * pageSize)
       (ie_destination_rows env (aw_operations w) (destination_rows tenantId statuses w))))"

definition getAlertDurationForDestination :: "EntityAlertsConfig \<Rightarrow> (go_error + duration) \<times> bool" where
  "getAlertDurationForDestination alertConfig =
     (case Config alertConfig of
        None \<Rightarrow> (Inr defaultAlertDuration30Min, False)
      | Some dbConfig \<Rightarrow>
          if \<not> Enabled dbConfig then (Inr defaultAlertDuration30Min, True)
          else (case DestinationInactivityAlertConfig dbConfig of
                  None \<Rightarrow> (Inr defaultAlertDuration30Min, False)
                | Some None \<Rightarrow> (Inr defaultAlertDuration30Min, False)
                | Some (Some d) \<Rightarrow> (GetDuration d, False)))"

definition destination_duration :: "(string \<rightharpoonup> EntityAlertsConfig) \<Rightarrow> Destination \<Rightarrow> duration option" where
  "destination_duration alertConfigsByDestinationId d =
     (case alertConfigsByDestinationId (DstID d) of
        Some alertConfig \<Rightarrow>
          (case getAlertDurationForDestination alertConfig of
             (Inl _, _) \<Rightarrow> None
           | (Inr dur, skip) \<Rightarrow> if skip then None else Some dur)
      | None \<Rightarrow> Some defaultAlertDuration30Min)"

section \<open>Times of the last events\<close>

text \<open>A key or a value of another type makes its type assertion panic.\<close>

definition put_destination_time :: "inactive_env \<Rightarrow> AggResponse \<Rightarrow> event_times \<Rightarrow> event_times option" where
  "put_destination_time env response tms =
     (case (aggKeyString_jobs (RespKey response) ''tags.destination_id.keyword'', aggValueFloat64 (RespValues response) ''last_event_time'') of
        (Some destinationId, Some v) \<Rightarrow> Some (tms(destinationId \<mapsto> from_unix_milli (float_to_int64 (ie_float_overflow env) v)))
      | _ \<Rightarrow> None)"

definition getDestinationIdToLastEventTime :: "inactive_env \<Rightarrow> string \<Rightarrow> event_times inact" where
  "getDestinationIdToLastEventTime env tenantId =
     agg_pages (al_fuel env)
       (\<lambda>after. CompositePaginatedAggregate (al_client env) 100 (StatisticsIndexAlias tenantId)
          ''tags.component_name: \"dispenser\" AND name: \"total_events_delivered\"''
          [''tags.destination_id.keyword''] [last_event_agg ''timestamp''] after)
       (put_destination_time env) None Map.empty"

section \<open>Finding inactive and active destinations\<close>

type_synonym destination_scan = "InactiveDestination list \<times> Destination list"

definition check_destination ::
  "inactive_env \<Rightarrow> event_times \<Rightarrow> (string \<rightharpoonup> EntityAlertsConfig) \<Rightarrow> Destination \<Rightarrow> destination_scan \<Rightarrow> destination_scan inact" where
  "check_destination env tms configs d = (\<lambda>(destinationsToAlert, activeDestinations).
     (case tms (DstID d) of
        None \<Rightarrow> eff_return (destinationsToAlert, activeDestinations)
      | Some lastEventTime \<Rightarrow>
          (case destination_duration configs d of
             None \<Rightarrow> eff_return (destinationsToAlert, activeDestinations)
           | Some alertDuration \<Rightarrow>
               bind_eff (now_utc env) (\<lambda>now.
                 if time_sub now lastEventTime > alertDuration then
                   if stale now lastEventTime then eff_return (destinationsToAlert, activeDestinations)
                   else eff_return (destinationsToAlert @ [NewInactiveDestination d lastEventTime alertDuration now], activeDestinations)
                 else eff_return (destinationsToAlert, activeDestinations @ [d])))))"

fun check_destinations ::
  "inactive_env \<Rightarrow> event_times \<Rightarrow> (string \<rightharpoonup> EntityAlertsConfig) \<Rightarrow> Destination list \<Rightarrow> destination_scan \<Rightarrow> destination_scan inact" where
  "check_destinations env tms configs [] acc = eff_return acc"
| "check_destinations env tms configs (d # destinations) acc =
     bind_eff (check_destination env tms configs d acc) (check_destinations env tms configs destinations)"

fun destination_pages ::
  "nat \<Rightarrow> inactive_env \<Rightarrow> string \<Rightarrow> event_times \<Rightarrow> nat \<Rightarrow> destination_scan \<Rightarrow> destination_scan inact" where
  "destination_pages 0 env tenantId tms page acc = eff_out_of_fuel"
| "destination_pages (Suc fuel) env tenantId tms page acc =
     bind_eff (readDestinationsPaginated env tenantId page 50 [''ACTIVE'', ''ERRORED'', ''DEPLOYING'']) (\<lambda>destinations.
       if destinations = [] then eff_return acc
       else bind_eff (ReadEntityConfigs env DestinationEntityType ''DESTINATION_INACTIVITY'' tenantId (map DstID destinations)) (\<lambda>alertConfigs.
            bind_eff (check_destinations env tms (configs_by_id alertConfigs) destinations acc)
              (destination_pages fuel env tenantId tms (Suc page))))"

definition findInactiveAndActiveDestinations :: "inactive_env \<Rightarrow> string \<Rightarrow> event_times \<Rightarrow> destination_scan inact" where
  "findInactiveAndActiveDestinations env tenantId tms = destination_pages (al_fuel env) env tenantId tms 0 ([], [])"

section \<open>The job\<close>

definition destination_alert_options :: "go_time \<Rightarrow> InactiveDestination \<Rightarrow> alert_options" where
  "destination_alert_options now iad =
     \<lparr>OptFunctionality = ''dispenser'', OptEntity = destination_entity iad, OptCriticality = ''critical'',
      OptFunctionalityType = ''delivery_checker'',
      OptTitle = ''No new events delivered in the last '' @ HumanReadableDuration (time_sub now (IadLastEventTime iad)),
      OptMessage = ''This alert is triggered because no new events were delivered to this destination in the last ''
        @ HumanReadableDuration (IadAlertDuration iad) @ ''. As of '' @ quoted (HumanReadableTimeWithZone (IadCheckedAt iad))
        @ '' last event was delivered at '' @ quoted (HumanReadableTimeWithZone (IadLastEventTime iad)) @ ''.'',
      OptErrorCode = ''DNDW10002'', OptErrorTemplate = ''No Data For Destination Received. {0}'', OptErrorParam = '''',
      OptAction = ''Please check destination configuration, connection details etc if those are right. You can also check if sources are getting data. If sources and destinations are all ok, please check volume controller rules if any.''\<rparr>"

definition buildDestAlert :: "inactive_env \<Rightarrow> InactiveDestination \<Rightarrow> Alert inact" where
  "buildDestAlert env iad = bind_eff (now_utc env) (\<lambda>now. NewAlert env (destination_alert_options now iad))"

definition sendInAppAlertsForDestination :: "inactive_env \<Rightarrow> InactiveDestination list \<Rightarrow> unit inact" where
  "sendInAppAlertsForDestination env destinationsToAlert = bind_eff (build_all (buildDestAlert env) destinationsToAlert) SendAlerts"

definition open_destination_alerts :: "inactive_env \<Rightarrow> string \<Rightarrow> string list \<Rightarrow> AlertDocument list inact" where
  "open_destination_alerts env tenantId destinationIds =
     bind_eff (wrap_eff (''error while searching for alerts for tenant '' @ tenantId @ '': '')
         (al_search (Search (al_client env) AlertsIndex
            (open_alerts_query tenantId destinationIds (''dispenser-checker'' @ '' OR '' @ ''delivery_checker''))))) (\<lambda>openAlerts.
       wrap_eff (''error while decoding openSearch response for tenant '' @ tenantId @ '': '') (al_result (al_decode env openAlerts)))"

definition dismiss_destination_alerts :: "inactive_env \<Rightarrow> string \<Rightarrow> Destination list \<Rightarrow> unit inact" where
  "dismiss_destination_alerts env tenantId activeDestinations =
     bind_eff (collect_open (open_destination_alerts env tenantId) (map DstID activeDestinations)
         (map (map DstID) (PartitionSlice activeDestinations 10)) []) (\<lambda>alertsToDismiss.
       if alertsToDismiss \<noteq> [] then AutoResolveAlerts alertsToDismiss else eff_return ())"

text \<open>The client is not tested for nil: without one the first search panics.\<close>

definition check_destination_tenant :: "inactive_env \<Rightarrow> string \<Rightarrow> unit inact" where
  "check_destination_tenant env tenantId =
     bind_eff (if ie_client_ok env then eff_return () else eff_panic) (\<lambda>_.
     bind_eff (wrap_eff (''error getting destination event times for tenant '' @ tenantId @ '': '')
         (getDestinationIdToLastEventTime env tenantId)) (\<lambda>tms.
     bind_eff (wrap_eff (''error finding inactive destinations for tenant '' @ tenantId @ '': '')
         (findInactiveAndActiveDestinations env tenantId tms)) (\<lambda>(destinationsToAlert, activeDestinations).
     bind_eff (if destinationsToAlert = [] then eff_return ()
               else wrap_eff (''error sending in-app alerts for destinations for tenant '' @ tenantId @ '': '')
                      (sendInAppAlertsForDestination env destinationsToAlert)) (\<lambda>_.
       dismiss_destination_alerts env tenantId activeDestinations))))"

definition AlertForNoEventsToDestination :: "inactive_env \<Rightarrow> JobResult inact" where
  "AlertForNoEventsToDestination env = job_of
     (bind_eff (wrap_eff ''error while getting tenants: '' (GetTenants env)) (\<lambda>tenants.
        case ie_manager env of
          Some e \<Rightarrow> eff_fail (''error while creating alerts manager: '' @ e)
        | None \<Rightarrow> each_tenant (check_destination_tenant env) tenants))"

end
