(* ===== verification/Alert_Pass.thy ===== *)
theory Alert_Pass
  imports Alert_World
begin

text \<open>
  What the alert jobs have in common, stated once.  \<open>quiet\<close> computations send nothing and leave the tables
  alone.  The interface \<open>alert_check\<close> is a pass that builds alerts for inactive entities and resolves open
  alerts of active ones: what it sends is known from the two lists.  The interface \<open>page_scan\<close> is a loop over
  the pages of a table that sorts its rows into alerts and active entities.
\<close>

section \<open>Frames\<close>

definition quiet :: "'t alert_world_scheme \<Rightarrow> 't alert_world_scheme \<Rightarrow> bool" where
  "quiet w w' \<longleftrightarrow> aw_sent w' = aw_sent w \<and> alert_world.more w' = alert_world.more w"

definition tables_kept :: "'t alert_world_scheme \<Rightarrow> 't alert_world_scheme \<Rightarrow> bool" where
  "tables_kept w w' \<longleftrightarrow> alert_world.more w' = alert_world.more w"

named_theorems quiets \<open>computations that send nothing and keep the tables\<close>

lemma quiet_preorder: "preorder_rel quiet"
  by (auto simp: preorder_rel_def quiet_def)

lemma tables_kept_preorder: "preorder_rel tables_kept"
  by (auto simp: preorder_rel_def tables_kept_def)

lemmas quiet_simple [quiets] = keeps_simple [OF quiet_preorder]

lemmas quiet_bind [quiets] = keeps_bind [OF quiet_preorder]

lemmas quiet_try [quiets] = keeps_try [of quiet]

lemmas tables_bind = keeps_bind [OF tables_kept_preorder]

lemma quiet_tables: "keeps quiet m \<Longrightarrow> keeps tables_kept m"
  by (simp add: keeps_def quiet_def tables_kept_def)

lemma quiet_wrap [quiets]: "keeps quiet m \<Longrightarrow> keeps quiet (wrap_eff p m)"
  by (simp add: keeps_def wrap_eff_state)

lemma quiet_ops [quiets]:
  "keeps quiet (now_utc env)" "keeps quiet (al_query env f)" "keeps quiet (al_search m)" "keeps quiet (al_result r)"
  by (auto simp: keeps_def quiet_def now_utc_def al_query_def al_search_def al_result_def Let_def
      split: option.split sum.split prod.split)

lemma quiet_NewAlert [quiets]: "keeps quiet (NewAlert env opts)"
  by (auto simp: NewAlert_def Let_def intro!: quiets split: option.split)

lemma quiet_agg_pages [quiets]: "keeps quiet (agg_pages fuel fetch put after acc)"
proof (induction fuel arbitrary: after acc)
  case 0
  then show ?case by (auto intro: quiets)
next
  case (Suc fuel)
  then show ?case by (auto intro!: quiets split: option.split prod.split)
qed

lemma quiet_build_all [quiets]: "(\<And>x. keeps quiet (build x)) \<Longrightarrow> keeps quiet (build_all build xs)"
  by (induction xs) (auto intro!: quiets)

lemma quiet_collect_open [quiets]: "(\<And>ids. keeps quiet (fetch ids)) \<Longrightarrow> keeps quiet (collect_open fetch active parts acc)"
  by (induction parts arbitrary: acc) (auto intro!: quiets)

lemma quietD: "keeps quiet m \<Longrightarrow> m w = (r, w') \<Longrightarrow> quiet w w'"
  unfolding keeps_def by (metis snd_conv)

lemma quiet_sent: "keeps quiet m \<Longrightarrow> m w = (r, w') \<Longrightarrow> aw_sent w' = aw_sent w"
  using quietD quiet_def by blast

lemma quiet_more: "keeps quiet m \<Longrightarrow> m w = (r, w') \<Longrightarrow> alert_world.more w' = alert_world.more w"
  using quietD quiet_def by blast

lemma quiet_bind_sent:
  assumes "keeps quiet m" and "Q (aw_sent w)" and "\<And>x v. m w = (Ok x, v) \<Longrightarrow> quiet w v \<Longrightarrow> Q (aw_sent (snd (k x v)))"
  shows "Q (aw_sent (snd (bind_eff m k w)))"
proof -
  obtain r v where m: "m w = (r, v)" by fastforce
  then have "quiet w v" using quietD assms(1) by blast
  with assms(2,3) m show ?thesis by (cases r) (auto simp: bind_eff_def quiet_def)
qed

lemma bind_sent: "(\<And>x v. aw_sent (snd (k x v)) = aw_sent v) \<Longrightarrow> aw_sent (snd (bind_eff m k w)) = aw_sent (snd (m w))"
  by (auto simp: bind_eff_def split: prod.split outcome.split)

section \<open>Messages\<close>

lemma SendAlerts_sends: "SendAlerts as w = (Ok (), w\<lparr>aw_sent := aw_sent w @ map SendAlert as\<rparr>)"
  by (induction as arbitrary: w) (simp_all add: bind_eff_def al_send_def)

lemma AutoResolveAlerts_sends: "AutoResolveAlerts ids w = (Ok (), w\<lparr>aw_sent := aw_sent w @ map AutoResolve ids\<rparr>)"
  by (induction ids arbitrary: w) (simp_all add: bind_eff_def al_send_def)

lemma NewAlert_entity:
  assumes "NewAlert env opts w = (Ok a, w')"
  shows "FunctionalityEntityId a = GetEntityId (OptEntity opts)" "FunctionalityType a = OptFunctionalityType opts"
    "AlertTenantId a = GetTenantId (OptEntity opts)"
  using assms
  by (auto simp: NewAlert_def bind_eff_Ok Let_def built_alert_def split: option.splits)

lemma build_all_Ok:
  "build_all build xs w = (Ok as, w') \<Longrightarrow> (\<And>x w a w'. build x w = (Ok a, w') \<Longrightarrow> f a = g x) \<Longrightarrow> map f as = map g xs"
  by (induction xs arbitrary: w as w') (fastforce simp: bind_eff_Ok)+

lemma collect_open_docs:
  assumes "collect_open fetch active parts acc w = (Ok ids, w')"
  shows "\<exists>docs :: AlertDocument list. ids = acc @ map DocId docs \<and> (\<forall>d \<in> set docs. DocEntityId d \<in> set active)"
  using assms
proof (induction parts arbitrary: acc w)
  case Nil
  then show ?case by auto
next
  case (Cons part parts)
  then obtain alerts :: "AlertDocument list" and w1 where
    "collect_open fetch active parts (acc @ map DocId (filter (\<lambda>a. DocEntityId a \<in> set active) alerts)) w1 = (Ok ids, w')"
    by (auto simp: bind_eff_Ok simp del: map_append)
  from Cons.IH [OF this] obtain docs :: "AlertDocument list" where
    "ids = acc @ map DocId (filter (\<lambda>a. DocEntityId a \<in> set active) alerts @ docs)"
    "\<forall>d \<in> set docs. DocEntityId d \<in> set active" by auto
  then show ?case by (intro exI [of _ "filter (\<lambda>a. DocEntityId a \<in> set active) alerts @ docs"]) auto
qed

text \<open>A message is right when it alerts one of the entities \<open>dead\<close> or resolves an alert of one of \<open>alive\<close>.\<close>

definition right_message :: "string set \<Rightarrow> string set \<Rightarrow> alert_message \<Rightarrow> bool" where
  "right_message alive dead m \<longleftrightarrow> (case m of
     SendAlert a \<Rightarrow> FunctionalityEntityId a \<in> dead
   | AutoResolve i \<Rightarrow> \<exists>d :: AlertDocument. DocId d = i \<and> DocEntityId d \<in> alive)"

definition sends_right :: "string set \<Rightarrow> string set \<Rightarrow> alert_message list \<Rightarrow> alert_message list \<Rightarrow> bool" where
  "sends_right alive dead before after \<longleftrightarrow> (\<exists>msgs. after = before @ msgs \<and> (\<forall>m \<in> set msgs. right_message alive dead m))"

lemma sends_right_refl: "sends_right alive dead s s"
  by (simp add: sends_right_def)

lemma sends_right_trans: "sends_right alive dead s t \<Longrightarrow> sends_right alive dead t u \<Longrightarrow> sends_right alive dead s u"
  by (auto simp: sends_right_def)

section \<open>Computations that return\<close>

lemma returns_alert_ops [returning]:
  "returns (now_utc env)" "returns (al_query env f)" "returns (al_result r)" "returns m' \<Longrightarrow> returns (al_search m')"
  by (auto simp: returns_def now_utc_def al_query_def al_search_def al_result_def Let_def split: option.split sum.split prod.splits)
    (metis fst_conv)

lemma returns_wrap_eff [returning]: "returns m \<Longrightarrow> returns (wrap_eff p m)"
  unfolding returns_def wrap_eff_def by (auto split: prod.split outcome.split) (metis fst_conv)+

lemma returns_Search [returning]: "returns (Search client index query)"
  by (auto simp: returns_def Search_def MakeSearchCall_def search_reply_body_def bind_eff_def
      split: ext_reply.split sum.split ext_body.split)

lemma returns_NewAlert [returning]: "returns (NewAlert env opts)"
  by (auto simp: NewAlert_def Let_def intro!: returning split: option.split)

section \<open>A pass of alerts and resolutions\<close>

text \<open>
  \<open>build\<close> builds the alert of an inactive entity and \<open>fetch\<close> the open alerts of some active ones; neither
  sends anything, and an alert is about the entity it is built for.
\<close>

locale alert_check =
  fixes build :: "'x \<Rightarrow> ('t alert_world_scheme, Alert) eff"
    and entity :: "'x \<Rightarrow> string"
    and fetch :: "string list \<Rightarrow> ('t alert_world_scheme, AlertDocument list) eff"
  assumes build_entity: "build x w = (Ok a, w') \<Longrightarrow> FunctionalityEntityId a = entity x"
    and build_quiet: "keeps quiet (build x)"
    and fetch_quiet: "keeps quiet (fetch ids)"
begin

lemma send_pass:
  assumes "bind_eff (build_all build xs) SendAlerts w = (r, w')"
  shows "\<exists>as. aw_sent w' = aw_sent w @ map SendAlert as \<and> set (map FunctionalityEntityId as) \<subseteq> entity ` set xs
    \<and> (r = Ok () \<longrightarrow> map FunctionalityEntityId as = map entity xs) \<and> alert_world.more w' = alert_world.more w"
proof -
  obtain b w1 where b: "build_all build xs w = (b, w1)" by fastforce
  have q: "quiet w w1" using quietD [OF quiet_build_all [OF build_quiet] b] .
  show ?thesis
  proof (cases b)
    case (Ok as)
    with b build_entity have m: "map FunctionalityEntityId as = map entity xs" by (metis build_all_Ok)
    moreover have "aw_sent w' = aw_sent w @ map SendAlert as \<and> alert_world.more w' = alert_world.more w"
      using assms b Ok q by (auto simp: bind_eff_def SendAlerts_sends quiet_def)
    ultimately show ?thesis using arg_cong [OF m, of set] m by (intro exI [of _ as]) simp
  qed (rule exI [of _ "[]"], use assms b q in \<open>auto simp: bind_eff_def quiet_def\<close>)+
qed

lemma dismiss_pass:
  assumes "bind_eff (collect_open fetch active parts [])
      (\<lambda>ids. if ids \<noteq> [] then AutoResolveAlerts ids else eff_return ()) w = (r, w')"
  shows "\<exists>docs :: AlertDocument list. aw_sent w' = aw_sent w @ map (AutoResolve \<circ> DocId) docs \<and> (\<forall>d \<in> set docs. DocEntityId d \<in> set active)
    \<and> alert_world.more w' = alert_world.more w"
proof -
  obtain b w1 where b: "collect_open fetch active parts [] w = (b, w1)" by fastforce
  have q: "quiet w w1" using quietD [OF quiet_collect_open [OF fetch_quiet] b] .
  show ?thesis
  proof (cases b)
    case (Ok ids)
    with collect_open_docs b obtain docs :: "AlertDocument list" where docs: "ids = map DocId docs" "\<forall>d \<in> set docs. DocEntityId d \<in> set active"
      by fastforce
    with assms b Ok q have "aw_sent w' = aw_sent w @ map (AutoResolve \<circ> DocId) docs \<and> alert_world.more w' = alert_world.more w"
      by (auto simp: bind_eff_def AutoResolveAlerts_sends quiet_def split: if_splits)
    with docs(2) show ?thesis by (intro exI [of _ docs]) simp
  qed (rule exI [of _ "[]"], use assms b q in \<open>auto simp: bind_eff_def quiet_def\<close>)+
qed

text \<open>The two parts of a pass, as the jobs compose them.\<close>

lemma alert_pass:
  assumes "bind_eff (if xs = [] then eff_return () else wrap_eff p (bind_eff (build_all build xs) SendAlerts)) (\<lambda>_.
      bind_eff (collect_open fetch active parts [])
        (\<lambda>ids. if ids \<noteq> [] then AutoResolveAlerts ids else eff_return ())) w = (r, w')"
  shows "\<exists>as docs. aw_sent w' = aw_sent w @ map SendAlert as @ map (AutoResolve \<circ> DocId) (docs :: AlertDocument list)
    \<and> FunctionalityEntityId ` set as \<subseteq> entity ` set xs \<and> (\<forall>d \<in> set docs. DocEntityId d \<in> set active)
    \<and> alert_world.more w' = alert_world.more w"
proof -
  define m where "m = (if xs = [] then eff_return () else wrap_eff p (bind_eff (build_all build xs) SendAlerts))"
  obtain r1 w1 where w1: "m w = (r1, w1)" by fastforce
  obtain r2 w2 where w2: "bind_eff (build_all build xs) SendAlerts w = (r2, w2)" by fastforce
  have "w1 = (if xs = [] then w else w2)"
    using w1 w2 wrap_eff_state [of p "bind_eff (build_all build xs) SendAlerts" w] by (auto simp: m_def split: if_splits)
  with send_pass [OF w2] obtain as where as: "aw_sent w1 = aw_sent w @ map SendAlert as"
    "FunctionalityEntityId ` set as \<subseteq> entity ` set xs" "alert_world.more w1 = alert_world.more w"
    by (cases "xs = []") auto
  show ?thesis
  proof (cases r1)
    case (Ok u)
    with assms w1 have "bind_eff (collect_open fetch active parts [])
        (\<lambda>ids. if ids \<noteq> [] then AutoResolveAlerts ids else eff_return ()) w1 = (r, w')"
      by (simp add: m_def [symmetric] bind_eff_def [of m])
    from dismiss_pass [OF this] as show ?thesis by auto
  qed (rule exI [of _ as], rule exI [of _ "[]"], use assms w1 as in \<open>auto simp: m_def [symmetric] bind_eff_def [of m]\<close>)+
qed

end

section \<open>Computations of the clock\<close>

text \<open>\<open>clocked\<close>: the outcome, and how far the clock was read, depend only on the clock.\<close>

definition clocked :: "('t alert_world_scheme, 'a) eff \<Rightarrow> bool" where
  "clocked m \<longleftrightarrow> (\<forall>w w'. aw_clock w = aw_clock w' \<longrightarrow>
     fst (m w) = fst (m w') \<and> aw_clock (snd (m w)) = aw_clock (snd (m w')))"

named_theorems clocks \<open>computations that depend on the clock only\<close>

lemma clocked_simple [clocks]:
  "clocked (eff_return x)" "clocked (eff_fail e)" "clocked eff_panic" "clocked eff_out_of_fuel" "clocked (now_utc env)"
  by (auto simp: clocked_def now_utc_def)

lemma clocked_bind [clocks]:
  assumes "clocked m" and "\<And>x. clocked (f x)"
  shows "clocked (bind_eff m f)"
  unfolding clocked_def
proof (intro allI impI)
  fix w w' :: "'a alert_world_scheme"
  assume "aw_clock w = aw_clock w'"
  with assms(1) have "fst (m w) = fst (m w')" "aw_clock (snd (m w)) = aw_clock (snd (m w'))"
    unfolding clocked_def by blast+
  then obtain r u u' where "m w = (r, u)" "m w' = (r, u')" "aw_clock u = aw_clock u'"
    by (cases "m w"; cases "m w'") simp
  moreover have "fst (f x u) = fst (f x u') \<and> aw_clock (snd (f x u)) = aw_clock (snd (f x u'))" for x
    using assms(2) [of x] \<open>aw_clock u = aw_clock u'\<close> unfolding clocked_def by blast
  ultimately show "fst (bind_eff m f w) = fst (bind_eff m f w') \<and> aw_clock (snd (bind_eff m f w)) = aw_clock (snd (bind_eff m f w'))"
    by (cases r) (simp_all add: bind_eff_def)
qed

lemma disjoint_mono: "A \<subseteq> P \<Longrightarrow> B \<subseteq> Q \<Longrightarrow> P \<inter> Q = {} \<Longrightarrow> A \<inter> B = {} \<and> B \<inter> A = {}"
  by blast

lemma bind_eff_return: "bind_eff (eff_return x) f = f x"
  by (rule ext) (simp add: bind_eff_def)

lemma bind_eff_assoc: "bind_eff (bind_eff m f) g = bind_eff m (\<lambda>x. bind_eff (f x) g)"
  by (rule ext) (simp add: bind_eff_def split: prod.split outcome.split)

section \<open>A scan of the pages of a table\<close>

text \<open>
  \<open>check\<close> adds one row to what was found so far, \<open>scan\<close> a page of rows with the data \<open>context_of\<close> reads for
  it, and \<open>pages\<close> is the loop.  A row gives alerts about itself, or is added to the active rows, but not both.
\<close>

locale page_scan =
  fixes check :: "'c \<Rightarrow> 's \<Rightarrow> 'acc \<Rightarrow> ('t alert_world_scheme, 'acc) eff"
    and scan :: "'c \<Rightarrow> 's list \<Rightarrow> 'acc \<Rightarrow> ('t alert_world_scheme, 'acc) eff"
    and read_page :: "nat \<Rightarrow> ('t alert_world_scheme, 's list) eff"
    and context_of :: "'s list \<Rightarrow> ('t alert_world_scheme, 'c) eff"
    and pages :: "nat \<Rightarrow> nat \<Rightarrow> 'acc \<Rightarrow> ('t alert_world_scheme, 'acc) eff"
    and alerts_of :: "'acc \<Rightarrow> 'x list"
    and active_of :: "'acc \<Rightarrow> 's list"
    and subject :: "'x \<Rightarrow> 's"
    and sound :: "'x \<Rightarrow> bool"
  assumes scan_Nil: "scan c [] acc = eff_return acc"
    and scan_Cons: "scan c (s # ss) acc = bind_eff (check c s acc) (scan c ss)"
    and pages_0: "pages 0 page acc = eff_out_of_fuel"
    and pages_Suc: "pages (Suc fuel) page acc = bind_eff (read_page page) (\<lambda>rows.
      if rows = [] then eff_return acc
      else bind_eff (context_of rows) (\<lambda>c. bind_eff (scan c rows acc) (pages fuel (Suc page))))"
    and check_step: "check c s acc w = (Ok acc', w') \<Longrightarrow>
      \<exists>news. alerts_of acc' = alerts_of acc @ news \<and> (\<forall>x \<in> set news. subject x = s \<and> sound x)
        \<and> (active_of acc' = active_of acc \<or> active_of acc' = active_of acc @ [s] \<and> news = [])"
    and check_quiet: "keeps quiet (check c s acc)"
    and read_quiet: "keeps quiet (read_page page)"
    and context_quiet: "keeps quiet (context_of rows)"
begin

text \<open>What a scan of the rows \<open>ss\<close> adds to \<open>acc\<close>.\<close>

definition adds :: "'s list \<Rightarrow> 'acc \<Rightarrow> 'acc \<Rightarrow> bool" where
  "adds ss acc acc' \<longleftrightarrow> (\<exists>news acts. alerts_of acc' = alerts_of acc @ news \<and> active_of acc' = active_of acc @ acts
     \<and> subject ` set news \<subseteq> set ss \<and> (\<forall>x \<in> set news. sound x) \<and> set acts \<subseteq> set ss
     \<and> (\<forall>key :: 's \<Rightarrow> string. distinct (map key ss) \<longrightarrow> (key \<circ> subject) ` set news \<inter> key ` set acts = {}))"

lemma adds_Nil: "adds [] acc acc"
  by (auto simp: adds_def)

lemma adds_one:
  assumes "check c s acc w = (Ok acc', w')"
  shows "adds [s] acc acc'"
  using check_step [OF assms] unfolding adds_def
  by (elim exE conjE disjE, rule_tac x = news in exI, rule_tac x = "[]" in exI, force,
      rule_tac x = news in exI, rule_tac x = "[s]" in exI, force)

lemma adds_append:
  assumes "adds ss acc acc1" and "adds ts acc1 acc2"
  shows "adds (ss @ ts) acc acc2"
proof -
  from assms(1) obtain news acts where 1: "alerts_of acc1 = alerts_of acc @ news" "active_of acc1 = active_of acc @ acts"
    "subject ` set news \<subseteq> set ss" "\<forall>x \<in> set news. sound x" "set acts \<subseteq> set ss"
    "\<And>key :: 's \<Rightarrow> string. distinct (map key ss) \<Longrightarrow> (key \<circ> subject) ` set news \<inter> key ` set acts = {}"
    unfolding adds_def by metis
  from assms(2) obtain news' acts' where 2: "alerts_of acc2 = alerts_of acc1 @ news'" "active_of acc2 = active_of acc1 @ acts'"
    "subject ` set news' \<subseteq> set ts" "\<forall>x \<in> set news'. sound x" "set acts' \<subseteq> set ts"
    "\<And>key :: 's \<Rightarrow> string. distinct (map key ts) \<Longrightarrow> (key \<circ> subject) ` set news' \<inter> key ` set acts' = {}"
    unfolding adds_def by metis
  have "(key \<circ> subject) ` set (news @ news') \<inter> key ` set (acts @ acts') = {}"
    if "distinct (map key (ss @ ts))" for key :: "'s \<Rightarrow> string"
  proof -
    have a: "(key \<circ> subject) ` set news \<inter> key ` set acts = {}" "(key \<circ> subject) ` set news' \<inter> key ` set acts' = {}"
      using that 1(6) [of key] 2(6) [of key] by simp_all
    have b: "key ` set ss \<inter> key ` set ts = {}" using that by simp
    have c: "(key \<circ> subject) ` set news \<subseteq> key ` set ss" "(key \<circ> subject) ` set news' \<subseteq> key ` set ts"
      "key ` set acts \<subseteq> key ` set ss" "key ` set acts' \<subseteq> key ` set ts"
      using 1(3,5) 2(3,5) by (simp_all only: image_comp [symmetric] image_mono)
    have "(key \<circ> subject) ` set news \<inter> key ` set acts' = {}" "(key \<circ> subject) ` set news' \<inter> key ` set acts = {}"
      using disjoint_mono [OF c(1) c(4) b] disjoint_mono [OF c(3) c(2) b] by simp_all
    with a show ?thesis by (simp only: set_append image_Un Int_Un_distrib Int_Un_distrib2 Un_empty)
  qed
  with 1 2 show ?thesis unfolding adds_def
    by (intro exI [of _ "news @ news'"] exI [of _ "acts @ acts'"]) auto
qed

lemma scan_adds: "scan c ss acc w = (Ok acc', w') \<Longrightarrow> adds ss acc acc'"
proof (induction ss arbitrary: acc w)
  case Nil
  then show ?case by (simp add: scan_Nil adds_Nil)
next
  case (Cons s ss)
  then obtain acc1 w1 where "check c s acc w = (Ok acc1, w1)" "scan c ss acc1 w1 = (Ok acc', w')"
    by (auto simp: scan_Cons bind_eff_Ok)
  then have "adds ([s] @ ss) acc acc'" using adds_append [OF adds_one Cons.IH] by blast
  then show ?case by simp
qed

lemma scan_quiet: "keeps quiet (scan c ss acc)"
  by (induction ss arbitrary: acc) (auto simp: scan_Nil scan_Cons intro!: quiets check_quiet)

lemma pages_quiet: "keeps quiet (pages fuel page acc)"
proof (induction fuel arbitrary: page acc)
  case 0
  then show ?case by (simp add: pages_0 quiets)
next
  case (Suc fuel)
  then show ?case by (auto simp: pages_Suc intro!: quiets read_quiet context_quiet scan_quiet)
qed

lemma pages_adds:
  assumes "pages fuel page acc w = (Ok acc', w')"
    and "\<And>w p r w'. read_page p w = (Ok r, w') \<Longrightarrow> alert_world.more w = tables \<Longrightarrow> r = take n (drop (p * n) rows)"
    and "alert_world.more w = tables"
  shows "adds (drop (page * n) rows) acc acc' \<or> n = 0"
  using assms(1,3)
proof (induction fuel arbitrary: page acc w)
  case 0
  then show ?case by (simp add: pages_0)
next
  case (Suc fuel)
  then obtain r w1 where r: "read_page page w = (Ok r, w1)"
    and rest: "(if r = [] then eff_return acc
      else bind_eff (context_of r) (\<lambda>c. bind_eff (scan c r acc) (pages fuel (Suc page)))) w1 = (Ok acc', w')"
    by (auto simp: pages_Suc bind_eff_Ok)
  have w1: "alert_world.more w1 = tables" using quiet_more [OF read_quiet r] Suc.prems(2) by simp
  have rr: "r = take n (drop (page * n) rows)" using assms(2) r Suc.prems(2) .
  show ?case
  proof (cases "r = []")
    case True
    with rr rest show ?thesis by (auto simp: adds_Nil)
  next
    case False
    with rest obtain c w2 acc1 w3 where c: "context_of r w1 = (Ok c, w2)" and s: "scan c r acc w2 = (Ok acc1, w3)"
      and p: "pages fuel (Suc page) acc1 w3 = (Ok acc', w')" by (auto simp: bind_eff_Ok)
    have "alert_world.more w3 = tables" using quiet_more [OF context_quiet c] quiet_more [OF scan_quiet s] w1 by simp
    with Suc.IH p have "adds (drop (Suc page * n) rows) acc1 acc' \<or> n = 0" by blast
    moreover have "adds r acc acc1" using scan_adds s .
    moreover have "drop (page * n) rows = r @ drop (Suc page * n) rows"
      unfolding rr by (metis append_take_drop_id drop_drop mult_Suc)
    ultimately show ?thesis using adds_append by metis
  qed
qed

lemma scan_append: "scan c (ss @ ts) acc = bind_eff (scan c ss acc) (scan c ts)"
proof (induction ss arbitrary: acc)
  case (Cons s ss)
  then have "scan c (ss @ ts) = (\<lambda>acc. bind_eff (scan c ss acc) (scan c ts))" by (simp add: fun_eq_iff)
  then show ?case by (simp add: scan_Cons bind_eff_assoc)
qed (rule ext, simp add: scan_Nil bind_eff_def)

lemma scan_cong: "(\<And>s acc. s \<in> set ss \<Longrightarrow> check c s acc = check c' s acc) \<Longrightarrow> scan c ss acc = scan c' ss acc"
proof (induction ss arbitrary: acc)
  case (Cons s ss)
  then have "scan c ss = scan c' ss" by auto
  with Cons.prems show ?case by (simp add: scan_Cons)
qed (simp add: scan_Nil)

lemma scan_clocked: "(\<And>s acc. clocked (check c s acc)) \<Longrightarrow> clocked (scan c ss acc)"
  by (induction ss arbitrary: acc) (auto simp: scan_Nil scan_Cons intro!: clocks)

text \<open>With reads that succeed, the loop over the pages finds what one scan of all rows finds.\<close>

lemma pages_complete:
  assumes read: "\<And>w p. alert_world.more w = tables \<Longrightarrow>
      \<exists>w'. read_page p w = (Ok (take n (drop (p * n) rows)), w') \<and> aw_clock w' = aw_clock w"
    and ctx: "\<And>w rs. alert_world.more w = tables \<Longrightarrow> rs \<noteq> [] \<Longrightarrow> set rs \<subseteq> set rows \<Longrightarrow>
      \<exists>c w'. context_of rs w = (Ok c, w') \<and> aw_clock w' = aw_clock w \<and> (\<forall>s \<in> set rs. \<forall>acc. check c s acc = check call s acc)"
    and clk: "\<And>s acc. clocked (check call s acc)"
    and n: "0 < n"
  shows "length (drop (page * n) rows) < fuel * n \<Longrightarrow> alert_world.more w = tables \<Longrightarrow> aw_clock w = aw_clock u \<Longrightarrow>
    fst (pages (Suc fuel) page acc w) = fst (scan call (drop (page * n) rows) acc u)"
proof (induction fuel arbitrary: page acc w u)
  case 0
  then show ?case by simp
next
  case (Suc fuel)
  define r where "r = take n (drop (page * n) rows)"
  define rest where "rest = drop (Suc page * n) rows"
  have split: "drop (page * n) rows = r @ rest"
    unfolding r_def rest_def by (metis append_take_drop_id drop_drop mult_Suc)
  from read [OF Suc.prems(2), of page] obtain w1 where w1: "read_page page w = (Ok r, w1)" "aw_clock w1 = aw_clock u"
    unfolding r_def [symmetric] using Suc.prems(3) by auto
  have t1: "alert_world.more w1 = tables" using quiet_more [OF read_quiet w1(1)] Suc.prems(2) by simp
  show ?case
  proof (cases "r = []")
    case True
    then have "drop (page * n) rows = []" using n by (simp add: r_def)
    with True w1 show ?thesis by (simp add: pages_Suc bind_eff_def scan_Nil)
  next
    case False
    have "set r \<subseteq> set rows" unfolding r_def by (meson in_set_dropD in_set_takeD subsetI)
    from ctx [OF t1 False this] obtain c w2 where w2: "context_of r w1 = (Ok c, w2)" "aw_clock w2 = aw_clock u"
      "\<And>s acc. s \<in> set r \<Longrightarrow> check c s acc = check call s acc" using w1(2) by auto
    have sc: "scan c r acc = scan call r acc" using scan_cong w2(3) by blast
    have same: "fst (scan call r acc w2) = fst (scan call r acc u)" "aw_clock (snd (scan call r acc w2)) = aw_clock (snd (scan call r acc u))"
      using scan_clocked [OF clk, of r acc] w2(2) unfolding clocked_def by blast+
    obtain o1 w3 where w3: "scan call r acc w2 = (o1, w3)" by fastforce
    obtain o2 u3 where u3: "scan call r acc u = (o2, u3)" by fastforce
    have t3: "alert_world.more w3 = tables"
      using quiet_more [OF scan_quiet w3] quiet_more [OF context_quiet w2(1)] t1 by simp
    have "fst (pages (Suc fuel) (Suc page) acc1 w3) = fst (scan call rest acc1 u3)" if "o1 = Ok acc1" for acc1
    proof (cases "rest = []")
      case True
      with n read [OF t3, of "Suc page"] show ?thesis by (auto simp: rest_def pages_Suc bind_eff_def scan_Nil)
    next
      case False
      then have "length (drop (Suc page * n) rows) < fuel * n" using Suc.prems(1) split n
        unfolding r_def rest_def by (cases "n \<le> length (drop (page * n) rows)") auto
      from Suc.IH [OF this t3, of u3 acc1] show ?thesis using same w3 u3 by (simp add: rest_def)
    qed
    moreover have "o1 = o2" using same w3 u3 by simp
    ultimately show ?thesis using w1 w2(1) sc w3 u3 False split
      by (auto simp: pages_Suc [of "Suc fuel"] bind_eff_def scan_append split: outcome.split)
  qed
qed

end

end
