(* ===== verification/Inactive_Safety.thy ===== *)
theory Inactive_Safety
  imports Inactive_Destination Alert_Pass
begin

text \<open>
  What the inactivity jobs guarantee: whom they alert, that no alert is resolved for an entity that is alerted
  in the same pass, that the loop over the pages checks every row, and what becomes of the table of silent agents.
\<close>

section \<open>Ages\<close>

lemma time_sub_mono: "t \<le> t' \<Longrightarrow> u' \<le> u \<Longrightarrow> time_sub t u \<le> time_sub t' u'"
  by (auto simp: time_sub_def)

text \<open>
  An entity whose last event was at \<open>lastTime\<close> and that was checked at \<open>checkedAt\<close> is rightly alerted: it was
  silent for longer than its duration, and its last event was at most seven days before a reading of the clock.
\<close>

definition overdue :: "(nat \<Rightarrow> go_time) \<Rightarrow> duration \<Rightarrow> go_time \<Rightarrow> go_time \<Rightarrow> bool" where
  "overdue clock dur lastTime checkedAt \<longleftrightarrow> dur < time_sub checkedAt lastTime
     \<and> (\<exists>n. clock n \<le> checkedAt \<and> clock n - defaultRequiredEventsInLastSevenDays \<le> lastTime)"

lemma overdue_later:
  assumes "mono clock" and "dur < time_sub (clock m) t" and "lastTime \<le> t" and "m \<le> k"
    and "\<not> stale (clock n) lastTime" and "n \<le> k"
  shows "overdue clock dur lastTime (clock k)"
proof -
  have "clock m \<le> clock k" "clock n \<le> clock k" using assms(1,4,6) by (auto simp: mono_def)
  then show ?thesis
    using assms(2,5) time_sub_mono [OF \<open>clock m \<le> clock k\<close> assms(3)] unfolding overdue_def stale_def
    by (intro conjI exI [of _ n]) auto
qed

section \<open>Sources: one row\<close>

definition source_alert_sound :: "inactive_env \<Rightarrow> InActiveSource \<Rightarrow> bool" where
  "source_alert_sound env i \<longleftrightarrow>
     (mono (al_now env) \<longrightarrow> overdue (al_now env) (IasAlertDuration i) (IasLastEventTime i) (IasCheckedAt i))"

lemma check_fleets_adds:
  assumes "check_fleets env tms s dur fleets al aa one w = (Ok (al', aa', one'), w')"
  shows "\<exists>news. al' = al @ news \<and> (\<forall>i \<in> set news. IasSource i = s \<and> source_alert_sound env i) \<and> (aa' \<longrightarrow> aa \<and> news = [])"
  using assms
proof (induction fleets arbitrary: al aa one w)
  case Nil
  then show ?case by auto
next
  case (Cons fi fleets)
  define t where "t = (case tms (sourceFleetKey (SrcID s) (FleetId fi)) of None \<Rightarrow> SrcUpdatedAt s | Some t \<Rightarrow> t)"
  define now where "now = al_now env (aw_clock w)"
  define w1 where "w1 = w\<lparr>aw_clock := Suc (aw_clock w)\<rparr>"
  consider (skip) "check_fleets env tms s dur fleets al aa one w1 = (Ok (al', aa', one'), w')"
    | (active) "check_fleets env tms s dur fleets al aa True w1 = (Ok (al', aa', one'), w')"
    | (alert) i w2 where "dur < time_sub now t" "\<not> stale now t"
        "NewInActiveSourceWithFleet env s t dur (FleetId fi) (FleetName fi) w1 = (Ok i, w2)"
        "check_fleets env tms s dur fleets (al @ [i]) False one w2 = (Ok (al', aa', one'), w')"
    using Cons.prems
    by (auto simp: t_def [symmetric] now_def w1_def now_utc_def bind_eff_Ok split: if_splits)
  then show ?case
  proof cases
    case alert
    from alert(3) have "IasSource i = s" "IasAlertDuration i = dur" "IasLastEventTime i = t"
      "IasCheckedAt i = al_now env (Suc (aw_clock w))"
      by (auto simp: NewInActiveSourceWithFleet_def now_utc_def bind_eff_Ok w1_def)
    moreover have "source_alert_sound env i"
      unfolding source_alert_sound_def calculation
      using overdue_later [of "al_now env" dur "aw_clock w" t t "Suc (aw_clock w)" "aw_clock w"] alert(1,2)
      unfolding now_def by simp
    moreover from Cons.IH [OF alert(4)] obtain news where
      "al' = (al @ [i]) @ news" "\<forall>i \<in> set news. IasSource i = s \<and> source_alert_sound env i" "\<not> aa'" by auto
    ultimately show ?thesis by (intro exI [of _ "i # news"]) auto
  qed (use Cons.IH in blast)+
qed

text \<open>What the loop over the agents of a source has found, when the clock was read \<open>k\<close> times.\<close>

definition agents_found :: "inactive_env \<Rightarrow> duration \<Rightarrow> agent_scan \<Rightarrow> nat \<Rightarrow> bool" where
  "agents_found env dur r k \<longleftrightarrow>
     (\<forall>a \<in> set (inactiveAgentsForAlert r). earliestTime r \<le> IaLastEventTime a
        \<and> (\<exists>n \<le> k. dur < time_sub (al_now env n) (IaLastEventTime a)))
     \<and> (\<exists>n \<le> k. \<not> stale (al_now env n) (earliestTime r))
     \<and> set (inactiveAgentsForAlert r) \<subseteq> set (allInactiveAgents r)
     \<and> (allAgentsActive r \<longleftrightarrow> allInactiveAgents r = [])"

lemma agents_found_later: "agents_found env dur r j \<Longrightarrow> j \<le> k \<Longrightarrow> agents_found env dur r k"
  unfolding agents_found_def by (meson order_trans)

lemma check_agents_found:
  assumes "check_agents env tms s dur agents r w = (Ok r', w')" and "agents_found env dur r (aw_clock w)"
  shows "agents_found env dur r' (aw_clock w')"
  using assms
proof (induction agents arbitrary: r w)
  case Nil
  then show ?case by auto
next
  case (Cons ai agents)
  define t where "t = (case tms (sourceAgentKey (SrcID s) (AgentId ai)) of None \<Rightarrow> SrcUpdatedAt s | Some t \<Rightarrow> t)"
  define info where "info = \<lparr>IaAgentId = AgentId ai, IaAgentName = AgentName ai, IaLastEventTime = t\<rparr>"
  define r1 where "r1 = r\<lparr>allAgentsActive := False, allInactiveAgents := allInactiveAgents r @ [info]\<rparr>"
  define w1 where "w1 = w\<lparr>aw_clock := Suc (aw_clock w)\<rparr>"
  have later: "agents_found env dur r (aw_clock w1)" using agents_found_later Cons.prems(2) by (simp add: w1_def)
  consider (active) "check_agents env tms s dur agents r w1 = (Ok r', w')"
    | (old) "check_agents env tms s dur agents r1 w1 = (Ok r', w')"
    | (alert) "dur < time_sub (al_now env (aw_clock w)) t" "\<not> stale (al_now env (aw_clock w)) t"
        "check_agents env tms s dur agents
          (r1\<lparr>inactiveAgentsForAlert := inactiveAgentsForAlert r1 @ [info], earliestTime := min t (earliestTime r1)\<rparr>) w1 = (Ok r', w')"
    using Cons.prems(1)
    by (auto simp: t_def [symmetric] info_def [symmetric] r1_def [symmetric] w1_def Let_def now_utc_def bind_eff_Ok split: if_splits)
  then show ?case
  proof cases
    case active
    then show ?thesis using Cons.IH later by blast
  next
    case old
    have "agents_found env dur r1 (aw_clock w1)" using later unfolding agents_found_def r1_def by auto
    then show ?thesis using Cons.IH old by blast
  next
    case alert
    then have "\<exists>n \<le> Suc (aw_clock w). dur < time_sub (al_now env n) t" "\<exists>n \<le> Suc (aw_clock w). \<not> stale (al_now env n) t"
      by (meson le_SucI order_refl)+
    then have "agents_found env dur (r1\<lparr>inactiveAgentsForAlert := inactiveAgentsForAlert r1 @ [info], earliestTime := min t (earliestTime r1)\<rparr>) (aw_clock w1)"
      using later unfolding agents_found_def r1_def info_def w1_def
      by (auto simp: min_def)
    then show ?thesis using Cons.IH alert(3) by blast
  qed
qed

lemma grouped_alert_sound:
  assumes "agents_found env dur r k" and "inactiveAgentsForAlert r \<noteq> []" and "aw_clock w = k"
    and "NewInActiveSourceWithGroupedAgents env s (earliestTime r) dur (inactiveAgentsForAlert r) w = (Ok i, w')"
  shows "IasSource i = s" "source_alert_sound env i"
proof -
  have i: "IasSource i = s" "IasAlertDuration i = dur" "IasLastEventTime i = earliestTime r" "IasCheckedAt i = al_now env k"
    using assms(3,4) by (auto simp: NewInActiveSourceWithGroupedAgents_def now_utc_def bind_eff_Ok)
  from assms(1,2) obtain a :: InactiveAgentInfo and n n' where "earliestTime r \<le> IaLastEventTime a" "n \<le> k"
    "dur < time_sub (al_now env n) (IaLastEventTime a)" "n' \<le> k" "\<not> stale (al_now env n') (earliestTime r)"
    unfolding agents_found_def by (metis last_in_set)
  with overdue_later [of "al_now env" dur n "IaLastEventTime a" "earliestTime r" k n'] i
  show "IasSource i = s" "source_alert_sound env i" by (auto simp: source_alert_sound_def)
qed

text \<open>The step of a scan: a source gives alerts about itself or becomes active.\<close>

definition source_added :: "inactive_env \<Rightarrow> Source \<Rightarrow> source_scan \<Rightarrow> source_scan \<Rightarrow> bool" where
  "source_added env s acc acc' \<longleftrightarrow>
     (\<exists>news. fst acc' = fst acc @ news \<and> (\<forall>i \<in> set news. IasSource i = s \<and> source_alert_sound env i)
        \<and> (fst (snd acc') = fst (snd acc) \<or> fst (snd acc') = fst (snd acc) @ [s] \<and> news = []))"

lemma source_added_none: "fst acc' = fst acc \<Longrightarrow> fst (snd acc') = fst (snd acc) \<Longrightarrow> source_added env s acc acc'"
  by (auto simp: source_added_def)

lemma check_multi_fleet_adds:
  assumes "check_multi_fleet env tms fleets s dur acc w = (Ok acc', w')"
  shows "source_added env s acc acc'"
proof -
  obtain al ac tr where acc: "acc = (al, ac, tr)" by (cases acc)
  with assms obtain al' aa one w1 where "check_fleets env tms s dur fleets al True False w = (Ok (al', aa, one), w1)"
    and "acc' = (al', if aa \<and> one then ac @ [s] else ac, tr)"
    by (auto simp: check_multi_fleet_def bind_eff_Ok)
  with check_fleets_adds [OF this(1)] acc show ?thesis by (auto simp: source_added_def)
qed

lemma check_agent_source_adds:
  assumes "check_agent_source env tms agents s dur acc w = (Ok acc', w')"
  shows "source_added env s acc acc'"
proof -
  obtain al ac tr where acc: "acc = (al, ac, tr)" by (cases acc)
  define r0 where "r0 = \<lparr>inactiveAgentsForAlert = [], allInactiveAgents = [], earliestTime = al_now env (aw_clock w), allAgentsActive = True\<rparr>"
  define w0 where "w0 = w\<lparr>aw_clock := Suc (aw_clock w)\<rparr>"
  from assms acc obtain r w1 where r: "check_agents env tms s dur agents r0 w0 = (Ok r, w1)"
    and rest: "(if inactiveAgentsForAlert r \<noteq> [] then
        \<exists>i tr'. NewInActiveSourceWithGroupedAgents env s (earliestTime r) dur (inactiveAgentsForAlert r) w1 = (Ok i, w')
          \<and> acc' = (al @ [i], if allAgentsActive r then ac @ [s] else ac, tr')
      else \<exists>tr'. acc' = (al, if allAgentsActive r then ac @ [s] else ac, tr'))"
    by (auto simp: check_agent_source_def r0_def w0_def now_utc_def bind_eff_Ok Let_def split: if_splits)
  have "\<not> stale (al_now env (aw_clock w)) (al_now env (aw_clock w))"
    by (simp add: stale_def defaultRequiredEventsInLastSevenDays_def)
  then have "agents_found env dur r0 (aw_clock w0)"
    unfolding agents_found_def r0_def w0_def by simp (meson le_SucI order_refl)
  with check_agents_found r have found: "agents_found env dur r (aw_clock w1)" by blast
  show ?thesis
  proof (cases "inactiveAgentsForAlert r = []")
    case True
    with rest acc show ?thesis by (auto simp: source_added_def)
  next
    case False
    with found have "\<not> allAgentsActive r" unfolding agents_found_def by (metis set_empty subset_empty)
    moreover from False rest obtain i tr' where
      i: "NewInActiveSourceWithGroupedAgents env s (earliestTime r) dur (inactiveAgentsForAlert r) w1 = (Ok i, w')"
      and acc': "acc' = (al @ [i], if allAgentsActive r then ac @ [s] else ac, tr')" by auto
    moreover note grouped_alert_sound [OF found False refl i]
    ultimately show ?thesis by (simp add: source_added_def acc)
  qed
qed

lemma check_plain_source_adds:
  assumes "check_plain_source env tms s dur acc w = (Ok acc', w')"
  shows "source_added env s acc acc'"
proof -
  obtain al ac tr where acc: "acc = (al, ac, tr)" by (cases acc)
  define k where "k = aw_clock w"
  from assms acc consider (none) "acc' = acc" | (active) "acc' = (al, ac @ [s], tr)"
    | (alert) t i where "dur < time_sub (al_now env k) t" "\<not> stale (al_now env k) t" "acc' = (al @ [i], ac, tr)"
        "NewInActiveSource env s t dur (w\<lparr>aw_clock := Suc k\<rparr>) = (Ok i, w')"
    by (auto simp: check_plain_source_def k_def now_utc_def bind_eff_Ok split: option.splits if_splits)
  then show ?thesis
  proof cases
    case alert
    from alert(4) have i: "IasSource i = s" "IasAlertDuration i = dur" "IasLastEventTime i = t" "IasCheckedAt i = al_now env (Suc k)"
      by (auto simp: NewInActiveSource_def now_utc_def bind_eff_Ok)
    then have "source_alert_sound env i" unfolding source_alert_sound_def i
      using overdue_later [of "al_now env" dur k t t "Suc k" k] alert(1,2) by simp
    with i(1) alert(3) acc show ?thesis by (auto simp: source_added_def)
  qed (auto simp: source_added_def acc)
qed

lemma check_source_adds:
  assumes "check_source env tms pg s acc w = (Ok acc', w')"
  shows "source_added env s acc acc'"
  using assms check_multi_fleet_adds check_agent_source_adds check_plain_source_adds
  by (auto simp: check_source_def Let_def source_added_none split: option.splits if_splits prod.splits)

section \<open>Sources: the loop over the pages\<close>

lemma quiet_new [quiets]:
  "keeps quiet (NewInActiveSource env s t dur)" "keeps quiet (NewInActiveSourceWithFleet env s t dur f n)"
  "keeps quiet (NewInActiveSourceWithGroupedAgents env s t dur as)"
  by (simp_all add: NewInActiveSource_def NewInActiveSourceWithFleet_def NewInActiveSourceWithGroupedAgents_def quiets)

lemma quiet_check_fleets [quiets]: "keeps quiet (check_fleets env tms s dur fleets al aa one)"
  by (induction fleets arbitrary: al aa one) (auto simp: Let_def intro!: quiets)

lemma quiet_check_agents [quiets]: "keeps quiet (check_agents env tms s dur agents r)"
  by (induction agents arbitrary: r) (auto simp: Let_def intro!: quiets)

lemma quiet_check_source [quiets]: "keeps quiet (check_source env tms pg s acc)"
  by (cases acc)
    (auto simp: check_source_def check_multi_fleet_def check_agent_source_def check_plain_source_def Let_def
      intro!: quiets split: option.split prod.split)

lemma quiet_source_reads [quiets]:
  "keeps quiet (ReadSourcesPaginated env tenantId page n statuses)" "keeps quiet (read_source_page env tenantId sources)"
  "keeps quiet (getAllLogSourcesOfTenant env tenantId)"
  by (auto simp: ReadSourcesPaginated_def read_source_page_def ReadEntityConfigs_def GetFleetsBySourceIDs_def
      GetAgentsBySourceIDs_def getAllLogSourcesOfTenant_def intro!: quiets)

abbreviation live_statuses :: "string list" where
  "live_statuses \<equiv> [''ACTIVE'', ''ERRORED'', ''DEPLOYING'']"

interpretation src: page_scan "check_source env tms" "check_sources env tms"
  "\<lambda>page. ReadSourcesPaginated env tenantId page 50 live_statuses" "read_source_page env tenantId"
  "\<lambda>fuel page acc. source_pages fuel env tenantId tms page acc" "fst" "fst \<circ> snd" IasSource "source_alert_sound env"
  for env tms tenantId
proof unfold_locales
  fix c s acc w acc' w'
  assume "check_source env tms c s acc w = (Ok acc', w')"
  from check_source_adds [OF this]
  show "\<exists>news. fst acc' = fst acc @ news \<and> (\<forall>x \<in> set news. IasSource x = s \<and> source_alert_sound env x)
      \<and> ((fst \<circ> snd) acc' = (fst \<circ> snd) acc \<or> (fst \<circ> snd) acc' = (fst \<circ> snd) acc @ [s] \<and> news = [])"
    by (simp add: source_added_def)
qed (auto intro: quiets)

definition live_sources :: "inactive_env \<Rightarrow> string \<Rightarrow> inactive_world \<Rightarrow> Source list" where
  "live_sources env tenantId w = ie_rows env 0 (source_rows tenantId live_statuses w)"

text \<open>
  Pages are cut from the rows of separate queries that ask for no order.  They fit together when every query
  returns the rows in the same order, and ids, the primary key of the table, are distinct.
\<close>

definition stable_sources :: "inactive_env \<Rightarrow> string \<Rightarrow> inactive_world \<Rightarrow> bool" where
  "stable_sources env tenantId w \<longleftrightarrow>
     (\<forall>n. ie_rows env n (source_rows tenantId live_statuses w) = live_sources env tenantId w)
     \<and> distinct (map SrcID (live_sources env tenantId w))"

lemma more_sources: "alert_world.more w' = alert_world.more w \<Longrightarrow> iw_sources w' = iw_sources w"
  by (cases w; cases w') simp

lemma read_sources_page:
  assumes "stable_sources env tenantId w" and "alert_world.more v = alert_world.more w"
    and "ReadSourcesPaginated env tenantId p 50 live_statuses v = (Ok r, v')"
  shows "r = take 50 (drop (p * 50) (live_sources env tenantId w))"
  using assms more_sources [OF assms(2)]
  by (auto simp: ReadSourcesPaginated_def al_query_def Let_def stable_sources_def source_rows_def split: option.splits)

lemma find_sources_adds:
  assumes "stable_sources env tenantId w" and "alert_world.more v = alert_world.more w"
    and "findInactiveAndActiveSources env tenantId tms tr v = (Ok acc, v')"
  shows "src.adds env (live_sources env tenantId w) ([], [], tr) acc"
  using src.pages_adds [OF assms(3) [unfolded findInactiveAndActiveSources_def], of "alert_world.more w" 50]
    read_sources_page [OF assms(1)] assms(2)
  by simp

lemma find_sources_disjoint:
  assumes "stable_sources env tenantId w" and "alert_world.more v = alert_world.more w"
    and "findInactiveAndActiveSources env tenantId tms tr v = (Ok (al, ac, tr'), v')"
  shows "(SrcID \<circ> IasSource) ` set al \<inter> SrcID ` set ac = {}"
  using find_sources_adds [OF assms] assms(1) unfolding src.adds_def stable_sources_def by auto

section \<open>Sources: what a tenant's pass sends\<close>

interpretation srca: alert_check "buildAlert env" "SrcID \<circ> IasSource" "open_source_alerts env tenantId"
  for env tenantId
  by unfold_locales
    (auto simp: buildAlert_def open_source_alerts_def source_alert_options_def source_entity_def intro!: quiets
      dest!: NewAlert_entity(1))

definition no_flapping :: "Alert list \<Rightarrow> AlertDocument list \<Rightarrow> bool" where
  "no_flapping as docs \<longleftrightarrow> (\<forall>a \<in> set as. \<forall>d \<in> set docs. DocEntityId d \<noteq> FunctionalityEntityId a)"

lemma quiet_source_times [quiets]: "keeps quiet (source_times_of env tenantId sources)"
  by (auto simp: source_times_of_def getSourceIdToLastEventTime_def getSourceFleetLastEventTimes_def
      getSourceAgentLastEventTimes_def Let_def intro!: quiets)

lemma silent_sent [simp]: "aw_sent (snd (insert_silent env tenantId now rows w)) = aw_sent w"
proof (induction rows arbitrary: w)
  case (Cons row rows)
  show ?case
    by (cases row; cases "al_fault env (aw_operations w)")
      (simp_all add: bind_eff_def try_eff_def al_update_def Let_def Cons.IH)
qed simp

lemma save_sent: "aw_sent (snd (try_eff (SaveToDatabase env tr tenantId) w)) = aw_sent w"
proof -
  have "aw_sent (snd (SaveToDatabase env tr tenantId w)) = aw_sent w"
    by (cases "al_fault env (aw_operations w)") (simp_all add: SaveToDatabase_def bind_eff_def al_update_def now_utc_def Let_def)
  then show ?thesis by (auto simp: try_eff_def split: prod.splits outcome.splits)
qed

text \<open>The end of a tenant's pass, once the sources are sorted.\<close>

definition sends_well :: "alert_message list \<Rightarrow> alert_message list \<Rightarrow> bool" where
  "sends_well before after \<longleftrightarrow>
     (\<exists>as docs. after = before @ map SendAlert as @ map (AutoResolve \<circ> DocId) docs \<and> no_flapping as docs)"

lemma sends_nothing: "sends_well s s"
  unfolding sends_well_def by (intro exI [of _ "[]"]) (simp add: no_flapping_def)

lemma source_pass_sends:
  assumes "(SrcID \<circ> IasSource) ` set al \<inter> SrcID ` set ac = {}"
  shows "sends_well (aw_sent w) (aw_sent (snd (send_and_dismiss_sources env tenantId (al, ac, tr) w)))"
proof -
  define p where "p = ''error sending in-app alerts for tenant '' @ tenantId @ '': ''"
  define m where "m = bind_eff (if al = [] then eff_return () else wrap_eff p (sendInAppAlerts env al)) (\<lambda>_.
      dismiss_source_alerts env tenantId ac)"
  obtain r w' where m: "m w = (r, w')" by fastforce
  from srca.alert_pass [OF m [unfolded m_def sendInAppAlerts_def dismiss_source_alerts_def]] obtain as and docs :: "AlertDocument list"
    where "aw_sent w' = aw_sent w @ map SendAlert as @ map (AutoResolve \<circ> DocId) docs"
      "FunctionalityEntityId ` set as \<subseteq> (SrcID \<circ> IasSource) ` set al" "\<forall>d \<in> set docs. DocEntityId d \<in> set (map SrcID ac)"
    by blast
  moreover from this(2,3) assms have "no_flapping as docs" unfolding no_flapping_def by fastforce
  moreover have "aw_sent (snd (bind_eff m (\<lambda>_. bind_eff (try_eff (SaveToDatabase env tr tenantId)) (\<lambda>_. eff_return ())) w)) = aw_sent w'"
    using m by (simp add: bind_sent save_sent)
  moreover have "send_and_dismiss_sources env tenantId (al, ac, tr) =
      bind_eff m (\<lambda>_. bind_eff (try_eff (SaveToDatabase env tr tenantId)) (\<lambda>_. eff_return ()))"
    by (simp add: send_and_dismiss_sources_def m_def p_def bind_eff_assoc)
  ultimately show ?thesis unfolding sends_well_def by (intro exI [of _ as] exI [of _ docs]) simp
qed

lemma live_sources_sends:
  assumes "stable_sources env tenantId w" and "quiet w v"
  shows "sends_well (aw_sent w) (aw_sent (snd (check_live_sources env tenantId sources v)))"
  unfolding check_live_sources_def
proof (intro quiet_bind_sent [where Q = "sends_well (aw_sent w)"])
  fix tms v1 acc v2
  assume "quiet v v1" "quiet v1 v2"
    and f: "wrap_eff (''error finding inactive sources for tenant '' @ tenantId @ '': '')
         (findInactiveAndActiveSources env tenantId tms NewAgentUnhealthySourceTracker) v1 = (Ok acc, v2)"
  with assms(2) have s: "aw_sent v2 = aw_sent w" "alert_world.more v1 = alert_world.more w" by (auto simp: quiet_def)
  obtain al ac tr where acc: "acc = (al, ac, tr)" by (cases acc)
  from find_sources_disjoint [OF assms(1) s(2)] f acc
  have "(SrcID \<circ> IasSource) ` set al \<inter> SrcID ` set ac = {}" by (auto simp: wrap_eff_Ok)
  from source_pass_sends [OF this, of v2] s(1) acc
  show "sends_well (aw_sent w) (aw_sent (snd (send_and_dismiss_sources env tenantId acc v2)))" by simp
qed (use assms(2) in \<open>auto simp: quiet_def findInactiveAndActiveSources_def intro!: quiets src.pages_quiet sends_nothing\<close>)

lemma source_tenant_sends:
  assumes "stable_sources env tenantId w"
  shows "sends_well (aw_sent w) (aw_sent (snd (check_source_tenant env tenantId w)))"
  unfolding check_source_tenant_def
  by (rule quiet_bind_sent [where Q = "sends_well (aw_sent w)"])
    (auto simp: quiet_def intro!: quiets sends_nothing live_sources_sends assms)

section \<open>Sources: every row is checked\<close>

lemma clocked_new [clocks]:
  "clocked (NewInActiveSource env s t dur)" "clocked (NewInActiveSourceWithFleet env s t dur f n)"
  "clocked (NewInActiveSourceWithGroupedAgents env s t dur as)"
  by (auto simp: NewInActiveSource_def NewInActiveSourceWithFleet_def NewInActiveSourceWithGroupedAgents_def intro!: clocks)

lemma clocked_check_fleets [clocks]: "clocked (check_fleets env tms s dur fleets al aa one)"
  by (induction fleets arbitrary: al aa one) (auto simp: Let_def intro!: clocks)

lemma clocked_check_agents [clocks]: "clocked (check_agents env tms s dur agents r)"
  by (induction agents arbitrary: r) (auto simp: Let_def intro!: clocks)

lemma clocked_check_source [clocks]: "clocked (check_source env tms pg s acc)"
  by (cases acc)
    (auto simp: check_source_def check_multi_fleet_def check_agent_source_def check_plain_source_def Let_def
      intro!: clocks split: option.split prod.split)

text \<open>The data read for some sources, when no read fails.\<close>

definition grouped :: "('k \<times> 'v) list \<Rightarrow> ('k \<times> 'v list) list" where
  "grouped rows = fold (\<lambda>r. group_append (fst r) (snd r)) rows []"

definition source_context :: "string \<Rightarrow> inactive_world \<Rightarrow> Source list \<Rightarrow> source_page" where
  "source_context tenantId w rows =
     \<lparr>alertConfigsBySourceId = configs_by_id (filter (\<lambda>c. EcTenantID c = tenantId \<and> EntityType c = LogSourceEntityType
        \<and> EcAlertType c = ''LOG_SOURCE_INACTIVITY'' \<and> EntityID c \<in> set (map SrcID rows)) (iw_configs w)),
      sourceToFleets = grouped (filter (\<lambda>r. fst r \<in> set (map SrcID (filter (\<lambda>s. Scope s = ''FLEET'') rows))) (iw_fleets w)),
      sourceToAgents = grouped (filter (\<lambda>r. fst r \<in> set (map SrcID (filter (\<lambda>s. Scope s = ''AGENT'') rows))) (iw_agents w))\<rparr>"

lemma group_members_grouped: "group_members (grouped rows) k = map snd (filter (\<lambda>r. fst r = k) rows)"
proof -
  have "group_members (fold (\<lambda>r. group_append (fst r) (snd r)) rows m) k = group_members m k @ map snd (filter (\<lambda>r. fst r = k) rows)" for m
    by (induction rows arbitrary: m) auto
  then show ?thesis by (simp add: grouped_def)
qed

lemma configs_by_id_filter:
  assumes "\<And>c. EntityID c = k \<Longrightarrow> P c = Q c"
  shows "configs_by_id (filter P cs) k = configs_by_id (filter Q cs) k"
  using assms by (induction cs rule: rev_induct) (auto simp: configs_by_id_def map_add_def split: option.split)

lemma source_context_agrees:
  assumes "s \<in> set rs" and "set rs \<subseteq> set rows"
  shows "check_source env tms (source_context tenantId w rs) s acc = check_source env tms (source_context tenantId w rows) s acc"
proof -
  have s: "s \<in> set rows" using assms by blast
  have "alertConfigsBySourceId (source_context tenantId w rs) (SrcID s) = alertConfigsBySourceId (source_context tenantId w rows) (SrcID s)"
    unfolding source_context_def source_page.simps
    by (rule configs_by_id_filter) (use assms(1) s in auto)
  then have "source_duration (alertConfigsBySourceId (source_context tenantId w rs)) s
      = source_duration (alertConfigsBySourceId (source_context tenantId w rows)) s"
    by (simp add: source_duration_def)
  moreover have "Scope s = ''FLEET'' \<Longrightarrow> group_members (sourceToFleets (source_context tenantId w rs)) (SrcID s)
      = group_members (sourceToFleets (source_context tenantId w rows)) (SrcID s)"
    unfolding source_context_def source_page.simps group_members_grouped filter_filter
    by (intro arg_cong [of _ _ "map snd"] filter_cong) (use assms(1) s in auto)
  moreover have "Scope s = ''AGENT'' \<Longrightarrow> group_members (sourceToAgents (source_context tenantId w rs)) (SrcID s)
      = group_members (sourceToAgents (source_context tenantId w rows)) (SrcID s)"
    unfolding source_context_def source_page.simps group_members_grouped filter_filter
    by (intro arg_cong [of _ _ "map snd"] filter_cong) (use assms(1) s in auto)
  ultimately show ?thesis
    unfolding check_source_def Let_def by (auto split: option.split)
qed

lemma more_tables:
  "alert_world.more w' = alert_world.more w \<Longrightarrow>
     iw_configs w' = iw_configs w \<and> iw_fleets w' = iw_fleets w \<and> iw_agents w' = iw_agents w \<and> iw_destinations w' = iw_destinations w"
  by (cases w; cases w') simp

lemma read_parts_Ok:
  assumes "al_fault env = (\<lambda>_. None)"
  shows "GetFleetsBySourceIDs env ids v = (Ok (grouped (filter (\<lambda>r. fst r \<in> set ids) (iw_fleets v))),
      if ids = [] then v else v\<lparr>aw_operations := Suc (aw_operations v)\<rparr>)"
    "GetAgentsBySourceIDs env ids v = (Ok (grouped (filter (\<lambda>r. fst r \<in> set ids) (iw_agents v))),
      if ids = [] then v else v\<lparr>aw_operations := Suc (aw_operations v)\<rparr>)"
  using assms by (auto simp: GetFleetsBySourceIDs_def GetAgentsBySourceIDs_def grouped_def wrap_eff_def al_query_def Let_def)

lemma read_source_page_Ok:
  assumes "al_fault env = (\<lambda>_. None)" and "alert_world.more v = alert_world.more w"
  shows "\<exists>v'. read_source_page env tenantId rs v = (Ok (source_context tenantId w rs), v') \<and> aw_clock v' = aw_clock v"
  using more_tables [OF assms(2)] assms(1)
  by (simp add: read_source_page_def source_context_def ReadEntityConfigs_def read_parts_Ok al_query_def bind_eff_def Let_def)

lemma read_sources_page_Ok:
  assumes "al_fault env = (\<lambda>_. None)" and "stable_sources env tenantId w" and "alert_world.more v = alert_world.more w"
  shows "\<exists>v'. ReadSourcesPaginated env tenantId p 50 live_statuses v
    = (Ok (take 50 (drop (p * 50) (live_sources env tenantId w))), v') \<and> aw_clock v' = aw_clock v"
  using assms more_sources [OF assms(3)]
  by (auto simp: ReadSourcesPaginated_def al_query_def Let_def stable_sources_def source_rows_def)

lemma find_sources_complete:
  assumes "al_fault env = (\<lambda>_. None)" and "stable_sources env tenantId w"
    and "length (live_sources env tenantId w) < fuel * 50" and "al_fuel env = Suc fuel"
  shows "fst (findInactiveAndActiveSources env tenantId tms tr w)
    = fst (check_sources env tms (source_context tenantId w (live_sources env tenantId w)) (live_sources env tenantId w) ([], [], tr) w)"
proof -
  let ?rows = "live_sources env tenantId w"
  let ?c = "source_context tenantId w ?rows"
  have "fst (source_pages (Suc fuel) env tenantId tms 0 ([], [], tr) w) = fst (check_sources env tms ?c (drop (0 * 50) ?rows) ([], [], tr) w)"
  proof (rule src.pages_complete [where tables = "alert_world.more w"])
    fix v rs
    assume "alert_world.more v = alert_world.more w" "set rs \<subseteq> set ?rows"
    with read_source_page_Ok [OF assms(1)] source_context_agrees
    show "\<exists>c v'. read_source_page env tenantId rs v = (Ok c, v') \<and> aw_clock v' = aw_clock v
        \<and> (\<forall>s \<in> set rs. \<forall>acc. check_source env tms c s acc = check_source env tms ?c s acc)" by metis
  qed (use assms(3) read_sources_page_Ok [OF assms(1,2)] in \<open>auto intro: clocks\<close>)
  then show ?thesis by (simp only: findInactiveAndActiveSources_def assms(4) mult_0 drop_0)
qed

section \<open>The table of silent agents\<close>

definition silent_key :: "silent_source_row \<Rightarrow> string \<times> string \<times> string \<times> int" where
  "silent_key r = (SsSourceId r, SsSourceName r, SsAgentId r, SsLastInactive r)"

definition tracked_keys :: "(string \<times> SourceUnhealthyData) list \<Rightarrow> (string \<times> string \<times> string \<times> int) list" where
  "tracked_keys rows = concat (map (\<lambda>(sourceId, d).
     map (\<lambda>a. (sourceId, UnhealthySourceName d, IaAgentId a, unix_milli (IaLastEventTime a))) (UnhealthyAgents d)) rows)"

lemma tracked_keys_rows:
  "map (\<lambda>(sourceId, name, a). (sourceId, name, IaAgentId a, unix_milli (IaLastEventTime a)))
     (concat (map (\<lambda>(sourceId, d). map (\<lambda>a. (sourceId, UnhealthySourceName d, a)) (UnhealthyAgents d)) rows)) = tracked_keys rows"
  by (induction rows) (auto simp: tracked_keys_def)

lemma insert_silent_rows:
  "\<exists>news. iw_silent (snd (insert_silent env tenantId now rows w)) = iw_silent w @ news \<and> (\<forall>r \<in> set news. SsTenantId r = tenantId)
     \<and> (al_fault env = (\<lambda>_. None) \<longrightarrow> map silent_key news =
         map (\<lambda>(sourceId, name, a). (sourceId, name, IaAgentId a, unix_milli (IaLastEventTime a))) rows)"
proof (induction rows arbitrary: w)
  case (Cons row rows)
  obtain sourceId name a where row: "row = (sourceId, name, a)" by (cases row)
  show ?case
  proof (cases "al_fault env (aw_operations w)")
    case None
    define r where "r = \<lparr>SsId = ie_uuid env (Suc (aw_operations w)), SsTenantId = tenantId, SsAgentId = IaAgentId a, SsSourceId = sourceId,
      SsSourceName = name, SsLastInactive = unix_milli (IaLastEventTime a), SsCreatedAt = now, SsUpdatedAt = now\<rparr>"
    from Cons.IH [of "w\<lparr>aw_operations := Suc (aw_operations w), iw_silent := iw_silent w @ [r]\<rparr>"] obtain news where
      "iw_silent (snd (insert_silent env tenantId now rows (w\<lparr>aw_operations := Suc (aw_operations w), iw_silent := iw_silent w @ [r]\<rparr>)))
         = iw_silent w @ r # news" "\<forall>r \<in> set news. SsTenantId r = tenantId"
      "al_fault env = (\<lambda>_. None) \<longrightarrow> map silent_key news =
         map (\<lambda>(sourceId, name, a). (sourceId, name, IaAgentId a, unix_milli (IaLastEventTime a))) rows" by auto
    moreover have "silent_key r = (sourceId, name, IaAgentId a, unix_milli (IaLastEventTime a))" "SsTenantId r = tenantId"
      by (simp_all add: r_def silent_key_def)
    moreover have "snd (insert_silent env tenantId now (row # rows) w) = snd (insert_silent env tenantId now rows
        (w\<lparr>aw_operations := Suc (aw_operations w), iw_silent := iw_silent w @ [r]\<rparr>))"
      using None by (simp add: row bind_eff_def try_eff_def al_update_def Let_def r_def)
    ultimately show ?thesis by (intro exI [of _ "r # news"]) (simp add: row)
  next
    case (Some e)
    from Cons.IH [of "w\<lparr>aw_operations := Suc (aw_operations w)\<rparr>"] Some row show ?thesis
      by (auto simp: bind_eff_def try_eff_def al_update_def Let_def)
  qed
qed simp

lemma save_rows:
  "\<exists>news. iw_silent (snd (SaveToDatabase env tr tenantId w)) =
     (if al_fault env (aw_operations w) = None then filter (\<lambda>r. SsTenantId r \<noteq> tenantId) (iw_silent w) @ news else iw_silent w)
   \<and> (\<forall>r \<in> set news. SsTenantId r = tenantId)
   \<and> (al_fault env = (\<lambda>_. None) \<longrightarrow> map silent_key news = (if sourceUnhealthyAgents tr = [] then [] else tracked_keys (ie_tracker_rows env (sourceUnhealthyAgents tr))))"
proof (cases "al_fault env (aw_operations w)")
  case None
  show ?thesis
  proof (cases "sourceUnhealthyAgents tr = []")
    case True
    with None show ?thesis by (intro exI [of _ "[]"]) (simp add: SaveToDatabase_def bind_eff_def al_update_def Let_def)
  next
    case False
    define rows where "rows = concat (map (\<lambda>(sourceId, d). map (\<lambda>a. (sourceId, UnhealthySourceName d, a)) (UnhealthyAgents d))
      (ie_tracker_rows env (sourceUnhealthyAgents tr)))"
    define w1 where "w1 = w\<lparr>aw_operations := Suc (aw_operations w), iw_silent := filter (\<lambda>r. SsTenantId r \<noteq> tenantId) (iw_silent w),
      aw_clock := Suc (aw_clock w)\<rparr>"
    have "SaveToDatabase env tr tenantId w = insert_silent env tenantId (al_now env (aw_clock w)) rows w1"
      using None False by (simp add: SaveToDatabase_def bind_eff_def al_update_def now_utc_def Let_def rows_def w1_def)
    moreover have "map (\<lambda>(sourceId, name, a). (sourceId, name, IaAgentId a, unix_milli (IaLastEventTime a))) rows
        = tracked_keys (ie_tracker_rows env (sourceUnhealthyAgents tr))"
      unfolding rows_def by (rule tracked_keys_rows)
    ultimately show ?thesis
      using insert_silent_rows [of env tenantId "al_now env (aw_clock w)" rows w1] None False by (auto simp: w1_def)
  qed
next
  case (Some e)
  then show ?thesis by (intro exI [of _ "[]"]) (auto simp: SaveToDatabase_def bind_eff_def al_update_def Let_def)
qed

lemma tracked_keys_mset: "mset xs = mset ys \<Longrightarrow> mset (tracked_keys xs) = mset (tracked_keys ys)"
proof -
  have "mset (tracked_keys zs) = (\<Sum>z \<in># mset zs. mset (tracked_keys [z]))" for zs
    by (induction zs) (simp_all add: tracked_keys_def)
  from this [of xs] this [of ys] show "mset xs = mset ys \<Longrightarrow> mset (tracked_keys xs) = mset (tracked_keys ys)" by (simp only:)
qed

section \<open>Destinations\<close>

definition destination_alert_sound :: "inactive_env \<Rightarrow> InactiveDestination \<Rightarrow> bool" where
  "destination_alert_sound env i \<longleftrightarrow> overdue (al_now env) (IadAlertDuration i) (IadLastEventTime i) (IadCheckedAt i)"

definition destination_configs :: "inactive_env \<Rightarrow> string \<Rightarrow> Destination list \<Rightarrow> (string \<rightharpoonup> EntityAlertsConfig) inact" where
  "destination_configs env tenantId ds =
     bind_eff (ReadEntityConfigs env DestinationEntityType ''DESTINATION_INACTIVITY'' tenantId (map DstID ds)) (\<lambda>alertConfigs.
       eff_return (configs_by_id alertConfigs))"

lemma check_destination_adds:
  assumes "check_destination env tms c s acc w = (Ok acc', w')"
  shows "\<exists>news. fst acc' = fst acc @ news \<and> (\<forall>i \<in> set news. IadDestination i = s \<and> destination_alert_sound env i)
    \<and> (snd acc' = snd acc \<or> snd acc' = snd acc @ [s] \<and> news = [])"
proof -
  obtain al ac where acc: "acc = (al, ac)" by (cases acc)
  define now where "now = al_now env (aw_clock w)"
  from assms acc consider (none) "acc' = acc" | (active) "acc' = (al, ac @ [s])"
    | (alert) t dur where "dur < time_sub now t" "\<not> stale now t" "acc' = (al @ [NewInactiveDestination s t dur now], ac)"
    by (auto simp: check_destination_def now_def now_utc_def bind_eff_Ok split: option.splits if_splits)
  then show ?thesis
  proof cases
    case alert
    then have "destination_alert_sound env (NewInactiveDestination s t dur now)"
      unfolding destination_alert_sound_def overdue_def stale_def now_def NewInactiveDestination_def by auto
    with alert(3) acc show ?thesis
      by (intro exI [of _ "[NewInactiveDestination s t dur now]"]) (simp add: NewInactiveDestination_def)
  qed (use acc in auto)
qed

lemma quiet_check_destination [quiets]: "keeps quiet (check_destination env tms c s acc)"
  by (cases acc) (auto simp: check_destination_def intro!: quiets split: option.split)

lemma quiet_destination_reads [quiets]:
  "keeps quiet (readDestinationsPaginated env tenantId page n statuses)" "keeps quiet (destination_configs env tenantId ds)"
  "keeps quiet (getDestinationIdToLastEventTime env tenantId)"
  by (auto simp: readDestinationsPaginated_def destination_configs_def ReadEntityConfigs_def getDestinationIdToLastEventTime_def intro!: quiets)

interpretation dst: page_scan "check_destination env tms" "check_destinations env tms"
  "\<lambda>page. readDestinationsPaginated env tenantId page 50 live_statuses" "destination_configs env tenantId"
  "\<lambda>fuel page acc. destination_pages fuel env tenantId tms page acc" "fst" "snd" IadDestination "destination_alert_sound env"
  for env tms tenantId
proof unfold_locales
  fix c s acc w acc' w'
  assume "check_destination env tms c s acc w = (Ok acc', w')"
  from check_destination_adds [OF this]
  show "\<exists>news. fst acc' = fst acc @ news \<and> (\<forall>x \<in> set news. IadDestination x = s \<and> destination_alert_sound env x)
      \<and> (snd acc' = snd acc \<or> snd acc' = snd acc @ [s] \<and> news = [])" .
next
  fix fuel page acc
  show "destination_pages (Suc fuel) env tenantId tms page acc = bind_eff (readDestinationsPaginated env tenantId page 50 live_statuses) (\<lambda>rows.
      if rows = [] then eff_return acc
      else bind_eff (destination_configs env tenantId rows) (\<lambda>c.
        bind_eff (check_destinations env tms c rows acc) (destination_pages fuel env tenantId tms (Suc page))))"
    by (rule ext) (simp add: destination_configs_def bind_eff_assoc bind_eff_return cong: if_cong)
qed (auto intro: quiets)

interpretation dsta: alert_check "buildDestAlert env" "DstID \<circ> IadDestination" "open_destination_alerts env tenantId"
  for env tenantId
  by unfold_locales
    (auto simp: buildDestAlert_def open_destination_alerts_def destination_alert_options_def destination_entity_def bind_eff_Ok
      intro!: quiets dest!: NewAlert_entity(1))

definition live_destinations :: "inactive_env \<Rightarrow> string \<Rightarrow> inactive_world \<Rightarrow> Destination list" where
  "live_destinations env tenantId w = ie_destination_rows env 0 (destination_rows tenantId live_statuses w)"

definition stable_destinations :: "inactive_env \<Rightarrow> string \<Rightarrow> inactive_world \<Rightarrow> bool" where
  "stable_destinations env tenantId w \<longleftrightarrow>
     (\<forall>n. ie_destination_rows env n (destination_rows tenantId live_statuses w) = live_destinations env tenantId w)
     \<and> distinct (map DstID (live_destinations env tenantId w))"

lemma read_destinations_page:
  assumes "stable_destinations env tenantId w" and "alert_world.more v = alert_world.more w"
    and "readDestinationsPaginated env tenantId p 50 live_statuses v = (Ok r, v')"
  shows "r = take 50 (drop (p * 50) (live_destinations env tenantId w))"
  using assms more_tables [OF assms(2)]
  by (auto simp: readDestinationsPaginated_def al_query_def Let_def stable_destinations_def destination_rows_def split: option.splits)

lemma find_destinations_adds:
  assumes "stable_destinations env tenantId w" and "alert_world.more v = alert_world.more w"
    and "findInactiveAndActiveDestinations env tenantId tms v = (Ok acc, v')"
  shows "dst.adds env (live_destinations env tenantId w) ([], []) acc"
  using dst.pages_adds [OF assms(3) [unfolded findInactiveAndActiveDestinations_def], of "alert_world.more w" 50]
    read_destinations_page [OF assms(1)] assms(2)
  by simp

lemma find_destinations_disjoint:
  assumes "stable_destinations env tenantId w" and "alert_world.more v = alert_world.more w"
    and "findInactiveAndActiveDestinations env tenantId tms v = (Ok (al, ac), v')"
  shows "(DstID \<circ> IadDestination) ` set al \<inter> DstID ` set ac = {}"
  using find_destinations_adds [OF assms] assms(1) unfolding dst.adds_def stable_destinations_def by auto

lemma destination_pass_sends:
  assumes "(DstID \<circ> IadDestination) ` set al \<inter> DstID ` set ac = {}"
  shows "sends_well (aw_sent w) (aw_sent (snd (bind_eff
      (if al = [] then eff_return () else wrap_eff p (sendInAppAlertsForDestination env al)) (\<lambda>_.
       dismiss_destination_alerts env tenantId ac) w)))"
proof -
  define m where "m = bind_eff (if al = [] then eff_return () else wrap_eff p (sendInAppAlertsForDestination env al)) (\<lambda>_.
      dismiss_destination_alerts env tenantId ac)"
  obtain r w' where m: "m w = (r, w')" by fastforce
  from dsta.alert_pass [OF m [unfolded m_def sendInAppAlertsForDestination_def dismiss_destination_alerts_def]]
  obtain as and docs :: "AlertDocument list"
    where "aw_sent w' = aw_sent w @ map SendAlert as @ map (AutoResolve \<circ> DocId) docs"
      "FunctionalityEntityId ` set as \<subseteq> (DstID \<circ> IadDestination) ` set al" "\<forall>d \<in> set docs. DocEntityId d \<in> set (map DstID ac)"
    by blast
  moreover from this(2,3) assms have "no_flapping as docs" unfolding no_flapping_def by fastforce
  ultimately show ?thesis
    using m unfolding m_def sends_well_def by (intro exI [of _ as] exI [of _ docs]) simp
qed

lemma destination_tenant_sends:
  assumes "stable_destinations env tenantId w"
  shows "sends_well (aw_sent w) (aw_sent (snd (check_destination_tenant env tenantId w)))"
  unfolding check_destination_tenant_def
proof (intro quiet_bind_sent [where Q = "sends_well (aw_sent w)"])
  fix u v0 tms v1 acc v2
  assume "quiet w v0" "quiet v0 v1" "quiet v1 v2"
    and f: "wrap_eff (''error finding inactive destinations for tenant '' @ tenantId @ '': '')
         (findInactiveAndActiveDestinations env tenantId tms) v1 = (Ok acc, v2)"
  then have s: "aw_sent v2 = aw_sent w" "alert_world.more v1 = alert_world.more w" by (auto simp: quiet_def)
  obtain al ac where acc: "acc = (al, ac)" by (cases acc)
  from find_destinations_disjoint [OF assms s(2)] f acc
  have "(DstID \<circ> IadDestination) ` set al \<inter> DstID ` set ac = {}" by (auto simp: wrap_eff_Ok)
  from destination_pass_sends [OF this, of v2] s(1) acc
  show "sends_well (aw_sent w) (aw_sent (snd ((case acc of (destinationsToAlert, activeDestinations) \<Rightarrow>
      bind_eff (if destinationsToAlert = [] then eff_return ()
               else wrap_eff (''error sending in-app alerts for destinations for tenant '' @ tenantId @ '': '')
                      (sendInAppAlertsForDestination env destinationsToAlert)) (\<lambda>_.
       dismiss_destination_alerts env tenantId activeDestinations)) v2)))" by simp
qed (auto simp: quiet_def findInactiveAndActiveDestinations_def intro!: quiets dst.pages_quiet sends_nothing)

section \<open>Properties\<close>

text \<open>An example: the source and the destination \<open>a\<close> are overdue, \<open>b\<close> is not; statistics and alerts are empty.\<close>

definition example_source :: "string \<Rightarrow> go_time \<Rightarrow> Source" where
  "example_source i t = \<lparr>SrcID = i, SrcName = i, Scope = ''CLOUD'', SrcStatus = ''ACTIVE'', SrcTenantID = ''t'', SrcUpdatedAt = t,
     SrcDataPlaneId = ''p''\<rparr>"

definition example_destination :: "string \<Rightarrow> Destination" where
  "example_destination i = \<lparr>DstID = i, DstName = i, DstStatus = ''ACTIVE'', DstTenantID = ''t'', DstDataPlaneId = ''p''\<rparr>"

definition example_inactive_env :: inactive_env where
  "example_inactive_env = \<lparr>al_client = (\<lambda>_ _. Reply 200 '''' '''' (Inr (SearchBody []))), al_fault = (\<lambda>_. None),
     al_now = (\<lambda>n. int n + 10 * Hour), al_decode = (\<lambda>_. Inr []), al_sha256 = (\<lambda>s. s), al_fuel = 3,
     ie_rows = (\<lambda>_ xs. xs), ie_destination_rows = (\<lambda>_ xs. xs), ie_tracker_rows = (\<lambda>xs. xs), ie_uuid = (\<lambda>_. ''u''),
     ie_getenv = (\<lambda>_. ''''), ie_float_overflow = (\<lambda>_. 0), ie_app_url = '''', ie_client_ok = True, ie_manager = None\<rparr>"

definition example_inactive_world :: inactive_world where
  "example_inactive_world = \<lparr>aw_calls = [], aw_sent = [], aw_operations = 0, aw_clock = 0, iw_tenants = [(''t'', True)],
     iw_sources = [example_source ''a'' 0, example_source ''b'' (10 * Hour)],
     iw_destinations = [example_destination ''a'', example_destination ''b''],
     iw_configs = [], iw_fleets = [], iw_agents = [], iw_silent = []\<rparr>"

definition example_source_times :: source_times where
  "example_source_times = \<lparr>sourceIdToLastEventTime = [''a'' \<mapsto> 0, ''b'' \<mapsto> 10 * Hour], sourceFleetLastEventTimes = Map.empty,
     sourceAgentLastEventTimes = Map.empty\<rparr>"

lemma example_stable:
  "stable_sources example_inactive_env ''t'' example_inactive_world"
  "stable_destinations example_inactive_env ''t'' example_inactive_world"
  "mono (al_now example_inactive_env)" "al_fault example_inactive_env = (\<lambda>_. None)"
  by (simp_all add: stable_sources_def stable_destinations_def live_sources_def live_destinations_def source_rows_def
      destination_rows_def example_inactive_env_def example_inactive_world_def example_source_def example_destination_def mono_def)

lemma example_scans:
  "map_outcome (\<lambda>(al, ac, _). (map (SrcID \<circ> IasSource) al, map SrcID ac)) (fst (findInactiveAndActiveSources
      example_inactive_env ''t'' example_source_times NewAgentUnhealthySourceTracker example_inactive_world)) = Ok ([''a''], [''b''])"
  "map_outcome (\<lambda>(al, ac). (map (DstID \<circ> IadDestination) al, map DstID ac)) (fst (findInactiveAndActiveDestinations
      example_inactive_env ''t'' [''a'' \<mapsto> 0, ''b'' \<mapsto> 10 * Hour] example_inactive_world)) = Ok ([''a''], [''b''])"
  by code_simp+







text \<open>Saving the tracker never touches the rows of other tenants; without failures the rows of the tenant are
  afterwards exactly the agents the tracker holds, whatever was there before.\<close>

theorem silent_agents_saved:
  assumes "\<And>xs. mset (ie_tracker_rows env xs) = mset xs"
  shows "filter (\<lambda>r. SsTenantId r \<noteq> tenantId) (iw_silent (snd (SaveToDatabase env tr tenantId w)))
      = filter (\<lambda>r. SsTenantId r \<noteq> tenantId) (iw_silent w)
    \<and> (al_fault env = (\<lambda>_. None) \<longrightarrow>
        mset (map silent_key (filter (\<lambda>r. SsTenantId r = tenantId) (iw_silent (snd (SaveToDatabase env tr tenantId w)))))
        = mset (tracked_keys (sourceUnhealthyAgents tr)))"
proof -
  from save_rows obtain news where
    after: "iw_silent (snd (SaveToDatabase env tr tenantId w)) =
       (if al_fault env (aw_operations w) = None then filter (\<lambda>r. SsTenantId r \<noteq> tenantId) (iw_silent w) @ news else iw_silent w)"
    and t: "\<forall>r \<in> set news. SsTenantId r = tenantId"
    and keys: "al_fault env = (\<lambda>_. None) \<longrightarrow> map silent_key news =
      (if sourceUnhealthyAgents tr = [] then [] else tracked_keys (ie_tracker_rows env (sourceUnhealthyAgents tr)))" by blast
  have "mset (if sourceUnhealthyAgents tr = [] then [] else tracked_keys (ie_tracker_rows env (sourceUnhealthyAgents tr)))
      = mset (tracked_keys (sourceUnhealthyAgents tr))"
    using tracked_keys_mset [OF assms] by (simp add: tracked_keys_def)
  with after t keys show ?thesis by (auto simp: filter_empty_conv filter_id_conv)
qed

theorem silent_agents_saved_witness:
  "mset (map silent_key (filter (\<lambda>r. SsTenantId r = ''t'') (iw_silent (snd (SaveToDatabase example_inactive_env
      (AddUnhealthyAgents ''a'' ''one'' [\<lparr>IaAgentId = ''x'', IaAgentName = ''y'', IaLastEventTime = 0\<rparr>] NewAgentUnhealthySourceTracker)
      ''t'' example_inactive_world))))) = {#(''a'', ''one'', ''x'', 0)#}"
  using silent_agents_saved [of example_inactive_env "''t''"
      "AddUnhealthyAgents ''a'' ''one'' [\<lparr>IaAgentId = ''x'', IaAgentName = ''y'', IaLastEventTime = 0\<rparr>] NewAgentUnhealthySourceTracker"
      example_inactive_world, THEN conjunct2] example_stable(4)
  by (simp add: example_inactive_env_def AddUnhealthyAgents_def NewAgentUnhealthySourceTracker_def tracked_keys_def unix_milli_def)

text \<open>The same for destinations: whom a tenant's pass alerts is live, was silent for longer than its duration and had
  an event within seven days, and no alert is resolved for a destination that is alerted.\<close>

theorem destination_pass_right:
  assumes "stable_destinations env tenantId w"
  shows "(case fst (findInactiveAndActiveDestinations env tenantId tms w) of
      Ok (al, ac) \<Rightarrow>
        list_all (\<lambda>i. IadDestination i \<in> set (live_destinations env tenantId w)
          \<and> overdue (al_now env) (IadAlertDuration i) (IadLastEventTime i) (IadCheckedAt i)) al
        \<and> set ac \<subseteq> set (live_destinations env tenantId w)
    | _ \<Rightarrow> True)
    \<and> (\<exists>as docs. aw_sent (snd (check_destination_tenant env tenantId w)) = aw_sent w @ map SendAlert as @ map (AutoResolve \<circ> DocId) docs
        \<and> no_flapping as docs)"
proof
  show "case fst (findInactiveAndActiveDestinations env tenantId tms w) of
      Ok (al, ac) \<Rightarrow>
        list_all (\<lambda>i. IadDestination i \<in> set (live_destinations env tenantId w)
          \<and> overdue (al_now env) (IadAlertDuration i) (IadLastEventTime i) (IadCheckedAt i)) al
        \<and> set ac \<subseteq> set (live_destinations env tenantId w)
    | _ \<Rightarrow> True"
  proof (cases "findInactiveAndActiveDestinations env tenantId tms w")
    case (Pair r v)
    show ?thesis
    proof (cases r)
      case (Ok acc)
      obtain al ac where acc: "acc = (al, ac)" by (cases acc)
      from find_destinations_adds [OF assms refl Pair [unfolded Ok]] acc
      have "IadDestination ` set al \<subseteq> set (live_destinations env tenantId w)" "\<forall>i \<in> set al. destination_alert_sound env i"
        "set ac \<subseteq> set (live_destinations env tenantId w)" unfolding dst.adds_def by auto
      then show ?thesis using Pair Ok acc by (auto simp: list_all_iff destination_alert_sound_def)
    qed (simp_all add: Pair)
  qed
qed (use destination_tenant_sends [OF assms, unfolded sends_well_def] in blast)

theorem destination_pass_right_witness:
  "map_outcome (\<lambda>(al, ac). (map (DstID \<circ> IadDestination) al, map DstID ac)) (fst (findInactiveAndActiveDestinations
      example_inactive_env ''t'' [''a'' \<mapsto> 0, ''b'' \<mapsto> 10 * Hour] example_inactive_world)) = Ok ([''a''], [''b''])
   \<and> (case fst (findInactiveAndActiveDestinations example_inactive_env ''t'' [''a'' \<mapsto> 0, ''b'' \<mapsto> 10 * Hour] example_inactive_world) of
      Ok (al, ac) \<Rightarrow>
        list_all (\<lambda>i. IadDestination i \<in> set (live_destinations example_inactive_env ''t'' example_inactive_world)
          \<and> overdue (al_now example_inactive_env) (IadAlertDuration i) (IadLastEventTime i) (IadCheckedAt i)) al
        \<and> set ac \<subseteq> set (live_destinations example_inactive_env ''t'' example_inactive_world)
    | _ \<Rightarrow> True)"
  using destination_pass_right [OF example_stable(2), THEN conjunct1] example_scans(2) by blast

end
