(* ===== verification/Health_Check.thy ===== *)
theory Health_Check
  imports Alert_World
begin

text \<open>
  The job of \<open>internal/cp_alerts/jobs/health_check.go\<close> with \<open>cp_alerts/model/unhealthy_agent.go\<close> and
  \<open>unhealthy_fleet.go\<close>: agents, fleet nodes, fleet connectors and fleet components that have not sent a
  heartbeat for some time are alerted, and the open alerts of those that have are resolved.

  The tables are part of the state, their columns are not null; \<open>he_rows\<close> is the order in which the database
  returns the rows of an operation.  \<open>he_format\<close> writes a time of the database in the location the driver
  gives it, and \<open>he_node_text\<close> is the text of a node's heartbeat, a string, parsed and written as RFC 3339.
\<close>

section \<open>Tables and environment\<close>

record Agent =
  AgID :: string
  AgName :: string
  AgStatus :: string
  AgTenantId :: string
  AgDataPlaneId :: string
  AgHeartbeatAt :: go_time

record Node =
  NdId :: string
  NdName :: string
  NdStatus :: string
  NdTenantId :: string
  NdFleetId :: string
  NdHeartbeatAt :: go_time

record Connector =
  CnID :: string
  CnName :: string
  CnStatus :: string
  CnTenantID :: string
  CnHeartbeatAt :: go_time

record Components =
  CmId :: string
  CmServiceName :: string
  CmStatus :: string
  CmType :: string
  CmFleetNodeId :: string
  CmTenantId :: string
  CmHeartbeatAt :: go_time

record health_world = alert_world +
  hw_tenants :: "(string \<times> bool) list"
  hw_agents :: "Agent list"
  hw_nodes :: "Node list"
  hw_fleets :: "(string \<times> string) list"
  hw_connectors :: "Connector list"
  hw_components :: "Components list"

record health_rows =
  hr_agents :: "Agent list \<Rightarrow> Agent list"
  hr_nodes :: "Node list \<Rightarrow> Node list"
  hr_connectors :: "Connector list \<Rightarrow> Connector list"
  hr_components :: "Components list \<Rightarrow> Components list"
  hr_joined :: "(Components \<times> string \<times> string) list \<Rightarrow> (Components \<times> string \<times> string) list"

record health_env = alert_env +
  he_rows :: "nat \<Rightarrow> health_rows"
  he_format :: "go_time \<Rightarrow> string"
  he_node_text :: "Node \<Rightarrow> string"
  he_getenv :: "string \<Rightarrow> string"
  he_client_ok :: bool
  he_manager :: "go_error option"

type_synonym 'a health = "(health_world, 'a) eff"

section \<open>Unhealthy entities\<close>

text \<open>
  The structs \<open>UnhealthyAgent\<close>, \<open>UnhealthyFleet\<close>, \<open>UnhealthyFleetConnector\<close> and \<open>UnhealthyFleetComponents\<close> have
  the same fields besides the entity; the last heartbeat is kept as the text it is written with.
\<close>

record 'r Unhealthy =
  UhRow :: 'r
  UhHealthCheckTime :: duration
  UhCheckedAt :: go_time
  UhLastHeartbeat :: string

definition new_unhealthy :: "health_env \<Rightarrow> ('r \<Rightarrow> string) \<Rightarrow> duration \<Rightarrow> 'r \<Rightarrow> 'r Unhealthy health" where
  "new_unhealthy env heartbeat healthCheckTime r =
     bind_eff (now_utc env) (\<lambda>now. eff_return
       \<lparr>UhRow = r, UhHealthCheckTime = healthCheckTime, UhCheckedAt = now, UhLastHeartbeat = heartbeat r\<rparr>)"

definition NewUnhealthyAgent :: "health_env \<Rightarrow> duration \<Rightarrow> Agent \<Rightarrow> Agent Unhealthy health" where
  "NewUnhealthyAgent env = new_unhealthy env (\<lambda>a. he_format env (AgHeartbeatAt a))"

definition NewUnhealthyFleet :: "health_env \<Rightarrow> duration \<Rightarrow> Node \<Rightarrow> Node Unhealthy health" where
  "NewUnhealthyFleet env = new_unhealthy env (he_node_text env)"

definition NewUnhealthyFleetConnector :: "health_env \<Rightarrow> duration \<Rightarrow> Connector \<Rightarrow> Connector Unhealthy health" where
  "NewUnhealthyFleetConnector env = new_unhealthy env (\<lambda>c. he_format env (CnHeartbeatAt c))"

definition NewUnhealthyFleetComponentsWithNames ::
  "health_env \<Rightarrow> duration \<Rightarrow> Components \<times> string \<times> string \<Rightarrow> (Components \<times> string \<times> string) Unhealthy health" where
  "NewUnhealthyFleetComponentsWithNames env = new_unhealthy env (\<lambda>c. he_format env (CmHeartbeatAt (fst c)))"

definition nil_uuid :: string where
  "nil_uuid = ''00000000-0000-0000-0000-000000000000''"

definition agent_entity :: "Agent Unhealthy \<Rightarrow> AlertEntity" where
  "agent_entity ua = (let a = UhRow ua in
     \<lparr>GetEntityId = AgID a, GetEntityName = AgName a, GetDataPlaneId = AgDataPlaneId a, GetTenantId = AgTenantId a,
      GetSecondaryEntityId = ''''\<rparr>)"

definition node_entity :: "Node Unhealthy \<Rightarrow> AlertEntity" where
  "node_entity uf = (let n = UhRow uf in
     \<lparr>GetEntityId = NdId n, GetEntityName = NdName n, GetDataPlaneId = nil_uuid, GetTenantId = NdTenantId n,
      GetSecondaryEntityId = ''''\<rparr>)"

definition connector_entity :: "Connector Unhealthy \<Rightarrow> AlertEntity" where
  "connector_entity uf = (let c = UhRow uf in
     \<lparr>GetEntityId = CnID c, GetEntityName = CnName c, GetDataPlaneId = nil_uuid, GetTenantId = CnTenantID c,
      GetSecondaryEntityId = ''''\<rparr>)"

text \<open>Both names are set by the only constructor.\<close>

definition component_entity :: "(Components \<times> string \<times> string) Unhealthy \<Rightarrow> AlertEntity" where
  "component_entity ufc = (case UhRow ufc of (c, nodeName, fleetName) \<Rightarrow>
     \<lparr>GetEntityId = CmId c,
      GetEntityName = CmServiceName c @ '' in Fleet '' @ quoted fleetName @ '' (node: '' @ nodeName @ '')'',
      GetDataPlaneId = nil_uuid, GetTenantId = CmTenantId c, GetSecondaryEntityId = ''''\<rparr>)"

text \<open>Whole minutes, exact for durations below \<open>2\<^sup>16\<close> minutes, where \<open>Duration.Minutes\<close> does not round up.\<close>

definition HealthCheckTimeStr :: "'r Unhealthy \<Rightarrow> string" where
  "HealthCheckTimeStr u =
     (let minutes = go_div (UhHealthCheckTime u) Minute
      in if minutes = 1 then ''1 minute'' else go_itoa minutes @ '' minutes'')"

section \<open>Finding active and inactive entities\<close>

fun make_all :: "('r \<Rightarrow> ('w, 'u) eff) \<Rightarrow> 'r list \<Rightarrow> ('w, 'u list) eff" where
  "make_all mk [] = eff_return []"
| "make_all mk (r # rs) = bind_eff (mk r) (\<lambda>u. bind_eff (make_all mk rs) (\<lambda>us. eff_return (u # us)))"

definition page_of :: "nat \<Rightarrow> nat \<Rightarrow> 'r list \<Rightarrow> 'r list" where
  "page_of page pageSize rows = take pageSize (drop (page * pageSize) rows)"

text \<open>
  The common end of the four functions: nothing is built when both pages are empty; otherwise the time since
  \<open>healthCheckTime\<close> is read and the unhealthy entities are built.
\<close>

definition found :: "health_env \<Rightarrow> (duration \<Rightarrow> 'r \<Rightarrow> 'u health) \<Rightarrow> go_time \<Rightarrow> 'a list \<Rightarrow> 'r list \<Rightarrow> ('a list \<times> 'u list) health" where
  "found env mk healthCheckTime active inactive =
     (if active = [] \<and> inactive = [] then eff_return ([], [])
      else bind_eff (now_utc env) (\<lambda>now.
           bind_eff (make_all (mk (time_sub now healthCheckTime)) inactive) (\<lambda>us. eff_return (active, us))))"

definition findActiveAndInactiveAgents ::
  "health_env \<Rightarrow> string \<Rightarrow> go_time \<Rightarrow> nat \<Rightarrow> (Agent list \<times> Agent Unhealthy list) health" where
  "findActiveAndInactiveAgents env tenantId healthCheckTime page =
     bind_eff (al_query env (\<lambda>w. page_of page 50 (hr_agents (he_rows env (aw_operations w))
        (filter (\<lambda>a. AgTenantId a = tenantId \<and> AgHeartbeatAt a < healthCheckTime \<and> AgStatus a \<noteq> ''DELETED'') (hw_agents w))))) (\<lambda>inactive.
     bind_eff (al_query env (\<lambda>w. page_of page 50 (hr_agents (he_rows env (aw_operations w))
        (filter (\<lambda>a. AgTenantId a = tenantId \<and> AgHeartbeatAt a \<ge> healthCheckTime \<and> AgStatus a \<noteq> ''DELETED'') (hw_agents w))))) (\<lambda>active.
       found env (NewUnhealthyAgent env) healthCheckTime active inactive))"

definition checkStatus :: "string list" where
  "checkStatus = [''CREATED'', ''INACTIVE'', ''DISABLED'', ''DELETED'']"

definition node_checked :: "string \<Rightarrow> Node \<Rightarrow> bool" where
  "node_checked tenantId n \<longleftrightarrow> NdTenantId n = tenantId \<and> NdStatus n \<notin> set checkStatus"

definition findActiveAndInactiveFleet ::
  "health_env \<Rightarrow> string \<Rightarrow> go_time \<Rightarrow> go_time \<Rightarrow> nat \<Rightarrow> (Node list \<times> Node Unhealthy list) health" where
  "findActiveAndInactiveFleet env tenantId healthCheckTime healthCheckIgnoreTime page =
     bind_eff (al_query env (\<lambda>w. page_of page 50 (hr_nodes (he_rows env (aw_operations w))
        (filter (\<lambda>n. node_checked tenantId n \<and> NdHeartbeatAt n < healthCheckTime \<and> NdHeartbeatAt n > healthCheckIgnoreTime) (hw_nodes w))))) (\<lambda>inactive.
     bind_eff (al_query env (\<lambda>w. page_of page 50 (hr_nodes (he_rows env (aw_operations w))
        (filter (\<lambda>n. node_checked tenantId n \<and> NdHeartbeatAt n \<ge> healthCheckTime \<and> NdHeartbeatAt n > healthCheckIgnoreTime) (hw_nodes w))))) (\<lambda>active.
       found env (NewUnhealthyFleet env) healthCheckTime active inactive))"

definition connector_checked :: "string \<Rightarrow> Connector \<Rightarrow> bool" where
  "connector_checked tenantId c \<longleftrightarrow> CnTenantID c = tenantId \<and> CnStatus c \<notin> set checkStatus"

definition findActiveAndInactiveFleetConnectors ::
  "health_env \<Rightarrow> string \<Rightarrow> go_time \<Rightarrow> go_time \<Rightarrow> nat \<Rightarrow> (Connector list \<times> Connector Unhealthy list) health" where
  "findActiveAndInactiveFleetConnectors env tenantId healthCheckTime healthCheckIgnoreTime page =
     bind_eff (al_query env (\<lambda>w. page_of page 50 (hr_connectors (he_rows env (aw_operations w))
        (filter (\<lambda>c. connector_checked tenantId c \<and> CnHeartbeatAt c < healthCheckTime \<and> CnHeartbeatAt c > healthCheckIgnoreTime) (hw_connectors w))))) (\<lambda>inactive.
     bind_eff (al_query env (\<lambda>w. page_of page 50 (hr_connectors (he_rows env (aw_operations w))
        (filter (\<lambda>c. connector_checked tenantId c \<and> CnHeartbeatAt c \<ge> healthCheckTime \<and> CnHeartbeatAt c > healthCheckIgnoreTime) (hw_connectors w))))) (\<lambda>active.
       found env (NewUnhealthyFleetConnector env) healthCheckTime active inactive))"

definition component_checked :: "string \<Rightarrow> Components \<Rightarrow> bool" where
  "component_checked tenantId c \<longleftrightarrow> CmTenantId c = tenantId \<and> CmStatus c \<notin> set checkStatus \<and> CmType c \<noteq> ''CONNECTOR''"

text \<open>The query of the inactive components joins the node and its fleet, that of the active ones does not.\<close>

definition joined_components :: "health_world \<Rightarrow> (Components \<times> string \<times> string) list" where
  "joined_components w =
     concat (map (\<lambda>c. concat (map (\<lambda>n. map (\<lambda>f. (c, NdName n, snd f)) (filter (\<lambda>f. fst f = NdFleetId n) (hw_fleets w)))
       (filter (\<lambda>n. NdId n = CmFleetNodeId c) (hw_nodes w)))) (hw_components w))"

definition findInactiveAndActiveFleetComponents ::
  "health_env \<Rightarrow> string \<Rightarrow> go_time \<Rightarrow> go_time \<Rightarrow> nat \<Rightarrow> (Components list \<times> (Components \<times> string \<times> string) Unhealthy list) health" where
  "findInactiveAndActiveFleetComponents env tenantId healthCheckTime healthCheckIgnoreTime page =
     bind_eff (al_query env (\<lambda>w. page_of page 50 (hr_joined (he_rows env (aw_operations w))
        (filter (\<lambda>(c, _). component_checked tenantId c \<and> CmHeartbeatAt c < healthCheckTime \<and> CmHeartbeatAt c > healthCheckIgnoreTime) (joined_components w))))) (\<lambda>inactive.
     bind_eff (al_query env (\<lambda>w. page_of page 50 (hr_components (he_rows env (aw_operations w))
        (filter (\<lambda>c. component_checked tenantId c \<and> CmHeartbeatAt c \<ge> healthCheckTime \<and> CmHeartbeatAt c > healthCheckIgnoreTime) (hw_components w))))) (\<lambda>active.
       found env (NewUnhealthyFleetComponentsWithNames env) healthCheckTime active inactive))"

section \<open>Alerts\<close>

definition health_options :: "string \<Rightarrow> AlertEntity \<Rightarrow> string \<Rightarrow> string \<Rightarrow> string \<Rightarrow> string \<Rightarrow> string \<Rightarrow> alert_options" where
  "health_options functionality entity title message errorCode errorTemplate action =
     \<lparr>OptFunctionality = functionality, OptEntity = entity, OptCriticality = ''critical'', OptFunctionalityType = ''health_check'',
      OptTitle = title, OptMessage = message, OptErrorCode = errorCode, OptErrorTemplate = errorTemplate, OptErrorParam = '''',
      OptAction = action\<rparr>"

definition health_message :: "string \<Rightarrow> 'r Unhealthy \<Rightarrow> string" where
  "health_message what u =
     ''This '' @ what @ '' is configured to be alerted when health is not reported for more than '' @ HealthCheckTimeStr u
       @ ''. As of '' @ quoted (HumanReadableTimeWithZone (UhCheckedAt u)) @ '' last heartbeat was received at ''
       @ quoted (UhLastHeartbeat u) @ ''.''"

definition buildAgentAlert :: "health_env \<Rightarrow> Agent Unhealthy \<Rightarrow> Alert health" where
  "buildAgentAlert env ia = NewAlert env (health_options ''agent'' (agent_entity ia)
     (''Health from agent not reported for more than '' @ HealthCheckTimeStr ia @ '', marking unhealthy for agent '' @ AgName (UhRow ia))
     (health_message ''agent'' ia) ''DHRW10001'' ''Agent is unhealthy. {0}''
     ''Please check agent configuration, connectivity or other details.'')"

definition buildFleetAlert :: "health_env \<Rightarrow> Node Unhealthy \<Rightarrow> Alert health" where
  "buildFleetAlert env uf = NewAlert env (health_options ''fleet_node'' (node_entity uf)
     (''Health from fleet_node not reported for more than '' @ HealthCheckTimeStr uf @ '', marking unhealthy for fleet node '' @ NdName (UhRow uf))
     (health_message ''fleet node'' uf) ''DHRW10002'' ''Fleet is unhealthy. {0}''
     ''Please check fleet node configuration, connectivity or reported details from fleet page.'')"

definition buildFleetConnectorAlert :: "health_env \<Rightarrow> Connector Unhealthy \<Rightarrow> Alert health" where
  "buildFleetConnectorAlert env uf = NewAlert env (health_options ''fleet_connector'' (connector_entity uf)
     (''Health from fleet_connector not reported for more than '' @ HealthCheckTimeStr uf @ '', marking unhealthy for fleet connector '' @ CnName (UhRow uf))
     (health_message ''fleet connector'' uf) ''DHRW10004'' ''Fleet Connector is unhealthy. {0}''
     ''Please check fleet connector configuration, connectivity or other details.'')"

definition buildFleetComponentAlert :: "health_env \<Rightarrow> (Components \<times> string \<times> string) Unhealthy \<Rightarrow> Alert health" where
  "buildFleetComponentAlert env uf = NewAlert env (health_options ''fleet_component'' (component_entity uf)
     (''Fleet component '' @ GetEntityName (component_entity uf) @ '' is not reporting health for more than '' @ HealthCheckTimeStr uf)
     (health_message ''fleet component'' uf) ''DHRW10003'' ''Fleet Component is unhealthy. {0}''
     ''Please check fleet component configuration, connectivity or other details.'')"

definition sendAgentInAppAlerts :: "health_env \<Rightarrow> Agent Unhealthy list \<Rightarrow> unit health" where
  "sendAgentInAppAlerts env inactive = bind_eff (build_all (buildAgentAlert env) inactive) SendAlerts"

definition sendFleetInAppAlerts :: "health_env \<Rightarrow> Node Unhealthy list \<Rightarrow> unit health" where
  "sendFleetInAppAlerts env inactive = bind_eff (build_all (buildFleetAlert env) inactive) SendAlerts"

definition sendFleetConnectorInAppAlerts :: "health_env \<Rightarrow> Connector Unhealthy list \<Rightarrow> unit health" where
  "sendFleetConnectorInAppAlerts env inactive = bind_eff (build_all (buildFleetConnectorAlert env) inactive) SendAlerts"

definition sendFleetComponentInAppAlerts :: "health_env \<Rightarrow> (Components \<times> string \<times> string) Unhealthy list \<Rightarrow> unit health" where
  "sendFleetComponentInAppAlerts env inactive = bind_eff (build_all (buildFleetComponentAlert env) inactive) SendAlerts"

text \<open>Without a client the search panics.\<close>

definition getExistingAlerts :: "health_env \<Rightarrow> string \<Rightarrow> string list \<Rightarrow> AlertDocument list health" where
  "getExistingAlerts env tenantId ids =
     (if \<not> he_client_ok env then eff_panic
      else bind_eff (al_search (Search (al_client env) AlertsIndex
             (open_alerts_query tenantId ids (''health_check'' @ '' OR '' @ ''ingestion_checker'')))) (\<lambda>openAlerts.
           al_result (al_decode env openAlerts)))"

section \<open>The checks\<close>

text \<open>The loop over the pages that the four checks have in common.\<close>

fun health_pages ::
  "nat \<Rightarrow> (nat \<Rightarrow> ('a list \<times> 'u list) health) \<Rightarrow> ('u list \<Rightarrow> unit health) \<Rightarrow> ('a \<Rightarrow> string)
     \<Rightarrow> (string list \<Rightarrow> AlertDocument list health) \<Rightarrow> nat \<Rightarrow> unit health" where
  "health_pages 0 find_page send ident fetch page = eff_out_of_fuel"
| "health_pages (Suc fuel) find_page send ident fetch page =
     bind_eff (find_page page) (\<lambda>(active, inactive).
       if inactive = [] \<and> active = [] then eff_return ()
       else
         bind_eff (if inactive = [] then eff_return () else send inactive) (\<lambda>_.
         bind_eff (collect_open fetch (map ident active) (map (map ident) (PartitionSlice active 10)) []) (\<lambda>alertsToDismiss.
         bind_eff (if alertsToDismiss \<noteq> [] then AutoResolveAlerts alertsToDismiss else eff_return ()) (\<lambda>_.
           health_pages fuel find_page send ident fetch (Suc page)))))"

definition check_time :: "health_env \<Rightarrow> string \<Rightarrow> int \<Rightarrow> go_time \<Rightarrow> go_time" where
  "check_time env var def now = now + wrap64 (- Minute * GetEnvInt (he_getenv env) var def)"

definition alertForUnhealthyAgents :: "health_env \<Rightarrow> string \<Rightarrow> unit health" where
  "alertForUnhealthyAgents env tenantId =
     bind_eff (now_utc env) (\<lambda>now.
       health_pages (al_fuel env) (findActiveAndInactiveAgents env tenantId (check_time env ''AGENT_HEALTH_CHECK_TIME'' 30 now))
         (sendAgentInAppAlerts env) AgID (getExistingAlerts env tenantId) 0)"

definition alertForFleetHealthCheck :: "health_env \<Rightarrow> string \<Rightarrow> unit health" where
  "alertForFleetHealthCheck env tenantId =
     bind_eff (now_utc env) (\<lambda>now. bind_eff (now_utc env) (\<lambda>now'.
       health_pages (al_fuel env) (findActiveAndInactiveFleet env tenantId
           (check_time env ''FLEET_HEALTH_CHECK_TIME'' 10 now) (check_time env ''FLEET_HEALTH_CHECK_IGNORE_TIME'' 600 now'))
         (sendFleetInAppAlerts env) NdId (getExistingAlerts env tenantId) 0))"

text \<open>For connectors an error of the search is logged, and there is nothing to resolve for that part.\<close>

definition alertForFleetConnectorsHealthCheck :: "health_env \<Rightarrow> string \<Rightarrow> unit health" where
  "alertForFleetConnectorsHealthCheck env tenantId =
     bind_eff (now_utc env) (\<lambda>now. bind_eff (now_utc env) (\<lambda>now'.
       health_pages (al_fuel env) (findActiveAndInactiveFleetConnectors env tenantId
           (check_time env ''FLEET_HEALTH_CHECK_TIME'' 10 now) (check_time env ''FLEET_HEALTH_CHECK_IGNORE_TIME'' 600 now'))
         (sendFleetConnectorInAppAlerts env) CnID
         (\<lambda>ids. bind_eff (try_eff (getExistingAlerts env tenantId ids)) (\<lambda>r. eff_return (case r of Inl _ \<Rightarrow> [] | Inr docs \<Rightarrow> docs))) 0))"

definition alertForFleetComponentsHealthCheck :: "health_env \<Rightarrow> string \<Rightarrow> unit health" where
  "alertForFleetComponentsHealthCheck env tenantId =
     bind_eff (now_utc env) (\<lambda>currentTime.
       health_pages (al_fuel env) (findInactiveAndActiveFleetComponents env tenantId
           (check_time env ''FLEET_HEALTH_CHECK_TIME'' 10 currentTime) (check_time env ''FLEET_HEALTH_CHECK_IGNORE_TIME'' 600 currentTime))
         (sendFleetComponentInAppAlerts env) CmId (getExistingAlerts env tenantId) 0)"

section \<open>The job\<close>

definition check_health_tenant :: "health_env \<Rightarrow> string \<Rightarrow> unit health" where
  "check_health_tenant env tenantId =
     bind_eff (wrap_eff (''error handling alerts for unhealthy agents for tenant '' @ tenantId @ '': '')
         (alertForUnhealthyAgents env tenantId)) (\<lambda>_.
     bind_eff (wrap_eff (''error handling alerts for unhealthy fleet components for tenant '' @ tenantId @ '': '')
         (alertForFleetComponentsHealthCheck env tenantId)) (\<lambda>_.
     bind_eff (wrap_eff (''error handling alerts for unhealthy fleet nodes for tenant '' @ tenantId @ '': '')
         (alertForFleetHealthCheck env tenantId)) (\<lambda>_.
       wrap_eff (''error handling alerts for unhealthy fleet connectors for tenant '' @ tenantId @ '': '')
         (alertForFleetConnectorsHealthCheck env tenantId))))"

definition HealthCheckJob :: "health_env \<Rightarrow> JobResult health" where
  "HealthCheckJob env = job_of
     (case he_manager env of
        Some e \<Rightarrow> eff_fail (''error creating alerts manager: '' @ e)
      | None \<Rightarrow>
          bind_eff (wrap_eff ''error while fetching tenants: '' (al_query env (\<lambda>w. map fst (filter snd (hw_tenants w))))) (\<lambda>tenants.
            each_tenant (check_health_tenant env) tenants))"

end
