(* ===== verification/Health_Safety.thy ===== *)
theory Health_Safety
  imports Health_Check Alert_Pass
begin

text \<open>
  What the health check guarantees: an alert is sent only for an entity whose heartbeat is too old, an alert is
  resolved only for one whose heartbeat is recent, and the loops over the pages end.
\<close>

section \<open>The loop over the pages\<close>

locale health_kind = alert_check build entity fetch
  for build :: "'u \<Rightarrow> (health_world, Alert) eff" and entity :: "'u \<Rightarrow> string" and fetch :: "string list \<Rightarrow> AlertDocument list health"
begin

lemma step_right:
  assumes "bind_eff (if xs = [] then eff_return () else bind_eff (build_all build xs) SendAlerts) (\<lambda>_.
      bind_eff (collect_open fetch active parts [])
        (\<lambda>ids. if ids \<noteq> [] then AutoResolveAlerts ids else eff_return ())) w = (r, w')"
    and "entity ` set xs \<subseteq> dead" and "set active \<subseteq> alive"
  shows "sends_right alive dead (aw_sent w) (aw_sent w')" "alert_world.more w' = alert_world.more w"
proof -
  have "wrap_eff '''' m = m" for m :: "(health_world, 'b) eff"
    by (rule ext) (auto simp: wrap_eff_def split: prod.split outcome.split)
  from alert_pass [of xs "''''", unfolded this, OF assms(1)] obtain as and docs :: "AlertDocument list" where
    "aw_sent w' = aw_sent w @ map SendAlert as @ map (AutoResolve \<circ> DocId) docs"
    "FunctionalityEntityId ` set as \<subseteq> entity ` set xs" "\<forall>d \<in> set docs. DocEntityId d \<in> set active"
    "alert_world.more w' = alert_world.more w" by blast
  moreover from this(2,3) assms(2,3) have "\<forall>m \<in> set (map SendAlert as @ map (AutoResolve \<circ> DocId) docs). right_message alive dead m"
    by (fastforce simp: right_message_def)
  ultimately show "sends_right alive dead (aw_sent w) (aw_sent w')" "alert_world.more w' = alert_world.more w"
    unfolding sends_right_def by blast+
qed

lemma pages_right:
  assumes "\<And>p. keeps quiet (find_page p)"
    and "\<And>p v active inactive v'. find_page p v = (Ok (active, inactive), v') \<Longrightarrow> alert_world.more v = tables \<Longrightarrow>
      ident ` set active \<subseteq> alive \<and> entity ` set inactive \<subseteq> dead"
    and "alert_world.more w = tables"
  shows "sends_right alive dead (aw_sent w)
    (aw_sent (snd (health_pages fuel find_page (\<lambda>xs. bind_eff (build_all build xs) SendAlerts) ident fetch page w)))"
  using assms(3)
proof (induction fuel arbitrary: page w)
  case 0
  then show ?case by (simp add: sends_right_refl)
next
  case (Suc fuel)
  show ?case
    unfolding health_pages.simps
  proof (rule quiet_bind_sent [where Q = "sends_right alive dead (aw_sent w)"])
    fix x v
    assume f: "find_page page w = (Ok x, v)" and v: "quiet w v"
    obtain active inactive where x: "x = (active, inactive)" by (cases x)
    from assms(2) f x Suc.prems have s: "set (map ident active) \<subseteq> alive" "entity ` set inactive \<subseteq> dead" by auto
    define m where "m = bind_eff (if inactive = [] then eff_return () else bind_eff (build_all build inactive) SendAlerts) (\<lambda>_.
      bind_eff (collect_open fetch (map ident active) (map (map ident) (PartitionSlice active 10)) [])
        (\<lambda>ids. if ids \<noteq> [] then AutoResolveAlerts ids else eff_return ()))"
    obtain r v1 where m: "m v = (r, v1)" by fastforce
    from step_right [OF m [unfolded m_def] s(2) s(1)] v Suc.prems
    have one: "sends_right alive dead (aw_sent w) (aw_sent v1)" "alert_world.more v1 = tables" by (auto simp: quiet_def)
    let ?rest = "health_pages fuel find_page (\<lambda>xs. bind_eff (build_all build xs) SendAlerts) ident fetch (Suc page)"
    have "sends_right alive dead (aw_sent w) (aw_sent (snd (bind_eff m (\<lambda>_. ?rest) v)))"
      using one sends_right_trans [OF one(1) Suc.IH [OF one(2)]] m by (cases r) (auto simp: bind_eff_def [of m])
    then show "sends_right alive dead (aw_sent w) (aw_sent (snd ((case x of (active, inactive) \<Rightarrow>
       if inactive = [] \<and> active = [] then eff_return ()
       else
         bind_eff (if inactive = [] then eff_return () else bind_eff (build_all build inactive) SendAlerts) (\<lambda>_.
         bind_eff (collect_open fetch (map ident active) (map (map ident) (PartitionSlice active 10)) []) (\<lambda>alertsToDismiss.
         bind_eff (if alertsToDismiss \<noteq> [] then AutoResolveAlerts alertsToDismiss else eff_return ()) (\<lambda>_. ?rest)))) v)))"
      using v by (auto simp: x m_def bind_eff_assoc sends_right_refl quiet_def)
  qed (use assms(1) sends_right_refl in auto)
qed

lemma step_tables:
  "keeps tables_kept (bind_eff (if xs = [] then eff_return () else bind_eff (build_all build xs) SendAlerts) (\<lambda>_.
      bind_eff (collect_open fetch active parts [])
        (\<lambda>ids. if ids \<noteq> [] then AutoResolveAlerts ids else eff_return ())))"
  unfolding keeps_def tables_kept_def
proof
  fix w :: health_world
  show "alert_world.more (snd (bind_eff (if xs = [] then eff_return () else bind_eff (build_all build xs) SendAlerts) (\<lambda>_.
      bind_eff (collect_open fetch active parts [])
        (\<lambda>ids. if ids \<noteq> [] then AutoResolveAlerts ids else eff_return ())) w)) = alert_world.more w"
    by (rule step_right(2) [OF prod.collapse [symmetric] subset_UNIV subset_UNIV])
qed

lemma pages_tables:
  assumes "\<And>p. keeps quiet (find_page p)"
  shows "keeps tables_kept (health_pages fuel find_page (\<lambda>xs. bind_eff (build_all build xs) SendAlerts) ident fetch page)"
proof (induction fuel arbitrary: page)
  case 0
  then show ?case by (simp add: keeps_simple [OF tables_kept_preorder])
next
  case (Suc fuel)
  show ?case
    unfolding health_pages.simps
  proof (rule tables_bind)
    show "keeps tables_kept (find_page page)" by (rule quiet_tables [OF assms])
  next
    fix x :: "'a list \<times> 'u list"
    obtain active inactive where x: "x = (active, inactive)" by (cases x)
    let ?rest = "health_pages fuel find_page (\<lambda>xs. bind_eff (build_all build xs) SendAlerts) ident fetch (Suc page)"
    have "keeps tables_kept (bind_eff (bind_eff (if inactive = [] then eff_return () else bind_eff (build_all build inactive) SendAlerts) (\<lambda>_.
      bind_eff (collect_open fetch (map ident active) (map (map ident) (PartitionSlice active 10)) [])
        (\<lambda>ids. if ids \<noteq> [] then AutoResolveAlerts ids else eff_return ()))) (\<lambda>_. ?rest))"
      by (intro tables_bind step_tables Suc.IH)
    then show "keeps tables_kept (case x of (active, inactive) \<Rightarrow>
       if inactive = [] \<and> active = [] then eff_return ()
       else
         bind_eff (if inactive = [] then eff_return () else bind_eff (build_all build inactive) SendAlerts) (\<lambda>_.
         bind_eff (collect_open fetch (map ident active) (map (map ident) (PartitionSlice active 10)) []) (\<lambda>alertsToDismiss.
         bind_eff (if alertsToDismiss \<noteq> [] then AutoResolveAlerts alertsToDismiss else eff_return ()) (\<lambda>_. ?rest))))"
      by (simp add: x bind_eff_assoc keeps_simple [OF tables_kept_preorder])
  qed
qed

text \<open>The part of a page after the query, and that it returns.\<close>

lemma step_returns:
  assumes "\<And>x. returns (build x)" and "\<And>ids. returns (fetch ids)"
  shows "returns (bind_eff (if xs = [] then eff_return () else bind_eff (build_all build xs) SendAlerts) (\<lambda>_.
      bind_eff (collect_open fetch active parts [])
        (\<lambda>ids. if ids \<noteq> [] then AutoResolveAlerts ids else eff_return ())))"
proof -
  have "returns (build_all build xs)" by (induction xs) (auto intro!: returning assms)
  moreover have "returns (collect_open fetch active parts acc)" for acc
    by (induction parts arbitrary: acc) (auto intro!: returning assms)
  moreover have "returns (SendAlerts as)" "returns (AutoResolveAlerts ids)" for as ids
    by (simp_all add: returns_def SendAlerts_sends AutoResolveAlerts_sends)
  ultimately show ?thesis by (auto intro!: returning)
qed

lemma pages_end:
  assumes "\<And>p. keeps quiet (find_page p)" and "\<And>p. returns (find_page p)" and "\<And>x. returns (build x)" and "\<And>ids. returns (fetch ids)"
    and "\<And>p v active inactive v'. find_page p v = (Ok (active, inactive), v') \<Longrightarrow> alert_world.more v = tables \<Longrightarrow> N \<le> p \<Longrightarrow>
      active = [] \<and> inactive = []"
  shows "0 < fuel \<Longrightarrow> N < page + fuel \<Longrightarrow> alert_world.more w = tables \<Longrightarrow>
    fst (health_pages fuel find_page (\<lambda>xs. bind_eff (build_all build xs) SendAlerts) ident fetch page w) \<noteq> OutOfFuel"
proof (induction fuel arbitrary: page w)
  case (Suc fuel)
  obtain r v where f: "find_page page w = (r, v)" by fastforce
  have r: "r \<noteq> OutOfFuel" using assms(2) [of page] f unfolding returns_def by (metis fst_conv)
  have v: "alert_world.more v = tables" using quiet_more [OF assms(1) f] Suc.prems(3) by simp
  show ?case
  proof (cases "\<exists>active inactive. r = Ok (active, inactive) \<and> \<not> (inactive = [] \<and> active = [])")
    case False
    with f r show ?thesis by (cases r) (auto simp: bind_eff_def split: prod.split)
  next
    case True
    then obtain active inactive where x: "r = Ok (active, inactive)" "\<not> (inactive = [] \<and> active = [])" by blast
    from assms(5) [OF f [unfolded x(1)] Suc.prems(3)] x(2) have "page < N" by (auto simp: not_le [symmetric])
    with Suc.prems(2) have fuel: "0 < fuel" "N < Suc page + fuel" by simp_all
    define m where "m = bind_eff (if inactive = [] then eff_return () else bind_eff (build_all build inactive) SendAlerts) (\<lambda>_.
      bind_eff (collect_open fetch (map ident active) (map (map ident) (PartitionSlice active 10)) [])
        (\<lambda>ids. if ids \<noteq> [] then AutoResolveAlerts ids else eff_return ()))"
    obtain r1 v1 where m: "m v = (r1, v1)" by fastforce
    have "alert_world.more v1 = tables" using step_right(2) [OF m [unfolded m_def], of UNIV UNIV] v by simp
    from Suc.IH [OF fuel this] have "fst (bind_eff m (\<lambda>_. health_pages fuel find_page (\<lambda>xs. bind_eff (build_all build xs) SendAlerts)
        ident fetch (Suc page)) v) \<noteq> OutOfFuel"
      using step_returns [OF assms(3,4), of inactive "map ident active" "map (map ident) (PartitionSlice active 10)"] m
      unfolding m_def [symmetric] returns_def by (cases r1) (auto simp: bind_eff_def [of m], metis fst_conv)
    then show ?thesis using f x by (simp add: bind_eff_def [of "find_page page"] m_def bind_eff_assoc)
  qed
qed simp

end

section \<open>The four kinds\<close>

lemma quiet_existing [quiets]: "keeps quiet (getExistingAlerts env tenantId ids)"
  by (auto simp: getExistingAlerts_def intro!: quiets)

lemma quiet_new_unhealthy [quiets]: "keeps quiet (new_unhealthy env hb d r)"
  by (auto simp: new_unhealthy_def intro!: quiets)

lemma quiet_make_all [quiets]: "(\<And>r. keeps quiet (mk r)) \<Longrightarrow> keeps quiet (make_all mk rs)"
  by (induction rs) (auto intro!: quiets)

lemma quiet_found [quiets]: "(\<And>d r. keeps quiet (mk d r)) \<Longrightarrow> keeps quiet (found env mk t active inactive)"
  by (auto simp: found_def intro!: quiets)

interpretation hagent: health_kind "buildAgentAlert env" "AgID \<circ> UhRow" "getExistingAlerts env tenantId"
  for env tenantId
  by unfold_locales
    (auto simp: buildAgentAlert_def health_options_def agent_entity_def Let_def intro!: quiets dest!: NewAlert_entity(1))

interpretation hnode: health_kind "buildFleetAlert env" "NdId \<circ> UhRow" "getExistingAlerts env tenantId"
  for env tenantId
  by unfold_locales
    (auto simp: buildFleetAlert_def health_options_def node_entity_def Let_def intro!: quiets dest!: NewAlert_entity(1))

interpretation hconnector: health_kind "buildFleetConnectorAlert env" "CnID \<circ> UhRow"
  "\<lambda>ids. bind_eff (try_eff (getExistingAlerts env tenantId ids)) (\<lambda>r. eff_return (case r of Inl _ \<Rightarrow> [] | Inr docs \<Rightarrow> docs))"
  for env tenantId
  by unfold_locales
    (auto simp: buildFleetConnectorAlert_def health_options_def connector_entity_def Let_def intro!: quiets dest!: NewAlert_entity(1))

interpretation hcomponent: health_kind "buildFleetComponentAlert env" "CmId \<circ> fst \<circ> UhRow" "getExistingAlerts env tenantId"
  for env tenantId
  by unfold_locales
    (auto simp: buildFleetComponentAlert_def health_options_def component_entity_def Let_def split_def
      intro!: quiets dest!: NewAlert_entity(1))

lemma make_all_rows:
  "make_all (new_unhealthy env hb d) rs w = (Ok us, w') \<Longrightarrow> map UhRow us = rs"
  by (induction rs arbitrary: w us) (fastforce simp: new_unhealthy_def bind_eff_Ok)+

lemma found_rows:
  "found env (new_unhealthy env hb) t active inactive w = (Ok (active', us), w') \<Longrightarrow> active' = active \<and> map UhRow us = inactive"
  by (auto simp: found_def bind_eff_Ok dest: make_all_rows split: if_splits)

text \<open>The database returns the rows that are asked for, in some order.\<close>

definition proper_rows :: "health_env \<Rightarrow> bool" where
  "proper_rows env \<longleftrightarrow> (\<forall>n. (\<forall>xs. mset (hr_agents (he_rows env n) xs) = mset xs) \<and> (\<forall>xs. mset (hr_nodes (he_rows env n) xs) = mset xs)
     \<and> (\<forall>xs. mset (hr_connectors (he_rows env n) xs) = mset xs) \<and> (\<forall>xs. mset (hr_components (he_rows env n) xs) = mset xs)
     \<and> (\<forall>xs. mset (hr_joined (he_rows env n) xs) = mset xs))"

lemma page_of_subset: "set (page_of p n rows) \<subseteq> set rows"
  unfolding page_of_def by (meson in_set_dropD in_set_takeD subsetI)

lemma queried_rows:
  assumes "al_query env (\<lambda>w. page_of p n (ord (aw_operations w) (filter P (tbl w)))) v = (Ok rows, v')"
    and "\<And>n xs. set (ord n xs) \<subseteq> set xs"
  shows "set rows \<subseteq> {r \<in> set (tbl v). P r}" "alert_world.more v' = alert_world.more v"
proof -
  have "rows = page_of p n (ord (aw_operations v) (filter P (tbl v)))" "alert_world.more v' = alert_world.more v"
    using assms(1) by (auto simp: al_query_def Let_def split: option.splits)
  with page_of_subset assms(2) [of "aw_operations v" "filter P (tbl v)"]
  show "set rows \<subseteq> {r \<in> set (tbl v). P r}" "alert_world.more v' = alert_world.more v" by fastforce+
qed

lemma more_health:
  "alert_world.more w' = alert_world.more w \<Longrightarrow> hw_agents w' = hw_agents w \<and> hw_nodes w' = hw_nodes w
     \<and> hw_connectors w' = hw_connectors w \<and> hw_components w' = hw_components w \<and> hw_fleets w' = hw_fleets w"
  by (cases w; cases w') simp

text \<open>The two queries of a check.\<close>

lemma found_pages:
  assumes "bind_eff (al_query env (\<lambda>w. page_of p n (ord1 (aw_operations w) (filter P (tbl1 w))))) (\<lambda>inactive.
      bind_eff (al_query env (\<lambda>w. page_of p n (ord2 (aw_operations w) (filter Q (tbl2 w))))) (\<lambda>active.
        found env (new_unhealthy env hb) t active inactive)) v = (Ok (active, inactive), v')"
    and "\<And>n xs. set (ord1 n xs) \<subseteq> set xs" and "\<And>n xs. set (ord2 n xs) \<subseteq> set xs"
    and "\<And>v'. alert_world.more v' = alert_world.more v \<Longrightarrow> tbl2 v' = tbl2 v"
  shows "set active \<subseteq> {r \<in> set (tbl2 v). Q r}" "UhRow ` set inactive \<subseteq> {r \<in> set (tbl1 v). P r}"
proof -
  from assms(1) obtain v1 v2 rows1 rows2 where
    q1: "al_query env (\<lambda>w. page_of p n (ord1 (aw_operations w) (filter P (tbl1 w)))) v = (Ok rows1, v1)" and
    q2: "al_query env (\<lambda>w. page_of p n (ord2 (aw_operations w) (filter Q (tbl2 w)))) v1 = (Ok rows2, v2)" and
    f: "found env (new_unhealthy env hb) t rows2 rows1 v2 = (Ok (active, inactive), v')"
    by (auto simp: bind_eff_Ok)
  note s1 = queried_rows [OF q1 assms(2)] and s2 = queried_rows [OF q2 assms(3)]
  have "active = rows2" "UhRow ` set inactive = set rows1" using found_rows [OF f] by auto
  with s1(1) s2(1) [unfolded assms(4) [OF s1(2)]]
  show "set active \<subseteq> {r \<in> set (tbl2 v). Q r}" "UhRow ` set inactive \<subseteq> {r \<in> set (tbl1 v). P r}" by simp_all
qed

text \<open>The ids of the entities of a tenant whose heartbeat satisfies a condition.\<close>

definition checked_agents :: "health_world \<Rightarrow> string \<Rightarrow> (go_time \<Rightarrow> bool) \<Rightarrow> string set" where
  "checked_agents w tenantId heartbeat =
     AgID ` {a \<in> set (hw_agents w). AgTenantId a = tenantId \<and> heartbeat (AgHeartbeatAt a) \<and> AgStatus a \<noteq> ''DELETED''}"

definition checked_nodes :: "health_world \<Rightarrow> string \<Rightarrow> (go_time \<Rightarrow> bool) \<Rightarrow> string set" where
  "checked_nodes w tenantId heartbeat = NdId ` {n \<in> set (hw_nodes w). node_checked tenantId n \<and> heartbeat (NdHeartbeatAt n)}"

definition checked_connectors :: "health_world \<Rightarrow> string \<Rightarrow> (go_time \<Rightarrow> bool) \<Rightarrow> string set" where
  "checked_connectors w tenantId heartbeat = CnID ` {c \<in> set (hw_connectors w). connector_checked tenantId c \<and> heartbeat (CnHeartbeatAt c)}"

definition checked_components :: "health_world \<Rightarrow> string \<Rightarrow> (go_time \<Rightarrow> bool) \<Rightarrow> string set" where
  "checked_components w tenantId heartbeat = CmId ` {c \<in> set (hw_components w). component_checked tenantId c \<and> heartbeat (CmHeartbeatAt c)}"

lemma proper_rows_mset:
  assumes "proper_rows env"
  shows "mset (hr_agents (he_rows env n) as) = mset as" "mset (hr_nodes (he_rows env n) ns) = mset ns"
    "mset (hr_connectors (he_rows env n) cs) = mset cs" "mset (hr_components (he_rows env n) ms) = mset ms"
    "mset (hr_joined (he_rows env n) js) = mset js"
  using assms by (simp_all add: proper_rows_def)

lemmas proper_rowsD = proper_rows_mset [THEN mset_eq_setD, THEN equalityD1]

lemmas proper_rows_length = proper_rows_mset [THEN mset_eq_length]

lemma more_healthD:
  assumes "alert_world.more w' = alert_world.more w"
  shows "hw_agents w' = hw_agents w" "hw_nodes w' = hw_nodes w" "hw_connectors w' = hw_connectors w" "hw_components w' = hw_components w"
  using more_health [OF assms] by simp_all

lemma find_agents_sorted:
  assumes "proper_rows env" and "findActiveAndInactiveAgents env tenantId t p v = (Ok (active, inactive), v')"
    and "alert_world.more v = alert_world.more w"
  shows "AgID ` set active \<subseteq> checked_agents w tenantId (\<lambda>h. t \<le> h) \<and> (AgID \<circ> UhRow) ` set inactive \<subseteq> checked_agents w tenantId (\<lambda>h. h < t)"
  using found_pages [OF assms(2) [unfolded findActiveAndInactiveAgents_def NewUnhealthyAgent_def] proper_rowsD(1) [OF assms(1)] proper_rowsD(1) [OF assms(1)] more_healthD(1)]
  unfolding checked_agents_def image_comp [symmetric] more_healthD(1) [OF assms(3)] by fastforce

lemma find_nodes_sorted:
  assumes "proper_rows env" and "findActiveAndInactiveFleet env tenantId t t' p v = (Ok (active, inactive), v')"
    and "alert_world.more v = alert_world.more w"
  shows "NdId ` set active \<subseteq> checked_nodes w tenantId (\<lambda>h. t \<le> h \<and> t' < h)
    \<and> (NdId \<circ> UhRow) ` set inactive \<subseteq> checked_nodes w tenantId (\<lambda>h. h < t \<and> t' < h)"
  using found_pages [OF assms(2) [unfolded findActiveAndInactiveFleet_def NewUnhealthyFleet_def] proper_rowsD(2) [OF assms(1)] proper_rowsD(2) [OF assms(1)] more_healthD(2)]
  unfolding checked_nodes_def image_comp [symmetric] more_healthD(2) [OF assms(3)] by fastforce

lemma find_connectors_sorted:
  assumes "proper_rows env" and "findActiveAndInactiveFleetConnectors env tenantId t t' p v = (Ok (active, inactive), v')"
    and "alert_world.more v = alert_world.more w"
  shows "CnID ` set active \<subseteq> checked_connectors w tenantId (\<lambda>h. t \<le> h \<and> t' < h)
    \<and> (CnID \<circ> UhRow) ` set inactive \<subseteq> checked_connectors w tenantId (\<lambda>h. h < t \<and> t' < h)"
  using found_pages [OF assms(2) [unfolded findActiveAndInactiveFleetConnectors_def NewUnhealthyFleetConnector_def] proper_rowsD(3) [OF assms(1)] proper_rowsD(3) [OF assms(1)] more_healthD(3)]
  unfolding checked_connectors_def image_comp [symmetric] more_healthD(3) [OF assms(3)] by fastforce

lemma joined_components_subset: "(c, x) \<in> set (joined_components w) \<Longrightarrow> c \<in> set (hw_components w)"
  by (auto simp: joined_components_def)

lemma find_components_sorted:
  assumes "proper_rows env" and "findInactiveAndActiveFleetComponents env tenantId t t' p v = (Ok (active, inactive), v')"
    and "alert_world.more v = alert_world.more w"
  shows "CmId ` set active \<subseteq> checked_components w tenantId (\<lambda>h. t \<le> h \<and> t' < h)
    \<and> (CmId \<circ> fst \<circ> UhRow) ` set inactive \<subseteq> checked_components w tenantId (\<lambda>h. h < t \<and> t' < h)"
proof -
  note f = found_pages [OF assms(2) [unfolded findInactiveAndActiveFleetComponents_def NewUnhealthyFleetComponentsWithNames_def]
      proper_rowsD(5) [OF assms(1)] proper_rowsD(4) [OF assms(1)] more_healthD(4)]
  have "fst ` UhRow ` set inactive \<subseteq> {c \<in> set (hw_components v). component_checked tenantId c \<and> CmHeartbeatAt c < t \<and> t' < CmHeartbeatAt c}"
    using f(2) joined_components_subset by fastforce
  with f(1) show ?thesis
    unfolding checked_components_def image_comp [symmetric] more_healthD(4) [OF assms(3)] by fastforce
qed

section \<open>What each check sends\<close>

lemma quiet_finds [quiets]:
  "keeps quiet (findActiveAndInactiveAgents env tenantId t p)" "keeps quiet (findActiveAndInactiveFleet env tenantId t t' p)"
  "keeps quiet (findActiveAndInactiveFleetConnectors env tenantId t t' p)"
  "keeps quiet (findInactiveAndActiveFleetComponents env tenantId t t' p)"
  by (auto simp: findActiveAndInactiveAgents_def findActiveAndInactiveFleet_def findActiveAndInactiveFleetConnectors_def
      findInactiveAndActiveFleetComponents_def NewUnhealthyAgent_def NewUnhealthyFleet_def NewUnhealthyFleetConnector_def
      NewUnhealthyFleetComponentsWithNames_def intro!: quiets)

lemmas send_defs = sendAgentInAppAlerts_def sendFleetInAppAlerts_def sendFleetConnectorInAppAlerts_def sendFleetComponentInAppAlerts_def

lemma now_then: "bind_eff (now_utc env) f w = f (al_now env (aw_clock w)) (w\<lparr>aw_clock := Suc (aw_clock w)\<rparr>)"
  by (simp add: bind_eff_def now_utc_def)

lemma agents_right:
  assumes "proper_rows env" and "t = check_time env ''AGENT_HEALTH_CHECK_TIME'' 30 (al_now env (aw_clock w))"
  shows "sends_right (checked_agents w tenantId (\<lambda>h. t \<le> h)) (checked_agents w tenantId (\<lambda>h. h < t))
    (aw_sent w) (aw_sent (snd (alertForUnhealthyAgents env tenantId w)))"
  using hagent.pages_right [where w = "w\<lparr>aw_clock := Suc (aw_clock w)\<rparr>" and tables = "alert_world.more w", OF quiet_finds(1) find_agents_sorted [OF assms(1)]]
  by (simp add: alertForUnhealthyAgents_def now_then send_defs [abs_def] assms(2))

lemma nodes_right:
  assumes "proper_rows env" and "t = check_time env ''FLEET_HEALTH_CHECK_TIME'' 10 (al_now env (aw_clock w))"
    and "t' = check_time env ''FLEET_HEALTH_CHECK_IGNORE_TIME'' 600 (al_now env (Suc (aw_clock w)))"
  shows "sends_right (checked_nodes w tenantId (\<lambda>h. t \<le> h \<and> t' < h)) (checked_nodes w tenantId (\<lambda>h. h < t \<and> t' < h))
    (aw_sent w) (aw_sent (snd (alertForFleetHealthCheck env tenantId w)))"
  using hnode.pages_right [where w = "w\<lparr>aw_clock := Suc (Suc (aw_clock w))\<rparr>" and tables = "alert_world.more w", OF quiet_finds(2) find_nodes_sorted [OF assms(1)]]
  by (simp add: alertForFleetHealthCheck_def now_then send_defs [abs_def] assms(2,3))

lemma connectors_right:
  assumes "proper_rows env" and "t = check_time env ''FLEET_HEALTH_CHECK_TIME'' 10 (al_now env (aw_clock w))"
    and "t' = check_time env ''FLEET_HEALTH_CHECK_IGNORE_TIME'' 600 (al_now env (Suc (aw_clock w)))"
  shows "sends_right (checked_connectors w tenantId (\<lambda>h. t \<le> h \<and> t' < h)) (checked_connectors w tenantId (\<lambda>h. h < t \<and> t' < h))
    (aw_sent w) (aw_sent (snd (alertForFleetConnectorsHealthCheck env tenantId w)))"
  using hconnector.pages_right [where w = "w\<lparr>aw_clock := Suc (Suc (aw_clock w))\<rparr>" and tables = "alert_world.more w", OF quiet_finds(3) find_connectors_sorted [OF assms(1)]]
  by (simp add: alertForFleetConnectorsHealthCheck_def now_then send_defs [abs_def] assms(2,3))

lemma components_right:
  assumes "proper_rows env" and "t = check_time env ''FLEET_HEALTH_CHECK_TIME'' 10 (al_now env (aw_clock w))"
    and "t' = check_time env ''FLEET_HEALTH_CHECK_IGNORE_TIME'' 600 (al_now env (aw_clock w))"
  shows "sends_right (checked_components w tenantId (\<lambda>h. t \<le> h \<and> t' < h)) (checked_components w tenantId (\<lambda>h. h < t \<and> t' < h))
    (aw_sent w) (aw_sent (snd (alertForFleetComponentsHealthCheck env tenantId w)))"
  using hcomponent.pages_right [where w = "w\<lparr>aw_clock := Suc (aw_clock w)\<rparr>" and tables = "alert_world.more w", OF quiet_finds(4) find_components_sorted [OF assms(1)]]
  by (simp add: alertForFleetComponentsHealthCheck_def now_then send_defs [abs_def] assms(2,3))

section \<open>The checks end\<close>

lemma returns_new_unhealthy [returning]: "returns (new_unhealthy env hb d r)"
  by (auto simp: new_unhealthy_def intro!: returning)

lemma returns_make_all [returning]: "(\<And>r. returns (mk r)) \<Longrightarrow> returns (make_all mk rs)"
  by (induction rs) (auto intro!: returning)

lemma returns_found [returning]: "(\<And>d r. returns (mk d r)) \<Longrightarrow> returns (found env mk t active inactive)"
  by (auto simp: found_def intro!: returning)

lemma returns_finds [returning]:
  "returns (findActiveAndInactiveAgents env tenantId t p)" "returns (findActiveAndInactiveFleet env tenantId t t' p)"
  "returns (findActiveAndInactiveFleetConnectors env tenantId t t' p)"
  "returns (findInactiveAndActiveFleetComponents env tenantId t t' p)"
  by (auto simp: findActiveAndInactiveAgents_def findActiveAndInactiveFleet_def findActiveAndInactiveFleetConnectors_def
      findInactiveAndActiveFleetComponents_def NewUnhealthyAgent_def NewUnhealthyFleet_def NewUnhealthyFleetConnector_def
      NewUnhealthyFleetComponentsWithNames_def intro!: returning)

lemma returns_existing [returning]: "returns (getExistingAlerts env tenantId ids)"
  by (auto simp: getExistingAlerts_def intro!: returning)

lemma returns_builds [returning]:
  "returns (buildAgentAlert env a)" "returns (buildFleetAlert env n)" "returns (buildFleetConnectorAlert env c)"
  "returns (buildFleetComponentAlert env m)"
  by (auto simp: buildAgentAlert_def buildFleetAlert_def buildFleetConnectorAlert_def buildFleetComponentAlert_def intro!: returning)

lemma page_past_end: "length rows \<le> p \<Longrightarrow> page_of p 50 rows = []"
  by (simp add: page_of_def)

lemma query_past_end:
  assumes "al_query env (\<lambda>w. page_of p 50 (ord (aw_operations w) (filter P (tbl w)))) v = (Ok rows, v')"
    and "\<And>n xs. length (ord n xs) = length xs" and "length (tbl v) \<le> p"
  shows "rows = []"
proof -
  have "rows = page_of p 50 (ord (aw_operations v) (filter P (tbl v)))"
    using assms(1) by (auto simp: al_query_def Let_def split: option.splits)
  moreover have "length (ord (aw_operations v) (filter P (tbl v))) \<le> p" using assms(2,3) by (metis length_filter_le order_trans)
  ultimately show ?thesis by (simp add: page_past_end)
qed

lemma found_past_end:
  assumes "bind_eff (al_query env (\<lambda>w. page_of p 50 (ord1 (aw_operations w) (filter P (tbl1 w))))) (\<lambda>inactive.
      bind_eff (al_query env (\<lambda>w. page_of p 50 (ord2 (aw_operations w) (filter Q (tbl2 w))))) (\<lambda>active.
        found env (new_unhealthy env hb) t active inactive)) v = (Ok (active, inactive), v')"
    and "\<And>n xs. length (ord1 n xs) = length xs" and "\<And>n xs. length (ord2 n xs) = length xs"
    and "\<And>v'. alert_world.more v' = alert_world.more v \<Longrightarrow> tbl2 v' = tbl2 v"
    and "length (tbl1 v) \<le> p" and "length (tbl2 v) \<le> p"
  shows "active = [] \<and> inactive = []"
proof -
  from assms(1) obtain v1 v2 rows1 rows2 where
    q1: "al_query env (\<lambda>w. page_of p 50 (ord1 (aw_operations w) (filter P (tbl1 w)))) v = (Ok rows1, v1)" and
    q2: "al_query env (\<lambda>w. page_of p 50 (ord2 (aw_operations w) (filter Q (tbl2 w)))) v1 = (Ok rows2, v2)" and
    f: "found env (new_unhealthy env hb) t rows2 rows1 v2 = (Ok (active, inactive), v')"
    by (auto simp: bind_eff_Ok)
  have "tbl2 v1 = tbl2 v" using assms(4) quiet_more [OF quiet_ops(2) q1] .
  then have "rows1 = []" "rows2 = []"
    using query_past_end [OF q1 assms(2,5)] query_past_end [OF q2 assms(3)] assms(6) by simp_all
  with f show ?thesis by (simp add: found_def)
qed

text \<open>A number of pages after which all four loops have ended.\<close>

definition health_size :: "health_world \<Rightarrow> nat" where
  "health_size w = length (hw_agents w) + length (hw_nodes w) + length (hw_connectors w) + length (hw_components w) + length (joined_components w)"

lemma more_joined: "alert_world.more w' = alert_world.more w \<Longrightarrow> joined_components w' = joined_components w"
  unfolding joined_components_def by (drule more_health) simp

lemma find_past_end:
  assumes "proper_rows env" and "alert_world.more v = alert_world.more w" and "health_size w \<le> p"
  shows "findActiveAndInactiveAgents env tenantId t p v = (Ok (xs1, ys1), v') \<Longrightarrow> xs1 = [] \<and> ys1 = []"
    "findActiveAndInactiveFleet env tenantId t t' p v = (Ok (xs2, ys2), v') \<Longrightarrow> xs2 = [] \<and> ys2 = []"
    "findActiveAndInactiveFleetConnectors env tenantId t t' p v = (Ok (xs3, ys3), v') \<Longrightarrow> xs3 = [] \<and> ys3 = []"
    "findInactiveAndActiveFleetComponents env tenantId t t' p v = (Ok (xs4, ys4), v') \<Longrightarrow> xs4 = [] \<and> ys4 = []"
proof -
  have len: "length (hw_agents v) \<le> p" "length (hw_nodes v) \<le> p" "length (hw_connectors v) \<le> p" "length (hw_components v) \<le> p"
    "length (joined_components v) \<le> p"
    using more_health [OF assms(2)] more_joined [OF assms(2)] assms(3) by (simp_all add: health_size_def)
  show "findActiveAndInactiveAgents env tenantId t p v = (Ok (xs1, ys1), v') \<Longrightarrow> xs1 = [] \<and> ys1 = []"
    unfolding findActiveAndInactiveAgents_def NewUnhealthyAgent_def
    by (erule found_past_end, rule proper_rows_length(1) [OF assms(1)], rule proper_rows_length(1) [OF assms(1)],
        erule more_healthD(1), rule len(1), rule len(1))
  show "findActiveAndInactiveFleet env tenantId t t' p v = (Ok (xs2, ys2), v') \<Longrightarrow> xs2 = [] \<and> ys2 = []"
    unfolding findActiveAndInactiveFleet_def NewUnhealthyFleet_def
    by (erule found_past_end, rule proper_rows_length(2) [OF assms(1)], rule proper_rows_length(2) [OF assms(1)],
        erule more_healthD(2), rule len(2), rule len(2))
  show "findActiveAndInactiveFleetConnectors env tenantId t t' p v = (Ok (xs3, ys3), v') \<Longrightarrow> xs3 = [] \<and> ys3 = []"
    unfolding findActiveAndInactiveFleetConnectors_def NewUnhealthyFleetConnector_def
    by (erule found_past_end, rule proper_rows_length(3) [OF assms(1)], rule proper_rows_length(3) [OF assms(1)],
        erule more_healthD(3), rule len(3), rule len(3))
  show "findInactiveAndActiveFleetComponents env tenantId t t' p v = (Ok (xs4, ys4), v') \<Longrightarrow> xs4 = [] \<and> ys4 = []"
    unfolding findInactiveAndActiveFleetComponents_def NewUnhealthyFleetComponentsWithNames_def
    by (erule found_past_end, rule proper_rows_length(5) [OF assms(1)], rule proper_rows_length(4) [OF assms(1)],
        erule more_healthD(4), rule len(5), rule len(4))
qed

definition ends_in :: "health_world \<Rightarrow> (health_world, 'b) eff \<Rightarrow> bool" where
  "ends_in w m \<longleftrightarrow> (\<forall>v. alert_world.more v = alert_world.more w \<longrightarrow> fst (m v) \<noteq> OutOfFuel \<and> alert_world.more (snd (m v)) = alert_world.more w)"

lemma ends_in_bind:
  assumes "ends_in w m" and "\<And>x. ends_in w (f x)"
  shows "ends_in w (bind_eff m f)"
  unfolding ends_in_def
proof (intro allI impI)
  fix v
  assume v: "alert_world.more v = alert_world.more w"
  obtain r v1 where m: "m v = (r, v1)" by fastforce
  with assms(1) v have "r \<noteq> OutOfFuel" "alert_world.more v1 = alert_world.more w"
    unfolding ends_in_def by (metis fst_conv, metis snd_conv)
  moreover have "fst (f x v1) \<noteq> OutOfFuel \<and> alert_world.more (snd (f x v1)) = alert_world.more w" for x
    using assms(2) [of x] calculation(2) unfolding ends_in_def by blast
  ultimately show "fst (bind_eff m f v) \<noteq> OutOfFuel \<and> alert_world.more (snd (bind_eff m f v)) = alert_world.more w"
    using m by (cases r) (simp_all add: bind_eff_def)
qed

lemma wrap_eff_fuel: "fst (wrap_eff p m v) = OutOfFuel \<longleftrightarrow> fst (m v) = OutOfFuel"
  by (cases "m v"; cases "fst (m v)") (simp_all add: wrap_eff_def)

lemma job_of_fuel: "fst (job_of m v) = OutOfFuel \<longleftrightarrow> fst (m v) = OutOfFuel"
  by (cases "m v"; cases "fst (m v)") (simp_all add: job_of_def try_eff_def bind_eff_def)

lemma ends_in_fail: "ends_in w (eff_fail e)" "ends_in w (al_query env f)"
  by (simp_all add: ends_in_def al_query_def Let_def split: option.split)

lemma ends_in_wrap: "ends_in w m \<Longrightarrow> ends_in w (wrap_eff p m)"
  unfolding ends_in_def wrap_eff_state wrap_eff_fuel .

lemma ends_in_now: "ends_in w (now_utc env)" "ends_in w (Pair (Ok x))"
  by (simp_all add: ends_in_def now_utc_def)

lemma checks_end:
  assumes "proper_rows env" and "health_size w < al_fuel env"
  shows "ends_in w (alertForUnhealthyAgents env tenantId)" "ends_in w (alertForFleetHealthCheck env tenantId)"
    "ends_in w (alertForFleetConnectorsHealthCheck env tenantId)" "ends_in w (alertForFleetComponentsHealthCheck env tenantId)"
proof -
  have fuel: "0 < al_fuel env" "health_size w < 0 + al_fuel env" using assms(2) by simp_all
  note past = find_past_end [OF assms(1)]
  have ends: "(\<And>v. alert_world.more v = alert_world.more w \<Longrightarrow> fst (m v) \<noteq> OutOfFuel) \<Longrightarrow> keeps tables_kept m \<Longrightarrow> ends_in w m"
    for m :: "(health_world, unit) eff" by (simp add: ends_in_def keeps_def tables_kept_def)
  have tried: "returns (bind_eff (try_eff (getExistingAlerts env tenantId ids)) (\<lambda>r. eff_return (case r of Inl _ \<Rightarrow> [] | Inr docs \<Rightarrow> docs)))"
    for ids by (intro returning)
  show "ends_in w (alertForUnhealthyAgents env tenantId)"
    unfolding alertForUnhealthyAgents_def send_defs [abs_def]
    by (intro ends_in_bind ends_in_now, rule ends [OF hagent.pages_end [OF quiet_finds(1) returns_finds(1) returns_builds(1) returns_existing past(1) fuel]
        hagent.pages_tables [OF quiet_finds(1)]])
  show "ends_in w (alertForFleetHealthCheck env tenantId)"
    unfolding alertForFleetHealthCheck_def send_defs [abs_def]
    by (intro ends_in_bind ends_in_now, rule ends [OF hnode.pages_end [OF quiet_finds(2) returns_finds(2) returns_builds(2) returns_existing past(2) fuel]
        hnode.pages_tables [OF quiet_finds(2)]])
  show "ends_in w (alertForFleetConnectorsHealthCheck env tenantId)"
    unfolding alertForFleetConnectorsHealthCheck_def send_defs [abs_def]
    by (intro ends_in_bind ends_in_now, rule ends [OF hconnector.pages_end [OF quiet_finds(3) returns_finds(3) returns_builds(3) tried past(3) fuel]
        hconnector.pages_tables [OF quiet_finds(3)]])
  show "ends_in w (alertForFleetComponentsHealthCheck env tenantId)"
    unfolding alertForFleetComponentsHealthCheck_def send_defs [abs_def]
    by (intro ends_in_bind ends_in_now, rule ends [OF hcomponent.pages_end [OF quiet_finds(4) returns_finds(4) returns_builds(4) returns_existing past(4) fuel]
        hcomponent.pages_tables [OF quiet_finds(4)]])
qed

lemma health_tenant_ends:
  assumes "proper_rows env" and "health_size w < al_fuel env"
  shows "ends_in w (check_health_tenant env tenantId)"
  unfolding check_health_tenant_def by (intro ends_in_bind ends_in_wrap checks_end assms)

lemma health_tenants_end:
  assumes "proper_rows env" and "health_size w < al_fuel env"
  shows "ends_in w (each_tenant (check_health_tenant env) tenants)"
  by (induction tenants) (auto simp: eff_return_def [abs_def] intro!: ends_in_bind ends_in_now health_tenant_ends assms)

section \<open>Properties\<close>

text \<open>An example: one agent that is late and one that is not; the index of alerts answers with nothing.\<close>

definition example_rows :: health_rows where
  "example_rows = \<lparr>hr_agents = (\<lambda>xs. xs), hr_nodes = (\<lambda>xs. xs), hr_connectors = (\<lambda>xs. xs), hr_components = (\<lambda>xs. xs), hr_joined = (\<lambda>xs. xs)\<rparr>"

definition example_health_env :: health_env where
  "example_health_env = \<lparr>al_client = (\<lambda>_ _. NoReply ''down''), al_fault = (\<lambda>_. None), al_now = (\<lambda>n. int n + 10 ^ 18),
     al_decode = (\<lambda>_. Inr []), al_sha256 = (\<lambda>s. s), al_fuel = 4, he_rows = (\<lambda>_. example_rows), he_format = (\<lambda>_. ''''),
     he_node_text = (\<lambda>_. ''''), he_getenv = (\<lambda>_. ''''), he_client_ok = True, he_manager = None\<rparr>"

definition example_health_world :: health_world where
  "example_health_world = \<lparr>aw_calls = [], aw_sent = [], aw_operations = 0, aw_clock = 0, hw_tenants = [(''t'', True)],
     hw_agents = [\<lparr>AgID = ''a'', AgName = ''one'', AgStatus = ''ACTIVE'', AgTenantId = ''t'', AgDataPlaneId = ''p'', AgHeartbeatAt = 0\<rparr>,
       \<lparr>AgID = ''b'', AgName = ''two'', AgStatus = ''ACTIVE'', AgTenantId = ''t'', AgDataPlaneId = ''p'', AgHeartbeatAt = 10 ^ 18\<rparr>],
     hw_nodes = [], hw_fleets = [], hw_connectors = [], hw_components = []\<rparr>"

lemma example_proper: "proper_rows example_health_env"
  by (simp add: proper_rows_def example_health_env_def example_rows_def)



text \<open>With more fuel than there are rows the health check job returns: every one of its loops over the pages ends,
  since a page beyond the end of a table is empty.\<close>

theorem health_check_returns:
  assumes "proper_rows env" and "health_size w < al_fuel env"
  shows "fst (HealthCheckJob env w) \<noteq> OutOfFuel"
proof -
  have "ends_in w (bind_eff (wrap_eff ''error while fetching tenants: '' (al_query env (\<lambda>w. map fst (filter snd (hw_tenants w))))) (\<lambda>tenants.
      each_tenant (check_health_tenant env) tenants))"
    by (intro ends_in_bind ends_in_wrap ends_in_fail(2) health_tenants_end assms)
  then show ?thesis
    unfolding HealthCheckJob_def job_of_fuel ends_in_def by (cases "he_manager env") simp_all
qed

theorem health_check_returns_witness:
  "health_size example_health_world = 2 \<and> al_fuel example_health_env = 4
    \<and> fst (HealthCheckJob example_health_env example_health_world) \<noteq> OutOfFuel"
proof -
  have "health_size example_health_world = 2" "al_fuel example_health_env = 4"
    by (simp_all add: health_size_def example_health_world_def joined_components_def example_health_env_def)
  then show ?thesis using health_check_returns [OF example_proper, of example_health_world] by simp
qed

end
