(* ===== verification/Deploy_Delay.thy ===== *)
theory Deploy_Delay
  imports Alert_World
begin

text \<open>
  The job of \<open>internal/cp_alerts/jobs/deployment_delay_alert.go\<close> with \<open>cp_alerts/model/deployment_delay.go\<close>:
  entities that are in the state \<open>DEPLOYING\<close> since before a cutoff are alerted, and the open alerts of
  entities that have left the state are resolved.

  There is one table for each type of entity, whose columns are not null.  \<open>de_rows n\<close> gives the rows that the iteration of operation
  \<open>n\<close> delivers: their order is the database's choice, and an iteration that ends early looks like the end of
  the rows, since its error is not asked for.  \<open>de_scan\<close> is the error of the driver on a row, and
  \<open>de_format\<close> writes a time in the location the driver gives it.
\<close>

section \<open>Entities and tables\<close>

datatype EntityType =
    EntityTypeSource
  | EntityTypeDestination
  | EntityTypeInsightRule
  | EntityTypeVCRule
  | EntityTypeEnrichment
  | EntityTypeRouteProcessor
  | EntityTypeLookup
  | EntityTypeDataTransformation

record DeployingEntity =
  DeID :: string
  DeName :: string
  DeType :: EntityType
  DeTenantID :: string
  DeDataPlaneID :: string
  DeUpdatedAt :: go_time

record HealthyEntity =
  HeEntityId :: string
  HeEntityType :: EntityType

record deploy_row =
  DrId :: string
  DrName :: string
  DrTenantId :: string
  DrDataPlaneId :: string
  DrStatus :: string
  DrUpdatedAt :: go_time

record deploy_world = alert_world +
  dw_tenants :: "(string \<times> bool) list"
  dw_table :: "EntityType \<Rightarrow> deploy_row list"

record deploy_env = alert_env +
  de_rows :: "nat \<Rightarrow> deploy_row list \<Rightarrow> deploy_row list"
  de_scan :: "EntityType \<Rightarrow> deploy_row \<Rightarrow> go_error option"
  de_format :: "go_time \<Rightarrow> string"
  de_getenv :: "string \<Rightarrow> string"
  de_client_ok :: bool
  de_manager :: "go_error option"

type_synonym 'a deploy = "(deploy_world, 'a) eff"

definition DefaultDataPlaneId :: string where
  "DefaultDataPlaneId = ''dbd00000-0000-0000-0000-000000000000''"

section \<open>Queries\<close>

text \<open>\<^verbatim>\<open>for rows.Next() { if err := rows.Scan(...); err != nil { return nil, err } ... }\<close>\<close>

fun scan_rows :: "(deploy_row \<Rightarrow> go_error option) \<Rightarrow> (deploy_row \<Rightarrow> 'a) \<Rightarrow> deploy_row list \<Rightarrow> go_error + 'a list" where
  "scan_rows err mk [] = Inr []"
| "scan_rows err mk (r # rows) =
     (case err r of
        Some e \<Rightarrow> Inl e
      | None \<Rightarrow> (case scan_rows err mk rows of Inl e \<Rightarrow> Inl e | Inr xs \<Rightarrow> Inr (mk r # xs)))"

definition select_rows ::
  "deploy_env \<Rightarrow> EntityType \<Rightarrow> (deploy_row \<Rightarrow> bool) \<Rightarrow> (deploy_row \<Rightarrow> 'a) \<Rightarrow> 'a list deploy" where
  "select_rows env ty P mk =
     bind_eff (al_query env (\<lambda>w. de_rows env (aw_operations w) (filter P (dw_table w ty)))) (\<lambda>rows.
       al_result (scan_rows (de_scan env ty) mk rows))"

definition deploying_row :: "string \<Rightarrow> go_time \<Rightarrow> deploy_row \<Rightarrow> bool" where
  "deploying_row tenantId cutoffTime r \<longleftrightarrow> DrTenantId r = tenantId \<and> DrStatus r = ''DEPLOYING'' \<and> DrUpdatedAt r < cutoffTime"

definition healthy_row :: "string \<Rightarrow> deploy_row \<Rightarrow> bool" where
  "healthy_row tenantId r \<longleftrightarrow> DrTenantId r = tenantId \<and> DrStatus r \<noteq> ''DEPLOYING''"

definition deploying_entity :: "EntityType \<Rightarrow> deploy_row \<Rightarrow> DeployingEntity" where
  "deploying_entity ty r =
     \<lparr>DeID = DrId r, DeName = DrName r, DeType = ty, DeTenantID = DrTenantId r, DeDataPlaneID = DrDataPlaneId r,
      DeUpdatedAt = DrUpdatedAt r\<rparr>"

definition getDeployingSources :: "deploy_env \<Rightarrow> string \<Rightarrow> go_time \<Rightarrow> DeployingEntity list deploy" where
  "getDeployingSources env tenantId cutoffTime =
     select_rows env EntityTypeSource (deploying_row tenantId cutoffTime) (deploying_entity EntityTypeSource)"

definition getDeployingDestinations :: "deploy_env \<Rightarrow> string \<Rightarrow> go_time \<Rightarrow> DeployingEntity list deploy" where
  "getDeployingDestinations env tenantId cutoffTime =
     select_rows env EntityTypeDestination (deploying_row tenantId cutoffTime) (deploying_entity EntityTypeDestination)"

definition getDeployingInsightRules :: "deploy_env \<Rightarrow> string \<Rightarrow> go_time \<Rightarrow> DeployingEntity list deploy" where
  "getDeployingInsightRules env tenantId cutoffTime =
     select_rows env EntityTypeInsightRule (deploying_row tenantId cutoffTime) (deploying_entity EntityTypeInsightRule)"

definition getDeployingVCRules :: "deploy_env \<Rightarrow> string \<Rightarrow> go_time \<Rightarrow> DeployingEntity list deploy" where
  "getDeployingVCRules env tenantId cutoffTime =
     select_rows env EntityTypeVCRule (deploying_row tenantId cutoffTime) (deploying_entity EntityTypeVCRule)"

definition getDeployingEnrichments :: "deploy_env \<Rightarrow> string \<Rightarrow> go_time \<Rightarrow> DeployingEntity list deploy" where
  "getDeployingEnrichments env tenantId cutoffTime =
     select_rows env EntityTypeEnrichment (deploying_row tenantId cutoffTime) (deploying_entity EntityTypeEnrichment)"

text \<open>A route processor has no name: its id is its name.  The pipeline id is scanned and not used.\<close>

definition getDeployingRouteProcessors :: "deploy_env \<Rightarrow> string \<Rightarrow> go_time \<Rightarrow> DeployingEntity list deploy" where
  "getDeployingRouteProcessors env tenantId cutoffTime =
     select_rows env EntityTypeRouteProcessor (deploying_row tenantId cutoffTime)
       (\<lambda>r. (deploying_entity EntityTypeRouteProcessor r)\<lparr>DeName := DrId r\<rparr>)"

text \<open>A lookup has no data plane.\<close>

definition getDeployingLookups :: "deploy_env \<Rightarrow> string \<Rightarrow> go_time \<Rightarrow> DeployingEntity list deploy" where
  "getDeployingLookups env tenantId cutoffTime =
     select_rows env EntityTypeLookup (deploying_row tenantId cutoffTime)
       (\<lambda>r. (deploying_entity EntityTypeLookup r)\<lparr>DeDataPlaneID := DefaultDataPlaneId\<rparr>)"

definition getDeployingDataTransformations :: "deploy_env \<Rightarrow> string \<Rightarrow> go_time \<Rightarrow> DeployingEntity list deploy" where
  "getDeployingDataTransformations env tenantId cutoffTime =
     select_rows env EntityTypeDataTransformation (deploying_row tenantId cutoffTime) (deploying_entity EntityTypeDataTransformation)"

definition getHealthySources :: "deploy_env \<Rightarrow> string \<Rightarrow> string list deploy" where
  "getHealthySources env tenantId = select_rows env EntityTypeSource (healthy_row tenantId) DrId"

definition getHealthyDestinations :: "deploy_env \<Rightarrow> string \<Rightarrow> string list deploy" where
  "getHealthyDestinations env tenantId = select_rows env EntityTypeDestination (healthy_row tenantId) DrId"

definition getHealthyInsightRules :: "deploy_env \<Rightarrow> string \<Rightarrow> string list deploy" where
  "getHealthyInsightRules env tenantId = select_rows env EntityTypeInsightRule (healthy_row tenantId) DrId"

definition getHealthyVCRules :: "deploy_env \<Rightarrow> string \<Rightarrow> string list deploy" where
  "getHealthyVCRules env tenantId = select_rows env EntityTypeVCRule (healthy_row tenantId) DrId"

definition getHealthyEnrichments :: "deploy_env \<Rightarrow> string \<Rightarrow> string list deploy" where
  "getHealthyEnrichments env tenantId = select_rows env EntityTypeEnrichment (healthy_row tenantId) DrId"

definition getHealthyRouteProcessors :: "deploy_env \<Rightarrow> string \<Rightarrow> string list deploy" where
  "getHealthyRouteProcessors env tenantId = select_rows env EntityTypeRouteProcessor (healthy_row tenantId) DrId"

definition getHealthyLookups :: "deploy_env \<Rightarrow> string \<Rightarrow> string list deploy" where
  "getHealthyLookups env tenantId = select_rows env EntityTypeLookup (healthy_row tenantId) DrId"

definition getHealthyDataTransformations :: "deploy_env \<Rightarrow> string \<Rightarrow> string list deploy" where
  "getHealthyDataTransformations env tenantId = select_rows env EntityTypeDataTransformation (healthy_row tenantId) DrId"

section \<open>Alerts\<close>

definition deploying_alert_entity :: "DeployingEntity \<Rightarrow> AlertEntity" where
  "deploying_alert_entity e =
     \<lparr>GetEntityId = DeID e, GetEntityName = DeName e, GetDataPlaneId = DeDataPlaneID e, GetTenantId = DeTenantID e,
      GetSecondaryEntityId = ''''\<rparr>"

definition entity_names :: "EntityType \<Rightarrow> string \<times> string" where
  "entity_names ty = (case ty of
     EntityTypeSource \<Rightarrow> (''Source'', ''log_source'')
   | EntityTypeDestination \<Rightarrow> (''Destination'', ''dispenser'')
   | EntityTypeInsightRule \<Rightarrow> (''Insight Rule'', ''insights_rule'')
   | EntityTypeVCRule \<Rightarrow> (''Volume Control Rule'', ''volume_control_rule'')
   | EntityTypeEnrichment \<Rightarrow> (''Enrichment'', ''enrichment'')
   | EntityTypeRouteProcessor \<Rightarrow> (''Route Processor'', ''route_processor'')
   | EntityTypeLookup \<Rightarrow> (''Lookup'', ''lookup'')
   | EntityTypeDataTransformation \<Rightarrow> (''Data Transformation'', ''transformation''))"

definition deploying_alert_options :: "deploy_env \<Rightarrow> go_time \<Rightarrow> DeployingEntity \<Rightarrow> alert_options" where
  "deploying_alert_options env now entity =
     (let (entityTypeName, functionality) = entity_names (DeType entity);
          timeSinceUpdate = time_sub now (DeUpdatedAt entity)
      in \<lparr>OptFunctionality = functionality, OptEntity = deploying_alert_entity entity, OptCriticality = ''warning'',
          OptFunctionalityType = ''deployment_status'',
          OptTitle = ''Deployment Alert: '' @ entityTypeName @ '' '' @ quoted (DeName entity) @ '' Stuck in Deploying State'',
          OptMessage = entityTypeName @ '' '' @ quoted (DeName entity) @ '' has been stuck in DEPLOYING state for ''
            @ HumanReadableDuration timeSinceUpdate @ ''. '' @ ''The '' @ entityTypeName @ '' was last updated on ''
            @ de_format env (DeUpdatedAt entity)
            @ '' and may require manual intervention to complete the deployment or resolve any blocking issues.'',
          OptErrorCode = ''DIOE30001'', OptErrorTemplate = ''Service unavailable. {0}'',
          OptErrorParam = entityTypeName @ '' stuck in deploying state'',
          OptAction = ''Please contact Databahn Team for the help.''\<rparr>)"

definition buildDeployingAlert :: "deploy_env \<Rightarrow> DeployingEntity \<Rightarrow> Alert deploy" where
  "buildDeployingAlert env entity = bind_eff (now_utc env) (\<lambda>now. NewAlert env (deploying_alert_options env now entity))"

definition sendDeployingAlert :: "deploy_env \<Rightarrow> DeployingEntity \<Rightarrow> unit deploy" where
  "sendDeployingAlert env entity =
     bind_eff (wrap_eff ''error building deploying alert: '' (buildDeployingAlert env entity)) (\<lambda>deployingAlert.
       SendAlerts [deployingAlert])"

section \<open>The check of a tenant\<close>

text \<open>An alert that cannot be built is logged; the next entity follows.\<close>

fun send_each :: "('x \<Rightarrow> ('w, unit) eff) \<Rightarrow> 'x list \<Rightarrow> ('w, unit) eff" where
  "send_each send [] = eff_return ()"
| "send_each send (x # xs) = bind_eff (try_eff (send x)) (\<lambda>_. send_each send xs)"

definition processEntityType :: "deploy_env \<Rightarrow> string \<Rightarrow> DeployingEntity list deploy \<Rightarrow> unit deploy" where
  "processEntityType env entityTypeName getEntities =
     bind_eff (wrap_eff (''error getting deploying '' @ entityTypeName @ '': '') getEntities) (send_each (sendDeployingAlert env))"

definition processDeployingEntities :: "deploy_env \<Rightarrow> string \<Rightarrow> go_time \<Rightarrow> unit deploy" where
  "processDeployingEntities env tenantId cutoffTime =
     bind_eff (processEntityType env ''sources'' (getDeployingSources env tenantId cutoffTime)) (\<lambda>_.
     bind_eff (processEntityType env ''destinations'' (getDeployingDestinations env tenantId cutoffTime)) (\<lambda>_.
     bind_eff (processEntityType env ''insight rules'' (getDeployingInsightRules env tenantId cutoffTime)) (\<lambda>_.
     bind_eff (processEntityType env ''vc rules'' (getDeployingVCRules env tenantId cutoffTime)) (\<lambda>_.
     bind_eff (processEntityType env ''enrichments'' (getDeployingEnrichments env tenantId cutoffTime)) (\<lambda>_.
     bind_eff (processEntityType env ''route processors'' (getDeployingRouteProcessors env tenantId cutoffTime)) (\<lambda>_.
     bind_eff (processEntityType env ''lookups'' (getDeployingLookups env tenantId cutoffTime)) (\<lambda>_.
       processEntityType env ''data transformations'' (getDeployingDataTransformations env tenantId cutoffTime))))))))"

text \<open>An entity type whose query fails contributes nothing.\<close>

fun collect_healthy :: "(EntityType \<times> string list deploy) list \<Rightarrow> HealthyEntity list deploy" where
  "collect_healthy [] = eff_return []"
| "collect_healthy ((ty, get) # gets) =
     bind_eff (try_eff get) (\<lambda>r.
     bind_eff (collect_healthy gets) (\<lambda>rest.
       eff_return ((case r of Inl _ \<Rightarrow> [] | Inr ids \<Rightarrow> map (\<lambda>i. \<lparr>HeEntityId = i, HeEntityType = ty\<rparr>) ids) @ rest)))"

definition collectHealthyEntities :: "deploy_env \<Rightarrow> string \<Rightarrow> HealthyEntity list deploy" where
  "collectHealthyEntities env tenantId = collect_healthy
     [(EntityTypeSource, getHealthySources env tenantId),
      (EntityTypeDestination, getHealthyDestinations env tenantId),
      (EntityTypeInsightRule, getHealthyInsightRules env tenantId),
      (EntityTypeVCRule, getHealthyVCRules env tenantId),
      (EntityTypeEnrichment, getHealthyEnrichments env tenantId),
      (EntityTypeRouteProcessor, getHealthyRouteProcessors env tenantId),
      (EntityTypeLookup, getHealthyLookups env tenantId),
      (EntityTypeDataTransformation, getHealthyDataTransformations env tenantId)]"

definition healthy_query :: "string \<Rightarrow> string \<Rightarrow> string" where
  "healthy_query tenantId entityId =
     ''tenantId:'' @ tenantId @ '' AND dismissed:false AND functionalityType:'' @ ''deployment_status''
       @ '' AND functionalityEntityId:'' @ entityId"

text \<open>The pages of the open alerts of one entity; an error of the search or of the decoder ends its loop.\<close>

fun resolve_pages :: "nat \<Rightarrow> deploy_env \<Rightarrow> string \<Rightarrow> json list option \<Rightarrow> unit deploy" where
  "resolve_pages 0 env q after = eff_out_of_fuel"
| "resolve_pages (Suc fuel) env q after =
     bind_eff (try_eff (al_search (SearchPaginated (al_client env) AlertsIndex q 100 after
         [\<lparr>SortField = ''updatedAt'', Order = ''asc''\<rparr>]))) (\<lambda>r.
       case r of
         Inl _ \<Rightarrow> eff_return ()
       | Inr (openAlerts, newAfter) \<Rightarrow>
           (case al_decode env openAlerts of
              Inl _ \<Rightarrow> eff_return ()
            | Inr alerts \<Rightarrow>
                bind_eff (AutoResolveAlerts (map DocId alerts)) (\<lambda>_.
                  if length openAlerts < 100 then eff_return ()
                  else resolve_pages fuel env q (Some newAfter))))"

fun resolve_healthy :: "deploy_env \<Rightarrow> string \<Rightarrow> HealthyEntity list \<Rightarrow> unit deploy" where
  "resolve_healthy env tenantId [] = eff_return ()"
| "resolve_healthy env tenantId (healthy # rest) =
     bind_eff (resolve_pages (al_fuel env) env (healthy_query tenantId (HeEntityId healthy)) None) (\<lambda>_.
       resolve_healthy env tenantId rest)"

text \<open>The client is not tested for nil: without one the first search panics.\<close>

definition autoResolveHealthyEntityAlerts :: "deploy_env \<Rightarrow> string \<Rightarrow> HealthyEntity list \<Rightarrow> unit deploy" where
  "autoResolveHealthyEntityAlerts env tenantId healthyEntities =
     (if healthyEntities = [] then eff_return ()
      else if \<not> de_client_ok env then eff_panic
      else resolve_healthy env tenantId healthyEntities)"

definition CheckAndAlertDeployingEntities :: "deploy_env \<Rightarrow> string \<Rightarrow> go_time \<Rightarrow> unit deploy" where
  "CheckAndAlertDeployingEntities env tenantId cutoffTime =
     bind_eff (processDeployingEntities env tenantId cutoffTime) (\<lambda>_.
     bind_eff (collectHealthyEntities env tenantId) (\<lambda>healthyEntities.
       autoResolveHealthyEntityAlerts env tenantId healthyEntities))"

section \<open>The job\<close>

text \<open>An error of one tenant is recorded and the next tenant follows.\<close>

fun deploy_tenants :: "deploy_env \<Rightarrow> go_time \<Rightarrow> string list \<Rightarrow> JobError list \<Rightarrow> JobError list deploy" where
  "deploy_tenants env cutoffTime [] jobErrors = eff_return jobErrors"
| "deploy_tenants env cutoffTime (t # tenants) jobErrors =
     bind_eff (try_eff (CheckAndAlertDeployingEntities env t cutoffTime)) (\<lambda>r.
       deploy_tenants env cutoffTime tenants
         (case r of
            Inl e \<Rightarrow> jobErrors @ [\<lparr>Message = ''error checking deploying entities for tenant '' @ t @ '': '' @ e\<rparr>]
          | Inr _ \<Rightarrow> jobErrors))"

definition deployment_cutoff :: "deploy_env \<Rightarrow> go_time \<Rightarrow> go_time" where
  "deployment_cutoff env now = now + wrap64 (- GetEnvInt (de_getenv env) ''DEPLOYMENT_TIMEOUT_MINUTES'' 15 * Minute)"

definition SendAlertForDeploymentDelayAlert :: "deploy_env \<Rightarrow> JobResult deploy" where
  "SendAlertForDeploymentDelayAlert env =
     bind_eff (try_eff (al_query env (\<lambda>w. map fst (filter snd (dw_tenants w))))) (\<lambda>r.
       case r of
         Inl e \<Rightarrow> eff_return (NewJobResultFromErrors [\<lparr>Message = ''error getting all tenants: '' @ e\<rparr>])
       | Inr tenants \<Rightarrow>
           (case de_manager env of
              Some e \<Rightarrow> eff_return (NewJobResultFromErrors [\<lparr>Message = ''error getting alerts manager: '' @ e\<rparr>])
            | None \<Rightarrow>
                bind_eff (now_utc env) (\<lambda>now.
                bind_eff (deploy_tenants env (deployment_cutoff env now) tenants []) (\<lambda>jobErrors.
                  if jobErrors = [] then eff_return NewJobResultSuccess
                  else eff_return (NewJobResultFromErrors jobErrors)))))"

end
