(* ===== verification/Deploy_Safety.thy ===== *)
theory Deploy_Safety
  imports Deploy_Delay Alert_Pass
begin

text \<open>
  What the deployment check guarantees: an alert is sent only for an entity that is stuck in the state
  \<open>DEPLOYING\<close>, an alert is resolved only for one that has left it, and the failure of one tenant is reported
  without keeping the other tenants from being checked.
\<close>

section \<open>Rows\<close>

text \<open>The ids of the rows of all tables that satisfy a condition.\<close>

definition row_ids :: "deploy_world \<Rightarrow> (deploy_row \<Rightarrow> bool) \<Rightarrow> string set" where
  "row_ids w P = {DrId r | r ty. r \<in> set (dw_table w ty) \<and> P r}"

definition some_rows :: "deploy_env \<Rightarrow> bool" where
  "some_rows env \<longleftrightarrow> (\<forall>n xs. set (de_rows env n xs) \<subseteq> set xs)"

lemma more_deploy: "alert_world.more w' = alert_world.more w \<Longrightarrow> dw_table w' = dw_table w"
  by (cases w; cases w') simp

lemma scan_rows_Inr: "scan_rows err mk rows = Inr xs \<Longrightarrow> xs = map mk rows"
  by (induction rows arbitrary: xs) (auto split: option.splits sum.splits)

lemma quiet_select_rows [quiets]: "keeps quiet (select_rows env ty P mk)"
  by (auto simp: select_rows_def intro!: quiets)

lemma select_rows_ids:
  assumes "some_rows env" and "select_rows env ty P mk v = (Ok xs, v')" and "alert_world.more v = alert_world.more w"
    and "\<And>r. ident (mk r) = DrId r"
  shows "ident ` set xs \<subseteq> row_ids w P"
proof -
  from assms(2) obtain v1 where "scan_rows (de_scan env ty) mk (de_rows env (aw_operations v) (filter P (dw_table v ty))) = Inr xs"
    by (auto simp: select_rows_def bind_eff_Ok al_query_def al_result_def Let_def split: option.splits sum.splits)
  then have "xs = map mk (de_rows env (aw_operations v) (filter P (dw_table v ty)))" by (rule scan_rows_Inr)
  moreover have "set (de_rows env (aw_operations v) (filter P (dw_table v ty))) \<subseteq> {r \<in> set (dw_table w ty). P r}"
    using assms(1) more_deploy [OF assms(3)] by (fastforce simp: some_rows_def)
  ultimately show ?thesis using assms(4) by (auto simp: row_ids_def)
qed

section \<open>Alerts for stuck entities\<close>

definition sends :: "string set \<Rightarrow> string set \<Rightarrow> deploy_world \<Rightarrow> 'a deploy \<Rightarrow> bool" where
  "sends alive dead w m \<longleftrightarrow> (\<forall>v. alert_world.more v = alert_world.more w \<longrightarrow>
     sends_right alive dead (aw_sent v) (aw_sent (snd (m v))) \<and> alert_world.more (snd (m v)) = alert_world.more w)"

lemma sends_quiet: "keeps quiet m \<Longrightarrow> sends alive dead w m"
  by (simp add: sends_def keeps_def quiet_def sends_right_refl)

lemma sends_bind:
  assumes "sends alive dead w m"
    and "\<And>v x v'. m v = (Ok x, v') \<Longrightarrow> alert_world.more v = alert_world.more w \<Longrightarrow> sends alive dead w (f x)"
  shows "sends alive dead w (bind_eff m f)"
  unfolding sends_def
proof (intro allI impI)
  fix v
  assume v: "alert_world.more v = alert_world.more w"
  obtain r v1 where m: "m v = (r, v1)" by fastforce
  with assms(1) v have 1: "sends_right alive dead (aw_sent v) (aw_sent v1)" "alert_world.more v1 = alert_world.more w"
    unfolding sends_def by (metis snd_conv)+
  have "sends_right alive dead (aw_sent v1) (aw_sent (snd (f x v1))) \<and> alert_world.more (snd (f x v1)) = alert_world.more w"
    if "r = Ok x" for x using assms(2) m v that 1(2) unfolding sends_def by blast
  with 1 m show "sends_right alive dead (aw_sent v) (aw_sent (snd (bind_eff m f v)))
      \<and> alert_world.more (snd (bind_eff m f v)) = alert_world.more w"
    by (cases r) (auto simp: bind_eff_def intro: sends_right_trans)
qed

lemma try_eff_state: "snd (try_eff m v) = snd (m v)"
  by (cases "m v"; cases "fst (m v)") (simp_all add: try_eff_def)

lemma sends_try: "sends alive dead w m \<Longrightarrow> sends alive dead w (try_eff m)"
  by (simp only: sends_def try_eff_state)

lemma sends_one: "right_message alive dead m \<Longrightarrow> sends alive dead w (al_send m)"
  by (simp add: sends_def al_send_def sends_right_def)

lemma build_deploying_entity:
  "buildDeployingAlert env e v = (Ok a, v') \<Longrightarrow> FunctionalityEntityId a = DeID e"
  by (auto simp: buildDeployingAlert_def bind_eff_Ok deploying_alert_options_def deploying_alert_entity_def split_def Let_def
      dest!: NewAlert_entity(1))

lemma sends_deploying:
  assumes "DeID e \<in> dead"
  shows "sends alive dead w (sendDeployingAlert env e)"
proof -
  have "sends alive dead w (SendAlerts [a])" if "FunctionalityEntityId a \<in> dead" for a
    using that by (simp add: sends_def SendAlerts_sends sends_right_def right_message_def del: SendAlerts.simps)
  moreover have "keeps quiet (wrap_eff p (buildDeployingAlert env e))" for p
    unfolding buildDeployingAlert_def by (intro quiets)
  ultimately show ?thesis
    unfolding sendDeployingAlert_def using assms build_deploying_entity
    by (intro sends_bind [OF sends_quiet]) (auto simp: wrap_eff_Ok simp del: SendAlerts.simps)
qed

lemma sends_each: "(\<And>x. x \<in> set xs \<Longrightarrow> sends alive dead w (send x)) \<Longrightarrow> sends alive dead w (send_each send xs)"
proof (induction xs)
  case Nil
  show ?case by (simp add: sends_quiet quiets)
next
  case (Cons x xs)
  then show ?case by (auto intro!: sends_bind sends_try)
qed

lemma sends_entity_type:
  assumes "keeps quiet get" and "\<And>v xs v'. get v = (Ok xs, v') \<Longrightarrow> alert_world.more v = alert_world.more w \<Longrightarrow> DeID ` set xs \<subseteq> dead"
  shows "sends alive dead w (processEntityType env name get)"
  unfolding processEntityType_def
  by (rule sends_bind [OF sends_quiet [OF quiet_wrap [OF assms(1)]]])
    (use assms(2) in \<open>fastforce simp: wrap_eff_Ok intro: sends_each sends_deploying\<close>)

lemmas getDeploying_defs = getDeployingSources_def getDeployingDestinations_def getDeployingInsightRules_def getDeployingVCRules_def
  getDeployingEnrichments_def getDeployingRouteProcessors_def getDeployingLookups_def getDeployingDataTransformations_def

lemmas getHealthy_defs = getHealthySources_def getHealthyDestinations_def getHealthyInsightRules_def getHealthyVCRules_def
  getHealthyEnrichments_def getHealthyRouteProcessors_def getHealthyLookups_def getHealthyDataTransformations_def

lemma sends_select:
  assumes "some_rows env" and "\<And>r. DeID (mk r) = DrId r"
  shows "sends alive (row_ids w P) w (processEntityType env name (select_rows env ty P mk))"
  by (rule sends_entity_type [OF quiet_select_rows]) (rule select_rows_ids [where ident = DeID, OF assms(1) _ _ assms(2)])

lemma sends_process:
  assumes "some_rows env"
  shows "sends alive (row_ids w (deploying_row tenantId cutoffTime)) w (processDeployingEntities env tenantId cutoffTime)"
  unfolding processDeployingEntities_def getDeploying_defs
  by (intro sends_bind sends_select assms) (simp_all add: deploying_entity_def)

section \<open>Resolutions for healthy entities\<close>

text \<open>The index answers the query for an entity with documents about that entity.\<close>

definition exact_index :: "deploy_env \<Rightarrow> string \<Rightarrow> string set \<Rightarrow> bool" where
  "exact_index env tenantId ids \<longleftrightarrow> (\<forall>i \<in> ids. \<forall>after h hits newAfter h' docs.
     SearchPaginated (al_client env) AlertsIndex (healthy_query tenantId i) 100 after
       [\<lparr>SortField = ''updatedAt'', Order = ''asc''\<rparr>] h = (Ok (hits, newAfter), h') \<longrightarrow>
     al_decode env hits = Inr docs \<longrightarrow> (\<forall>d \<in> set docs. DocEntityId d = i))"

lemma sends_resolve_pages:
  assumes "exact_index env tenantId alive" and "i \<in> alive"
  shows "sends alive dead w (resolve_pages fuel env (healthy_query tenantId i) after)"
proof (induction fuel arbitrary: after)
  case 0
  show ?case by (simp add: sends_quiet quiets)
next
  case (Suc fuel)
  let ?search = "SearchPaginated (al_client env) AlertsIndex (healthy_query tenantId i) 100 after [\<lparr>SortField = ''updatedAt'', Order = ''asc''\<rparr>]"
  show ?case
    unfolding resolve_pages.simps
  proof (rule sends_bind [OF sends_quiet [OF quiet_try [OF quiet_ops(3)]]])
    fix v r v'
    assume s: "try_eff (al_search ?search) v = (Ok r, v')"
    show "sends alive dead w (case r of
         Inl _ \<Rightarrow> eff_return ()
       | Inr (openAlerts, newAfter) \<Rightarrow>
           (case al_decode env openAlerts of
              Inl _ \<Rightarrow> eff_return ()
            | Inr alerts \<Rightarrow>
                bind_eff (AutoResolveAlerts (map DocId alerts)) (\<lambda>_.
                  if length openAlerts < 100 then eff_return ()
                  else resolve_pages fuel env (healthy_query tenantId i) (Some newAfter))))"
    proof (cases "\<exists>hits a docs. r = Inr (hits, a) \<and> al_decode env hits = Inr docs")
      case False
      then show ?thesis by (auto split: sum.split prod.split intro!: sends_quiet quiets)
    next
      case True
      then obtain hits a docs where r: "r = Inr (hits, a)" and d: "al_decode env hits = Inr docs" by blast
      from s r obtain h' where "?search (aw_calls v) = (Ok (hits, a), h')"
        by (auto simp: try_eff_Ok al_search_def split: prod.splits)
      with d assms have "\<forall>d \<in> set docs. DocEntityId d = i" unfolding exact_index_def by blast
      with assms(2) have "\<forall>m \<in> set (map AutoResolve (map DocId docs)). right_message alive dead m"
        by (auto simp: right_message_def)
      then have "sends alive dead w (AutoResolveAlerts (map DocId docs))"
        by (auto simp: sends_def AutoResolveAlerts_sends sends_right_def)
      then show ?thesis using Suc.IH by (auto simp: r d sends_quiet quiets intro!: sends_bind)
    qed
  qed
qed

lemma sends_resolve_healthy:
  assumes "exact_index env tenantId alive" and "HeEntityId ` set hs \<subseteq> alive"
  shows "sends alive dead w (resolve_healthy env tenantId hs)"
  using assms(2)
proof (induction hs)
  case Nil
  show ?case by (simp add: sends_quiet quiets)
next
  case (Cons h hs)
  then show ?case by (auto intro!: sends_bind sends_resolve_pages assms(1))
qed

lemma collect_healthy_ids:
  assumes "collect_healthy gets v = (Ok hs, v')" and "alert_world.more v = alert_world.more w"
    and "\<And>ty get. (ty, get) \<in> set gets \<Longrightarrow> keeps quiet get \<and> (\<forall>v ids v'. get v = (Ok ids, v') \<longrightarrow> alert_world.more v = alert_world.more w \<longrightarrow> set ids \<subseteq> alive)"
  shows "HeEntityId ` set hs \<subseteq> alive"
  using assms
proof (induction gets arbitrary: v hs v')
  case Nil
  then show ?case by simp
next
  case (Cons g gets)
  obtain ty get where g: "g = (ty, get)" by (cases g)
  from Cons.prems(1) g obtain r v1 rest v2 where
    r: "try_eff get v = (Ok r, v1)" and rest: "collect_healthy gets v1 = (Ok rest, v2)"
    and hs: "hs = (case r of Inl _ \<Rightarrow> [] | Inr ids \<Rightarrow> map (\<lambda>i. \<lparr>HeEntityId = i, HeEntityType = ty\<rparr>) ids) @ rest"
    by (auto simp: bind_eff_Ok)
  have get: "keeps quiet get" "\<And>v ids v'. get v = (Ok ids, v') \<Longrightarrow> alert_world.more v = alert_world.more w \<Longrightarrow> set ids \<subseteq> alive"
    using Cons.prems(3) [of ty get] g by auto
  have "alert_world.more v1 = alert_world.more w" using quiet_more [OF quiet_try [OF get(1)] r] Cons.prems(2) by simp
  from Cons.IH [OF rest this] Cons.prems(3) have "HeEntityId ` set rest \<subseteq> alive" by (meson list.set_intros(2))
  moreover have "set ids \<subseteq> alive" if "r = Inr ids" for ids
    using r that get(2) Cons.prems(2) by (auto simp: try_eff_Ok)
  ultimately show ?case by (auto simp: hs split: sum.splits)
qed

lemma quiet_collect_healthy [quiets]:
  "(\<And>ty get. (ty, get) \<in> set gets \<Longrightarrow> keeps quiet get) \<Longrightarrow> keeps quiet (collect_healthy gets)"
proof (induction gets)
  case (Cons g gets)
  obtain ty get where g: "g = (ty, get)" by (cases g)
  with Cons have "keeps quiet get" "keeps quiet (collect_healthy gets)" by auto
  then show ?case by (simp add: g, intro quiets)
qed (simp add: quiets)

lemma sends_check:
  assumes "some_rows env" and "exact_index env tenantId (row_ids w (healthy_row tenantId))"
  shows "sends (row_ids w (healthy_row tenantId)) (row_ids w (deploying_row tenantId cutoffTime)) w
    (CheckAndAlertDeployingEntities env tenantId cutoffTime)"
  unfolding CheckAndAlertDeployingEntities_def
proof (rule sends_bind [OF sends_process [OF assms(1)]], rule sends_bind)
  have ids: "set ids \<subseteq> row_ids w (healthy_row tenantId)"
    if "select_rows env ty (healthy_row tenantId) DrId v = (Ok ids, v')" "alert_world.more v = alert_world.more w" for ty v ids v'
    using select_rows_ids [where ident = id, OF assms(1) that] by simp
  show "sends (row_ids w (healthy_row tenantId)) (row_ids w (deploying_row tenantId cutoffTime)) w (collectHealthyEntities env tenantId)"
    unfolding collectHealthyEntities_def getHealthy_defs by (intro sends_quiet quiets) (auto intro: quiets)
  fix v hs v'
  assume "collectHealthyEntities env tenantId v = (Ok hs, v')" "alert_world.more v = alert_world.more w"
  then have "HeEntityId ` set hs \<subseteq> row_ids w (healthy_row tenantId)"
    unfolding collectHealthyEntities_def getHealthy_defs by (elim collect_healthy_ids) (auto simp: quiets dest: ids [THEN subsetD])
  then show "sends (row_ids w (healthy_row tenantId)) (row_ids w (deploying_row tenantId cutoffTime)) w
      (autoResolveHealthyEntityAlerts env tenantId hs)"
    using sends_resolve_healthy [OF assms(2)] by (auto simp: autoResolveHealthyEntityAlerts_def intro: sends_quiet quiets)
qed

section \<open>Properties\<close>

text \<open>An example: a source \<open>s\<close> that is stuck and a lookup \<open>l\<close> that is healthy and has an open alert.\<close>

definition example_deploy_client :: ext_client where
  "example_deploy_client h c = (case c of
     SearchCall _ _ \<Rightarrow> Reply 200 '''' '''' (Inr (SearchBody [\<lparr>HitSource = [], HitSort = []\<rparr>]))
   | _ \<Rightarrow> NoReply ''down'')"

definition example_deploy_env :: deploy_env where
  "example_deploy_env = \<lparr>al_client = example_deploy_client, al_fault = (\<lambda>_. None), al_now = (\<lambda>n. int n + 10 ^ 18),
     al_decode = (\<lambda>hits. Inr (map (\<lambda>_. \<lparr>DocId = ''alert'', DocEntityId = ''l''\<rparr>) hits)),
     al_sha256 = (\<lambda>s. s), al_fuel = 3, de_rows = (\<lambda>_ xs. xs), de_scan = (\<lambda>_ _. None),
     de_format = (\<lambda>_. ''''), de_getenv = (\<lambda>_. ''''), de_client_ok = True, de_manager = None\<rparr>"

definition example_table :: "EntityType \<Rightarrow> deploy_row list" where
  "example_table ty = (case ty of
     EntityTypeSource \<Rightarrow> [\<lparr>DrId = ''s'', DrName = ''syslog'', DrTenantId = ''t'', DrDataPlaneId = ''p'', DrStatus = ''DEPLOYING'', DrUpdatedAt = 0\<rparr>]
   | EntityTypeLookup \<Rightarrow> [\<lparr>DrId = ''l'', DrName = ''hosts'', DrTenantId = ''t'', DrDataPlaneId = ''p'', DrStatus = ''ACTIVE'', DrUpdatedAt = 0\<rparr>]
   | _ \<Rightarrow> [])"

definition example_deploy_world :: deploy_world where
  "example_deploy_world = \<lparr>aw_calls = [], aw_sent = [], aw_operations = 0, aw_clock = 0, dw_tenants = [(''t'', True)],
     dw_table = example_table\<rparr>"

lemma example_exact:
  "some_rows example_deploy_env \<and> exact_index example_deploy_env ''t'' (row_ids example_deploy_world (healthy_row ''t''))"
proof
  show "some_rows example_deploy_env" by (simp add: some_rows_def example_deploy_env_def)
  have "i = ''l''" if i: "i \<in> row_ids example_deploy_world (healthy_row ''t'')" for i
  proof -
    from i obtain r ty where "i = DrId r" "r \<in> set (example_table ty)" "healthy_row ''t'' r"
      by (auto simp: row_ids_def example_deploy_world_def)
    then show ?thesis by (cases ty) (auto simp: example_table_def healthy_row_def)
  qed
  then show "exact_index example_deploy_env ''t'' (row_ids example_deploy_world (healthy_row ''t''))"
    by (auto simp: exact_index_def example_deploy_env_def)
qed



end
