(* ===== verification/Insight_Index.thy ===== *)
theory Insight_Index
  imports Util_Time Go_Strings "HOL-Library.List_Lexorder" "HOL-Library.Char_ord"
begin

text \<open>
  Names, ids and settings of \<open>internal/insights\<close>: staging indices (\<open>index.go\<close>), stored documents
  (\<open>util.go\<close>), time zones (\<open>timezone.go\<close>) and the environment (\<open>constants.go\<close>, \<open>aggregation.go\<close>).
  The clock of the process is in UTC.
\<close>

section \<open>Constants\<close>

definition INSIGHTS_STAGING_INDEX_PREFIX :: string where "INSIGHTS_STAGING_INDEX_PREFIX = ''db_staging_insights_''"
definition INSIGHTS_STORE_INDEX_PREFIX :: string where "INSIGHTS_STORE_INDEX_PREFIX = ''db_insights_''"
definition APP_TYPE_SOURCEHOSTNAME :: string where "APP_TYPE_SOURCEHOSTNAME = ''sourcehostname''"
definition REPUTATION_NORMAL :: string where "REPUTATION_NORMAL = ''normal''"
definition REPUTATION_SILENT :: string where "REPUTATION_SILENT = ''silent''"
definition REPUTATION_NOISY :: string where "REPUTATION_NOISY = ''noisy''"
definition REPUTATION_WHISPERING :: string where "REPUTATION_WHISPERING = ''whispering''"
definition AgentTimezoneUpdatedByUUID :: string where
  "AgentTimezoneUpdatedByUUID = ''dbdbdb00-0000-0000-0000-000000000000''"

section \<open>Staging indices\<close>

record IndexMetadata =
  ImVersion :: string
  ImYear :: int
  ImMonth :: int
  ImDay :: int
  ImHour :: int
  ImTenantId :: string
  ImType :: string

definition index_string :: "IndexMetadata \<Rightarrow> string" where
  "index_string m =
     ImVersion m @ ''_'' @ ImType m @ ''_'' @ pad_int 4 (ImYear m) @ ''_'' @ pad_int 2 (ImMonth m) @ ''_'' @
     pad_int 2 (ImDay m) @ ''_'' @ pad_int 2 (ImHour m) @ ''_'' @ ImTenantId m"

definition IsBefore :: "IndexMetadata \<Rightarrow> go_time \<Rightarrow> bool" where
  "IsBefore m t =
     (if ImYear m < time_year t then True
      else if ImYear m > time_year t then False
      else if ImMonth m < time_month t then True
      else if ImMonth m > time_month t then False
      else if ImDay m < time_day t then True
      else if ImDay m > time_day t then False
      else if ImHour m < time_hour t then True
      else False)"

text \<open>One name of \<open>parseIndices\<close>; \<open>None\<close> when it is logged and passed over.\<close>

definition parse_index :: "string \<Rightarrow> IndexMetadata option" where
  "parse_index name =
     (case go_split (CHR ''_'') (go_replace_all name INSIGHTS_STAGING_INDEX_PREFIX '''') of
        [version, tp, y, m, d, h, tenant] \<Rightarrow>
          if version = ''v1'' then
            (case (go_atoi y, go_atoi m, go_atoi d, go_atoi h) of
               (Some year, Some month, Some day, Some hour) \<Rightarrow>
                 Some \<lparr>ImVersion = version, ImYear = year, ImMonth = month, ImDay = day, ImHour = hour,
                       ImTenantId = tenant, ImType = tp\<rparr>
             | _ \<Rightarrow> None)
          else None
      | _ \<Rightarrow> None)"

definition parseIndices :: "string list \<Rightarrow> IndexMetadata list" where
  "parseIndices indexNames = List.map_filter parse_index indexNames"

section \<open>Ids and names of stored documents\<close>

definition InsightId :: "string \<Rightarrow> string \<Rightarrow> string \<Rightarrow> string \<Rightarrow> string \<Rightarrow> string \<Rightarrow> string" where
  "InsightId key1 key2 key3 key4 key5 sourceId =
     query_escape key1 @ '':'' @ query_escape key2 @ '':'' @ query_escape key3 @ '':'' @ query_escape key4 @ '':'' @
     query_escape key5 @ '':'' @ sourceId"

definition SightIndexNameByApp :: "string \<Rightarrow> string \<Rightarrow> string" where
  "SightIndexNameByApp appName tenantId = INSIGHTS_STORE_INDEX_PREFIX @ ''sights'' @ ''_'' @ appName @ ''_'' @ tenantId"

definition FrequencyIndexNameByApp :: "string \<Rightarrow> string \<Rightarrow> string" where
  "FrequencyIndexNameByApp appName tenantId = INSIGHTS_STORE_INDEX_PREFIX @ ''frequency'' @ ''_'' @ appName @ ''_'' @ tenantId"

definition SightIndexName :: "string \<Rightarrow> string" where
  "SightIndexName tenantId = INSIGHTS_STORE_INDEX_PREFIX @ ''sights'' @ ''_'' @ APP_TYPE_SOURCEHOSTNAME @ ''_'' @ tenantId"

definition SilentDeviceInventoryHistoryIndex :: "string \<Rightarrow> string" where
  "SilentDeviceInventoryHistoryIndex tenantId =
     INSIGHTS_STORE_INDEX_PREFIX @ ''reputation_history'' @ ''_'' @ APP_TYPE_SOURCEHOSTNAME @ ''_'' @ tenantId"

definition DeviceIndexName :: "string \<Rightarrow> string" where
  "DeviceIndexName tenantId = INSIGHTS_STORE_INDEX_PREFIX @ ''devices_'' @ tenantId"

definition DeviceId :: "string \<Rightarrow> string \<Rightarrow> string" where
  "DeviceId tenantId key1 = tenantId @ '':'' @ key1"

definition listSourceHostnameSightsIndices :: "string list \<Rightarrow> string list" where
  "listSourceHostnameSightsIndices indices =
     filter (\<lambda>index. go_has_prefix index (INSIGHTS_STORE_INDEX_PREFIX @ ''sights'' @ ''_'' @ APP_TYPE_SOURCEHOSTNAME @ ''_'')) indices"

text \<open>\<open>uuid_error\<close> is the error of \<open>uuid.Parse\<close>, if any.\<close>

definition tenantIdFromSightsIndex :: "(string \<Rightarrow> go_error option) \<Rightarrow> string \<Rightarrow> go_error + string" where
  "tenantIdFromSightsIndex uuid_error index =
     (let tenantId = last (go_split (CHR ''_'') index) in
      case uuid_error tenantId of
        Some e \<Rightarrow> Inl (''invalid tenant id '' @ [CHR 0x22] @ tenantId @ [CHR 0x22] @ '' in index '' @ [CHR 0x22] @ index
          @ [CHR 0x22] @ '': '' @ e)
      | None \<Rightarrow> Inr tenantId)"

definition getObjectKeyForSearch :: "IndexMetadata \<Rightarrow> string \<Rightarrow> string" where
  "getObjectKeyForSearch index fileName =
     ''tenant_id='' @ ImTenantId index @ ''/insight_rule_id='' @ ImType index @ ''/year='' @ pad_int 4 (ImYear index) @
     ''/month='' @ pad_int 2 (ImMonth index) @ ''/date='' @ pad_int 2 (ImDay index) @ ''/'' @
     last (go_split (CHR ''/'') fileName)"

section \<open>Time zones\<close>

definition isIANATimeZoneName :: "string \<Rightarrow> bool" where
  "isIANATimeZoneName name =
     (if name = ''Local'' then False
      else if name \<in> {''UTC'', ''GMT'', ''Zulu''} then True
      else if go_has_prefix name ''Etc/'' then go_contains name ''/''
      else let parts = go_split (CHR ''/'') name in length parts \<ge> 2 \<and> list_all (\<lambda>p. p \<noteq> '''') parts)"

text \<open>\<open>time.LoadLocation\<close>: \<open>zone\<close> says which files the time zone database has.\<close>

definition load_location :: "(string \<Rightarrow> bool) \<Rightarrow> string \<Rightarrow> bool" where
  "load_location zone name =
     (name = '''' \<or> name = ''UTC'' \<or> name = ''Local''
      \<or> \<not> go_contains name ''..'' \<and> hd name \<noteq> CHR ''/'' \<and> hd name \<noteq> CHR 0x5C \<and> zone name)"

definition IsValidIANATimezone :: "(string \<Rightarrow> bool) \<Rightarrow> string \<Rightarrow> bool" where
  "IsValidIANATimezone zone value =
     (let v = go_trim_space value in
      if v = '''' then False
      else if \<not> isIANATimeZoneName v then False
      else load_location zone v)"

text \<open>The rejected name is quoted in the message; it has no character that \<open>%q\<close> escapes.\<close>

definition ValidateIANATimezone :: "(string \<Rightarrow> bool) \<Rightarrow> string \<Rightarrow> go_error option" where
  "ValidateIANATimezone zone value =
     (let v = go_trim_space value in
      if v = '''' then Some ''timezone is required''
      else if \<not> IsValidIANATimezone zone v then Some (''invalid IANA time zone '' @ [CHR 0x22] @ v @ [CHR 0x22])
      else None)"

section \<open>Settings\<close>

definition getInsightsReadBatch :: "(string \<Rightarrow> string) \<Rightarrow> int" where
  "getInsightsReadBatch env = GetEnvInt env ''INSIGHTS_READ_BATCH'' 500"

definition getDeviceAggWriteBatch :: "(string \<Rightarrow> string) \<Rightarrow> int" where
  "getDeviceAggWriteBatch env =
     (let batch = GetEnvInt env ''DEVICE_AGG_WRITE_BATCH'' 200 in if batch < 1 then 200 else batch)"

definition parseDeviceAggModeFromEnv :: "(string \<Rightarrow> string) \<Rightarrow> string" where
  "parseDeviceAggModeFromEnv env =
     (let val = go_to_upper (go_trim_space (GetEnvOrDefault env ''DEVICE_AGG'' '''')) in
      if val \<in> {'''', ''BACKFILL'', ''AGG''} then val else '''')"

definition deviceBackfillEnabled :: "(string \<Rightarrow> string) \<Rightarrow> bool" where
  "deviceBackfillEnabled env \<longleftrightarrow> parseDeviceAggModeFromEnv env = ''BACKFILL''"

definition deviceAggEnabled :: "(string \<Rightarrow> string) \<Rightarrow> bool" where
  "deviceAggEnabled env \<longleftrightarrow> parseDeviceAggModeFromEnv env = ''AGG''"

text \<open>\<open>strconv.ParseBool\<close> accepts six spellings of each value; others are an error, here false.\<close>

definition testSkipInsightsObjectStoreUpload :: "(string \<Rightarrow> string) \<Rightarrow> bool" where
  "testSkipInsightsObjectStoreUpload env \<longleftrightarrow>
     go_trim_space (GetEnvOrDefault env ''INSIGHTS_TEST_SKIP_OBJECT_STORE_UPLOAD'' ''false'')
       \<in> {''1'', ''t'', ''T'', ''true'', ''TRUE'', ''True''}"

definition skipIndexTimeCheck :: "(string \<Rightarrow> string) \<Rightarrow> bool" where
  "skipIndexTimeCheck env \<longleftrightarrow> GetEnvOrDefault env ''INSIGHTS_AGG_SKIP_INDEX_TIME_CHECK'' ''false'' \<noteq> ''false''"

definition sortByIndexSize :: "(string \<Rightarrow> string) \<Rightarrow> bool" where
  "sortByIndexSize env \<longleftrightarrow> GetEnvOrDefault env ''INSIGHTS_AGG_SORT_BY_INDEX_SIZE'' ''false'' \<noteq> ''false''"

definition getIndexParallelism :: "(string \<Rightarrow> string) \<Rightarrow> int" where
  "getIndexParallelism env =
     (case go_atoi (GetEnvOrDefault env ''INSIGHTS_AGG_INDEX_PARALLELISM'' ''1'') of
        None \<Rightarrow> 1 | Some n \<Rightarrow> if n < 1 then 1 else n)"

text \<open>A set of tenants is the list of its members.\<close>

definition listed_tenants :: "string \<Rightarrow> string list" where
  "listed_tenants val = filter (\<lambda>t. t \<noteq> '''') (map go_trim_space (go_split (CHR '','') val))"

definition getParquetTenants :: "(string \<Rightarrow> string) \<Rightarrow> string list \<times> bool" where
  "getParquetTenants env =
     (let val = go_trim_space (GetEnvOrDefault env ''INSIGHTS_PARQUET_TENANTS'' '''') in
      if val = ''ALL'' then ([], True) else (listed_tenants val, False))"

definition getSkipTenants :: "(string \<Rightarrow> string) \<Rightarrow> string list" where
  "getSkipTenants env =
     (let val = GetEnvOrDefault env ''INSIGHTS_AGG_SKIP_TENANTS'' '''' in if val = '''' then [] else listed_tenants val)"

section \<open>The indices to process\<close>

text \<open>
  \<open>names\<close> are the keys of the map of index sizes, in the order of its range; \<open>srt\<close> is the unstable sort by
  size.  Indices with the same text are interchangeable for the sort by text.
\<close>

definition insights_window :: "go_time \<Rightarrow> go_time" where
  "insights_window now =
     (case FindWindow (now - Minute * 60) (Minute * 60) of
        None \<Rightarrow> from_unix_milli 0 | Some (lastTime, _) \<Rightarrow> from_unix_milli lastTime)"

definition indices_to_process ::
  "(string \<Rightarrow> string) \<Rightarrow> ((IndexMetadata \<Rightarrow> int) \<Rightarrow> IndexMetadata list \<Rightarrow> IndexMetadata list) \<Rightarrow> go_time \<Rightarrow> (string \<times> int) list
     \<Rightarrow> IndexMetadata list" where
  "indices_to_process env srt now indexSizes =
     (let allInsightsIndices = filter (\<lambda>n. go_has_prefix n INSIGHTS_STAGING_INDEX_PREFIX) (map fst indexSizes);
          indices = sort_key index_string (parseIndices allInsightsIndices);
          indicesToProcess = filter (\<lambda>index. skipIndexTimeCheck env \<or> IsBefore index (insights_window now)) indices
      in if sortByIndexSize env then
           srt (\<lambda>m. case map_of indexSizes (INSIGHTS_STAGING_INDEX_PREFIX @ index_string m) of None \<Rightarrow> 0 | Some n \<Rightarrow> n) indicesToProcess
         else indicesToProcess)"

definition indices_by_tenant :: "(string \<Rightarrow> string) \<Rightarrow> IndexMetadata list \<Rightarrow> (string \<times> IndexMetadata list) list" where
  "indices_by_tenant env indicesToProcess =
     fold (\<lambda>index m. group_append (ImTenantId index) index m)
       (filter (\<lambda>index. ImTenantId index \<notin> set (getSkipTenants env)) indicesToProcess) []"

section \<open>The order of the calendar\<close>

lemma find_month_mono:
  "d \<le> e \<Longrightarrow> find_month ls m d = (m1, d1) \<Longrightarrow> find_month ls m e = (m2, d2) \<Longrightarrow> m1 < m2 \<or> (m1 = m2 \<and> d1 \<le> d2)"
proof (induction ls m d arbitrary: e rule: find_month.induct)
  case (2 l ls m d)
  show ?case
  proof (cases "d < l \<or> ls = []")
    case True
    then show ?thesis using 2 find_month_sum [of ls "m + 1" "e - l" m2 d2] by (auto split: if_splits)
  next
    case False
    then show ?thesis using "2.IH" [of "e - l"] "2.prems" by (simp split: if_splits)
  qed
qed simp

lemma hour_of_hours: "t mod Day div Hour = t div Hour mod 24"
  using zmod_zmult2_eq [of 24 t Hour] by simp

lemma time_fields_mono:
  assumes "u \<le> t"
  shows "time_year u < time_year t \<or> time_year u = time_year t \<and> (time_month u < time_month t \<or>
    time_month u = time_month t \<and> (time_day u < time_day t \<or> time_day u = time_day t \<and> time_hour u \<le> time_hour t))"
proof -
  have days: "day_of_time u \<le> day_of_time t" using assms by (simp add: day_of_time_def zdiv_mono1)
  then have "time_year u \<le> time_year t" unfolding time_year_def by (rule year_of_day_mono)
  moreover have "time_month u < time_month t \<or> time_month u = time_month t \<and> time_day u \<le> time_day t"
    if y: "time_year u = time_year t"
  proof -
    have "yday_of_day (day_of_time u) \<le> yday_of_day (day_of_time t)"
      using days y by (simp add: yday_of_day_def time_year_def)
    then show ?thesis using y find_month_mono
      by (fastforce simp: time_month_def time_day_def month_day_def time_year_def split: prod.splits)
  qed
  moreover have "time_hour u \<le> time_hour t"
    if f: "time_year u = time_year t" "time_month u = time_month t" "time_day u = time_day t"
  proof -
    have "u - u mod Day = t - t mod Day"
      using go_date_start_of_day [of u] go_date_start_of_day [of t] f by simp
    with assms show ?thesis unfolding time_hour_def by (intro zdiv_mono1) linarith+
  qed
  ultimately show ?thesis by linarith
qed

text \<open>An index that is named after a time is before another time exactly when its hour is.\<close>

definition named_after :: "IndexMetadata \<Rightarrow> go_time \<Rightarrow> bool" where
  "named_after m u \<longleftrightarrow> ImYear m = time_year u \<and> ImMonth m = time_month u \<and> ImDay m = time_day u \<and> ImHour m = time_hour u"

lemma IsBefore_lex:
  "IsBefore m t \<longleftrightarrow> ImYear m < time_year t \<or> ImYear m = time_year t \<and> (ImMonth m < time_month t \<or>
    ImMonth m = time_month t \<and> (ImDay m < time_day t \<or> ImDay m = time_day t \<and> ImHour m < time_hour t))"
  by (simp add: IsBefore_def)

lemma lexicographic_less:
  fixes a b c d :: int
  assumes "a < a' \<or> a = a' \<and> (b < b' \<or> b = b' \<and> (c < c' \<or> c = c' \<and> d \<le> d'))"
  shows "\<not> (a < a' \<or> a = a' \<and> (b < b' \<or> b = b' \<and> (c < c' \<or> c = c' \<and> d < d'))) \<longleftrightarrow> a = a' \<and> b = b' \<and> c = c' \<and> d = d'"
  using assms by auto

lemma IsBefore_hours:
  assumes "named_after m u"
  shows "IsBefore m t \<longleftrightarrow> u div Hour < t div Hour"
proof -
  have same: "u div Hour = t div Hour"
    if "time_year u = time_year t" "time_month u = time_month t" "time_day u = time_day t" "time_hour u = time_hour t"
  proof -
    have "u - u mod Hour = t - t mod Hour"
      using go_date_start_of_hour [of u] go_date_start_of_hour [of t] that by simp
    then show ?thesis by (simp add: minus_mod_eq_div_mult)
  qed
  have hours: "time_year u = time_year t \<and> time_month u = time_month t \<and> time_day u = time_day t \<and> time_hour u = time_hour t"
    if "u div Hour = t div Hour"
  proof -
    have "u div Day = t div Day"
      using that zdiv_zmult2_eq [of 24 u Hour] zdiv_zmult2_eq [of 24 t Hour] by simp
    moreover have "u mod Day div Hour = t mod Day div Hour" using that by (simp only: hour_of_hours)
    ultimately show ?thesis
      by (simp add: time_year_def time_month_def time_day_def time_hour_def day_of_time_def)
  qed
  show ?thesis
  proof (cases "u \<le> t")
    case True
    then have "u div Hour \<le> t div Hour" by (rule zdiv_mono1) simp
    moreover have "\<not> IsBefore m t \<longleftrightarrow>
        time_year u = time_year t \<and> time_month u = time_month t \<and> time_day u = time_day t \<and> time_hour u = time_hour t"
      using lexicographic_less [OF time_fields_mono [OF True]] assms unfolding IsBefore_lex named_after_def by simp
    then have "\<not> IsBefore m t \<longleftrightarrow> u div Hour = t div Hour" using same hours by metis
    ultimately show ?thesis unfolding less_le by blast
  next
    case False
    then have "\<not> IsBefore m t"
      using time_fields_mono [of t u] assms unfolding IsBefore_lex named_after_def by linarith
    moreover have "t div Hour \<le> u div Hour" using False by (intro zdiv_mono1) auto
    ultimately show ?thesis by linarith
  qed
qed

text \<open>The window is the start of the hour before the current one.\<close>

lemma insights_window_hours:
  assumes "Hour \<le> now"
  shows "insights_window now = (now div Hour - 1) * Hour"
proof -
  have "unix_milli (now - Hour) div 3600000 = now div Hour - 1"
    using zdiv_zmult2_eq [of 3600000 "now - Hour" Millisecond] by (simp add: unix_milli_def)
  moreover have "0 \<le> unix_milli (now - Hour)" using assms by (simp add: unix_milli_def)
  ultimately show ?thesis
    by (simp add: insights_window_def FindWindow_def FindWindowForMillis_def duration_millis_def go_div_nonneg from_unix_milli_def Let_def)
qed

lemma parse_index_hour_closed:
  assumes "named_after m u" and "Hour \<le> now" and "IsBefore m (insights_window now)"
  shows "u + Hour < now"
proof -
  have "u div Hour < now div Hour - 1"
    using assms(3) by (simp add: IsBefore_hours [OF assms(1)] insights_window_hours [OF assms(2)])
  then show ?thesis
    using div_mult_mod_eq [of u Hour] div_mult_mod_eq [of now Hour] pos_mod_bound [of Hour u] pos_mod_sign [of Hour now] by linarith
qed

section \<open>Round trips\<close>

lemma digits_value_zeros: "digits_value 0 (replicate n CHR ''0'' @ s) = digits_value 0 s"
  by (induction n) (simp_all add: digit_value_def)

lemma go_atoi_pad_zeros:
  assumes "0 \<le> i" and "int64 i"
  shows "go_atoi (pad_zeros w i) = Some i"
proof -
  have digits: "list_all is_digit (pad_zeros w i)"
    using assms(1) nat_digits_all_digits [of "nat i"] by (auto simp: pad_zeros_def go_itoa_def list_all_iff is_digit_def)
  moreover have "pad_zeros w i \<noteq> []" using assms(1) by (simp add: pad_zeros_def go_itoa_def)
  moreover have "digits_value 0 (pad_zeros w i) = i"
    using assms(1) digits_value_nat_digits [of "nat i"] by (simp add: pad_zeros_def go_itoa_def digits_value_zeros)
  ultimately have "parse_digits (pad_zeros w i) = Some i" by (simp add: parse_digits_def)
  moreover obtain c cs where "pad_zeros w i = c # cs" and "is_digit c"
    using digits \<open>pad_zeros w i \<noteq> []\<close> by (cases "pad_zeros w i") auto
  ultimately show ?thesis using assms(2) by (auto simp: go_atoi_def is_digit_def)
qed

lemma pad_zeros_no_char: "0 \<le> i \<Longrightarrow> \<not> is_digit c \<Longrightarrow> c \<notin> set (pad_zeros w i)"
  using nat_digits_no_char by (auto simp: pad_zeros_def go_itoa_def is_digit_def)

definition plain_index :: "IndexMetadata \<Rightarrow> bool" where
  "plain_index m \<longleftrightarrow> ImVersion m = ''v1'' \<and> CHR ''_'' \<notin> set (ImType m) \<and> CHR ''_'' \<notin> set (ImTenantId m)
     \<and> 0 \<le> ImYear m \<and> 0 \<le> ImMonth m \<and> 0 \<le> ImDay m \<and> 0 \<le> ImHour m
     \<and> int64 (ImYear m) \<and> int64 (ImMonth m) \<and> int64 (ImDay m) \<and> int64 (ImHour m)"

definition index_parts :: "IndexMetadata \<Rightarrow> string list" where
  "index_parts m = [''v1'', ImType m, pad_zeros 4 (ImYear m), pad_zeros 2 (ImMonth m), pad_zeros 2 (ImDay m),
     pad_zeros 2 (ImHour m), ImTenantId m]"

lemma index_string_join: "plain_index m \<Longrightarrow> index_string m = go_join ''_'' (index_parts m)"
  by (simp add: index_string_def index_parts_def plain_index_def pad_int_def)

lemma index_parts_split: "plain_index m \<Longrightarrow> go_split (CHR ''_'') (index_string m) = index_parts m"
  unfolding index_string_join
  by (rule go_split_join) (simp_all add: index_parts_def plain_index_def pad_zeros_no_char is_digit_def)

lemma index_string_plain:
  assumes "plain_index m"
  shows "go_replace_all (INSIGHTS_STAGING_INDEX_PREFIX @ index_string m) INSIGHTS_STAGING_INDEX_PREFIX '''' = index_string m"
proof -
  have sep: "CHR ''_'' \<notin> set ''db''" "CHR ''_'' \<notin> set ''staging''" by simp_all
  let ?y = "pad_zeros 4 (ImYear m)"
  have no: "CHR ''_'' \<notin> set ?y" "CHR ''_'' \<notin> set (pad_zeros 2 (ImMonth m))" "CHR ''_'' \<notin> set (pad_zeros 2 (ImDay m))"
      "CHR ''_'' \<notin> set (pad_zeros 2 (ImHour m))" "CHR ''_'' \<notin> set (ImType m)" "CHR ''_'' \<notin> set (ImTenantId m)"
    using assms by (simp_all add: plain_index_def pad_zeros_no_char is_digit_def)
  have word: "\<not> go_has_suffix (pad_zeros w i) (d # ds)" if "0 \<le> i" "\<not> is_digit d" for w i d ds
    using pad_zeros_no_char [OF that, of w] by (auto simp: go_has_suffix_iff)
  have start: "\<not> go_has_prefix (pad_zeros w i @ s) (d # ds)" if "0 \<le> i" "\<not> is_digit d" for w i s d ds
  proof -
    have "pad_zeros w i \<noteq> []" by (simp add: pad_zeros_def go_itoa_def)
    then obtain c cs where "pad_zeros w i = c # cs" by (auto simp: neq_Nil_conv)
    with pad_zeros_no_char [OF that, of w] show ?thesis by auto
  qed
  note at = go_contains_at_sep [OF sep(1), of _ _ "''staging_insights_''", simplified]
  have "\<not> go_contains (index_string m) (''db'' @ ''_'' @ ''staging_insights_'')"
    using assms no unfolding index_string_join [OF assms]
    by (simp add: index_parts_def plain_index_def at go_has_suffix_def start word is_digit_def go_contains_sep_none go_has_prefix_sep_none)
  then have "\<not> go_contains (index_string m) INSIGHTS_STAGING_INDEX_PREFIX" by (simp add: INSIGHTS_STAGING_INDEX_PREFIX_def)
  then show ?thesis
    using go_replace_all_hit [of INSIGHTS_STAGING_INDEX_PREFIX "index_string m" "''''"]
      go_replace_all_no_occurrence [of INSIGHTS_STAGING_INDEX_PREFIX "index_string m" "''''"]
    by (simp add: INSIGHTS_STAGING_INDEX_PREFIX_def)
qed

lemma parse_index_string:
  assumes "plain_index m"
  shows "parse_index (INSIGHTS_STAGING_INDEX_PREFIX @ index_string m) = Some m"
  using assms unfolding parse_index_def index_string_plain [OF assms] index_parts_split [OF assms]
  by (simp add: index_parts_def plain_index_def go_atoi_pad_zeros)

text \<open>The keys of an id are escaped, so the id determines them and the source.\<close>

lemma of_hex_char: "d < 16 \<Longrightarrow> of_char (hex_char d) = (if d < 10 then 48 + d else 55 + d)"
  by (simp add: hex_char_def)

definition escaped :: "char \<Rightarrow> string" where
  "escaped c = query_escape [c]"

definition unreserved :: "char \<Rightarrow> bool" where
  "unreserved c \<longleftrightarrow> (let n = (of_char c :: nat) in
     is_digit c \<or> (65 \<le> n \<and> n \<le> 90) \<or> (97 \<le> n \<and> n \<le> 122) \<or> c \<in> set ''-_.~'')"

lemma query_escape_Cons: "query_escape (c # s) = escaped c @ query_escape s"
  by (simp add: query_escape_def escaped_def)

lemma escaped_cases:
  "escaped c = (if unreserved c then [c] else if c = CHR '' '' then ''+''
     else CHR ''%'' # [hex_char (of_char c div 16), hex_char (of_char c mod 16)])"
  by (simp add: escaped_def query_escape_def unreserved_def Let_def)

definition hex_value :: "char \<Rightarrow> nat" where
  "hex_value c = (let n = of_char c in if n < 58 then n - 48 else n - 55)"

lemma hex_value_char [simp]: "d < 16 \<Longrightarrow> hex_value (hex_char d) = d"
  by (simp add: hex_value_def of_hex_char)

text \<open>What \<open>url.QueryUnescape\<close> makes of an escaped text.\<close>

fun query_unescape :: "string \<Rightarrow> string" where
  "query_unescape [] = []"
| "query_unescape (c # s) =
     (if c = CHR ''+'' then CHR '' '' # query_unescape s
      else if c = CHR ''%'' then
        (case s of a # b # s' \<Rightarrow> char_of (16 * hex_value a + hex_value b) # query_unescape s' | _ \<Rightarrow> [])
      else c # query_unescape s)"

lemma byte_high: "(of_char c :: nat) div 16 < 16"
  by (rule less_mult_imp_div_less) simp

lemma unreserved_plain: "unreserved c \<Longrightarrow> c \<noteq> CHR ''+'' \<and> c \<noteq> CHR ''%'' \<and> c \<noteq> CHR '':''"
  by (auto simp: unreserved_def is_digit_def)

lemma query_unescape_escaped: "query_unescape (escaped c @ s) = c # query_unescape s"
proof -
  show ?thesis using unreserved_plain [of c] byte_high [of c] by (simp add: escaped_cases)
qed

lemma query_unescape_escape [simp]: "query_unescape (query_escape s) = s"
proof (induction s)
  case Nil
  show ?case by (simp add: query_escape_def)
next
  case (Cons c s)
  then show ?case by (simp add: query_escape_Cons query_unescape_escaped)
qed

lemma hex_char_no_colon: "d < 16 \<Longrightarrow> hex_char d \<noteq> CHR '':''"
  using of_hex_char [of d] by (auto split: if_splits)

lemma query_escape_no_colon: "CHR '':'' \<notin> set (query_escape s)"
proof (induction s)
  case Nil
  show ?case by (simp add: query_escape_def)
next
  case (Cons c s)
  have "CHR '':'' \<notin> set (escaped c)"
    using unreserved_plain [of c] hex_char_no_colon [OF byte_high, of c, symmetric]
      hex_char_no_colon [of "of_char c mod 16", symmetric] by (auto simp: escaped_cases)
  with Cons show ?case by (simp add: query_escape_Cons)
qed

lemma sep_append_inj:
  "(c :: char) \<notin> set a \<Longrightarrow> c \<notin> set b \<Longrightarrow> a @ c # x = b @ c # y \<longleftrightarrow> a = b \<and> x = y"
  using go_split_append [of c a x] go_split_append [of c b y] go_join_split [of c x] go_join_split [of c y] by auto

lemma query_escape_inj: "query_escape a = query_escape b \<longleftrightarrow> a = b"
  by (metis query_unescape_escape)

text \<open>The five keys of an id are escaped, so it determines them and the source.\<close>

lemma InsightId_inj:
  "InsightId a1 a2 a3 a4 a5 s = InsightId b1 b2 b3 b4 b5 t \<longleftrightarrow>
     a1 = b1 \<and> a2 = b2 \<and> a3 = b3 \<and> a4 = b4 \<and> a5 = b5 \<and> s = t"
  by (simp add: InsightId_def sep_append_inj query_escape_no_colon query_escape_inj)

end
