(* ===== verification/Insight_Docs.thy ===== *)
theory Insight_Docs
  imports Insight_Index Open_Search
begin

text \<open>
  The documents of \<open>internal/insights\<close>: what a bucket of the aggregation becomes (\<open>process.go\<close>), the device
  documents made of them (\<open>device_agg.go\<close>), and the two Painless scripts that merge an update into a stored
  document.  The scripts run inside the search service, but they are text of the repository: their effect on a
  stored document is \<open>sights_script\<close> and \<open>device_script\<close>; a missing document is created from the \<open>upsert\<close> part.
  A count is a finite 64-bit float read from JSON.
\<close>

section \<open>Documents\<close>

record Doc =
  DcId :: string
  DcKey1 :: string
  DcKey2 :: string
  DcKey3 :: string
  DcKey4 :: string
  DcKey5 :: string
  DcType :: string
  DcSourceId :: string
  DcTenantId :: string
  DcDataPlaneId :: string
  DcMinTime :: int
  DcMaxTime :: int
  DcCount :: rat
  DcTimestamp :: int

record Sight =
  SgId :: string
  SgKey1 :: string
  SgKey2 :: string
  SgKey3 :: string
  SgKey4 :: string
  SgKey5 :: string
  SgType :: string
  SgSourceId :: string
  SgTenantId :: string
  SgDataPlaneId :: string
  SgMinTime :: int
  SgMaxTime :: int
  SgReputation :: string
  SgTimestamp :: int
  SgUpdatedAt :: int

record Frequency =
  FrId :: string
  FrKey1 :: string
  FrKey2 :: string
  FrKey3 :: string
  FrKey4 :: string
  FrKey5 :: string
  FrType :: string
  FrSourceId :: string
  FrTenantId :: string
  FrDataPlaneId :: string
  FrCount :: rat
  FrTimestamp :: int
  FrDayEndTimestamp :: int

record DeviceDocument =
  DvId :: string
  DvKey1 :: string
  DvKey2 :: string
  DvKey3 :: string
  DvKey4 :: string
  DvSourceId :: string
  DvTenantId :: string
  DvDataPlaneId :: string
  DvMinTime :: int
  DvMaxTime :: int
  DvTimestamp :: int
  DvUpdatedAt :: int
  DvTimezoneUpdatedBy :: string
  DvTimezoneUpdateReason :: string

text \<open>\<open>now\<close> is the time in milliseconds at which the document is converted.\<close>

definition doc_sight :: "int \<Rightarrow> Doc \<Rightarrow> Sight" where
  "doc_sight now d =
     \<lparr>SgId = DcId d, SgKey1 = DcKey1 d, SgKey2 = DcKey2 d, SgKey3 = DcKey3 d, SgKey4 = DcKey4 d, SgKey5 = '''',
      SgType = DcType d, SgSourceId = DcSourceId d, SgTenantId = DcTenantId d, SgDataPlaneId = DcDataPlaneId d,
      SgMinTime = DcMinTime d, SgMaxTime = DcMaxTime d, SgReputation = '''', SgTimestamp = DcTimestamp d, SgUpdatedAt = now\<rparr>"

definition doc_frequency :: "Doc \<Rightarrow> Frequency" where
  "doc_frequency d =
     \<lparr>FrId = DcId d, FrKey1 = DcKey1 d, FrKey2 = DcKey2 d, FrKey3 = DcKey3 d, FrKey4 = DcKey4 d, FrKey5 = DcKey5 d,
      FrType = DcType d, FrSourceId = DcSourceId d, FrTenantId = DcTenantId d, FrDataPlaneId = DcDataPlaneId d,
      FrCount = DcCount d, FrTimestamp = DcMaxTime d, FrDayEndTimestamp = GetDayEndTimestamp (DcMaxTime d)\<rparr>"

definition docKeyValue :: "Doc \<Rightarrow> string \<Rightarrow> string" where
  "docKeyValue doc key =
     (if key = ''key1'' then DcKey1 doc else if key = ''key2'' then DcKey2 doc
      else if key = ''key3'' then DcKey3 doc else if key = ''key4'' then DcKey4 doc
      else if key = ''key5'' then DcKey5 doc else '''')"

definition insight_keys :: "string list" where
  "insight_keys = [''key1'', ''key2'', ''key3'', ''key4'', ''key5'']"

definition source_name_of :: "(string \<times> string) list \<Rightarrow> string \<Rightarrow> string" where
  "source_name_of sourceIdToNameMap sid =
     (case map_of sourceIdToNameMap sid of None \<Rightarrow> ''unknown_source_name'' | Some n \<Rightarrow> n)"

text \<open>Keys of \<open>attMap\<close> beyond the fifth are ignored.\<close>

definition SearchMap :: "(string \<times> string) list \<Rightarrow> (string \<times> string) list \<Rightarrow> Doc \<Rightarrow> json_map" where
  "SearchMap attMap sourceIdToNameMap d =
     (let result = fold (\<lambda>(k, v) m. if k \<in> set insight_keys then AList.update v (JStr (docKeyValue d k)) m else m) attMap [];
          result = AList.update ''source_id'' (JStr (DcSourceId d)) result;
          result = AList.update ''source_name'' (JStr (source_name_of sourceIdToNameMap (DcSourceId d))) result;
          result = AList.update ''timestamp'' (JNum (of_int (DcTimestamp d))) result;
          result = AList.update ''count'' (JNum (DcCount d)) result
      in AList.update ''id'' (JStr (DcId d)) result)"

section \<open>Device documents\<close>

definition populateAgentDetectedTimezone :: "(string \<Rightarrow> bool) \<Rightarrow> string \<Rightarrow> DeviceDocument \<Rightarrow> DeviceDocument" where
  "populateAgentDetectedTimezone zone key4 doc =
     (let k = go_trim_space key4 in
      if k = '''' \<or> \<not> IsValidIANATimezone zone k then doc
      else doc\<lparr>DvKey4 := k, DvTimezoneUpdatedBy := AgentTimezoneUpdatedByUUID, DvTimezoneUpdateReason := ''agent_setting''\<rparr>)"

definition docToDeviceDoc :: "(string \<Rightarrow> bool) \<Rightarrow> int \<Rightarrow> Doc \<Rightarrow> DeviceDocument" where
  "docToDeviceDoc zone now d =
     populateAgentDetectedTimezone zone (DcKey4 d)
       \<lparr>DvId = DeviceId (DcTenantId d) (DcKey1 d), DvKey1 = DcKey1 d, DvKey2 = DcKey2 d, DvKey3 = DcKey3 d, DvKey4 = '''',
        DvSourceId = DcSourceId d, DvTenantId = DcTenantId d, DvDataPlaneId = DcDataPlaneId d,
        DvMinTime = DcMinTime d, DvMaxTime = DcMaxTime d, DvTimestamp = DcTimestamp d, DvUpdatedAt = now,
        DvTimezoneUpdatedBy = '''', DvTimezoneUpdateReason = ''''\<rparr>"

definition sightToDeviceDoc :: "(string \<Rightarrow> bool) \<Rightarrow> int \<Rightarrow> Sight \<Rightarrow> DeviceDocument" where
  "sightToDeviceDoc zone now s =
     (let ts = (if SgTimestamp s = 0 then now else SgTimestamp s) in
      populateAgentDetectedTimezone zone (SgKey4 s)
       \<lparr>DvId = DeviceId (SgTenantId s) (SgKey1 s), DvKey1 = SgKey1 s, DvKey2 = SgKey2 s, DvKey3 = SgKey3 s, DvKey4 = '''',
        DvSourceId = SgSourceId s, DvTenantId = SgTenantId s, DvDataPlaneId = SgDataPlaneId s,
        DvMinTime = SgMinTime s, DvMaxTime = SgMaxTime s, DvTimestamp = ts, DvUpdatedAt = now,
        DvTimezoneUpdatedBy = '''', DvTimezoneUpdateReason = ''''\<rparr>)"

definition countUniqueDeviceIDs :: "DeviceDocument list \<Rightarrow> nat" where
  "countUniqueDeviceIDs docs = length (remdups (map DvId docs))"

text \<open>The loop cuts batches off until \<open>start\<close> reaches the end.\<close>

function chunkDeviceDocuments :: "'a list \<Rightarrow> int \<Rightarrow> 'a list list" where
  "chunkDeviceDocuments documents batchSize =
     (if documents = [] then []
      else let n = nat (if batchSize < 1 then 200 else batchSize)
           in take n documents # chunkDeviceDocuments (drop n documents) batchSize)"
  by pat_completeness auto
termination
  by (relation "measure (\<lambda>(documents, _). length documents)") (auto split: if_splits)

declare chunkDeviceDocuments.simps [simp del]

record streamingUniqueDeviceCounter =
  lastDeviceID :: string
  UcTotal :: nat

definition observe :: "string \<Rightarrow> streamingUniqueDeviceCounter \<Rightarrow> bool \<times> streamingUniqueDeviceCounter" where
  "observe deviceID c =
     (if deviceID = lastDeviceID c then (False, c) else (True, \<lparr>lastDeviceID = deviceID, UcTotal = UcTotal c + 1\<rparr>))"

fun observeBatch :: "string list \<Rightarrow> streamingUniqueDeviceCounter \<Rightarrow> nat \<times> streamingUniqueDeviceCounter" where
  "observeBatch [] c = (0, c)"
| "observeBatch (d # ds) c =
     (let (new, c') = observe d c; (n, c'') = observeBatch ds c' in ((if new then 1 else 0) + n, c''))"

section \<open>Stored documents and the scripts that merge into them\<close>

text \<open>\<open>None\<close> is a field that is missing or null.\<close>

record stored_sight =
  StId :: string
  StKey1 :: string
  StKey2 :: string
  StKey3 :: string
  StKey4 :: string
  StTenantId :: string
  StSourceId :: string
  StDataPlaneId :: string
  StMinTime :: "int option"
  StMaxTime :: "int option"
  StTimestamp :: int
  StUpdatedAt :: int
  StReputation :: string

definition min_into :: "int \<Rightarrow> int option \<Rightarrow> int option" where
  "min_into x m = (case m of None \<Rightarrow> Some x | Some y \<Rightarrow> if x < y then Some x else m)"

definition max_into :: "int \<Rightarrow> int option \<Rightarrow> int option" where
  "max_into x m = (case m of None \<Rightarrow> Some x | Some y \<Rightarrow> if x > y then Some x else m)"

definition sights_script :: "Sight \<Rightarrow> stored_sight \<Rightarrow> stored_sight" where
  "sights_script p d =
     (let d1 = d\<lparr>StMinTime := min_into (SgMinTime p) (StMinTime d), StMaxTime := max_into (SgMaxTime p) (StMaxTime d),
                  StSourceId := SgSourceId p, StTimestamp := SgTimestamp p, StUpdatedAt := SgUpdatedAt p,
                  StKey1 := SgKey1 p, StKey2 := SgKey2 p, StKey3 := SgKey3 p\<rparr>
      in if SgKey4 p \<noteq> '''' then d1\<lparr>StKey4 := SgKey4 p\<rparr> else d1)"

definition sights_upsert :: "Sight \<Rightarrow> stored_sight" where
  "sights_upsert p =
     \<lparr>StId = SgId p, StKey1 = SgKey1 p, StKey2 = SgKey2 p, StKey3 = SgKey3 p, StKey4 = SgKey4 p, StTenantId = SgTenantId p,
      StSourceId = SgSourceId p, StDataPlaneId = SgDataPlaneId p, StMinTime = Some (SgMinTime p), StMaxTime = Some (SgMaxTime p),
      StTimestamp = SgTimestamp p, StUpdatedAt = SgUpdatedAt p, StReputation = REPUTATION_NORMAL\<rparr>"

definition apply_sight :: "Sight \<Rightarrow> stored_sight option \<Rightarrow> stored_sight" where
  "apply_sight p st = (case st of None \<Rightarrow> sights_upsert p | Some d \<Rightarrow> sights_script p d)"

record stored_source =
  SoSourceId :: string
  SoMinTime :: "int option"
  SoMaxTime :: "int option"

record stored_device =
  SdId :: string
  SdKey1 :: string
  SdKey2 :: string
  SdKey3 :: string
  SdTenantId :: string
  SdDataPlaneId :: string
  SdGlobalMin :: "int option"
  SdGlobalMax :: "int option"
  SdTimestamp :: int
  SdUpdatedAt :: int
  SdTimezone :: "string option"
  SdTimezoneUpdatedAt :: "int option"
  SdTimezoneUpdatedBy :: "string option"
  SdTimezoneUpdateReason :: "string option"
  SdSources :: "stored_source list option"

text \<open>The first entry of the source is updated; without one an entry is added at the end.\<close>

fun merge_source :: "DeviceDocument \<Rightarrow> stored_source list \<Rightarrow> stored_source list" where
  "merge_source p [] = [\<lparr>SoSourceId = DvSourceId p, SoMinTime = Some (DvMinTime p), SoMaxTime = Some (DvMaxTime p)\<rparr>]"
| "merge_source p (s # ss) =
     (if SoSourceId s = DvSourceId p
      then s\<lparr>SoMinTime := min_into (DvMinTime p) (SoMinTime s), SoMaxTime := max_into (DvMaxTime p) (SoMaxTime s)\<rparr> # ss
      else s # merge_source p ss)"

definition merge_timezone :: "DeviceDocument \<Rightarrow> stored_device \<Rightarrow> stored_device" where
  "merge_timezone p d =
     (if DvKey4 p \<noteq> '''' \<and> SdTimezoneUpdateReason d \<noteq> Some ''manual'' \<and> SdTimezone d \<noteq> Some (DvKey4 p)
      then d\<lparr>SdTimezone := Some (DvKey4 p), SdTimezoneUpdatedAt := Some (DvUpdatedAt p),
             SdTimezoneUpdatedBy := Some (DvTimezoneUpdatedBy p), SdTimezoneUpdateReason := Some (DvTimezoneUpdateReason p)\<rparr>
      else d)"

definition device_script :: "DeviceDocument \<Rightarrow> stored_device \<Rightarrow> stored_device" where
  "device_script p d =
     merge_timezone p
      (d\<lparr>SdSources := Some (merge_source p (case SdSources d of None \<Rightarrow> [] | Some ss \<Rightarrow> ss)),
         SdGlobalMin := min_into (DvMinTime p) (SdGlobalMin d), SdGlobalMax := max_into (DvMaxTime p) (SdGlobalMax d),
         SdKey1 := DvKey1 p, SdKey2 := (if DvKey2 p \<noteq> '''' then DvKey2 p else SdKey2 d),
         SdKey3 := (if DvKey3 p \<noteq> '''' then DvKey3 p else SdKey3 d), SdTenantId := DvTenantId p,
         SdDataPlaneId := DvDataPlaneId p, SdTimestamp := DvTimestamp p, SdUpdatedAt := DvUpdatedAt p\<rparr>)"

definition device_upsert :: "DeviceDocument \<Rightarrow> stored_device" where
  "device_upsert p =
     (let tz = DvKey4 p \<noteq> '''' in
      \<lparr>SdId = DvId p, SdKey1 = DvKey1 p, SdKey2 = DvKey2 p, SdKey3 = DvKey3 p, SdTenantId = DvTenantId p,
       SdDataPlaneId = DvDataPlaneId p, SdGlobalMin = Some (DvMinTime p), SdGlobalMax = Some (DvMaxTime p),
       SdTimestamp = DvTimestamp p, SdUpdatedAt = DvUpdatedAt p,
       SdTimezone = (if tz then Some (DvKey4 p) else None), SdTimezoneUpdatedAt = (if tz then Some (DvUpdatedAt p) else None),
       SdTimezoneUpdatedBy = (if tz then Some (DvTimezoneUpdatedBy p) else None),
       SdTimezoneUpdateReason = (if tz then Some (DvTimezoneUpdateReason p) else None),
       SdSources = Some [\<lparr>SoSourceId = DvSourceId p, SoMinTime = Some (DvMinTime p), SoMaxTime = Some (DvMaxTime p)\<rparr>]\<rparr>)"

definition apply_device :: "DeviceDocument \<Rightarrow> stored_device option \<Rightarrow> stored_device" where
  "apply_device p st = (case st of None \<Rightarrow> device_upsert p | Some d \<Rightarrow> device_script p d)"

text \<open>What the updates of a bulk request carry: the parameters of their template.\<close>

definition sight_params :: "Sight \<Rightarrow> json_map" where
  "sight_params s =
     [(''id'', JStr (SgId s)), (''key1'', JStr (SgKey1 s)), (''key2'', JStr (SgKey2 s)), (''key3'', JStr (SgKey3 s)),
      (''key4'', JStr (SgKey4 s)), (''source_id'', JStr (SgSourceId s)), (''tenant_id'', JStr (SgTenantId s)),
      (''data_plane_id'', JStr (SgDataPlaneId s)), (''min_time'', JNum (of_int (SgMinTime s))),
      (''max_time'', JNum (of_int (SgMaxTime s))), (''timestamp'', JNum (of_int (SgTimestamp s))),
      (''updated_at'', JNum (of_int (SgUpdatedAt s)))]"

definition device_params :: "DeviceDocument \<Rightarrow> json_map" where
  "device_params d =
     [(''id'', JStr (DvId d)), (''key1'', JStr (DvKey1 d)), (''key2'', JStr (DvKey2 d)), (''key3'', JStr (DvKey3 d)),
      (''key4'', JStr (DvKey4 d)), (''source_id'', JStr (DvSourceId d)), (''tenant_id'', JStr (DvTenantId d)),
      (''data_plane_id'', JStr (DvDataPlaneId d)), (''min_time'', JNum (of_int (DvMinTime d))),
      (''max_time'', JNum (of_int (DvMaxTime d))), (''timestamp'', JNum (of_int (DvTimestamp d))),
      (''updated_at'', JNum (of_int (DvUpdatedAt d))), (''timezone_updated_by'', JStr (DvTimezoneUpdatedBy d)),
      (''timezone_update_reason'', JStr (DvTimezoneUpdateReason d))]"

section \<open>Batches and unique devices\<close>

interpretation device_chunks: batching "\<lambda>n xs. chunkDeviceDocuments xs (int n)"
proof unfold_locales
  fix n :: nat and xs :: "'a list" and b
  assume n: "0 < n"
  have unfold: "ys \<noteq> [] \<Longrightarrow> chunkDeviceDocuments ys (int n) = take n ys # chunkDeviceDocuments (drop n ys) (int n)"
    for ys :: "'a list"
    using n by (simp add: chunkDeviceDocuments.simps [of ys])
  show "concat (chunkDeviceDocuments xs (int n)) = xs"
  proof (induction "length xs" arbitrary: xs rule: less_induct)
    case less
    then show ?case using n by (cases "xs = []") (simp_all add: unfold chunkDeviceDocuments.simps [of "[]"])
  qed
  assume "b \<in> set (chunkDeviceDocuments xs (int n))"
  then have "b \<noteq> [] \<and> length b \<le> n"
  proof (induction "length xs" arbitrary: xs rule: less_induct)
    case less
    show ?case using less.prems less.hyps [of "drop n xs"] n
      by (cases "xs = []") (auto simp: unfold chunkDeviceDocuments.simps [of "[]"])
  qed
  then show "b \<noteq> []" and "length b \<le> n" by auto
qed

text \<open>
  On ids in ascending order, none of them empty, the counter counts the distinct ids, across the pages it is given.
\<close>

lemma observeBatch_count:
  fixes ids :: "string list"
  assumes "sorted ids" and "\<forall>i \<in> set ids. lastDeviceID c \<le> i"
  shows "observeBatch ids c =
    (card (set ids - {lastDeviceID c}), \<lparr>lastDeviceID = last (lastDeviceID c # ids), UcTotal = UcTotal c + card (set ids - {lastDeviceID c})\<rparr>)"
  using assms
proof (induction ids arbitrary: c)
  case Nil
  then show ?case by simp
next
  case (Cons i ids)
  show ?case
  proof (cases "i = lastDeviceID c")
    case True
    then show ?thesis using Cons by (simp add: observe_def insert_Diff_if)
  next
    case False
    then have "lastDeviceID c \<notin> set ids" using Cons.prems by fastforce
    moreover have "set (i # ids) = insert i (set ids - {i})" by auto
    ultimately have "card (set (i # ids) - {lastDeviceID c}) = Suc (card (set ids - {i}))"
      using False by (metis card.insert_remove Diff_idemp Diff_empty Diff_insert0 List.finite_set insert_iff list.set(2))
    then show ?thesis using Cons.IH [of "\<lparr>lastDeviceID = i, UcTotal = UcTotal c + 1\<rparr>"] Cons.prems False
      by (simp add: observe_def)
  qed
qed

section \<open>Merging into a device\<close>

text \<open>
  The shape of every stored device: each source once with both times, and the global times are the least and the
  greatest of the sources'.
\<close>

definition device_ok :: "stored_device \<Rightarrow> bool" where
  "device_ok d \<longleftrightarrow> (\<exists>ss. SdSources d = Some ss \<and> ss \<noteq> [] \<and> distinct (map SoSourceId ss)
     \<and> (\<forall>s \<in> set ss. SoMinTime s \<noteq> None \<and> SoMaxTime s \<noteq> None)
     \<and> SdGlobalMin d = Some (Min (the ` SoMinTime ` set ss)) \<and> SdGlobalMax d = Some (Max (the ` SoMaxTime ` set ss)))"

text \<open>The times a device holds for a source.\<close>

definition source_entry :: "stored_source list \<Rightarrow> string \<Rightarrow> stored_source option" where
  "source_entry ss i = find (\<lambda>s. SoSourceId s = i) ss"

definition span_of :: "stored_device \<Rightarrow> string \<Rightarrow> (int option \<times> int option) option" where
  "span_of d i = map_option (\<lambda>s. (SoMinTime s, SoMaxTime s)) (source_entry (case SdSources d of None \<Rightarrow> [] | Some ss \<Rightarrow> ss) i)"

definition merge_span :: "DeviceDocument \<Rightarrow> (int option \<times> int option) option \<Rightarrow> (int option \<times> int option) option" where
  "merge_span p m = (case m of None \<Rightarrow> Some (Some (DvMinTime p), Some (DvMaxTime p))
     | Some (a, b) \<Rightarrow> Some (min_into (DvMinTime p) a, max_into (DvMaxTime p) b))"

lemma merge_source_ids:
  "map SoSourceId (merge_source p ss) = (if DvSourceId p \<in> SoSourceId ` set ss then map SoSourceId ss else map SoSourceId ss @ [DvSourceId p])"
  by (induction ss) auto

lemma merge_source_entry:
  "map_option (\<lambda>s. (SoMinTime s, SoMaxTime s)) (source_entry (merge_source p ss) i)
    = (if i = DvSourceId p then merge_span p (map_option (\<lambda>s. (SoMinTime s, SoMaxTime s)) (source_entry ss i))
       else map_option (\<lambda>s. (SoMinTime s, SoMaxTime s)) (source_entry ss i))"
  by (induction ss) (auto simp: source_entry_def merge_span_def)

lemma merge_timezone_sources [simp]:
  "SdSources (merge_timezone p d) = SdSources d" "SdGlobalMin (merge_timezone p d) = SdGlobalMin d"
  "SdGlobalMax (merge_timezone p d) = SdGlobalMax d"
  by (simp_all add: merge_timezone_def)

lemma device_script_span: "span_of (device_script p d) i = (if i = DvSourceId p then merge_span p (span_of d i) else span_of d i)"
  by (simp add: span_of_def device_script_def merge_source_entry)

lemma into_Some:
  "min_into x (Some m) = Some (min x m)" "max_into x (Some m) = Some (max x m)"
  "min_into x None = Some x" "max_into x None = Some x"
  by (auto simp: min_into_def max_into_def)

lemma merge_source_not_Nil [simp]: "merge_source p ss \<noteq> []"
  by (cases ss) auto

lemma merge_source_bounds:
  assumes "\<forall>s \<in> set ss. SoMinTime s \<noteq> None \<and> SoMaxTime s \<noteq> None"
  shows "(\<forall>s \<in> set (merge_source p ss). SoMinTime s \<noteq> None \<and> SoMaxTime s \<noteq> None)
    \<and> (ss \<noteq> [] \<longrightarrow> Min (the ` SoMinTime ` set (merge_source p ss)) = min (DvMinTime p) (Min (the ` SoMinTime ` set ss))
      \<and> Max (the ` SoMaxTime ` set (merge_source p ss)) = max (DvMaxTime p) (Max (the ` SoMaxTime ` set ss)))"
  using assms
proof (induction ss)
  case (Cons s ss)
  obtain a b where ab: "SoMinTime s = Some a" "SoMaxTime s = Some b" using Cons.prems by auto
  show ?case
  proof (cases "SoSourceId s = DvSourceId p")
    case True
    then show ?thesis using Cons.prems ab
      by (cases "ss = []") (auto simp: into_Some Min_insert Max_insert ac_simps)
  next
    case False
    then show ?thesis using Cons ab
      by (cases "ss = []") (simp_all add: min.left_commute max.left_commute min.commute max.commute)
  qed
qed simp

lemma device_ok_upsert: "device_ok (device_upsert p)"
  by (simp add: device_ok_def device_upsert_def Let_def)

lemma device_ok_script:
  assumes "device_ok d"
  shows "device_ok (device_script p d)"
proof -
  obtain ss where ss: "SdSources d = Some ss" "ss \<noteq> []" "distinct (map SoSourceId ss)"
      "\<forall>s \<in> set ss. SoMinTime s \<noteq> None \<and> SoMaxTime s \<noteq> None"
      "SdGlobalMin d = Some (Min (the ` SoMinTime ` set ss))" "SdGlobalMax d = Some (Max (the ` SoMaxTime ` set ss))"
    using assms unfolding device_ok_def by blast
  have "distinct (map SoSourceId (merge_source p ss))" using ss(3) by (simp add: merge_source_ids)
  then show ?thesis
    using ss merge_source_bounds [OF ss(4), of p] unfolding device_ok_def
    by (intro exI [of _ "merge_source p ss"]) (simp add: device_script_def into_Some)
qed

text \<open>The updates of one device, in the order in which the search service applies them.\<close>

definition apply_devices :: "DeviceDocument list \<Rightarrow> stored_device option \<Rightarrow> stored_device option" where
  "apply_devices docs st = fold (\<lambda>p st. Some (apply_device p st)) docs st"

lemma apply_devices_snoc: "apply_devices (docs @ [p]) st = Some (apply_device p (apply_devices docs st))"
  by (simp add: apply_devices_def)

definition merged_span :: "DeviceDocument list \<Rightarrow> (int option \<times> int option) option" where
  "merged_span own =
     (if own = [] then None else Some (Some (Min (set (map DvMinTime own))), Some (Max (set (map DvMaxTime own)))))"

lemma merge_span_snoc: "merge_span p (merged_span own) = merged_span (own @ [p])"
  by (auto simp: merge_span_def merged_span_def into_Some)

lemma device_upsert_span: "span_of (device_upsert p) i = merged_span (if DvSourceId p = i then [p] else [])"
  by (simp add: span_of_def device_upsert_def Let_def source_entry_def merged_span_def)

lemma apply_devices_spans:
  assumes "docs \<noteq> []"
  shows "\<exists>d. apply_devices docs None = Some d \<and> device_ok d
    \<and> (\<forall>i. span_of d i = merged_span (filter (\<lambda>p. DvSourceId p = i) docs))"
  using assms
proof (induction docs rule: rev_induct)
  case (snoc p docs)
  show ?case
  proof (cases "docs = []")
    case True
    then show ?thesis
      by (simp add: apply_devices_def apply_device_def device_ok_upsert device_upsert_span)
  next
    case False
    with snoc.IH obtain d where d: "apply_devices docs None = Some d" "device_ok d"
        "\<forall>i. span_of d i = merged_span (filter (\<lambda>p. DvSourceId p = i) docs)" by blast
    then show ?thesis
      by (simp add: apply_devices_snoc apply_device_def device_ok_script device_script_span merge_span_snoc)
  qed
qed simp

lemma device_script_manual:
  "SdTimezoneUpdateReason d = Some ''manual'' \<Longrightarrow>
     SdTimezoneUpdateReason (device_script p d) = Some ''manual'' \<and> SdTimezone (device_script p d) = SdTimezone d
     \<and> SdTimezoneUpdatedBy (device_script p d) = SdTimezoneUpdatedBy d"
  by (simp add: device_script_def merge_timezone_def)

lemma apply_devices_manual:
  "SdTimezoneUpdateReason d = Some ''manual'' \<Longrightarrow>
     \<exists>d'. apply_devices docs (Some d) = Some d' \<and> SdTimezoneUpdateReason d' = Some ''manual'' \<and> SdTimezone d' = SdTimezone d
       \<and> SdTimezoneUpdatedBy d' = SdTimezoneUpdatedBy d"
proof (induction docs arbitrary: d)
  case (Cons p docs)
  from Cons.IH [of "device_script p d"] device_script_manual [OF Cons.prems, of p]
  show ?case by (simp add: apply_devices_def apply_device_def)
qed (simp add: apply_devices_def)

end
