(* ===== verification/Insight_Run.thy ===== *)
theory Insight_Run
  imports Alert_World Insight_Docs
begin

text \<open>
  The aggregation job of \<open>internal/insights\<close>: \<open>process.go\<close>, \<open>aggregation.go\<close>, \<open>search.go\<close>, \<open>writer.go\<close>
  and the writes of \<open>device_agg.go\<close>.  A staging index is read page by page as a composite aggregation, its documents
  are written to a Parquet file and, for host names, merged into the stored documents; the file is uploaded and the
  staging index is deleted.

  The Parquet library, the local file and the object store answer calls like the search service does; opening the
  file includes starting its writer.  \<open>in_parse\<close> decodes the attributes of a rule, \<open>in_show\<close> prints an attribute that
  is not a string, \<open>in_sight_json\<close> and \<open>in_device_json\<close> say whether the filled template of an update is valid JSON,
  \<open>in_zone\<close> is the time zone database and \<open>in_overflow\<close> the conversion of a float beyond 64 bits.
\<close>

section \<open>State and environment\<close>

record InsightsRule =
  RuTenantId :: string
  RuId :: string
  RuName :: "string option"
  RuAttributes :: "string option"

text \<open>\<open>inw_fw_closed\<close> is the field \<open>fwClosed\<close> of the writer.\<close>

record insight_world = alert_world +
  inw_rules :: "InsightsRule list"
  inw_sources :: "(string \<times> string) list"
  inw_fw_closed :: bool

record insight_env = alert_env +
  in_getenv :: "string \<Rightarrow> string"
  in_parse :: "string \<Rightarrow> go_error + json_map"
  in_show :: "json \<Rightarrow> string"
  in_manager :: "go_error option"
  in_sight_json :: "Sight \<Rightarrow> bool"
  in_device_json :: "DeviceDocument \<Rightarrow> bool"
  in_zone :: "string \<Rightarrow> bool"
  in_overflow :: "rat \<Rightarrow> int"
  in_temp_dir :: string
  in_uuid_error :: "string \<Rightarrow> go_error option"
  in_decode_sights :: "json_map list \<Rightarrow> go_error + Sight list"

type_synonym 'a insight = "(insight_world, 'a) eff"

text \<open>\<open>defer\<close>: the cleanup runs when the body returns or panics.\<close>

definition deferred :: "('s, unit) eff \<Rightarrow> ('s, 'a) eff \<Rightarrow> ('s, 'a) eff" where
  "deferred cleanup body w =
     (case body w of (OutOfFuel, w') \<Rightarrow> (OutOfFuel, w') | (r, w') \<Rightarrow> (r, snd (cleanup w')))"

definition file_call :: "insight_env \<Rightarrow> ext_call \<Rightarrow> unit insight" where
  "file_call env c = al_search (bind_eff (ext_call (al_client env) c)
     (\<lambda>reply. case reply of NoReply e \<Rightarrow> eff_fail e | Reply _ _ _ _ \<Rightarrow> eff_return ()))"

section \<open>Rules\<close>

definition rule_row :: "insight_env \<Rightarrow> IndexMetadata \<Rightarrow> InsightsRule option insight" where
  "rule_row env index =
     al_query env (\<lambda>w. find (\<lambda>r. RuTenantId r = ImTenantId index \<and> RuId r = ImType index) (inw_rules w))"

definition getInsightRuleName :: "insight_env \<Rightarrow> IndexMetadata \<Rightarrow> string insight" where
  "getInsightRuleName env index =
     bind_eff (wrap_eff ''failed to fetch insight rule: '' (bind_eff (rule_row env index) (\<lambda>r.
       case r of None \<Rightarrow> eff_fail ''record not found'' | Some row \<Rightarrow> eff_return row))) (\<lambda>row.
     case RuName row of
       None \<Rightarrow> eff_fail (''rule name not found or invalid type for insight rule ID: '' @ ImType index)
     | Some ruleName \<Rightarrow> eff_return ruleName)"

definition show_attribute :: "insight_env \<Rightarrow> json \<Rightarrow> string" where
  "show_attribute env v = (case v of JStr s \<Rightarrow> s | _ \<Rightarrow> in_show env v)"

definition getAttributes :: "insight_env \<Rightarrow> IndexMetadata \<Rightarrow> (string \<times> string) list insight" where
  "getAttributes env index =
     (if ImType index = APP_TYPE_SOURCEHOSTNAME then eff_return [(''key1'', ''sourcehostname'')]
      else bind_eff (rule_row env index) (\<lambda>r.
        case r of
          None \<Rightarrow> eff_fail ''record not found''
        | Some row \<Rightarrow>
            (case RuAttributes row of
               None \<Rightarrow> eff_fail ''attributes column type mismatch''
             | Some attColumn \<Rightarrow>
                 bind_eff (al_result (in_parse env attColumn)) (\<lambda>attColumnJson.
                   case map_of attColumnJson ''attributes'' of
                     Some (JArr attributeList) \<Rightarrow>
                       eff_return (map (\<lambda>(i, a). (''key'' @ go_itoa (int i + 1), show_attribute env a)) (enumerate 0 attributeList))
                   | _ \<Rightarrow> eff_fail ''attributes column value mismatch''))))"

section \<open>The Parquet file\<close>

definition insight_row :: "(rat \<Rightarrow> int) \<Rightarrow> (string \<times> string) list \<Rightarrow> (string \<times> string) list \<Rightarrow> Doc \<Rightarrow> json_map" where
  "insight_row overflow attMap sourceIdToNameMap d =
     List.map_filter (\<lambda>k. map_option (\<lambda>name. (name, JStr (docKeyValue d k))) (map_of attMap k)) insight_keys
     @ [(''source_id'', JStr (DcSourceId d)), (''source_name'', JStr (source_name_of sourceIdToNameMap (DcSourceId d))),
        (''id'', JStr (DcId d)), (''timestamp'', JNum (of_int (DcTimestamp d))),
        (''count'', JNum (of_int (float_to_int64 overflow (DcCount d))))]"

definition writer_init :: "insight_env \<Rightarrow> IndexMetadata \<Rightarrow> string insight" where
  "writer_init env index =
     bind_eff (now_utc env) (\<lambda>now.
       let filePath = in_temp_dir env @ ''/'' @ index_string index @ ''_'' @ go_itoa (unix_milli now) @ ''.parquet''
       in bind_eff (file_call env (OpenFileCall filePath)) (\<lambda>_ w. (Ok filePath, w\<lparr>inw_fw_closed := False\<rparr>)))"

fun write_rows :: "insight_env \<Rightarrow> string \<Rightarrow> json_map list \<Rightarrow> unit insight" where
  "write_rows env filePath [] = eff_return ()"
| "write_rows env filePath (row # rows) = bind_eff (file_call env (WriteCall filePath row)) (\<lambda>_. write_rows env filePath rows)"

definition WriteDocs ::
  "insight_env \<Rightarrow> string \<Rightarrow> (string \<times> string) list \<Rightarrow> (string \<times> string) list \<Rightarrow> Doc list \<Rightarrow> unit insight" where
  "WriteDocs env filePath attMap sourceIdToNameMap docs =
     write_rows env filePath (map (insight_row (in_overflow env) attMap sourceIdToNameMap) docs)"

definition insight_upload :: "insight_env \<Rightarrow> IndexMetadata \<Rightarrow> string \<Rightarrow> json_map list \<Rightarrow> unit insight" where
  "insight_upload env index filePath rows =
     bind_eff (file_call env (CloseCall filePath)) (\<lambda>_.
     bind_eff (file_call env (CloseCall filePath)) (\<lambda>_.
     bind_eff (\<lambda>w. (Ok (), w\<lparr>inw_fw_closed := True\<rparr>)) (\<lambda>_.
       if testSkipInsightsObjectStoreUpload (in_getenv env) then eff_return ()
       else file_call env (UploadCall (getObjectKeyForSearch index filePath) filePath rows))))"

definition writer_cleanup :: "insight_env \<Rightarrow> string \<Rightarrow> unit insight" where
  "writer_cleanup env filePath w =
     bind_eff (if inw_fw_closed w then eff_return () else bind_eff (try_eff (file_call env (CloseCall filePath))) (\<lambda>_. eff_return ()))
       (\<lambda>_. bind_eff (try_eff (file_call env (RemoveFileCall filePath))) (\<lambda>_. eff_return ())) w"

section \<open>Updates of stored documents\<close>

text \<open>The bodies of one bulk request; each document is converted at its own time.\<close>

fun sight_updates :: "insight_env \<Rightarrow> string \<Rightarrow> Doc list \<Rightarrow> (string \<times> json_map) list insight" where
  "sight_updates env index [] = eff_return []"
| "sight_updates env index (doc # docs) =
     bind_eff (now_utc env) (\<lambda>now.
       let s = doc_sight (unix_milli now) doc
       in if \<not> in_sight_json env s then eff_fail (''invalid json for sight doc: '' @ DcId doc @ '' index: '' @ index)
          else bind_eff (sight_updates env index docs) (\<lambda>rest. eff_return ((DcId doc, sight_params s) # rest)))"

definition upsertSightsDocs :: "insight_env \<Rightarrow> string \<Rightarrow> string \<Rightarrow> Doc list \<Rightarrow> unit insight" where
  "upsertSightsDocs env tenantId app documents =
     (if documents = [] then eff_return ()
      else let index = SightIndexNameByApp app tenantId
           in bind_eff (sight_updates env index documents) (\<lambda>items.
                al_search (bulk_request (al_client env) (ScriptBulkCall index ''sightsScript'' items))))"

fun docsToDeviceDocuments :: "insight_env \<Rightarrow> Doc list \<Rightarrow> DeviceDocument list insight" where
  "docsToDeviceDocuments env [] = eff_return []"
| "docsToDeviceDocuments env (d # docs) =
     bind_eff (now_utc env) (\<lambda>now. bind_eff (docsToDeviceDocuments env docs) (\<lambda>rest.
       eff_return (docToDeviceDoc (in_zone env) (unix_milli now) d # rest)))"

text \<open>The filled template of the first document that is no valid JSON ends the batch.\<close>

definition upsertDeviceDocsBatch :: "insight_env \<Rightarrow> string \<Rightarrow> DeviceDocument list \<Rightarrow> nat insight" where
  "upsertDeviceDocsBatch env tenantId documents =
     (if documents = [] then eff_return 0
      else case find (\<lambda>d. \<not> in_device_json env d) documents of
             Some d \<Rightarrow> eff_fail (''invalid json for device doc: '' @ DvId d)
           | None \<Rightarrow>
               bind_eff (al_search (bulk_request (al_client env) (ScriptBulkCall (DeviceIndexName tenantId) ''deviceScript''
                   (map (\<lambda>d. (DvId d, device_params d)) documents))))
                 (\<lambda>_. eff_return (length documents)))"

fun upsert_batches :: "insight_env \<Rightarrow> string \<Rightarrow> DeviceDocument list list \<Rightarrow> nat \<Rightarrow> nat insight" where
  "upsert_batches env tenantId [] totalWritten = eff_return totalWritten"
| "upsert_batches env tenantId (batch # batches) totalWritten =
     bind_eff (upsertDeviceDocsBatch env tenantId batch) (\<lambda>written. upsert_batches env tenantId batches (totalWritten + written))"

definition upsertDeviceDocs :: "insight_env \<Rightarrow> string \<Rightarrow> DeviceDocument list \<Rightarrow> nat insight" where
  "upsertDeviceDocs env tenantId documents =
     (if documents = [] then eff_return 0
      else upsert_batches env tenantId (chunkDeviceDocuments documents (getDeviceAggWriteBatch (in_getenv env))) 0)"

section \<open>The cardinality alert\<close>

definition cardinality_options :: "IndexMetadata \<Rightarrow> string \<Rightarrow> nat \<Rightarrow> int \<Rightarrow> string \<Rightarrow> alert_options" where
  "cardinality_options index dataPlaneId uniqueKeyCount threshold insightRuleName =
     (let n = go_itoa (int uniqueKeyCount); t = go_itoa threshold;
          (entityId, title, message, entityName) =
            (if ImType index = APP_TYPE_SOURCEHOSTNAME then
               (ImTenantId index, ''High Unique Device Count Detected'',
                n @ '' unique devices, exceeding the threshold of '' @ t
                  @ ''. This may indicate excessive device diversity or data quality issues in device tracking.'',
                ''sourcehostname'')
             else if insightRuleName \<noteq> '''' then
               (ImType index, ''High Unique Event Count Detected - Rule '' @ insightRuleName,
                ''Insight rule '' @ quoted insightRuleName @ '' generated '' @ n @ '' unique events, exceeding the threshold of '' @ t
                  @ ''. This may indicate data quality issues or excessive event diversity in this specific rule.'',
                ''insight rule '' @ insightRuleName)
             else
               (ImType index, ''High Unique Event Count Detected - Rule ID '' @ insightRuleName,
                ''Insight rule Name '' @ quoted insightRuleName @ '' generated '' @ n @ '' unique events, exceeding the threshold of '' @ t
                  @ ''. This may indicate data quality issues or excessive event diversity in this specific rule.'',
                ''insight rule ID '' @ insightRuleName))
      in \<lparr>OptFunctionality = ''insights_rule'',
          OptEntity = \<lparr>GetEntityId = entityId, GetEntityName = entityName, GetDataPlaneId = dataPlaneId,
                       GetTenantId = ImTenantId index, GetSecondaryEntityId = ''''\<rparr>,
          OptCriticality = ''warning'', OptFunctionalityType = ''rate_limit_exceeded'', OptTitle = title, OptMessage = message,
          OptErrorCode = ''DNDW10005'', OptErrorTemplate = ''Volume deviation detected . {0}'', OptErrorParam = '''',
          OptAction = ''Please check hostname mapping for the normalization, or incoming data patterns for device inventory alert. For insight rules, please check attributes selected in configuration, those should not have too many unique combinations.''\<rparr>)"

definition generateIndexCardinalityAlert ::
  "insight_env \<Rightarrow> IndexMetadata \<Rightarrow> string \<Rightarrow> nat \<Rightarrow> int \<Rightarrow> string \<Rightarrow> unit insight" where
  "generateIndexCardinalityAlert env index dataPlaneId uniqueKeyCount threshold insightRuleName =
     (case in_manager env of
        Some e \<Rightarrow> eff_fail (''failed to create alerts manager: '' @ e)
      | None \<Rightarrow>
          bind_eff (now_utc env) (\<lambda>alertTime.
          bind_eff (wrap_eff ''failed to create index cardinality alert: ''
              (NewAlert env (cardinality_options index dataPlaneId uniqueKeyCount threshold insightRuleName))) (\<lambda>a.
            SendAlerts [a\<lparr>CreatedAt := unix_milli alertTime, UpdatedAt := unix_milli alertTime,
              FirstObservedAt := unix_milli alertTime, LastObservedAt := unix_milli alertTime\<rparr>])))"

definition checkIndexCardinalityAndAlert :: "insight_env \<Rightarrow> IndexMetadata \<Rightarrow> string \<Rightarrow> nat \<Rightarrow> int \<Rightarrow> unit insight" where
  "checkIndexCardinalityAndAlert env index dataPlaneId uniqueKeyCount cardinalityThreshold =
     bind_eff (if ImType index = APP_TYPE_SOURCEHOSTNAME then eff_return ''''
               else bind_eff (try_eff (getInsightRuleName env index)) (\<lambda>r.
                      eff_return (case r of Inl _ \<Rightarrow> '''' | Inr name \<Rightarrow> name))) (\<lambda>insightRuleName.
       if int uniqueKeyCount > cardinalityThreshold
       then generateIndexCardinalityAlert env index dataPlaneId uniqueKeyCount cardinalityThreshold insightRuleName
       else eff_return ())"

section \<open>The pages of a staging index\<close>

definition insight_request :: "insight_env \<Rightarrow> InsightKey option \<Rightarrow> InsightRequest" where
  "insight_request env after =
     \<lparr>InsSize = getInsightsReadBatch (in_getenv env), InsAfter = after,
      InsSources = insight_keys @ [''source_id'', ''data_plane_id'']\<rparr>"

text \<open>A page of buckets with the key after it; every other status than 200 is an error.\<close>

definition insight_page :: "insight_env \<Rightarrow> string \<Rightarrow> InsightKey option \<Rightarrow> (InsightKey option \<times> InsightBucket list) insight" where
  "insight_page env indexName after =
     al_search (bind_eff (MakeSearchCall (al_client env) (indexName @ ''*'') (InsightsAgg (insight_request env after))) (\<lambda>reply.
       case reply of
         NoReply e \<Rightarrow> eff_fail e
       | Reply status txt reason body \<Rightarrow>
           if status \<noteq> 200 then eff_fail (''failed to get successful response from opensearch, body:'' @ txt)
           else (case body of
                   Inl e \<Rightarrow> eff_fail e
                 | Inr b \<Rightarrow>
                     if reason \<noteq> '''' then eff_fail reason
                     else (case b of InsightsBody afterKey buckets \<Rightarrow> eff_return (afterKey, buckets)
                           | _ \<Rightarrow> eff_return (None, [])))))"

definition bucket_doc :: "(rat \<Rightarrow> int) \<Rightarrow> IndexMetadata \<Rightarrow> int \<Rightarrow> InsightBucket \<Rightarrow> Doc" where
  "bucket_doc overflow index now b =
     (let k = IbKey b in
      \<lparr>DcId = (if ImType index = APP_TYPE_SOURCEHOSTNAME then InsightId (IkKey1 k) '''' '''' '''' '''' (IkSourceId k)
               else InsightId (IkKey1 k) (IkKey2 k) (IkKey3 k) (IkKey4 k) (IkKey5 k) (IkSourceId k)),
       DcKey1 = IkKey1 k, DcKey2 = IkKey2 k, DcKey3 = IkKey3 k, DcKey4 = IkKey4 k, DcKey5 = IkKey5 k,
       DcType = ImType index, DcSourceId = IkSourceId k, DcTenantId = ImTenantId index, DcDataPlaneId = IkDataPlaneId k,
       DcMinTime = float_to_int64 overflow (IbMinTime b), DcMaxTime = float_to_int64 overflow (IbMaxTime b),
       DcCount = IbCount b, DcTimestamp = now\<rparr>)"

fun bucket_docs :: "insight_env \<Rightarrow> IndexMetadata \<Rightarrow> InsightBucket list \<Rightarrow> Doc list insight" where
  "bucket_docs env index [] = eff_return []"
| "bucket_docs env index (b # bs) =
     bind_eff (now_utc env) (\<lambda>now. bind_eff (bucket_docs env index bs) (\<lambda>rest.
       eff_return (bucket_doc (in_overflow env) index (unix_milli now) b # rest)))"

text \<open>The updates that the documents of host names make.\<close>

definition merge_page :: "insight_env \<Rightarrow> IndexMetadata \<Rightarrow> Doc list \<Rightarrow> unit insight" where
  "merge_page env index docs =
     (if ImType index \<noteq> APP_TYPE_SOURCEHOSTNAME then eff_return ()
      else bind_eff (upsertSightsDocs env (ImTenantId index) (ImType index) docs) (\<lambda>_.
           if deviceAggEnabled (in_getenv env) then
             bind_eff (docsToDeviceDocuments env docs) (\<lambda>deviceDocs.
             bind_eff (upsertDeviceDocs env (ImTenantId index) deviceDocs) (\<lambda>_. eff_return ()))
           else eff_return ()))"

text \<open>What the loop has read: the documents of all pages, and the first data plane among them.\<close>

fun insight_pages ::
  "nat \<Rightarrow> insight_env \<Rightarrow> IndexMetadata \<Rightarrow> string \<Rightarrow> (string \<times> string) list \<Rightarrow> (string \<times> string) list \<Rightarrow> InsightKey option \<Rightarrow> Doc list
     \<Rightarrow> Doc list insight" where
  "insight_pages 0 env index filePath attMap sourceIdToNameMap after docs = eff_out_of_fuel"
| "insight_pages (Suc fuel) env index filePath attMap sourceIdToNameMap after docs =
     bind_eff (insight_page env (INSIGHTS_STAGING_INDEX_PREFIX @ index_string index) after) (\<lambda>(afterKey, buckets).
       if buckets = [] then eff_return docs
       else bind_eff (bucket_docs env index buckets) (\<lambda>page.
            bind_eff (merge_page env index page) (\<lambda>_.
            bind_eff (WriteDocs env filePath attMap sourceIdToNameMap page) (\<lambda>_.
              insight_pages fuel env index filePath attMap sourceIdToNameMap afterKey (docs @ page)))))"

definition index_data_plane :: "Doc list \<Rightarrow> string" where
  "index_data_plane docs = fold (\<lambda>d dp. if dp = '''' then DcDataPlaneId d else dp) docs ''''"

text \<open>An error of the cardinality check is logged.\<close>

definition aggregateInsights :: "insight_env \<Rightarrow> IndexMetadata \<Rightarrow> (string \<times> string) list \<Rightarrow> unit insight" where
  "aggregateInsights env index sourceIdToNameMap =
     (let cardinalityThreshold = GetEnvInt (in_getenv env) ''INSIGHTS_CARDINALITY_THRESHOLD'' 360000 in
      bind_eff (getAttributes env index) (\<lambda>attMap.
      bind_eff (writer_init env index) (\<lambda>filePath.
        deferred (writer_cleanup env filePath)
          (bind_eff (insight_pages (al_fuel env) env index filePath attMap sourceIdToNameMap None []) (\<lambda>docs.
           bind_eff (if docs = [] then eff_return ()
                     else insight_upload env index filePath (map (insight_row (in_overflow env) attMap sourceIdToNameMap) docs)) (\<lambda>_.
           bind_eff (try_eff (checkIndexCardinalityAndAlert env index (index_data_plane docs) (length docs) cardinalityThreshold))
             (\<lambda>_. eff_return ())))))))"

section \<open>The job\<close>

text \<open>One index: its staging index is deleted when it was aggregated.\<close>

definition index_task :: "insight_env \<Rightarrow> (string \<times> string) list \<Rightarrow> IndexMetadata \<Rightarrow> JobError list insight" where
  "index_task env sourceIdToNameMap indexMetadata =
     (let indexName = INSIGHTS_STAGING_INDEX_PREFIX @ index_string indexMetadata in
      bind_eff (try_eff (aggregateInsights env indexMetadata sourceIdToNameMap)) (\<lambda>r.
        case r of
          Inl e \<Rightarrow> eff_return [\<lparr>Message = ''failed to aggregate insights for index '' @ indexName @ '': '' @ e\<rparr>]
        | Inr _ \<Rightarrow>
            bind_eff (try_eff (al_search (DeleteIndex (al_client env) indexName))) (\<lambda>r'.
              eff_return (case r' of
                Inl e \<Rightarrow> [\<lparr>Message = ''failed to delete index '' @ indexName @ '': '' @ e\<rparr>] | Inr _ \<Rightarrow> []))))"

text \<open>
  Tasks in goroutines of their own: \<open>envs j\<close> and \<open>ws j\<close> are the outside and the state as task \<open>j\<close> sees them, with no
  relation between them, so every interleaving is covered; \<open>order\<close> is the order in which the errors are appended.
\<close>

definition task_outcomes :: "(nat \<Rightarrow> insight_env) \<Rightarrow> (nat \<Rightarrow> insight_world) \<Rightarrow> (insight_env \<Rightarrow> 'x \<Rightarrow> JobError list insight) \<Rightarrow> 'x list
    \<Rightarrow> JobError list outcome list" where
  "task_outcomes envs ws task xs = map (\<lambda>(j, x). fst (task (envs j) x (ws j))) (enumerate 0 xs)"

definition gather :: "(JobError list \<Rightarrow> JobError list) \<Rightarrow> JobError list outcome list \<Rightarrow> JobError list outcome" where
  "gather order outs =
     (if Panicked \<in> set outs then Panicked
      else if OutOfFuel \<in> set outs then OutOfFuel
      else Ok (order (concat (map (\<lambda>r. case r of Ok es \<Rightarrow> es | _ \<Rightarrow> []) outs))))"

text \<open>A channel of negative size panics, one of size 0 never lets the first task start.\<close>

definition run_tasks ::
  "int \<Rightarrow> (JobError list \<Rightarrow> JobError list) \<Rightarrow> (nat \<Rightarrow> insight_env) \<Rightarrow> (nat \<Rightarrow> insight_world)
     \<Rightarrow> (insight_env \<Rightarrow> 'x \<Rightarrow> JobError list insight) \<Rightarrow> 'x list \<Rightarrow> JobError list outcome" where
  "run_tasks parallelism order envs ws task xs =
     (if parallelism < 0 then Panicked
      else if parallelism = 0 \<and> xs \<noteq> [] then OutOfFuel
      else gather order (task_outcomes envs ws task xs))"

section \<open>Filling the device index\<close>

fun sights_to_docs :: "insight_env \<Rightarrow> Sight list \<Rightarrow> DeviceDocument list insight" where
  "sights_to_docs env [] = eff_return []"
| "sights_to_docs env (s # ss) =
     bind_eff (now_utc env) (\<lambda>now. bind_eff (sights_to_docs env ss) (\<lambda>rest.
       eff_return (sightToDeviceDoc (in_zone env) (unix_milli now) s # rest)))"

record deviceBackfillStats =
  BfPages :: nat
  SightsDocsRead :: nat
  DeviceUpserts :: nat
  UniqueDevices :: nat

definition backfill_sort :: "Sort list" where
  "backfill_sort = [\<lparr>SortField = ''key1.keyword'', Order = ''asc''\<rparr>, \<lparr>SortField = ''key2.keyword'', Order = ''asc''\<rparr>,
     \<lparr>SortField = ''source_id'', Order = ''asc''\<rparr>]"

fun backfill_pages ::
  "nat \<Rightarrow> insight_env \<Rightarrow> string \<Rightarrow> string \<Rightarrow> json list option \<Rightarrow> streamingUniqueDeviceCounter \<Rightarrow> deviceBackfillStats
     \<Rightarrow> deviceBackfillStats insight" where
  "backfill_pages 0 env tenantId sightsIndex after counter stats = eff_out_of_fuel"
| "backfill_pages (Suc fuel) env tenantId sightsIndex after counter stats =
     bind_eff (al_search (SearchPaginated (al_client env) sightsIndex ''*'' (getInsightsReadBatch (in_getenv env)) after backfill_sort))
       (\<lambda>(data, newAfter).
       if data = [] then eff_return stats
       else
         let pg = BfPages stats + 1 in
         bind_eff (wrap_eff (''decode sights page '' @ go_itoa (int pg) @ '': '') (al_result (in_decode_sights env data))) (\<lambda>sights.
         bind_eff (sights_to_docs env sights) (\<lambda>deviceDocs.
         let counter' = snd (observeBatch (map DvId deviceDocs) counter) in
         bind_eff (wrap_eff (''upsert page '' @ go_itoa (int pg) @ '': '') (upsertDeviceDocs env tenantId deviceDocs)) (\<lambda>written.
           backfill_pages fuel env tenantId sightsIndex (Some newAfter) counter'
             \<lparr>BfPages = pg, SightsDocsRead = SightsDocsRead stats + length sights, DeviceUpserts = DeviceUpserts stats + written,
              UniqueDevices = UcTotal counter'\<rparr>))))"

definition backfillDevicesForTenant :: "insight_env \<Rightarrow> string \<Rightarrow> string \<Rightarrow> deviceBackfillStats insight" where
  "backfillDevicesForTenant env tenantId sightsIndex =
     backfill_pages (al_fuel env) env tenantId sightsIndex None \<lparr>lastDeviceID = '''', UcTotal = 0\<rparr>
       \<lparr>BfPages = 0, SightsDocsRead = 0, DeviceUpserts = 0, UniqueDevices = 0\<rparr>"

definition backfill_task :: "insight_env \<Rightarrow> string \<times> string \<Rightarrow> JobError list insight" where
  "backfill_task env = (\<lambda>(tenantId, sightsIndex).
     bind_eff (try_eff (backfillDevicesForTenant env tenantId sightsIndex)) (\<lambda>r.
       eff_return (case r of
         Inl e \<Rightarrow> [\<lparr>Message = ''device backfill failed for tenant '' @ tenantId @ '': '' @ e\<rparr>] | Inr _ \<Rightarrow> [])))"

text \<open>An index whose name does not end with a tenant id is passed over.\<close>

definition backfill_targets :: "(string \<Rightarrow> go_error option) \<Rightarrow> string list \<Rightarrow> (string \<times> string) list" where
  "backfill_targets uuid_error indices =
     List.map_filter (\<lambda>index. case tenantIdFromSightsIndex uuid_error index of Inl _ \<Rightarrow> None | Inr t \<Rightarrow> Some (t, index))
       (listSourceHostnameSightsIndices indices)"

definition backfillDevicesFromSights ::
  "insight_env \<Rightarrow> int \<Rightarrow> (JobError list \<Rightarrow> JobError list) \<Rightarrow> (nat \<Rightarrow> insight_env) \<Rightarrow> (nat \<Rightarrow> insight_world)
     \<Rightarrow> insight_world \<Rightarrow> JobError list outcome" where
  "backfillDevicesFromSights env parallelism order envs ws w =
     (case fst (al_search (CatIndices (al_client env)) w) of
        Err e \<Rightarrow> Ok [\<lparr>Message = ''device backfill: failed to list indices: '' @ e\<rparr>]
      | Panicked \<Rightarrow> Panicked
      | OutOfFuel \<Rightarrow> OutOfFuel
      | Ok indices \<Rightarrow> run_tasks parallelism order envs ws backfill_task (backfill_targets (in_uuid_error env) indices))"

section \<open>The entry point\<close>

text \<open>The names of the log sources, with the last of several with the same id.\<close>

definition insight_plan ::
  "insight_env \<Rightarrow> ((IndexMetadata \<Rightarrow> int) \<Rightarrow> IndexMetadata list \<Rightarrow> IndexMetadata list) \<Rightarrow> go_time
     \<Rightarrow> ((string \<times> string) list \<times> (string \<times> IndexMetadata list) list) insight" where
  "insight_plan env srt now =
     bind_eff (wrap_eff ''failed to get indices: '' (al_search (CatIndicesWithSize (al_client env)))) (\<lambda>indexSizes.
     bind_eff (wrap_eff ''failed to get log sources: '' (al_query env inw_sources)) (\<lambda>logSources.
       eff_return (fold (\<lambda>(i, n) m. AList.update i n m) logSources [],
         indices_by_tenant (in_getenv env) (indices_to_process (in_getenv env) srt now indexSizes))))"

definition AggregateInsightsAndStore ::
  "insight_env \<Rightarrow> ((IndexMetadata \<Rightarrow> int) \<Rightarrow> IndexMetadata list \<Rightarrow> IndexMetadata list) \<Rightarrow> int \<Rightarrow> (JobError list \<Rightarrow> JobError list)
     \<Rightarrow> (nat \<Rightarrow> insight_env) \<Rightarrow> (nat \<Rightarrow> insight_world) \<Rightarrow> insight_world \<Rightarrow> JobResult outcome" where
  "AggregateInsightsAndStore env srt parallelism order envs ws w =
     bind_outcome
       (if deviceBackfillEnabled (in_getenv env) then backfillDevicesFromSights env parallelism order envs ws w
        else (case fst (insight_plan env srt (al_now env (aw_clock w)) (w\<lparr>aw_clock := Suc (aw_clock w)\<rparr>)) of
                Err e \<Rightarrow> Ok [\<lparr>Message = e\<rparr>]
              | Panicked \<Rightarrow> Panicked
              | OutOfFuel \<Rightarrow> OutOfFuel
              | Ok (names, tenants) \<Rightarrow>
                  run_tasks parallelism order envs ws (\<lambda>env. index_task env names) (concat (map snd tenants))))
       (\<lambda>errors. Ok (if errors = [] then NewJobResultSuccess else NewJobResultFromErrors errors))"

end
