(* ===== verification/Insight_Safety.thy ===== *)
theory Insight_Safety
  imports Insight_Run
begin

text \<open>
  What the aggregation of insights guarantees: a staging index is deleted only when all its documents were uploaded,
  only hours that are over are processed, ids and index names are read back, and stored devices merge their updates.
\<close>

section \<open>What a computation calls and is told\<close>

text \<open>
  \<open>makes env F m\<close>: \<open>m\<close> adds calls to the history, and its value (\<open>None\<close> when it does not return one) and the calls with
  their replies satisfy \<open>F\<close>.
\<close>

definition value_of :: "'a outcome \<Rightarrow> 'a option" where
  "value_of r = (case r of Ok x \<Rightarrow> Some x | _ \<Rightarrow> None)"

lemma value_of_simps [simp]:
  "value_of (Ok x) = Some x" "value_of (Err e) = None" "value_of Panicked = None" "value_of OutOfFuel = None"
  by (simp_all add: value_of_def)

type_synonym exchange = "(ext_call \<times> ext_reply) list"

definition makes :: "'e alert_env_scheme \<Rightarrow> ('a option \<Rightarrow> exchange \<Rightarrow> bool) \<Rightarrow> ('t alert_world_scheme, 'a) eff \<Rightarrow> bool" where
  "makes env F m \<longleftrightarrow> (\<forall>w. \<exists>cs. aw_calls (snd (m w)) = aw_calls w @ cs
     \<and> F (value_of (fst (m w))) (replied (al_client env) (aw_calls w) cs))"

lemma makesI:
  assumes "\<And>w r w'. m w = (r, w') \<Longrightarrow> \<exists>cs. aw_calls w' = aw_calls w @ cs \<and> F (value_of r) (replied (al_client env) (aw_calls w) cs)"
  shows "makes env F m"
  unfolding makes_def by (metis assms prod.collapse)

lemma makesE:
  assumes "makes env F m" and "m w = (r, w')"
  obtains cs where "aw_calls w' = aw_calls w @ cs" and "F (value_of r) (replied (al_client env) (aw_calls w) cs)"
  using assms unfolding makes_def by (metis fst_conv snd_conv)

lemma makes_mono: "makes env F m \<Longrightarrow> (\<And>v rs. F v rs \<Longrightarrow> G v rs) \<Longrightarrow> makes env G m"
  unfolding makes_def by blast

lemma makes_bind:
  assumes m: "makes env F m" and k: "\<And>x. makes env (G x) (k x)"
    and ok: "\<And>x rs v rs'. F (Some x) rs \<Longrightarrow> G x v rs' \<Longrightarrow> H v (rs @ rs')" and bad: "\<And>rs. F None rs \<Longrightarrow> H None rs"
  shows "makes env H (bind_eff m k)"
proof (rule makesI)
  fix w r w' assume run: "bind_eff m k w = (r, w')"
  obtain r1 w1 where 1: "m w = (r1, w1)" by fastforce
  from m 1 obtain cs where cs: "aw_calls w1 = aw_calls w @ cs" "F (value_of r1) (replied (al_client env) (aw_calls w) cs)"
    by (rule makesE)
  show "\<exists>cs. aw_calls w' = aw_calls w @ cs \<and> H (value_of r) (replied (al_client env) (aw_calls w) cs)"
  proof (cases r1)
    case (Ok x)
    with run 1 have "k x w1 = (r, w')" by (simp add: bind_eff_def)
    from k this obtain ds where "aw_calls w' = aw_calls w1 @ ds" "G x (value_of r) (replied (al_client env) (aw_calls w1) ds)"
      by (rule makesE)
    with cs Ok show ?thesis by (intro exI [of _ "cs @ ds"]) (simp add: replied_append ok)
  qed (use run 1 cs bad in \<open>auto simp: bind_eff_def intro!: exI [of _ cs]\<close>)
qed

lemma makes_try:
  assumes "makes env F m"
  shows "makes env (\<lambda>v rs. (\<exists>x. v = Some (Inr x) \<and> F (Some x) rs) \<or> ((v = None \<or> (\<exists>e. v = Some (Inl e))) \<and> F None rs)) (try_eff m)"
proof (rule makesI)
  fix w r w' assume run: "try_eff m w = (r, w')"
  obtain r1 where 1: "m w = (r1, w')" using run by (auto simp: try_eff_def split: prod.splits outcome.splits)
  from assms 1 obtain cs where "aw_calls w' = aw_calls w @ cs" "F (value_of r1) (replied (al_client env) (aw_calls w) cs)"
    by (rule makesE)
  then show "\<exists>cs. aw_calls w' = aw_calls w @ cs \<and> ((\<exists>x. value_of r = Some (Inr x) \<and> F (Some x) (replied (al_client env) (aw_calls w) cs))
      \<or> ((value_of r = None \<or> (\<exists>e. value_of r = Some (Inl e))) \<and> F None (replied (al_client env) (aw_calls w) cs)))"
    using run 1 by (cases r1) (auto simp: try_eff_def)
qed

lemma makes_wrap [intro]:
  assumes "makes env F m"
  shows "makes env F (wrap_eff p m)"
proof (rule makesI)
  fix w r w' assume run: "wrap_eff p m w = (r, w')"
  obtain r1 where 1: "m w = (r1, w')" using run by (auto simp: wrap_eff_def split: prod.splits outcome.splits)
  from assms 1 obtain cs where "aw_calls w' = aw_calls w @ cs" "F (value_of r1) (replied (al_client env) (aw_calls w) cs)"
    by (rule makesE)
  then show "\<exists>cs. aw_calls w' = aw_calls w @ cs \<and> F (value_of r) (replied (al_client env) (aw_calls w) cs)"
    using run 1 by (cases r1) (auto simp: wrap_eff_def)
qed

definition calm :: "'a option \<Rightarrow> exchange \<Rightarrow> bool" where
  "calm v rs \<longleftrightarrow> rs = []"

named_theorems made \<open>computations and what they call\<close>

lemma makes_calm [made]:
  "makes env calm (eff_return x)" "makes env calm (eff_fail e)" "makes env calm eff_panic"
  "makes env calm (now_utc env')" "makes env calm (al_query env' f)" "makes env calm (al_result r)"
  by (auto simp: makes_def calm_def now_utc_def al_query_def al_result_def Let_def split: option.split sum.split)

lemma makes_calm_bind [made]:
  assumes "makes env calm m" and "\<And>x. makes env calm (k x)"
  shows "makes env calm (bind_eff m k)"
  using assms by (rule makes_bind [where G = "\<lambda>_. calm"]) (simp_all add: calm_def)

lemma makes_calm_try [made]: "makes env calm m \<Longrightarrow> makes env calm (try_eff m)"
  by (drule makes_try, erule makes_mono) (auto simp: calm_def)

lemma makes_calm_wrap [made]: "makes env calm m \<Longrightarrow> makes env calm (wrap_eff p m)"
  by (rule makes_wrap)

lemma makes_return: "F (Some x) [] \<Longrightarrow> makes env F (eff_return x)"
  by (simp add: makes_def)

text \<open>After a computation that calls nothing.\<close>

lemma makes_after_calm:
  assumes "makes env calm m" and "\<And>x. makes env H (k x)" and "H None []"
  shows "makes env H (bind_eff m k)"
  using assms(1,2) by (rule makes_bind [where G = "\<lambda>_. H"]) (use assms(3) in \<open>simp_all add: calm_def\<close>)

lemma makes_call:
  assumes "\<And>h. \<exists>cs r. m h = (r, h @ cs) \<and> F (value_of r) (replied (al_client env) h cs)"
  shows "makes env F (al_search m)"
proof (rule makesI)
  fix w r w' assume "al_search m w = (r, w')"
  then show "\<exists>cs. aw_calls w' = aw_calls w @ cs \<and> F (value_of r) (replied (al_client env) (aw_calls w) cs)"
    using assms [of "aw_calls w"] by (auto simp: al_search_def)
qed

section \<open>Buckets, uploads and deletions\<close>

text \<open>The pages of buckets that were served, the rows of the uploads that succeeded, and the deleted indices.\<close>

definition body_buckets :: "ext_reply \<Rightarrow> InsightBucket list" where
  "body_buckets reply = (case reply of Reply _ _ _ (Inr (InsightsBody _ buckets)) \<Rightarrow> buckets | _ \<Rightarrow> [])"

definition served_page :: "ext_call \<times> ext_reply \<Rightarrow> InsightBucket list list" where
  "served_page r = (case fst r of SearchCall _ (InsightsAgg _) \<Rightarrow> [body_buckets (snd r)] | _ \<Rightarrow> [])"

definition uploaded :: "ext_call \<times> ext_reply \<Rightarrow> json_map list" where
  "uploaded r = (case fst r of UploadCall _ _ rows \<Rightarrow> (case snd r of Reply _ _ _ _ \<Rightarrow> rows | NoReply _ \<Rightarrow> []) | _ \<Rightarrow> [])"

definition deleted :: "ext_call \<times> ext_reply \<Rightarrow> string list" where
  "deleted r = (case fst r of DeleteCall n \<Rightarrow> [n] | _ \<Rightarrow> [])"

definition served_pages :: "exchange \<Rightarrow> InsightBucket list list" where
  "served_pages rs = concat (map served_page rs)"

definition uploaded_rows :: "exchange \<Rightarrow> json_map list" where
  "uploaded_rows rs = concat (map uploaded rs)"

definition deleted_indices :: "exchange \<Rightarrow> string list" where
  "deleted_indices rs = concat (map deleted rs)"

lemma exchange_simps [simp]:
  "served_pages (as @ bs) = served_pages as @ served_pages bs" "served_pages [] = []"
  "uploaded_rows (as @ bs) = uploaded_rows as @ uploaded_rows bs" "uploaded_rows [] = []"
  "deleted_indices (as @ bs) = deleted_indices as @ deleted_indices bs" "deleted_indices [] = []"
  "served_pages (r # rs) = served_page r @ served_pages rs"
  "uploaded_rows (r # rs) = uploaded r @ uploaded_rows rs"
  "deleted_indices (r # rs) = deleted r @ deleted_indices rs"
  by (simp_all add: served_pages_def uploaded_rows_def deleted_indices_def)

text \<open>A computation that neither is served buckets nor uploads nor deletes.\<close>

definition aside :: "'a option \<Rightarrow> exchange \<Rightarrow> bool" where
  "aside v rs \<longleftrightarrow> served_pages rs = [] \<and> uploaded_rows rs = [] \<and> deleted_indices rs = []"

lemma makes_aside_calm: "makes env calm m \<Longrightarrow> makes env aside m"
  by (erule makes_mono) (simp add: calm_def aside_def)

lemma makes_aside_simple [made]:
  "makes env aside (eff_return x)" "makes env aside (eff_fail e)" "makes env aside (now_utc env')"
  by (rule makes_aside_calm, rule made)+

lemma makes_aside_Ok [made]: "makes env aside (Pair (Ok y))"
  by (simp add: makes_def aside_def)


lemma makes_aside_bind [made]:
  assumes "makes env aside m" and "\<And>x. makes env aside (k x)"
  shows "makes env aside (bind_eff m k)"
  using assms by (rule makes_bind [where G = "\<lambda>_. aside"]) (simp_all add: aside_def)

lemma makes_after_aside:
  assumes "makes env aside m" and "\<And>x. makes env H (k x)"
    and "\<And>v rs rs'. aside v rs' \<Longrightarrow> H None rs'" and "\<And>v rs rs'. aside v rs' \<Longrightarrow> H v rs \<Longrightarrow> H v (rs' @ rs)"
  shows "makes env H (bind_eff m k)"
  using assms(1,2) by (rule makes_bind [where G = "\<lambda>_. H"]) (use assms(3,4) in \<open>auto simp: aside_def\<close>)

lemma makes_aside_try [made]: "makes env aside m \<Longrightarrow> makes env aside (try_eff m)"
  by (drule makes_try, erule makes_mono) (auto simp: aside_def)

lemma file_call_makes:
  "makes env (\<lambda>v rs. \<exists>reply. rs = [(c, reply)] \<and> (v \<noteq> None \<longleftrightarrow> (\<exists>a b d e. reply = Reply a b d e))) (file_call env c)"
  unfolding file_call_def
  by (rule makes_call) (auto simp: bind_eff_def split: ext_reply.split)

lemma file_call_aside [made]:
  "(case c of UploadCall _ _ _ \<Rightarrow> False | DeleteCall _ \<Rightarrow> False | SearchCall _ _ \<Rightarrow> False | _ \<Rightarrow> True) \<Longrightarrow> makes env aside (file_call env c)"
  by (rule makes_mono [OF file_call_makes]) (cases c; auto simp: aside_def served_page_def uploaded_def deleted_def)

lemma bulk_aside [made]: "makes env aside (al_search (bulk_request (al_client env) (ScriptBulkCall i s items)))"
  by (rule makes_call) (auto simp: bulk_request_def bind_eff_def aside_def served_page_def uploaded_def deleted_def split: ext_reply.split sum.split ext_body.split)

section \<open>One page\<close>

lemma sight_updates_aside [made]: "makes env aside (sight_updates env' index docs)"
  by (induction docs) (auto intro!: made simp: Let_def)

lemma upsertSightsDocs_aside [made]: "makes env aside (upsertSightsDocs env tenantId app docs)"
  unfolding upsertSightsDocs_def Let_def by (auto intro!: made)

lemma docsToDeviceDocuments_aside [made]: "makes env aside (docsToDeviceDocuments env' docs)"
  by (induction docs) (auto intro!: made)

lemma upsertDeviceDocsBatch_aside [made]: "makes env aside (upsertDeviceDocsBatch env tenantId docs)"
  unfolding upsertDeviceDocsBatch_def by (auto intro!: made split: option.split)

lemma upsert_batches_aside [made]: "makes env aside (upsert_batches env tenantId batches n)"
  by (induction batches arbitrary: n) (auto intro!: made)

lemma upsertDeviceDocs_aside [made]: "makes env aside (upsertDeviceDocs env tenantId docs)"
  unfolding upsertDeviceDocs_def by (auto intro!: made)

lemma merge_page_aside [made]: "makes env aside (merge_page env index docs)"
  unfolding merge_page_def by (auto intro!: made)

lemma write_rows_aside [made]: "makes env aside (write_rows env filePath rows)"
  by (induction rows) (auto intro!: made)

lemma WriteDocs_aside [made]: "makes env aside (WriteDocs env filePath attMap names docs)"
  unfolding WriteDocs_def by (rule made)

text \<open>A document without the time at which it was read.\<close>

definition untimed :: "Doc \<Rightarrow> Doc" where
  "untimed d = d\<lparr>DcTimestamp := 0\<rparr>"

lemma untimed_bucket_doc: "untimed (bucket_doc overflow index now b) = bucket_doc overflow index 0 b"
  by (simp add: untimed_def bucket_doc_def Let_def)

lemma bucket_docs_makes:
  "makes env (\<lambda>v rs. rs = [] \<and> (\<forall>page. v = Some page \<longrightarrow> map untimed page = map (bucket_doc (in_overflow env') index 0) bs))
     (bucket_docs env' index bs)"
proof (induction bs)
  case Nil
  show ?case by (simp add: makes_def)
next
  case (Cons b bs)
  have "makes env (\<lambda>v rs. rs = [] \<and> (\<forall>page. v = Some page \<longrightarrow> map untimed page = map (bucket_doc (in_overflow env') index 0) (b # bs)))
      (bind_eff (bucket_docs env' index bs) (\<lambda>rest. eff_return (bucket_doc (in_overflow env') index (unix_milli now) b # rest)))" for now
    by (rule makes_bind [OF Cons.IH, where G = "\<lambda>rest v rs. rs = [] \<and> v = Some (bucket_doc (in_overflow env') index (unix_milli now) b # rest)"])
      (auto simp: makes_def untimed_bucket_doc)
  then show ?case by (simp only: bucket_docs.simps) (intro makes_after_calm [OF makes_calm(4)]; simp)
qed

text \<open>A page is the buckets of its call, which is all it makes.\<close>

lemma insight_page_makes:
  "makes env (\<lambda>v rs. uploaded_rows rs = [] \<and> deleted_indices rs = []
       \<and> (\<forall>key buckets. v = Some (key, buckets) \<longrightarrow> served_pages rs = [buckets])) (insight_page env indexName after)"
  unfolding insight_page_def MakeSearchCall_def
  by (rule makes_call)
    (auto simp: bind_eff_def served_page_def uploaded_def deleted_def body_buckets_def
      split: ext_reply.split sum.split ext_body.split)

section \<open>All pages\<close>

text \<open>
  The documents a computation adds: the buckets of all the pages it was served, the last of which is empty.
\<close>

definition read_all :: "insight_env \<Rightarrow> IndexMetadata \<Rightarrow> Doc list \<Rightarrow> Doc list option \<Rightarrow> exchange \<Rightarrow> bool" where
  "read_all env index docs v rs \<longleftrightarrow> uploaded_rows rs = [] \<and> deleted_indices rs = []
     \<and> (\<forall>docs'. v = Some docs' \<longrightarrow>
          map untimed docs' = map untimed docs @ map (bucket_doc (in_overflow env) index 0) (concat (served_pages rs))
          \<and> served_pages rs \<noteq> [] \<and> last (served_pages rs) = [])"

lemma insight_pages_makes: "makes env (read_all env index docs) (insight_pages fuel env index filePath attMap names after docs)"
proof (induction fuel arbitrary: after docs)
  case 0
  show ?case by (simp add: makes_def read_all_def eff_out_of_fuel_def)
next
  case (Suc fuel)
  define R where "R buckets v rs \<longleftrightarrow> uploaded_rows rs = [] \<and> deleted_indices rs = [] \<and> (\<forall>docs'. v = Some docs' \<longrightarrow>
      map untimed docs' = map untimed docs @ map (bucket_doc (in_overflow env) index 0) (buckets @ concat (served_pages rs))
      \<and> (if buckets = [] then served_pages rs = [] else served_pages rs \<noteq> [] \<and> last (served_pages rs) = []))"
    for buckets :: "InsightBucket list" and v and rs :: exchange
  have step: "makes env (R buckets)
      (bind_eff (bucket_docs env index buckets) (\<lambda>page. bind_eff (merge_page env index page) (\<lambda>_.
         bind_eff (WriteDocs env filePath attMap names page) (\<lambda>_. insight_pages fuel env index filePath attMap names afterKey (docs @ page)))))"
    if "buckets \<noteq> []" for buckets afterKey
  proof (rule makes_bind [OF bucket_docs_makes])
    fix page
    show "makes env (read_all env index (docs @ page)) (bind_eff (merge_page env index page) (\<lambda>_.
         bind_eff (WriteDocs env filePath attMap names page) (\<lambda>_. insight_pages fuel env index filePath attMap names afterKey (docs @ page))))"
      by (rule makes_bind [OF merge_page_aside makes_bind [OF WriteDocs_aside Suc.IH]]) (auto simp: aside_def read_all_def)
  qed (use that in \<open>auto simp: R_def read_all_def\<close>)
  show ?case unfolding insight_pages.simps
  proof (rule makes_bind [OF insight_page_makes, where G = "\<lambda>(afterKey, buckets). R buckets"])
    fix x :: "InsightKey option \<times> InsightBucket list"
    obtain afterKey buckets where x: "x = (afterKey, buckets)" by fastforce
    show "makes env (case x of (afterKey, buckets) \<Rightarrow> R buckets)
      (case x of (afterKey, buckets) \<Rightarrow> if buckets = [] then eff_return docs
         else bind_eff (bucket_docs env index buckets) (\<lambda>page. bind_eff (merge_page env index page) (\<lambda>_.
           bind_eff (WriteDocs env filePath attMap names page) (\<lambda>_. insight_pages fuel env index filePath attMap names afterKey (docs @ page)))))"
      using step [of buckets afterKey] by (auto simp: x R_def intro: makes_return)
  qed (auto simp: R_def read_all_def split: if_splits)
qed

section \<open>One staging index\<close>

lemma writer_init_aside: "makes env aside (writer_init env index)"
proof -
  have "makes env aside (\<lambda>w. (Ok filePath, w\<lparr>inw_fw_closed := False\<rparr>))" for filePath :: string
    by (simp add: makes_def aside_def)
  then show ?thesis unfolding writer_init_def Let_def by (intro makes_aside_bind made) auto
qed

lemma writer_cleanup_aside: "makes env aside (writer_cleanup env filePath)"
proof -
  have "makes env aside (\<lambda>w. bind_eff (if b w then eff_return () else bind_eff (try_eff (file_call env (CloseCall filePath))) (\<lambda>_. eff_return ()))
       (\<lambda>_. bind_eff (try_eff (file_call env (RemoveFileCall filePath))) (\<lambda>_. eff_return ())) w)" for b :: "insight_world \<Rightarrow> bool"
  proof -
    have "makes env aside (bind_eff (if c then eff_return () else bind_eff (try_eff (file_call env (CloseCall filePath))) (\<lambda>_. eff_return ()))
       (\<lambda>_. bind_eff (try_eff (file_call env (RemoveFileCall filePath))) (\<lambda>_. eff_return ())))" for c
      by (auto intro!: made)
    then show ?thesis unfolding makes_def by blast
  qed
  then show ?thesis unfolding writer_cleanup_def .
qed

lemma makes_deferred:
  assumes body: "makes env F body" and clean: "makes env (aside :: unit option \<Rightarrow> exchange \<Rightarrow> bool) cleanup"
    and stable: "\<And>v rs rs'. F v rs \<Longrightarrow> aside (None :: unit option) rs' \<Longrightarrow> F v (rs @ rs')"
  shows "makes env F (deferred cleanup body)"
proof (rule makesI)
  fix w r w' assume run: "deferred cleanup body w = (r, w')"
  obtain r1 w1 where 1: "body w = (r1, w1)" by fastforce
  obtain r2 w2 where 2: "cleanup w1 = (r2, w2)" by fastforce
  from body 1 obtain cs where cs: "aw_calls w1 = aw_calls w @ cs" "F (value_of r1) (replied (al_client env) (aw_calls w) cs)"
    by (rule makesE)
  from clean 2 obtain ds where ds: "aw_calls w2 = aw_calls w1 @ ds" "aside (value_of r2) (replied (al_client env) (aw_calls w1) ds)"
    by (rule makesE)
  have r: "r = r1" and w': "w' = (if r1 = OutOfFuel then w1 else w2)"
    using run 1 2 by (auto simp: deferred_def split: outcome.splits)
  show "\<exists>cs. aw_calls w' = aw_calls w @ cs \<and> F (value_of r) (replied (al_client env) (aw_calls w) cs)"
  proof (cases "r1 = OutOfFuel")
    case True
    then show ?thesis using cs r w' by auto
  next
    case False
    have "F (value_of r) (replied (al_client env) (aw_calls w) (cs @ ds))"
      using stable [OF cs(2)] ds(2) cs(1) by (simp add: r replied_append aside_def)
    then show ?thesis using False w' cs(1) ds(1) by (intro exI [of _ "cs @ ds"]) simp
  qed
qed

text \<open>A row of the file without the time at which its document was read.\<close>

definition plain_row :: "json_map \<Rightarrow> json_map" where
  "plain_row row = filter (\<lambda>(k, _). k \<noteq> ''timestamp'') row"

lemma docKeyValue_untimed: "docKeyValue (untimed d) k = docKeyValue d k"
  by (simp add: docKeyValue_def untimed_def)

lemma plain_row_untimed: "plain_row (insight_row overflow attMap names (untimed d)) = plain_row (insight_row overflow attMap names d)"
  unfolding insight_row_def docKeyValue_untimed by (simp add: plain_row_def untimed_def)

text \<open>The rows in which a staging index is stored, from its buckets.\<close>

definition bucket_row :: "insight_env \<Rightarrow> IndexMetadata \<Rightarrow> (string \<times> string) list \<Rightarrow> (string \<times> string) list \<Rightarrow> InsightBucket \<Rightarrow> json_map" where
  "bucket_row env index attMap names b =
     plain_row (insight_row (in_overflow env) attMap names (bucket_doc (in_overflow env) index 0 b))"

text \<open>All the buckets of an index, read to the end, are in the rows that were uploaded.\<close>

definition all_stored :: "insight_env \<Rightarrow> IndexMetadata \<Rightarrow> (string \<times> string) list \<Rightarrow> exchange \<Rightarrow> bool" where
  "all_stored env index names rs \<longleftrightarrow> served_pages rs \<noteq> [] \<and> last (served_pages rs) = []
     \<and> (\<exists>attMap. map plain_row (uploaded_rows rs) = map (bucket_row env index attMap names) (concat (served_pages rs)))"

definition stores :: "insight_env \<Rightarrow> IndexMetadata \<Rightarrow> (string \<times> string) list \<Rightarrow> 'a option \<Rightarrow> exchange \<Rightarrow> bool" where
  "stores env index names v rs \<longleftrightarrow> deleted_indices rs = [] \<and> (v \<noteq> None \<longrightarrow> all_stored env index names rs)"

lemma insight_upload_makes:
  assumes "\<not> testSkipInsightsObjectStoreUpload (in_getenv env)"
  shows "makes env (\<lambda>v rs. served_pages rs = [] \<and> deleted_indices rs = [] \<and> (v \<noteq> None \<longrightarrow> uploaded_rows rs = rows))
    (insight_upload env index filePath rows)"
    (is "makes env ?F _")
proof -
  have flag: "makes env aside (\<lambda>w. (Ok (), w\<lparr>inw_fw_closed := True\<rparr>))"
    by (simp add: makes_def aside_def)
  have upload: "makes env ?F (file_call env (UploadCall name path rows))" for name path
    by (rule makes_mono [OF file_call_makes]) (auto simp: served_page_def deleted_def uploaded_def)
  show ?thesis unfolding insight_upload_def
  proof (rule makes_after_aside [OF file_call_aside])
    fix x :: unit
    show "makes env ?F (bind_eff (file_call env (CloseCall filePath)) (\<lambda>_. bind_eff (\<lambda>w. (Ok (), w\<lparr>inw_fw_closed := True\<rparr>)) (\<lambda>_.
        if testSkipInsightsObjectStoreUpload (in_getenv env) then eff_return ()
        else file_call env (UploadCall (getObjectKeyForSearch index filePath) filePath rows))))"
      using upload assms by (intro makes_after_aside [OF file_call_aside] makes_after_aside [OF flag]) (auto simp: aside_def)
  qed (auto simp: aside_def)
qed

lemma NewAlert_calm [made]: "makes env calm (NewAlert env' opts)"
  unfolding NewAlert_def Let_def by (auto intro!: made split: option.split)

lemma al_send_calm [made]: "makes env calm (al_send m)" "makes env calm (Pair (Ok ()))"
  by (simp_all add: makes_def calm_def al_send_def)

lemma SendAlerts_calm [made]: "makes env calm (SendAlerts alerts)"
  by (induction alerts) (auto intro!: made)

lemma rule_row_calm [made]: "makes env calm (rule_row env' index)"
  unfolding rule_row_def by (rule made)

lemma getInsightRuleName_calm [made]: "makes env calm (getInsightRuleName env' index)"
  unfolding getInsightRuleName_def by (auto intro!: made split: option.split)

lemma getAttributes_calm [made]: "makes env calm (getAttributes env' index)"
  unfolding getAttributes_def by (auto intro!: made split: option.split json.split)

lemma checkIndexCardinalityAndAlert_calm [made]: "makes env calm (checkIndexCardinalityAndAlert env' index dp n threshold)"
  unfolding checkIndexCardinalityAndAlert_def generateIndexCardinalityAlert_def
  by (auto intro!: made split: option.split)

lemma stored_docs:
  assumes "map untimed docs = map (bucket_doc (in_overflow env) index 0) bs"
  shows "map plain_row (map (insight_row (in_overflow env) attMap names) docs) = map (bucket_row env index attMap names) bs"
proof -
  have "map plain_row (map (insight_row (in_overflow env) attMap names) docs)
      = map (\<lambda>d. plain_row (insight_row (in_overflow env) attMap names d)) (map untimed docs)"
    by (simp add: plain_row_untimed)
  then show ?thesis by (simp add: assms bucket_row_def)
qed

lemma aggregateInsights_stores:
  assumes keep: "\<not> testSkipInsightsObjectStoreUpload (in_getenv env)"
  shows "makes env (stores env index names) (aggregateInsights env index names)"
proof -
  let ?rows = "\<lambda>attMap. map (insight_row (in_overflow env) attMap names)"
  have body: "makes env (stores env index names)
      (bind_eff (insight_pages (al_fuel env) env index filePath attMap names None []) (\<lambda>docs.
       bind_eff (if docs = [] then eff_return () else insight_upload env index filePath (?rows attMap docs)) (\<lambda>_.
       bind_eff (try_eff (checkIndexCardinalityAndAlert env index (index_data_plane docs) (length docs) threshold))
         (\<lambda>_. eff_return ()))))" for filePath attMap threshold
  proof (rule makes_bind [OF insight_pages_makes,
      where G = "\<lambda>docs v rs. served_pages rs = [] \<and> deleted_indices rs = [] \<and> (v \<noteq> None \<longrightarrow> uploaded_rows rs = ?rows attMap docs)"])
    fix docs
    have "makes env (\<lambda>v rs. served_pages rs = [] \<and> deleted_indices rs = [] \<and> (v \<noteq> None \<longrightarrow> uploaded_rows rs = ?rows attMap docs))
        (if docs = [] then eff_return () else insight_upload env index filePath (?rows attMap docs))"
      using insight_upload_makes [OF keep] by (auto intro: makes_return)
    moreover have "makes env calm (bind_eff (try_eff (checkIndexCardinalityAndAlert env index (index_data_plane docs) (length docs) threshold))
        (\<lambda>_. eff_return ()))" by (auto intro!: made)
    ultimately show "makes env (\<lambda>v rs. served_pages rs = [] \<and> deleted_indices rs = [] \<and> (v \<noteq> None \<longrightarrow> uploaded_rows rs = ?rows attMap docs))
        (bind_eff (if docs = [] then eff_return () else insight_upload env index filePath (?rows attMap docs)) (\<lambda>_.
         bind_eff (try_eff (checkIndexCardinalityAndAlert env index (index_data_plane docs) (length docs) threshold)) (\<lambda>_. eff_return ())))"
      by (rule makes_bind [where G = "\<lambda>_. calm"]) (auto simp: calm_def)
  next
    fix docs rs v rs'
    assume read: "read_all env index [] (Some docs) rs"
      and up: "served_pages rs' = [] \<and> deleted_indices rs' = [] \<and> (v \<noteq> None \<longrightarrow> uploaded_rows rs' = ?rows attMap docs)"
    then have "map plain_row (?rows attMap docs) = map (bucket_row env index attMap names) (concat (served_pages rs))"
      by (intro stored_docs) (simp add: read_all_def)
    then show "stores env index names v (rs @ rs')"
      using read up by (auto simp: stores_def all_stored_def read_all_def)
  qed (auto simp: stores_def read_all_def)
  have "makes env (stores env index names) (bind_eff (writer_init env index) (\<lambda>filePath. deferred (writer_cleanup env filePath)
      (bind_eff (insight_pages (al_fuel env) env index filePath attMap names None []) (\<lambda>docs.
       bind_eff (if docs = [] then eff_return () else insight_upload env index filePath (?rows attMap docs)) (\<lambda>_.
       bind_eff (try_eff (checkIndexCardinalityAndAlert env index (index_data_plane docs) (length docs) threshold))
         (\<lambda>_. eff_return ()))))))" for attMap threshold
    by (rule makes_after_aside [OF writer_init_aside makes_deferred [OF body writer_cleanup_aside]])
      (auto simp: stores_def aside_def all_stored_def)
  then show ?thesis unfolding aggregateInsights_def Let_def
    by (intro makes_after_calm [OF getAttributes_calm]) (simp_all add: stores_def)
qed

lemma index_task_makes:
  assumes "\<not> testSkipInsightsObjectStoreUpload (in_getenv env)"
  shows "makes env (\<lambda>v rs. deleted_indices rs = [] \<or>
      (\<exists>front reply. rs = front @ [(DeleteCall (INSIGHTS_STAGING_INDEX_PREFIX @ index_string index), reply)]
         \<and> deleted_indices front = [] \<and> all_stored env index names front)) (index_task env names index)"
  (is "makes env ?H _")
proof -
  let ?n = "INSIGHTS_STAGING_INDEX_PREFIX @ index_string index"
  have del: "makes env (\<lambda>v rs. \<exists>reply. rs = [(DeleteCall ?n, reply)]) (al_search (DeleteIndex (al_client env) ?n))"
    unfolding DeleteIndex_def status_call_def by (rule makes_call) (auto simp: bind_eff_def split: ext_reply.split)
  define G :: "go_error + unit \<Rightarrow> JobError list option \<Rightarrow> exchange \<Rightarrow> bool" where
    "G = (\<lambda>r v rs. case r of Inl e \<Rightarrow> rs = [] | Inr u \<Rightarrow> \<exists>reply. rs = [(DeleteCall ?n, reply)])"
  show ?thesis unfolding index_task_def Let_def
  proof (rule makes_bind [OF makes_try [OF aggregateInsights_stores [OF assms]], where G = G])
    fix r :: "go_error + unit"
    have "makes env (\<lambda>v rs. \<exists>reply. rs = [(DeleteCall ?n, reply)])
        (bind_eff (try_eff (al_search (DeleteIndex (al_client env) ?n))) (\<lambda>r'. eff_return (case r' of
           Inl e \<Rightarrow> [\<lparr>Message = ''failed to delete index '' @ ?n @ '': '' @ e\<rparr>] | Inr _ \<Rightarrow> [])))"
      by (rule makes_bind [OF makes_try [OF del], where G = "\<lambda>_. calm"]) (auto simp: calm_def intro: makes_calm)
    then show "makes env (G r) (case r of
        Inl e \<Rightarrow> eff_return [\<lparr>Message = ''failed to aggregate insights for index '' @ ?n @ '': '' @ e\<rparr>]
      | Inr _ \<Rightarrow> bind_eff (try_eff (al_search (DeleteIndex (al_client env) ?n))) (\<lambda>r'. eff_return (case r' of
           Inl e \<Rightarrow> [\<lparr>Message = ''failed to delete index '' @ ?n @ '': '' @ e\<rparr>] | Inr _ \<Rightarrow> [])))"
      by (cases r) (auto simp: G_def makes_return)
  qed (auto simp: G_def stores_def split: sum.splits)
qed

lemma map_fst_replied [simp]: "map fst (replied client h cs) = cs"
  by (induction cs arbitrary: h) simp_all

lemma deleted_indices_iff: "n \<in> set (deleted_indices (replied client h cs)) \<longleftrightarrow> DeleteCall n \<in> set cs"
  by (induction cs arbitrary: h) (auto simp: deleted_def split: ext_call.splits)


definition sample_insight_key :: InsightKey where
  "sample_insight_key = \<lparr>IkKey1 = ''host-a'', IkKey2 = '''', IkKey3 = '''', IkKey4 = '''', IkKey5 = '''', IkSourceId = ''s1'', IkDataPlaneId = ''d1''\<rparr>"

definition sample_insight_client :: ext_client where
  "sample_insight_client h c = Reply 200 '''' '''' (case c of
     SearchCall _ _ \<Rightarrow> Inr (InsightsBody (Some sample_insight_key)
       (if list_all (\<lambda>c'. case c' of SearchCall _ _ \<Rightarrow> False | _ \<Rightarrow> True) h
        then [\<lparr>IbKey = sample_insight_key, IbCount = 3, IbMinTime = 10, IbMaxTime = 20\<rparr>] else []))
   | _ \<Rightarrow> Inr NoBody)"

definition sample_insight_env :: insight_env where
  "sample_insight_env =
     \<lparr>al_client = sample_insight_client, al_fault = (\<lambda>_. None), al_now = (\<lambda>_. 0), al_decode = (\<lambda>_. Inr []), al_sha256 = (\<lambda>s. s),
      al_fuel = 2, in_getenv = (\<lambda>_. ''''), in_parse = (\<lambda>_. Inr []), in_show = (\<lambda>_. ''''), in_manager = None, in_sight_json = (\<lambda>_. True),
      in_device_json = (\<lambda>_. True), in_zone = (\<lambda>_. True), in_overflow = (\<lambda>_. 0), in_temp_dir = ''/tmp'', in_uuid_error = (\<lambda>_. None),
      in_decode_sights = (\<lambda>_. Inr [])\<rparr>"

definition sample_insight_index :: IndexMetadata where
  "sample_insight_index = \<lparr>ImVersion = ''v1'', ImYear = 9, ImMonth = 3, ImDay = 5, ImHour = 7, ImTenantId = ''t1'',
     ImType = ''sourcehostname''\<rparr>"

definition sample_insight_world :: insight_world where
  "sample_insight_world = \<lparr>aw_calls = [], aw_sent = [], aw_operations = 0, aw_clock = 0, inw_rules = [], inw_sources = [], inw_fw_closed = False\<rparr>"


section \<open>The processed hours, the names and the ids\<close>

lemma indices_to_process_iff:
  assumes "slice_sorter srt"
  shows "m \<in> set (indices_to_process getenv srt now indexSizes) \<longleftrightarrow>
    (\<exists>n \<in> fst ` set indexSizes. go_has_prefix n INSIGHTS_STAGING_INDEX_PREFIX \<and> parse_index n = Some m)
    \<and> (skipIndexTimeCheck getenv \<or> IsBefore m (insights_window now))"
  using slice_sorter_set [OF assms]
  by (auto simp: indices_to_process_def parseIndices_def map_filter_def Let_def image_iff)

interpretation tenant_groups: grouping "[]" "\<lambda>m. group_append (ImTenantId m) m" group_members ImTenantId
  by unfold_locales simp_all

lemma indices_by_tenant_members:
  "group_members (indices_by_tenant getenv ms) t = filter (\<lambda>m. ImTenantId m = t) (filter (\<lambda>m. ImTenantId m \<notin> set (getSkipTenants getenv)) ms)"
  unfolding indices_by_tenant_def by (rule tenant_groups.members_grouped)

lemma distinct_grouped: "distinct (map fst m) \<Longrightarrow> distinct (map fst (fold (\<lambda>x. group_append (key x) x) xs m))"
  by (induction xs arbitrary: m) simp_all

lemma indices_by_tenant_distinct: "distinct (map fst (indices_by_tenant getenv ms))"
  unfolding indices_by_tenant_def by (rule distinct_grouped) simp

lemma group_members_entry: "distinct (map fst m) \<Longrightarrow> (k, vs) \<in> set m \<Longrightarrow> group_members m k = vs"
  by (simp add: group_members_def)

text \<open>The tasks of one run.\<close>

lemma tasks_iff:
  "m \<in> set (concat (map snd (indices_by_tenant getenv ms))) \<longleftrightarrow> m \<in> set ms \<and> ImTenantId m \<notin> set (getSkipTenants getenv)"
proof -
  let ?g = "indices_by_tenant getenv ms"
  have "m \<in> set (concat (map snd ?g)) \<longleftrightarrow> (\<exists>t vs. (t, vs) \<in> set ?g \<and> m \<in> set vs)" by force
  also have "\<dots> \<longleftrightarrow> (\<exists>t. m \<in> set (group_members ?g t))"
    using indices_by_tenant_distinct [of getenv ms]
    by (auto simp: group_members_def group_members_entry dest!: map_of_SomeD split: option.splits)
  finally show ?thesis by (simp add: indices_by_tenant_members)
qed

text \<open>One run processes, among the staging indices named after an hour \<open>u\<close> whose time check is on, exactly those listed whose
  tenant is not skipped and whose hour is before the hour that precedes the current one: no hour that still receives
  documents is processed, and none that is over is passed over.\<close>

theorem processed_hours_over:
  assumes "slice_sorter srt" and "\<not> skipIndexTimeCheck getenv" and "Hour \<le> now" and "named_after m u"
  shows "m \<in> set (concat (map snd (indices_by_tenant getenv (indices_to_process getenv srt now indexSizes)))) \<longleftrightarrow>
    (\<exists>n \<in> fst ` set indexSizes. go_has_prefix n INSIGHTS_STAGING_INDEX_PREFIX \<and> parse_index n = Some m)
    \<and> ImTenantId m \<notin> set (getSkipTenants getenv) \<and> u div Hour < now div Hour - 1"
proof -
  have "IsBefore m (insights_window now) \<longleftrightarrow> u div Hour < now div Hour - 1"
    by (simp only: IsBefore_hours [OF assms(4)] insights_window_hours [OF assms(3)]) simp
  then show ?thesis
    unfolding tasks_iff indices_to_process_iff [OF assms(1)] using assms(2) by blast
qed

definition sample_epoch_index :: IndexMetadata where
  "sample_epoch_index = \<lparr>ImVersion = ''v1'', ImYear = 1970, ImMonth = 1, ImDay = 1, ImHour = 0, ImTenantId = ''t'', ImType = ''x''\<rparr>"

theorem processed_hours_over_witness:
  "sample_epoch_index \<in> set (concat (map snd (indices_by_tenant (\<lambda>_. '''') (indices_to_process (\<lambda>_. '''') sort_key (3 * Hour)
     [(''db_staging_insights_v1_x_1970_01_01_00_t'', 100)]))))"
proof -
  have "named_after sample_epoch_index 0" by code_simp
  moreover have "parse_index ''db_staging_insights_v1_x_1970_01_01_00_t'' = Some sample_epoch_index" by code_simp
  moreover have "go_has_prefix ''db_staging_insights_v1_x_1970_01_01_00_t'' INSIGHTS_STAGING_INDEX_PREFIX" by code_simp
  moreover have "getSkipTenants (\<lambda>_. '''') = []" by code_simp
  moreover have "\<not> skipIndexTimeCheck (\<lambda>_. '''')" by code_simp
  ultimately show ?thesis
    by (subst processed_hours_over [where u = 0]) simp_all
qed

text \<open>C32: The name of a staging index is read back: an index whose type and tenant have no underscore and whose version is v1 is
  what \<open>parseIndices\<close> makes of the name that \<open>String\<close> gives it, so the index that is deleted is the one that was listed.\<close>

theorem staging_name_read_back:
  assumes "plain_index m"
  shows "parseIndices [INSIGHTS_STAGING_INDEX_PREFIX @ index_string m] = [m]"
  by (simp add: parseIndices_def map_filter_def parse_index_string [OF assms])

theorem staging_name_read_back_witness:
  "parseIndices [INSIGHTS_STAGING_INDEX_PREFIX @ index_string sample_insight_index] = [sample_insight_index]"
  by (rule staging_name_read_back) (simp add: plain_index_def sample_insight_index_def int64_def)

text \<open>C33: The updates of a device that has no stored document, in any number and order, leave a document with each of their
  sources once, whose first and last times are the least and the greatest of that source's updates; the global times
  are the least and the greatest of all the sources.\<close>

theorem device_updates_merge:
  assumes "docs \<noteq> []"
  shows "\<exists>d. apply_devices docs None = Some d \<and> device_ok d
    \<and> (\<forall>i. span_of d i = merged_span (filter (\<lambda>p. DvSourceId p = i) docs))"
  by (rule apply_devices_spans [OF assms])

definition sample_device_update :: "string \<Rightarrow> int \<Rightarrow> int \<Rightarrow> DeviceDocument" where
  "sample_device_update source a b =
     \<lparr>DvId = ''t:host'', DvKey1 = ''host'', DvKey2 = '''', DvKey3 = '''', DvKey4 = '''', DvSourceId = source, DvTenantId = ''t'',
      DvDataPlaneId = ''d'', DvMinTime = a, DvMaxTime = b, DvTimestamp = 0, DvUpdatedAt = 0, DvTimezoneUpdatedBy = '''',
      DvTimezoneUpdateReason = ''''\<rparr>"

theorem device_updates_merge_witness:
  "\<exists>d. apply_devices [sample_device_update ''s'' 5 9, sample_device_update ''r'' 4 6, sample_device_update ''s'' 2 7] None = Some d
     \<and> device_ok d \<and> span_of d ''s'' = Some (Some 2, Some 9) \<and> span_of d ''r'' = Some (Some 4, Some 6)"
  using device_updates_merge [of "[sample_device_update ''s'' 5 9, sample_device_update ''r'' 4 6, sample_device_update ''s'' 2 7]"]
  by (auto simp: sample_device_update_def merged_span_def)

end
