(* ===== verification/Go_Path.thy ===== *)
theory Go_Path
  imports Go_Strings
begin

text \<open>
  The functions of Go's \<open>path/filepath\<close> that the jobs call, on Unix paths: \<open>Clean\<close>, \<open>Base\<close>,
  \<open>Dir\<close> and \<open>Join\<close>.  A path is cut at its slashes; \<open>Clean\<close> drops empty and \<open>.\<close> segments and lets
  \<open>..\<close> take back the segment before it.
\<close>

section \<open>Functions\<close>

fun clean_segments :: "bool \<Rightarrow> string list \<Rightarrow> string list \<Rightarrow> string list" where
  "clean_segments rooted out [] = out"
| "clean_segments rooted out (w # ws) =
     (if w = '''' \<or> w = ''.'' then clean_segments rooted out ws
      else if w = ''..'' then
        (if out \<noteq> [] \<and> last out \<noteq> ''..'' then clean_segments rooted (butlast out) ws
         else if rooted then clean_segments rooted out ws
         else clean_segments rooted (out @ [''..'']) ws)
      else clean_segments rooted (out @ [w]) ws)"

definition path_rooted :: "string \<Rightarrow> bool" where
  "path_rooted p \<longleftrightarrow> go_has_prefix p ''/''"

definition path_Clean :: "string \<Rightarrow> string" where
  "path_Clean p =
     (let out = go_join ''/'' (clean_segments (path_rooted p) [] (go_split CHR ''/'' p)) in
      if path_rooted p then ''/'' @ out else if out = '''' then ''.'' else out)"

definition trim_slashes :: "string \<Rightarrow> string" where
  "trim_slashes p = rev (dropWhile (\<lambda>c. c = CHR ''/'') (rev p))"

definition path_Base :: "string \<Rightarrow> string" where
  "path_Base p =
     (if p = '''' then ''.''
      else let b = last (go_split CHR ''/'' (trim_slashes p)) in if b = '''' then ''/'' else b)"

definition path_Dir :: "string \<Rightarrow> string" where
  "path_Dir p = path_Clean (rev (dropWhile (\<lambda>c. c \<noteq> CHR ''/'') (rev p)))"

definition path_Join :: "string list \<Rightarrow> string" where
  "path_Join elems =
     (let rest = dropWhile (\<lambda>e. e = '''') elems in
      if rest = [] then '''' else path_Clean (go_join ''/'' rest))"

section \<open>Clean relative paths\<close>

text \<open>The segments of a path that \<open>Clean\<close> leaves alone.\<close>

definition plain_segment :: "string \<Rightarrow> bool" where
  "plain_segment w \<longleftrightarrow> w \<noteq> '''' \<and> w \<noteq> ''.'' \<and> w \<noteq> ''..'' \<and> CHR ''/'' \<notin> set w"

lemma clean_segments_plain: "list_all plain_segment ws \<Longrightarrow> clean_segments r out ws = out @ ws"
  by (induction ws arbitrary: out) (auto simp: plain_segment_def)

lemma clean_segments_ignored:
  "list_all (\<lambda>w. w = '''') ws \<Longrightarrow> clean_segments r out (us @ ws) = clean_segments r out us"
proof (induction us arbitrary: out)
  case Nil
  then show ?case by (induction ws) auto
qed auto

lemma plain_segments_split:
  "ws \<noteq> [] \<Longrightarrow> list_all plain_segment ws \<Longrightarrow> go_split CHR ''/'' (go_join ''/'' ws) = ws"
  by (rule go_split_join) (auto simp: list_all_iff plain_segment_def)

lemma plain_not_rooted: "plain_segment w \<Longrightarrow> \<not> path_rooted (w @ s)"
  by (cases w) (auto simp: plain_segment_def path_rooted_def)

lemma plain_join_not_rooted:
  assumes "ws \<noteq> []" and "list_all plain_segment ws"
  shows "\<not> path_rooted (go_join ''/'' ws)"
proof -
  obtain w us where ws: "ws = w # us" using assms(1) by (cases ws) auto
  then have "plain_segment w" using assms(2) by simp
  then show ?thesis
    using plain_not_rooted [of w "[]"] plain_not_rooted [of w] unfolding ws by (cases us) auto
qed

lemma plain_join_nonempty:
  "ws \<noteq> [] \<Longrightarrow> list_all plain_segment ws \<Longrightarrow> go_join ''/'' ws \<noteq> ''''"
  by (cases ws rule: list.exhaust; cases "tl ws") (auto simp: plain_segment_def)

lemma path_Clean_plain:
  "ws \<noteq> [] \<Longrightarrow> list_all plain_segment ws \<Longrightarrow> path_Clean (go_join ''/'' ws) = go_join ''/'' ws"
  by (simp add: path_Clean_def plain_join_not_rooted plain_segments_split clean_segments_plain
      plain_join_nonempty Let_def)

lemma plain_segment_rev:
  "plain_segment w \<Longrightarrow> dropWhile (\<lambda>c. c \<noteq> CHR ''/'') (rev w @ s) = dropWhile (\<lambda>c. c \<noteq> CHR ''/'') s"
  by (rule dropWhile_append2) (auto simp: plain_segment_def)

lemma go_join_snoc: "ws \<noteq> [] \<Longrightarrow> go_join sep (ws @ [w]) = go_join sep ws @ sep @ w"
  by (induction sep ws rule: go_join.induct) simp_all

lemma trim_slashes_plain:
  assumes "plain_segment w"
  shows "trim_slashes (s @ w) = s @ w"
proof -
  obtain c cs where w: "rev w = c # cs" and c: "c \<noteq> CHR ''/''"
    using assms by (cases "rev w") (auto simp: plain_segment_def)
  then show ?thesis
    using arg_cong [OF w, of rev] by (simp add: trim_slashes_def)
qed

text \<open>A path made of plain segments is its directory and its base joined again.\<close>

lemma path_Base_plain:
  assumes "list_all plain_segment (ws @ [w])"
  shows "path_Base (go_join ''/'' (ws @ [w])) = w"
proof -
  let ?p = "go_join ''/'' (ws @ [w])"
  have w: "plain_segment w" using assms by simp
  have "trim_slashes ?p = ?p"
    using trim_slashes_plain [OF w, of "go_join ''/'' ws @ ''/''"] trim_slashes_plain [OF w, of "[]"]
    by (cases "ws = []") (simp_all add: go_join_snoc)
  moreover have "go_split CHR ''/'' ?p = ws @ [w]"
    using plain_segments_split [of "ws @ [w]"] assms by simp
  ultimately show ?thesis
    using w plain_join_nonempty [of "ws @ [w]"] assms
    by (auto simp: path_Base_def Let_def plain_segment_def)
qed

lemma path_Dir_plain:
  assumes "list_all plain_segment (ws @ [w])"
  shows "path_Dir (go_join ''/'' (ws @ [w])) = (if ws = [] then ''.'' else go_join ''/'' ws)"
proof (cases "ws = []")
  case True
  have "rev (dropWhile (\<lambda>c. c \<noteq> CHR ''/'') (rev (go_join ''/'' (ws @ [w])))) = []"
    using True plain_segment_rev [of w "[]"] assms by simp
  then have "path_Dir (go_join ''/'' (ws @ [w])) = path_Clean []"
    unfolding path_Dir_def by (rule arg_cong)
  then show ?thesis using True by (simp add: path_Clean_def path_rooted_def)
next
  case False
  let ?d = "go_join ''/'' ws"
  have w: "plain_segment w" and ws: "list_all plain_segment ws" using assms by simp_all
  have "rev (dropWhile (\<lambda>c. c \<noteq> CHR ''/'') (rev (go_join ''/'' (ws @ [w])))) = ?d @ ''/''"
    using False by (simp add: go_join_snoc plain_segment_rev [OF w])
  moreover have "go_split CHR ''/'' (?d @ ''/'') = ws @ ['''']"
  proof -
    have "go_split CHR ''/'' (go_join ''/'' (ws @ [''''])) = ws @ ['''']"
      using ws by (intro go_split_join) (auto simp: list_all_iff plain_segment_def)
    then show ?thesis using False by (simp add: go_join_snoc)
  qed
  moreover have "\<not> path_rooted (?d @ ''/'')"
    using plain_join_not_rooted [OF False ws] plain_join_nonempty [OF False ws]
    by (cases ?d) (auto simp: path_rooted_def)
  moreover have "clean_segments False [] (ws @ ['''']) = ws"
    using clean_segments_ignored [of "['''']" False "[]" ws] clean_segments_plain [OF ws] by simp
  ultimately show ?thesis
    using False plain_join_nonempty [OF False ws] by (simp add: path_Dir_def path_Clean_def)
qed

lemma path_Join_Dir_Base:
  assumes "list_all plain_segment (ws @ [w])"
  shows "path_Join [path_Dir (go_join ''/'' (ws @ [w])), path_Base (go_join ''/'' (ws @ [w]))]
           = go_join ''/'' (ws @ [w])"
proof (cases "ws = []")
  case True
  have w: "plain_segment w" using assms by simp
  then have "go_split CHR ''/'' (''./'' @ w) = [''.'', w]"
    using go_split_append [of "CHR ''/''" "''.''" w] go_split_no_sep [of "CHR ''/''" w]
    by (simp add: plain_segment_def)
  then show ?thesis
    using True w path_Dir_plain [OF assms] path_Base_plain [OF assms]
    by (simp add: path_Join_def path_Clean_def path_rooted_def plain_segment_def)
next
  case False
  have "path_Clean (go_join ''/'' (ws @ [w])) = go_join ''/'' (ws @ [w])"
    using path_Clean_plain [OF _ assms] by simp
  moreover have "go_join ''/'' ws \<noteq> ''''"
    using assms False by (intro plain_join_nonempty) auto
  ultimately show ?thesis
    using False path_Dir_plain [OF assms] path_Base_plain [OF assms]
    by (simp add: path_Join_def go_join_snoc)
qed

end
