(* ===== verification/Replay_Store.thy ===== *)
theory Replay_Store
  imports Go_Path Go_Time
begin

text \<open>
  The replay job's record of its files, \<open>internal/replay/replaymanager\<close>: the metadata store with its
  copy on disk, the statuses of files and of the whole job, and the preparation of a fresh or a resumed
  job.  The store's mutex makes each method one step; a method here is a function on the state
  \<open>replay_store\<close>, whose \<open>metaFile\<close> is the content of \<open>metadata.json\<close>.
\<close>

section \<open>Data\<close>

record Message =
  RqSource :: string
  RqDestinationTopic :: string
  RqNewSource :: string
  RqRequestId :: string
  RqBucketName :: string
  RqBucketPrefix :: string
  RqAccessKeyID :: string
  RqSecretAccessKey :: string
  RqRegion :: string
  RqFileName :: "string list"
  RqTenantId :: string
  RqDeviceType :: string
  RqDeviceVendor :: string
  RqLogType :: string
  RqReplayType :: string
  RqFleetId :: string
  RqConnectId :: string
  RqAckId :: string
  RqConcurrency :: int
  RqSourceName :: string
  RqDataStore :: string
  RqAdditionalConfig :: "(string \<times> string) list"
  RqAdditionalHeaders :: "(string \<times> string) list"

record MetaDataValue =
  MdKey :: string
  MdFileName :: string
  MdPrefix :: string
  MdOffset :: int
  MdRetry :: int
  MdJobName :: string
  MdRequestId :: string
  MdStatus :: string
  MdTime :: go_time
  MdEndTime :: go_time
  MdFileSize :: int
  MdCurrentSize :: int
  MdErrorMsg :: "string list"

text \<open>The zero \<open>time.Time\<close>, the start of year 1, and the zero value of the map's element type.\<close>

definition no_time :: go_time where
  "no_time = -62135596800 * Second"

definition zero_meta :: MetaDataValue where
  "zero_meta =
     \<lparr>MdKey = '''', MdFileName = '''', MdPrefix = '''', MdOffset = 0, MdRetry = 0, MdJobName = '''',
      MdRequestId = '''', MdStatus = '''', MdTime = no_time, MdEndTime = no_time, MdFileSize = 0,
      MdCurrentSize = 0, MdErrorMsg = []\<rparr>"

text \<open>A missing key of a \<open>map[string]string\<close> reads as the empty string.\<close>

definition map_get :: "(string \<times> string) list \<Rightarrow> string \<Rightarrow> string" where
  "map_get m k = (case map_of m k of None \<Rightarrow> '''' | Some v \<Rightarrow> v)"

text \<open>\<open>metadata.json\<close>: absent, a content that does not decode (with the error), or a written map.\<close>

datatype meta_file = NoFile | BadFile go_error | MetaFile "(string \<times> MetaDataValue) list"

record MetaDataStore =
  metaMap :: "(string \<times> MetaDataValue) list"
  processList :: "string list"
  baseDir :: string
  dataDir :: string
  metaDir :: string
  metaFilePath :: string

record replay_store =
  mst :: MetaDataStore
  metaFile :: meta_file

text \<open>
  What one method learns from outside: the clock, the outcome of writing the file (\<open>None\<close>: written; a
  failed write leaves what it leaves), and the order in which a map is ranged over.
\<close>

record store_env =
  now_at :: go_time
  write_fails :: "meta_file option"
  range_map :: "(string \<times> MetaDataValue) list \<Rightarrow> (string \<times> MetaDataValue) list"

definition StatusInProgress :: string where "StatusInProgress = ''IN_PROGRESS''"
definition StatusFailed :: string where "StatusFailed = ''FAILED''"
definition StatusCompleted :: string where "StatusCompleted = ''COMPLETED''"
definition CompletedWithError :: string where "CompletedWithError = ''COMPLETED_WITH_ERROR''"
definition StatusYetToProcess :: string where "StatusYetToProcess = ''YET_TO_PROCESS''"
definition StatusProcessing :: string where "StatusProcessing = ''PROCESSING''"
definition StatusDownloaded :: string where "StatusDownloaded = ''DOWNLOAD''"
definition Global :: string where "Global = ''GLOBAL''"
definition MaxRetry :: int where "MaxRetry = 3"

definition ProcessingInterruptedErrorMsg :: string where
  "ProcessingInterruptedErrorMsg = ''Processing interrupted, please retry.''"

lemmas status_defs = StatusInProgress_def StatusFailed_def StatusCompleted_def CompletedWithError_def
  StatusYetToProcess_def StatusProcessing_def StatusDownloaded_def Global_def

section \<open>Methods of the store\<close>

definition NewMetaStore :: "(string \<Rightarrow> string) \<Rightarrow> string \<Rightarrow> MetaDataStore" where
  "NewMetaStore env reqId =
     (let location = GetEnvOrDefault env ''MOUNT_LOCATION'' ''/opt/databahn/replay/'';
          basePath = path_Join [location, reqId];
          metaPath = path_Join [basePath, ''meta'']
      in \<lparr>metaMap = [], processList = [], baseDir = basePath, dataDir = path_Join [basePath, ''data''],
          metaDir = metaPath, metaFilePath = path_Join [metaPath, ''metadata.json'']\<rparr>)"

definition GetPath :: "MetaDataStore \<Rightarrow> string \<Rightarrow> string" where
  "GetPath m path =
     (if path = ''baseDir'' then baseDir m
      else if path = ''metaDir'' then metaDir m
      else if path = ''dataDir'' then dataDir m
      else if path = ''metaFile'' then metaFilePath m
      else baseDir m)"

definition GetMetaData :: "string \<Rightarrow> replay_store \<Rightarrow> MetaDataValue option" where
  "GetMetaData key s = map_of (metaMap (mst s)) key"

definition GetProcessList :: "replay_store \<Rightarrow> string list" where
  "GetProcessList s = processList (mst s)"

definition set_meta :: "string \<Rightarrow> MetaDataValue \<Rightarrow> replay_store \<Rightarrow> replay_store" where
  "set_meta key v s = s\<lparr>mst := (mst s)\<lparr>metaMap := AList.update key v (metaMap (mst s))\<rparr>\<rparr>"

definition meta_or_zero :: "string \<Rightarrow> replay_store \<Rightarrow> MetaDataValue" where
  "meta_or_zero key s = (case GetMetaData key s of None \<Rightarrow> zero_meta | Some v \<Rightarrow> v)"

definition AddMetaData :: "MetaDataValue \<Rightarrow> string \<Rightarrow> replay_store \<Rightarrow> replay_store" where
  "AddMetaData v key s = set_meta key v s"

definition DeleteMetaData :: "string \<Rightarrow> replay_store \<Rightarrow> replay_store" where
  "DeleteMetaData key s = s\<lparr>mst := (mst s)\<lparr>metaMap := AList.delete key (metaMap (mst s))\<rparr>\<rparr>"

definition AddToProcessList :: "string \<Rightarrow> replay_store \<Rightarrow> replay_store" where
  "AddToProcessList v s = s\<lparr>mst := (mst s)\<lparr>processList := processList (mst s) @ [v]\<rparr>\<rparr>"

definition GetValuesOfMap :: "store_env \<Rightarrow> replay_store \<Rightarrow> MetaDataValue list" where
  "GetValuesOfMap env s = map snd (range_map env (metaMap (mst s)))"

definition flushLocked :: "store_env \<Rightarrow> replay_store \<Rightarrow> replay_store" where
  "flushLocked env s =
     (if metaMap (mst s) = [] then s
      else s\<lparr>metaFile := (case write_fails env of None \<Rightarrow> MetaFile (metaMap (mst s)) | Some f \<Rightarrow> f)\<rparr>)"

definition isTerminalExecutionStatus :: "string \<Rightarrow> bool" where
  "isTerminalExecutionStatus status \<longleftrightarrow> status = StatusCompleted \<or> status = StatusFailed"

text \<open>The arguments of \<open>UpdateMetaData\<close> after the key; a zero value leaves its field alone.\<close>

record meta_update =
  UpStatus :: string
  UpOffset :: int
  UpRetry :: int
  UpFileSize :: int
  UpCurrentSize :: int
  UpErrorMsg :: string

definition apply_update :: "meta_update \<Rightarrow> MetaDataValue \<Rightarrow> MetaDataValue" where
  "apply_update u d0 =
     (let d1 = (if UpOffset u \<noteq> 0 then d0\<lparr>MdOffset := UpOffset u\<rparr> else d0);
          d2 = (if UpRetry u \<noteq> 0 \<and> MaxRetry \<ge> MdRetry d1
                then d1\<lparr>MdRetry := wrap64 (MdRetry d1 + UpRetry u)\<rparr> else d1);
          d3 = (if UpStatus u \<noteq> '''' then
                  (if isTerminalExecutionStatus (MdStatus d2) \<and> \<not> isTerminalExecutionStatus (UpStatus u)
                   then d2 else d2\<lparr>MdStatus := UpStatus u\<rparr>)
                else d2);
          d4 = (if UpErrorMsg u \<noteq> '''' then d3\<lparr>MdErrorMsg := MdErrorMsg d3 @ [UpErrorMsg u]\<rparr> else d3);
          d5 = (if UpFileSize u \<noteq> 0 then d4\<lparr>MdFileSize := UpFileSize u\<rparr> else d4)
      in (if UpCurrentSize u \<noteq> 0 then d5\<lparr>MdCurrentSize := UpCurrentSize u\<rparr> else d5))"

definition UpdateMetaData :: "store_env \<Rightarrow> string \<Rightarrow> meta_update \<Rightarrow> replay_store \<Rightarrow> replay_store" where
  "UpdateMetaData env key u s = flushLocked env (set_meta key (apply_update u (meta_or_zero key s)) s)"

definition apply_stamp :: "go_time \<Rightarrow> bool \<Rightarrow> bool \<Rightarrow> MetaDataValue \<Rightarrow> MetaDataValue" where
  "apply_stamp now start fin d =
     (let d1 = (if start then d\<lparr>MdTime := now\<rparr> else d) in if fin then d1\<lparr>MdEndTime := now\<rparr> else d1)"

definition TimeStampMetaData :: "store_env \<Rightarrow> string \<Rightarrow> bool \<Rightarrow> bool \<Rightarrow> replay_store \<Rightarrow> replay_store" where
  "TimeStampMetaData env key start fin s =
     flushLocked env (set_meta key (apply_stamp (now_at env) start fin (meta_or_zero key s)) s)"

definition Flush :: "store_env \<Rightarrow> replay_store \<Rightarrow> replay_store" where
  "Flush env s = flushLocked env s"

subsection \<open>The status of the job\<close>

definition count_status :: "string \<Rightarrow> (string \<times> MetaDataValue) list \<Rightarrow> int" where
  "count_status st m = int (length (filter (\<lambda>(key, d). key \<noteq> Global \<and> MdStatus d = st) m))"

definition global_status :: "(string \<times> MetaDataValue) list \<Rightarrow> string" where
  "global_status m =
     (let success = count_status StatusCompleted m;
          failed = count_status StatusFailed m;
          totalFiles = int (length m) - 1
      in if totalFiles > 0 \<and> failed = totalFiles then StatusFailed
         else if success = totalFiles then StatusCompleted
         else if failed + success = totalFiles then CompletedWithError
         else StatusInProgress)"

definition updateGlobalStatusLocked :: "store_env \<Rightarrow> replay_store \<Rightarrow> replay_store" where
  "updateGlobalStatusLocked env s =
     set_meta Global
       ((meta_or_zero Global s)\<lparr>MdStatus := global_status (metaMap (mst s)), MdTime := now_at env\<rparr>) s"

definition UpdateGlobalStatus :: "store_env \<Rightarrow> replay_store \<Rightarrow> replay_store" where
  "UpdateGlobalStatus env s = flushLocked env (updateGlobalStatusLocked env s)"

definition unfinished :: "string \<times> MetaDataValue \<Rightarrow> bool" where
  "unfinished kv \<longleftrightarrow> fst kv \<noteq> Global \<and> \<not> isTerminalExecutionStatus (MdStatus (snd kv))"

definition mark_failed :: "go_time \<Rightarrow> string \<Rightarrow> string \<times> MetaDataValue \<Rightarrow> string \<times> MetaDataValue" where
  "mark_failed now errorMsg kv =
     (if unfinished kv then
        (fst kv,
         (snd kv)\<lparr>MdStatus := StatusFailed, MdErrorMsg := [errorMsg],
                  MdEndTime := (if MdEndTime (snd kv) = no_time then now else MdEndTime (snd kv))\<rparr>)
      else kv)"

definition MarkUnfinishedExecutionsAsFailed ::
  "store_env \<Rightarrow> string \<Rightarrow> replay_store \<Rightarrow> int \<times> replay_store" where
  "MarkUnfinishedExecutionsAsFailed env errorMsg s =
     (let updated = int (length (filter unfinished (metaMap (mst s))));
          s1 = s\<lparr>mst := (mst s)\<lparr>metaMap := map (mark_failed (now_at env) errorMsg) (metaMap (mst s))\<rparr>\<rparr>
      in (updated, if updated > 0 then flushLocked env (updateGlobalStatusLocked env s1) else s1))"

section \<open>Preparing a job\<close>

text \<open>
  The answers of the file system: whether the file is there (\<open>metaFile\<close> says so), and the errors of
  creating the directory, creating or opening the file, and reading it.
\<close>

record prepare_env = store_env +
  mkdir_error :: "go_error option"
  create_error :: "go_error option"
  open_error :: "go_error option"
  read_error :: "go_error option"

definition no_update :: meta_update where
  "no_update = \<lparr>UpStatus = '''', UpOffset = 0, UpRetry = 0, UpFileSize = 0, UpCurrentSize = 0,
                UpErrorMsg = ''''\<rparr>"

definition set_status :: "string \<Rightarrow> meta_update" where
  "set_status st = no_update\<lparr>UpStatus := st\<rparr>"

definition fresh_meta :: "go_time \<Rightarrow> Message \<Rightarrow> string \<Rightarrow> string \<Rightarrow> string \<Rightarrow> int \<Rightarrow> MetaDataValue" where
  "fresh_meta now input jobName name prefix retry =
     zero_meta\<lparr>MdFileName := name, MdKey := name, MdPrefix := prefix, MdRetry := retry,
               MdJobName := jobName, MdRequestId := RqRequestId input, MdStatus := StatusYetToProcess,
               MdTime := now\<rparr>"

definition add_file :: "store_env \<Rightarrow> Message \<Rightarrow> string \<Rightarrow> string \<Rightarrow> replay_store \<Rightarrow> replay_store" where
  "add_file env input jobName file s =
     (if file = '''' then s
      else let fileNameValue = path_Base file in
        AddToProcessList fileNameValue
          (AddMetaData (fresh_meta (now_at env) input jobName fileNameValue (path_Dir file) 1)
             fileNameValue s))"

definition needs_processing :: "MetaDataValue \<Rightarrow> bool" where
  "needs_processing d \<longleftrightarrow>
     \<not> go_contains (MdStatus d) StatusCompleted \<or> \<not> (MdRetry d > MaxRetry)"

definition resume_file :: "store_env \<Rightarrow> MetaDataValue \<Rightarrow> replay_store \<Rightarrow> replay_store" where
  "resume_file env d s =
     (if MdKey d = Global then s
      else if needs_processing d
      then UpdateMetaData env (MdKey d) (no_update\<lparr>UpRetry := 1\<rparr>) (AddToProcessList (MdKey d) s)
      else s)"

text \<open>The results of \<open>PreProcessMetaData\<close>: an error, whether to exit, and the exit code.\<close>

type_synonym prepared = "go_error option \<times> bool \<times> int"

definition prepare_end :: "store_env \<Rightarrow> replay_store \<Rightarrow> prepared \<times> replay_store" where
  "prepare_end env s =
     (if GetProcessList s = []
      then ((None, True, 0), UpdateMetaData env Global (set_status StatusCompleted) s)
      else ((None, False, -1), s))"

definition prepare_fresh :: "prepare_env \<Rightarrow> Message \<Rightarrow> string \<Rightarrow> replay_store \<Rightarrow> prepared \<times> replay_store" where
  "prepare_fresh env input jobName s =
     (case mkdir_error env of
        Some e \<Rightarrow> ((Some e, True, 1), s)
      | None \<Rightarrow>
        (case create_error env of
           Some e \<Rightarrow> ((Some e, True, 1), s)
         | None \<Rightarrow>
           (let s1 = s\<lparr>metaFile := BadFile ''unexpected end of JSON input''\<rparr>;
                s2 = AddMetaData (fresh_meta (now_at env) input jobName Global '''' 0) Global s1;
                s3 = fold (add_file (store_env.truncate env) input jobName) (RqFileName input) s2
            in prepare_end (store_env.truncate env)
                 (UpdateMetaData (store_env.truncate env) Global no_update s3))))"

text \<open>Decoding adds the entries of the file to the map that is there.\<close>

definition loadMetaMapFromJSON :: "meta_file \<Rightarrow> replay_store \<Rightarrow> go_error + replay_store" where
  "loadMetaMapFromJSON bytesData s =
     (case bytesData of
        NoFile \<Rightarrow> Inl ''unexpected end of JSON input''
      | BadFile e \<Rightarrow> Inl e
      | MetaFile m \<Rightarrow> Inr (fold (\<lambda>(k, v). set_meta k v) m s))"

definition prepare_resume :: "prepare_env \<Rightarrow> Message \<Rightarrow> replay_store \<Rightarrow> prepared \<times> replay_store" where
  "prepare_resume env input s =
     (case open_error env of
        Some e \<Rightarrow> ((Some e, True, 1), s)
      | None \<Rightarrow>
        (case read_error env of
           Some e \<Rightarrow> ((Some e, True, 1), s)
         | None \<Rightarrow>
           (case loadMetaMapFromJSON (metaFile s) s of
              Inl e \<Rightarrow> ((Some e, True, 1), s)
            | Inr s1 \<Rightarrow>
              (case GetMetaData Global s1 of
                 None \<Rightarrow> ((Some (''global metadata missing in '' @ metaFilePath (mst s1)), True, 1), s1)
               | Some g \<Rightarrow>
                 if MdStatus g = StatusCompleted then ((None, True, 0), s1)
                 else prepare_end (store_env.truncate env)
                   (fold (resume_file (store_env.truncate env))
                      (GetValuesOfMap (store_env.truncate env) s1) s1)))))"

definition PreProcessMetaData ::
  "prepare_env \<Rightarrow> Message \<Rightarrow> string \<Rightarrow> replay_store \<Rightarrow> prepared \<times> replay_store" where
  "PreProcessMetaData env input jobName s =
     (if metaFile s = NoFile then prepare_fresh env input jobName s else prepare_resume env input s)"

end
