(* ===== verification/Replay_Lines.thy ===== *)
theory Replay_Lines
  imports Replay_Store Open_Search
begin

text \<open>
  What the replay job sends for the lines of a file, \<open>internal/replay/processor\<close>: the raw log of a
  stored line (\<open>reader.go\<close>, \<open>model/unparsed_event.go\<close>), the headers of a message, the choice of the
  Kafka cluster (\<open>producer.go\<close>), the rows of a parquet file (\<open>parquet_scanner.go\<close>) and the messages
  salvaged from a truncated one (\<open>parquet_salvage.go\<close>).  \<open>parse\<close> is \<open>json.Unmarshal\<close> up to the value;
  decoding the value into a struct is modelled.  A byte is a \<open>char\<close>.
\<close>

section \<open>Decoding a value into a struct\<close>

definition json_kind :: "json \<Rightarrow> string" where
  "json_kind v = (case v of JNull \<Rightarrow> ''null'' | JBool _ \<Rightarrow> ''bool'' | JNum _ \<Rightarrow> ''number''
     | JStr _ \<Rightarrow> ''string'' | JArr _ \<Rightarrow> ''array'' | JObj _ \<Rightarrow> ''object'')"

definition field_type_error :: "json \<Rightarrow> string \<Rightarrow> string \<Rightarrow> string \<Rightarrow> go_error" where
  "field_type_error v st field ty =
     ''json: cannot unmarshal '' @ json_kind v @ '' into Go struct field '' @ st @ ''.'' @ field
     @ '' of type '' @ ty"

definition value_type_error :: "json \<Rightarrow> string \<Rightarrow> go_error" where
  "value_type_error v ty = ''json: cannot unmarshal '' @ json_kind v @ '' into Go value of type '' @ ty"

text \<open>
  The decoder goes on after a type error and returns the first one; \<open>first_error\<close> keeps it.  A key
  stands for a field when it is its name up to the case of letters.
\<close>

definition first_error :: "go_error option \<Rightarrow> go_error option \<Rightarrow> go_error option" where
  "first_error a b = (case a of None \<Rightarrow> b | Some e \<Rightarrow> Some e)"

definition decode_string :: "string \<Rightarrow> string \<Rightarrow> json \<Rightarrow> string \<Rightarrow> string \<times> go_error option" where
  "decode_string st field v old =
     (case v of JStr s \<Rightarrow> (s, None) | JNull \<Rightarrow> (old, None) | _ \<Rightarrow> (old, Some (field_type_error v st field ''string'')))"

record UnparsedNestedPayload =
  NpMsg :: string
  NpRawEvent :: string

record UnparsedStoredLine =
  SlRawEvent :: "UnparsedNestedPayload option"
  SlMessage :: string

definition decode_nested_field ::
  "string \<times> json \<Rightarrow> UnparsedNestedPayload \<times> go_error option \<Rightarrow> UnparsedNestedPayload \<times> go_error option" where
  "decode_nested_field kv acc =
     (case (kv, acc) of ((k, v), (d, e)) \<Rightarrow>
        if go_equal_fold k ''msg'' then
          (case decode_string ''UnparsedNestedPayload'' ''rawevent.msg'' v (NpMsg d) of
             (s, e') \<Rightarrow> (d\<lparr>NpMsg := s\<rparr>, first_error e e'))
        else if go_equal_fold k ''rawevent'' then
          (case decode_string ''UnparsedNestedPayload'' ''rawevent.rawevent'' v (NpRawEvent d) of
             (s, e') \<Rightarrow> (d\<lparr>NpRawEvent := s\<rparr>, first_error e e'))
        else (d, e))"

definition decode_nested ::
  "json \<Rightarrow> UnparsedNestedPayload option \<Rightarrow> UnparsedNestedPayload option \<times> go_error option" where
  "decode_nested v old =
     (let d = (case old of None \<Rightarrow> \<lparr>NpMsg = '''', NpRawEvent = ''''\<rparr> | Some d \<Rightarrow> d) in
      case v of
        JNull \<Rightarrow> (None, None)
      | JObj kvs \<Rightarrow> (case fold decode_nested_field kvs (d, None) of (d', e) \<Rightarrow> (Some d', e))
      | _ \<Rightarrow> (Some d, Some (field_type_error v ''UnparsedStoredLine'' ''rawevent'' ''model.UnparsedNestedPayload'')))"

definition decode_stored_field ::
  "string \<times> json \<Rightarrow> UnparsedStoredLine \<times> go_error option \<Rightarrow> UnparsedStoredLine \<times> go_error option" where
  "decode_stored_field kv acc =
     (case (kv, acc) of ((k, v), (d, e)) \<Rightarrow>
        if go_equal_fold k ''rawevent'' then
          (case decode_nested v (SlRawEvent d) of (n, e') \<Rightarrow> (d\<lparr>SlRawEvent := n\<rparr>, first_error e e'))
        else if go_equal_fold k ''msg'' then
          (case decode_string ''UnparsedStoredLine'' ''msg'' v (SlMessage d) of
             (s, e') \<Rightarrow> (d\<lparr>SlMessage := s\<rparr>, first_error e e'))
        else (d, e))"

definition decode_stored_line :: "json \<Rightarrow> go_error + UnparsedStoredLine" where
  "decode_stored_line v =
     (case v of
        JObj kvs \<Rightarrow>
          (case fold decode_stored_field kvs (\<lparr>SlRawEvent = None, SlMessage = ''''\<rparr>, None) of
             (d, None) \<Rightarrow> Inr d | (d, Some e) \<Rightarrow> Inl e)
      | JNull \<Rightarrow> Inr \<lparr>SlRawEvent = None, SlMessage = ''''\<rparr>
      | _ \<Rightarrow> Inl (value_type_error v ''model.UnparsedStoredLine''))"

definition unparsed_error :: "string \<Rightarrow> go_error" where
  "unparsed_error detail = ''failed to unmarshal Unparsed event to extract rawevent: '' @ detail"

definition ExtractUnparsedRawLog :: "(string \<Rightarrow> go_error + json) \<Rightarrow> string \<Rightarrow> go_error + string" where
  "ExtractUnparsedRawLog parse line =
     (let trimmed = go_trim_space line in
      if trimmed = '''' then Inl (unparsed_error ''line is empty'')
      else case (case parse trimmed of Inl e \<Rightarrow> Inl e | Inr v \<Rightarrow> decode_stored_line v) of
        Inl e \<Rightarrow> Inl (unparsed_error e)
      | Inr stored \<Rightarrow>
        (case SlRawEvent stored of
           None \<Rightarrow>
             if SlMessage stored = '''' then Inl (unparsed_error ''rawevent or msg is missing or empty'')
             else Inr (SlMessage stored)
         | Some nested \<Rightarrow>
             if NpMsg nested \<noteq> '''' then Inr (NpMsg nested)
             else if NpRawEvent nested \<noteq> '''' then Inr (NpRawEvent nested)
             else Inl (unparsed_error ''nested msg or rawevent is missing or empty'')))"

text \<open>
  The field \<open>rawevent\<close> of \<open>databahnParsedLine\<close> is the text of its value, which is decoded again: here it
  is the value; \<open>None\<close> when no key names the field.
\<close>

definition decode_rawevent :: "json \<Rightarrow> go_error + json option" where
  "decode_rawevent v =
     (case v of
        JObj kvs \<Rightarrow> Inr (fold (\<lambda>(k, x) old. if go_equal_fold k ''rawevent'' then Some x else old) kvs None)
      | JNull \<Rightarrow> Inr None
      | _ \<Rightarrow> Inl (value_type_error v ''processor.databahnParsedLine''))"

definition decode_msg_object :: "json \<Rightarrow> string option" where
  "decode_msg_object v =
     (case v of
        JObj kvs \<Rightarrow>
          (case fold (\<lambda>(k, x) (m, e).
               if go_equal_fold k ''msg''
               then (case decode_string ''databahnRawEventObject'' ''msg'' x m of (s, e') \<Rightarrow> (s, first_error e e'))
               else (m, e)) kvs ('''', None) of
             (m, None) \<Rightarrow> Some m | (m, Some e) \<Rightarrow> None)
      | JNull \<Rightarrow> Some ''''
      | _ \<Rightarrow> None)"

definition extract_error :: "string \<Rightarrow> string \<Rightarrow> go_error" where
  "extract_error eventKind detail =
     ''failed to unmarshal '' @ eventKind @ '' event to extract rawevent: '' @ detail"

definition extractRawEvent :: "(string \<Rightarrow> go_error + json) \<Rightarrow> string \<Rightarrow> string \<Rightarrow> go_error + string" where
  "extractRawEvent parse line eventKind =
     (case (case parse line of Inl e \<Rightarrow> Inl e | Inr v \<Rightarrow> decode_rawevent v) of
        Inl e \<Rightarrow> Inl (extract_error eventKind e)
      | Inr None \<Rightarrow> Inl (extract_error eventKind ''rawevent is missing or empty'')
      | Inr (Some v) \<Rightarrow>
        (case v of
           JStr s \<Rightarrow> if s = '''' then Inl (extract_error eventKind ''rawevent is missing or empty'') else Inr s
         | JNull \<Rightarrow> Inl (extract_error eventKind ''rawevent is missing or empty'')
         | _ \<Rightarrow>
           (case decode_msg_object v of
              Some m \<Rightarrow>
                if m \<noteq> '''' then Inr m
                else Inl (extract_error eventKind ''rawevent must be a string or an object with msg'')
            | None \<Rightarrow> Inl (extract_error eventKind ''rawevent must be a string or an object with msg''))))"

section \<open>Replay types\<close>

definition matchReplayType :: "string \<Rightarrow> string \<Rightarrow> bool" where
  "matchReplayType replayType expected \<longleftrightarrow> go_equal_fold (go_trim_space replayType) expected"

definition replayUsesInputKafka :: "string \<Rightarrow> bool" where
  "replayUsesInputKafka replayType \<longleftrightarrow>
     go_trim_space replayType = '''' \<or> matchReplayType replayType ''CUSTOM''"

definition replayDataBrokers :: "(string \<Rightarrow> string) \<Rightarrow> string \<Rightarrow> string" where
  "replayDataBrokers env replayType =
     (if replayUsesInputKafka replayType then GetEnvOrDefault env ''KafkaInputBootstrapServers'' ''''
      else GetEnvOrDefault env ''KafkaProcessingBootstrapServers'' '''')"

definition ReplayTypeFromJobType :: "string \<Rightarrow> string" where
  "ReplayTypeFromJobType jobType =
     (let t = go_to_upper (go_trim_space jobType) in
      if t = ''UNPARSED'' then ''unparsed''
      else if t = ''UNDELIVERED'' then ''undelivered''
      else if t = ''CUSTOM'' then ''custom''
      else if go_trim_space jobType = '''' then ''custom''
      else ''none'')"

definition getRawDataFromUnparsedObject :: "(string \<Rightarrow> go_error + json) \<Rightarrow> string \<Rightarrow> go_error + string" where
  "getRawDataFromUnparsedObject parse line = ExtractUnparsedRawLog parse line"

definition getRawDataFromDataBahnParsedObject ::
  "(string \<Rightarrow> go_error + json) \<Rightarrow> string \<Rightarrow> go_error + string" where
  "getRawDataFromDataBahnParsedObject parse line = extractRawEvent parse line ''Parsed''"

definition prepareReplayLine ::
  "(string \<Rightarrow> go_error + json) \<Rightarrow> string \<Rightarrow> Message \<Rightarrow> bool \<Rightarrow> go_error + string" where
  "prepareReplayLine parse line req isParquetFile =
     (let forwardDataType = map_get (RqAdditionalConfig req) ''forward_data_type'' in
      if matchReplayType (RqReplayType req) ''UNDELIVERED'' then Inr line
      else if matchReplayType (RqReplayType req) ''UNPARSED'' then getRawDataFromUnparsedObject parse line
      else if matchReplayType (RqReplayType req) ''CUSTOM'' \<or> go_trim_space (RqReplayType req) = '''' then
        (if isParquetFile then Inr line
         else if go_equal_fold forwardDataType ''parsed'' then getRawDataFromDataBahnParsedObject parse line
         else Inr line)
      else if isParquetFile then Inr line
      else if go_equal_fold forwardDataType ''parsed'' then getRawDataFromDataBahnParsedObject parse line
      else Inr line)"

section \<open>Headers and metric tags\<close>

text \<open>The header names of the vendored \<open>common-utils/constants\<close>.\<close>

record header_names =
  hnDeviceType :: string
  hnDeviceVendor :: string
  hnLogType :: string
  hnTenantId :: string
  hnEventSourceId :: string
  hnEdgeId :: string
  hnFleetId :: string
  hnConnectorId :: string
  hnEventId :: string
  hnEdgeTimestamp :: string
  hnPipelineDone :: string
  hnPipelineNext :: string
  hnSourceName :: string
  hnDestinationId :: string
  hnPipelineId :: string
  hnDataReplayStage :: string

type_synonym headers = "(string \<times> string) list"

definition GetHeader :: "header_names \<Rightarrow> string \<Rightarrow> int \<Rightarrow> Message \<Rightarrow> headers" where
  "GetHeader hn eventId nowMillis request =
     (let undelivered = matchReplayType (RqReplayType request) ''UNDELIVERED'';
          extra = map_get (RqAdditionalHeaders request);
          pipelineDone = (if undelivered then extra (hnPipelineDone hn) else hnDataReplayStage hn);
          pipelineNext = (if undelivered then extra (hnPipelineNext hn) else '''');
          destinationId = (if undelivered then extra (hnDestinationId hn) else '''');
          pipelineId = (if undelivered then extra (hnPipelineId hn) else '''')
      in [(hnDeviceType hn, RqDeviceType request), (hnDeviceVendor hn, RqDeviceVendor request),
          (hnLogType hn, RqLogType request), (hnTenantId hn, RqTenantId request),
          (hnEventSourceId hn, RqSource request), (hnEdgeId hn, ''00000000-0000-0000-0000-000000000000''),
          (hnFleetId hn, RqFleetId request), (hnConnectorId hn, RqConnectId request),
          (hnEventId hn, eventId), (hnEdgeTimestamp hn, go_itoa nowMillis),
          (''db_component_name'', ''replay_data''), (hnPipelineDone hn, pipelineDone),
          (hnPipelineNext hn, pipelineNext), (hnSourceName hn, RqSourceName request),
          (hnDestinationId hn, destinationId), (hnPipelineId hn, pipelineId),
          (''db_traffic_type'', ''replay''),
          (''db_replay_type'', ReplayTypeFromJobType (RqReplayType request))]
         @ (if RqRequestId request \<noteq> '''' then [(''db_replay_job_id'', RqRequestId request)] else []))"

definition ReplayMetricTags :: "header_names \<Rightarrow> Message \<Rightarrow> headers" where
  "ReplayMetricTags hn req =
     [(''db_traffic_type'', ''replay''),
      (''db_replay_type'', ReplayTypeFromJobType (RqReplayType req)),
      (hnTenantId hn, RqTenantId req), (hnEventSourceId hn, RqSource req)]
     @ (if RqRequestId req \<noteq> '''' then [(''db_replay_job_id'', RqRequestId req)] else [])"

section \<open>Salvaging a truncated parquet file\<close>

definition zstdFrameMagic :: "char list" where
  "zstdFrameMagic = [CHR 0x28, CHR 0xB5, CHR 0x2F, CHR 0xFD]"

definition ErrTruncatedParquet :: go_error where
  "ErrTruncatedParquet = ''truncated parquet file''"

text \<open>An error of the parquet reader: its message and whether it wraps \<open>ErrTruncatedParquet\<close>.\<close>

definition isTruncatedParquetError :: "go_error \<times> bool \<Rightarrow> bool" where
  "isTruncatedParquetError err \<longleftrightarrow>
     (let msg = go_to_lower (fst err) in
      (go_contains msg ''seek'' \<and> go_contains msg ''invalid argument'') \<or>
      (go_contains msg ''eof'' \<and> go_contains msg ''footer'') \<or> snd err)"

abbreviation (input) byte :: "char \<Rightarrow> nat" where "byte c \<equiv> of_char c"

definition cont_byte :: "nat \<Rightarrow> nat \<Rightarrow> char \<Rightarrow> bool" where
  "cont_byte lo hi c \<longleftrightarrow> lo \<le> byte c \<and> byte c \<le> hi"

text \<open>\<open>utf8.Valid\<close>: the table of accepted second bytes of the standard library.\<close>

definition utf8_width :: "char \<Rightarrow> (nat \<times> nat \<times> nat) option" where
  "utf8_width c =
     (let n = byte c in
      if n < 0x80 then Some (1, 0, 0)
      else if 0xC2 \<le> n \<and> n \<le> 0xDF then Some (2, 0x80, 0xBF)
      else if n = 0xE0 then Some (3, 0xA0, 0xBF)
      else if n = 0xED then Some (3, 0x80, 0x9F)
      else if 0xE1 \<le> n \<and> n \<le> 0xEF then Some (3, 0x80, 0xBF)
      else if n = 0xF0 then Some (4, 0x90, 0xBF)
      else if 0xF1 \<le> n \<and> n \<le> 0xF3 then Some (4, 0x80, 0xBF)
      else if n = 0xF4 then Some (4, 0x80, 0x8F)
      else None)"

function utf8_valid :: "char list \<Rightarrow> bool" where
  "utf8_valid [] = True"
| "utf8_valid (c # cs) =
     (case utf8_width c of
        None \<Rightarrow> False
      | Some (w, lo, hi) \<Rightarrow>
        w - 1 \<le> length cs \<and>
        list_all (cont_byte 0x80 0xBF) (take (w - 1) cs) \<and>
        (1 < w \<longrightarrow> cont_byte lo hi (hd cs)) \<and>
        utf8_valid (drop (w - 1) cs))"
  by pat_completeness auto
termination by (relation "measure length") auto

text \<open>
  \<open>plainTextRatio\<close> divides in floating point; here it is the exact quotient.  The comparison with
  \<open>0.88\<close> is the same: for the lengths up to \<open>2_000_000\<close> a quotient other than 22/25 is further from it
  than the rounding error.
\<close>

definition plain_byte :: "char \<Rightarrow> bool" where
  "plain_byte c \<longleftrightarrow> (let n = byte c in 0x20 \<le> n \<and> n \<le> 0x7E \<or> n = 10 \<or> n = 13 \<or> n = 9)"

definition plainTextRatio :: "char list \<Rightarrow> rat" where
  "plainTextRatio b =
     (if b = [] then 0 else of_nat (length (filter plain_byte b)) / of_nat (length b))"

definition le32 :: "char list \<Rightarrow> nat" where
  "le32 b = byte (b ! 0) + 256 * byte (b ! 1) + 65536 * byte (b ! 2) + 16777216 * byte (b ! 3)"

function extractPlainUTF8Messages :: "char list \<Rightarrow> char list list" where
  "extractPlainUTF8Messages page =
     (if length page \<le> 4 then []
      else let ln = le32 page; payload = take ln (drop 4 page) in
        if ln < 8 \<or> ln > 2000000 \<or> 4 + ln > length page then extractPlainUTF8Messages (tl page)
        else if \<not> utf8_valid payload then extractPlainUTF8Messages (tl page)
        else if plainTextRatio payload < 88 / 100 then extractPlainUTF8Messages (tl page)
        else payload # extractPlainUTF8Messages (drop (4 + ln) page))"
  by pat_completeness auto
termination by (relation "measure length") auto

declare extractPlainUTF8Messages.simps [simp del]

text \<open>\<open>decodeAll\<close> is the decoder of the zstd package on the rest of the file.\<close>

fun salvage_frames :: "(char list \<Rightarrow> go_error + char list) \<Rightarrow> char list \<Rightarrow> char list list" where
  "salvage_frames decodeAll [] = []"
| "salvage_frames decodeAll (c # cs) =
     (if length (c # cs) \<le> 4 then []
      else (if take 4 (c # cs) \<noteq> zstdFrameMagic then []
            else case decodeAll (c # cs) of
              Inl e \<Rightarrow> []
            | Inr decompressed \<Rightarrow>
                if length decompressed < 8 then [] else extractPlainUTF8Messages decompressed)
           @ salvage_frames decodeAll cs)"

definition SalvageParquetFile ::
  "go_error option \<Rightarrow> (char list \<Rightarrow> go_error + char list) \<Rightarrow> char list \<Rightarrow> go_error + char list list" where
  "SalvageParquetFile newReader decodeAll data =
     (if length data < 8 then Inl ErrTruncatedParquet
      else case newReader of Some e \<Rightarrow> Inl e | None \<Rightarrow> Inr (salvage_frames decodeAll data))"

section \<open>The parquet scanner\<close>

text \<open>
  \<open>psRead parsed n\<close> is the reader's answer for row \<open>n\<close>: the rows it read, each the value of the column
  \<open>rawevent\<close> (parsed) or \<open>message\<close>.
\<close>

record parquet_reader =
  prNumRows :: int
  prRead :: "bool \<Rightarrow> nat \<Rightarrow> go_error + string option list"

record ParquetScanner =
  psReader :: "parquet_reader option"
  psData :: string
  psErr :: "go_error option"
  psCurrentRow :: int
  psForwardDataType :: string
  psSalvageMode :: bool
  psSalvageMessages :: "string list"
  psSalvageIndex :: nat

record parquet_open =
  poReader :: "(go_error \<times> bool) + parquet_reader"
  poBytes :: "go_error + char list"
  poNewDecoder :: "go_error option"
  poDecodeAll :: "char list \<Rightarrow> go_error + char list"

definition NewParquetScanner :: "parquet_open \<Rightarrow> string \<Rightarrow> string \<Rightarrow> go_error + ParquetScanner" where
  "NewParquetScanner f fileName forwardDataType =
     (let scanner = \<lparr>psReader = None, psData = '''', psErr = None, psCurrentRow = 0,
                     psForwardDataType = forwardDataType, psSalvageMode = False, psSalvageMessages = [],
                     psSalvageIndex = 0\<rparr> in
      case poReader f of
        Inr r \<Rightarrow> Inr (scanner\<lparr>psReader := Some r\<rparr>)
      | Inl err \<Rightarrow>
        if \<not> isTruncatedParquetError err then Inl (fst err)
        else let failure = ''truncated parquet '' @ fileName @ '': '' @ fst err in
          (case poBytes f of
             Inl readErr \<Rightarrow> Inl (failure @ '' (re-read: '' @ readErr @ '')'')
           | Inr data \<Rightarrow>
             (case SalvageParquetFile (poNewDecoder f) (poDecodeAll f) data of
                Inl salvErr \<Rightarrow> Inl (failure @ '' (salvage: '' @ salvErr @ '')'')
              | Inr messages \<Rightarrow>
                if messages = [] then Inl (failure @ '' (salvage: no rows recovered)'')
                else Inr (scanner\<lparr>psSalvageMode := True, psSalvageMessages := messages\<rparr>))))"

definition getRowData :: "ParquetScanner \<Rightarrow> parquet_reader \<Rightarrow> go_error + string" where
  "getRowData s r =
     (case prRead r (go_equal_fold (psForwardDataType s) ''parsed'') (nat (psCurrentRow s)) of
        Inl e \<Rightarrow> Inl e
      | Inr [] \<Rightarrow> Inr ''''
      | Inr (None # _) \<Rightarrow> Inr ''''
      | Inr (Some v # _) \<Rightarrow> Inr v)"

definition Advance :: "ParquetScanner \<Rightarrow> bool \<times> ParquetScanner" where
  "Advance s =
     (if psSalvageMode s then
        (if psSalvageIndex s \<ge> length (psSalvageMessages s) then (False, s)
         else (True, s\<lparr>psData := psSalvageMessages s ! psSalvageIndex s,
                       psSalvageIndex := psSalvageIndex s + 1, psCurrentRow := psCurrentRow s + 1\<rparr>))
      else case psReader s of
        None \<Rightarrow> (False, s)
      | Some r \<Rightarrow>
        if psCurrentRow s \<ge> prNumRows r then (False, s)
        else case getRowData s r of
          Inl e \<Rightarrow> (False, s\<lparr>psErr := Some e\<rparr>)
        | Inr rowData \<Rightarrow> (True, s\<lparr>psCurrentRow := psCurrentRow s + 1, psData := rowData\<rparr>))"

text \<open>The rows that are left bound the loops of \<open>Scan\<close>.\<close>

definition rows_left :: "ParquetScanner \<Rightarrow> nat" where
  "rows_left s =
     (if psSalvageMode s then length (psSalvageMessages s) - psSalvageIndex s
      else case psReader s of None \<Rightarrow> 0 | Some r \<Rightarrow> nat (prNumRows r - psCurrentRow s))"

lemma Advance_rows_left: "Advance s = (True, s') \<Longrightarrow> rows_left s' < rows_left s"
  by (auto simp: Advance_def rows_left_def split: if_splits option.splits sum.splits)

function Scan_salvage :: "ParquetScanner \<Rightarrow> bool \<times> ParquetScanner" where
  "Scan_salvage s =
     (if psSalvageIndex s < length (psSalvageMessages s) then
        (let msg = psSalvageMessages s ! psSalvageIndex s;
             s1 = s\<lparr>psSalvageIndex := psSalvageIndex s + 1\<rparr>
         in if msg = '''' then Scan_salvage s1 else (True, s1\<lparr>psData := msg\<rparr>))
      else (False, s))"
  by pat_completeness auto
termination by (relation "measure (\<lambda>s. length (psSalvageMessages s) - psSalvageIndex s)") auto

function Scan_rows :: "ParquetScanner \<Rightarrow> bool \<times> ParquetScanner" where
  "Scan_rows s =
     (case Advance s of
        (False, s') \<Rightarrow> (False, s')
      | (True, s') \<Rightarrow> if psData s' \<noteq> '''' then (True, s') else Scan_rows s')"
  by pat_completeness auto
termination by (relation "measure rows_left") (auto dest: sym Advance_rows_left)

declare Scan_salvage.simps [simp del] Scan_rows.simps [simp del]

definition Scan :: "ParquetScanner \<Rightarrow> bool \<times> ParquetScanner" where
  "Scan s = (if psSalvageMode s then Scan_salvage s else Scan_rows s)"

definition NumRows :: "ParquetScanner \<Rightarrow> int" where
  "NumRows s = (if psSalvageMode s then int (length (psSalvageMessages s))
                else case psReader s of None \<Rightarrow> 0 | Some r \<Rightarrow> prNumRows r)"

end
