(* ===== verification/Replay_Run.thy ===== *)
theory Replay_Run
  imports Replay_Lines
begin

text \<open>
  The replay job of \<open>internal/replay/jobcmd/executor.go\<close>, with the download of a file
  (\<open>source/dbaws\<close>) and its replay (\<open>processor/reader.go\<close>).  A goroutine is a program \<open>'a io\<close>: it ends
  with a value, or does an operation on the shared state or outside and goes on with the answer.  Each
  operation is one step: the methods of the store and of the connection cache hold a mutex, the others
  are atomic.  The job is a system of goroutines \<open>threads\<close>: number 0 runs \<open>Process\<close>, number 1 the
  shutdown hook, the others one file each; \<open>replay_step\<close> lets any of them go on that is not blocked.
\<close>

section \<open>Programs\<close>

datatype replay_call =
    OpenLocal string | Mkdir string | Stat string | IsDir string | CreateLocal string | WriteLocal string
  | LoadAwsConfig string string | ParseUrl string | S3Download string string
  | AzureConnectString string | AzureCredential string string | AzureService string
  | AzureDelegationKey go_time go_time | AzureSign go_time go_time | AzureSasClient string
  | AzurePrincipalClient string | AzureDownload string string string | AzureCopy string
  | CreateProducer string | Throttle | Metric string headers | Send headers string string
  | FlushProducer int | RemoveLocal string
  | PublishAck string string string "MetaDataValue list"
  | ShutdownAlert string string string

datatype replay_op =
    OpInterrupted | OpSetInterrupted
  | OpGetMeta string | OpUpdate string meta_update | OpStamp string bool bool
  | OpReadAll | OpGlobalStatus | OpMarkUnfinished string | OpFlush
  | OpFresh | OpCacheGet string | OpCacheSet string
  | OpCall replay_call | OpSize string | OpLines string bool | OpParquet string
  | OpSecrets string string
  | OpRegister bool | OpRegistered | OpWgAdd int | OpWgDone | OpWgWait
  | OpAcquire int | OpRelease | OpSpawn Message nat string
  | OpSignal | OpNotify | OpAwaitNotify

record secret_data =
  SdErrors :: "string list"
  SdSecrets :: "(string \<times> string) list list"

text \<open>\<open>RLines\<close>: the tokens the scanner yields and the error that \<open>Err\<close> has afterwards.\<close>

datatype reply =
    RUnit
  | RBool bool
  | RMeta "MetaDataValue option"
  | RAll "MetaDataValue list"
  | RInt int
  | RError "go_error option"
  | RFresh string go_time
  | RLines "go_error + string list \<times> go_error option"
  | RParquet parquet_open
  | RSecrets "go_error + secret_data list"

datatype 'a io = Ret 'a | Do replay_op "reply \<Rightarrow> 'a io"

primrec bind_io :: "'a io \<Rightarrow> ('a \<Rightarrow> 'b io) \<Rightarrow> 'b io" where
  "bind_io (Ret x) f = f x"
| "bind_io (Do a k) f = Do a (\<lambda>r. bind_io (k r) f)"

text \<open>An answer read at its type.\<close>

definition act :: "replay_op \<Rightarrow> 'a io \<Rightarrow> 'a io" where
  "act a p = Do a (\<lambda>_. p)"

definition answered_true :: "reply \<Rightarrow> bool" where
  "answered_true r = (case r of RBool b \<Rightarrow> b | _ \<Rightarrow> False)"

definition interrupted_then :: "'a io \<Rightarrow> 'a io \<Rightarrow> 'a io" where
  "interrupted_then p q = Do OpInterrupted (\<lambda>r. if answered_true r then p else q)"

definition ask_bool :: "replay_op \<Rightarrow> (bool \<Rightarrow> 'a io) \<Rightarrow> 'a io" where
  "ask_bool a k = Do a (\<lambda>r. k (answered_true r))"

definition ask_meta :: "string \<Rightarrow> (MetaDataValue option \<Rightarrow> 'a io) \<Rightarrow> 'a io" where
  "ask_meta key k = Do (OpGetMeta key) (\<lambda>r. k (case r of RMeta m \<Rightarrow> m | _ \<Rightarrow> None))"

definition ask_call :: "replay_call \<Rightarrow> (go_error option \<Rightarrow> 'a io) \<Rightarrow> 'a io" where
  "ask_call c k = Do (OpCall c) (\<lambda>r. k (case r of RError e \<Rightarrow> e | _ \<Rightarrow> None))"

definition ask_int :: "replay_op \<Rightarrow> (int \<Rightarrow> 'a io) \<Rightarrow> 'a io" where
  "ask_int a k = Do a (\<lambda>r. k (case r of RInt n \<Rightarrow> n | _ \<Rightarrow> 0))"

definition fresh_reply :: "reply \<Rightarrow> string \<times> go_time" where
  "fresh_reply r = (case r of RFresh u t \<Rightarrow> (u, t) | _ \<Rightarrow> ('''', 0))"

definition ask_fresh :: "(string \<Rightarrow> go_time \<Rightarrow> 'a io) \<Rightarrow> 'a io" where
  "ask_fresh k = Do OpFresh (\<lambda>r. k (fst (fresh_reply r)) (snd (fresh_reply r)))"

definition lines_reply :: "reply \<Rightarrow> go_error + string list \<times> go_error option" where
  "lines_reply r = (case r of RLines l \<Rightarrow> l | _ \<Rightarrow> Inr ([], None))"

definition ask_all :: "(MetaDataValue list \<Rightarrow> 'a io) \<Rightarrow> 'a io" where
  "ask_all k = Do OpReadAll (\<lambda>r. k (case r of RAll vs \<Rightarrow> vs | _ \<Rightarrow> []))"

definition ask_secrets :: "string \<Rightarrow> string \<Rightarrow> (go_error + secret_data list \<Rightarrow> 'a io) \<Rightarrow> 'a io" where
  "ask_secrets tenant key k = Do (OpSecrets tenant key) (\<lambda>r. k (case r of RSecrets x \<Rightarrow> x | _ \<Rightarrow> Inr []))"

text \<open>What the programs read of their surroundings: settings and functions of other packages.\<close>

record replay_conf =
  rcEnv :: "string \<Rightarrow> string"
  rcParse :: "string \<Rightarrow> go_error + json"
  rcHeaderNames :: header_names
  rcTopicName :: "string \<Rightarrow> string"

section \<open>Connections and downloads\<close>

subsection \<open>The connection cache\<close>

record 'v FiFoCache =
  Keys :: "string list"
  Values :: "(string \<times> 'v) list"

definition InitCache :: "'v FiFoCache" where
  "InitCache = \<lparr>Keys = [], Values = []\<rparr>"

definition cache_Set :: "string \<Rightarrow> 'v \<Rightarrow> 'v FiFoCache \<Rightarrow> 'v FiFoCache" where
  "cache_Set key v fc =
     (let fc1 = (if length (Keys fc) \<ge> 10
                 then fc\<lparr>Values := AList.delete (hd (Keys fc)) (Values fc), Keys := tl (Keys fc)\<rparr> else fc);
          fc2 = (if map_of (Values fc1) key = None then fc1\<lparr>Keys := Keys fc1 @ [key]\<rparr> else fc1)
      in fc2\<lparr>Values := AList.update key v (Values fc2)\<rparr>)"

definition cache_Get :: "string \<Rightarrow> 'v FiFoCache \<Rightarrow> 'v option" where
  "cache_Get key fc = map_of (Values fc) key"

definition cache_Delete :: "string \<Rightarrow> 'v FiFoCache \<Rightarrow> 'v FiFoCache" where
  "cache_Delete key fc = fc\<lparr>Values := AList.delete key (Values fc)\<rparr>"

definition cache_Len :: "'v FiFoCache \<Rightarrow> nat" where
  "cache_Len fc = length (Keys fc)"

subsection \<open>Amazon S3\<close>

text \<open>The client is created from a loaded configuration; a custom endpoint has to be a URL.\<close>

definition createAwsConnection :: "Message \<Rightarrow> go_error option io" where
  "createAwsConnection input =
     (let config = map_get (RqAdditionalConfig input);
          endpoint = go_trim_space (config ''url'');
          client = (if endpoint \<noteq> '''' then
                      ask_call (ParseUrl endpoint) (\<lambda>err.
                        Ret (case err of Some e \<Rightarrow> Some (''invalid endpoint URL: '' @ e) | None \<Rightarrow> None))
                    else Ret None)
      in if config ''auth_type'' = ''role_based'' then
           ask_call (LoadAwsConfig ''base'' '''') (\<lambda>err.
             case err of
               Some e \<Rightarrow> Ret (Some e)
             | None \<Rightarrow>
               ask_call (LoadAwsConfig ''role'' (config ''role_arn'')) (\<lambda>err.
                 case err of
                   Some e \<Rightarrow> Ret (Some (''error while creating aws session using roleArn: '' @ e))
                 | None \<Rightarrow> client))
         else
           ask_call (LoadAwsConfig ''keys'' (config ''access_key_id'')) (\<lambda>err.
             case err of
               Some e \<Rightarrow> Ret (Some (''error while creating aws session using access keys : '' @ e))
             | None \<Rightarrow> client))"

definition getOrCreateS3Connection :: "Message \<Rightarrow> go_error option io" where
  "getOrCreateS3Connection input =
     ask_bool (OpCacheGet (RqAccessKeyID input)) (\<lambda>exists.
       if exists then Ret None
       else bind_io (createAwsConnection input) (\<lambda>err.
         case err of
           Some e \<Rightarrow> Ret (Some e)
         | None \<Rightarrow> act (OpCacheSet (RqAccessKeyID input)) (Ret None)))"

text \<open>\<open>os.IsExist\<close> on the text of a path error.\<close>

definition is_exist :: "go_error \<Rightarrow> bool" where
  "is_exist e \<longleftrightarrow> go_has_suffix e ''file exists'' \<or> go_has_suffix e ''directory not empty''"

definition CreateDirIfNotExist :: "string \<Rightarrow> go_error option io" where
  "CreateDirIfNotExist dirName =
     ask_call (Mkdir dirName) (\<lambda>err.
       case err of
         None \<Rightarrow> Ret None
       | Some e \<Rightarrow>
         if is_exist e then
           ask_call (Stat dirName) (\<lambda>err.
             case err of
               Some e \<Rightarrow> Ret (Some e)
             | None \<Rightarrow> ask_call (IsDir dirName) (\<lambda>err.
                 Ret (case err of None \<Rightarrow> None | Some _ \<Rightarrow> Some ''path exists but is not a directory'')))
         else Ret (Some e))"

definition try_io :: "go_error option io \<Rightarrow> go_error option io \<Rightarrow> go_error option io" where
  "try_io p q = bind_io p (\<lambda>err. case err of Some e \<Rightarrow> Ret (Some e) | None \<Rightarrow> q)"

definition downloadFileFromS3 :: "string \<Rightarrow> Message \<Rightarrow> string \<Rightarrow> go_error option io" where
  "downloadFileFromS3 dir input fileName =
     ask_meta fileName (\<lambda>metaMap.
       case metaMap of
         None \<Rightarrow> Ret (Some (''metadata not found for file '' @ fileName))
       | Some m \<Rightarrow>
         let objectKey = path_Join [MdPrefix m, fileName]; path = path_Join [dir, fileName] in
         try_io (ask_call (S3Download (RqBucketName input) objectKey) Ret)
           (try_io (CreateDirIfNotExist dir)
             (try_io (ask_call (CreateLocal path) Ret) (ask_call (WriteLocal path) Ret))))"

subsection \<open>Azure Blob Storage\<close>

definition userDelegatedSASTokenExpiryDuration :: "(string \<Rightarrow> string) \<Rightarrow> duration" where
  "userDelegatedSASTokenExpiryDuration env =
     wrap64 (GetEnvInt env ''USER_DELEGATED_SAS_TOKEN_EXPIRY_MINUTES'' (1 * 24 * 60) * Minute)"

definition userDelegationSasClockSkew :: "(string \<Rightarrow> string) \<Rightarrow> duration" where
  "userDelegationSasClockSkew env =
     (let minutes = GetEnvInt env ''USER_DELEGATED_SAS_CLOCK_SKEW_MINUTES'' 5;
          minutes = (if minutes < 0 then 5 else minutes)
      in wrap64 (minutes * Minute))"

definition wrap_failure :: "string \<Rightarrow> go_error option \<Rightarrow> go_error option" where
  "wrap_failure msg err = map_option (\<lambda>e. msg @ '': '' @ e) err"

definition azure_url :: "string \<Rightarrow> string" where
  "azure_url accountName = ''https://'' @ accountName @ ''.blob.core.windows.net/''"

definition getClientWithUserDelegatedSAS ::
  "(string \<Rightarrow> string) \<Rightarrow> (string \<times> string) list \<Rightarrow> go_error option io" where
  "getClientWithUserDelegatedSAS env config =
     (let accountName = map_get config ''azure_blob_storage_account_name'';
          tenantId = map_get config ''azure_blob_tenant_id'';
          clientId = map_get config ''azure_blob_client_id'';
          clientSecret = map_get config ''azure_blob_client_secret'';
          containerName = map_get config ''azure_blob_container'' in
      if accountName = '''' \<or> tenantId = '''' \<or> clientId = '''' \<or> clientSecret = '''' \<or> containerName = ''''
      then Ret (Some ''missing required Azure Blob credentials for AUTH_USER_DELEGATED_SAS_KEY authentication'')
      else
        try_io (ask_call (AzureCredential tenantId clientId)
                  (\<lambda>e. Ret (wrap_failure ''failed to create Azure AD credential'' e)))
       (try_io (ask_call (AzureService (azure_url accountName))
                  (\<lambda>e. Ret (wrap_failure ''failed to create Azure Blob service client'' e)))
         (ask_fresh (\<lambda>_ now.
           let keyStart = now - userDelegationSasClockSkew env;
               keyExpiry = now + userDelegatedSASTokenExpiryDuration env in
           try_io (ask_call (AzureDelegationKey keyStart keyExpiry)
                     (\<lambda>e. Ret (wrap_failure ''failed to get user delegation credential'' e)))
          (try_io (ask_call (AzureSign keyStart keyExpiry)
                     (\<lambda>e. Ret (wrap_failure ''failed to sign SAS with user delegation'' e)))
            (ask_call (AzureSasClient (azure_url accountName))
               (\<lambda>e. Ret (wrap_failure ''failed to create Azure Blob client with SAS token'' e))))))))"

definition getClientWithServicePrincipal :: "(string \<times> string) list \<Rightarrow> go_error option io" where
  "getClientWithServicePrincipal config =
     (let accountName = map_get config ''azure_blob_storage_account_name'';
          tenantId = map_get config ''azure_blob_tenant_id'';
          clientId = map_get config ''azure_blob_client_id'';
          clientSecret = map_get config ''azure_blob_client_secret'' in
      if accountName = '''' \<or> tenantId = '''' \<or> clientId = '''' \<or> clientSecret = ''''
      then Ret (Some ''missing required Azure Blob credentials for AUTH_SERVICE_PRINCIPAL authentication'')
      else
        try_io (ask_call (AzureCredential tenantId clientId)
                  (\<lambda>e. Ret (wrap_failure ''failed to create Azure AD credential'' e)))
          (ask_call (AzurePrincipalClient (azure_url accountName))
             (\<lambda>e. Ret (wrap_failure ''failed to create Azure Blob service client'' e))))"

definition azure_auth_type :: "(string \<times> string) list \<Rightarrow> string" where
  "azure_auth_type config =
     (let authType = map_get config ''azure_blob_auth_type'' in
      if authType = '''' \<and> map_get config ''azure_blob_storage_account_connection_string'' \<noteq> ''''
      then ''AUTH_CONNECTION_STRING'' else authType)"

definition GetAzureBlobClient ::
  "(string \<Rightarrow> string) \<Rightarrow> (string \<times> string) list \<Rightarrow> go_error option io" where
  "GetAzureBlobClient env config =
     (let authType = azure_auth_type config;
          connString = map_get config ''azure_blob_storage_account_connection_string'' in
      if authType = ''AUTH_CONNECTION_STRING'' then
        (if connString = '''' then Ret (Some ''azure blob connection string is empty'')
         else ask_call (AzureConnectString connString) Ret)
      else if authType = ''AUTH_USER_DELEGATED_SAS_KEY'' then getClientWithUserDelegatedSAS env config
      else if authType = ''AUTH_SERVICE_PRINCIPAL'' then getClientWithServicePrincipal config
      else Ret (Some (''invalid authentication type: '' @ authType)))"

definition downloadFileFromAzureBlob ::
  "(string \<Rightarrow> string) \<Rightarrow> string \<Rightarrow> Message \<Rightarrow> string \<Rightarrow> go_error option io" where
  "downloadFileFromAzureBlob env dir input fileName =
     ask_meta fileName (\<lambda>metaMap.
       case metaMap of
         None \<Rightarrow> Ret (Some (''metadata not found for file '' @ fileName))
       | Some m \<Rightarrow>
         let objectKey = path_Join [MdPrefix m, fileName]; path = path_Join [dir, fileName];
             containerName = map_get (RqAdditionalConfig input) ''azure_blob_container'' in
         try_io (GetAzureBlobClient env (RqAdditionalConfig input))
           (try_io (CreateDirIfNotExist dir)
             (try_io (ask_call (CreateLocal path) Ret)
               (try_io (ask_call (AzureDownload containerName objectKey path) Ret)
                 (ask_call (AzureCopy path) (\<lambda>e. Ret (wrap_failure ''failed to write to file'' e)))))))"

subsection \<open>The download of a file\<close>

text \<open>Results are an error and the status to record with it.\<close>

definition file_download ::
  "(string \<Rightarrow> string) \<Rightarrow> string \<Rightarrow> Message \<Rightarrow> string \<Rightarrow> go_error option io" where
  "file_download env dir input fileName =
     (let store = go_to_lower (RqDataStore input) in
      if store = ''s3'' \<or> store = '''' then
        try_io (getOrCreateS3Connection input) (downloadFileFromS3 dir input fileName)
      else if store = ''azure_blob'' then downloadFileFromAzureBlob env dir input fileName
      else Ret None)"

definition FileDownloader ::
  "(string \<Rightarrow> string) \<Rightarrow> string \<Rightarrow> Message \<Rightarrow> string \<Rightarrow> MetaDataValue \<Rightarrow> (go_error option \<times> string) io" where
  "FileDownloader env dir input fileName metaValue =
     interrupted_then (Ret (Some ProcessingInterruptedErrorMsg, StatusFailed))
       (if MdRetry metaValue \<ge> MaxRetry then Ret (Some ''max retries exceeded'', '''')
        else if MdStatus metaValue \<noteq> StatusDownloaded then
          bind_io (file_download env dir input fileName) (\<lambda>err.
            case err of
              Some e \<Rightarrow> Ret (Some e, StatusFailed)
            | None \<Rightarrow> act (OpUpdate fileName (set_status StatusDownloaded)) (Ret (None, '''')))
        else Ret (None, ''''))"

section \<open>Replaying a file\<close>

function scan_texts :: "ParquetScanner \<Rightarrow> string list" where
  "scan_texts s = (case Scan s of (False, s') \<Rightarrow> [] | (True, s') \<Rightarrow> psData s' # scan_texts s')"
  by pat_completeness auto

lemma Scan_salvage_rows_left:
  "psSalvageMode s \<Longrightarrow> Scan_salvage s = (True, s') \<Longrightarrow> rows_left s' < rows_left s"
proof (induction s rule: Scan_salvage.induct)
  case (1 s)
  show ?case
  proof (cases "psSalvageIndex s < length (psSalvageMessages s)
      \<and> psSalvageMessages s ! psSalvageIndex s = ''''")
    case True
    let ?s1 = "s\<lparr>psSalvageIndex := psSalvageIndex s + 1\<rparr>"
    have "Scan_salvage ?s1 = (True, s')"
      using 1(3) True by (simp add: Scan_salvage.simps [of s])
    then have "rows_left s' < rows_left ?s1"
      using 1(1) [OF _ refl refl] 1(2) True by simp
    then show ?thesis using True 1(2) by (auto simp: rows_left_def)
  next
    case False
    then show ?thesis
      using 1(2,3) by (auto simp: Scan_salvage.simps [of s] rows_left_def Let_def split: if_splits)
  qed
qed

lemma Scan_rows_rows_left: "Scan_rows s = (True, s') \<Longrightarrow> rows_left s' < rows_left s"
proof (induction s rule: Scan_rows.induct)
  case (1 s)
  obtain b s1 where a: "Advance s = (b, s1)" by fastforce
  show ?case
  proof (cases b)
    case True
    then have less: "rows_left s1 < rows_left s" using a by (simp add: Advance_rows_left)
    show ?thesis
    proof (cases "psData s1 = ''''")
      case empty: True
      then have "Scan_rows s1 = (True, s')"
        using 1(2) a \<open>b\<close> by (simp add: Scan_rows.simps [of s])
      then have "rows_left s' < rows_left s1"
        using 1(1) a \<open>b\<close> empty by auto
      then show ?thesis using less by simp
    qed (use 1(2) a \<open>b\<close> less in \<open>auto simp: Scan_rows.simps [of s]\<close>)
  qed (use 1(2) a in \<open>simp add: Scan_rows.simps [of s]\<close>)
qed

lemma Scan_rows_left: "Scan s = (True, s') \<Longrightarrow> rows_left s' < rows_left s"
  unfolding Scan_def by (metis Scan_salvage_rows_left Scan_rows_rows_left)

termination scan_texts
  by (relation "measure rows_left") (simp_all add: Scan_rows_left)

declare scan_texts.simps [simp del]

text \<open>
  The tokens of a file: \<open>Inl\<close> the error of opening the reader.  After the loop the code does not ask
  the scanner for its error, and right after it is created a scanner has none.
\<close>

definition file_tokens ::
  "Message \<Rightarrow> string \<Rightarrow> string \<Rightarrow> (bool \<Rightarrow> go_error + string list \<Rightarrow> 'a io) \<Rightarrow> 'a io" where
  "file_tokens req fileName filePath k =
     (let store = go_to_lower (RqDataStore req); lower = go_to_lower fileName;
          forwardDataType = map_get (RqAdditionalConfig req) ''forward_data_type'';
          lines = (\<lambda>gz fail. Do (OpLines filePath gz) (\<lambda>r.
             k False (case lines_reply r of Inl e \<Rightarrow> Inl (fail e) | Inr (ls, err) \<Rightarrow> Inr ls)))
      in if store = ''s3'' \<or> store = '''' then
           (if go_to_lower (map_get (RqAdditionalConfig req) ''compression'') = ''gzip''
            then lines True (\<lambda>e. if e = ''gzip: invalid header'' then fileName @ '' :- file is not gZip '' else e)
            else lines False id)
         else if store = ''azure_blob'' then
           (if go_has_suffix lower ''.parquet'' then
              Do (OpParquet filePath) (\<lambda>r.
                k True (case r of
                    RParquet f \<Rightarrow> (case NewParquetScanner f filePath forwardDataType of
                        Inl e \<Rightarrow> Inl e | Inr s \<Rightarrow> Inr (scan_texts s))
                  | _ \<Rightarrow> Inr []))
            else if go_has_suffix lower ''.gz'' then lines True id
            else lines False id)
         else k False (Inl ''unsupported file type''))"

definition interrupt_result :: "go_error option \<times> string" where
  "interrupt_result = (Some ProcessingInterruptedErrorMsg, StatusFailed)"

definition checkpoint :: "int \<Rightarrow> int \<Rightarrow> meta_update" where
  "checkpoint lineCounter byteSize = no_update\<lparr>UpOffset := lineCounter, UpCurrentSize := byteSize\<rparr>"

definition send_line ::
  "replay_conf \<Rightarrow> Message \<Rightarrow> string \<Rightarrow> string \<Rightarrow> 'a io \<Rightarrow> 'a io" where
  "send_line conf req topic text rest =
     ask_fresh (\<lambda>eventId now.
       let hs = GetHeader (rcHeaderNames conf) eventId (unix_milli now) req;
           tags = ReplayMetricTags (rcHeaderNames conf) req
       in act (OpCall Throttle)
         (act (OpCall (Metric ''total_events_replay_attempted'' tags))
           (ask_call (Send hs text (rcTopicName conf topic)) (\<lambda>err.
             act (OpCall (Metric (if err = None then ''total_events_replay_succeeded''
                                  else ''total_events_replay_failed'') tags)) rest))))"

fun replay_lines ::
  "replay_conf \<Rightarrow> Message \<Rightarrow> string \<Rightarrow> string \<Rightarrow> bool \<Rightarrow> int \<Rightarrow> string list \<Rightarrow> int \<Rightarrow> int
     \<Rightarrow> ((go_error option \<times> string) + int \<times> int) io" where
  "replay_lines conf req topic fileName parquet offsetSeek [] lineCounter byteSize =
     Ret (Inr (lineCounter, byteSize))"
| "replay_lines conf req topic fileName parquet offsetSeek (line # lines) lineCounter byteSize =
     interrupted_then (Ret (Inl interrupt_result))
       (let byteSize = wrap64 (byteSize + int (length line));
            next = replay_lines conf req topic fileName parquet offsetSeek lines (lineCounter + 1) byteSize in
        if offsetSeek > lineCounter then next
        else case prepareReplayLine (rcParse conf) line req parquet of
          Inl e \<Rightarrow> Ret (Inl (Some e, StatusFailed))
        | Inr text \<Rightarrow>
            send_line conf req topic text
              (if go_mod lineCounter 10000 = 0
               then act (OpUpdate fileName (checkpoint lineCounter byteSize)) next else next))"

definition ReadAndProduce ::
  "replay_conf \<Rightarrow> string \<Rightarrow> string \<Rightarrow> int \<Rightarrow> string \<Rightarrow> Message \<Rightarrow> (go_error option \<times> string) io" where
  "ReadAndProduce conf dir fileName offsetSeek topic req =
     (let filePath = path_Join [dir, fileName] in
      ask_call (OpenLocal filePath) (\<lambda>err.
        case err of
          Some e \<Rightarrow> Ret (Some e, StatusFailed)
        | None \<Rightarrow>
          ask_int (OpSize filePath) (\<lambda>sz.
            interrupted_then (Ret interrupt_result)
              (act (OpUpdate fileName ((set_status StatusProcessing)\<lparr>UpFileSize := sz\<rparr>))
                (ask_call (CreateProducer topic) (\<lambda>_.
                  file_tokens req fileName filePath (\<lambda>parquet tokens.
                    case tokens of
                      Inl e \<Rightarrow> Ret (Some e, StatusFailed)
                    | Inr ls \<Rightarrow>
                      bind_io (replay_lines conf req topic fileName parquet offsetSeek ls 0 0) (\<lambda>res.
                        case res of
                          Inl failure \<Rightarrow> Ret failure
                        | Inr (lineCounter, byteSize) \<Rightarrow>
                            act (OpCall (FlushProducer 10000))
                              (act (OpUpdate fileName
                                      ((checkpoint lineCounter byteSize)\<lparr>UpStatus := StatusCompleted\<rparr>))
                                (act (OpCall (RemoveLocal filePath)) (Ret (None, ''''))))))))))))"

section \<open>The goroutines\<close>

subsection \<open>One file\<close>

definition failed_update :: "string \<Rightarrow> go_error \<Rightarrow> meta_update" where
  "failed_update status e = (set_status status)\<lparr>UpErrorMsg := e\<rparr>"

definition file_body :: "replay_conf \<Rightarrow> string \<Rightarrow> Message \<Rightarrow> string \<Rightarrow> unit io" where
  "file_body conf dir inputReq fileName =
     interrupted_then (Ret ())
       (ask_meta fileName (\<lambda>found.
         case found of
           None \<Rightarrow> act (OpUpdate fileName (failed_update StatusFailed ''metadata not found'')) (Ret ())
         | Some metaValue \<Rightarrow>
           interrupted_then (Ret ())
             (bind_io (FileDownloader (rcEnv conf) dir inputReq fileName metaValue) (\<lambda>(err, status).
               case err of
                 Some e \<Rightarrow> act (OpUpdate fileName (failed_update status e)) (Ret ())
               | None \<Rightarrow>
                 interrupted_then (Ret ())
                   (bind_io (ReadAndProduce conf dir fileName (MdOffset metaValue)
                               (RqDestinationTopic inputReq) inputReq) (\<lambda>(err, status).
                     case err of
                       Some e \<Rightarrow> act (OpUpdate fileName (failed_update status e)) (Ret ())
                     | None \<Rightarrow> Ret ()))))))"

definition file_worker :: "replay_conf \<Rightarrow> string \<Rightarrow> Message \<Rightarrow> string \<Rightarrow> unit io" where
  "file_worker conf dir inputReq fileName =
     bind_io (file_body conf dir inputReq fileName) (\<lambda>_.
       act (OpStamp fileName False True) (act OpWgDone (act OpRelease (Ret ()))))"

subsection \<open>\<open>Process\<close>\<close>

fun add_secrets :: "secret_data list \<Rightarrow> (string \<times> string) list \<Rightarrow> go_error + (string \<times> string) list" where
  "add_secrets [] config = Inr config"
| "add_secrets (d # ds) config =
     (case SdErrors d of
        errMsg # _ \<Rightarrow> Inl (''error while fetching secrets from aws secret manager: '' @ errMsg)
      | [] \<Rightarrow> add_secrets ds (fold (fold (\<lambda>(k, v). AList.update k v)) (SdSecrets d) config))"

definition DecryptKeys :: "Message \<Rightarrow> (go_error + Message \<Rightarrow> 'a io) \<Rightarrow> 'a io" where
  "DecryptKeys input k =
     (let key = map_get (RqAdditionalConfig input) ''secret_id'' in
      if key = '''' then k (Inr input)
      else ask_secrets (RqTenantId input) key (\<lambda>r.
        case r of
          Inl e \<Rightarrow> k (Inl (''error while fetching secrets from aws secret manager: '' @ e))
        | Inr ds \<Rightarrow>
          (case add_secrets ds (RqAdditionalConfig input) of
             Inl e \<Rightarrow> k (Inl e)
           | Inr config \<Rightarrow> k (Inr (input\<lparr>RqAdditionalConfig := config\<rparr>)))))"

fun each_file :: "(string \<Rightarrow> 'a io \<Rightarrow> 'a io) \<Rightarrow> string list \<Rightarrow> 'a io \<Rightarrow> 'a io" where
  "each_file f [] p = p"
| "each_file f (x # xs) p = f x (each_file f xs p)"

fun spawn_files :: "int \<Rightarrow> Message \<Rightarrow> nat \<Rightarrow> string list \<Rightarrow> 'a io \<Rightarrow> 'a io" where
  "spawn_files concurrency req i [] p = p"
| "spawn_files concurrency req i (f # fs) p =
     act (OpAcquire concurrency) (act (OpSpawn req i f) (spawn_files concurrency req (Suc i) fs p))"

definition effective_concurrency :: "Message \<Rightarrow> int" where
  "effective_concurrency inputReq = (if RqConcurrency inputReq \<le> 0 then 2 else RqConcurrency inputReq)"

definition ProduceStatus :: "Message \<Rightarrow> 'a io \<Rightarrow> 'a io" where
  "ProduceStatus inputReq p =
     ask_all (\<lambda>values. ask_call (PublishAck (RqRequestId inputReq) (RqAckId inputReq) (RqTenantId inputReq) values)
       (\<lambda>_. p))"

text \<open>The acknowledgement that \<open>PublishAck\<close> publishes for the values it carries.\<close>

record ack_status =
  AkFileName :: string
  AkRequestId :: string
  AkStatus :: string
  AkFileSize :: int
  AkFilePath :: string
  AkCurrentSize :: int
  AkErrorMsg :: "string list"
  AkStartTime :: go_time
  AkEndTime :: go_time
  AkLines :: int

record replay_ack =
  AckType :: string
  AckEntityId :: string
  AckRequestId :: string
  AckTenantId :: string
  AckAction :: string
  AckEntityType :: string
  AckStatus :: string
  AckServiceName :: string
  AckReplayStatus :: "ack_status list"

definition BuildStatusList :: "MetaDataValue list \<Rightarrow> ack_status list" where
  "BuildStatusList values = map (\<lambda>val.
     \<lparr>AkFileName = MdFileName val, AkRequestId = MdRequestId val, AkStatus = MdStatus val,
      AkFileSize = MdFileSize val, AkFilePath = path_Join [MdPrefix val, MdFileName val],
      AkCurrentSize = MdCurrentSize val, AkErrorMsg = MdErrorMsg val, AkStartTime = MdTime val,
      AkEndTime = MdEndTime val, AkLines = MdOffset val\<rparr>) values"

definition PrepareAck ::
  "(string \<Rightarrow> string) \<Rightarrow> ack_status list \<Rightarrow> string \<Rightarrow> string \<Rightarrow> string \<Rightarrow> replay_ack" where
  "PrepareAck env status requestId ackId tenantId =
     \<lparr>AckType = ''REPLAY'', AckEntityId = requestId, AckRequestId = ackId, AckTenantId = tenantId,
      AckAction = ''Create'', AckEntityType = ''data-replay'', AckStatus = ''completed'',
      AckServiceName = GetEnvOrDefault env ''SERVICE_NAME'' ''data-replay'', AckReplayStatus = status\<rparr>"

definition published_ack :: "replay_conf \<Rightarrow> replay_call \<Rightarrow> replay_ack option" where
  "published_ack conf c =
     (case c of
        PublishAck requestId ackId tenantId values \<Rightarrow>
          Some (PrepareAck (rcEnv conf) (BuildStatusList values) requestId ackId tenantId)
      | _ \<Rightarrow> None)"

definition Process :: "Message \<Rightarrow> string list \<Rightarrow> unit io" where
  "Process inputReq files =
     act (OpRegister True)
       (act (OpUpdate Global (set_status StatusInProgress))
         (DecryptKeys inputReq (\<lambda>decrypted.
           case decrypted of
             Inl e \<Rightarrow>
               each_file (\<lambda>f. act (OpUpdate f (no_update\<lparr>UpErrorMsg := e\<rparr>))) files (act (OpRegister False) (Ret ()))
           | Inr req \<Rightarrow>
             act (OpWgAdd (int (length files)))
               (spawn_files (effective_concurrency req) req 0 files
                 (act OpWgWait
                   (interrupted_then (act (OpRegister False) (Ret ()))
                     (ProduceStatus req (act OpGlobalStatus (act (OpRegister False) (Ret ()))))))))))"

text \<open>After \<open>Process\<close> the job waits for the hook when a signal has come.\<close>

definition replay_main :: "Message \<Rightarrow> string list \<Rightarrow> unit io" where
  "replay_main input files =
     bind_io (Process input files) (\<lambda>_. interrupted_then (act OpAwaitNotify (Ret ())) (Ret ()))"

subsection \<open>The shutdown hook\<close>

definition shutdown_message :: "Message \<Rightarrow> int \<Rightarrow> string" where
  "shutdown_message input interruptedFiles =
     ''Replay worker interrupted during processing for requestId='' @ RqRequestId input @ '' with ''
     @ go_itoa interruptedFiles @ '' unfinished file(s). Files were marked FAILED with message: ''
     @ [CHR 34] @ ProcessingInterruptedErrorMsg @ [CHR 34] @ ''.''"

definition sendReplayShutdownInterruptedAlert :: "Message \<Rightarrow> int \<Rightarrow> 'a io \<Rightarrow> 'a io" where
  "sendReplayShutdownInterruptedAlert input interruptedFiles p =
     (if interruptedFiles = 0 then p
      else let tenant = (if RqTenantId input = '''' then ''dbd00000-0000-0000-0000-000000000000'' else RqTenantId input) in
        ask_call (ShutdownAlert tenant (RqRequestId input) (shutdown_message input interruptedFiles)) (\<lambda>_. p))"

definition WaitForWorkers :: "'a io \<Rightarrow> 'a io" where
  "WaitForWorkers p = ask_bool OpRegistered (\<lambda>registered. if registered then act OpWgWait p else p)"

definition handleReplayShutdown :: "Message \<Rightarrow> unit io" where
  "handleReplayShutdown input =
     act OpSetInterrupted
       (WaitForWorkers
         (ask_int (OpMarkUnfinished ProcessingInterruptedErrorMsg) (\<lambda>interruptedFiles.
           act OpFlush
             (sendReplayShutdownInterruptedAlert input interruptedFiles
               (ProduceStatus input (act OpNotify (Ret ())))))))"

definition closeResources :: "Message \<Rightarrow> unit io" where
  "closeResources input = act OpSignal (handleReplayShutdown input)"

end
