(* ===== verification/Replay_System.thy ===== *)
theory Replay_System
  imports Replay_Run Job_Result
begin

text \<open>
  The running replay job: the state its goroutines share, the effect of an operation, and the steps
  they take in any order.  The answers from outside (errors of calls, contents of files, the clock, the
  outcome of writing \<open>metadata.json\<close>, the order of map ranges) are functions of the log of all
  operations so far.  A blocked operation (waiting for the workers, for a free slot, for the hook) is
  not enabled; the signal may come at any time or never.
\<close>

type_synonym replay_event = "replay_op \<times> reply"
type_synonym replay_log = "(nat \<times> replay_event) list"

record replay_sys =
  sysStore :: replay_store
  sysInterrupted :: bool
  sysConns :: "unit FiFoCache"
  sysWg :: int
  sysRegistered :: bool
  sysSlots :: int
  sysNotified :: bool
  sysThreads :: "unit io list"
  sysLog :: replay_log

record replay_env =
  reNow :: "replay_log \<Rightarrow> go_time"
  reUuid :: "replay_log \<Rightarrow> string"
  reWrite :: "replay_log \<Rightarrow> meta_file option"
  reRange :: "replay_log \<Rightarrow> (string \<times> MetaDataValue) list \<Rightarrow> (string \<times> MetaDataValue) list"
  reCall :: "replay_log \<Rightarrow> replay_call \<Rightarrow> go_error option"
  reSize :: "replay_log \<Rightarrow> string \<Rightarrow> int"
  reLines :: "replay_log \<Rightarrow> string \<Rightarrow> bool \<Rightarrow> go_error + string list \<times> go_error option"
  reParquet :: "replay_log \<Rightarrow> string \<Rightarrow> parquet_open"
  reSecrets :: "replay_log \<Rightarrow> string \<Rightarrow> string \<Rightarrow> go_error + secret_data list"

definition store_env_at :: "replay_env \<Rightarrow> replay_log \<Rightarrow> store_env" where
  "store_env_at env l = \<lparr>now_at = reNow env l, write_fails = reWrite env l, range_map = reRange env l\<rparr>"

definition on_store :: "(replay_store \<Rightarrow> replay_store) \<Rightarrow> replay_sys \<Rightarrow> replay_sys" where
  "on_store f s = s\<lparr>sysStore := f (sysStore s)\<rparr>"

text \<open>The answer of an operation and the state after it, before its goroutine goes on.\<close>

fun op_answer :: "replay_env \<Rightarrow> replay_op \<Rightarrow> replay_sys \<Rightarrow> reply" where
  "op_answer env OpInterrupted s = RBool (sysInterrupted s)"
| "op_answer env (OpGetMeta key) s = RMeta (GetMetaData key (sysStore s))"
| "op_answer env OpReadAll s = RAll (GetValuesOfMap (store_env_at env (sysLog s)) (sysStore s))"
| "op_answer env (OpMarkUnfinished msg) s =
     RInt (fst (MarkUnfinishedExecutionsAsFailed (store_env_at env (sysLog s)) msg (sysStore s)))"
| "op_answer env OpFresh s = RFresh (reUuid env (sysLog s)) (reNow env (sysLog s))"
| "op_answer env (OpCacheGet key) s = RBool (cache_Get key (sysConns s) \<noteq> None)"
| "op_answer env (OpCall c) s = RError (reCall env (sysLog s) c)"
| "op_answer env (OpSize path) s = RInt (reSize env (sysLog s) path)"
| "op_answer env (OpLines path gz) s = RLines (reLines env (sysLog s) path gz)"
| "op_answer env (OpParquet path) s = RParquet (reParquet env (sysLog s) path)"
| "op_answer env (OpSecrets tenant key) s = RSecrets (reSecrets env (sysLog s) tenant key)"
| "op_answer env OpRegistered s = RBool (sysRegistered s)"
| "op_answer env _ s = RUnit"

fun op_effect :: "replay_conf \<Rightarrow> replay_env \<Rightarrow> replay_op \<Rightarrow> replay_sys \<Rightarrow> replay_sys" where
  "op_effect conf env OpSetInterrupted s = s\<lparr>sysInterrupted := True\<rparr>"
| "op_effect conf env (OpUpdate key u) s = on_store (UpdateMetaData (store_env_at env (sysLog s)) key u) s"
| "op_effect conf env (OpStamp key b e) s =
     on_store (TimeStampMetaData (store_env_at env (sysLog s)) key b e) s"
| "op_effect conf env OpGlobalStatus s = on_store (UpdateGlobalStatus (store_env_at env (sysLog s))) s"
| "op_effect conf env (OpMarkUnfinished msg) s =
     on_store (\<lambda>st. snd (MarkUnfinishedExecutionsAsFailed (store_env_at env (sysLog s)) msg st)) s"
| "op_effect conf env OpFlush s = on_store (Flush (store_env_at env (sysLog s))) s"
| "op_effect conf env (OpCacheSet key) s = s\<lparr>sysConns := cache_Set key () (sysConns s)\<rparr>"
| "op_effect conf env (OpRegister b) s = s\<lparr>sysRegistered := b\<rparr>"
| "op_effect conf env (OpWgAdd n) s = s\<lparr>sysWg := sysWg s + n\<rparr>"
| "op_effect conf env OpWgDone s = s\<lparr>sysWg := sysWg s - 1\<rparr>"
| "op_effect conf env (OpAcquire c) s = s\<lparr>sysSlots := sysSlots s + 1\<rparr>"
| "op_effect conf env OpRelease s = s\<lparr>sysSlots := sysSlots s - 1\<rparr>"
| "op_effect conf env (OpSpawn req i f) s =
     s\<lparr>sysThreads := sysThreads s @ [file_worker conf (dataDir (mst (sysStore s))) req f]\<rparr>"
| "op_effect conf env OpNotify s = s\<lparr>sysNotified := True\<rparr>"
| "op_effect conf env _ s = s"

fun op_enabled :: "replay_op \<Rightarrow> replay_sys \<Rightarrow> bool" where
  "op_enabled OpWgWait s \<longleftrightarrow> sysWg s = 0"
| "op_enabled (OpAcquire c) s \<longleftrightarrow> sysSlots s < c"
| "op_enabled OpAwaitNotify s \<longleftrightarrow> sysNotified s"
| "op_enabled _ s \<longleftrightarrow> True"

definition thread_step :: "replay_conf \<Rightarrow> replay_env \<Rightarrow> nat \<Rightarrow> replay_sys \<Rightarrow> replay_sys" where
  "thread_step conf env t s =
     (case sysThreads s ! t of
        Ret _ \<Rightarrow> s
      | Do a k \<Rightarrow>
          let r = op_answer env a s; s1 = op_effect conf env a s
          in s1\<lparr>sysThreads := (sysThreads s1)[t := k r], sysLog := sysLog s1 @ [(t, a, r)]\<rparr>)"

definition job_ended :: "replay_sys \<Rightarrow> bool" where
  "job_ended s \<longleftrightarrow> (case sysThreads s ! 0 of Ret _ \<Rightarrow> True | Do _ _ \<Rightarrow> False)"

definition can_step :: "nat \<Rightarrow> replay_sys \<Rightarrow> bool" where
  "can_step t s \<longleftrightarrow>
     t < length (sysThreads s) \<and> \<not> job_ended s
     \<and> (case sysThreads s ! t of Ret _ \<Rightarrow> False | Do a k \<Rightarrow> op_enabled a s)"

inductive replay_step :: "replay_conf \<Rightarrow> replay_env \<Rightarrow> replay_sys \<Rightarrow> replay_sys \<Rightarrow> bool" for conf env where
  goroutine: "can_step t s \<Longrightarrow> replay_step conf env s (thread_step conf env t s)"

inductive replay_reaches :: "replay_conf \<Rightarrow> replay_env \<Rightarrow> replay_sys \<Rightarrow> replay_sys \<Rightarrow> bool" for conf env s where
  here: "replay_reaches conf env s s"
| further: "replay_reaches conf env s u \<Longrightarrow> replay_step conf env u v \<Longrightarrow> replay_reaches conf env s v"

inductive_cases replay_stepE: "replay_step conf env s s'"

text \<open>A run given by the goroutine of each step; a step that is not possible is left out.\<close>

definition scheduled_step :: "replay_conf \<Rightarrow> replay_env \<Rightarrow> nat \<Rightarrow> replay_sys \<Rightarrow> replay_sys" where
  "scheduled_step conf env t s = (if can_step t s then thread_step conf env t s else s)"

lemma scheduled_reaches: "replay_reaches conf env s (fold (scheduled_step conf env) ts s)"
proof (induction ts rule: rev_induct)
  case Nil
  show ?case by (simp add: replay_reaches.here)
next
  case (snoc t ts)
  then show ?case
    by (auto simp: scheduled_step_def intro: replay_reaches.further replay_step.goroutine)
qed

section \<open>The start\<close>

text \<open>
  \<open>ExecuteReplayJob\<close> up to the start of \<open>Process\<close> and of the hook: the result of a job that could not be
  prepared, or the system.  The end of the main goroutine is the end of the job, with success.
\<close>

definition replay_start :: "Message \<Rightarrow> replay_store \<Rightarrow> replay_sys" where
  "replay_start input st =
     \<lparr>sysStore = st, sysInterrupted = False, sysConns = InitCache, sysWg = 0, sysRegistered = False,
      sysSlots = 0, sysNotified = False,
      sysThreads = [replay_main input (GetProcessList st), closeResources input], sysLog = []\<rparr>"

definition with_topic :: "string \<Rightarrow> Message \<Rightarrow> Message" where
  "with_topic defaultTopic input =
     (if RqDestinationTopic input = '''' then input\<lparr>RqDestinationTopic := defaultTopic\<rparr> else input)"

definition ExecuteReplayJob ::
  "replay_conf \<Rightarrow> string \<Rightarrow> prepare_env \<Rightarrow> Message \<Rightarrow> meta_file \<Rightarrow> JobResult + replay_sys" where
  "ExecuteReplayJob conf defaultTopic penv input file =
     (let req = with_topic defaultTopic input;
          st = \<lparr>mst = NewMetaStore (rcEnv conf) (RqRequestId input), metaFile = file\<rparr>
      in case PreProcessMetaData penv req ''TEST_JOB'' st of
           ((Some e, _), _) \<Rightarrow>
             Inl (NewJobResultFromErrors [\<lparr>Message = ''failed to pre process metadata: '' @ e\<rparr>])
         | ((None, _), st') \<Rightarrow> Inr (replay_start req st'))"

section \<open>Traces\<close>

text \<open>\<open>walk p es q\<close>: doing the operations of \<open>es\<close> with their answers takes program \<open>p\<close> to \<open>q\<close>.\<close>

fun walk :: "'a io \<Rightarrow> replay_event list \<Rightarrow> 'a io \<Rightarrow> bool" where
  "walk p [] q \<longleftrightarrow> p = q"
| "walk p ((a, r) # es) q \<longleftrightarrow> (case p of Ret _ \<Rightarrow> False | Do b k \<Rightarrow> a = b \<and> walk (k r) es q)"

lemma walk_Ret [simp]: "walk (Ret x) es q \<longleftrightarrow> es = [] \<and> q = Ret x"
  by (cases es) auto

lemma walk_append: "walk p (es @ fs) q \<longleftrightarrow> (\<exists>m. walk p es m \<and> walk m fs q)"
proof (induction es arbitrary: p)
  case (Cons e es)
  then show ?case by (cases e; cases p) auto
qed simp

lemma walk_snoc: "walk p (es @ [(a, r)]) q \<longleftrightarrow> (\<exists>k. walk p es (Do a k) \<and> q = k r)"
proof -
  have "walk m [(a, r)] q \<longleftrightarrow> (\<exists>k. m = Do a k \<and> q = k r)" for m :: "'a io"
    by (cases m) auto
  then show ?thesis unfolding walk_append by auto
qed

lemma walk_split_Do:
  "(\<exists>es1 es2 x. fs = es1 @ es2 \<and> walk (k r) es1 (Ret x) \<and> Q x es2) \<longleftrightarrow>
   (\<exists>es1 es2 x. (a, r) # fs = es1 @ es2 \<and> walk (Do a k) es1 (Ret x) \<and> Q x es2)" (is "?A \<longleftrightarrow> ?B")
proof
  assume ?A
  then obtain es1 es2 x where "fs = es1 @ es2" "walk (k r) es1 (Ret x)" "Q x es2" by blast
  then have "(a, r) # fs = ((a, r) # es1) @ es2 \<and> walk (Do a k) ((a, r) # es1) (Ret x) \<and> Q x es2"
    by simp
  then show ?B by blast
next
  assume ?B
  then obtain es1 es2 x where e: "(a, r) # fs = es1 @ es2" "walk (Do a k) es1 (Ret x)" "Q x es2"
    by blast
  then obtain es where "es1 = (a, r) # es" by (cases es1) auto
  then have "fs = es @ es2 \<and> walk (k r) es (Ret x) \<and> Q x es2" using e by simp
  then show ?A by blast
qed

lemma walk_bind:
  "walk (bind_io p f) es q \<longleftrightarrow>
     (\<exists>p'. walk p es p' \<and> q = bind_io p' f)
     \<or> (\<exists>es1 es2 x. es = es1 @ es2 \<and> walk p es1 (Ret x) \<and> walk (f x) es2 q)"
proof (induction p arbitrary: es)
  case (Ret x)
  show ?case
  proof
    assume "walk (bind_io (Ret x) f) es q"
    then have "es = [] @ es \<and> walk (Ret x) [] (Ret x) \<and> walk (f x) es q" by simp
    then show "(\<exists>p'. walk (Ret x) es p' \<and> q = bind_io p' f)
      \<or> (\<exists>es1 es2 y. es = es1 @ es2 \<and> walk (Ret x) es1 (Ret y) \<and> walk (f y) es2 q)" by blast
  qed auto
next
  case (Do a k)
  show ?case
  proof (cases es)
    case Nil
    then show ?thesis by auto
  next
    case (Cons e fs)
    then obtain b r where es: "es = (b, r) # fs" by (cases e) auto
    show ?thesis
    proof (cases "b = a")
      case True
      then have "walk (bind_io (Do a k) f) es q \<longleftrightarrow> walk (bind_io (k r) f) fs q"
        using es by simp
      also have "\<dots> \<longleftrightarrow> (\<exists>p'. walk (k r) fs p' \<and> q = bind_io p' f)
          \<or> (\<exists>es1 es2 x. fs = es1 @ es2 \<and> walk (k r) es1 (Ret x) \<and> walk (f x) es2 q)"
        using Do.IH [OF rangeI] by simp
      also have "\<dots> \<longleftrightarrow> (\<exists>p'. walk (Do a k) es p' \<and> q = bind_io p' f)
          \<or> (\<exists>es1 es2 x. es = es1 @ es2 \<and> walk (Do a k) es1 (Ret x) \<and> walk (f x) es2 q)"
        using es True walk_split_Do [where a = a and r = r and fs = fs and k = k
            and Q = "\<lambda>x es2. walk (f x) es2 q"] by simp
      finally show ?thesis .
    qed (use es in \<open>auto simp: Cons_eq_append_conv\<close>)
  qed
qed

text \<open>The operations of one goroutine in the log, and its first program.\<close>

definition thread_log :: "nat \<Rightarrow> replay_log \<Rightarrow> replay_event list" where
  "thread_log t l = map snd (filter (\<lambda>e. fst e = t) l)"

lemma thread_log_simps [simp]:
  "thread_log t [] = []"
  "thread_log t (l @ [(u, e)]) = thread_log t l @ (if u = t then [e] else [])"
  by (simp_all add: thread_log_def)

end
