(* ===== verification/Replay_Trace.thy ===== *)
theory Replay_Trace
  imports Replay_System "HOL-Library.Sublist"
begin

text \<open>
  What one goroutine of the replay job does, in every run: the marks it leaves (messages sent, updates
  recorded, tokens read, the flush of the producer) follow the lines of the file.  The lemmas are about
  the program alone and hold for all answers.
\<close>

datatype mark =
    Sent string
  | Recorded string meta_update
  | Tokens "string list"
  | Flushed

fun read_tokens :: "Message \<Rightarrow> replay_op \<Rightarrow> reply \<Rightarrow> string list option" where
  "read_tokens req (OpLines path gz) r =
     (case lines_reply r of Inl e \<Rightarrow> None | Inr (ls, err) \<Rightarrow> Some ls)"
| "read_tokens req (OpParquet path) r =
     (case r of
        RParquet f \<Rightarrow>
          (case NewParquetScanner f path (map_get (RqAdditionalConfig req) ''forward_data_type'') of
             Inl e \<Rightarrow> None | Inr s \<Rightarrow> Some (scan_texts s))
      | _ \<Rightarrow> Some [])"
| "read_tokens req _ r = None"

fun marks_of :: "Message \<Rightarrow> replay_event \<Rightarrow> mark list" where
  "marks_of req (OpCall (Send hs text topic), r) = [Sent text]"
| "marks_of req (OpCall (FlushProducer ms), r) = [Flushed]"
| "marks_of req (OpUpdate f u, r) = [Recorded f u]"
| "marks_of req (a, r) = (case read_tokens req a r of None \<Rightarrow> [] | Some ls \<Rightarrow> [Tokens ls])"

definition marks :: "Message \<Rightarrow> replay_event list \<Rightarrow> mark list" where
  "marks req es = concat (map (marks_of req) es)"

lemma marks_simps [simp]:
  "marks req [] = []" "marks req (e # es) = marks_of req e @ marks req es"
  "marks req (es @ fs) = marks req es @ marks req fs"
  by (simp_all add: marks_def)

lemma walk_Do:
  "walk (Do a k) es q \<longleftrightarrow> es = [] \<and> q = Do a k \<or> (\<exists>r fs. es = (a, r) # fs \<and> walk (k r) fs q)"
  by (cases es) auto

lemmas io_defs = act_def interrupted_then_def ask_bool_def ask_meta_def ask_call_def ask_int_def
  ask_fresh_def ask_all_def ask_secrets_def

section \<open>The lines of a file\<close>

fun line_marks ::
  "replay_conf \<Rightarrow> Message \<Rightarrow> string \<Rightarrow> bool \<Rightarrow> int \<Rightarrow> string list \<Rightarrow> int \<Rightarrow> int \<Rightarrow> mark list" where
  "line_marks conf req f pq off [] n b = []"
| "line_marks conf req f pq off (line # ls) n b =
     (let b' = wrap64 (b + int (length line)) in
      if off > n then line_marks conf req f pq off ls (n + 1) b'
      else case prepareReplayLine (rcParse conf) line req pq of
        Inl e \<Rightarrow> []
      | Inr text \<Rightarrow> Sent text # (if go_mod n 10000 = 0 then [Recorded f (checkpoint n b')] else [])
          @ line_marks conf req f pq off ls (n + 1) b')"

text \<open>The texts of the lines from the offset on, when all of them can be prepared.\<close>

fun prepared_lines :: "replay_conf \<Rightarrow> Message \<Rightarrow> bool \<Rightarrow> string list \<Rightarrow> string list option" where
  "prepared_lines conf req pq [] = Some []"
| "prepared_lines conf req pq (line # ls) =
     (case prepareReplayLine (rcParse conf) line req pq of
        Inl e \<Rightarrow> None
      | Inr text \<Rightarrow> map_option (\<lambda>ts. text # ts) (prepared_lines conf req pq ls))"

text \<open>A run is still in a stretch that leaves the marks \<open>ms\<close>, or has gone through it to \<open>rest\<close>.\<close>

definition stretch :: "Message \<Rightarrow> mark list \<Rightarrow> 'a io \<Rightarrow> replay_event list \<Rightarrow> 'a io \<Rightarrow> bool" where
  "stretch req ms rest es q \<longleftrightarrow>
     (prefix (marks req es) ms \<and> (\<forall>x. q \<noteq> Ret x))
     \<or> (\<exists>es1 es2. es = es1 @ es2 \<and> marks req es1 = ms \<and> walk rest es2 q)"

lemma stretch_end: "walk rest es q \<Longrightarrow> stretch req [] rest es q"
  unfolding stretch_def by (metis append_Nil marks_simps(1))

lemma stretch_Do:
  assumes "walk (Do a k) es q" and "\<And>r. marks_of req (a, r) = ms1"
    and "\<And>r fs. walk (k r) fs q \<Longrightarrow> stretch req ms2 rest fs q"
  shows "stretch req (ms1 @ ms2) rest es q"
proof -
  from assms(1) consider "es = []" "q = Do a k" | r fs where "es = (a, r) # fs" "walk (k r) fs q"
    by (auto simp: walk_Do)
  then show ?thesis
  proof cases
    case 1
    then show ?thesis by (simp add: stretch_def)
  next
    case (2 r fs)
    from assms(3) [OF 2(2)] show ?thesis
      unfolding stretch_def
    proof (elim disjE conjE exE)
      assume "prefix (marks req fs) ms2" "\<forall>x. q \<noteq> Ret x"
      then show "(prefix (marks req es) (ms1 @ ms2) \<and> (\<forall>x. q \<noteq> Ret x))
        \<or> (\<exists>es1 es2. es = es1 @ es2 \<and> marks req es1 = ms1 @ ms2 \<and> walk rest es2 q)"
        using 2 by (simp add: assms(2))
    next
      fix es1 es2 assume "fs = es1 @ es2" "marks req es1 = ms2" "walk rest es2 q"
      then have "es = ((a, r) # es1) @ es2 \<and> marks req ((a, r) # es1) = ms1 @ ms2 \<and> walk rest es2 q"
        using 2 by (simp add: assms(2))
      then show "(prefix (marks req es) (ms1 @ ms2) \<and> (\<forall>x. q \<noteq> Ret x))
        \<or> (\<exists>es1 es2. es = es1 @ es2 \<and> marks req es1 = ms1 @ ms2 \<and> walk rest es2 q)" by blast
    qed
  qed
qed

lemma stretch_silent:
  assumes "walk (Do a k) es q" and "\<And>r. marks_of req (a, r) = []"
    and "\<And>r fs. walk (k r) fs q \<Longrightarrow> stretch req ms rest fs q"
  shows "stretch req ms rest es q"
  using stretch_Do [OF assms] by simp

lemma stretch_mark:
  assumes "walk (Do a k) es q" and "\<And>r. marks_of req (a, r) = [m]"
    and "\<And>r fs. walk (k r) fs q \<Longrightarrow> stretch req ms rest fs q"
  shows "stretch req (m # ms) rest es q"
  using stretch_Do [OF assms] by simp

lemma walk_send_line:
  "walk (send_line conf req topic txt rest) es q \<Longrightarrow> stretch req [Sent txt] rest es q"
  unfolding send_line_def io_defs Let_def
  by (erule stretch_silent stretch_mark, (simp; fail))+ (rule stretch_end)

lemma replay_lines_walk:
  assumes "walk (replay_lines conf req topic f pq off ls n b) es q"
  shows "prefix (marks req es) (line_marks conf req f pq off ls n b)
    \<and> (\<forall>n' b'. q = Ret (Inr (n', b')) \<longrightarrow>
         marks req es = line_marks conf req f pq off ls n b \<and> n' = n + int (length ls)
         \<and> prepared_lines conf req pq (drop (nat (off - n)) ls) \<noteq> None)
    \<and> (\<forall>x y. q = Ret (Inl (x, y)) \<longrightarrow> y = StatusFailed \<and> x \<noteq> None)"
  using assms
proof (induction ls arbitrary: n b es)
  case Nil
  then show ?case by simp
next
  case (Cons line ls)
  let ?b = "wrap64 (b + int (length line))"
  let ?next = "replay_lines conf req topic f pq off ls (n + 1) ?b"
  let ?tail = "\<lambda>es. prefix (marks req es) (line_marks conf req f pq off ls (n + 1) ?b)
    \<and> (\<forall>n' b'. q = Ret (Inr (n', b')) \<longrightarrow>
         marks req es = line_marks conf req f pq off ls (n + 1) ?b \<and> n' = n + 1 + int (length ls)
         \<and> prepared_lines conf req pq (drop (nat (off - (n + 1))) ls) \<noteq> None)
    \<and> (\<forall>x y. q = Ret (Inl (x, y)) \<longrightarrow> y = StatusFailed \<and> x \<noteq> None)"
  consider "es = []" "\<forall>x. q \<noteq> Ret x"
    | r where "es = [(OpInterrupted, r)]" "q = Ret (Inl interrupt_result)"
    | r fs where "es = (OpInterrupted, r) # fs" "off > n" "walk ?next fs q"
    | r fs e where "es = (OpInterrupted, r) # fs" "\<not> off > n"
        "prepareReplayLine (rcParse conf) line req pq = Inl e" "fs = []" "q = Ret (Inl (Some e, StatusFailed))"
    | r fs t where "es = (OpInterrupted, r) # fs" "\<not> off > n"
        "prepareReplayLine (rcParse conf) line req pq = Inr t"
        "walk (send_line conf req topic t
           (if go_mod n 10000 = 0 then act (OpUpdate f (checkpoint n ?b)) ?next else ?next)) fs q"
    using Cons.prems
    by (auto simp: interrupted_then_def walk_Do Let_def split: if_splits sum.splits)
  then show ?case
  proof cases
    case (2 r)
    then show ?thesis by (simp add: interrupt_result_def)
  next
    case (3 r fs)
    have "?tail fs" using Cons.IH [OF 3(3)] by simp
    moreover have "nat (off - n) = Suc (nat (off - (n + 1)))" using 3(2) by simp
    ultimately show ?thesis using 3 by (auto simp: Let_def)
  next
    case (5 r fs t)
    let ?c = "if go_mod n 10000 = 0 then [Recorded f (checkpoint n ?b)] else []"
    have goal: "line_marks conf req f pq off (line # ls) n b
        = Sent t # ?c @ line_marks conf req f pq off ls (n + 1) ?b"
      using 5 by (simp add: Let_def)
    have d: "nat (off - n) = 0" "nat (off - (n + 1)) = 0" using 5(2) by auto
    from walk_send_line [OF 5(4)] show ?thesis
      unfolding stretch_def
    proof (elim disjE exE conjE)
      fix fs1 fs2
      assume fs: "fs = fs1 @ fs2" "marks req fs1 = [Sent t]"
        and w: "walk (if go_mod n 10000 = 0 then act (OpUpdate f (checkpoint n ?b)) ?next else ?next) fs2 q"
      show ?thesis
      proof (cases "go_mod n 10000 = 0")
        case True
        from w True consider "fs2 = []" "\<forall>x. q \<noteq> Ret x"
          | r' gs where "fs2 = (OpUpdate f (checkpoint n ?b), r') # gs" "walk ?next gs q"
          by (auto simp: act_def walk_Do)
        then show ?thesis
        proof cases
          case 1
          then show ?thesis unfolding goal using fs 5(1) by simp
        next
          case (2 r' gs)
          have "?tail gs" using Cons.IH [OF 2(2)] by simp
          then show ?thesis unfolding goal using fs 5 2 True d by auto
        qed
      next
        case False
        then have "?tail fs2" using Cons.IH [of "n + 1" ?b fs2] w by simp
        then show ?thesis unfolding goal using fs 5 False d by auto
      qed
    next
      assume "prefix (marks req fs) [Sent t]" and nonret: "\<forall>x. q \<noteq> Ret x"
      then have "prefix (marks req fs) (Sent t # ?c @ line_marks conf req f pq off ls (n + 1) ?b)"
        by (auto simp: prefix_Cons)
      then show ?thesis unfolding goal using 5(1) nonret by simp
    qed
  qed (use Cons.prems in \<open>simp_all add: Let_def\<close>)
qed

section \<open>Programs whose marks have a property\<close>

definition leaves :: "Message \<Rightarrow> (mark \<Rightarrow> bool) \<Rightarrow> 'a io \<Rightarrow> bool" where
  "leaves req P p \<longleftrightarrow> (\<forall>es q. walk p es q \<longrightarrow> list_all P (marks req es))"

named_theorems leaving \<open>rules for the marks of a program\<close>

lemma leaves_Ret [leaving]: "leaves req P (Ret x)"
  by (simp add: leaves_def)

lemma leaves_Do:
  "(\<And>r. list_all P (marks_of req (a, r))) \<Longrightarrow> (\<And>r. leaves req P (k r)) \<Longrightarrow> leaves req P (Do a k)"
  unfolding leaves_def by (fastforce simp: walk_Do)

lemma leaves_bind [leaving]:
  "leaves req P p \<Longrightarrow> (\<And>x. leaves req P (f x)) \<Longrightarrow> leaves req P (bind_io p f)"
  unfolding leaves_def walk_bind by fastforce

lemma leaves_cases [leaving]:
  "leaves req P p \<Longrightarrow> leaves req P q \<Longrightarrow> leaves req P (if b then p else q)"
  "leaves req P p \<Longrightarrow> (\<And>e. leaves req P (g e)) \<Longrightarrow> leaves req P (case err of None \<Rightarrow> p | Some e \<Rightarrow> g e)"
  by (auto split: option.split)

lemma leaves_ops [leaving]:
  "leaves req P p \<Longrightarrow> leaves req P q \<Longrightarrow> leaves req P (interrupted_then p q)"
  "(\<And>m. leaves req P (k1 m)) \<Longrightarrow> leaves req P (ask_meta key k1)"
  "(\<And>u t. leaves req P (k2 u t)) \<Longrightarrow> leaves req P (ask_fresh k2)"
  "(\<And>n. leaves req P (k3 n)) \<Longrightarrow> leaves req P (ask_int (OpSize path) k3)"
  "(\<And>b. leaves req P (k4 b)) \<Longrightarrow> leaves req P (ask_bool (OpCacheGet key) k4)"
  "leaves req P p \<Longrightarrow> leaves req P (act (OpCacheSet key) p)"
  "leaves req P p \<Longrightarrow> leaves req P (act OpWgDone p)"
  "leaves req P p \<Longrightarrow> leaves req P (act OpRelease p)"
  "leaves req P p \<Longrightarrow> leaves req P (act (OpStamp f s e) p)"
  by (simp_all add: io_defs leaves_Do)

lemma leaves_update [leaving]:
  "P (Recorded f u) \<Longrightarrow> leaves req P p \<Longrightarrow> leaves req P (act (OpUpdate f u) p)"
  by (simp add: act_def leaves_Do)

text \<open>Calls other than sending and flushing leave nothing.\<close>

definition silent_call :: "replay_call \<Rightarrow> bool" where
  "silent_call c \<longleftrightarrow> (case c of Send _ _ _ \<Rightarrow> False | FlushProducer _ \<Rightarrow> False | _ \<Rightarrow> True)"

lemma leaves_call [leaving]:
  "silent_call c \<Longrightarrow> (\<And>e. leaves req P (k e)) \<Longrightarrow> leaves req P (ask_call c k)"
  "silent_call c \<Longrightarrow> leaves req P p \<Longrightarrow> leaves req P (act (OpCall c) p)"
  by (cases c; simp add: silent_call_def io_defs leaves_Do)+

lemma leaves_try [leaving]: "leaves req P p \<Longrightarrow> leaves req P q \<Longrightarrow> leaves req P (try_io p q)"
  unfolding try_io_def by (intro leaving)

lemma leaves_connections [leaving]:
  "leaves req P (createAwsConnection input)" "leaves req P (getOrCreateS3Connection input)"
  "leaves req P (CreateDirIfNotExist dir)"
  unfolding getOrCreateS3Connection_def createAwsConnection_def CreateDirIfNotExist_def Let_def
  by (intro leaving; simp add: silent_call_def)+

lemma leaves_azure [leaving]:
  "leaves req P (getClientWithUserDelegatedSAS env config)"
  "leaves req P (getClientWithServicePrincipal config)"
  "leaves req P (GetAzureBlobClient env config)"
  unfolding GetAzureBlobClient_def getClientWithUserDelegatedSAS_def getClientWithServicePrincipal_def Let_def
  by (intro leaving; simp add: silent_call_def)+

lemma leaves_downloads [leaving]:
  "leaves req P (downloadFileFromS3 dir input f)" "leaves req P (downloadFileFromAzureBlob env dir input f)"
  unfolding downloadFileFromS3_def downloadFileFromAzureBlob_def Let_def
  by (intro leaving; simp add: silent_call_def)+

lemma leaves_file_download [leaving]: "leaves req P (file_download env dir input f)"
  unfolding file_download_def Let_def by (intro leaving)

text \<open>Updates that record neither completion nor an offset.\<close>

definition minor :: "string \<Rightarrow> mark \<Rightarrow> bool" where
  "minor f m \<longleftrightarrow> (case m of Recorded g u \<Rightarrow> g = f \<and> UpOffset u = 0 \<and> UpStatus u \<noteq> StatusCompleted | _ \<Rightarrow> False)"

lemma minor_simps [simp]:
  "minor f (Recorded g u) \<longleftrightarrow> g = f \<and> UpOffset u = 0 \<and> UpStatus u \<noteq> StatusCompleted"
  "\<not> minor f (Sent t)" "\<not> minor f (Tokens ls)" "\<not> minor f Flushed"
  by (simp_all add: minor_def)

lemma update_simps [simp]:
  "UpOffset (set_status st) = 0" "UpStatus (set_status st) = st"
  "UpOffset (failed_update st e) = 0" "UpStatus (failed_update st e) = st"
  "UpOffset (checkpoint n b) = n" "UpStatus (checkpoint n b) = ''''"
  by (simp_all add: set_status_def failed_update_def checkpoint_def no_update_def)

lemma status_distinct [simp]:
  "StatusFailed \<noteq> StatusCompleted" "StatusProcessing \<noteq> StatusCompleted" "StatusDownloaded \<noteq> StatusCompleted"
  "StatusInProgress \<noteq> StatusCompleted" "StatusCompleted \<noteq> ''''" "StatusCompleted \<noteq> StatusFailed"
  by (simp_all add: status_defs)

lemma leaves_FileDownloader: "leaves req (minor f) (FileDownloader env dir input f mv)"
  unfolding FileDownloader_def by (intro leaving) simp

lemma walk_ops:
  "walk (interrupted_then p p') es q \<longleftrightarrow>
     es = [] \<and> q = interrupted_then p p'
     \<or> (\<exists>r fs. es = (OpInterrupted, r) # fs \<and> walk (if answered_true r then p else p') fs q)"
  "walk (act a p) es q \<longleftrightarrow> es = [] \<and> q = act a p \<or> (\<exists>r fs. es = (a, r) # fs \<and> walk p fs q)"
  by (auto simp: interrupted_then_def act_def walk_Do)

lemma ops_not_Ret [simp]:
  "interrupted_then p p' \<noteq> Ret x" "act a p \<noteq> Ret x" "ask_call c k \<noteq> Ret x" "ask_meta key k1 \<noteq> Ret x"
  "ask_int a k2 \<noteq> Ret x" "ask_fresh k3 \<noteq> Ret x" "ask_bool a k4 \<noteq> Ret x"
  by (simp_all add: io_defs)

lemmas Ret_not_ops [simp] = ops_not_Ret [symmetric]

text \<open>A download that fails does not record completion.\<close>

lemma FileDownloader_status:
  assumes "walk (FileDownloader env dir input f mv) es (Ret (Some e, st))"
  shows "st \<noteq> StatusCompleted"
proof -
  have "st \<noteq> StatusCompleted"
    if "walk (bind_io p (\<lambda>err. case err of Some e \<Rightarrow> Ret (Some e, StatusFailed)
          | None \<Rightarrow> act (OpUpdate f u) (Ret (None, '''')))) fs (Ret (Some e, st))" for p u fs
    using that unfolding walk_bind
  proof (elim disjE exE conjE)
    fix p' assume "Ret (Some e, st) = bind_io p' (\<lambda>err. case err of Some e \<Rightarrow> Ret (Some e, StatusFailed)
          | None \<Rightarrow> act (OpUpdate f u) (Ret (None, '''')))"
    then show ?thesis by (cases p') (auto split: option.splits dest: sym)
  qed (auto simp: walk_ops split: option.splits dest: sym)
  then show ?thesis
    using assms unfolding FileDownloader_def
    by (auto simp: walk_ops split: if_splits)
qed

section \<open>The marks of a file\<close>

text \<open>
  A file that is not finished: minor updates, and after its tokens were read a prefix of the marks of
  its lines.  A finished one: all lines sent, the producer flushed, and then completion recorded.
\<close>

definition unfinished_trace :: "replay_conf \<Rightarrow> Message \<Rightarrow> string \<Rightarrow> int \<Rightarrow> mark list \<Rightarrow> bool" where
  "unfinished_trace conf req f off ms \<longleftrightarrow>
     list_all (minor f) ms
     \<or> (\<exists>pq ls pre lm post. ms = pre @ Tokens ls # lm @ post
          \<and> list_all (minor f) pre \<and> list_all (minor f) post
          \<and> prefix lm (line_marks conf req f pq off ls 0 0))"

definition finished_trace :: "replay_conf \<Rightarrow> Message \<Rightarrow> string \<Rightarrow> int \<Rightarrow> mark list \<Rightarrow> bool" where
  "finished_trace conf req f off ms \<longleftrightarrow>
     (\<exists>pq ls pre post. ms = pre @ Tokens ls # line_marks conf req f pq off ls 0 0 @ Flushed # post
        \<and> list_all (minor f) pre \<and> prepared_lines conf req pq (drop (nat off) ls) \<noteq> None
        \<and> (post = [] \<or> (\<exists>u. post = [Recorded f u] \<and> UpOffset u = int (length ls)
                              \<and> UpStatus u = StatusCompleted)))"

definition file_trace :: "replay_conf \<Rightarrow> Message \<Rightarrow> string \<Rightarrow> int \<Rightarrow> mark list \<Rightarrow> bool" where
  "file_trace conf req f off ms \<longleftrightarrow> unfinished_trace conf req f off ms \<or> finished_trace conf req f off ms"

lemma minor_unfinished: "list_all (minor f) ms \<Longrightarrow> unfinished_trace conf req f off ms"
  by (simp add: unfinished_trace_def)

lemma unfinished_file: "unfinished_trace conf req f off ms \<Longrightarrow> file_trace conf req f off ms"
  by (simp add: file_trace_def)

lemma lines_unfinished:
  "list_all (minor f) pre \<Longrightarrow> prefix lm (line_marks conf req f pq off ls 0 0)
     \<Longrightarrow> unfinished_trace conf req f off (pre @ Tokens ls # lm)"
  unfolding unfinished_trace_def by (metis append_Nil2 list.pred_inject(1))

lemma unfinished_append:
  assumes "unfinished_trace conf req f off ms" and "list_all (minor f) ns"
  shows "unfinished_trace conf req f off (ms @ ns)"
  using assms(1) unfolding unfinished_trace_def
proof (elim disjE exE conjE)
  fix pq ls pre lm post
  assume "ms = pre @ Tokens ls # lm @ post" "list_all (minor f) pre" "list_all (minor f) post"
    and "prefix lm (line_marks conf req f pq off ls 0 0)"
  then have "ms @ ns = pre @ Tokens ls # lm @ (post @ ns) \<and> list_all (minor f) pre
      \<and> list_all (minor f) (post @ ns) \<and> prefix lm (line_marks conf req f pq off ls 0 0)"
    using assms(2) by simp
  then show "list_all (minor f) (ms @ ns) \<or> (\<exists>pq ls pre lm post. ms @ ns = pre @ Tokens ls # lm @ post
      \<and> list_all (minor f) pre \<and> list_all (minor f) post
      \<and> prefix lm (line_marks conf req f pq off ls 0 0))" by blast
qed (use assms(2) in simp)

text \<open>The programs whose runs, after the marks \<open>pre\<close>, are of this form.\<close>

definition reads_ok ::
  "replay_conf \<Rightarrow> Message \<Rightarrow> string \<Rightarrow> int \<Rightarrow> mark list \<Rightarrow> (go_error option \<times> string) io \<Rightarrow> bool" where
  "reads_ok conf req f off pre p \<longleftrightarrow>
     (\<forall>es q. walk p es q \<longrightarrow>
        file_trace conf req f off (pre @ marks req es)
        \<and> (\<forall>e st. q = Ret (Some e, st) \<longrightarrow>
             st \<noteq> StatusCompleted \<and> unfinished_trace conf req f off (pre @ marks req es)))"

lemma reads_ok_error:
  "unfinished_trace conf req f off pre \<Longrightarrow> st \<noteq> StatusCompleted
     \<Longrightarrow> reads_ok conf req f off pre (Ret (Some e, st))"
  by (simp add: reads_ok_def file_trace_def)

lemma reads_ok_done: "file_trace conf req f off pre \<Longrightarrow> reads_ok conf req f off pre (Ret (None, st))"
  by (simp add: reads_ok_def)

lemma reads_ok_Do:
  assumes "file_trace conf req f off pre" and "\<And>r. reads_ok conf req f off (pre @ marks_of req (a, r)) (k r)"
  shows "reads_ok conf req f off pre (Do a k)"
  unfolding reads_ok_def
proof (intro allI impI)
  fix es q assume "walk (Do a k) es q"
  then consider "es = []" "q = Do a k" | r fs where "es = (a, r) # fs" "walk (k r) fs q"
    by (auto simp: walk_Do)
  then show "file_trace conf req f off (pre @ marks req es)
    \<and> (\<forall>e st. q = Ret (Some e, st) \<longrightarrow>
         st \<noteq> StatusCompleted \<and> unfinished_trace conf req f off (pre @ marks req es))"
  proof cases
    case 1
    then show ?thesis using assms(1) by simp
  next
    case (2 r fs)
    then show ?thesis using assms(2) [of r] unfolding reads_ok_def by fastforce
  qed
qed

lemma reads_ok_ops:
  "file_trace conf req f off pre \<Longrightarrow> reads_ok conf req f off pre p \<Longrightarrow> reads_ok conf req f off pre p'
     \<Longrightarrow> reads_ok conf req f off pre (interrupted_then p p')"
  "file_trace conf req f off pre \<Longrightarrow> (\<And>n. reads_ok conf req f off pre (k1 n))
     \<Longrightarrow> reads_ok conf req f off pre (ask_int (OpSize path) k1)"
  "file_trace conf req f off pre \<Longrightarrow> reads_ok conf req f off (pre @ [Recorded f u]) p
     \<Longrightarrow> reads_ok conf req f off pre (act (OpUpdate f u) p)"
  "file_trace conf req f off pre \<Longrightarrow> reads_ok conf req f off (pre @ [Flushed]) p
     \<Longrightarrow> reads_ok conf req f off pre (act (OpCall (FlushProducer ms)) p)"
  by (simp_all add: io_defs reads_ok_Do)

lemma reads_ok_call:
  "silent_call c \<Longrightarrow> file_trace conf req f off pre \<Longrightarrow> (\<And>e. reads_ok conf req f off pre (k e))
     \<Longrightarrow> reads_ok conf req f off pre (ask_call c k)"
  "silent_call c \<Longrightarrow> file_trace conf req f off pre \<Longrightarrow> reads_ok conf req f off pre p
     \<Longrightarrow> reads_ok conf req f off pre (act (OpCall c) p)"
  by (cases c; simp add: silent_call_def io_defs reads_ok_Do)+

text \<open>The loop over the lines and what follows it.\<close>

lemma reads_ok_lines:
  assumes pre: "list_all (minor f) pre"
  shows "reads_ok conf req f off (pre @ [Tokens ls])
    (bind_io (replay_lines conf req topic f pq off ls 0 0) (\<lambda>res.
       case res of
         Inl failure \<Rightarrow> Ret failure
       | Inr (lineCounter, byteSize) \<Rightarrow>
           act (OpCall (FlushProducer 10000))
             (act (OpUpdate f ((checkpoint lineCounter byteSize)\<lparr>UpStatus := StatusCompleted\<rparr>))
               (act (OpCall (RemoveLocal filePath)) (Ret (None, ''''))))))" (is "reads_ok _ _ _ _ _ (bind_io ?p ?g)")
  unfolding reads_ok_def
proof (intro allI impI)
  fix es q
  let ?lm = "line_marks conf req f pq off ls 0 0"
  let ?goal = "\<lambda>ms q. file_trace conf req f off ms
    \<and> (\<forall>e st. q = Ret (Some e, st) \<longrightarrow> st \<noteq> StatusCompleted \<and> unfinished_trace conf req f off ms)"
  assume "walk (bind_io ?p ?g) es q"
  then show "?goal ((pre @ [Tokens ls]) @ marks req es) q"
    unfolding walk_bind
  proof (elim disjE exE conjE)
    fix p' assume w: "walk ?p es p'" and q: "q = bind_io p' ?g"
    have "unfinished_trace conf req f off (pre @ Tokens ls # marks req es)"
      using replay_lines_walk [OF w] pre by (blast intro: lines_unfinished)
    moreover have "st \<noteq> StatusCompleted" if "q = Ret (Some e, st)" for e st
      using that q replay_lines_walk [OF w]
      by (cases p') (auto split: sum.splits prod.splits dest: sym)
    ultimately show ?thesis by (simp add: file_trace_def)
  next
    fix es1 es2 x
    assume es: "es = es1 @ es2" and w1: "walk ?p es1 (Ret x)" and w2: "walk (?g x) es2 q"
    show ?thesis
    proof (cases x)
      case (Inl failure)
      then have "unfinished_trace conf req f off (pre @ Tokens ls # marks req es1)"
        using replay_lines_walk [OF w1] pre by (blast intro: lines_unfinished)
      then show ?thesis
        using es w2 Inl replay_lines_walk [OF w1] by (cases failure) (simp add: file_trace_def)
    next
      case (Inr nb)
      then obtain n b where x: "x = Inr (n, b)" by (cases nb) auto
      then have m: "marks req es1 = ?lm" "n = int (length ls)"
        and prep: "prepared_lines conf req pq (drop (nat off) ls) \<noteq> None"
        using replay_lines_walk [OF w1] by auto
      have fin: "finished_trace conf req f off (pre @ Tokens ls # ?lm @ Flushed # post)"
        if "post = [] \<or> (\<exists>u. post = [Recorded f u] \<and> UpOffset u = int (length ls) \<and> UpStatus u = StatusCompleted)"
        for post using that pre prep unfolding finished_trace_def by blast
      have "reads_ok conf req f off (pre @ Tokens ls # ?lm) (?g x)"
        unfolding x using fin [of "[]"] lines_unfinished [OF pre prefix_order.refl, where conf = conf and req = req and pq = pq and off = off and ls = ls]
          fin [of "[Recorded f ((checkpoint n b)\<lparr>UpStatus := StatusCompleted\<rparr>)]"] m(2)
        by (auto intro!: reads_ok_ops reads_ok_call reads_ok_done simp: silent_call_def file_trace_def)
      then show ?thesis using w2 es m(1) unfolding reads_ok_def by simp
    qed
  qed
qed

lemma reads_ok_tokens:
  assumes pre: "list_all (minor f) pre"
    and k: "\<And>pq ls. reads_ok conf req f off (pre @ [Tokens ls]) (k pq (Inr ls))"
    and e: "\<And>pq e. reads_ok conf req f off pre (k pq (Inl e))"
  shows "reads_ok conf req f off pre (file_tokens req f path k)"
proof -
  have f: "file_trace conf req f off pre" using pre by (simp add: minor_unfinished unfinished_file)
  have lines: "reads_ok conf req f off pre (Do (OpLines path gz) (\<lambda>r.
      k False (case lines_reply r of Inl e \<Rightarrow> Inl (fail e) | Inr (ls, err) \<Rightarrow> Inr ls)))" for gz fail
    by (rule reads_ok_Do [OF f]) (auto simp: k e split: sum.split)
  moreover have "reads_ok conf req f off pre (Do (OpParquet path) (\<lambda>r. k True (case r of
      RParquet g \<Rightarrow> (case NewParquetScanner g path (map_get (RqAdditionalConfig req) ''forward_data_type'') of
          Inl e \<Rightarrow> Inl e | Inr s \<Rightarrow> Inr (scan_texts s))
    | _ \<Rightarrow> Inr [])))"
    by (rule reads_ok_Do [OF f]) (auto simp: k e split: sum.split reply.split)
  ultimately show ?thesis
    unfolding file_tokens_def Let_def by (auto simp: e)
qed

lemma reads_ok_cases:
  "reads_ok conf req f off pre p \<Longrightarrow> (\<And>e. reads_ok conf req f off pre (g e))
     \<Longrightarrow> reads_ok conf req f off pre (case err of None \<Rightarrow> p | Some e \<Rightarrow> g e)"
  "list_all (minor f) pre \<Longrightarrow> (\<And>pq ls. reads_ok conf req f off (pre @ [Tokens ls]) (k pq ls))
     \<Longrightarrow> (\<And>e. reads_ok conf req f off pre (h e))
     \<Longrightarrow> reads_ok conf req f off pre
           (file_tokens req f path (\<lambda>pq t. case t of Inl e \<Rightarrow> h e | Inr ls \<Rightarrow> k pq ls))"
  by (auto intro: reads_ok_tokens split: option.split)

lemma ReadAndProduce_ok:
  "list_all (minor f) pre \<Longrightarrow> reads_ok conf req f off pre (ReadAndProduce conf dir f off topic req)"
  unfolding ReadAndProduce_def Let_def interrupt_result_def
  by (intro reads_ok_ops reads_ok_call reads_ok_cases reads_ok_lines reads_ok_error)
    (simp_all add: silent_call_def minor_unfinished unfinished_file)

section \<open>The goroutine of a file\<close>

definition meta_reply :: "reply \<Rightarrow> MetaDataValue option" where
  "meta_reply r = (case r of RMeta m \<Rightarrow> m | _ \<Rightarrow> None)"

lemma walk_meta:
  "walk (ask_meta key k) es q \<longleftrightarrow>
     es = [] \<and> q = ask_meta key k \<or> (\<exists>r fs. es = (OpGetMeta key, r) # fs \<and> walk (k (meta_reply r)) fs q)"
  by (auto simp: ask_meta_def meta_reply_def walk_Do)

lemma leaves_ask_meta_marks [simp]: "marks_of req (OpGetMeta key, r) = []" "marks_of req (OpInterrupted, r) = []"
  by simp_all

lemma list_all_False [simp]: "list_all (\<lambda>_. False) xs \<longleftrightarrow> xs = []"
  by (cases xs) auto

text \<open>The part of \<open>file_body\<close> after the metadata was found.\<close>

definition found_body :: "replay_conf \<Rightarrow> string \<Rightarrow> Message \<Rightarrow> string \<Rightarrow> MetaDataValue \<Rightarrow> unit io" where
  "found_body conf dir req f mv =
     interrupted_then (Ret ())
       (bind_io (FileDownloader (rcEnv conf) dir req f mv) (\<lambda>(err, status).
         case err of
           Some e \<Rightarrow> act (OpUpdate f (failed_update status e)) (Ret ())
         | None \<Rightarrow>
           interrupted_then (Ret ())
             (bind_io (ReadAndProduce conf dir f (MdOffset mv) (RqDestinationTopic req) req) (\<lambda>(err, status).
               case err of
                 Some e \<Rightarrow> act (OpUpdate f (failed_update status e)) (Ret ())
               | None \<Rightarrow> Ret ()))))"

lemma read_part_trace:
  assumes pre: "list_all (minor f) pre"
    and w: "walk (bind_io (ReadAndProduce conf dir f off topic req) (\<lambda>(err, status).
               case err of
                 Some e \<Rightarrow> act (OpUpdate f (failed_update status e)) (Ret ())
               | None \<Rightarrow> Ret ())) es q"
  shows "file_trace conf req f off (pre @ marks req es)"
  using w unfolding walk_bind
proof (elim disjE exE conjE)
  fix p' assume "walk (ReadAndProduce conf dir f off topic req) es p'"
  then show ?thesis using ReadAndProduce_ok [OF pre] unfolding reads_ok_def by blast
next
  fix es1 es2 x
  assume es: "es = es1 @ es2" and w1: "walk (ReadAndProduce conf dir f off topic req) es1 (Ret x)"
    and w2: "walk (case x of (err, status) \<Rightarrow> case err of None \<Rightarrow> Ret ()
      | Some e \<Rightarrow> act (OpUpdate f (failed_update status e)) (Ret ())) es2 q"
  obtain err st where x: "x = (err, st)" by fastforce
  have ok: "file_trace conf req f off (pre @ marks req es1)"
    "\<And>e. err = Some e \<Longrightarrow> st \<noteq> StatusCompleted \<and> unfinished_trace conf req f off (pre @ marks req es1)"
    using ReadAndProduce_ok [OF pre, of conf req off dir topic] w1 x unfolding reads_ok_def by blast+
  show ?thesis
  proof (cases err)
    case None
    then show ?thesis using w2 x es ok(1) by simp
  next
    case (Some e)
    then have "es2 = [] \<or> (\<exists>r. es2 = [(OpUpdate f (failed_update st e), r)])"
      using w2 x by (auto simp: walk_ops)
    then have "list_all (minor f) (marks req es2)" using ok(2) Some by auto
    then show ?thesis
      using unfinished_append [of conf req f off "pre @ marks req es1" "marks req es2"] ok(2) Some es
      by (simp add: file_trace_def)
  qed
qed

lemma found_body_trace:
  assumes "walk (found_body conf dir req f mv) es q"
  shows "file_trace conf req f (MdOffset mv) (marks req es)"
proof -
  let ?rest = "\<lambda>(err, status).
         case err of
           Some e \<Rightarrow> act (OpUpdate f (failed_update status e)) (Ret ())
         | None \<Rightarrow>
           interrupted_then (Ret ())
             (bind_io (ReadAndProduce conf dir f (MdOffset mv) (RqDestinationTopic req) req) (\<lambda>(err, status).
               case err of
                 Some e \<Rightarrow> act (OpUpdate f (failed_update status e)) (Ret ())
               | None \<Rightarrow> Ret ()))"
  have dl: "list_all (minor f) (marks req fs)"
    if "walk (FileDownloader (rcEnv conf) dir req f mv) fs p'" for fs p'
    using that leaves_FileDownloader [of req f "rcEnv conf" dir req mv] unfolding leaves_def by blast
  have body: "file_trace conf req f (MdOffset mv) (marks req fs)"
    if "walk (bind_io (FileDownloader (rcEnv conf) dir req f mv) ?rest) fs q" for fs
    using that unfolding walk_bind
  proof (elim disjE exE conjE)
    fix p' assume "walk (FileDownloader (rcEnv conf) dir req f mv) fs p'"
    then show ?thesis using dl by (simp add: minor_unfinished unfinished_file)
  next
    fix es1 es2 x
    assume fs: "fs = es1 @ es2" and w1: "walk (FileDownloader (rcEnv conf) dir req f mv) es1 (Ret x)"
      and w2: "walk (?rest x) es2 q"
    obtain err st where x: "x = (err, st)" by fastforce
    show ?thesis
    proof (cases err)
      case None
      then have "walk (interrupted_then (Ret ())
          (bind_io (ReadAndProduce conf dir f (MdOffset mv) (RqDestinationTopic req) req) (\<lambda>(err, status).
             case err of
               Some e \<Rightarrow> act (OpUpdate f (failed_update status e)) (Ret ())
             | None \<Rightarrow> Ret ()))) es2 q"
        using w2 x by simp
      then show ?thesis
        using fs dl [OF w1] read_part_trace [OF dl [OF w1]]
        by (auto simp: walk_ops minor_unfinished unfinished_file split: if_splits)
    next
      case (Some e)
      then have "st \<noteq> StatusCompleted" using FileDownloader_status w1 x by blast
      then have "list_all (minor f) (marks req es2)"
        using w2 x Some by (auto simp: walk_ops)
      then show ?thesis using fs dl [OF w1] by (simp add: minor_unfinished unfinished_file)
    qed
  qed
  show ?thesis
    using assms body unfolding found_body_def
    by (auto simp: walk_ops minor_unfinished unfinished_file split: if_splits)
qed

text \<open>Every run of a goroutine of a file, with the metadata it was given.\<close>

lemma file_worker_trace:
  assumes "walk (file_worker conf dir req f) es q"
  shows "list_all (minor f) (marks req es)
    \<or> (\<exists>r0 r mv fs. es = (OpInterrupted, r0) # (OpGetMeta f, r) # fs \<and> meta_reply r = Some mv
         \<and> file_trace conf req f (MdOffset mv) (marks req es))"
proof -
  have tail: "leaves req (\<lambda>_. False) (act (OpStamp f False True) (act OpWgDone (act OpRelease (Ret ()))))"
    by (intro leaving)
  have body: "list_all (minor f) (marks req fs)
    \<or> (\<exists>r0 r mv gs. fs = (OpInterrupted, r0) # (OpGetMeta f, r) # gs \<and> meta_reply r = Some mv
         \<and> file_trace conf req f (MdOffset mv) (marks req fs))"
    if w: "walk (file_body conf dir req f) fs p" for fs p
  proof -
    have fb: "file_body conf dir req f = interrupted_then (Ret ()) (ask_meta f (\<lambda>found.
        case found of
          None \<Rightarrow> act (OpUpdate f (failed_update StatusFailed ''metadata not found'')) (Ret ())
        | Some mv \<Rightarrow> found_body conf dir req f mv))"
      unfolding file_body_def found_body_def ..
    from w consider "marks req fs = []"
      | r0 r gs where "fs = (OpInterrupted, r0) # (OpGetMeta f, r) # gs"
          "walk (case meta_reply r of
              None \<Rightarrow> act (OpUpdate f (failed_update StatusFailed ''metadata not found'')) (Ret ())
            | Some mv \<Rightarrow> found_body conf dir req f mv) gs p"
      unfolding fb by (auto simp: walk_ops(1) walk_meta split: if_splits)
    then show ?thesis
    proof cases
      case (2 r0 r gs)
      show ?thesis
      proof (cases "meta_reply r")
        case None
        then show ?thesis using 2 by (auto simp: walk_ops)
      next
        case (Some mv)
        then show ?thesis using 2 found_body_trace [of conf dir req f mv gs p] by auto
      qed
    qed simp
  qed
  from assms show ?thesis
    unfolding file_worker_def walk_bind
  proof (elim disjE exE conjE)
    fix p' assume "walk (file_body conf dir req f) es p'"
    then show ?thesis using body by blast
  next
    fix es1 es2 x
    assume es: "es = es1 @ es2" and w: "walk (file_body conf dir req f) es1 (Ret x)"
      and "walk (act (OpStamp f False True) (act OpWgDone (act OpRelease (Ret ())))) es2 q"
    then have "marks req es2 = []" using tail unfolding leaves_def by (metis list_all_False)
    then have m: "marks req es = marks req es1" using es by simp
    show ?thesis using body [OF w] unfolding m unfolding es by auto
  qed
qed

end
