(* ===== verification/Replay_Safety.thy ===== *)
theory Replay_Safety
  imports Replay_Trace
begin

text \<open>
  What the replay job guarantees, in whatever order its goroutines run and whenever a signal comes:
  a file is completed only after all its lines were handed to the producer; the recorded offset never
  runs ahead of what was sent, so that a resumed job leaves nothing out and repeats little; the shutdown
  hook leaves no file open; and every run ends.
\<close>

section \<open>Offsets and messages\<close>

text \<open>The messages among the operations of a goroutine, and among its marks.\<close>

fun event_text :: "replay_event \<Rightarrow> string list" where
  "event_text (OpCall (Send hs txt topic), r) = [txt]"
| "event_text _ = []"

definition sent_texts :: "replay_event list \<Rightarrow> string list" where
  "sent_texts es = concat (map event_text es)"

fun mark_text :: "mark \<Rightarrow> string list" where
  "mark_text (Sent t) = [t]"
| "mark_text _ = []"

definition mark_texts :: "mark list \<Rightarrow> string list" where
  "mark_texts ms = concat (map mark_text ms)"

lemma mark_texts_simps [simp]:
  "mark_texts [] = []" "mark_texts (Sent t # ms) = t # mark_texts ms"
  "mark_texts (Recorded f u # ms) = mark_texts ms" "mark_texts (Tokens ls # ms) = mark_texts ms"
  "mark_texts (Flushed # ms) = mark_texts ms" "mark_texts (ms @ ns) = mark_texts ms @ mark_texts ns"
  by (simp_all add: mark_texts_def)

lemma event_text_marks: "event_text e = mark_texts (marks_of req e)"
proof (cases e)
  case (Pair a r)
  show ?thesis
  proof (cases a)
    case (OpCall c)
    then show ?thesis using Pair by (cases c) simp_all
  qed (use Pair in \<open>auto split: sum.split option.split reply.split\<close>)
qed

lemma sent_texts_marks: "sent_texts es = mark_texts (marks req es)"
  by (induction es) (simp_all add: sent_texts_def event_text_marks [of _ req])

text \<open>The offset of a file after some updates: the last one that is not zero.\<close>

definition next_offset :: "string \<Rightarrow> mark \<Rightarrow> int \<Rightarrow> int" where
  "next_offset f m c =
     (case m of Recorded g u \<Rightarrow> if g = f \<and> UpOffset u \<noteq> 0 then UpOffset u else c | _ \<Rightarrow> c)"

definition mark_offset :: "string \<Rightarrow> mark list \<Rightarrow> int \<Rightarrow> int" where
  "mark_offset f ms c = fold (next_offset f) ms c"

lemma mark_offset_simps [simp]:
  "mark_offset f [] c = c" "mark_offset f (Sent t # ms) c = mark_offset f ms c"
  "mark_offset f (Recorded g u # ms) c
     = mark_offset f ms (if g = f \<and> UpOffset u \<noteq> 0 then UpOffset u else c)"
  "mark_offset f (Tokens ls # ms) c = mark_offset f ms c" "mark_offset f (Flushed # ms) c = mark_offset f ms c"
  "mark_offset f (ms @ ns) c = mark_offset f ns (mark_offset f ms c)"
  by (simp_all add: mark_offset_def next_offset_def)

lemma minor_marks:
  assumes "list_all (minor f) ms"
  shows "mark_texts ms = []" "mark_offset g ms c = c"
  using assms by (induction ms arbitrary: c) (auto simp: minor_def split: mark.splits)

text \<open>
  While lines are sent, with \<open>c\<close> the last recorded offset: there is no multiple of 10000 between it and
  the line that is next, so it is close to it.
\<close>

definition pending :: "int \<Rightarrow> int \<Rightarrow> bool" where
  "pending c n \<longleftrightarrow> c \<le> n \<and> (\<forall>m. c < m \<and> m < n \<longrightarrow> m mod 10000 \<noteq> 0)"

lemma pending_bound: "pending c n \<Longrightarrow> n \<le> c + 10000"
proof (rule ccontr)
  assume p: "pending c n" and n: "\<not> n \<le> c + 10000"
  define q r where "q = c div 10000" and "r = c mod 10000"
  define m where "m = 10000 * (q + 1)"
  have "c = 10000 * q + r" "0 \<le> r" "r < 10000" by (simp_all add: q_def r_def)
  then have "c < m \<and> m \<le> c + 10000" unfolding m_def by auto
  then have "c < m \<and> m < n" using n by auto
  moreover have "10000 dvd m" unfolding m_def by (rule dvd_triv_left)
  then have "m mod 10000 = 0" by (rule dvd_imp_mod_0)
  moreover have "\<forall>m. c < m \<and> m < n \<longrightarrow> m mod 10000 \<noteq> 0" using p unfolding pending_def by (rule conjunct2)
  ultimately show False by (metis (no_types))
qed

lemma line_marks_prefix:
  assumes "prefix lm (line_marks conf req f pq off ls n b)" and "off \<le> n" and "0 \<le> c" and "pending c n"
  shows "length (mark_texts lm) \<le> length ls
     \<and> prepared_lines conf req pq (take (length (mark_texts lm)) ls) = Some (mark_texts lm)
     \<and> c \<le> mark_offset f lm c \<and> mark_offset f lm c \<le> n + int (length (mark_texts lm))
     \<and> (mark_offset f lm c = c \<or> n \<le> mark_offset f lm c)
     \<and> n + int (length (mark_texts lm)) \<le> mark_offset f lm c + 10001"
  using assms
proof (induction ls arbitrary: lm n b c)
  case Nil
  then show ?case using pending_bound [OF Nil.prems(4)] by (simp add: pending_def)
next
  case (Cons line ls)
  let ?b = "wrap64 (b + int (length line))"
  let ?rest = "line_marks conf req f pq off ls (n + 1) ?b"
  have cn: "c \<le> n" using Cons.prems(4) by (simp add: pending_def)
  show ?case
  proof (cases "prepareReplayLine (rcParse conf) line req pq")
    case (Inl e)
    then have "lm = []" using Cons.prems(1,2) by (simp add: Let_def)
    then show ?thesis using pending_bound [OF Cons.prems(4)] cn by simp
  next
    case (Inr t)
    have n: "go_mod n 10000 = n mod 10000" using Cons.prems(3) cn by simp
    have step: ?thesis if "prefix lm' ?rest" "0 \<le> c'" "pending c' (n + 1)" "mark_texts lm = t # mark_texts lm'"
      "mark_offset f lm c = mark_offset f lm' c'" "c' = c \<or> c' = n" "c \<le> c'" for lm' c'
      using Cons.IH [OF that(1) _ that(2,3)] that(4-) Cons.prems(2) Inr
        pending_bound [OF Cons.prems(4)] cn by auto
    show ?thesis
    proof (cases "lm = [] \<or> lm = [Sent t]")
      case True
      then show ?thesis using Inr pending_bound [OF Cons.prems(4)] cn by auto
    next
      case False
      show ?thesis
      proof (cases "n mod 10000 = 0")
        case mult: True
        then have "prefix lm (Sent t # Recorded f (checkpoint n ?b) # ?rest)"
          using Cons.prems(1,2) Inr n by (simp add: Let_def)
        then obtain lm' where lm: "lm = Sent t # Recorded f (checkpoint n ?b) # lm'" "prefix lm' ?rest"
          using False by (auto simp: prefix_Cons)
        have "n = 0 \<Longrightarrow> c = n" using Cons.prems(3) cn by simp
        then have "mark_offset f lm c = mark_offset f lm' n" using lm by auto
        then show ?thesis using step [OF lm(2), of n] lm(1) cn Cons.prems(3) by (simp add: pending_def)
      next
        case other: False
        then have "prefix lm (Sent t # ?rest)" using Cons.prems(1,2) Inr n by (simp add: Let_def)
        then obtain lm' where lm: "lm = Sent t # lm'" "prefix lm' ?rest"
          using False by (auto simp: prefix_Cons)
        have "pending c (n + 1)"
          using Cons.prems(4) other unfolding pending_def by (metis linorder_not_le nless_le zle_add1_eq_le zless_add1_eq)
        then show ?thesis using step [OF lm(2), of c] lm(1) Cons.prems(3) by simp
      qed
    qed
  qed
qed

text \<open>Lines before the offset leave nothing.\<close>

lemma line_marks_skip:
  "n \<le> off \<Longrightarrow> \<exists>b'. line_marks conf req f pq off ls n b
     = line_marks conf req f pq off (drop (nat (off - n)) ls) off b'"
proof (induction ls arbitrary: n b)
  case (Cons line ls)
  show ?case
  proof (cases "n = off")
    case False
    then have "nat (off - n) = Suc (nat (off - (n + 1)))" using Cons.prems by simp
    then show ?thesis
      using Cons.IH [of "n + 1" "wrap64 (b + int (length line))"] Cons.prems False by (simp add: Let_def)
  qed auto
qed simp

lemma prepared_lines_prefix:
  "prepared_lines conf req pq xs = Some ts \<Longrightarrow> prepared_lines conf req pq (take k xs) = Some (take k ts)"
proof (induction xs arbitrary: ts k)
  case (Cons x xs)
  then show ?case by (cases k) (auto split: sum.splits option.splits)
qed simp

lemma prepared_lines_length: "prepared_lines conf req pq xs = Some ts \<Longrightarrow> length ts = length xs"
  by (induction xs arbitrary: ts) (auto split: sum.splits)

text \<open>
  The offset never runs ahead: after any marks of a file the lines between the two offsets were sent,
  in order, and at most 10001 lines beyond the offset.
\<close>

definition offset_safe :: "replay_conf \<Rightarrow> Message \<Rightarrow> int \<Rightarrow> int \<Rightarrow> string list \<Rightarrow> string list \<Rightarrow> bool" where
  "offset_safe conf req off off' ls sent \<longleftrightarrow>
     (\<exists>pq ts. prepared_lines conf req pq (drop (nat off) (take (nat off') ls)) = Some ts \<and> prefix ts sent
        \<and> prepared_lines conf req pq (take (length sent) (drop (nat off) ls)) = Some sent)
     \<and> off' \<le> int (length ls) \<and> int (length sent) \<le> max 0 (off' - off) + 10001"

lemma line_marks_complete:
  "prepared_lines conf req pq ls = Some ts \<Longrightarrow> off \<le> n
     \<Longrightarrow> mark_texts (line_marks conf req f pq off ls n b) = ts"
proof (induction ls arbitrary: n b ts)
  case (Cons line ls)
  then show ?case by (auto simp: Let_def split: sum.splits)
qed simp

lemma line_marks_start:
  assumes "0 \<le> off"
  shows "\<exists>b'. line_marks conf req f pq off ls 0 0 = line_marks conf req f pq off (drop (nat off) ls) off b'"
  using line_marks_skip [of 0 off conf req f pq ls 0] assms by simp

lemma prefix_offset_safe:
  assumes "prefix lm (line_marks conf req f pq off ls 0 0)" and "0 \<le> off"
    and moved: "mark_offset f lm off \<noteq> off \<or> mark_texts lm \<noteq> []"
  shows "offset_safe conf req off (mark_offset f lm off) ls (mark_texts lm)"
proof -
  let ?c = "mark_offset f lm off" and ?k = "length (mark_texts lm)"
  obtain b' where "prefix lm (line_marks conf req f pq off (drop (nat off) ls) off b')"
    using assms(1) line_marks_start [OF assms(2), of conf req f pq ls] by auto
  moreover have "pending off off" by (simp add: pending_def)
  ultimately have l: "?k \<le> length (drop (nat off) ls)"
      "prepared_lines conf req pq (take ?k (drop (nat off) ls)) = Some (mark_texts lm)"
      "off \<le> ?c" "?c \<le> off + int ?k" "off + int ?k \<le> ?c + 10001"
    using line_marks_prefix [of lm conf req f pq off "drop (nat off) ls" off b' off] assms(2) by auto
  have "drop (nat off) (take (nat ?c) ls) = take (nat ?c - nat off) (drop (nat off) ls)"
    by (rule drop_take)
  also have "\<dots> = take (nat ?c - nat off) (take ?k (drop (nat off) ls))"
  proof -
    have "nat ?c - nat off \<le> ?k" using l(3,4) assms(2) by linarith
    then show ?thesis by (simp add: min_absorb1)
  qed
  finally have "prepared_lines conf req pq (drop (nat off) (take (nat ?c) ls))
      = Some (take (nat ?c - nat off) (mark_texts lm))"
    using prepared_lines_prefix [OF l(2)] by simp
  moreover have "0 < ?k" using moved l(3,4) by (cases "mark_texts lm") auto
  then have "nat off + ?k \<le> length ls" using l(1) unfolding length_drop by linarith
  then have "?c \<le> int (length ls)" using l(4) assms(2) by linarith
  ultimately show ?thesis
    unfolding offset_safe_def using l by (auto intro!: exI [of _ pq] take_is_prefix)
qed

lemma file_trace_cases:
  assumes "file_trace conf req f off ms"
  obtains (minor) "list_all (minor f) ms"
    | (some_lines) pq ls pre lm post where "ms = pre @ Tokens ls # lm @ post"
        "list_all (minor f) pre" "list_all (minor f) post"
        "prefix lm (line_marks conf req f pq off ls 0 0)"
    | (all_lines) pq ls pre post where
        "ms = pre @ Tokens ls # line_marks conf req f pq off ls 0 0 @ Flushed # post"
        "list_all (minor f) pre" "prepared_lines conf req pq (drop (nat off) ls) \<noteq> None"
        "post = [] \<or> (\<exists>u. post = [Recorded f u] \<and> UpOffset u = int (length ls) \<and> UpStatus u = StatusCompleted)"
  using assms unfolding file_trace_def unfinished_trace_def finished_trace_def by blast

lemma file_trace_offset:
  assumes tr: "file_trace conf req f off ms" and off: "0 \<le> off"
    and moved: "mark_offset f ms off \<noteq> off \<or> mark_texts ms \<noteq> []"
  shows "\<exists>ls. Tokens ls \<in> set ms \<and> offset_safe conf req off (mark_offset f ms off) ls (mark_texts ms)"
  using tr
proof (cases rule: file_trace_cases)
  case (some_lines pq ls pre lm post)
  note ms = some_lines(1) and m = some_lines(2,3) and lm = some_lines(4)
  have "mark_offset f ms off = mark_offset f lm off" "mark_texts ms = mark_texts lm"
    using ms m by (simp_all add: minor_marks)
  then show ?thesis using prefix_offset_safe [OF lm off] moved ms by auto
next
  case (all_lines pq ls pre post)
  let ?lm = "line_marks conf req f pq off ls 0 0"
  note ms = all_lines(1) and m = all_lines(2) and prep = all_lines(3) and post = all_lines(4)
  have sent: "mark_texts ms = mark_texts ?lm" using ms m post by (auto simp: minor_marks)
  show ?thesis
  proof (cases "post = [] \<or> ls = []")
    case True
    then have o: "mark_offset f ms off = mark_offset f ?lm off"
      using ms m post by (auto simp: minor_marks)
    have "offset_safe conf req off (mark_offset f ms off) ls (mark_texts ms)"
      using moved unfolding o sent by (rule prefix_offset_safe [OF prefix_order.refl off])
    then show ?thesis using ms by auto
  next
    case False
    then have o: "mark_offset f ms off = int (length ls)" using ms m post by (auto simp: minor_marks)
    obtain ts where ts: "prepared_lines conf req pq (drop (nat off) ls) = Some ts" using prep by blast
    obtain b' where "?lm = line_marks conf req f pq off (drop (nat off) ls) off b'"
      using line_marks_start [OF off] by blast
    then have s: "mark_texts ms = ts" using line_marks_complete [OF ts] sent by simp
    have n: "length ts = length ls - nat off" using prepared_lines_length [OF ts] by simp
    then have "int (length ts) \<le> max 0 (int (length ls) - off)" using off by linarith
    then have "offset_safe conf req off (int (length ls)) ls ts"
      using ts n unfolding offset_safe_def by (auto intro!: exI [of _ pq])
    then show ?thesis unfolding o s using ms by auto
  qed
qed (use moved in \<open>simp add: minor_marks\<close>)

text \<open>A recorded completion comes after all lines were sent and the producer was flushed.\<close>

definition all_sent :: "replay_conf \<Rightarrow> Message \<Rightarrow> int \<Rightarrow> string list \<Rightarrow> string list \<Rightarrow> bool" where
  "all_sent conf req off ls sent \<longleftrightarrow> (\<exists>pq. prepared_lines conf req pq (drop (nat off) ls) = Some sent)"

lemma file_trace_completed:
  assumes tr: "file_trace conf req f off ms" and off: "0 \<le> off"
    and u: "Recorded f u \<in> set ms" "UpStatus u = StatusCompleted"
  shows "\<exists>ls. Tokens ls \<in> set ms \<and> Flushed \<in> set ms \<and> all_sent conf req off ls (mark_texts ms)"
proof -
  have nominor: "\<not> list_all (minor f) xs" if "Recorded f u \<in> set xs" for xs
    using that u(2) minor_simps(1) [of f f u] by (metis list_all_iff)
  have lines: "Recorded f u \<notin> set (line_marks conf req f pq off ls n b)" for pq ls n b
  proof (induction ls arbitrary: n b)
    case (Cons line ls)
    have "u \<noteq> checkpoint n b'" for b' using u(2) update_simps(6) [of n b'] status_distinct(5) by metis
    then show ?case using Cons by (auto simp: Let_def split: sum.splits)
  qed simp
  from tr show ?thesis
  proof (cases rule: file_trace_cases)
    case (some_lines pq ls pre lm post)
    then have "Recorded f u \<in> set lm" using nominor u(1) by auto
    then show ?thesis using lines set_mono_prefix [OF some_lines(4)] by blast
  next
    case (all_lines pq ls pre post)
    let ?lm = "line_marks conf req f pq off ls 0 0"
    obtain ts where ts: "prepared_lines conf req pq (drop (nat off) ls) = Some ts"
      using all_lines(3) by blast
    obtain b' where "?lm = line_marks conf req f pq off (drop (nat off) ls) off b'"
      using line_marks_start [OF off] by blast
    then have "mark_texts ms = ts"
      using line_marks_complete [OF ts] all_lines by (auto simp: minor_marks)
    then show ?thesis using ts all_lines(1) unfolding all_sent_def by auto
  qed (use nominor u(1) in blast)
qed

end
