(* ===== verification/Replay_Samples.thy ===== *)
theory Replay_Samples
  imports Replay_System
begin

text \<open>
  Runs of a small replay job, for the witnesses of its properties: one file of two lines in a bucket, no
  failures, the goroutines taking their steps in a given order.
\<close>

definition sample_header_names :: header_names where
  "sample_header_names =
     \<lparr>hnDeviceType = ''dt'', hnDeviceVendor = ''dv'', hnLogType = ''lt'', hnTenantId = ''tn'',
      hnEventSourceId = ''es'', hnEdgeId = ''ed'', hnFleetId = ''fl'', hnConnectorId = ''co'',
      hnEventId = ''ev'', hnEdgeTimestamp = ''ts'', hnPipelineDone = ''pd'', hnPipelineNext = ''pn'',
      hnSourceName = ''sn'', hnDestinationId = ''di'', hnPipelineId = ''pi'', hnDataReplayStage = ''rs''\<rparr>"

definition sample_conf :: replay_conf where
  "sample_conf = \<lparr>rcEnv = (\<lambda>_. ''''), rcParse = (\<lambda>_. Inl ''no JSON''), rcHeaderNames = sample_header_names,
                  rcTopicName = (\<lambda>t. t)\<rparr>"

definition sample_world :: replay_env where
  "sample_world =
     \<lparr>reNow = (\<lambda>_. 0), reUuid = (\<lambda>_. ''id''), reWrite = (\<lambda>_. None), reRange = (\<lambda>_ m. m), reCall = (\<lambda>_ _. None),
      reSize = (\<lambda>_ _. 4), reLines = (\<lambda>_ _ _. Inr ([''x'', ''yz''], None)), reParquet = (\<lambda>_ _. \<lparr>poReader = Inl (''no file'', False), poBytes = Inl ''no file'', poNewDecoder = None,
                                 poDecodeAll = Inr\<rparr>),
      reSecrets = (\<lambda>_ _ _. Inr [])\<rparr>"

definition sample_request :: Message where
  "sample_request =
     \<lparr>RqSource = ''src'', RqDestinationTopic = ''out'', RqNewSource = '''', RqRequestId = ''r1'', RqBucketName = ''b'', RqBucketPrefix = '''',
      RqAccessKeyID = '''', RqSecretAccessKey = '''', RqRegion = '''', RqFileName = [''d/a''], RqTenantId = ''t1'', RqDeviceType = '''',
      RqDeviceVendor = '''', RqLogType = '''', RqReplayType = ''UNDELIVERED'', RqFleetId = '''',
      RqConnectId = '''', RqAckId = '''', RqConcurrency = 1, RqSourceName = '''', RqDataStore = '''',
      RqAdditionalConfig = [], RqAdditionalHeaders = []\<rparr>"

text \<open>A file that was downloaded before, and the run that replays it.\<close>

definition sample_store :: replay_store where
  "sample_store =
     \<lparr>mst = \<lparr>metaMap = [(''GLOBAL'', zero_meta), (''a'', zero_meta\<lparr>MdStatus := ''DOWNLOAD'', MdKey := ''a''\<rparr>)],
             processList = [''a''], baseDir = ''b'', dataDir = ''b/data'', metaDir = ''b/meta'',
             metaFilePath = ''b/meta/metadata.json''\<rparr>,
      metaFile = NoFile\<rparr>"

definition sample_schedule :: "nat list" where
  "sample_schedule = replicate 5 0 @ replicate 26 2"

definition sample_run :: replay_sys where
  "sample_run = fold (scheduled_step sample_conf sample_world) sample_schedule
     (replay_start sample_request sample_store)"

text \<open>The whole run up to the end of the file's goroutine, and a run that a signal interrupts at once.\<close>

definition sample_fresh_env :: prepare_env where
  "sample_fresh_env =
     \<lparr>now_at = 0, write_fails = None, range_map = (\<lambda>m. m), mkdir_error = None, create_error = None,
      open_error = None, read_error = None\<rparr>"

definition sample_job :: "JobResult + replay_sys" where
  "sample_job = ExecuteReplayJob sample_conf ''out'' sample_fresh_env sample_request NoFile"

definition sample_start :: replay_sys where
  "sample_start = (case sample_job of Inr s \<Rightarrow> s | Inl _ \<Rightarrow> replay_start sample_request sample_store)"

definition sample_shutdown :: replay_sys where
  "sample_shutdown = fold (scheduled_step sample_conf sample_world)
     (replicate 5 0 @ [2, 2] @ [1, 1, 1] @ replicate 3 2 @ replicate 10 1) sample_start"

lemma sample_reached:
  "replay_reaches sample_conf sample_world (replay_start sample_request sample_store) sample_run"
  "replay_reaches sample_conf sample_world sample_start sample_shutdown"
  unfolding sample_run_def sample_shutdown_def by (rule scheduled_reaches)+

lemma sample_files:
  "GetProcessList sample_store = [''a'']" "MdOffset (meta_or_zero ''a'' sample_store) = 0"
  "MdStatus (meta_or_zero ''a'' sample_store) = ''DOWNLOAD''"
  by code_simp+

lemma sample_run_completed: "MdStatus (meta_or_zero ''a'' (sysStore sample_run)) = StatusCompleted"
  by code_simp

lemma sample_run_offset: "MdOffset (meta_or_zero ''a'' (sysStore sample_run)) = 2"
  by code_simp

lemma sample_run_goes_on: "\<not> job_ended sample_run"
  by code_simp

lemma sample_shutdown_notified: "sysNotified sample_shutdown"
  by code_simp

lemma sample_start_files: "GetProcessList (sysStore sample_start) = [''a'']"
  by code_simp

lemma sample_job_prepared: "\<not> isl sample_job"
  by code_simp

lemma sample_job_starts: "sample_job = Inr sample_start"
proof -
  obtain s where s: "sample_job = Inr s" using sample_job_prepared unfolding isl_def by (metis sum.exhaust)
  have "sample_start = s" unfolding sample_start_def s by (rule sum.case(2))
  then show ?thesis using s by metis
qed

lemmas sample_ends = sample_run_completed sample_run_offset sample_run_goes_on sample_shutdown_notified
  sample_start_files

end
