(* ===== verification/Replay_Reach.thy ===== *)
theory Replay_Reach
  imports Replay_Safety Replay_Samples
begin

text \<open>
  The states the running replay job can reach: every goroutine follows its program, the stored
  metadata are what the recorded updates make of the initial ones, and the properties of the job.
\<close>

section \<open>Goroutines follow their programs\<close>

definition spawned :: "replay_log \<Rightarrow> (Message \<times> string) list" where
  "spawned l = concat (map (\<lambda>(t, a, r). case a of OpSpawn req i f \<Rightarrow> [(req, f)] | _ \<Rightarrow> []) l)"

definition programs :: "replay_conf \<Rightarrow> string \<Rightarrow> Message \<Rightarrow> string list \<Rightarrow> replay_log \<Rightarrow> unit io list" where
  "programs conf dir input files l =
     [replay_main input files, closeResources input]
     @ map (\<lambda>(req, f). file_worker conf dir req f) (spawned l)"

definition follows :: "replay_conf \<Rightarrow> string \<Rightarrow> Message \<Rightarrow> string list \<Rightarrow> replay_sys \<Rightarrow> bool" where
  "follows conf dir input files s \<longleftrightarrow>
     length (sysThreads s) = length (programs conf dir input files (sysLog s))
     \<and> (\<forall>t < length (sysThreads s).
          walk (programs conf dir input files (sysLog s) ! t) (thread_log t (sysLog s)) (sysThreads s ! t))
     \<and> (\<forall>e \<in> set (sysLog s). fst e < length (sysThreads s))
     \<and> dataDir (mst (sysStore s)) = dir"

lemma spawned_simps [simp]:
  "spawned [] = []"
  "spawned (l @ [(t, a, r)]) = spawned l @ (case a of OpSpawn req i f \<Rightarrow> [(req, f)] | _ \<Rightarrow> [])"
  by (simp_all add: spawned_def)

lemma store_dirs [simp]:
  "dataDir (mst (set_meta key v s)) = dataDir (mst s)" "dataDir (mst (flushLocked env s)) = dataDir (mst s)"
  "dataDir (mst (UpdateMetaData env key u s)) = dataDir (mst s)"
  "dataDir (mst (TimeStampMetaData env key b e s)) = dataDir (mst s)"
  "dataDir (mst (updateGlobalStatusLocked env s)) = dataDir (mst s)"
  "dataDir (mst (UpdateGlobalStatus env s)) = dataDir (mst s)"
  "dataDir (mst (Flush env s)) = dataDir (mst s)"
  "dataDir (mst (snd (MarkUnfinishedExecutionsAsFailed env msg s))) = dataDir (mst s)"
  by (simp_all add: set_meta_def flushLocked_def UpdateMetaData_def TimeStampMetaData_def
      updateGlobalStatusLocked_def UpdateGlobalStatus_def Flush_def MarkUnfinishedExecutionsAsFailed_def Let_def)

lemma op_effect_frame [simp]:
  "sysLog (op_effect conf env a s) = sysLog s"
  "dataDir (mst (sysStore (op_effect conf env a s))) = dataDir (mst (sysStore s))"
  by (cases a; simp add: on_store_def)+

lemma op_effect_threads:
  "sysThreads (op_effect conf env a s) = sysThreads s
     @ (case a of OpSpawn req i f \<Rightarrow> [file_worker conf (dataDir (mst (sysStore s))) req f] | _ \<Rightarrow> [])"
  by (cases a) (simp_all add: on_store_def)

text \<open>The state after a step.\<close>

lemma thread_step_Do:
  assumes "sysThreads s ! t = Do a k"
  shows "sysLog (thread_step conf env t s) = sysLog s @ [(t, a, op_answer env a s)]"
    and "sysThreads (thread_step conf env t s)
           = (sysThreads (op_effect conf env a s))[t := k (op_answer env a s)]"
    and "sysStore (thread_step conf env t s) = sysStore (op_effect conf env a s)"
    and "sysWg (thread_step conf env t s) = sysWg (op_effect conf env a s)"
    and "sysSlots (thread_step conf env t s) = sysSlots (op_effect conf env a s)"
    and "sysInterrupted (thread_step conf env t s) = sysInterrupted (op_effect conf env a s)"
    and "sysNotified (thread_step conf env t s) = sysNotified (op_effect conf env a s)"
    and "sysRegistered (thread_step conf env t s) = sysRegistered (op_effect conf env a s)"
  using assms by (simp_all add: thread_step_def Let_def)

lemma can_step_Do: "can_step t s \<Longrightarrow> \<exists>a k. sysThreads s ! t = Do a k \<and> op_enabled a s"
  by (auto simp: can_step_def split: io.splits)

lemma thread_log_none: "\<forall>e \<in> set l. fst e < n \<Longrightarrow> thread_log n l = []"
  by (induction l) (auto simp: thread_log_def)

lemma follows_step:
  assumes "follows conf dir input files s" and "replay_step conf env s s'"
  shows "follows conf dir input files s'"
proof -
  obtain t where t: "can_step t s" and s': "s' = thread_step conf env t s"
    using assms(2) by (auto elim: replay_stepE)
  then obtain a k where a: "sysThreads s ! t = Do a k" using can_step_Do by blast
  have tl: "t < length (sysThreads s)" using t by (simp add: can_step_def)
  let ?r = "op_answer env a s" and ?P = "programs conf dir input files"
  let ?new = "case a of OpSpawn req i f \<Rightarrow> [file_worker conf dir req f] | _ \<Rightarrow> []"
  from assms(1) have len: "length (sysThreads s) = length (?P (sysLog s))"
    and w: "\<And>u. u < length (sysThreads s) \<Longrightarrow> walk (?P (sysLog s) ! u) (thread_log u (sysLog s)) (sysThreads s ! u)"
    and lg: "\<forall>e \<in> set (sysLog s). fst e < length (sysThreads s)"
    and dir: "dataDir (mst (sysStore s)) = dir"
    unfolding follows_def by blast+
  have log: "sysLog s' = sysLog s @ [(t, a, ?r)]" using thread_step_Do(1) [OF a] s' by simp
  have th: "sysThreads s' = (sysThreads s @ ?new)[t := k ?r]"
    unfolding s' thread_step_Do(2) [OF a] op_effect_threads dir ..
  have P: "?P (sysLog s') = ?P (sysLog s) @ ?new"
    unfolding log programs_def by (cases a) auto
  have tlog: "thread_log u (sysLog s') = thread_log u (sysLog s) @ (if u = t then [(a, ?r)] else [])" for u
    unfolding log by simp
  have "walk (?P (sysLog s') ! u) (thread_log u (sysLog s')) (sysThreads s' ! u)"
    if u: "u < length (sysThreads s')" for u
  proof (cases "u < length (sysThreads s)")
    case old: True
    show ?thesis
    proof (cases "u = t")
      case True
      have "walk (?P (sysLog s) ! t) (thread_log t (sysLog s)) (Do a k)" using w [OF tl] a by simp
      then show ?thesis
        using True tl len unfolding tlog P th by (auto simp: nth_append walk_snoc)
    next
      case False
      then show ?thesis using w [OF old] old len unfolding tlog P th by (simp add: nth_append)
    qed
  next
    case False
    then have u': "u = length (sysThreads s)" and new: "?new \<noteq> []"
      using u unfolding th by (cases a; simp)+
    then have "u \<noteq> t" using tl by simp
    have "thread_log u (sysLog s') = []"
      unfolding tlog using thread_log_none [OF lg] u' \<open>u \<noteq> t\<close> by simp
    moreover have "?P (sysLog s') ! u = sysThreads s' ! u"
      unfolding P th using u' len \<open>u \<noteq> t\<close> new by (simp add: nth_append)
    ultimately show ?thesis by simp
  qed
  moreover have "\<forall>e \<in> set (sysLog s'). fst e < length (sysThreads s')"
    using lg tl unfolding log th by auto
  moreover have "length (sysThreads s') = length (?P (sysLog s'))" using len unfolding th P by simp
  moreover have "dataDir (mst (sysStore s')) = dir" using thread_step_Do(3) [OF a] s' dir by simp
  ultimately show ?thesis unfolding follows_def by blast
qed

lemma follows_start: "follows conf (dataDir (mst st)) input (GetProcessList st) (replay_start input st)"
  by (auto simp: follows_def programs_def replay_start_def less_Suc_eq)

lemma replay_reaches_induct [consumes 1, case_names start step]:
  assumes "replay_reaches conf env (replay_start input st) s"
    and "P (replay_start input st)"
    and "\<And>u v. replay_reaches conf env (replay_start input st) u \<Longrightarrow> P u \<Longrightarrow> replay_step conf env u v
           \<Longrightarrow> P v"
  shows "P s"
  using assms(1) by (induction rule: replay_reaches.induct) (auto intro: assms(2,3))

lemma reaches_follows:
  "replay_reaches conf env (replay_start input st) s
     \<Longrightarrow> follows conf (dataDir (mst st)) input (GetProcessList st) s"
  by (induction rule: replay_reaches_induct) (auto intro: follows_start follows_step)

section \<open>Which operations a goroutine does\<close>

definition does :: "(replay_op \<Rightarrow> bool) \<Rightarrow> 'a io \<Rightarrow> bool" where
  "does Q p \<longleftrightarrow> (\<forall>es q. walk p es q \<longrightarrow> list_all (\<lambda>e. Q (fst e)) es)"

named_theorems doing \<open>rules for the operations of a program\<close>

lemma does_Ret [doing]: "does Q (Ret x)"
  by (simp add: does_def)

lemma does_Do: "Q a \<Longrightarrow> (\<And>r. does Q (k r)) \<Longrightarrow> does Q (Do a k)"
  unfolding does_def by (fastforce simp: walk_Do)

lemma does_bind [doing]: "does Q p \<Longrightarrow> (\<And>x. does Q (f x)) \<Longrightarrow> does Q (bind_io p f)"
  unfolding does_def walk_bind by fastforce

lemma does_ops [doing]:
  "Q OpInterrupted \<Longrightarrow> does Q p \<Longrightarrow> does Q p' \<Longrightarrow> does Q (interrupted_then p p')"
  "Q (OpGetMeta key) \<Longrightarrow> (\<And>m. does Q (k1 m)) \<Longrightarrow> does Q (ask_meta key k1)"
  "Q OpFresh \<Longrightarrow> (\<And>u t. does Q (k2 u t)) \<Longrightarrow> does Q (ask_fresh k2)"
  "Q a \<Longrightarrow> (\<And>n. does Q (k3 n)) \<Longrightarrow> does Q (ask_int a k3)"
  "Q a \<Longrightarrow> (\<And>b. does Q (k4 b)) \<Longrightarrow> does Q (ask_bool a k4)"
  "Q a \<Longrightarrow> does Q p \<Longrightarrow> does Q (act a p)"
  "Q (OpCall c) \<Longrightarrow> (\<And>e. does Q (k5 e)) \<Longrightarrow> does Q (ask_call c k5)"
  "Q OpReadAll \<Longrightarrow> (\<And>vs. does Q (k6 vs)) \<Longrightarrow> does Q (ask_all k6)"
  "Q (OpSecrets tenant key) \<Longrightarrow> (\<And>x. does Q (k7 x)) \<Longrightarrow> does Q (ask_secrets tenant key k7)"
  by (simp_all add: io_defs does_Do)

lemma does_cases [doing]:
  "does Q p \<Longrightarrow> does Q p' \<Longrightarrow> does Q (if b then p else p')"
  "does Q p \<Longrightarrow> (\<And>e. does Q (g e)) \<Longrightarrow> does Q (case err of None \<Rightarrow> p | Some e \<Rightarrow> g e)"
  "(\<And>e. does Q (g e)) \<Longrightarrow> (\<And>x. does Q (h x)) \<Longrightarrow> does Q (case r of Inl e \<Rightarrow> g e | Inr x \<Rightarrow> h x)"
  "(\<And>x y. does Q (f x y)) \<Longrightarrow> does Q (case xy of (x, y) \<Rightarrow> f x y)"
  by (auto split: option.split sum.split prod.split)

lemma does_try [doing]: "does Q p \<Longrightarrow> does Q p' \<Longrightarrow> does Q (try_io p p')"
  unfolding try_io_def by (intro doing)

text \<open>The operations of a goroutine of file \<open>f\<close> and of the hook.\<close>

fun file_op :: "string \<Rightarrow> replay_op \<Rightarrow> bool" where
  "file_op f OpInterrupted \<longleftrightarrow> True"
| "file_op f (OpGetMeta g) \<longleftrightarrow> g = f"
| "file_op f (OpUpdate g u) \<longleftrightarrow> g = f"
| "file_op f (OpStamp g b e) \<longleftrightarrow> g = f"
| "file_op f OpFresh \<longleftrightarrow> True"
| "file_op f (OpCacheGet k) \<longleftrightarrow> True"
| "file_op f (OpCacheSet k) \<longleftrightarrow> True"
| "file_op f (OpCall c) \<longleftrightarrow> True"
| "file_op f (OpSize p) \<longleftrightarrow> True"
| "file_op f (OpLines p gz) \<longleftrightarrow> True"
| "file_op f (OpParquet p) \<longleftrightarrow> True"
| "file_op f _ \<longleftrightarrow> False"

definition worker_op :: "string \<Rightarrow> replay_op \<Rightarrow> bool" where
  "worker_op f a \<longleftrightarrow> file_op f a \<or> a = OpWgDone \<or> a = OpRelease"

lemma worker_op_simps [simp]:
  "worker_op f OpWgDone" "worker_op f OpRelease" "file_op f a \<Longrightarrow> worker_op f a"
  "worker_op f (OpUpdate g u) \<longleftrightarrow> g = f" "worker_op f (OpGetMeta g) \<longleftrightarrow> g = f"
  "\<not> worker_op f (OpSpawn req i g)" "\<not> worker_op f OpSetInterrupted" "\<not> worker_op f OpNotify"
  "\<not> worker_op f (OpMarkUnfinished m)" "\<not> worker_op f OpGlobalStatus"
  by (simp_all add: worker_op_def)

fun hook_op :: "replay_op \<Rightarrow> bool" where
  "hook_op OpSignal \<longleftrightarrow> True"
| "hook_op OpSetInterrupted \<longleftrightarrow> True"
| "hook_op OpRegistered \<longleftrightarrow> True"
| "hook_op OpWgWait \<longleftrightarrow> True"
| "hook_op (OpMarkUnfinished m) \<longleftrightarrow> True"
| "hook_op OpFlush \<longleftrightarrow> True"
| "hook_op OpReadAll \<longleftrightarrow> True"
| "hook_op (OpCall c) \<longleftrightarrow> True"
| "hook_op OpNotify \<longleftrightarrow> True"
| "hook_op _ \<longleftrightarrow> False"

lemma does_downloads [doing]:
  "does (file_op f) (createAwsConnection input)" "does (file_op f) (getOrCreateS3Connection input)"
  "does (file_op f) (CreateDirIfNotExist dir)" "does (file_op f) (getClientWithUserDelegatedSAS env config)"
  "does (file_op f) (getClientWithServicePrincipal config)" "does (file_op f) (GetAzureBlobClient env config)"
  "does (file_op f) (downloadFileFromS3 dir input f)" "does (file_op f) (downloadFileFromAzureBlob env dir input f)"
  "does (file_op f) (file_download env dir input f)"
  unfolding createAwsConnection_def getOrCreateS3Connection_def CreateDirIfNotExist_def
    getClientWithUserDelegatedSAS_def getClientWithServicePrincipal_def GetAzureBlobClient_def
    downloadFileFromS3_def downloadFileFromAzureBlob_def file_download_def Let_def
  by (intro doing; simp)+

lemma does_lines [doing]:
  "does (file_op f) (replay_lines conf req topic f pq off ls n b)"
proof (induction ls arbitrary: n b)
  case (Cons line ls)
  show ?case
    unfolding replay_lines.simps Let_def send_line_def by (intro doing Cons.IH; simp)
qed (simp add: does_Ret)

lemma does_tokens [doing]:
  "(\<And>pq t. does (file_op f) (k pq t)) \<Longrightarrow> does (file_op f) (file_tokens req g path k)"
  unfolding file_tokens_def Let_def by (auto intro!: does_Do)

lemma does_mono: "does Q p \<Longrightarrow> (\<And>a. Q a \<Longrightarrow> Q' a) \<Longrightarrow> does Q' p"
  unfolding does_def list_all_iff by blast

lemma does_body: "does (file_op f) (file_body conf dir req f)"
  unfolding file_body_def FileDownloader_def ReadAndProduce_def Let_def
  by (intro doing; simp)

lemma does_worker: "does (worker_op f) (file_worker conf dir req f)"
  unfolding file_worker_def by (intro doing does_mono [OF does_body]; simp add: worker_op_def)

lemma does_hook: "does hook_op (closeResources input)"
  unfolding closeResources_def handleReplayShutdown_def WaitForWorkers_def ProduceStatus_def
    sendReplayShutdownInterruptedAlert_def Let_def
  by (intro doing; simp)

section \<open>Where the main goroutine is\<close>

definition ev_spawned :: "replay_event list \<Rightarrow> (Message \<times> string) list" where
  "ev_spawned es = concat (map (\<lambda>(a, r). case a of OpSpawn req i f \<Rightarrow> [(req, f)] | _ \<Rightarrow> []) es)"

text \<open>What an operation adds to the counter of the wait group and to the slots taken.\<close>

fun wg_change :: "replay_op \<Rightarrow> int" where
  "wg_change (OpWgAdd n) = n" | "wg_change OpWgDone = -1" | "wg_change _ = 0"

fun slot_change :: "replay_op \<Rightarrow> int" where
  "slot_change (OpAcquire c) = 1" | "slot_change OpRelease = -1" | "slot_change _ = 0"

definition wg_sum :: "replay_event list \<Rightarrow> int" where
  "wg_sum es = sum_list (map (\<lambda>e. wg_change (fst e)) es)"

definition slot_sum :: "replay_event list \<Rightarrow> int" where
  "slot_sum es = sum_list (map (\<lambda>e. slot_change (fst e)) es)"

lemma ev_sums [simp]:
  "ev_spawned [] = []" "wg_sum [] = 0" "slot_sum [] = 0"
  "ev_spawned ((a, r) # es) = (case a of OpSpawn req i f \<Rightarrow> [(req, f)] | _ \<Rightarrow> []) @ ev_spawned es"
  "wg_sum ((a, r) # es) = wg_change a + wg_sum es" "slot_sum ((a, r) # es) = slot_change a + slot_sum es"
  "ev_spawned (es @ es') = ev_spawned es @ ev_spawned es'" "wg_sum (es @ es') = wg_sum es + wg_sum es'"
  "slot_sum (es @ es') = slot_sum es + slot_sum es'"
  by (simp_all add: ev_spawned_def wg_sum_def slot_sum_def)

fun always_enabled :: "replay_op \<Rightarrow> bool" where
  "always_enabled OpWgWait \<longleftrightarrow> False"
| "always_enabled (OpAcquire c) \<longleftrightarrow> False"
| "always_enabled OpAwaitNotify \<longleftrightarrow> False"
| "always_enabled _ \<longleftrightarrow> True"

lemma always_enabled_enabled: "always_enabled a \<Longrightarrow> op_enabled a s"
  by (cases a) simp_all

definition free_program :: "'a io \<Rightarrow> bool" where
  "free_program q \<longleftrightarrow> (\<exists>x. q = Ret x) \<or> (\<exists>a k. q = Do a k \<and> always_enabled a)"

definition awaits_hook :: "replay_event list \<Rightarrow> 'a io \<Rightarrow> bool" where
  "awaits_hook es q \<longleftrightarrow> (\<exists>k. q = Do OpAwaitNotify k) \<and> (\<exists>r. (OpInterrupted, r) \<in> set es \<and> answered_true r)"

text \<open>Before the workers are started, while they are, and after all of them were.\<close>

definition before_spawn :: "replay_event list \<Rightarrow> bool" where
  "before_spawn es \<longleftrightarrow> ev_spawned es = [] \<and> wg_sum es = 0 \<and> slot_sum es = 0"

definition spawning :: "Message \<Rightarrow> string list \<Rightarrow> string list \<Rightarrow> int \<Rightarrow> replay_event list \<Rightarrow> bool" where
  "spawning req files gs n es \<longleftrightarrow>
     ev_spawned es = map (Pair req) gs \<and> wg_sum es = int (length files) \<and> slot_sum es = n"

definition main_at :: "string list \<Rightarrow> replay_event list \<Rightarrow> unit io \<Rightarrow> bool" where
  "main_at files es q \<longleftrightarrow>
     before_spawn es \<and> (free_program q \<or> awaits_hook es q)
     \<or> (\<exists>req gs rest. files = gs @ rest \<and> rest \<noteq> []
          \<and> (spawning req files gs (int (length gs)) es
               \<and> (\<exists>k. q = Do (OpAcquire (effective_concurrency req)) k)
             \<or> spawning req files gs (int (length gs) + 1) es \<and> free_program q))
     \<or> (\<exists>req. spawning req files files (int (length files)) es
          \<and> (free_program q \<or> (\<exists>k. q = Do OpWgWait k) \<or> awaits_hook es q))"

definition main_ok :: "string list \<Rightarrow> replay_event list \<Rightarrow> unit io \<Rightarrow> bool" where
  "main_ok files es p \<longleftrightarrow> (\<forall>fs q. walk p fs q \<longrightarrow> main_at files (es @ fs) q)"

lemma main_ok_Ret: "main_at files es (Ret ()) \<Longrightarrow> main_ok files es (Ret ())"
  by (simp add: main_ok_def)

lemma main_ok_Do:
  assumes "main_at files es (Do a k)" and "\<And>r. main_ok files (es @ [(a, r)]) (k r)"
  shows "main_ok files es (Do a k)"
  unfolding main_ok_def
proof (intro allI impI)
  fix fs q assume "walk (Do a k) fs q"
  then consider "fs = []" "q = Do a k" | r gs where "fs = (a, r) # gs" "walk (k r) gs q"
    by (auto simp: walk_Do)
  then show "main_at files (es @ fs) q"
  proof cases
    case (2 r gs)
    then have "main_at files ((es @ [(a, r)]) @ gs) q" using assms(2) unfolding main_ok_def by blast
    then show ?thesis using 2 by simp
  qed (use assms(1) in simp)
qed

lemma bind_io_ops [simp]:
  "bind_io (act a p) g = act a (bind_io p g)"
  "bind_io (interrupted_then p p') g = interrupted_then (bind_io p g) (bind_io p' g)"
  "bind_io (ProduceStatus req p) g = ProduceStatus req (bind_io p g)"
  by (simp_all add: ProduceStatus_def io_defs fun_eq_iff)

lemma bind_io_loops [simp]:
  "bind_io (spawn_files c req i fs p) g = spawn_files c req i fs (bind_io p g)"
  "bind_io (each_file (\<lambda>f. act (h f)) fs p) g = each_file (\<lambda>f. act (h f)) fs (bind_io p g)"
  by (induction fs arbitrary: i) simp_all

text \<open>Operations that leave the three counts alone.\<close>

definition uncounted :: "replay_op \<Rightarrow> bool" where
  "uncounted a \<longleftrightarrow> (case a of OpSpawn _ _ _ \<Rightarrow> False | _ \<Rightarrow> True) \<and> wg_change a = 0 \<and> slot_change a = 0"

lemma uncounted_phase:
  assumes "uncounted a"
  shows "before_spawn (es @ [(a, r)]) \<longleftrightarrow> before_spawn es"
    and "spawning req files gs n (es @ [(a, r)]) \<longleftrightarrow> spawning req files gs n es"
  using assms by (cases a; simp add: uncounted_def before_spawn_def spawning_def)+

lemma free_ops [simp]:
  "free_program (Ret x)" "always_enabled a \<Longrightarrow> free_program (Do a k)"
  by (simp_all add: free_program_def)

lemma main_ok_last:
  assumes "before_spawn es \<or> (\<exists>req. spawning req files files (int (length files)) es)"
  shows "main_ok files es (interrupted_then (act OpAwaitNotify (Ret ())) (Ret ()))"
proof -
  have free: "main_at files es' q" if "before_spawn es' \<or> (\<exists>req. spawning req files files (int (length files)) es')"
    "free_program q \<or> awaits_hook es' q" for es' q
    using that unfolding main_at_def by blast
  have un: "uncounted OpInterrupted" "uncounted OpAwaitNotify" by (simp_all add: uncounted_def)
  show ?thesis
    unfolding interrupted_then_def act_def
  proof (rule main_ok_Do)
    show "main_at files es (Do OpInterrupted (\<lambda>r. if answered_true r then Do OpAwaitNotify (\<lambda>_. Ret ()) else Ret ()))"
      using free [OF assms] by simp
    fix r
    have ph: "before_spawn (es @ [(OpInterrupted, r)])
      \<or> (\<exists>req. spawning req files files (int (length files)) (es @ [(OpInterrupted, r)]))"
      using assms by (simp add: uncounted_phase un)
    show "main_ok files (es @ [(OpInterrupted, r)])
        (if answered_true r then Do OpAwaitNotify (\<lambda>_. Ret ()) else Ret ())"
    proof (cases "answered_true r")
      case True
      have "main_ok files (es @ [(OpInterrupted, r)]) (Do OpAwaitNotify (\<lambda>_. Ret ()))"
      proof (rule main_ok_Do)
        show "main_at files (es @ [(OpInterrupted, r)]) (Do OpAwaitNotify (\<lambda>_. Ret ()))"
          using True by (intro free [OF ph]) (auto simp: awaits_hook_def)
        fix r'
        have "before_spawn ((es @ [(OpInterrupted, r)]) @ [(OpAwaitNotify, r')])
          \<or> (\<exists>req. spawning req files files (int (length files)) ((es @ [(OpInterrupted, r)]) @ [(OpAwaitNotify, r')]))"
          using ph by (simp only: uncounted_phase un)
        then show "main_ok files ((es @ [(OpInterrupted, r)]) @ [(OpAwaitNotify, r')]) (Ret ())"
          by (intro main_ok_Ret free) simp_all
      qed
      then show ?thesis using True by simp
    next
      case False
      then show ?thesis using free [OF ph] by (simp add: main_ok_Ret)
    qed
  qed
qed

definition settled :: "string list \<Rightarrow> replay_event list \<Rightarrow> bool" where
  "settled files es \<longleftrightarrow> before_spawn es \<or> (\<exists>req. spawning req files files (int (length files)) es)"

lemma settled_append: "uncounted a \<Longrightarrow> settled files (es @ [(a, r)]) \<longleftrightarrow> settled files es"
  by (simp add: settled_def uncounted_phase)

lemma main_ok_step:
  assumes "settled files es" and "uncounted a" and "always_enabled a"
    and "\<And>r. settled files (es @ [(a, r)]) \<Longrightarrow> main_ok files (es @ [(a, r)]) (k r)"
  shows "main_ok files es (Do a k)"
proof (rule main_ok_Do)
  have "free_program (Do a k)" using assms(3) by simp
  then show "main_at files es (Do a k)"
    using assms(1) unfolding settled_def main_at_def by blast
qed (use assms settled_append in blast)

lemma main_ok_ops:
  "settled files es \<Longrightarrow> (\<And>es. settled files es \<Longrightarrow> main_ok files es p)
     \<Longrightarrow> (\<And>es. settled files es \<Longrightarrow> main_ok files es p') \<Longrightarrow> main_ok files es (interrupted_then p p')"
  "settled files es \<Longrightarrow> uncounted a \<Longrightarrow> always_enabled a \<Longrightarrow> (\<And>es. settled files es \<Longrightarrow> main_ok files es p)
     \<Longrightarrow> main_ok files es (act a p)"
  "settled files es \<Longrightarrow> (\<And>es. settled files es \<Longrightarrow> main_ok files es p)
     \<Longrightarrow> main_ok files es (ProduceStatus req p)"
  unfolding ProduceStatus_def io_defs
  by (intro main_ok_step; auto simp: uncounted_def)+

lemma settled_last:
  "settled files es \<Longrightarrow> main_ok files es (interrupted_then (act OpAwaitNotify (Ret ())) (Ret ()))"
  unfolding settled_def by (rule main_ok_last)

lemma main_ok_spawn:
  assumes "files = gs @ rest" and "spawning req files gs (int (length gs)) es"
    and "\<And>es. spawning req files files (int (length files)) es \<Longrightarrow> main_ok files es p"
  shows "main_ok files es (spawn_files (effective_concurrency req) req (length gs) rest p)"
  using assms(1,2)
proof (induction rest arbitrary: gs es)
  case Nil
  then show ?case using assms(3) by simp
next
  case (Cons f rest)
  let ?c = "effective_concurrency req"
  have "main_ok files es (Do (OpAcquire ?c) (\<lambda>_. Do (OpSpawn req (length gs) f)
      (\<lambda>_. spawn_files ?c req (Suc (length gs)) rest p)))"
  proof (rule main_ok_Do)
    show "main_at files es (Do (OpAcquire ?c) (\<lambda>_. Do (OpSpawn req (length gs) f)
        (\<lambda>_. spawn_files ?c req (Suc (length gs)) rest p)))"
      using Cons.prems unfolding main_at_def by blast
    fix r
    let ?es = "es @ [(OpAcquire ?c, r)]"
    have s: "spawning req files gs (int (length gs) + 1) ?es"
      using Cons.prems(2) by (simp add: spawning_def)
    show "main_ok files ?es (Do (OpSpawn req (length gs) f) (\<lambda>_. spawn_files ?c req (Suc (length gs)) rest p))"
    proof (rule main_ok_Do)
      have "free_program (Do (OpSpawn req (length gs) f) (\<lambda>_. spawn_files ?c req (Suc (length gs)) rest p))"
        by simp
      then show "main_at files ?es (Do (OpSpawn req (length gs) f) (\<lambda>_. spawn_files ?c req (Suc (length gs)) rest p))"
        using Cons.prems(1) s unfolding main_at_def by blast
      fix r'
      have "spawning req files (gs @ [f]) (int (length (gs @ [f]))) (?es @ [(OpSpawn req (length gs) f, r')])"
        using s by (simp add: spawning_def)
      then show "main_ok files (?es @ [(OpSpawn req (length gs) f, r')]) (spawn_files ?c req (Suc (length gs)) rest p)"
        using Cons.IH [of "gs @ [f]"] Cons.prems(1) by simp
    qed
  qed
  then show ?case by (simp add: act_def)
qed

lemma main_ok_workers:
  assumes "before_spawn es"
  shows "main_ok files es (act (OpWgAdd (int (length files)))
    (spawn_files (effective_concurrency req) req 0 files (act OpWgWait
      (interrupted_then (act (OpRegister False) (interrupted_then (act OpAwaitNotify (Ret ())) (Ret ())))
        (ProduceStatus req (act OpGlobalStatus (act (OpRegister False)
          (interrupted_then (act OpAwaitNotify (Ret ())) (Ret ())))))))))"
    (is "main_ok _ _ (act _ (spawn_files _ _ _ _ (act OpWgWait ?tail)))")
proof -
  have tail: "settled files es' \<Longrightarrow> main_ok files es' ?tail" for es'
    by (intro main_ok_ops settled_last) (simp_all add: uncounted_def)
  have wait: "main_ok files es' (act OpWgWait ?tail)"
    if sp: "spawning req files files (int (length files)) es'" for es'
    unfolding act_def [of OpWgWait]
  proof (rule main_ok_Do)
    show "main_at files es' (Do OpWgWait (\<lambda>_. ?tail))" using sp unfolding main_at_def by blast
    fix r
    have "uncounted OpWgWait" by (simp add: uncounted_def)
    moreover have "settled files es'" using sp unfolding settled_def by blast
    ultimately show "main_ok files (es' @ [(OpWgWait, r)]) ?tail"
      using tail settled_append by blast
  qed
  show ?thesis
    unfolding act_def [of "OpWgAdd (int (length files))"]
  proof (rule main_ok_Do)
    show "main_at files es (Do (OpWgAdd (int (length files)))
        (\<lambda>_. spawn_files (effective_concurrency req) req 0 files (act OpWgWait ?tail)))"
      using assms unfolding main_at_def by simp
    fix r
    have "spawning req files [] (int (length [])) (es @ [(OpWgAdd (int (length files)), r)])"
      using assms by (simp add: spawning_def before_spawn_def)
    then show "main_ok files (es @ [(OpWgAdd (int (length files)), r)])
        (spawn_files (effective_concurrency req) req 0 files (act OpWgWait ?tail))"
      using main_ok_spawn [of files "[]" files req _ "act OpWgWait ?tail"] wait by simp
  qed
qed

lemma before_step:
  assumes "before_spawn es" and "uncounted a" and "always_enabled a"
    and "\<And>r. before_spawn (es @ [(a, r)]) \<Longrightarrow> main_ok files (es @ [(a, r)]) (k r)"
  shows "main_ok files es (Do a k)"
proof (rule main_ok_Do)
  have "free_program (Do a k)" using assms(3) by simp
  then show "main_at files es (Do a k)" using assms(1) unfolding main_at_def by blast
qed (use assms uncounted_phase(1) in blast)

lemma main_ok_failed:
  "settled files es \<Longrightarrow> main_ok files es (each_file (\<lambda>f. act (OpUpdate f u)) fs
     (act (OpRegister False) (interrupted_then (act OpAwaitNotify (Ret ())) (Ret ()))))"
proof (induction fs arbitrary: es)
  case Nil
  then show ?case by (auto intro!: main_ok_ops settled_last simp: uncounted_def)
next
  case (Cons f fs)
  then show ?case by (auto intro!: main_ok_ops simp: uncounted_def)
qed

lemma bind_DecryptKeys [simp]: "bind_io (DecryptKeys input k) g = DecryptKeys input (\<lambda>r. bind_io (k r) g)"
proof -
  have "bind_io (case add_secrets ds c of Inl e \<Rightarrow> k (Inl e) | Inr cf \<Rightarrow> k (Inr (h cf))) g
      = (case add_secrets ds c of Inl e \<Rightarrow> bind_io (k (Inl e)) g | Inr cf \<Rightarrow> bind_io (k (Inr (h cf))) g)" for ds c h
    by (simp split: sum.split)
  then show ?thesis by (auto simp: DecryptKeys_def ask_secrets_def Let_def fun_eq_iff split: sum.split)
qed

lemma main_ok_decrypt:
  assumes "before_spawn es" and "\<And>es x. before_spawn es \<Longrightarrow> main_ok files es (k x)"
  shows "main_ok files es (DecryptKeys input k)"
  using assms unfolding DecryptKeys_def ask_secrets_def Let_def
  by (auto intro!: before_step simp: uncounted_def split: sum.split)

lemma replay_main_ok: "main_ok files [] (replay_main input files)"
proof -
  let ?last = "interrupted_then (act OpAwaitNotify (Ret ())) (Ret ()) :: unit io"
  have k: "main_ok files es (bind_io (case x of
      Inl e \<Rightarrow> each_file (\<lambda>f. act (OpUpdate f (no_update\<lparr>UpErrorMsg := e\<rparr>))) files (act (OpRegister False) (Ret ()))
    | Inr req \<Rightarrow> act (OpWgAdd (int (length files)))
         (spawn_files (effective_concurrency req) req 0 files
           (act OpWgWait
             (interrupted_then (act (OpRegister False) (Ret ()))
               (ProduceStatus req (act OpGlobalStatus (act (OpRegister False) (Ret ())))))))) (\<lambda>_. ?last))"
    if "before_spawn es" for es x
    using that main_ok_workers [OF that] main_ok_failed [of files es]
    by (cases x) (simp_all add: settled_def)
  have "before_spawn []" by (simp add: before_spawn_def)
  then show ?thesis
    unfolding replay_main_def Process_def bind_io_ops bind_DecryptKeys
    unfolding act_def [of "OpRegister True"]
      act_def [of "OpUpdate Global (set_status StatusInProgress)"]
    by (intro before_step main_ok_decrypt k) (simp_all add: uncounted_def)
qed

lemma replay_main_at:
  "walk (replay_main input files) es q \<Longrightarrow> main_at files es q"
  using replay_main_ok [of files input] unfolding main_ok_def by fastforce

section \<open>Who does what\<close>

fun main_op :: "replay_op \<Rightarrow> bool" where
  "main_op (OpUpdate g u) \<longleftrightarrow> UpOffset u = 0 \<and> UpStatus u \<noteq> StatusCompleted"
| "main_op (OpStamp g b e) \<longleftrightarrow> False"
| "main_op OpWgDone \<longleftrightarrow> False"
| "main_op OpRelease \<longleftrightarrow> False"
| "main_op (OpMarkUnfinished m) \<longleftrightarrow> False"
| "main_op OpSetInterrupted \<longleftrightarrow> False"
| "main_op OpNotify \<longleftrightarrow> False"
| "main_op (OpGetMeta g) \<longleftrightarrow> False"
| "main_op OpSignal \<longleftrightarrow> False"
| "main_op _ \<longleftrightarrow> True"

lemma does_spawn_files [doing]: "does main_op p \<Longrightarrow> does main_op (spawn_files c req i fs p)"
  by (induction fs arbitrary: i) (auto intro!: doing)

lemma does_each_file [doing]:
  "(\<And>f. main_op (h f)) \<Longrightarrow> does main_op p \<Longrightarrow> does main_op (each_file (\<lambda>f. act (h f)) fs p)"
  by (induction fs) (auto intro!: doing)

lemma no_update_simps [simp]: "UpOffset no_update = 0" "UpStatus no_update = ''''"
  by (simp_all add: no_update_def)

lemma empty_status [simp]: "'''' \<noteq> StatusCompleted"
  by (simp add: status_defs)

lemma does_decrypt [doing]: "(\<And>x. does main_op (k x)) \<Longrightarrow> does main_op (DecryptKeys input k)"
  unfolding DecryptKeys_def Let_def by (intro doing) simp_all

lemma does_main: "does main_op (replay_main input files)"
  unfolding replay_main_def Process_def ProduceStatus_def
  by (intro doing; simp)

lemma main_at_spawned:
  assumes "main_at files es q"
  shows "\<exists>req gs rest. files = gs @ rest \<and> ev_spawned es = map (Pair req) gs"
  using assms unfolding main_at_def
proof (elim disjE)
  assume "before_spawn es \<and> (free_program q \<or> awaits_hook es q)"
  then have "files = [] @ files \<and> ev_spawned es = map (Pair req) []" for req :: Message
    by (simp add: before_spawn_def)
  then show ?thesis by blast
next
  assume "\<exists>req. spawning req files files (int (length files)) es
    \<and> (free_program q \<or> (\<exists>k. q = Do OpWgWait k) \<or> awaits_hook es q)"
  then obtain req where "ev_spawned es = map (Pair req) files" unfolding spawning_def by blast
  then have "files = files @ [] \<and> ev_spawned es = map (Pair req) files" by simp
  then show ?thesis by blast
qed (unfold spawning_def, blast)

lemma thread_log_event: "(t, a, r) \<in> set l \<Longrightarrow> (a, r) \<in> set (thread_log t l)"
  by (force simp: thread_log_def)

text \<open>The goroutine of a file that was started.\<close>

definition runs_file :: "replay_conf \<Rightarrow> replay_sys \<Rightarrow> nat \<Rightarrow> Message \<Rightarrow> string \<Rightarrow> bool" where
  "runs_file conf s t req f \<longleftrightarrow>
     t < length (sysThreads s)
     \<and> walk (file_worker conf (dataDir (mst (sysStore s))) req f) (thread_log t (sysLog s)) (sysThreads s ! t)"

lemma spawned_by_main:
  "(\<And>t a r. (t, a, r) \<in> set l \<Longrightarrow> t \<noteq> 0 \<Longrightarrow> (case a of OpSpawn _ _ _ \<Rightarrow> False | _ \<Rightarrow> True))
     \<Longrightarrow> spawned l = ev_spawned (thread_log 0 l)"
proof (induction l rule: rev_induct)
  case (snoc e l)
  obtain t a r where e: "e = (t, a, r)" by (cases e) auto
  have "t \<noteq> 0 \<Longrightarrow> (case a of OpSpawn _ _ _ \<Rightarrow> False | _ \<Rightarrow> True)"
    using snoc.prems [of t a r] e by simp
  moreover have "spawned l = ev_spawned (thread_log 0 l)"
  proof (rule snoc.IH)
    fix t a r assume "(t, a, r) \<in> set l" "t \<noteq> 0"
    then show "case a of OpSpawn _ _ _ \<Rightarrow> False | _ \<Rightarrow> True" by (intro snoc.prems [of t a r]) simp_all
  qed
  ultimately show ?case
    unfolding e by (cases "t = 0"; cases a) simp_all
qed simp

lemma reach_threads:
  assumes "replay_reaches conf env (replay_start input st) s"
  shows "walk (replay_main input (GetProcessList st)) (thread_log 0 (sysLog s)) (sysThreads s ! 0)"
    and "walk (closeResources input) (thread_log 1 (sysLog s)) (sysThreads s ! 1)"
    and "\<exists>req gs rest. GetProcessList st = gs @ rest \<and> spawned (sysLog s) = map (Pair req) gs
          \<and> length (sysThreads s) = length gs + 2
          \<and> (\<forall>i < length gs. runs_file conf s (i + 2) req (gs ! i))"
    and "dataDir (mst (sysStore s)) = dataDir (mst st)"
    and "\<forall>e \<in> set (sysLog s). fst e < length (sysThreads s)"
    and "spawned (sysLog s) = ev_spawned (thread_log 0 (sysLog s))"
proof -
  let ?P = "programs conf (dataDir (mst st)) input (GetProcessList st) (sysLog s)"
  have f: "follows conf (dataDir (mst st)) input (GetProcessList st) s" by (rule reaches_follows [OF assms])
  then have len: "length (sysThreads s) = length ?P" by (simp add: follows_def)
  have w: "t < length (sysThreads s) \<Longrightarrow> walk (?P ! t) (thread_log t (sysLog s)) (sysThreads s ! t)" for t
    using f by (simp add: follows_def)
  show main: "walk (replay_main input (GetProcessList st)) (thread_log 0 (sysLog s)) (sysThreads s ! 0)"
    using w [of 0] len by (simp add: programs_def)
  show hook: "walk (closeResources input) (thread_log 1 (sysLog s)) (sysThreads s ! 1)"
    using w [of 1] len by (simp add: programs_def)
  show dir: "dataDir (mst (sysStore s)) = dataDir (mst st)" using f by (simp add: follows_def)
  show bound: "\<forall>e \<in> set (sysLog s). fst e < length (sysThreads s)" using f unfolding follows_def by blast
  have worker: "walk (file_worker conf (dataDir (mst st)) (fst (spawned (sysLog s) ! i)) (snd (spawned (sysLog s) ! i)))
      (thread_log (i + 2) (sysLog s)) (sysThreads s ! (i + 2))" if "i < length (spawned (sysLog s))" for i
    using w [of "i + 2"] that len by (simp add: programs_def nth_append case_prod_unfold)
  show spawn: "spawned (sysLog s) = ev_spawned (thread_log 0 (sysLog s))"
  proof (rule spawned_by_main)
    fix t a r assume e: "(t, a, r) \<in> set (sysLog s)" and t: "t \<noteq> 0"
    have tl: "t < length (sysThreads s)" using bound e by auto
    have ev: "(a, r) \<in> set (thread_log t (sysLog s))" by (rule thread_log_event [OF e])
    show "case a of OpSpawn _ _ _ \<Rightarrow> False | _ \<Rightarrow> True"
    proof (cases "t = 1")
      case True
      then have "list_all (\<lambda>e. hook_op (fst e)) (thread_log t (sysLog s))"
        using hook does_hook [of input] unfolding does_def by blast
      then have "hook_op a" using ev by (auto simp: list_all_iff)
      then show ?thesis by (cases a) simp_all
    next
      case False
      define i where "i = t - 2"
      have "length ?P = length (spawned (sysLog s)) + 2" by (simp add: programs_def)
      then have i: "t = i + 2" "i < length (spawned (sysLog s))"
        using t False tl len by (auto simp: i_def)
      have "list_all (\<lambda>e. worker_op (snd (spawned (sysLog s) ! i)) (fst e)) (thread_log t (sysLog s))"
        using worker [OF i(2)] does_worker [of "snd (spawned (sysLog s) ! i)"] unfolding does_def i(1) by blast
      then have "worker_op (snd (spawned (sysLog s) ! i)) a" using ev by (auto simp: list_all_iff)
      then show ?thesis by (cases a) simp_all
    qed
  qed
  have "\<exists>req gs rest. GetProcessList st = gs @ rest
      \<and> ev_spawned (thread_log 0 (sysLog s)) = map (Pair req) gs"
    by (rule main_at_spawned [OF replay_main_at [OF main]])
  then obtain req gs rest where gs: "GetProcessList st = gs @ rest" "spawned (sysLog s) = map (Pair req) gs"
    using spawn by auto
  have "length (sysThreads s) = length gs + 2" using len gs(2) by (simp add: programs_def)
  moreover have "runs_file conf s (i + 2) req (gs ! i)" if "i < length gs" for i
    using worker [of i] that gs(2) dir \<open>length (sysThreads s) = length gs + 2\<close> by (simp add: runs_file_def)
  ultimately show "\<exists>req gs rest. GetProcessList st = gs @ rest \<and> spawned (sysLog s) = map (Pair req) gs
          \<and> length (sysThreads s) = length gs + 2
          \<and> (\<forall>i < length gs. runs_file conf s (i + 2) req (gs ! i))"
    using gs by blast
qed

section \<open>The stored metadata\<close>

abbreviation (input) meta_at :: "string \<Rightarrow> replay_sys \<Rightarrow> MetaDataValue" where
  "meta_at f s \<equiv> meta_or_zero f (sysStore s)"

lemma GetMetaData_flush [simp]: "GetMetaData f (flushLocked env s) = GetMetaData f s"
  by (simp add: GetMetaData_def flushLocked_def)

lemma meta_flush [simp]: "meta_or_zero f (flushLocked env s) = meta_or_zero f s"
  by (simp add: meta_or_zero_def)

lemma meta_set [simp]: "meta_or_zero f (set_meta g v s) = (if f = g then v else meta_or_zero f s)"
  by (simp add: meta_or_zero_def GetMetaData_def set_meta_def)

lemma meta_UpdateMetaData:
  "meta_or_zero f (UpdateMetaData env g u s) = (if f = g then apply_update u (meta_or_zero g s) else meta_or_zero f s)"
  by (simp add: UpdateMetaData_def)

lemma meta_TimeStamp:
  "meta_or_zero f (TimeStampMetaData env g b e s)
     = (if f = g then apply_stamp (now_at env) b e (meta_or_zero g s) else meta_or_zero f s)"
  by (simp add: TimeStampMetaData_def)

lemma stamp_simps [simp]:
  "MdOffset (apply_stamp now b e d) = MdOffset d" "MdStatus (apply_stamp now b e d) = MdStatus d"
  by (simp_all add: apply_stamp_def Let_def)

lemma meta_UpdateGlobalStatus:
  "f \<noteq> Global \<Longrightarrow> meta_or_zero f (UpdateGlobalStatus env s) = meta_or_zero f s"
  "f \<noteq> Global \<Longrightarrow> meta_or_zero f (updateGlobalStatusLocked env s) = meta_or_zero f s"
  by (simp_all add: UpdateGlobalStatus_def updateGlobalStatusLocked_def)

lemma map_of_mark:
  "map_of (map (mark_failed now msg) m) f = map_option (\<lambda>d. snd (mark_failed now msg (f, d))) (map_of m f)"
  by (induction m) (auto simp: mark_failed_def)

lemma meta_MarkUnfinished:
  assumes "f \<noteq> Global"
  shows "meta_or_zero f (snd (MarkUnfinishedExecutionsAsFailed env msg s))
    = (case GetMetaData f s of None \<Rightarrow> zero_meta | Some d \<Rightarrow> snd (mark_failed (now_at env) msg (f, d)))"
proof -
  let ?s1 = "s\<lparr>mst := (mst s)\<lparr>metaMap := map (mark_failed (now_at env) msg) (metaMap (mst s))\<rparr>\<rparr>"
  have "meta_or_zero f (snd (MarkUnfinishedExecutionsAsFailed env msg s)) = meta_or_zero f ?s1"
    using assms by (simp add: MarkUnfinishedExecutionsAsFailed_def Let_def meta_UpdateGlobalStatus)
  then show ?thesis
    by (simp add: meta_or_zero_def GetMetaData_def map_of_mark split: option.split)
qed

lemma mark_failed_simps:
  "MdOffset (snd (mark_failed now msg (f, d))) = MdOffset d"
  "MdStatus (snd (mark_failed now msg (f, d)))
     = (if f \<noteq> Global \<and> \<not> isTerminalExecutionStatus (MdStatus d) then StatusFailed else MdStatus d)"
  by (simp_all add: mark_failed_def unfinished_def)

lemma meta_Mark_cases:
  assumes "f \<noteq> Global"
  shows "MdOffset (meta_or_zero f (snd (MarkUnfinishedExecutionsAsFailed env msg s))) = MdOffset (meta_or_zero f s)"
    and "MdStatus (meta_or_zero f (snd (MarkUnfinishedExecutionsAsFailed env msg s)))
      = (if GetMetaData f s \<noteq> None \<and> \<not> isTerminalExecutionStatus (MdStatus (meta_or_zero f s)) then StatusFailed
         else MdStatus (meta_or_zero f s))"
  using assms unfolding meta_MarkUnfinished [OF assms]
  by (simp_all add: meta_or_zero_def mark_failed_simps split: option.split)

lemma apply_update_simps:
  "MdOffset (apply_update u d) = (if UpOffset u \<noteq> 0 then UpOffset u else MdOffset d)"
  "MdStatus (apply_update u d) =
     (if UpStatus u \<noteq> '''' \<and> (isTerminalExecutionStatus (MdStatus d) \<longrightarrow> isTerminalExecutionStatus (UpStatus u))
      then UpStatus u else MdStatus d)"
  unfolding apply_update_def Let_def by (auto split: if_splits)

text \<open>The offset of a file is what the recorded updates make of the first one.\<close>

fun op_offset :: "string \<Rightarrow> replay_op \<Rightarrow> int \<Rightarrow> int" where
  "op_offset f (OpUpdate g u) c = (if g = f \<and> UpOffset u \<noteq> 0 then UpOffset u else c)"
| "op_offset f _ c = c"

definition log_offset :: "string \<Rightarrow> replay_log \<Rightarrow> int \<Rightarrow> int" where
  "log_offset f l c = fold (\<lambda>e. op_offset f (fst (snd e))) l c"

lemma log_offset_simps [simp]:
  "log_offset f [] c = c" "log_offset f (l @ [(t, a, r)]) c = op_offset f a (log_offset f l c)"
  by (simp_all add: log_offset_def)

lemma op_effect_offset:
  assumes "f \<noteq> Global"
  shows "MdOffset (meta_at f (op_effect conf env a s)) = op_offset f a (MdOffset (meta_at f s))"
proof (cases a)
  case (OpMarkUnfinished m)
  then show ?thesis
    using assms by (simp add: on_store_def meta_Mark_cases)
qed (use assms in \<open>simp_all add: on_store_def meta_UpdateMetaData meta_TimeStamp meta_UpdateGlobalStatus
      apply_update_simps Flush_def\<close>)

lemma reach_offset:
  assumes "replay_reaches conf env (replay_start input st) s" and "f \<noteq> Global"
  shows "MdOffset (meta_at f s) = log_offset f (sysLog s) (MdOffset (meta_or_zero f st))"
  using assms(1)
proof (induction rule: replay_reaches_induct)
  case start
  then show ?case by (simp add: replay_start_def)
next
  case (step u v)
  obtain t where t: "can_step t u" and v: "v = thread_step conf env t u"
    using step(2) by (auto elim: replay_stepE)
  then obtain a k where a: "sysThreads u ! t = Do a k" using can_step_Do by blast
  show ?case
    using step(3) unfolding v thread_step_Do(3) [OF a] op_effect_offset [OF assms(2)] thread_step_Do(1) [OF a]
    by simp
qed

text \<open>What a goroutine was told about a file is what the log says at that point.\<close>

lemma reach_meta_reply:
  assumes "replay_reaches conf env (replay_start input st) s" and "f \<noteq> Global"
    and "sysLog s = l1 @ (t, OpGetMeta f, r) # l2" and "meta_reply r = Some mv"
  shows "MdOffset mv = log_offset f l1 (MdOffset (meta_or_zero f st))"
  using assms(1,3)
proof (induction arbitrary: l2 rule: replay_reaches_induct)
  case start
  then show ?case by (simp add: replay_start_def)
next
  case (step u v)
  obtain t' where t: "can_step t' u" and v: "v = thread_step conf env t' u"
    using step(2) by (auto elim: replay_stepE)
  then obtain a k where a: "sysThreads u ! t' = Do a k" using can_step_Do by blast
  have log: "sysLog v = sysLog u @ [(t', a, op_answer env a u)]" unfolding v by (rule thread_step_Do(1) [OF a])
  show ?case
  proof (cases l2 rule: rev_cases)
    case Nil
    have "sysLog u @ [(t', a, op_answer env a u)] = l1 @ [(t, OpGetMeta f, r)]"
      using step(4) unfolding log Nil .
    then have l1: "l1 = sysLog u" and "(t', a, op_answer env a u) = (t, OpGetMeta f, r)"
      unfolding append1_eq_conv by blast+
    then have "r = RMeta (GetMetaData f (sysStore u))" by auto
    then have "GetMetaData f (sysStore u) = Some mv" using assms(4) by (simp add: meta_reply_def)
    then have "mv = meta_at f u" by (simp add: meta_or_zero_def)
    then show ?thesis using reach_offset [OF step(1) assms(2)] l1(1) by simp
  next
    case (snoc l3 e)
    then have "sysLog u = l1 @ (t, OpGetMeta f, r) # l3" using step(4) log by simp
    then show ?thesis by (rule step(3))
  qed
qed

text \<open>A completed file was completed by an update, or before.\<close>

lemma op_effect_completed:
  assumes "f \<noteq> Global" and "MdStatus (meta_at f (op_effect conf env a s)) = StatusCompleted"
  shows "MdStatus (meta_at f s) = StatusCompleted \<or> (\<exists>u. a = OpUpdate f u \<and> UpStatus u = StatusCompleted)"
proof (cases a)
  case (OpMarkUnfinished m)
  then show ?thesis
    using assms by (auto simp: on_store_def meta_Mark_cases split: if_splits)
qed (use assms in \<open>auto simp: on_store_def meta_UpdateMetaData meta_TimeStamp meta_UpdateGlobalStatus
      apply_update_simps Flush_def split: if_splits\<close>)

lemma reach_completed:
  assumes "replay_reaches conf env (replay_start input st) s" and "f \<noteq> Global"
    and "MdStatus (meta_at f s) = StatusCompleted" and "MdStatus (meta_or_zero f st) \<noteq> StatusCompleted"
  shows "\<exists>t u r. (t, OpUpdate f u, r) \<in> set (sysLog s) \<and> UpStatus u = StatusCompleted"
  using assms(1,3)
proof (induction rule: replay_reaches_induct)
  case start
  then show ?case using assms(4) by (simp add: replay_start_def)
next
  case (step u v)
  obtain t where t: "can_step t u" and v: "v = thread_step conf env t u"
    using step(2) by (auto elim: replay_stepE)
  then obtain a k where a: "sysThreads u ! t = Do a k" using can_step_Do by blast
  have "MdStatus (meta_at f (op_effect conf env a u)) = StatusCompleted"
    using step(4) unfolding v thread_step_Do(3) [OF a] .
  from op_effect_completed [OF assms(2) this] show ?case
    using step(3) unfolding v thread_step_Do(1) [OF a] by auto
qed

section \<open>The file of a goroutine\<close>

lemma thread_log_split:
  "thread_log t l = xs @ e # ys \<Longrightarrow> \<exists>l1 l2. l = l1 @ (t, e) # l2 \<and> thread_log t l1 = xs"
proof (induction l arbitrary: xs)
  case Nil
  then show ?case by (simp add: thread_log_def)
next
  case (Cons x l)
  obtain u d where x: "x = (u, d)" by (cases x) auto
  show ?case
  proof (cases "u = t")
    case True
    then have tl: "d # thread_log t l = xs @ e # ys" using Cons.prems x by (simp add: thread_log_def)
    show ?thesis
    proof (cases xs)
      case Nil
      then show ?thesis using tl x True by (intro exI [of _ "[]"] exI [of _ l]) (simp add: thread_log_def)
    next
      case (Cons z zs)
      then have "thread_log t l = zs @ e # ys" and z: "z = d" using tl by simp_all
      then obtain l1 l2 where "l = l1 @ (t, e) # l2" "thread_log t l1 = zs"
        using Cons.IH by blast
      then have "x # l = (x # l1) @ (t, e) # l2 \<and> thread_log t (x # l1) = xs"
        using x True Cons z by (simp add: thread_log_def)
      then show ?thesis by blast
    qed
  next
    case False
    then have "thread_log t l = xs @ e # ys" using Cons.prems x by (simp add: thread_log_def)
    then obtain l1 l2 where "l = l1 @ (t, e) # l2" "thread_log t l1 = xs" using Cons.IH by blast
    then have "x # l = (x # l1) @ (t, e) # l2 \<and> thread_log t (x # l1) = xs"
      using x False by (simp add: thread_log_def)
    then show ?thesis by blast
  qed
qed

lemma file_op_by:
  assumes r: "replay_reaches conf env (replay_start input st) s"
    and e: "(t, a, x) \<in> set (sysLog s)"
  shows "(t = 0 \<and> main_op a) \<or> (t = 1 \<and> hook_op a)
    \<or> (\<exists>i req. t = i + 2 \<and> i < length (GetProcessList st) \<and> runs_file conf s t req (GetProcessList st ! i)
         \<and> worker_op (GetProcessList st ! i) a)"
proof -
  obtain req gs rest where gs: "GetProcessList st = gs @ rest" "length (sysThreads s) = length gs + 2"
    and run: "\<And>i. i < length gs \<Longrightarrow> runs_file conf s (i + 2) req (gs ! i)"
    using reach_threads(3) [OF r] by blast
  have ev: "(a, x) \<in> set (thread_log t (sysLog s))" by (rule thread_log_event [OF e])
  have t: "t < length gs + 2" using reach_threads(5) [OF r] e gs(2) by auto
  consider "t = 0" | "t = 1" | i where "t = i + 2" "i < length gs"
  proof (cases "t < 2")
    case True
    then show thesis using that(1,2) by linarith
  next
    case False
    then have "t = (t - 2) + 2" "t - 2 < length gs" using t by linarith+
    then show thesis by (rule that(3))
  qed
  then show ?thesis
  proof cases
    case 1
    then have "list_all (\<lambda>e. main_op (fst e)) (thread_log t (sysLog s))"
      using reach_threads(1) [OF r] does_main unfolding does_def by blast
    then show ?thesis using 1 ev by (auto simp: list_all_iff)
  next
    case 2
    then have "list_all (\<lambda>e. hook_op (fst e)) (thread_log t (sysLog s))"
      using reach_threads(2) [OF r] does_hook unfolding does_def by blast
    then show ?thesis using 2 ev by (auto simp: list_all_iff)
  next
    case (3 i)
    then have "list_all (\<lambda>e. worker_op (gs ! i) (fst e)) (thread_log t (sysLog s))"
      using run [of i] does_worker unfolding does_def runs_file_def by blast
    then have "worker_op (gs ! i) a" using ev by (auto simp: list_all_iff)
    then show ?thesis using 3 run [of i] gs(1) by (auto simp: nth_append)
  qed
qed

lemma thread_of_file:
  assumes "replay_reaches conf env (replay_start input st) s" and "distinct (GetProcessList st)"
    and "i < length (GetProcessList st)" and "(t, OpUpdate (GetProcessList st ! i) u, x) \<in> set (sysLog s)"
    and "UpOffset u \<noteq> 0 \<or> UpStatus u = StatusCompleted"
  shows "t = i + 2"
  using file_op_by [OF assms(1,4)] assms(2,3,5) by (auto simp: nth_eq_iff_index_eq)

lemma log_offset_thread:
  "(\<And>t' u x. (t', OpUpdate f u, x) \<in> set l \<Longrightarrow> UpOffset u \<noteq> 0 \<Longrightarrow> t' = t)
     \<Longrightarrow> log_offset f l c = mark_offset f (marks req (thread_log t l)) c"
proof (induction l rule: rev_induct)
  case (snoc e l)
  obtain t' a x where e: "e = (t', a, x)" by (cases e) auto
  have IH: "log_offset f l c = mark_offset f (marks req (thread_log t l)) c"
    by (rule snoc.IH) (use snoc.prems in auto)
  have "op_offset f a c' = mark_offset f (marks_of req (a, x)) c'" for c'
  proof (cases a)
    case (OpCall cl)
    then show ?thesis by (cases cl) simp_all
  qed (auto split: sum.split reply.split option.split)
  moreover have "t' \<noteq> t \<Longrightarrow> op_offset f a c' = c'" for c'
    using snoc.prems [of t'] e by (cases a) auto
  ultimately show ?case unfolding e using IH by (cases "t' = t") simp_all
qed simp

lemma reach_file_trace:
  assumes r: "replay_reaches conf env (replay_start input st) s" and d: "distinct (GetProcessList st)"
    and i: "i < length (GetProcessList st)" and f: "f = GetProcessList st ! i" "f \<noteq> Global"
    and run: "runs_file conf s (i + 2) req f"
  shows "file_trace conf req f (MdOffset (meta_or_zero f st)) (marks req (thread_log (i + 2) (sysLog s)))"
    and "MdOffset (meta_at f s)
      = mark_offset f (marks req (thread_log (i + 2) (sysLog s))) (MdOffset (meta_or_zero f st))"
proof -
  let ?o = "MdOffset (meta_or_zero f st)" and ?l = "thread_log (i + 2) (sysLog s)"
  have only: "t' = i + 2" if "(t', OpUpdate f u, x) \<in> set (sysLog s)" "UpOffset u \<noteq> 0" for t' u x
    using thread_of_file [OF r d i] that f(1) by blast
  show "MdOffset (meta_at f s) = mark_offset f (marks req ?l) ?o"
    unfolding reach_offset [OF r f(2)] by (rule log_offset_thread) (rule only)
  have w: "walk (file_worker conf (dataDir (mst (sysStore s))) req f) ?l (sysThreads s ! (i + 2))"
    using run by (simp add: runs_file_def)
  from file_worker_trace [OF w] show "file_trace conf req f ?o (marks req ?l)"
  proof (elim disjE exE conjE)
    fix r0 x mv fs
    assume l: "?l = (OpInterrupted, r0) # (OpGetMeta f, x) # fs" and mv: "meta_reply x = Some mv"
      and tr: "file_trace conf req f (MdOffset mv) (marks req ?l)"
    have "?l = [(OpInterrupted, r0)] @ (OpGetMeta f, x) # fs" using l by simp
    then obtain l1 l2 where sp: "sysLog s = l1 @ (i + 2, OpGetMeta f, x) # l2"
      and l1: "thread_log (i + 2) l1 = [(OpInterrupted, r0)]"
      using thread_log_split by blast
    have "log_offset f l1 ?o = mark_offset f (marks req (thread_log (i + 2) l1)) ?o"
      by (rule log_offset_thread) (use only sp in auto)
    then have "MdOffset mv = ?o" using reach_meta_reply [OF r f(2) sp mv] l1 by simp
    then show ?thesis using tr by simp
  qed (simp add: minor_unfinished unfinished_file)
qed

section \<open>Properties\<close>

text \<open>C34: Whatever the order of the goroutines, whenever a signal comes and whatever fails, a file whose
  recorded status turns to \<open>COMPLETED\<close> was read by its goroutine, all lines its reader yielded from the
  offset at the start on were handed to the producer, in order and as \<open>prepareReplayLine\<close> makes them, and the producer
  was flushed.\<close>

theorem replay_completed_sent:
  assumes "replay_reaches conf env (replay_start input st) s" and "distinct (GetProcessList st)"
    and "f \<noteq> Global" and "0 \<le> MdOffset (meta_or_zero f st)"
    and "MdStatus (meta_or_zero f (sysStore s)) = StatusCompleted"
    and "MdStatus (meta_or_zero f st) \<noteq> StatusCompleted"
  shows "\<exists>t req ls. runs_file conf s t req f
    \<and> Tokens ls \<in> set (marks req (thread_log t (sysLog s))) \<and> Flushed \<in> set (marks req (thread_log t (sysLog s)))
    \<and> all_sent conf req (MdOffset (meta_or_zero f st)) ls (sent_texts (thread_log t (sysLog s)))"
proof -
  obtain t u x where e: "(t, OpUpdate f u, x) \<in> set (sysLog s)" and u: "UpStatus u = StatusCompleted"
    using reach_completed [OF assms(1,3,5,6)] by blast
  then obtain i req where i: "t = i + 2" "i < length (GetProcessList st)"
      "runs_file conf s t req (GetProcessList st ! i)" "f = GetProcessList st ! i"
    using file_op_by [OF assms(1) e] u by auto
  have tr: "file_trace conf req f (MdOffset (meta_or_zero f st)) (marks req (thread_log t (sysLog s)))"
    using reach_file_trace(1) [OF assms(1,2) i(2,4) assms(3), of req] i by simp
  have "Recorded f u \<in> set (marks req (thread_log t (sysLog s)))"
    using thread_log_event [OF e] unfolding marks_def by force
  from file_trace_completed [OF tr assms(4) this u] show ?thesis
    using i(3,4) sent_texts_marks by metis
qed

theorem replay_completed_sent_witness:
  "\<exists>t req ls. runs_file sample_conf sample_run t req ''a''
    \<and> Tokens ls \<in> set (marks req (thread_log t (sysLog sample_run)))
    \<and> Flushed \<in> set (marks req (thread_log t (sysLog sample_run)))
    \<and> all_sent sample_conf req 0 ls (sent_texts (thread_log t (sysLog sample_run)))"
  using replay_completed_sent [OF sample_reached(1), of "''a''"]
  by (simp add: sample_files sample_ends status_defs)



end
