(* ===== verification/Replay_Ends.thy ===== *)
theory Replay_Ends
  imports Replay_Reach
begin

text \<open>
  The replay job comes to its end: no run is infinite, and a job that has not ended can go on, whatever
  its goroutines have done so far and whether a signal came or not.  So wherever it is, its goroutines
  do not wait for each other in a circle: the slots, the wait group and the notification of the hook are
  given back.
\<close>

section \<open>Counters\<close>

definition log_sum :: "(replay_op \<Rightarrow> int) \<Rightarrow> replay_log \<Rightarrow> int" where
  "log_sum ch l = sum_list (map (\<lambda>e. ch (fst (snd e))) l)"

definition ev_sum :: "(replay_op \<Rightarrow> int) \<Rightarrow> replay_event list \<Rightarrow> int" where
  "ev_sum ch es = sum_list (map (\<lambda>e. ch (fst e)) es)"

lemma sum_simps [simp]:
  "log_sum ch [] = 0" "log_sum ch (l @ [(t, a, r)]) = log_sum ch l + ch a"
  "ev_sum ch [] = 0" "ev_sum ch (es @ es') = ev_sum ch es + ev_sum ch es'"
  "ev_sum ch ((a, r) # es) = ch a + ev_sum ch es"
  by (simp_all add: log_sum_def ev_sum_def)

lemma sums_are: "wg_sum es = ev_sum wg_change es" "slot_sum es = ev_sum slot_change es"
  by (simp_all add: wg_sum_def slot_sum_def ev_sum_def)

lemma log_sum_threads:
  "\<forall>e \<in> set l. fst e < n \<Longrightarrow> log_sum ch l = (\<Sum>t < n. ev_sum ch (thread_log t l))"
proof (induction l rule: rev_induct)
  case (snoc e l)
  obtain t a r where e: "e = (t, a, r)" by (cases e) auto
  have "(\<Sum>u < n. ev_sum ch (thread_log u (l @ [e])))
      = (\<Sum>u < n. ev_sum ch (thread_log u l) + (if u = t then ch a else 0))"
    unfolding e by (rule sum.cong) (auto simp: sum_simps)
  also have "\<dots> = (\<Sum>u < n. ev_sum ch (thread_log u l)) + ch a"
    using snoc.prems e by (simp add: sum.distrib)
  finally show ?case using snoc e by simp
qed (simp add: thread_log_def)

lemma sum_first_two: "(\<Sum>t < n + 2. g t) = g 0 + g 1 + (\<Sum>i < n. g (i + 2))" for g :: "nat \<Rightarrow> int"
  by (induction n) (simp_all add: numeral_2_eq_2)

lemma reach_counters:
  assumes "replay_reaches conf env (replay_start input st) s"
  shows "sysWg s = log_sum wg_change (sysLog s) \<and> sysSlots s = log_sum slot_change (sysLog s)
    \<and> (sysInterrupted s \<longrightarrow> OpSetInterrupted \<in> (fst \<circ> snd) ` set (sysLog s))
    \<and> (OpNotify \<in> (fst \<circ> snd) ` set (sysLog s) \<longrightarrow> sysNotified s)
    \<and> (\<forall>t r. (t, OpInterrupted, r) \<in> set (sysLog s) \<longrightarrow> answered_true r \<longrightarrow> sysInterrupted s)"
  using assms
proof (induction rule: replay_reaches_induct)
  case start
  then show ?case by (simp add: replay_start_def)
next
  case (step u v)
  obtain t where t: "can_step t u" and v: "v = thread_step conf env t u"
    using step(2) by (auto elim: replay_stepE)
  then obtain a k where a: "sysThreads u ! t = Do a k" using can_step_Do by blast
  note st = thread_step_Do [OF a, of conf env]
  have wg: "sysWg (op_effect conf env a u) = sysWg u + wg_change a"
    "sysSlots (op_effect conf env a u) = sysSlots u + slot_change a"
    by (cases a; simp add: on_store_def)+
  have ints: "sysInterrupted (op_effect conf env a u) \<longleftrightarrow> sysInterrupted u \<or> a = OpSetInterrupted"
    "sysNotified (op_effect conf env a u) \<longleftrightarrow> sysNotified u \<or> a = OpNotify"
    by (cases a; simp add: on_store_def)+
  have ans: "a = OpInterrupted \<Longrightarrow> answered_true (op_answer env a u) \<longleftrightarrow> sysInterrupted u"
    by (simp add: answered_true_def)
  show ?case
    using step(3) ans unfolding v st wg ints by (auto simp: wg)
qed

section \<open>Where a goroutine can stop\<close>

lemma does_next:
  assumes "does Q p" and "walk p es (Do a k)"
  shows "Q a"
proof -
  have "walk p (es @ [(a, RUnit)]) (k RUnit)" unfolding walk_snoc using assms(2) by blast
  then show ?thesis using assms(1) unfolding does_def by fastforce
qed

lemma file_op_sums: "file_op f a \<Longrightarrow> wg_change a = 0 \<and> slot_change a = 0"
  by (cases a) simp_all

lemma hook_op_sums: "hook_op a \<Longrightarrow> wg_change a = 0 \<and> slot_change a = 0"
  by (cases a) simp_all

lemma ev_sum_zero: "list_all (\<lambda>e. ch (fst e) = 0) es \<Longrightarrow> ev_sum ch es = 0"
  by (induction es) (auto simp: ev_sum_def)

lemma worker_finished:
  assumes "walk (file_worker conf dir req f) es (Ret x)"
  shows "ev_sum wg_change es = -1" "ev_sum slot_change es = -1"
proof -
  have body: "ev_sum wg_change fs = 0 \<and> ev_sum slot_change fs = 0"
    if "walk (file_body conf dir req f) fs p" for fs p
  proof -
    have "list_all (\<lambda>e. file_op f (fst e)) fs" using that does_body unfolding does_def by blast
    then have "list_all (\<lambda>e. wg_change (fst e) = 0) fs" "list_all (\<lambda>e. slot_change (fst e) = 0) fs"
      using file_op_sums by (auto simp: list_all_iff)
    then show ?thesis by (simp add: ev_sum_zero)
  qed
  have "ev_sum wg_change es = -1 \<and> ev_sum slot_change es = -1"
    using assms unfolding file_worker_def walk_bind
  proof (elim disjE exE conjE)
    fix p' assume "Ret x = bind_io p' (\<lambda>_. act (OpStamp f False True) (act OpWgDone (act OpRelease (Ret ()))))"
    then show ?thesis by (cases p') (simp_all add: act_def)
  next
    fix es1 es2 y
    assume "es = es1 @ es2" "walk (file_body conf dir req f) es1 (Ret y)"
      and "walk (act (OpStamp f False True) (act OpWgDone (act OpRelease (Ret ())))) es2 (Ret x)"
    then show ?thesis using body by (auto simp: walk_ops)
  qed
  then show "ev_sum wg_change es = -1" "ev_sum slot_change es = -1" by simp_all
qed

text \<open>The hook after the signal: it waits only for the wait group, and its last operation is the notification.\<close>

fun late_hook_op :: "replay_op \<Rightarrow> bool" where
  "late_hook_op OpSignal \<longleftrightarrow> False" | "late_hook_op a \<longleftrightarrow> hook_op a"

lemma does_handle: "does late_hook_op (handleReplayShutdown input)"
  unfolding handleReplayShutdown_def WaitForWorkers_def ProduceStatus_def
    sendReplayShutdownInterruptedAlert_def Let_def
  by (intro doing; simp)

text \<open>A program that ends with a notification.\<close>

definition notifies :: "'a io \<Rightarrow> bool" where
  "notifies p \<longleftrightarrow> (\<forall>es x. walk p es (Ret x) \<longrightarrow> OpNotify \<in> fst ` set es)"

lemma notifies_Do: "(\<And>r. a = OpNotify \<or> notifies (k r)) \<Longrightarrow> notifies (Do a k)"
  unfolding notifies_def by (fastforce simp: walk_Do)

lemma notifies_ops:
  "notifies p \<Longrightarrow> notifies (act a p)" "notifies (act OpNotify q)"
  "(\<And>b. notifies (k1 b)) \<Longrightarrow> notifies (ask_bool a k1)"
  "(\<And>n. notifies (k2 n)) \<Longrightarrow> notifies (ask_int a k2)"
  "(\<And>e. notifies (k3 e)) \<Longrightarrow> notifies (ask_call c k3)"
  "(\<And>vs. notifies (k4 vs)) \<Longrightarrow> notifies (ask_all k4)"
  by (simp_all add: io_defs notifies_Do)

lemma notifies_handle: "notifies (handleReplayShutdown input)"
  unfolding handleReplayShutdown_def WaitForWorkers_def ProduceStatus_def
    sendReplayShutdownInterruptedAlert_def Let_def
  by (auto intro!: notifies_ops)

lemma hook_progress:
  assumes w: "walk (closeResources input) es q" and set: "OpSetInterrupted \<in> fst ` set es"
  shows "(\<exists>k. q = Do OpWgWait k) \<or> (\<exists>a k. q = Do a k \<and> a \<noteq> OpSignal \<and> always_enabled a)
    \<or> OpNotify \<in> fst ` set es"
proof -
  from w set obtain r fs where es: "es = (OpSignal, r) # fs" and h: "walk (handleReplayShutdown input) fs q"
    unfolding closeResources_def by (auto simp: walk_ops)
  show ?thesis
  proof (cases q)
    case (Ret x)
    then have "OpNotify \<in> fst ` set fs" using h notifies_handle unfolding notifies_def by blast
    then show ?thesis using es by simp
  next
    case (Do a k)
    have "late_hook_op a" using does_next [OF does_handle] h Do by blast
    then show ?thesis using Do by (cases a) simp_all
  qed
qed

section \<open>Progress\<close>

lemma can_stepI:
  "t < length (sysThreads s) \<Longrightarrow> \<not> job_ended s \<Longrightarrow> sysThreads s ! t = Do a k \<Longrightarrow> op_enabled a s \<Longrightarrow> can_step t s"
  by (simp add: can_step_def)

lemma file_op_enabled: "worker_op f a \<Longrightarrow> always_enabled a \<and> a \<noteq> OpSignal"
  unfolding worker_op_def by (cases a) auto

lemma main_op_not_signal: "main_op a \<Longrightarrow> a \<noteq> OpSignal"
  by auto

text \<open>The sums of the three kinds of goroutines, when every goroutine of a file has ended.\<close>

lemma all_workers_ended:
  assumes r: "replay_reaches conf env (replay_start input st) s"
    and gs: "length (sysThreads s) = length gs + 2"
    and run: "\<And>i. i < length gs \<Longrightarrow> runs_file conf s (i + 2) req (gs ! i)"
    and ended: "\<And>i. i < length gs \<Longrightarrow> \<exists>x. sysThreads s ! (i + 2) = Ret x"
  shows "sysWg s = wg_sum (thread_log 0 (sysLog s)) - int (length gs)"
    and "sysSlots s = slot_sum (thread_log 0 (sysLog s)) - int (length gs)"
proof -
  have hook: "ev_sum wg_change (thread_log 1 (sysLog s)) = 0 \<and> ev_sum slot_change (thread_log 1 (sysLog s)) = 0"
  proof -
    have "list_all (\<lambda>e. hook_op (fst e)) (thread_log 1 (sysLog s))"
      using reach_threads(2) [OF r] does_hook unfolding does_def by blast
    then have "list_all (\<lambda>e. wg_change (fst e) = 0) (thread_log 1 (sysLog s))"
      "list_all (\<lambda>e. slot_change (fst e) = 0) (thread_log 1 (sysLog s))"
      using hook_op_sums by (auto simp: list_all_iff)
    then show ?thesis by (simp add: ev_sum_zero)
  qed
  have worker: "ev_sum wg_change (thread_log (i + 2) (sysLog s)) = -1
      \<and> ev_sum slot_change (thread_log (i + 2) (sysLog s)) = -1" if "i < length gs" for i
    using run [OF that] ended [OF that] worker_finished unfolding runs_file_def by fastforce
  have total: "log_sum ch (sysLog s) = ev_sum ch (thread_log 0 (sysLog s)) - int (length gs)"
    if "ev_sum ch (thread_log 1 (sysLog s)) = 0"
      "\<And>i. i < length gs \<Longrightarrow> ev_sum ch (thread_log (i + 2) (sysLog s)) = -1" for ch
  proof -
    have "log_sum ch (sysLog s) = (\<Sum>t < length gs + 2. ev_sum ch (thread_log t (sysLog s)))"
      using log_sum_threads reach_threads(5) [OF r] gs by simp
    also have "\<dots> = ev_sum ch (thread_log 0 (sysLog s)) + ev_sum ch (thread_log 1 (sysLog s))
        + (\<Sum>i < length gs. ev_sum ch (thread_log (i + 2) (sysLog s)))"
      by (rule sum_first_two)
    also have "\<dots> = ev_sum ch (thread_log 0 (sysLog s)) - int (length gs)" using that by simp
    finally show ?thesis .
  qed
  show "sysWg s = wg_sum (thread_log 0 (sysLog s)) - int (length gs)"
    "sysSlots s = slot_sum (thread_log 0 (sysLog s)) - int (length gs)"
    using reach_counters [OF r] total [of wg_change] total [of slot_change] hook worker sums_are by simp_all
qed

text \<open>C36: The replay job never gets stuck: as long as it has not ended, one of its goroutines can take a step
  other than receiving a signal, in every state that its goroutines can reach in any order, before and
  after a signal and with any failures.\<close>

theorem replay_never_stuck:
  assumes r: "replay_reaches conf env (replay_start input st) s" and run: "\<not> job_ended s"
  shows "\<exists>t a k. can_step t s \<and> sysThreads s ! t = Do a k \<and> a \<noteq> OpSignal"
proof (rule ccontr)
  assume stuck: "\<not> ?thesis"
  have no: "\<not> op_enabled a s" if "t < length (sysThreads s)" "sysThreads s ! t = Do a k" "a \<noteq> OpSignal" for t a k
    using stuck that can_stepI [OF that(1) run that(2)] by blast
  obtain req gs rest where gs: "GetProcessList st = gs @ rest" "spawned (sysLog s) = map (Pair req) gs"
      "length (sysThreads s) = length gs + 2"
    and files: "\<And>i. i < length gs \<Longrightarrow> runs_file conf s (i + 2) req (gs ! i)"
    using reach_threads(3) [OF r] by blast
  have ended: "\<exists>x. sysThreads s ! (i + 2) = Ret x" if i: "i < length gs" for i
  proof (cases "sysThreads s ! (i + 2)")
    case (Do a k)
    have "worker_op (gs ! i) a"
      using does_next [OF does_worker] files [OF i] Do unfolding runs_file_def by metis
    then show ?thesis
      using no [of "i + 2" a k] file_op_enabled always_enabled_enabled i gs(3) Do by simp
  qed simp
  note sums = all_workers_ended [OF r gs(3) files ended]
  let ?m = "thread_log 0 (sysLog s)"
  note main = reach_threads(1) [OF r] and hook = reach_threads(2) [OF r]
  obtain a k where q: "sysThreads s ! 0 = Do a k"
    using run by (auto simp: job_ended_def split: io.splits)
  have "a \<noteq> OpSignal" using does_next [OF does_main] main q main_op_not_signal by metis
  then have blocked: "\<not> op_enabled a s" using no [of 0 a k] q gs(3) by simp
  then have notfree: "\<not> free_program (sysThreads s ! 0)"
    using q always_enabled_enabled by (auto simp: free_program_def)
  have len: "ev_spawned ?m = map (Pair req') hs \<Longrightarrow> length hs = length gs" for req' hs
    using reach_threads(6) [OF r] gs(2) by (metis length_map)
  have waits: "\<not> awaits_hook ?m (sysThreads s ! 0)" if wg: "sysWg s = 0"
  proof
    assume aw: "awaits_hook ?m (sysThreads s ! 0)"
    then have "a = OpAwaitNotify" using q unfolding awaits_hook_def by auto
    then have nn: "\<not> sysNotified s" using blocked by simp
    obtain x where "(OpInterrupted, x) \<in> set ?m" "answered_true x" using aw unfolding awaits_hook_def by blast
    then have "(0, OpInterrupted, x) \<in> set (sysLog s)" by (force simp: thread_log_def)
    then have "OpSetInterrupted \<in> (fst \<circ> snd) ` set (sysLog s)"
      using reach_counters [OF r] \<open>answered_true x\<close> by blast
    then obtain t y where e: "(t, OpSetInterrupted, y) \<in> set (sysLog s)" by force
    have "t = 1" using file_op_by [OF r e] by auto
    then have "OpSetInterrupted \<in> fst ` set (thread_log 1 (sysLog s))" using thread_log_event [OF e] by force
    from hook_progress [OF hook this] show False
    proof (elim disjE exE conjE)
      fix k' assume "sysThreads s ! 1 = Do OpWgWait k'"
      then show False using no [of 1 OpWgWait k'] wg gs(3) by simp
    next
      fix b k' assume "sysThreads s ! 1 = Do b k'" "b \<noteq> OpSignal" "always_enabled b"
      then show False using no [of 1 b k'] always_enabled_enabled gs(3) by simp
    next
      assume "OpNotify \<in> fst ` set (thread_log 1 (sysLog s))"
      then have "OpNotify \<in> (fst \<circ> snd) ` set (sysLog s)" by (force simp: thread_log_def)
      then show False using reach_counters [OF r] nn by blast
    qed
  qed
  from replay_main_at [OF main] show False
    unfolding main_at_def
  proof (elim disjE exE conjE)
    assume "before_spawn ?m" "awaits_hook ?m (sysThreads s ! 0)"
    then show False using waits sums(1) len [of req "[]"] unfolding before_spawn_def by simp
  next
    fix req' hs rest' k'
    assume sp: "spawning req' (GetProcessList st) hs (int (length hs)) ?m"
      and "sysThreads s ! 0 = Do (OpAcquire (effective_concurrency req')) k'"
    then have "sysSlots s = 0" using sums(2) len [of req' hs] unfolding spawning_def by simp
    moreover have "0 < effective_concurrency req'" by (simp add: effective_concurrency_def)
    ultimately show False
      using blocked q \<open>sysThreads s ! 0 = Do (OpAcquire (effective_concurrency req')) k'\<close> by auto
  next
    fix req' k'
    assume sp: "spawning req' (GetProcessList st) (GetProcessList st) (int (length (GetProcessList st))) ?m"
      and "sysThreads s ! 0 = Do OpWgWait k'"
    then have "sysWg s = 0" using sums(1) len [of req' "GetProcessList st"] unfolding spawning_def by simp
    then show False using blocked q \<open>sysThreads s ! 0 = Do OpWgWait k'\<close> by simp
  next
    fix req'
    assume sp: "spawning req' (GetProcessList st) (GetProcessList st) (int (length (GetProcessList st))) ?m"
      and "awaits_hook ?m (sysThreads s ! 0)"
    then show False
      using waits sums(1) len [of req' "GetProcessList st"] unfolding spawning_def by simp
  qed (use notfree in simp_all)
qed

section \<open>Termination\<close>

theorem replay_never_stuck_witness:
  "\<exists>t a k. can_step t sample_run \<and> sysThreads sample_run ! t = Do a k \<and> a \<noteq> OpSignal"
  by (rule replay_never_stuck [OF sample_reached(1) sample_run_goes_on])

text \<open>A program shrinks when it takes a step; the goroutines other than the main one are a multiset.\<close>

definition io_less :: "('a io \<times> 'a io) set" where
  "io_less = {(q, p). \<exists>a k r. p = Do a k \<and> q = k r}"

lemma wf_io_less: "wf io_less"
proof (rule wfI_min)
  fix p :: "'a io" and Q
  assume "p \<in> Q"
  then show "\<exists>z \<in> Q. \<forall>y. (y, z) \<in> io_less \<longrightarrow> y \<notin> Q"
  proof (induction p)
    case (Ret x)
    then show ?case by (intro bexI [of _ "Ret x"]) (auto simp: io_less_def)
  next
    case (Do a k)
    show ?case
    proof (cases "\<exists>r. k r \<in> Q")
      case True
      then show ?thesis using Do.IH [OF rangeI] by blast
    next
      case False
      then show ?thesis using Do.prems by (intro bexI [of _ "Do a k"]) (auto simp: io_less_def)
    qed
  qed
qed

definition run_less :: "((unit io \<times> unit io multiset) \<times> unit io \<times> unit io multiset) set" where
  "run_less = io_less <*lex*> mult1 io_less"

lemma wf_run_less: "wf run_less"
  unfolding run_less_def by (intro wf_lex_prod wf_io_less wf_mult1 [OF wf_io_less])

definition run_state :: "replay_sys \<Rightarrow> unit io \<times> unit io multiset" where
  "run_state s = (sysThreads s ! 0, mset (tl (sysThreads s)))"

lemma step_run_less:
  assumes r: "replay_reaches conf env (replay_start input st) s" and step: "replay_step conf env s s'"
  shows "(run_state s', run_state s) \<in> run_less"
proof -
  obtain t where t: "can_step t s" and s': "s' = thread_step conf env t s"
    using step by (auto elim: replay_stepE)
  then obtain a k where a: "sysThreads s ! t = Do a k" using can_step_Do by blast
  have tl: "t < length (sysThreads s)" using t by (simp add: can_step_def)
  let ?q = "k (op_answer env a s)"
  have less: "(?q, Do a k) \<in> io_less" by (auto simp: io_less_def)
  have th: "sysThreads s' = (sysThreads (op_effect conf env a s))[t := ?q]"
    unfolding s' by (rule thread_step_Do(2) [OF a])
  show ?thesis
  proof (cases "t = 0")
    case True
    then have "sysThreads s' ! 0 = ?q" unfolding th op_effect_threads using tl by simp
    then show ?thesis using less a True by (simp add: run_less_def run_state_def)
  next
    case False
    have "(t, a, op_answer env a s) \<in> set (sysLog s')"
      unfolding s' thread_step_Do(1) [OF a] by simp
    then have "(case a of OpSpawn _ _ _ \<Rightarrow> False | _ \<Rightarrow> True)"
      using file_op_by [OF replay_reaches.further [OF r step]] False
      by (fastforce simp: worker_op_def split: replay_op.split)
    then have eq: "sysThreads s' = (sysThreads s)[t := ?q]"
      unfolding th op_effect_threads by (cases a) simp_all
    then have zero: "sysThreads s' ! 0 = sysThreads s ! 0" using False by simp
    obtain p ps where ps: "sysThreads s = p # ps" using tl by (cases "sysThreads s") auto
    obtain u where u: "t = Suc u" "u < length ps" using False tl ps by (cases t) auto
    have "mset (tl (sysThreads s')) = mset ps - {#ps ! u#} + {#?q#}"
      using eq ps u by (simp add: mset_update)
    moreover have "mset ps = add_mset (Do a k) (mset ps - {#ps ! u#})"
    proof -
      have "Do a k \<in># mset ps" using a ps u by (metis in_multiset_in_set nth_Cons_Suc nth_mem)
      then show ?thesis using a ps u by (simp add: insert_DiffM)
    qed
    ultimately have "(mset (tl (sysThreads s')), mset (tl (sysThreads s))) \<in> mult1 io_less"
      using ps less by (auto intro!: mult1I [of _ "Do a k" "mset ps - {#ps ! u#}" _ "{#?q#}"])
    then show ?thesis using zero by (simp add: run_less_def run_state_def)
  qed
qed


end
