(* ===== verification/Replay_Shutdown.thy ===== *)
theory Replay_Shutdown
  imports Replay_Ends
begin

text \<open>
  The ends of the replay job: what \<open>PreProcessMetaData\<close> prepares, what the shutdown hook leaves behind,
  and the round trips of paths and of salvaged messages.
\<close>

section \<open>Known files\<close>

definition known :: "replay_store \<Rightarrow> bool" where
  "known s \<longleftrightarrow> (\<forall>f \<in> set (GetProcessList s). GetMetaData f s \<noteq> None)"

lemma GetMetaData_set [simp]:
  "GetMetaData f (set_meta g v s) = (if f = g then Some v else GetMetaData f s)"
  by (simp add: GetMetaData_def set_meta_def)

lemma process_list_frame [simp]:
  "GetProcessList (set_meta g v s) = GetProcessList s"
  "GetProcessList (flushLocked env s) = GetProcessList s"
  "GetProcessList (UpdateMetaData env g u s) = GetProcessList s"
  "GetProcessList (AddToProcessList f s) = GetProcessList s @ [f]"
  "GetMetaData h (AddToProcessList f s) = GetMetaData h s"
  by (simp_all add: GetProcessList_def set_meta_def flushLocked_def UpdateMetaData_def AddToProcessList_def
      GetMetaData_def)

lemma GetMetaData_Update [simp]:
  "GetMetaData f (UpdateMetaData env g u s)
     = (if f = g then Some (apply_update u (meta_or_zero g s)) else GetMetaData f s)"
  by (simp add: UpdateMetaData_def)

lemma known_set: "known s \<Longrightarrow> known (set_meta g v s)"
  by (simp add: known_def)

lemma known_update: "known s \<Longrightarrow> known (UpdateMetaData env g u s)"
  by (simp add: known_def)

lemma known_add_file: "known s \<Longrightarrow> known (add_file env input jobName f s)"
  by (auto simp: known_def add_file_def AddMetaData_def Let_def)

lemma known_resume_file: "known s \<Longrightarrow> known (resume_file env d s)"
  by (auto simp: known_def resume_file_def)

lemma fold_known:
  "(\<And>x s. known s \<Longrightarrow> known (g x s)) \<Longrightarrow> known s \<Longrightarrow> known (fold g xs s)"
  by (induction xs arbitrary: s) simp_all

lemma known_prepare_end: "known s \<Longrightarrow> known (snd (prepare_end env s))"
  by (simp add: prepare_end_def known_update)

lemma known_prepare:
  assumes "known s"
  shows "known (snd (PreProcessMetaData env input jobName s))"
proof (cases "metaFile s = NoFile")
  case True
  have "known (s\<lparr>metaFile := x\<rparr>)" for x
    using assms by (simp add: known_def GetProcessList_def GetMetaData_def)
  then have "known (snd (prepare_fresh env input jobName s))"
    using assms unfolding prepare_fresh_def Let_def
    by (auto intro!: known_prepare_end known_update fold_known known_add_file known_set
        simp: AddMetaData_def split: option.split)
  then show ?thesis using True by (simp add: PreProcessMetaData_def)
next
  case False
  have load: "known s'" if "loadMetaMapFromJSON b s = Inr s'" for b s'
    using that assms unfolding loadMetaMapFromJSON_def
    by (auto split: meta_file.splits intro!: fold_known known_set)
  have "known (snd (prepare_resume env input s))"
    using assms unfolding prepare_resume_def
    by (auto split: option.split sum.split intro!: known_prepare_end fold_known known_resume_file
        intro: load [of "metaFile s"] dest: load)
  then show ?thesis using False by (simp add: PreProcessMetaData_def)
qed

text \<open>The start of a job that could be prepared.\<close>

lemma execute_start:
  assumes "ExecuteReplayJob conf topic penv input file = Inr s0"
  obtains req st where "s0 = replay_start req st" and "known st"
proof -
  let ?st = "\<lparr>mst = NewMetaStore (rcEnv conf) (RqRequestId input), metaFile = file\<rparr>"
  let ?p = "PreProcessMetaData penv (with_topic topic input) ''TEST_JOB'' ?st"
  have "known ?st" by (simp add: known_def GetProcessList_def NewMetaStore_def Let_def)
  then have k: "known (snd ?p)" by (rule known_prepare)
  obtain e b c st' where p: "?p = ((e, b, c), st')" by (metis prod.exhaust)
  from assms [unfolded ExecuteReplayJob_def Let_def p] p
  have "e = None \<and> s0 = replay_start (with_topic topic input) st'" by (cases e) simp_all
  then show thesis using that k p by simp
qed

section \<open>What the shutdown hook leaves\<close>

definition terminal_at :: "string \<Rightarrow> replay_store \<Rightarrow> bool" where
  "terminal_at f s \<longleftrightarrow> (\<exists>d. GetMetaData f s = Some d \<and> isTerminalExecutionStatus (MdStatus d))"

lemma GetMetaData_stamp [simp]:
  "GetMetaData f (TimeStampMetaData env g b e s)
     = (if f = g then Some (apply_stamp (now_at env) b e (meta_or_zero g s)) else GetMetaData f s)"
  by (simp add: TimeStampMetaData_def)

lemma GetMetaData_mark:
  "f \<noteq> Global \<Longrightarrow> GetMetaData f (snd (MarkUnfinishedExecutionsAsFailed env msg s))
     = map_option (\<lambda>d. snd (mark_failed (now_at env) msg (f, d))) (GetMetaData f s)"
  by (simp add: MarkUnfinishedExecutionsAsFailed_def Let_def GetMetaData_def map_of_mark
      updateGlobalStatusLocked_def set_meta_def flushLocked_def)

lemma GetMetaData_global_status:
  "f \<noteq> Global \<Longrightarrow> GetMetaData f (UpdateGlobalStatus env s) = GetMetaData f s"
  by (simp add: UpdateGlobalStatus_def updateGlobalStatusLocked_def)

lemma terminal_update:
  "isTerminalExecutionStatus (MdStatus d) \<Longrightarrow> isTerminalExecutionStatus (MdStatus (apply_update u d))"
  by (simp add: apply_update_simps)

text \<open>No operation takes a known file away or reopens one; the mark of the hook closes all known files.\<close>

lemma op_effect_known:
  assumes "f \<noteq> Global" and "GetMetaData f (sysStore s) \<noteq> None"
  shows "GetMetaData f (sysStore (op_effect conf env a s)) \<noteq> None"
  using assms by (cases a) (auto simp: on_store_def GetMetaData_mark GetMetaData_global_status Flush_def)

lemma terminal_mark:
  "isTerminalExecutionStatus (MdStatus d) \<Longrightarrow> isTerminalExecutionStatus (MdStatus (snd (mark_failed now m (f, d))))"
  by (simp add: mark_failed_simps)

lemma op_effect_terminal:
  assumes "f \<noteq> Global" and "terminal_at f (sysStore s)"
  shows "terminal_at f (sysStore (op_effect conf env a s))"
proof -
  from assms(2) obtain d where d: "GetMetaData f (sysStore s) = Some d" "isTerminalExecutionStatus (MdStatus d)"
    by (auto simp: terminal_at_def)
  show ?thesis
    using assms(1) d terminal_mark [OF d(2)]
    by (cases a) (auto simp: on_store_def terminal_at_def GetMetaData_mark GetMetaData_global_status Flush_def
        meta_or_zero_def terminal_update)
qed

lemma op_effect_marks:
  assumes "f \<noteq> Global" and "GetMetaData f (sysStore s) \<noteq> None"
  shows "terminal_at f (sysStore (op_effect conf env (OpMarkUnfinished m) s))"
  using assms
  by (auto simp: on_store_def terminal_at_def GetMetaData_mark mark_failed_simps isTerminalExecutionStatus_def)

lemma reach_marked:
  assumes "replay_reaches conf env (replay_start req st) s" and "f \<noteq> Global" and "GetMetaData f st \<noteq> None"
  shows "GetMetaData f (sysStore s) \<noteq> None
    \<and> ((\<exists>t m x. (t, OpMarkUnfinished m, x) \<in> set (sysLog s)) \<longrightarrow> terminal_at f (sysStore s))"
  using assms(1)
proof (induction rule: replay_reaches_induct)
  case start
  then show ?case using assms(3) by (simp add: replay_start_def)
next
  case (step u v)
  obtain t where t: "can_step t u" and v: "v = thread_step conf env t u"
    using step(2) by (auto elim: replay_stepE)
  then obtain a k where a: "sysThreads u ! t = Do a k" using can_step_Do by blast
  show ?case
    using step(3) op_effect_known [OF assms(2)] op_effect_terminal [OF assms(2)] op_effect_marks [OF assms(2)]
    unfolding v thread_step_Do(1,3) [OF a] by fastforce
qed

text \<open>The hook notifies only after it has marked.\<close>

definition marks_first :: "unit io \<Rightarrow> bool" where
  "marks_first p \<longleftrightarrow> (\<forall>es q. walk p es q \<longrightarrow> OpNotify \<in> fst ` set es \<longrightarrow> (\<exists>m x. (OpMarkUnfinished m, x) \<in> set es))"

lemma marks_first_mark: "marks_first (Do (OpMarkUnfinished m) k)"
  unfolding marks_first_def by (fastforce simp: walk_Do)

lemma marks_first_Do:
  assumes "a \<noteq> OpNotify" and "\<And>r. marks_first (k r)"
  shows "marks_first (Do a k)"
  unfolding marks_first_def
proof (intro allI impI)
  fix es q
  assume "walk (Do a k) es q" and n: "OpNotify \<in> fst ` set es"
  then obtain r fs where es: "es = (a, r) # fs" and w: "walk (k r) fs q" by (auto simp: walk_Do)
  have "OpNotify \<in> fst ` set fs" using n es assms(1) by auto
  then have "\<exists>m x. (OpMarkUnfinished m, x) \<in> set fs" using assms(2) w unfolding marks_first_def by blast
  then show "\<exists>m x. (OpMarkUnfinished m, x) \<in> set es" using es by auto
qed

lemma hook_marks_first: "marks_first (closeResources input)"
proof -
  have mark: "marks_first (ask_int (OpMarkUnfinished m) k)" for m k
    by (simp add: ask_int_def marks_first_mark)
  have "marks_first (WaitForWorkers (ask_int (OpMarkUnfinished m) k))" for m k
    unfolding WaitForWorkers_def ask_bool_def
    by (rule marks_first_Do) (simp_all add: act_def mark marks_first_Do)
  then show ?thesis
    unfolding closeResources_def handleReplayShutdown_def act_def
    by (intro marks_first_Do) simp_all
qed

lemma notified_logged:
  "replay_reaches conf env (replay_start req st) s \<Longrightarrow> sysNotified s
     \<Longrightarrow> OpNotify \<in> (fst \<circ> snd) ` set (sysLog s)"
proof (induction rule: replay_reaches_induct)
  case start
  then show ?case by (simp add: replay_start_def)
next
  case (step u v)
  obtain t where t: "can_step t u" and v: "v = thread_step conf env t u"
    using step(2) by (auto elim: replay_stepE)
  then obtain a k where a: "sysThreads u ! t = Do a k" using can_step_Do by blast
  have "sysNotified (op_effect conf env a u) \<longleftrightarrow> sysNotified u \<or> a = OpNotify"
    by (cases a) (simp_all add: on_store_def)
  then show ?case using step(3,4) unfolding v thread_step_Do [OF a] by auto
qed

text \<open>C38: Once the shutdown hook has finished, which an interrupted job waits for, no file of the job is left
  open: each is recorded as \<open>COMPLETED\<close> or \<open>FAILED\<close>, for a fresh and for a resumed job, whatever its
  goroutines had done when the signal came and whatever they still do.\<close>

theorem replay_shutdown_closes:
  assumes "ExecuteReplayJob conf topic penv input file = Inr s0" and "replay_reaches conf env s0 s"
    and "sysNotified s" and "f \<in> set (GetProcessList (sysStore s0))" and "f \<noteq> Global"
  shows "MdStatus (meta_or_zero f (sysStore s)) \<in> {StatusCompleted, StatusFailed}"
proof -
  obtain req st where s0: "s0 = replay_start req st" and k: "known st"
    using execute_start [OF assms(1)] by blast
  have r: "replay_reaches conf env (replay_start req st) s" using assms(2) s0 by simp
  have kn: "GetMetaData f st \<noteq> None" using k assms(4) s0 by (simp add: known_def replay_start_def)
  obtain t x where e: "(t, OpNotify, x) \<in> set (sysLog s)" using notified_logged [OF r assms(3)] by force
  then have "t = 1" using file_op_by [OF r e] by auto
  then have "OpNotify \<in> fst ` set (thread_log 1 (sysLog s))" using thread_log_event [OF e] by force
  then obtain m y where "(OpMarkUnfinished m, y) \<in> set (thread_log 1 (sysLog s))"
    using hook_marks_first reach_threads(2) [OF r] unfolding marks_first_def by blast
  then have "(1, OpMarkUnfinished m, y) \<in> set (sysLog s)" by (force simp: thread_log_def)
  then have "terminal_at f (sysStore s)" using reach_marked [OF r assms(5) kn] by blast
  then show ?thesis
    by (auto simp: terminal_at_def meta_or_zero_def isTerminalExecutionStatus_def)
qed

theorem replay_shutdown_closes_witness:
  "MdStatus (meta_or_zero ''a'' (sysStore sample_shutdown)) \<in> {StatusCompleted, StatusFailed}"
  by (rule replay_shutdown_closes [OF sample_job_starts [unfolded sample_job_def] sample_reached(2)])
    (simp_all add: sample_ends status_defs)

end
