(* ===== verification/Go_Float.thy ===== *)
theory Go_Float
  imports Complex_Main Go_Strings
begin

text \<open>
  Go's \<open>float64\<close>: IEEE 754 double precision, rounding to nearest with ties to even.  A finite float is its sign and its
  magnitude, a rational number; every operation is the exact one followed by one rounding.  \<open>math.Sqrt\<close> rounds the root
  correctly, by an integer root of more digits than a float has.  \<open>fmt\<close> prints the exact value rounded to the digits asked for.
\<close>

section \<open>Floats\<close>

text \<open>\<open>Inf s\<close> and \<open>Fin s m\<close> are negative when \<open>s\<close> holds; the magnitude \<open>m\<close> is not negative, and zero has a sign.\<close>

datatype float64 = NaN | Inf bool | Fin bool rat

definition exact :: "bool \<Rightarrow> rat \<Rightarrow> rat" where
  "exact s m = (if s then - m else m)"

definition pow2 :: "int \<Rightarrow> rat" where
  "pow2 e = (if 0 \<le> e then 2 ^ nat e else 1 / 2 ^ nat (- e))"

text \<open>The number of binary digits of a positive integer.\<close>

function bits :: "int \<Rightarrow> int" where
  "bits i = (if i \<le> 0 then 0 else 1 + bits (i div 2))"
  by auto
termination by (relation "measure nat") auto

declare bits.simps [simp del]

definition round_half_even :: "rat \<Rightarrow> int" where
  "round_half_even x =
     (let f = \<lfloor>x\<rfloor>; d = x - of_int f
      in if d < 1 / 2 then f else if d > 1 / 2 then f + 1 else if even f then f else f + 1)"

text \<open>The exponent of the last of the 53 digits of a positive number; subnormal numbers have fewer digits.\<close>

definition float_exponent :: "rat \<Rightarrow> int" where
  "float_exponent x =
     (let (n, d) = quotient_of x; e = bits n - bits d - 53; e = (if x \<ge> pow2 (e + 53) then e + 1 else e)
      in max e (- 1074))"

definition round_mag :: "rat \<Rightarrow> rat" where
  "round_mag x = (if x \<le> 0 then 0 else let e = float_exponent x in of_int (round_half_even (x / pow2 e)) * pow2 e)"

definition max_float_limit :: rat where
  "max_float_limit = 2 ^ 1024"

definition finish :: "bool \<Rightarrow> rat \<Rightarrow> float64" where
  "finish s x = (let m = round_mag x in if m \<ge> max_float_limit then Inf s else Fin s m)"

text \<open>The float nearest to a rational number.\<close>

definition float_of_rat :: "rat \<Rightarrow> float64" where
  "float_of_rat x = finish (x < 0) \<bar>x\<bar>"

definition float_of_int :: "int \<Rightarrow> float64" where
  "float_of_int i = float_of_rat (of_int i)"

section \<open>Operations\<close>

definition float_neg :: "float64 \<Rightarrow> float64" where
  "float_neg x = (case x of NaN \<Rightarrow> NaN | Inf s \<Rightarrow> Inf (\<not> s) | Fin s m \<Rightarrow> Fin (\<not> s) m)"

definition float_abs :: "float64 \<Rightarrow> float64" where
  "float_abs x = (case x of NaN \<Rightarrow> NaN | Inf s \<Rightarrow> Inf False | Fin s m \<Rightarrow> Fin False m)"

text \<open>A sum that is zero is positive, except that of two negative zeros.\<close>

definition float_add :: "float64 \<Rightarrow> float64 \<Rightarrow> float64" where
  "float_add x y =
     (case (x, y) of
        (NaN, _) \<Rightarrow> NaN
      | (_, NaN) \<Rightarrow> NaN
      | (Inf s, Inf t) \<Rightarrow> if s = t then Inf s else NaN
      | (Inf s, _) \<Rightarrow> Inf s
      | (_, Inf t) \<Rightarrow> Inf t
      | (Fin s m, Fin t n) \<Rightarrow>
          let v = exact s m + exact t n in if v = 0 then Fin (s \<and> t) 0 else float_of_rat v)"

definition float_sub :: "float64 \<Rightarrow> float64 \<Rightarrow> float64" where
  "float_sub x y = float_add x (float_neg y)"

definition float_mul :: "float64 \<Rightarrow> float64 \<Rightarrow> float64" where
  "float_mul x y =
     (case (x, y) of
        (NaN, _) \<Rightarrow> NaN
      | (_, NaN) \<Rightarrow> NaN
      | (Inf s, Inf t) \<Rightarrow> Inf (s \<noteq> t)
      | (Inf s, Fin t n) \<Rightarrow> if n = 0 then NaN else Inf (s \<noteq> t)
      | (Fin s m, Inf t) \<Rightarrow> if m = 0 then NaN else Inf (s \<noteq> t)
      | (Fin s m, Fin t n) \<Rightarrow> finish (s \<noteq> t) (m * n))"

definition float_div :: "float64 \<Rightarrow> float64 \<Rightarrow> float64" where
  "float_div x y =
     (case (x, y) of
        (NaN, _) \<Rightarrow> NaN
      | (_, NaN) \<Rightarrow> NaN
      | (Inf s, Inf t) \<Rightarrow> NaN
      | (Inf s, Fin t n) \<Rightarrow> Inf (s \<noteq> t)
      | (Fin s m, Inf t) \<Rightarrow> Fin (s \<noteq> t) 0
      | (Fin s m, Fin t n) \<Rightarrow>
          if n = 0 then (if m = 0 then NaN else Inf (s \<noteq> t)) else finish (s \<noteq> t) (m / n))"

text \<open>Comparisons with \<open>NaN\<close> are false, and the zeros are equal.\<close>

definition float_lt :: "float64 \<Rightarrow> float64 \<Rightarrow> bool" where
  "float_lt x y =
     (case (x, y) of
        (NaN, _) \<Rightarrow> False
      | (_, NaN) \<Rightarrow> False
      | (Inf s, Inf t) \<Rightarrow> s \<and> \<not> t
      | (Inf s, Fin _ _) \<Rightarrow> s
      | (Fin _ _, Inf t) \<Rightarrow> \<not> t
      | (Fin s m, Fin t n) \<Rightarrow> exact s m < exact t n)"

definition float_eq :: "float64 \<Rightarrow> float64 \<Rightarrow> bool" where
  "float_eq x y =
     (case (x, y) of
        (NaN, _) \<Rightarrow> False
      | (_, NaN) \<Rightarrow> False
      | (Inf s, Inf t) \<Rightarrow> s = t
      | (Fin s m, Fin t n) \<Rightarrow> exact s m = exact t n
      | _ \<Rightarrow> False)"

definition float_le :: "float64 \<Rightarrow> float64 \<Rightarrow> bool" where
  "float_le x y \<longleftrightarrow> float_lt x y \<or> float_eq x y"

text \<open>\<open>math.Max\<close>.\<close>

definition float_max :: "float64 \<Rightarrow> float64 \<Rightarrow> float64" where
  "float_max x y =
     (if x = Inf False \<or> y = Inf False then Inf False
      else if x = NaN \<or> y = NaN then NaN
      else if x = Fin True 0 \<and> y = Fin False 0 then y
      else if x = Fin False 0 \<and> y = Fin True 0 then x
      else if float_lt y x then x else y)"

text \<open>The integer root.\<close>

function isqrt :: "int \<Rightarrow> int" where
  "isqrt n = (if n \<le> 0 then 0 else let r = 2 * isqrt (n div 4) in if (r + 1) * (r + 1) \<le> n then r + 1 else r)"
  by auto
termination by (relation "measure nat") auto

declare isqrt.simps [simp del]

text \<open>
  The root of \<open>x * 4 ^ k\<close>, of at least 55 digits; when it is not exact any number between it and the next integer rounds to
  the same float.
\<close>

definition float_sqrt :: "float64 \<Rightarrow> float64" where
  "float_sqrt x =
     (case x of
        NaN \<Rightarrow> NaN
      | Inf s \<Rightarrow> if s then NaN else Inf False
      | Fin s m \<Rightarrow>
          if m = 0 then x
          else if s then NaN
          else let (n, d) = quotient_of m; k = nat ((112 - (bits n - bits d)) div 2); y = m * 4 ^ k;
                   r = isqrt \<lfloor>y\<rfloor>; v = (if of_int (r * r) = y then of_int r else of_int r + 1 / 2)
               in Fin False (round_mag (v / 2 ^ k)))"

text \<open>The conversion to a 64-bit integer cuts the fraction off; other values depend on the machine.\<close>

definition float_to_int :: "(float64 \<Rightarrow> int) \<Rightarrow> float64 \<Rightarrow> int" where
  "float_to_int overflow x =
     (case x of
        Fin s m \<Rightarrow> let i = (if s then - \<lfloor>m\<rfloor> else \<lfloor>m\<rfloor>) in if int64 i then i else overflow x
      | _ \<Rightarrow> overflow x)"

section \<open>Printing\<close>

text \<open>The verb \<open>%.nf\<close>.\<close>

definition float_fixed :: "nat \<Rightarrow> float64 \<Rightarrow> string" where
  "float_fixed n x =
     (case x of
        NaN \<Rightarrow> ''NaN''
      | Inf s \<Rightarrow> (if s then ''-Inf'' else ''+Inf'')
      | Fin s m \<Rightarrow>
          let i = round_half_even (m * 10 ^ n)
          in (if s then ''-'' else '''') @ go_itoa (i div 10 ^ n) @ (if n = 0 then '''' else ''.'' @ pad_zeros n (i mod 10 ^ n)))"

section \<open>The error of a rounding\<close>

lemma pow2_powi: "pow2 e = 2 powi e"
  unfolding pow2_def power_int_def by (simp add: power_one_over)

lemma pow2_pos [simp]: "0 < pow2 e"
  by (simp add: pow2_powi)

lemma pow2_add: "pow2 (a + b) = pow2 a * pow2 b"
  by (simp add: pow2_powi power_int_add)

lemma pow2_diff: "pow2 (a - b) = pow2 a / pow2 b"
  by (simp add: pow2_powi power_int_diff)

lemma pow2_mono: "a \<le> b \<Longrightarrow> pow2 a \<le> pow2 b"
  by (simp add: pow2_powi power_int_increasing)

lemma pow2_less_cancel: "pow2 a < pow2 b \<Longrightarrow> a < b"
  using pow2_mono [of b a] by linarith

lemma bits_nonneg: "0 \<le> bits n"
proof (induction n rule: bits.induct)
  case (1 n)
  then show ?case by (subst bits.simps) auto
qed

lemma bits_bounds: "0 < n \<Longrightarrow> pow2 (bits n - 1) \<le> of_int n \<and> of_int n < pow2 (bits n)"
proof (induction n rule: bits.induct)
  case (1 n)
  show ?case
  proof (cases "n = 1")
    case True
    then show ?thesis by (simp add: bits.simps pow2_def)
  next
    case False
    with 1(2) have two: "\<not> n \<le> 0" "0 < n div 2" by auto
    let ?m = "n div 2"
    have ih: "pow2 (bits ?m - 1) \<le> of_int ?m" "of_int ?m < pow2 (bits ?m)" using 1(1) two by auto
    have b: "bits n = 1 + bits ?m" using two by (simp add: bits.simps [of n])
    have p1: "pow2 (bits n) = 2 * pow2 (bits ?m)" unfolding b by (simp add: pow2_add) (simp add: pow2_def)
    have p0: "pow2 (bits n - 1) = 2 * pow2 (bits ?m - 1)"
      unfolding b pow2_diff by (simp add: pow2_add) (simp add: pow2_def)
    have "0 \<le> bits ?m" by (rule bits_nonneg)
    then have "pow2 (bits ?m) = of_int (2 ^ nat (bits ?m))" by (simp add: pow2_def)
    with ih(2) have "(of_int ?m :: rat) < of_int (2 ^ nat (bits ?m))" by simp
    then have "?m < 2 ^ nat (bits ?m)" by (simp only: of_int_less_iff)
    then have "n < 2 * 2 ^ nat (bits ?m)" by linarith
    then have "(of_int n :: rat) < of_int (2 * 2 ^ nat (bits ?m))" by (simp only: of_int_less_iff)
    then have up: "of_int n < pow2 (bits n)" using p1 \<open>0 \<le> bits ?m\<close> by (simp add: pow2_def)
    have "2 * ?m \<le> n" by linarith
    then have "(2 * of_int ?m :: rat) \<le> of_int n" by (metis of_int_le_iff of_int_mult of_int_numeral)
    then show ?thesis using p0 ih(1) up by linarith
  qed
qed

lemma float_exponent_bounds:
  assumes "pow2 (- 1022) \<le> x"
  shows "pow2 (float_exponent x + 52) \<le> x \<and> x < pow2 (float_exponent x + 53)"
proof -
  obtain n d where q: "quotient_of x = (n, d)" by fastforce
  have d: "0 < d" using quotient_of_denom_pos [OF q] .
  have x: "x = of_int n / of_int d" using quotient_of_div [OF q] .
  have "0 < x" using assms pow2_pos [of "- 1022"] by linarith
  then have n: "0 < n" using x d by (simp add: zero_less_divide_iff)
  define e0 where "e0 = bits n - bits d - 53"
  define e where "e = (if x \<ge> pow2 (e0 + 53) then e0 + 1 else e0)"
  have dpos: "(0 :: rat) < of_int d" using d by simp
  have lo: "pow2 (e0 + 52) \<le> x"
  proof -
    have "pow2 (e0 + 52) = pow2 (bits n - 1) / pow2 (bits d)" unfolding e0_def pow2_diff [symmetric] by (simp add: algebra_simps)
    also have "\<dots> \<le> of_int n / of_int d"
      using bits_bounds [OF n] bits_bounds [OF d] dpos n by (intro frac_le) auto
    finally show ?thesis using x by simp
  qed
  have hi: "x < pow2 (e0 + 54)"
  proof -
    have "of_int n / of_int d < pow2 (bits n) / pow2 (bits d - 1)"
      using bits_bounds [OF n] bits_bounds [OF d] dpos n by (intro frac_less) auto
    also have "\<dots> = pow2 (e0 + 54)" unfolding e0_def pow2_diff [symmetric] by (simp add: algebra_simps)
    finally show ?thesis using x by simp
  qed
  have e: "pow2 (e + 52) \<le> x" "x < pow2 (e + 53)" using lo hi by (auto simp: e_def add.assoc)
  from e(2) assms have "pow2 (- 1022) < pow2 (e + 53)" by linarith
  then have "- 1022 < e + 53" by (rule pow2_less_cancel)
  then have "float_exponent x = e" 
    unfolding float_exponent_def q e_def e0_def Let_def prod.case by (simp add: max_def split: if_splits)
  with e show ?thesis by simp
qed

lemma round_half_even_error: "\<bar>of_int (round_half_even y) - y\<bar> \<le> 1 / 2"
proof -
  have "of_int \<lfloor>y\<rfloor> \<le> y" "y < of_int \<lfloor>y\<rfloor> + 1" by linarith+
  then show ?thesis by (auto simp: round_half_even_def Let_def)
qed

text \<open>A normal number is rounded with a relative error of at most \<open>2 ^ - 53\<close>.\<close>

definition float_unit :: rat where
  "float_unit = 1 / 2 ^ 53"

definition near :: "rat \<Rightarrow> rat \<Rightarrow> bool" where
  "near a x \<longleftrightarrow> \<bar>a - x\<bar> \<le> x * float_unit"

lemma float_unit_pos: "0 < float_unit" "float_unit < 1"
  by (simp_all add: float_unit_def)

lemma near_bounds: "near a x \<longleftrightarrow> x * (1 - float_unit) \<le> a \<and> a \<le> x * (1 + float_unit)"
  by (auto simp: near_def abs_le_iff algebra_simps)

lemma round_mag_near:
  assumes "pow2 (- 1022) \<le> x"
  shows "near (round_mag x) x"
proof -
  let ?e = "float_exponent x" and ?i = "round_half_even (x / pow2 (float_exponent x))"
  have pos: "0 < x" using assms pow2_pos [of "- 1022"] by linarith
  then have r: "round_mag x = of_int ?i * pow2 ?e" by (simp add: round_mag_def Let_def)
  have "round_mag x - x = (of_int ?i - x / pow2 ?e) * pow2 ?e"
    using pow2_pos [of ?e] unfolding r left_diff_distrib by (simp add: less_imp_neq [symmetric])
  then have "\<bar>round_mag x - x\<bar> = \<bar>of_int ?i - x / pow2 ?e\<bar> * pow2 ?e" using pow2_pos [of ?e] by (simp add: abs_mult abs_of_pos)
  also have "\<dots> \<le> 1 / 2 * pow2 ?e"
    using round_half_even_error by (intro mult_right_mono) (auto intro: less_imp_le)
  also have "\<dots> = pow2 (?e + 52) * float_unit" unfolding pow2_add [of ?e] by (simp add: pow2_def [of 52] float_unit_def)
  also have "\<dots> \<le> x * float_unit"
    using float_exponent_bounds [OF assms] float_unit_pos by (intro mult_right_mono) auto
  finally show ?thesis by (simp add: near_def)
qed

text \<open>Positive numbers that neither under- nor overflow.\<close>

definition normal :: "rat \<Rightarrow> bool" where
  "normal x \<longleftrightarrow> pow2 (- 1022) \<le> x \<and> x \<le> pow2 1000"

lemma normal_pos: "normal x \<Longrightarrow> 0 < x"
  unfolding normal_def using pow2_pos [of "- 1022"] by linarith

lemma finish_normal:
  assumes "normal x"
  shows "finish s x = Fin s (round_mag x)" and "near (round_mag x) x" and "0 < round_mag x"
proof -
  show n: "near (round_mag x) x" using assms round_mag_near by (simp add: normal_def)
  have "round_mag x \<le> pow2 1000 * 2"
  proof -
    have "round_mag x \<le> x * (1 + float_unit)" using n by (simp only: near_bounds)
    also have "\<dots> \<le> x * 2" using normal_pos [OF assms] float_unit_pos by (intro mult_left_mono) auto
    also have "\<dots> \<le> pow2 1000 * 2" using assms by (auto simp: normal_def)
    finally show ?thesis .
  qed
  moreover have "pow2 1000 * 2 < max_float_limit" by (simp add: max_float_limit_def pow2_def)
  ultimately show "finish s x = Fin s (round_mag x)" by (simp add: finish_def Let_def)
  have "0 < x * (1 - float_unit)" using normal_pos [OF assms] float_unit_pos by (intro mult_pos_pos) simp_all
  then show "0 < round_mag x" using n unfolding near_bounds by linarith
qed

text \<open>Integers of at most 53 digits are floats.\<close>

lemma round_half_even_int [simp]: "round_half_even (of_int i) = i"
  by (simp add: round_half_even_def Let_def)

lemma finish_int:
  assumes "0 \<le> n" and "n < 2 ^ 53"
  shows "finish s (of_int n) = Fin s (of_int n)"
proof -
  have m: "round_mag (of_int n) = of_int n"
  proof (cases "n = 0")
    case False
    let ?e = "float_exponent (of_int n)"
    have n: "(1 :: rat) \<le> of_int n" using False assms(1) by simp
    have "pow2 (- 1022) \<le> pow2 0" by (rule pow2_mono) simp
    with n have b: "pow2 (?e + 52) \<le> of_int n" using float_exponent_bounds [of "of_int n"] by (simp add: pow2_def [of 0])
    have "(of_int n :: rat) < of_int (2 ^ 53)" using assms(2) by (simp only: of_int_less_iff)
    then have "pow2 (?e + 52) < pow2 53" using b by (simp add: pow2_def [of 53])
    then have "?e \<le> 0" using pow2_less_cancel by fastforce
    then have "of_int n / pow2 ?e = of_int (n * 2 ^ nat (- ?e))" by (auto simp: pow2_def)
    then have "of_int (round_half_even (of_int n / pow2 ?e)) * pow2 ?e = of_int n"
      using pow2_pos [of ?e] by (metis less_irrefl nonzero_eq_divide_eq round_half_even_int)
    then show ?thesis using n by (simp add: round_mag_def Let_def)
  qed (simp add: round_mag_def)
  have "(of_int n :: rat) < of_int (2 ^ 53)" using assms(2) by (simp only: of_int_less_iff)
  also have "\<dots> \<le> max_float_limit" by (simp add: max_float_limit_def)
  finally show ?thesis by (simp add: finish_def Let_def m)
qed

lemma float_of_int_exact: "0 \<le> n \<Longrightarrow> n < 2 ^ 53 \<Longrightarrow> float_of_int n = Fin False (of_int n)"
  using finish_int by (simp add: float_of_int_def float_of_rat_def)

section \<open>Errors of operations\<close>

text \<open>A positive float that is \<open>x\<close> up to a relative error \<open>d\<close>.\<close>

definition close_to :: "rat \<Rightarrow> float64 \<Rightarrow> rat \<Rightarrow> bool" where
  "close_to d f x \<longleftrightarrow> 0 < x \<and> (\<exists>a. f = Fin False a \<and> 0 < a \<and> x * (1 - d) \<le> a \<and> a \<le> x * (1 + d))"

lemma close_toE:
  assumes "close_to d f x"
  obtains a where "f = Fin False a" and "0 < a" and "0 < x" and "x * (1 - d) \<le> a" and "a \<le> x * (1 + d)"
  using assms by (auto simp: close_to_def)

lemma close_to_mono: "close_to d f x \<Longrightarrow> d \<le> e \<Longrightarrow> close_to e f x"
proof (elim close_toE)
  fix a
  assume a: "f = Fin False a" "0 < a" "0 < x" "x * (1 - d) \<le> a" "a \<le> x * (1 + d)" and d: "d \<le> e"
  have "x * (1 - e) \<le> x * (1 - d)" "x * (1 + d) \<le> x * (1 + e)" using a(3) d by (auto intro: mult_left_mono)
  with a show ?thesis unfolding close_to_def by (intro conjI exI [of _ a]) linarith+
qed

text \<open>Rounding a number that is \<open>x\<close> up to an error.\<close>

lemma close_to_finish:
  assumes "normal y" and "0 < x" and "x * (1 - d) \<le> y" and "y \<le> x * (1 + d)" and "0 \<le> d" and "d \<le> 1 / 2 ^ 40"
  shows "close_to (d + 2 * float_unit) (finish False y) x"
proof -
  have r: "finish False y = Fin False (round_mag y)" "0 < round_mag y"
    and n: "y * (1 - float_unit) \<le> round_mag y" "round_mag y \<le> y * (1 + float_unit)"
    using finish_normal [OF assms(1)] by (simp_all add: near_bounds)
  have "round_mag y \<le> x * (1 + d) * (1 + float_unit)"
    using n(2) mult_right_mono [OF assms(4), of "1 + float_unit"] float_unit_pos by linarith
  also have "\<dots> = x * ((1 + d) * (1 + float_unit))" by (simp only: mult.assoc)
  also have "\<dots> \<le> x * (1 + (d + 2 * float_unit))"
    using assms(2,5,6) by (intro mult_left_mono) (auto simp: float_unit_def field_simps)
  finally have up: "round_mag y \<le> x * (1 + (d + 2 * float_unit))" .
  have "x * (1 - (d + 2 * float_unit)) \<le> x * ((1 - d) * (1 - float_unit))"
    using assms(2,5,6) by (intro mult_left_mono) (auto simp: float_unit_def field_simps)
  also have "\<dots> = x * (1 - d) * (1 - float_unit)" by (simp only: mult.assoc)
  also have "\<dots> \<le> round_mag y"
    using n(1) mult_right_mono [OF assms(3), of "1 - float_unit"] float_unit_pos by linarith
  finally show ?thesis using up r assms(2) unfolding close_to_def by blast
qed

lemma normal_between: "1 / 2 ^ 100 \<le> x \<Longrightarrow> x \<le> 2 ^ 100 \<Longrightarrow> normal x"
proof -
  have "pow2 (- 1022) \<le> pow2 (- 100)" "pow2 100 \<le> pow2 1000" by (rule pow2_mono, simp)+
  then show "1 / 2 ^ 100 \<le> x \<Longrightarrow> x \<le> 2 ^ 100 \<Longrightarrow> normal x"
    unfolding normal_def by (auto simp: pow2_def [of "- 100"] pow2_def [of 100])
qed

lemma close_to_int:
  assumes "0 < n" and "n < 2 ^ 63"
  shows "close_to (2 * float_unit) (float_of_int n) (of_int n)"
proof -
  have "(1 :: rat) \<le> of_int n" using assms(1) by simp
  moreover have "(of_int n :: rat) \<le> 2 ^ 100"
  proof -
    have "(of_int n :: rat) \<le> of_int (2 ^ 63)" using assms(2) by (simp only: of_int_le_iff)
    then show ?thesis by simp
  qed
  ultimately have "normal (of_int n)" by (intro normal_between) auto
  then show ?thesis
    using close_to_finish [of "of_int n" "of_int n" 0] assms(1) by (simp add: float_of_int_def float_of_rat_def)
qed

lemma close_to_div:
  assumes "close_to d f x" and "close_to d g y" and "normal (x / y * (1 / 2))" and "normal (x / y * 2)"
    and "0 \<le> d" and "d \<le> 1 / 2 ^ 50"
  shows "close_to (3 * d + 2 * float_unit) (float_div f g) (x / y)"
proof -
  obtain a where a: "f = Fin False a" "0 < a" "0 < x" "x * (1 - d) \<le> a" "a \<le> x * (1 + d)"
    using assms(1) by (rule close_toE)
  obtain b where b: "g = Fin False b" "0 < b" "0 < y" "y * (1 - d) \<le> b" "b \<le> y * (1 + d)"
    using assms(2) by (rule close_toE)
  have div: "float_div f g = finish False (a / b)" using a(1) b(1,2) by (simp add: float_div_def)
  have q: "0 < x / y" using a(3) b(3) by simp
  have dd: "0 < 1 - d" "0 < 1 + d" using assms(5,6) by (auto intro: le_less_trans)
  have d_sq: "d * (d * 3) \<le> d" using assms(5,6) mult_left_mono [of "d * 3" 1 d] by simp
  have up: "a / b \<le> x / y * (1 + 3 * d)"
  proof -
    have "a / b \<le> x * (1 + d) / (y * (1 - d))"
      using a b dd by (intro frac_le) (auto intro: mult_pos_pos less_imp_le)
    also have "\<dots> = x / y * ((1 + d) / (1 - d))" by simp
    also have "\<dots> \<le> x / y * (1 + 3 * d)"
      using q dd assms(5,6) d_sq by (intro mult_left_mono) (auto simp: field_simps)
    finally show ?thesis .
  qed
  have lo: "x / y * (1 - 3 * d) \<le> a / b"
  proof -
    have "x / y * (1 - 3 * d) \<le> x / y * ((1 - d) / (1 + d))"
      using q dd assms(5,6) by (intro mult_left_mono) (auto simp: field_simps)
    also have "\<dots> = x * (1 - d) / (y * (1 + d))" by simp
    also have "\<dots> \<le> a / b" using a b dd by (intro frac_le) (auto intro: mult_pos_pos less_imp_le)
    finally show ?thesis .
  qed
  have d3: "3 * d \<le> 1 / 2 ^ 40" using assms(6) by simp
  have "x / y * (1 / 2) \<le> x / y * (1 - 3 * d)" "x / y * (1 + 3 * d) \<le> x / y * 2"
    using mult_left_mono [of "1 / 2" "1 - 3 * d" "x / y"] mult_left_mono [of "1 + 3 * d" 2 "x / y"] q d3
    by simp_all
  with up lo assms(3,4) have "normal (a / b)" unfolding normal_def by linarith
  then show ?thesis using close_to_finish [OF _ q lo up] assms(5) d3 by (simp add: div)
qed

lemma close_to_mult:
  assumes "close_to d f x" and "g = Fin False c" and "0 < c" and "normal (x * c * (1 / 2))" and "normal (x * c * 2)"
    and "0 \<le> d" and "d \<le> 1 / 2 ^ 40"
  shows "close_to (d + 2 * float_unit) (float_mul f g) (x * c)"
proof -
  obtain a where a: "f = Fin False a" "0 < a" "0 < x" "x * (1 - d) \<le> a" "a \<le> x * (1 + d)"
    using assms(1) by (rule close_toE)
  have mul: "float_mul f g = finish False (a * c)" using a(1) assms(2) by (simp add: float_mul_def)
  have up: "a * c \<le> x * c * (1 + d)" and lo: "x * c * (1 - d) \<le> a * c"
    using a(4,5) assms(3) by (simp_all add: algebra_simps)
      (metis (no_types) distrib_left mult_left_mono mult.commute less_imp_le right_diff_distrib)+
  have q: "0 < x * c" using a(3) assms(3) by simp
  have "x * c * (1 / 2) \<le> x * c * (1 - d)" "x * c * (1 + d) \<le> x * c * 2"
    using mult_left_mono [of "1 / 2" "1 - d" "x * c"] mult_left_mono [of "1 + d" 2 "x * c"] q assms(7)
    by simp_all
  with up lo assms(4,5) have "normal (a * c)" unfolding normal_def by linarith
  then show ?thesis using close_to_finish [OF _ q lo up] assms(6,7) by (simp add: mul)
qed

end
