(* ===== verification/Delivered_More.thy ===== *)
theory Delivered_More
  imports Inactive_Store Go_Float
begin

text \<open>
  The job of \<open>internal/cp_alerts/jobs/destination_delivered_more_check.go\<close> with
  \<open>internal/util/sandbox_alert_config_util.go\<close>: pairs of a destination and one of its sources to which more
  bytes were delivered than the source took in are alerted, and open alerts of pairs that are in bounds are
  resolved.

  \<open>ve_rows n\<close> is the order in which operation \<open>n\<close> returns rows without an order, \<open>ve_by_update n\<close> the one of
  configurations ordered by \<open>updated_at DESC\<close>, \<open>ve_by_tenant n\<close> by tenant and then so; \<open>vw_pipelines\<close> is the
  join that gives the sources of a destination by active pipelines.  \<open>ve_local\<close> prints a time in the
  machine's location.
\<close>

section \<open>Tables and environment\<close>

record DestinationDeliveredMoreAlertConfig =
  DifferencePercentageThreshold :: int
  MinimumIngestionVolumeThreshold :: int
  MinimumIngestionVolumeUnit :: string

record delivered_config =
  VcEnabled :: bool
  VcDeliveredMore :: "DestinationDeliveredMoreAlertConfig option"

record delivered_config_row =
  VcTenantId :: string
  VcEntityType :: string
  VcAlertType :: string
  VcUpdatedAt :: go_time
  VcConfig :: "delivered_config option"

record delivered_world = alert_world +
  vw_tenants :: "(string \<times> bool) list"
  vw_configs :: "delivered_config_row list"
  vw_destinations :: "Destination list"
  vw_sources :: "Source list"
  vw_pipelines :: "(string \<times> Source) list"
  vw_cache_ready :: bool
  vw_cache_error :: "go_error option"
  vw_cache :: "(string \<times> bool) list"

record delivered_env = alert_env +
  ve_rows :: "nat \<Rightarrow> Destination list \<Rightarrow> Destination list"
  ve_source_rows :: "nat \<Rightarrow> Source list \<Rightarrow> Source list"
  ve_by_update :: "nat \<Rightarrow> delivered_config_row list \<Rightarrow> delivered_config_row list"
  ve_by_tenant :: "nat \<Rightarrow> delivered_config_row list \<Rightarrow> delivered_config_row list"
  ve_getenv :: "string \<Rightarrow> string"
  ve_overflow :: "rat \<Rightarrow> int"
  ve_local :: "go_time \<Rightarrow> string"
  ve_manager :: "go_error option"

type_synonym 'a deliv = "(delivered_world, 'a) eff"

definition change_world :: "(delivered_world \<Rightarrow> delivered_world) \<Rightarrow> unit deliv" where
  "change_world f w = (Ok (), f w)"

definition TenantEntityType :: string where "TenantEntityType = ''TENANT''"

section \<open>Sandbox alerts\<close>

text \<open>The first row of a tenant is kept.\<close>

fun cache_configs :: "delivered_config_row list \<Rightarrow> (string \<times> bool) list \<Rightarrow> (string \<times> bool) list" where
  "cache_configs [] acc = acc"
| "cache_configs (c # cs) acc =
     (if map_of acc (VcTenantId c) \<noteq> None then cache_configs cs acc
      else cache_configs cs
        (acc @ [(VcTenantId c, case VcConfig c of None \<Rightarrow> False | Some d \<Rightarrow> VcEnabled d)]))"

definition initializeSandboxAlertCache :: "delivered_env \<Rightarrow> unit deliv" where
  "initializeSandboxAlertCache env =
     bind_eff (try_eff (al_query env (\<lambda>w. ve_by_tenant env (aw_operations w)
        (filter (\<lambda>c. VcEntityType c = TenantEntityType \<and> VcAlertType c = ''DISABLE_SANDBOX_ALERTS'') (vw_configs w)))))
       (\<lambda>r. case r of
          Inl e \<Rightarrow> change_world (\<lambda>w. w\<lparr>vw_cache_error := Some e\<rparr>)
        | Inr allConfigs \<Rightarrow> change_world (\<lambda>w. w\<lparr>vw_cache := cache_configs allConfigs []\<rparr>))"

definition ShouldSkipSandboxAlerts :: "delivered_env \<Rightarrow> string \<Rightarrow> (bool \<times> go_error option) deliv" where
  "ShouldSkipSandboxAlerts env tenantId =
     bind_eff (\<lambda>w. if vw_cache_ready w then (Ok (), w)
                    else initializeSandboxAlertCache env (w\<lparr>vw_cache_ready := True\<rparr>)) (\<lambda>_.
     bind_eff (\<lambda>w. (Ok (map_of (vw_cache w) tenantId, vw_cache_error w), w)) (\<lambda>(cached, initError).
       case cached of
         Some skip \<Rightarrow> eff_return (skip, None)
       | None \<Rightarrow>
         (case initError of
            Some e \<Rightarrow> eff_return (True, Some e)
          | None \<Rightarrow> bind_eff (change_world (\<lambda>w. w\<lparr>vw_cache := vw_cache w @ [(tenantId, False)]\<rparr>))
              (\<lambda>_. eff_return (False, None)))))"

section \<open>Configuration\<close>

record delivered_settings =
  SetPercentage :: int
  SetMinimum :: int

definition getDeliveredMoreConfigForTenant :: "delivered_env \<Rightarrow> string \<Rightarrow> delivered_config_row option deliv" where
  "getDeliveredMoreConfigForTenant env tenantId =
     bind_eff (wrap_eff ''failed to read tenant-level configs: ''
       (al_query env (\<lambda>w. take 1 (ve_by_update env (aw_operations w)
          (filter (\<lambda>c. VcTenantId c = tenantId \<and> VcEntityType c = TenantEntityType
                     \<and> VcAlertType c = ''DESTINATION_DELIVERED_MORE'') (vw_configs w))))))
       (\<lambda>configs. eff_return (case configs of [] \<Rightarrow> None | c # _ \<Rightarrow> Some c))"

definition default_settings :: "(string \<Rightarrow> string) \<Rightarrow> delivered_settings" where
  "default_settings env =
     \<lparr>SetPercentage = GetEnvInt env ''DESTINATION_DELIVERED_MORE_THAN_INJECTED_PERCENTAGE_THRESHOLD'' 5,
      SetMinimum = GetEnvInt env ''DESTINATION_DELIVERED_MIN_INGESTION_VOLUME_THRESHOLD'' 0\<rparr>"

definition tenant_settings :: "delivered_settings \<Rightarrow> delivered_config_row option \<Rightarrow> delivered_settings" where
  "tenant_settings dflt tenantConfig =
     (case tenantConfig of
        None \<Rightarrow> dflt
      | Some row \<Rightarrow>
        (case VcConfig row of
           None \<Rightarrow> dflt
         | Some c \<Rightarrow>
           if \<not> VcEnabled c then dflt
           else (case VcDeliveredMore c of
                   None \<Rightarrow> dflt
                 | Some a \<Rightarrow>
                   \<lparr>SetPercentage = DifferencePercentageThreshold a,
                    SetMinimum = DataVolumeToBytes (MinimumIngestionVolumeThreshold a) (MinimumIngestionVolumeUnit a)\<rparr>)))"

definition getTimeRange :: "delivered_env \<Rightarrow> int \<Rightarrow> int \<Rightarrow> (int \<times> int) deliv" where
  "getTimeRange env fromHourMinus toHoursMinus =
     bind_eff (now_utc env) (\<lambda>now. eff_return
       (unix_milli (now + wrap64 (- wrap64 (fromHourMinus * Hour))),
        unix_milli (now + wrap64 (- wrap64 (toHoursMinus * Hour)))))"

section \<open>Volumes\<close>

definition ingested_query :: "int \<Rightarrow> int \<Rightarrow> string" where
  "ingested_query from to =
     ''name:\"total_data_received\" AND tags.component_name:\"storage\" AND tags.db_ts_win:{''
       @ go_itoa from @ '' TO '' @ go_itoa to @ '']''"

definition delivered_query :: "int \<Rightarrow> int \<Rightarrow> string" where
  "delivered_query from to =
     ''name:\"total_bytes_delivered\" AND tags.component_name:\"dispenser\" AND tags.db_ts_win:[''
       @ go_itoa from @ '' TO '' @ go_itoa to @ ''}''"

definition sum_value_agg :: AggregationFunction where
  "sum_value_agg = \<lparr>Function = ''sum'', AggField = ''counter.value'', AggName = ''sum_value''\<rparr>"

text \<open>A key or a value of another type makes its type assertion panic.\<close>

definition put_ingested :: "delivered_env \<Rightarrow> AggResponse \<Rightarrow> (string \<rightharpoonup> int) \<Rightarrow> (string \<rightharpoonup> int) option" where
  "put_ingested env response vols =
     (case (aggKeyString_jobs (RespKey response) ''tags.db_event_source_id.keyword'', aggValueFloat64 (RespValues response) ''sum_value'') of
        (Some srcId, Some v) \<Rightarrow> Some (vols(srcId \<mapsto> float_to_int64 (ve_overflow env) v))
      | _ \<Rightarrow> None)"

definition findIngestedVolumesForSources :: "delivered_env \<Rightarrow> string \<Rightarrow> int \<Rightarrow> int \<Rightarrow> (string \<rightharpoonup> int) deliv" where
  "findIngestedVolumesForSources env tenantId from to =
     agg_pages (al_fuel env)
       (\<lambda>after. CompositePaginatedAggregate (al_client env) 100 (StatisticsIndexAlias tenantId) (ingested_query from to)
          [''tags.db_event_source_id.keyword''] [sum_value_agg] after)
       (put_ingested env) None Map.empty"

record DeliveredVolume =
  DvTenantId :: string
  DvDestinationId :: string
  DvSourceId :: string
  DvOutData :: int

definition put_delivered :: "delivered_env \<Rightarrow> string \<Rightarrow> AggResponse \<Rightarrow> DeliveredVolume list \<Rightarrow> DeliveredVolume list option" where
  "put_delivered env tenantId response vols =
     (case (aggKeyString_jobs (RespKey response) ''tags.destination_id.keyword'',
            aggKeyString_jobs (RespKey response) ''tags.db_event_source_id.keyword'',
            aggValueFloat64 (RespValues response) ''sum_value'') of
        (Some d, Some s, Some v) \<Rightarrow>
          Some (vols @ [\<lparr>DvTenantId = tenantId, DvDestinationId = d, DvSourceId = s,
                         DvOutData = float_to_int64 (ve_overflow env) v\<rparr>])
      | _ \<Rightarrow> None)"

definition findDeliveredVolumesForDestinations :: "delivered_env \<Rightarrow> string \<Rightarrow> int \<Rightarrow> int \<Rightarrow> DeliveredVolume list deliv" where
  "findDeliveredVolumesForDestinations env tenantId from to =
     agg_pages (al_fuel env)
       (\<lambda>after. CompositePaginatedAggregate (al_client env) 100 (StatisticsIndexAlias tenantId) (delivered_query from to)
          [''tags.destination_id.keyword'', ''tags.db_event_source_id.keyword''] [sum_value_agg] after)
       (put_delivered env tenantId) None []"

type_synonym delivered_map = "string \<rightharpoonup> (string \<rightharpoonup> int)"

text \<open>A volume that is not positive ends the loop with a nil map.\<close>

fun delivered_by_pair :: "DeliveredVolume list \<Rightarrow> delivered_map \<Rightarrow> delivered_map" where
  "delivered_by_pair [] acc = acc"
| "delivered_by_pair (dv # dvs) acc =
     (if DvOutData dv \<le> 0 then Map.empty
      else delivered_by_pair dvs
        (acc(DvDestinationId dv \<mapsto>
          (case acc (DvDestinationId dv) of None \<Rightarrow> Map.empty | Some m \<Rightarrow> m)(DvSourceId dv \<mapsto> DvOutData dv))))"

definition getDeliveredVolumeByDestinationAndSourceId :: "delivered_env \<Rightarrow> string \<Rightarrow> int \<Rightarrow> int \<Rightarrow> delivered_map deliv" where
  "getDeliveredVolumeByDestinationAndSourceId env tenantId from to =
     bind_eff (findDeliveredVolumesForDestinations env tenantId from to) (\<lambda>deliveredVolumes.
       eff_return (delivered_by_pair deliveredVolumes Map.empty))"

section \<open>The comparison of a pair\<close>

record DestinationToAlert =
  DaDestinationId :: string
  DaSourceId :: string
  DaTenantId :: string
  DaDataPlaneId :: string
  DaDestinationName :: string
  DaOutData :: int
  DaInData :: int
  DaFromTime :: int
  DaToTime :: int

definition more_percentage :: "int \<Rightarrow> int \<Rightarrow> float64" where
  "more_percentage outVolume inVolume =
     float_mul (float_div (float_of_int (wrap64 (outVolume - inVolume))) (float_of_int inVolume)) (float_of_int 100)"

datatype pair_verdict = NotCompared | InBounds | DeliveredMore

definition compare_pair :: "delivered_settings \<Rightarrow> int option \<Rightarrow> int option \<Rightarrow> pair_verdict" where
  "compare_pair st inVolume outVolume =
     (case (inVolume, outVolume) of
        (Some i, Some out) \<Rightarrow>
          if i = 0 then NotCompared
          else if i < SetMinimum st then InBounds
          else if out > i \<and> float_lt (float_of_int (SetPercentage st)) (more_percentage out i) then DeliveredMore
          else InBounds
      | _ \<Rightarrow> NotCompared)"

type_synonym pair_scan = "DestinationToAlert list \<times> (string \<times> string) list"

fun check_pairs ::
  "delivered_settings \<Rightarrow> (string \<rightharpoonup> int) \<Rightarrow> (string \<rightharpoonup> int) \<Rightarrow> string \<Rightarrow> int \<Rightarrow> int \<Rightarrow> Destination \<Rightarrow> string list \<Rightarrow> pair_scan
     \<Rightarrow> pair_scan" where
  "check_pairs st ins outs tenantId from to dest [] acc = acc"
| "check_pairs st ins outs tenantId from to dest (sourceId # ids) (alertDestinations, healthyPairs) =
     check_pairs st ins outs tenantId from to dest ids
       (case compare_pair st (ins sourceId) (outs sourceId) of
          NotCompared \<Rightarrow> (alertDestinations, healthyPairs)
        | InBounds \<Rightarrow> (alertDestinations, healthyPairs @ [(DstID dest, sourceId)])
        | DeliveredMore \<Rightarrow>
            (alertDestinations @
               [\<lparr>DaDestinationId = DstID dest, DaSourceId = sourceId, DaTenantId = tenantId,
                 DaDataPlaneId = DstDataPlaneId dest, DaDestinationName = DstName dest,
                 DaOutData = the (outs sourceId), DaInData = the (ins sourceId), DaFromTime = from, DaToTime = to\<rparr>],
             healthyPairs))"

section \<open>The destinations of a tenant\<close>

definition GetDestinationByTenantId :: "delivered_env \<Rightarrow> string \<Rightarrow> Destination list deliv" where
  "GetDestinationByTenantId env tenantId =
     al_query env (\<lambda>w. ve_rows env (aw_operations w) (filter (\<lambda>d. DstTenantID d = tenantId) (vw_destinations w)))"

definition GetSourceByDestinationId :: "delivered_env \<Rightarrow> string \<Rightarrow> Source list deliv" where
  "GetSourceByDestinationId env dId =
     al_query env (\<lambda>w. ve_source_rows env (aw_operations w) (map snd (filter (\<lambda>p. fst p = dId) (vw_pipelines w))))"

text \<open>The last row of an id counts.\<close>

definition GetLogSourceIdToNamesMap :: "delivered_env \<Rightarrow> string \<Rightarrow> (string \<rightharpoonup> string) deliv" where
  "GetLogSourceIdToNamesMap env tenantId =
     al_query env (\<lambda>w. map_of (rev (map (\<lambda>s. (SrcID s, SrcName s))
       (ve_source_rows env (aw_operations w) (filter (\<lambda>s. SrcTenantID s = tenantId) (vw_sources w))))))"

definition SandboxDestinationID :: string where "SandboxDestinationID = ''dbd00000-0000-0000-0000-000000000000''"
definition SandboxStorageDestinationID :: string where "SandboxStorageDestinationID = ''dbd00000-0000-0000-0000-000000000001''"

definition skip_sandbox :: "delivered_env \<Rightarrow> string \<Rightarrow> Destination \<Rightarrow> bool deliv" where
  "skip_sandbox env tenantId dest =
     (if DstID dest = SandboxDestinationID \<or> DstID dest = SandboxStorageDestinationID
      then bind_eff (ShouldSkipSandboxAlerts env tenantId) (\<lambda>(shouldSkip, err). eff_return (err \<noteq> None \<or> shouldSkip))
      else eff_return False)"

definition check_destination_pairs ::
  "delivered_env \<Rightarrow> delivered_settings \<Rightarrow> (string \<rightharpoonup> int) \<Rightarrow> delivered_map \<Rightarrow> string \<Rightarrow> int \<Rightarrow> int \<Rightarrow> Destination \<Rightarrow> pair_scan
     \<Rightarrow> pair_scan deliv" where
  "check_destination_pairs env st ins outs tenantId from to dest acc =
     (if DstStatus dest \<noteq> ''ACTIVE'' then eff_return acc
      else bind_eff (skip_sandbox env tenantId dest) (\<lambda>skip.
        if skip then eff_return acc
        else case outs (DstID dest) of
          None \<Rightarrow> eff_return acc
        | Some delivered \<Rightarrow>
            bind_eff (try_eff (GetSourceByDestinationId env (DstID dest))) (\<lambda>r.
              case r of
                Inl _ \<Rightarrow> eff_return acc
              | Inr sourcesList \<Rightarrow>
                  eff_return (check_pairs st ins delivered tenantId from to dest
                    (map SrcID (filter (\<lambda>s. SrcStatus s = ''ACTIVE'') sourcesList)) acc))))"

fun check_all_pairs ::
  "(Destination \<Rightarrow> pair_scan \<Rightarrow> pair_scan deliv) \<Rightarrow> Destination list \<Rightarrow> pair_scan \<Rightarrow> pair_scan deliv" where
  "check_all_pairs check [] acc = eff_return acc"
| "check_all_pairs check (d # ds) acc = bind_eff (check d acc) (check_all_pairs check ds)"

section \<open>Alerts\<close>

fun byte_unit :: "nat \<Rightarrow> int \<Rightarrow> int \<Rightarrow> nat \<Rightarrow> int \<times> nat" where
  "byte_unit 0 n dv ex = (dv, ex)"
| "byte_unit (Suc k) n dv ex = (if n \<ge> 1024 then byte_unit k (n div 1024) (dv * 1024) (Suc ex) else (dv, ex))"

text \<open>A 64-bit number is divided at most five times before it is less than the unit.\<close>

definition HumanReadableBytes :: "int \<Rightarrow> string" where
  "HumanReadableBytes bytesSize =
     (if bytesSize < 1024 then go_itoa bytesSize @ '' B''
      else let (dv, ex) = byte_unit 6 (bytesSize div 1024) 1024 0
        in float_fixed 2 (float_div (float_of_int bytesSize) (float_of_int dv)) @ '' '' @ [''KMGTPE'' ! ex] @ ''B'')"

definition delivered_entity :: "DestinationToAlert \<Rightarrow> AlertEntity" where
  "delivered_entity d =
     \<lparr>GetEntityId = DaDestinationId d, GetEntityName = DaDestinationName d, GetDataPlaneId = DaDataPlaneId d,
      GetTenantId = DaTenantId d, GetSecondaryEntityId = DaSourceId d\<rparr>"

definition delivered_alert_options :: "delivered_env \<Rightarrow> go_time \<Rightarrow> string \<Rightarrow> DestinationToAlert \<Rightarrow> alert_options" where
  "delivered_alert_options env now sourceName d =
     \<lparr>OptFunctionality = ''dispenser'', OptEntity = delivered_entity d, OptCriticality = ''warning'',
      OptFunctionalityType = ''volume_deviation_checker'',
      OptTitle = ''Destination '' @ quoted (DaDestinationName d) @ '' delivered more data than injected for source '' @ quoted sourceName,
      OptMessage = ''Destination '' @ quoted (DaDestinationName d) @ '' delivered '' @ HumanReadableBytes (DaOutData d)
        @ '' data, but injected volume by source '' @ quoted sourceName @ '' was '' @ HumanReadableBytes (DaInData d)
        @ '' in the time from '' @ quoted (ve_local env (from_unix_milli (DaFromTime d))) @ '' to ''
        @ quoted (ve_local env (from_unix_milli (DaToTime d))) @ '' as observed on '' @ quoted (HumanReadableTimeWithZone now),
      OptErrorCode = ''DNDW10005'', OptErrorTemplate = ''Volume deviation detected . {0}'',
      OptErrorParam = ''More data delivered than injected for destination.'',
      OptAction = ''Please check destination'' @ [CHR 0x27] @ ''s forward data type. If it is Databahn Object, what we send out is usually more than injected. You also can check transformation, if any, for that pipeline for what fields are selected like raw event or the derived fields.''\<rparr>"

definition buildMoreDeliveredAlert :: "delivered_env \<Rightarrow> (string \<rightharpoonup> string) \<Rightarrow> DestinationToAlert \<Rightarrow> Alert deliv" where
  "buildMoreDeliveredAlert env names toAlert =
     (case names (DaSourceId toAlert) of
        None \<Rightarrow> eff_fail (''source name not found for source id: '' @ DaSourceId toAlert @ '' and tenant '' @ DaTenantId toAlert)
      | Some sourceName \<Rightarrow>
          bind_eff (now_utc env) (\<lambda>now. NewAlert env (delivered_alert_options env now sourceName toAlert)))"

text \<open>An alert that cannot be built is logged and left out.\<close>

fun build_some :: "('x \<Rightarrow> ('w, 'a) eff) \<Rightarrow> 'x list \<Rightarrow> ('w, 'a list) eff" where
  "build_some build [] = eff_return []"
| "build_some build (x # xs) =
     bind_eff (try_eff (build x)) (\<lambda>r. bind_eff (build_some build xs) (\<lambda>alerts.
       eff_return (case r of Inl _ \<Rightarrow> alerts | Inr a \<Rightarrow> a # alerts)))"

definition pair_query :: "string \<Rightarrow> string \<times> string \<Rightarrow> string" where
  "pair_query tenantId pair =
     ''tenantId:'' @ tenantId @ '' AND dismissed:false AND functionality:dispenser AND functionalityType:volume_deviation_checker''
       @ '' AND functionalityEntityId:'' @ fst pair @ '' AND secondaryEntityId:'' @ snd pair"

text \<open>The open alerts of the healthy pairs; a failing search or decoder is logged, and the next pair follows.\<close>

fun open_pair_alerts :: "delivered_env \<Rightarrow> string \<Rightarrow> (string \<times> string) list \<Rightarrow> string list \<Rightarrow> string list deliv" where
  "open_pair_alerts env tenantId [] alertsToDismiss = eff_return alertsToDismiss"
| "open_pair_alerts env tenantId (pair # pairs) alertsToDismiss =
     bind_eff (try_eff (al_search (Search (al_client env) AlertsIndex (pair_query tenantId pair)))) (\<lambda>r.
       open_pair_alerts env tenantId pairs
         (case r of
            Inl _ \<Rightarrow> alertsToDismiss
          | Inr openAlerts \<Rightarrow>
            (case al_decode env openAlerts of Inl _ \<Rightarrow> alertsToDismiss | Inr alerts \<Rightarrow> alertsToDismiss @ map DocId alerts)))"

definition send_delivered :: "delivered_env \<Rightarrow> (string \<rightharpoonup> string) \<Rightarrow> DestinationToAlert list \<Rightarrow> unit deliv" where
  "send_delivered env names alertDestinations =
     (if alertDestinations = [] then eff_return ()
      else bind_eff (build_some (buildMoreDeliveredAlert env names) alertDestinations) SendAlerts)"

definition resolve_delivered :: "delivered_env \<Rightarrow> string \<Rightarrow> (string \<times> string) list \<Rightarrow> unit deliv" where
  "resolve_delivered env tenantId healthyPairs =
     bind_eff (open_pair_alerts env tenantId healthyPairs []) AutoResolveAlerts"

section \<open>The job\<close>

text \<open>
  One tenant.  \<open>Inl\<close> is an error that goes into the result of the job; the volumes of the destinations
  fail without one.
\<close>

definition delivered_tenant ::
  "delivered_env \<Rightarrow> delivered_settings \<Rightarrow> int \<Rightarrow> int \<Rightarrow> string \<Rightarrow> unit deliv" where
  "delivered_tenant env dflt fromHours toHours t =
     bind_eff (wrap_eff (''failed to fetch tenant-level delivered more config for tenant '' @ t @ '': '')
       (getDeliveredMoreConfigForTenant env t)) (\<lambda>tenantConfig.
     bind_eff (getTimeRange env fromHours toHours) (\<lambda>(from, to).
     bind_eff (wrap_eff (''error while getting log source id to names map for tenant '' @ t @ '': '')
       (GetLogSourceIdToNamesMap env t)) (\<lambda>names.
     bind_eff (wrap_eff (''error while getting destinations for tenant '' @ t @ '': '')
       (GetDestinationByTenantId env t)) (\<lambda>destinations.
     bind_eff (wrap_eff (''error while finding ingested volumes per source for tenant '' @ t @ '': '')
       (findIngestedVolumesForSources env t from to)) (\<lambda>ins.
     bind_eff (try_eff (getDeliveredVolumeByDestinationAndSourceId env t from to)) (\<lambda>r.
       case r of
         Inl _ \<Rightarrow> eff_return ()
       | Inr outs \<Rightarrow>
           bind_eff (check_all_pairs (check_destination_pairs env (tenant_settings dflt tenantConfig) ins outs t from to)
               destinations ([], [])) (\<lambda>(alertDestinations, healthyPairs).
           bind_eff (send_delivered env names alertDestinations) (\<lambda>_.
             resolve_delivered env t healthyPairs))))))))"

fun delivered_tenants :: "(string \<Rightarrow> unit deliv) \<Rightarrow> string list \<Rightarrow> JobError list \<Rightarrow> JobError list deliv" where
  "delivered_tenants f [] jobErrors = eff_return jobErrors"
| "delivered_tenants f (t # tenants) jobErrors =
     bind_eff (try_eff (f t)) (\<lambda>r.
       delivered_tenants f tenants (case r of Inl e \<Rightarrow> jobErrors @ [\<lparr>Message = e\<rparr>] | Inr _ \<Rightarrow> jobErrors))"

definition AlertDestinationsWithMoreDataDeliveredThanInjection :: "delivered_env \<Rightarrow> JobResult deliv" where
  "AlertDestinationsWithMoreDataDeliveredThanInjection env =
     bind_eff (try_eff (al_query env (\<lambda>w. map fst (filter snd (vw_tenants w))))) (\<lambda>r.
       case r of
         Inl e \<Rightarrow> eff_return (NewJobResultFromErrors [\<lparr>Message = ''error while getting tenants: '' @ e\<rparr>])
       | Inr tenants \<Rightarrow>
         (case ve_manager env of
            Some e \<Rightarrow> eff_return (NewJobResultFromErrors [\<lparr>Message = ''error while creating alerts manager: '' @ e\<rparr>])
          | None \<Rightarrow>
              bind_eff (delivered_tenants
                (delivered_tenant env (default_settings (ve_getenv env))
                  (GetEnvInt (ve_getenv env) ''DESTINATION_DELIVERED_MORE_THAN_INJECTED_TIME_FROM_HOURS_MINUS'' 4)
                  (GetEnvInt (ve_getenv env) ''DESTINATION_DELIVERED_MORE_THAN_INJECTED_TIME_TO_HOURS_MINUS'' 1))
                tenants []) (\<lambda>jobErrors.
                if jobErrors = [] then eff_return NewJobResultSuccess
                else eff_return (NewJobResultFromErrors jobErrors))))"

end
