(* ===== verification/Delivered_Safety.thy ===== *)
theory Delivered_Safety
  imports Delivered_More Alert_Pass
begin

text \<open>
  What the check of delivered volumes guarantees: its comparison in floating point agrees with the exact one
  outside a small margin, it alerts only pairs of a live destination and a live source of it whose volumes
  compare so, and it resolves only open alerts of pairs that are in bounds.
\<close>

section \<open>The comparison\<close>

lemma normal_scaled:
  assumes "1 / 2 ^ 63 \<le> q" and "q \<le> 2 ^ 63"
  shows "normal (q * (1 / 2))" "normal (q * 2)" "normal (q * 100 * (1 / 2))" "normal (q * 100 * 2)"
  using assms by (auto intro!: normal_between)

lemma more_percentage_close:
  assumes "0 < i" and "i < out" and "out < 2 ^ 63"
  shows "close_to (10 * float_unit) (more_percentage out i) (of_int (out - i) / of_int i * 100)"
proof -
  let ?q = "of_int (out - i) / of_int i :: rat"
  have diff: "0 < out - i" "out - i < 2 ^ 63" "i < 2 ^ 63" using assms by auto
  have wrap: "wrap64 (out - i) = out - i" using diff by (simp add: wrap64_def)
  have i: "(1 :: rat) \<le> of_int i" "(of_int i :: rat) \<le> 2 ^ 63"
    using assms(1) diff(3) of_int_le_iff [of i "2 ^ 63", where ?'a = rat] by auto
  have d: "(1 :: rat) \<le> of_int (out - i)" "(of_int (out - i) :: rat) \<le> 2 ^ 63"
    using diff(1,2) of_int_le_iff [of "out - i" "2 ^ 63", where ?'a = rat] by auto
  have lo: "1 / 2 ^ 63 \<le> ?q" using i d by (intro frac_le) auto
  have hi: "?q \<le> 2 ^ 63 / 1" using i d by (intro frac_le) auto
  have normal: "normal (?q * (1 / 2))" "normal (?q * 2)" "normal (?q * 100 * (1 / 2))" "normal (?q * 100 * 2)"
    using normal_scaled [of ?q] lo hi unfolding div_by_1 by blast+
  have u: "2 * float_unit \<le> 1 / 2 ^ 50" "0 \<le> 2 * float_unit" by (simp_all add: float_unit_def)
  have 1: "close_to (8 * float_unit) (float_div (float_of_int (out - i)) (float_of_int i)) ?q"
    using close_to_div [OF close_to_int [OF diff(1,2)] close_to_int [OF assms(1) diff(3)] normal(1,2) u(2,1)]
    by simp
  have "float_of_int 100 = Fin False 100" by (simp add: float_of_int_exact)
  from close_to_mult [OF 1 this _ normal(3,4)] show ?thesis
    by (simp add: more_percentage_def wrap float_unit_def)
qed

text \<open>The margin of the comparison is a relative \<open>10 ^ - 15\<close>.\<close>

definition margin :: rat where
  "margin = 1 / 10 ^ 15"

lemma percentage_threshold:
  assumes "0 < i" and "i < out" and "out < 2 ^ 63" and "0 \<le> thr" and "thr < 2 ^ 63"
  shows "float_lt (float_of_int thr) (more_percentage out i) \<Longrightarrow>
      of_int thr < of_int (out - i) / of_int i * 100 * (1 + 2 * margin)"
    and "\<not> float_lt (float_of_int thr) (more_percentage out i) \<Longrightarrow>
      of_int (out - i) / of_int i * 100 * (1 - 2 * margin) \<le> of_int thr"
proof -
  let ?x = "of_int (out - i) / of_int i * 100 :: rat"
  obtain p where p: "more_percentage out i = Fin False p" "0 < p" "0 < ?x"
    "?x * (1 - 10 * float_unit) \<le> p" "p \<le> ?x * (1 + 10 * float_unit)"
    using more_percentage_close [OF assms(1-3)] by (rule close_toE)
  obtain t where t: "float_of_int thr = Fin False t" "of_int thr * (1 - 2 * float_unit) \<le> t" "t \<le> of_int thr * (1 + 2 * float_unit)"
  proof (cases "thr = 0")
    case True
    have "float_of_int 0 = Fin False 0" by (simp add: float_of_int_exact)
    then show ?thesis using that True by simp
  next
    case False
    then show ?thesis using close_to_int [of thr] assms(4,5) that by (auto elim: close_toE)
  qed
  have thr: "(0 :: rat) \<le> of_int thr" using assms(4) by simp
  have u: "(1 + 10 * float_unit) \<le> (1 + 2 * margin) * (1 - 2 * float_unit)"
    "(1 - 2 * margin) * (1 + 2 * float_unit) \<le> 1 - 10 * float_unit" "0 < 1 - 2 * float_unit" "0 < 1 + 2 * float_unit"
    by (simp_all add: margin_def float_unit_def)
  show "of_int thr < ?x * (1 + 2 * margin)" if "float_lt (float_of_int thr) (more_percentage out i)"
  proof -
    have "t < p" using that t(1) p(1) by (simp add: float_lt_def exact_def)
    then have "of_int thr * (1 - 2 * float_unit) < ?x * (1 + 10 * float_unit)" using t(2) p(5) by linarith
    also have "\<dots> \<le> ?x * ((1 + 2 * margin) * (1 - 2 * float_unit))" using u(1) p(3) by (intro mult_left_mono) auto
    finally have "of_int thr * (1 - 2 * float_unit) < ?x * (1 + 2 * margin) * (1 - 2 * float_unit)" by (simp only: mult.assoc)
    then show ?thesis using u(3) by (simp only: mult_less_cancel_right_pos)
  qed
  show "?x * (1 - 2 * margin) \<le> of_int thr" if "\<not> float_lt (float_of_int thr) (more_percentage out i)"
  proof -
    have "p \<le> t" using that t(1) p(1) by (simp add: float_lt_def exact_def)
    have "?x * ((1 - 2 * margin) * (1 + 2 * float_unit)) \<le> ?x * (1 - 10 * float_unit)" using u(2) p(3) by (intro mult_left_mono) auto
    also have "\<dots> \<le> of_int thr * (1 + 2 * float_unit)" using \<open>p \<le> t\<close> p(4) t(3) by linarith
    finally have "?x * (1 - 2 * margin) * (1 + 2 * float_unit) \<le> of_int thr * (1 + 2 * float_unit)" by (simp only: mult.assoc)
    then show ?thesis using u(4) by (simp only: mult_le_cancel_right_pos)
  qed
qed

text \<open>C39: A pair of volumes is judged as the exact comparison of its percentage with the threshold judges it,
  except within a relative margin of two in \<open>10 ^ 15\<close> around the threshold, where rounding decides; volumes below
  the minimum, and pairs that delivered no more than was ingested, are in bounds.\<close>

theorem compare_pair_right:
  assumes "0 < i" and "i < 2 ^ 63" and "out < 2 ^ 63" and "0 \<le> SetPercentage st" and "SetPercentage st < 2 ^ 63"
  shows "case compare_pair st (Some i) (Some out) of
      NotCompared \<Rightarrow> False
    | DeliveredMore \<Rightarrow> SetMinimum st \<le> i \<and> i < out
        \<and> of_int (SetPercentage st) < of_int (out - i) / of_int i * 100 * (1 + 2 * margin)
    | InBounds \<Rightarrow> i < SetMinimum st \<or> out \<le> i
        \<or> of_int (out - i) / of_int i * 100 * (1 - 2 * margin) \<le> of_int (SetPercentage st)"
proof (cases "SetMinimum st \<le> i \<and> i < out")
  case True
  then show ?thesis
    using percentage_threshold [OF assms(1) _ assms(3-5)] assms(1) by (simp add: compare_pair_def)
qed (use assms(1) in \<open>auto simp: compare_pair_def\<close>)

theorem compare_pair_right_witness:
  "compare_pair \<lparr>SetPercentage = 5, SetMinimum = 10\<rparr> (Some 64) (Some 128) = DeliveredMore
    \<and> 5 < of_int (128 - 64) / of_int 64 * (100 :: rat) * (1 + 2 * margin)"
proof -
  have f: "float_of_int 64 = Fin False 64" "float_of_int 100 = Fin False 100" "float_of_int 5 = Fin False 5"
    by (simp_all add: float_of_int_exact)
  have g: "float_div (Fin False 64) (Fin False 64) = Fin False 1" "float_mul (Fin False 1) (Fin False 100) = Fin False 100"
    "float_lt (Fin False 5) (Fin False 100)"
    using finish_int [of 1 False] finish_int [of 100 False]
    by (simp_all add: float_div_def float_mul_def float_lt_def exact_def)
  have "wrap64 (128 - 64) = 64" by (simp add: wrap64_def)
  then have "more_percentage 128 64 = Fin False 100" by (simp only: more_percentage_def f g)
  then have "compare_pair \<lparr>SetPercentage = 5, SetMinimum = 10\<rparr> (Some 64) (Some 128) = DeliveredMore"
    by (simp add: compare_pair_def f g)
  then show ?thesis
    using compare_pair_right [of 64 128 "\<lparr>SetPercentage = 5, SetMinimum = 10\<rparr>"] by simp
qed

section \<open>The pairs of a tenant\<close>

definition tables_same :: "delivered_world \<Rightarrow> delivered_world \<Rightarrow> bool" where
  "tables_same w v \<longleftrightarrow> vw_destinations v = vw_destinations w \<and> vw_pipelines v = vw_pipelines w"

text \<open>The messages of a computation that starts with the tables of \<open>w\<close>.\<close>

definition emits :: "(alert_message \<Rightarrow> bool) \<Rightarrow> delivered_world \<Rightarrow> 'a deliv \<Rightarrow> bool" where
  "emits P w m \<longleftrightarrow> (\<forall>v. tables_same w v \<longrightarrow> tables_same w (snd (m v))
     \<and> (\<exists>msgs. aw_sent (snd (m v)) = aw_sent v @ msgs \<and> (\<forall>x \<in> set msgs. P x)))"

lemma more_delivered: "alert_world.more v' = alert_world.more v \<Longrightarrow> tables_same w v \<Longrightarrow> tables_same w v'"
  by (cases v; cases v') (simp add: tables_same_def)

lemma emits_quiet: "keeps quiet m \<Longrightarrow> emits P w m"
  unfolding emits_def keeps_def quiet_def by (metis append_Nil2 empty_iff list.set(1) more_delivered)

lemma emits_bind:
  assumes "emits P w m" and "\<And>v x v'. m v = (Ok x, v') \<Longrightarrow> tables_same w v \<Longrightarrow> emits P w (f x)"
  shows "emits P w (bind_eff m f)"
  unfolding emits_def
proof (intro allI impI)
  fix v
  assume v: "tables_same w v"
  obtain r v1 where m: "m v = (r, v1)" by fastforce
  have 1: "tables_same w v1" "\<exists>ms. aw_sent v1 = aw_sent v @ ms \<and> (\<forall>x \<in> set ms. P x)"
    using assms(1) v m unfolding emits_def by (metis snd_conv)+
  show "tables_same w (snd (bind_eff m f v))
      \<and> (\<exists>msgs. aw_sent (snd (bind_eff m f v)) = aw_sent v @ msgs \<and> (\<forall>x \<in> set msgs. P x))"
  proof (cases r)
    case (Ok x)
    then have "tables_same w (snd (f x v1)) \<and> (\<exists>ms. aw_sent (snd (f x v1)) = aw_sent v1 @ ms \<and> (\<forall>x \<in> set ms. P x))"
      using assms(2) m v 1(1) unfolding emits_def by blast
    with 1(2) m Ok show ?thesis by (auto simp: bind_eff_def)
  qed (use 1 m in \<open>auto simp: bind_eff_def\<close>)
qed

lemma try_eff_leaves: "snd (try_eff m v) = snd (m v)"
  by (cases "m v"; cases "fst (m v)") (simp_all add: try_eff_def)

lemma emits_try: "emits P w m \<Longrightarrow> emits P w (try_eff m)"
  by (simp only: emits_def try_eff_leaves)

lemma emits_frame:
  "(\<And>v. aw_sent (snd (m v)) = aw_sent v \<and> vw_destinations (snd (m v)) = vw_destinations v
      \<and> vw_pipelines (snd (m v)) = vw_pipelines v) \<Longrightarrow> emits P w m"
  unfolding emits_def tables_same_def by auto

lemma emits_return [intro!]: "emits P w (eff_return x)"
  by (intro emits_quiet quiets)

lemma emits_read: "emits P w (\<lambda>v. (Ok (f v), v))"
  by (rule emits_frame) simp

lemma emits_change: "emits P w (change_world (\<lambda>v. v\<lparr>vw_cache := f v\<rparr>))"
  by (rule emits_frame) (simp add: change_world_def)

text \<open>A live destination of a tenant with a live source of one of its pipelines, and its volumes.\<close>

definition live_pairs :: "delivered_world \<Rightarrow> string \<Rightarrow> (string \<times> string) set" where
  "live_pairs w t = {(DstID d, SrcID s) | d s. d \<in> set (vw_destinations w) \<and> DstTenantID d = t \<and> DstStatus d = ''ACTIVE''
     \<and> (DstID d, s) \<in> set (vw_pipelines w) \<and> SrcStatus s = ''ACTIVE''}"

definition pair_verdict :: "delivered_settings \<Rightarrow> (string \<rightharpoonup> int) \<Rightarrow> delivered_map \<Rightarrow> string \<times> string \<Rightarrow> pair_verdict" where
  "pair_verdict st ins outs p =
     compare_pair st (ins (snd p)) (case outs (fst p) of None \<Rightarrow> None | Some m \<Rightarrow> m (snd p))"

definition found_right ::
  "delivered_world \<Rightarrow> string \<Rightarrow> delivered_settings \<Rightarrow> (string \<rightharpoonup> int) \<Rightarrow> delivered_map \<Rightarrow> pair_scan \<Rightarrow> bool" where
  "found_right w t st ins outs acc \<longleftrightarrow>
     (\<forall>a \<in> set (fst acc). (DaDestinationId a, DaSourceId a) \<in> live_pairs w t \<and> DaTenantId a = t
        \<and> pair_verdict st ins outs (DaDestinationId a, DaSourceId a) = DeliveredMore)
     \<and> (\<forall>p \<in> set (snd acc). p \<in> live_pairs w t \<and> pair_verdict st ins outs p = InBounds)"

lemma found_right_Nil: "found_right w t st ins outs ([], [])"
  by (simp add: found_right_def)

lemma check_pairs_right:
  assumes "outs (DstID d) = Some delivered" and "\<And>i. i \<in> set ids \<Longrightarrow> (DstID d, i) \<in> live_pairs w t"
    and "found_right w t st ins outs acc"
  shows "found_right w t st ins outs (check_pairs st ins delivered t from to d ids acc)"
  using assms(2,3)
proof (induction ids arbitrary: acc)
  case Nil
  then show ?case by simp
next
  case (Cons i ids)
  obtain as hs where acc: "acc = (as, hs)" by (cases acc)
  let ?acc = "case compare_pair st (ins i) (delivered i) of
          NotCompared \<Rightarrow> (as, hs)
        | InBounds \<Rightarrow> (as, hs @ [(DstID d, i)])
        | DeliveredMore \<Rightarrow>
            (as @ [\<lparr>DaDestinationId = DstID d, DaSourceId = i, DaTenantId = t, DaDataPlaneId = DstDataPlaneId d,
                    DaDestinationName = DstName d, DaOutData = the (delivered i), DaInData = the (ins i),
                    DaFromTime = from, DaToTime = to\<rparr>], hs)"
  have "(DstID d, i) \<in> live_pairs w t" using Cons.prems(1) by simp
  then have "found_right w t st ins outs ?acc"
    using Cons.prems(2) assms(1)
    by (cases "compare_pair st (ins i) (delivered i)") (auto simp: acc found_right_def pair_verdict_def)
  then show ?case using Cons by (simp add: acc)
qed

section \<open>The scan of the destinations\<close>

text \<open>The database returns rows of the tables, in whatever order.\<close>

definition some_orders :: "delivered_env \<Rightarrow> bool" where
  "some_orders env \<longleftrightarrow> (\<forall>n xs. set (ve_rows env n xs) \<subseteq> set xs) \<and> (\<forall>n xs. set (ve_source_rows env n xs) \<subseteq> set xs)"

lemma emits_cache: "emits P w (initializeSandboxAlertCache env)"
  unfolding initializeSandboxAlertCache_def
  by (rule emits_bind [OF emits_try [OF emits_quiet [OF quiet_ops(2)]]])
    (auto intro!: emits_frame simp: change_world_def split: sum.split)

lemma emits_skip: "emits P w (skip_sandbox env t d)"
proof -
  have "emits P w (\<lambda>v. if vw_cache_ready v then (Ok (), v) else initializeSandboxAlertCache env (v\<lparr>vw_cache_ready := True\<rparr>))"
    unfolding emits_def
  proof (intro allI impI)
    fix v
    assume v: "tables_same w v"
    then have "tables_same w (v\<lparr>vw_cache_ready := True\<rparr>)" by (simp add: tables_same_def)
    then show "tables_same w (snd (if vw_cache_ready v then (Ok (), v) else initializeSandboxAlertCache env (v\<lparr>vw_cache_ready := True\<rparr>)))
      \<and> (\<exists>msgs. aw_sent (snd (if vw_cache_ready v then (Ok (), v) else initializeSandboxAlertCache env (v\<lparr>vw_cache_ready := True\<rparr>)))
            = aw_sent v @ msgs \<and> (\<forall>x \<in> set msgs. P x))"
      using emits_cache [of P w env] v unfolding emits_def by auto
  qed
  then have "emits P w (ShouldSkipSandboxAlerts env t)"
    unfolding ShouldSkipSandboxAlerts_def
    by (rule emits_bind, intro emits_bind)
      (auto intro!: emits_bind emits_read emits_change split: option.split prod.split)
  then show ?thesis
    unfolding skip_sandbox_def by (auto intro!: emits_bind split: prod.split)
qed

lemma emits_sources: "emits P w (GetSourceByDestinationId env i)"
  unfolding GetSourceByDestinationId_def by (intro emits_quiet quiets)

lemma check_destination_pairs_emits: "emits P w (check_destination_pairs env st ins outs t from to d acc)"
  unfolding check_destination_pairs_def
  by (auto intro!: emits_bind [OF emits_skip] emits_bind [OF emits_try [OF emits_sources]] split: option.split sum.split)

lemma check_destination_pairs_right:
  assumes "some_orders env" and "d \<in> set (vw_destinations w)" and "DstTenantID d = t" and "tables_same w v"
    and "found_right w t st ins outs acc"
    and "check_destination_pairs env st ins outs t from to d acc v = (Ok acc', v')"
  shows "found_right w t st ins outs acc'"
proof -
  have "acc' = acc \<or> (\<exists>delivered v1 srcs v2. outs (DstID d) = Some delivered \<and> DstStatus d = ''ACTIVE''
      \<and> tables_same w v1 \<and> GetSourceByDestinationId env (DstID d) v1 = (Ok srcs, v2)
      \<and> acc' = check_pairs st ins delivered t from to d (map SrcID (filter (\<lambda>s. SrcStatus s = ''ACTIVE'') srcs)) acc)"
  proof (cases "DstStatus d = ''ACTIVE''")
    case True
    with assms(6) obtain skip v1 where s: "skip_sandbox env t d v = (Ok skip, v1)"
      and rest: "(if skip then eff_return acc
        else case outs (DstID d) of
          None \<Rightarrow> eff_return acc
        | Some delivered \<Rightarrow>
            bind_eff (try_eff (GetSourceByDestinationId env (DstID d))) (\<lambda>r.
              case r of
                Inl _ \<Rightarrow> eff_return acc
              | Inr sourcesList \<Rightarrow>
                  eff_return (check_pairs st ins delivered t from to d
                    (map SrcID (filter (\<lambda>s. SrcStatus s = ''ACTIVE'') sourcesList)) acc))) v1 = (Ok acc', v')"
      by (auto simp: check_destination_pairs_def bind_eff_Ok)
    have "tables_same w v1" using emits_skip [of "\<lambda>_. True" w env t d] s assms(4) unfolding emits_def by (metis snd_conv)
    with True rest show ?thesis
      by (auto simp: bind_eff_Ok try_eff_Ok split: if_splits option.splits sum.splits) (metis sum.exhaust)
  qed (use assms(6) in \<open>simp add: check_destination_pairs_def\<close>)
  then show ?thesis
  proof
    assume "\<exists>delivered v1 srcs v2. outs (DstID d) = Some delivered \<and> DstStatus d = ''ACTIVE''
      \<and> tables_same w v1 \<and> GetSourceByDestinationId env (DstID d) v1 = (Ok srcs, v2)
      \<and> acc' = check_pairs st ins delivered t from to d (map SrcID (filter (\<lambda>s. SrcStatus s = ''ACTIVE'') srcs)) acc"
    then obtain delivered v1 srcs v2 where o: "outs (DstID d) = Some delivered" "DstStatus d = ''ACTIVE''" "tables_same w v1"
      and g: "GetSourceByDestinationId env (DstID d) v1 = (Ok srcs, v2)"
      and acc': "acc' = check_pairs st ins delivered t from to d (map SrcID (filter (\<lambda>s. SrcStatus s = ''ACTIVE'') srcs)) acc"
      by blast
    have "set srcs \<subseteq> {s. (DstID d, s) \<in> set (vw_pipelines w)}"
      using g assms(1) o(3)
      by (fastforce simp: GetSourceByDestinationId_def al_query_def Let_def some_orders_def tables_same_def split: option.splits)
    then have "(DstID d, i) \<in> live_pairs w t" if "i \<in> set (map SrcID (filter (\<lambda>s. SrcStatus s = ''ACTIVE'') srcs))" for i
      using that assms(2,3) o(2) unfolding live_pairs_def by fastforce
    from check_pairs_right [OF o(1) this assms(5)] show ?thesis unfolding acc' .
  qed (use assms(5) in simp)
qed

lemma check_all_pairs_emits: "emits P w (check_all_pairs (check_destination_pairs env st ins outs t from to) ds acc)"
  by (induction ds arbitrary: acc) (auto intro!: emits_bind check_destination_pairs_emits)

lemma check_all_pairs_right:
  assumes "some_orders env" and "set ds \<subseteq> {d \<in> set (vw_destinations w). DstTenantID d = t}"
    and "tables_same w v" and "found_right w t st ins outs acc"
    and "check_all_pairs (check_destination_pairs env st ins outs t from to) ds acc v = (Ok acc', v')"
  shows "found_right w t st ins outs acc'"
  using assms(2-5)
proof (induction ds arbitrary: acc v)
  case Nil
  then show ?case by simp
next
  case (Cons d ds)
  from Cons.prems(4) obtain acc1 v1 where
    c: "check_destination_pairs env st ins outs t from to d acc v = (Ok acc1, v1)"
    and rest: "check_all_pairs (check_destination_pairs env st ins outs t from to) ds acc1 v1 = (Ok acc', v')"
    by (auto simp: bind_eff_Ok)
  have "tables_same w v1"
    using check_destination_pairs_emits [of "\<lambda>_. True" w env st ins outs t "from" "to" d acc] c Cons.prems(2)
    unfolding emits_def by (metis snd_conv)
  moreover have "found_right w t st ins outs acc1"
    using check_destination_pairs_right [OF assms(1) _ _ Cons.prems(2,3) c] Cons.prems(1) by auto
  ultimately show ?case using Cons.IH rest Cons.prems(1) by auto
qed

section \<open>Messages\<close>

definition delivered_message ::
  "delivered_env \<Rightarrow> delivered_world \<Rightarrow> string \<Rightarrow> delivered_settings \<Rightarrow> (string \<rightharpoonup> int) \<Rightarrow> delivered_map \<Rightarrow> alert_message \<Rightarrow> bool" where
  "delivered_message env w t st ins outs m \<longleftrightarrow>
     (case m of
        SendAlert a \<Rightarrow>
          (FunctionalityEntityId a, SecondaryEntityId a) \<in> live_pairs w t \<and> AlertTenantId a = t
          \<and> pair_verdict st ins outs (FunctionalityEntityId a, SecondaryEntityId a) = DeliveredMore
      | AutoResolve i \<Rightarrow>
          (\<exists>p h hits h' docs. p \<in> live_pairs w t \<and> pair_verdict st ins outs p = InBounds
            \<and> Search (al_client env) AlertsIndex (pair_query t p) h = (Ok hits, h')
            \<and> al_decode env hits = Inr docs \<and> i \<in> DocId ` set docs))"

lemma quiet_build_some [quiets]: "(\<And>x. keeps quiet (build x)) \<Longrightarrow> keeps quiet (build_some build xs)"
  by (induction xs) (auto intro!: quiets)

lemma quiet_build_delivered [quiets]: "keeps quiet (buildMoreDeliveredAlert env names d)"
  unfolding buildMoreDeliveredAlert_def by (auto intro!: quiets split: option.split)

lemma build_delivered_entity:
  assumes "buildMoreDeliveredAlert env names d v = (Ok a, v')"
  shows "FunctionalityEntityId a = DaDestinationId d" "SecondaryEntityId a = DaSourceId d" "AlertTenantId a = DaTenantId d"
  using assms
  by (auto simp: buildMoreDeliveredAlert_def bind_eff_Ok NewAlert_def Let_def built_alert_def delivered_alert_options_def
      delivered_entity_def split: option.splits)

lemma build_some_from:
  "build_some build xs v = (Ok as, v') \<Longrightarrow> \<forall>a \<in> set as. \<exists>x \<in> set xs. \<exists>u u'. build x u = (Ok a, u')"
proof (induction xs arbitrary: v as v')
  case (Cons x xs)
  then obtain r v1 rest v2 where r: "try_eff (build x) v = (Ok r, v1)" and rest: "build_some build xs v1 = (Ok rest, v2)"
    and as: "as = (case r of Inl _ \<Rightarrow> rest | Inr a \<Rightarrow> a # rest)"
    by (auto simp: bind_eff_Ok)
  have "\<forall>a \<in> set rest. \<exists>x \<in> set xs. \<exists>u u'. build x u = (Ok a, u')" using Cons.IH [OF rest] .
  moreover have "r = Inr a \<Longrightarrow> build x v = (Ok a, v1)" for a using r by (auto simp: try_eff_Ok)
  ultimately show ?case unfolding as by (cases r) auto
qed simp

lemma emits_send:
  assumes "found_right w t st ins outs acc"
  shows "emits (delivered_message env w t st ins outs) w (send_delivered env names (fst acc))"
proof -
  have "emits (delivered_message env w t st ins outs) w (SendAlerts as)"
    if "build_some (buildMoreDeliveredAlert env names) (fst acc) v = (Ok as, v')" for as v v'
  proof -
    have "\<forall>a \<in> set as. delivered_message env w t st ins outs (SendAlert a)"
      using build_some_from [OF that] build_delivered_entity assms
      by (fastforce simp: delivered_message_def found_right_def)
    then show ?thesis by (auto simp: emits_def SendAlerts_sends tables_same_def)
  qed
  then show ?thesis
    unfolding send_delivered_def
    by (auto intro!: emits_bind [OF emits_quiet] quiets)
qed

text \<open>The ids that are collected come from the answers for healthy pairs.\<close>

lemma open_pair_alerts_from:
  "open_pair_alerts env t pairs acc v = (Ok ids, v') \<Longrightarrow>
     \<forall>i \<in> set ids. i \<in> set acc \<or> (\<exists>p \<in> set pairs. \<exists>h hits h' docs.
        Search (al_client env) AlertsIndex (pair_query t p) h = (Ok hits, h') \<and> al_decode env hits = Inr docs \<and> i \<in> DocId ` set docs)"
proof (induction pairs arbitrary: acc v)
  case (Cons p pairs)
  from Cons.prems obtain r v1 where
    r: "try_eff (al_search (Search (al_client env) AlertsIndex (pair_query t p))) v = (Ok r, v1)"
    and rest: "open_pair_alerts env t pairs
         (case r of
            Inl _ \<Rightarrow> acc
          | Inr openAlerts \<Rightarrow>
            (case al_decode env openAlerts of Inl _ \<Rightarrow> acc | Inr alerts \<Rightarrow> acc @ map DocId alerts)) v1 = (Ok ids, v')"
    by (auto simp: bind_eff_Ok)
  have "\<exists>h h'. Search (al_client env) AlertsIndex (pair_query t p) h = (Ok hits, h')" if "r = Inr hits" for hits
    using r that by (auto simp: try_eff_Ok al_search_def split: prod.splits)
  then show ?case
    using Cons.IH [OF rest] by (auto split: sum.splits) blast+
qed simp

lemma quiet_open_pair_alerts [quiets]: "keeps quiet (open_pair_alerts env t pairs acc)"
  by (induction pairs arbitrary: acc) (auto intro!: quiets)

lemma emits_resolve:
  assumes "found_right w t st ins outs acc"
  shows "emits (delivered_message env w t st ins outs) w (resolve_delivered env t (snd acc))"
  unfolding resolve_delivered_def
proof (rule emits_bind [OF emits_quiet [OF quiet_open_pair_alerts]])
  fix v ids v'
  assume "open_pair_alerts env t (snd acc) [] v = (Ok ids, v')"
  from open_pair_alerts_from [OF this]
  have "\<forall>i \<in> set ids. delivered_message env w t st ins outs (AutoResolve i)"
    using assms by (fastforce simp: delivered_message_def found_right_def)
  then show "emits (delivered_message env w t st ins outs) w (AutoResolveAlerts ids)"
    by (auto simp: emits_def AutoResolveAlerts_sends tables_same_def)
qed

section \<open>A tenant\<close>

text \<open>Settings and volumes that a run for a tenant can have read.\<close>

definition read_settings :: "delivered_settings \<Rightarrow> delivered_settings \<Rightarrow> bool" where
  "read_settings dflt st \<longleftrightarrow> (\<exists>row. st = tenant_settings dflt row)"

definition read_volumes :: "delivered_env \<Rightarrow> string \<Rightarrow> (string \<rightharpoonup> int) \<Rightarrow> delivered_map \<Rightarrow> bool" where
  "read_volumes env t ins outs \<longleftrightarrow> (\<exists>from to v1 v2 v3 v4.
     findIngestedVolumesForSources env t from to v1 = (Ok ins, v2)
     \<and> getDeliveredVolumeByDestinationAndSourceId env t from to v3 = (Ok outs, v4))"

definition tenant_message ::
  "delivered_env \<Rightarrow> delivered_settings \<Rightarrow> delivered_world \<Rightarrow> string \<Rightarrow> alert_message list \<Rightarrow> bool" where
  "tenant_message env dflt w t msgs \<longleftrightarrow> msgs = [] \<or> (\<exists>st ins outs. read_settings dflt st \<and> read_volumes env t ins outs
     \<and> (\<forall>m \<in> set msgs. delivered_message env w t st ins outs m))"

lemma quiet_volumes [quiets]:
  "keeps quiet (findIngestedVolumesForSources env t from to)"
  "keeps quiet (getDeliveredVolumeByDestinationAndSourceId env t from to)"
  by (auto intro!: quiets simp: findIngestedVolumesForSources_def getDeliveredVolumeByDestinationAndSourceId_def
      findDeliveredVolumesForDestinations_def)

lemma quiet_reads [quiets]:
  "keeps quiet (getDeliveredMoreConfigForTenant env t)" "keeps quiet (getTimeRange env a b)"
  "keeps quiet (GetLogSourceIdToNamesMap env t)" "keeps quiet (GetDestinationByTenantId env t)"
  by (auto intro!: quiets simp: getDeliveredMoreConfigForTenant_def getTimeRange_def GetLogSourceIdToNamesMap_def
      GetDestinationByTenantId_def)

text \<open>A computation whose messages satisfy a condition on all of them.\<close>

definition adds :: "(alert_message list \<Rightarrow> bool) \<Rightarrow> delivered_world \<Rightarrow> 'a deliv \<Rightarrow> bool" where
  "adds P w m \<longleftrightarrow> (\<forall>v. tables_same w v \<longrightarrow> (\<exists>msgs. aw_sent (snd (m v)) = aw_sent v @ msgs \<and> P msgs))"

lemma adds_bind:
  assumes "keeps quiet m" and "P []" and "\<And>v x v'. m v = (Ok x, v') \<Longrightarrow> tables_same w v \<Longrightarrow> adds P w (f x)"
  shows "adds P w (bind_eff m f)"
  unfolding adds_def
proof (intro allI impI)
  fix v
  assume v: "tables_same w v"
  obtain r v1 where m: "m v = (r, v1)" by fastforce
  have q: "aw_sent v1 = aw_sent v" "tables_same w v1"
    using quietD [OF assms(1) m] v more_delivered unfolding quiet_def by blast+
  show "\<exists>msgs. aw_sent (snd (bind_eff m f v)) = aw_sent v @ msgs \<and> P msgs"
  proof (cases r)
    case (Ok x)
    then have "\<exists>msgs. aw_sent (snd (f x v1)) = aw_sent v1 @ msgs \<and> P msgs"
      using assms(3) m v q(2) unfolding adds_def by blast
    then show ?thesis using m Ok q by (simp add: bind_eff_def)
  qed (use m q assms(2) in \<open>auto simp: bind_eff_def\<close>)
qed

lemma adds_return: "P [] \<Longrightarrow> adds P w (eff_return x)"
  by (simp add: adds_def)

lemma adds_emits: "emits Q w m \<Longrightarrow> (\<And>msgs. \<forall>x \<in> set msgs. Q x \<Longrightarrow> P msgs) \<Longrightarrow> adds P w m"
  unfolding adds_def emits_def by blast

lemma destinations_of_tenant:
  assumes "some_orders env" and "GetDestinationByTenantId env t v = (Ok ds, v')" and "tables_same w v"
  shows "set ds \<subseteq> {d \<in> set (vw_destinations w). DstTenantID d = t}"
  using assms
  by (fastforce simp: GetDestinationByTenantId_def al_query_def Let_def some_orders_def tables_same_def split: option.splits)

lemma emits_pairs_then_messages:
  assumes "some_orders env" and "set ds \<subseteq> {d \<in> set (vw_destinations w). DstTenantID d = t}"
  shows "emits (delivered_message env w t st ins outs) w
    (bind_eff (check_all_pairs (check_destination_pairs env st ins outs t from to) ds ([], [])) (\<lambda>(alertDestinations, healthyPairs).
       bind_eff (send_delivered env names alertDestinations) (\<lambda>_. resolve_delivered env t healthyPairs)))"
proof (rule emits_bind [OF check_all_pairs_emits])
  fix v acc v'
  assume "check_all_pairs (check_destination_pairs env st ins outs t from to) ds ([], []) v = (Ok acc, v')" "tables_same w v"
  then have "found_right w t st ins outs acc" using check_all_pairs_right [OF assms(1,2) _ found_right_Nil] by blast
  from emits_send [OF this] emits_resolve [OF this]
  have "emits (delivered_message env w t st ins outs) w
    (bind_eff (send_delivered env names (fst acc)) (\<lambda>_. resolve_delivered env t (snd acc)))"
    by (intro emits_bind)
  then show "emits (delivered_message env w t st ins outs) w
    (case acc of (alertDestinations, healthyPairs) \<Rightarrow>
       bind_eff (send_delivered env names alertDestinations) (\<lambda>_. resolve_delivered env t healthyPairs))"
    by (simp add: split_def)
qed

lemma delivered_tenant_adds:
  assumes "some_orders env"
  shows "adds (tenant_message env dflt w t) w (delivered_tenant env dflt fromHours toHours t)"
proof -
  have nil: "tenant_message env dflt w t []" by (simp add: tenant_message_def)
  have last: "adds (tenant_message env dflt w t) w
      (case r of
         Inl _ \<Rightarrow> eff_return ()
       | Inr outs \<Rightarrow>
           bind_eff (check_all_pairs (check_destination_pairs env (tenant_settings dflt c) ins outs t fr til) ds ([], []))
             (\<lambda>(alertDestinations, healthyPairs).
               bind_eff (send_delivered env names alertDestinations) (\<lambda>_. resolve_delivered env t healthyPairs)))"
    if ds: "set ds \<subseteq> {d \<in> set (vw_destinations w). DstTenantID d = t}"
      and i: "findIngestedVolumesForSources env t fr til v1 = (Ok ins, v2)"
      and o: "try_eff (getDeliveredVolumeByDestinationAndSourceId env t fr til) v3 = (Ok r, v4)"
    for c ds ins r fr til v1 v2 v3 v4 names
  proof (cases r)
    case (Inr outs)
    have "read_volumes env t ins outs" using i o Inr unfolding read_volumes_def by (auto simp: try_eff_Ok)
    moreover have "read_settings dflt (tenant_settings dflt c)" by (auto simp: read_settings_def)
    ultimately have all: "tenant_message env dflt w t msgs"
      if "\<forall>x \<in> set msgs. delivered_message env w t (tenant_settings dflt c) ins outs x" for msgs
      using that unfolding tenant_message_def by blast
    show ?thesis unfolding Inr sum.case by (rule adds_emits [OF emits_pairs_then_messages [OF assms ds] all])
  qed (simp add: adds_return nil)
  show ?thesis
    unfolding delivered_tenant_def split_def
    apply (rule adds_bind [where P = "tenant_message env dflt w t", OF quiet_wrap [OF quiet_reads(1)] nil])
    apply (rule adds_bind [where P = "tenant_message env dflt w t", OF quiet_reads(2) nil])
    apply (rule adds_bind [where P = "tenant_message env dflt w t", OF quiet_wrap [OF quiet_reads(3)] nil])
    apply (rule adds_bind [where P = "tenant_message env dflt w t", OF quiet_wrap [OF quiet_reads(4)] nil])
    apply (rule adds_bind [where P = "tenant_message env dflt w t", OF quiet_wrap [OF quiet_volumes(1)] nil])
    apply (rule adds_bind [where P = "tenant_message env dflt w t", OF quiet_try [OF quiet_volumes(2)] nil])
    apply (simp only: wrap_eff_Ok)
    apply (rule last [unfolded split_def, OF destinations_of_tenant [OF assms]])
       apply assumption+
    done
qed

text \<open>An example: a destination with one source, and a service without statistics.\<close>

definition delivered_example :: delivered_env where
  "delivered_example =
     \<lparr>al_client = (\<lambda>_ _. Reply 200 '''' '''' (Inr (SearchBody []))), al_fault = (\<lambda>_. None), al_now = (\<lambda>n. int n),
      al_decode = (\<lambda>_. Inr []), al_sha256 = (\<lambda>s. s), al_fuel = 3, ve_rows = (\<lambda>_ xs. xs), ve_source_rows = (\<lambda>_ xs. rev xs),
      ve_by_update = (\<lambda>_ xs. xs), ve_by_tenant = (\<lambda>_ xs. xs), ve_getenv = (\<lambda>_. ''''), ve_overflow = (\<lambda>_. 0),
      ve_local = (\<lambda>_. ''''), ve_manager = None\<rparr>"

definition delivered_start :: delivered_world where
  "delivered_start =
     \<lparr>aw_calls = [], aw_sent = [], aw_operations = 0, aw_clock = 0, vw_tenants = [(''t'', True)], vw_configs = [],
      vw_destinations = [\<lparr>DstID = ''d'', DstName = ''lake'', DstStatus = ''ACTIVE'', DstTenantID = ''t'', DstDataPlaneId = ''p''\<rparr>],
      vw_sources = [], vw_pipelines = [], vw_cache_ready = False, vw_cache_error = None, vw_cache = []\<rparr>"



end
